(* ===== verification/Prelude.thy ===== *)
theory Prelude
  imports Main "HOL-Library.Word"
begin

text \<open>
  Shared vocabulary of the development: bytes and machine words, the faults of the C machine as
  values, the fixed width encodings that the sources write with \<open>memcpy\<close> and \<open>htobe*\<close>, and the
  two interfaces (a byte codec, a state machine with an invariant) that several components
  instantiate.
\<close>

unbundle bit_operations_syntax

subsection \<open>Types\<close>

type_synonym u8 = "8 word"
type_synonym u16 = "16 word"
type_synonym u32 = "32 word"
type_synonym u64 = "64 word"
type_synonym bytes = "u8 list"

text \<open>
  What a run of a C function can do besides returning: read or write outside an object,
  dereference a null pointer, fail an \<open>assert\<close>, divide by zero, or never return. A result is a fault or the value
  the function computes; C's own error returns (a negative int, a null pointer) are ordinary values.
\<close>

datatype fault = Out_of_bounds | Null_deref | Assert_fail | Div_by_zero | Diverges

type_synonym 'a res = "fault + 'a"

fun bind_res :: "'f + 'a \<Rightarrow> ('a \<Rightarrow> 'f + 'b) \<Rightarrow> 'f + 'b" where
  "bind_res (Inl f) k = Inl f"
| "bind_res (Inr x) k = k x"

lemma bind_res_eq_Inr: "bind_res m k = Inr y \<longleftrightarrow> (\<exists>x. m = Inr x \<and> k x = Inr y)"
  by (cases m) auto

lemma bind_res_cong [fundef_cong]:
  "m = m' \<Longrightarrow> (\<And>x. m' = Inr x \<Longrightarrow> k x = k' x) \<Longrightarrow> bind_res m k = bind_res m' k'"
  by (cases m') auto

text \<open>Collections of simplification rules: byte codecs, and facts about the state of a component.\<close>

named_theorems codec_simps \<open>encoders and decoders of fixed width words\<close>
named_theorems inv_intros \<open>preservation of a component's invariant by its operations\<close>

subsection \<open>Lists\<close>

text \<open>\<open>memcpy\<close> of \<open>xs\<close> to the start of an array: the rest of the array keeps its bytes.\<close>

definition overlay :: "'a list \<Rightarrow> 'a list \<Rightarrow> 'a list" where
  "overlay arr xs = xs @ drop (length xs) arr"

lemma length_overlay [simp]: "length xs \<le> length arr \<Longrightarrow> length (overlay arr xs) = length arr"
  by (simp add: overlay_def)

lemma overlay_full [simp]: "length arr \<le> length xs \<Longrightarrow> overlay arr xs = xs"
  by (simp add: overlay_def)

lemma take_overlay [simp]: "n = length xs \<Longrightarrow> take n (overlay arr xs) = xs"
  by (simp add: overlay_def)

text \<open>The C string stored at the start of an array: the bytes before the first zero.\<close>

definition c_string :: "bytes \<Rightarrow> bytes" where
  "c_string xs = takeWhile (\<lambda>b. b \<noteq> 0) xs"

lemma c_string_overlay:
  assumes "0 \<notin> set xs" and "length xs < n"
  shows "c_string (overlay (replicate n 0) xs) = xs"
proof -
  from assms(2) obtain k where k: "n - length xs = Suc k"
    by (metis Suc_diff_Suc)
  from assms(1) have "takeWhile (\<lambda>b. b \<noteq> 0) (xs @ 0 # ys) = xs" for ys
    by (induction xs) auto
  then show ?thesis
    using assms(2) by (simp add: c_string_def overlay_def k)
qed

lemma c_string_no_zero: "0 \<notin> set xs \<Longrightarrow> c_string xs = xs"
  by (induction xs) (auto simp: c_string_def)

subsection \<open>Characters\<close>

text \<open>The bytes of a string literal, \<open>isspace\<close>, and the decimal digits of \<open>%d\<close>.\<close>

definition str :: "string \<Rightarrow> bytes" where
  "str s = map of_char s"

definition is_space :: "u8 \<Rightarrow> bool" where
  "is_space c \<longleftrightarrow> c = 32 \<or> (9 \<le> c \<and> c \<le> 13)"

function dec_digits :: "nat \<Rightarrow> bytes" where
  "dec_digits n = (if n < 10 then [48 + of_nat n] else dec_digits (n div 10) @ [48 + of_nat (n mod 10)])"
  by pat_completeness auto
termination by (relation "measure id") auto

declare dec_digits.simps [simp del]

definition print_int :: "int \<Rightarrow> bytes" where
  "print_int i = (if i < 0 then 45 # dec_digits (nat (- i)) else dec_digits (nat i))"

text \<open>The digits at the start of a string, added to a number.\<close>

fun scan_digits :: "int \<Rightarrow> bytes \<Rightarrow> int" where
  "scan_digits n [] = n"
| "scan_digits n (c # cs) = (if 48 \<le> c \<and> c \<le> 57 then scan_digits (10 * n + uint (c - 48)) cs else n)"

fun scan_signed :: "bytes \<Rightarrow> int" where
  "scan_signed (c # cs) =
     (if c = 45 then - scan_digits 0 cs else if c = 43 then scan_digits 0 cs else scan_digits 0 (c # cs))"
| "scan_signed [] = 0"

text \<open>\<open>strtoll\<close> in base 10, which stops at the limits of its type, and \<open>atoi\<close>, which cuts a \<open>long\<close>.\<close>

definition strtoll10 :: "bytes \<Rightarrow> int" where
  "strtoll10 cs = max (- (2 ^ 63)) (min (2 ^ 63 - 1) (scan_signed (dropWhile is_space cs)))"

definition atoi :: "bytes \<Rightarrow> int" where
  "atoi cs = sint (word_of_int (strtoll10 cs) :: 32 word)"

lemma digit_byte: "n < 10 \<Longrightarrow> 48 \<le> (48 + of_nat n :: u8) \<and> (48 + of_nat n :: u8) \<le> 57 \<and> uint (of_nat n :: u8) = int n"
proof -
  assume "n < 10"
  then have "n \<in> {0, 1, 2, 3, 4, 5, 6, 7, 8, 9}" by auto
  then show ?thesis by auto
qed

lemma dec_digits_range: "b \<in> set (dec_digits n) \<Longrightarrow> 48 \<le> b \<and> b \<le> 57"
proof (induction n rule: dec_digits.induct)
  case (1 n)
  then show ?case
    using digit_byte [of n] digit_byte [of "n mod 10"]
    by (subst (asm) (2) dec_digits.simps) (auto split: if_splits)
qed

lemma dec_digits_not_Nil [simp]: "dec_digits n \<noteq> []"
  by (subst dec_digits.simps) simp

lemma scan_digits_append:
  "(\<And>b. b \<in> set xs \<Longrightarrow> 48 \<le> b \<and> b \<le> 57) \<Longrightarrow> scan_digits n (xs @ ys) = scan_digits (scan_digits n xs) ys"
  by (induction xs arbitrary: n) auto

lemma scan_dec_digits: "scan_digits 0 (dec_digits n) = int n"
proof (induction n rule: dec_digits.induct)
  case (1 n)
  show ?case
  proof (cases "n < 10")
    case True
    then show ?thesis using digit_byte [of n] by (simp add: dec_digits.simps [of n])
  next
    case False
    then have "scan_digits 0 (dec_digits n) = scan_digits (int (n div 10)) [48 + of_nat (n mod 10)]"
      using 1 by (subst dec_digits.simps) (simp add: scan_digits_append dec_digits_range)
    moreover have "int n = 10 * int (n div 10) + int (n mod 10)"
      by (metis mult_div_mod_eq of_nat_add of_nat_mult of_nat_numeral)
    ultimately show ?thesis using digit_byte [of "n mod 10"] by simp
  qed
qed

lemma strtoll10_dec_digits: "int n < 2 ^ 63 \<Longrightarrow> strtoll10 (dec_digits n) = int n"
proof -
  assume n: "int n < 2 ^ 63"
  obtain c cs where d: "dec_digits n = c # cs" by (cases "dec_digits n") simp_all
  then have c: "48 \<le> c" "c \<le> 57" using dec_digits_range [of c n] by simp_all
  then have "\<not> is_space c" "c \<noteq> 45" "c \<noteq> 43"
    by (auto simp: is_space_def word_le_nat_alt)
  then have "strtoll10 (dec_digits n) = max (- (2 ^ 63)) (min (2 ^ 63 - 1) (scan_digits 0 (dec_digits n)))"
    by (simp add: strtoll10_def d)
  then show ?thesis using n by (simp add: scan_dec_digits)
qed

subsection \<open>Fixed width encodings\<close>

text \<open>
  The bytes of a word, least significant first, and the word of such bytes; a big endian field is
  the reverse.
\<close>

fun le_bytes :: "nat \<Rightarrow> 'a::len word \<Rightarrow> bytes" where
  "le_bytes 0 w = []"
| "le_bytes (Suc n) w = ucast w # le_bytes n (drop_bit 8 w)"

fun le_word :: "bytes \<Rightarrow> 'a::len word" where
  "le_word [] = 0"
| "le_word (b # bs) = ucast b OR push_bit 8 (le_word bs)"

lemma le_bytes_numeral [simp]:
  "le_bytes (numeral k) w = ucast w # le_bytes (pred_numeral k) (drop_bit 8 w)"
  by (simp add: numeral_eq_Suc)

lemma length_le_bytes: "length (le_bytes n w) = n"
  by (induction n arbitrary: w) auto

lemma le_word_le_bytes: "le_word (le_bytes n w) = take_bit (8 * n) w"
proof (induction n arbitrary: w)
  case 0
  then show ?case by simp
next
  case (Suc n)
  show ?case
    unfolding le_bytes.simps le_word.simps Suc.IH
    by (rule bit_word_eqI) (auto simp: bit_simps)
qed

text \<open>\<open>htobe16\<close>/\<open>htobe32\<close> followed by \<open>memcpy\<close>, and back.\<close>

definition put_be16 :: "u16 \<Rightarrow> bytes" where
  "put_be16 w = rev (le_bytes 2 w)"

definition get_be16 :: "bytes \<Rightarrow> u16" where
  "get_be16 bs = le_word (rev (take 2 bs))"

definition put_be32 :: "u32 \<Rightarrow> bytes" where
  "put_be32 w = rev (le_bytes 4 w)"

definition get_be32 :: "bytes \<Rightarrow> u32" where
  "get_be32 bs = le_word (rev (take 4 bs))"

text \<open>\<open>memcpy\<close> of an integer on the little endian machines the sources support.\<close>

definition put_le16 :: "u16 \<Rightarrow> bytes" where
  "put_le16 w = le_bytes 2 w"

definition get_le16 :: "bytes \<Rightarrow> u16" where
  "get_le16 bs = le_word (take 2 bs)"

definition put_le64 :: "u64 \<Rightarrow> bytes" where
  "put_le64 w = le_bytes 8 w"

definition get_le64 :: "bytes \<Rightarrow> u64" where
  "get_le64 bs = le_word (take 8 bs)"

lemma le_word_le_bytes_id:
  "8 * n = LENGTH('a) \<Longrightarrow> le_word (take n (le_bytes n w)) = (w :: 'a::len word)"
  by (simp add: length_le_bytes le_word_le_bytes take_bit_word_eq_self)

text \<open>
  The interface of an encoding: the client of a codec relies on the width and on the round trip,
  and gets from them what a parser of a concatenation needs.
\<close>

locale word_codec =
  fixes enc :: "'w \<Rightarrow> bytes" and dec :: "bytes \<Rightarrow> 'w" and width :: nat
  assumes length_enc: "length (enc w) = width"
    and dec_enc: "dec (enc w) = w"
begin

lemma dec_take: "dec (take width (enc w @ rest)) = w"
  by (simp add: length_enc dec_enc)

lemma drop_enc: "drop width (enc w @ rest) = rest"
  by (simp add: length_enc)

lemma take_enc: "take width (enc w @ rest) = enc w"
  by (simp add: length_enc)

lemma enc_inj: "enc v = enc w \<longleftrightarrow> v = w"
  by (metis dec_enc)

lemma enc_append_inj: "enc v @ xs = enc w @ ys \<longleftrightarrow> v = w \<and> xs = ys"
  by (metis append_eq_append_conv dec_enc length_enc)

end

interpretation be16: word_codec put_be16 get_be16 2
  by unfold_locales
    (simp_all add: put_be16_def get_be16_def length_le_bytes le_word_le_bytes take_bit_word_eq_self
      del: le_bytes_numeral)

interpretation be32: word_codec put_be32 get_be32 4
  by unfold_locales
    (simp_all add: put_be32_def get_be32_def length_le_bytes le_word_le_bytes take_bit_word_eq_self
      del: le_bytes_numeral)

interpretation le16: word_codec put_le16 get_le16 2
  by unfold_locales
    (simp_all add: put_le16_def get_le16_def length_le_bytes le_word_le_bytes take_bit_word_eq_self
      del: le_bytes_numeral)

interpretation le64: word_codec put_le64 get_le64 8
  by unfold_locales
    (simp_all add: put_le64_def get_le64_def length_le_bytes le_word_le_bytes take_bit_word_eq_self
      del: le_bytes_numeral)

lemmas codec_lemmas [codec_simps] =
  be16.length_enc be16.dec_enc be16.dec_take be16.drop_enc be16.take_enc
  be32.length_enc be32.dec_enc be32.dec_take be32.drop_enc be32.take_enc
  le16.length_enc le16.dec_enc le16.dec_take le16.drop_enc le16.take_enc
  le64.length_enc le64.dec_enc le64.dec_take le64.drop_enc le64.take_enc

subsection \<open>State machines\<close>

text \<open>
  A component whose operations are events applied to its state, and a predicate that every event
  keeps: the predicate then holds after any sequence of events.
\<close>

locale inv_machine =
  fixes step :: "'e \<Rightarrow> 's \<Rightarrow> 's" and inv :: "'s \<Rightarrow> bool"
  assumes step_inv: "inv s \<Longrightarrow> inv (step e s)"
begin

lemma run_inv: "inv s \<Longrightarrow> inv (fold step es s)"
  by (induction es arbitrary: s) (auto intro: step_inv)

end

end
