(* ===== verification/Rtp.thy ===== *)
theory Rtp
  imports Prelude
begin

text \<open>
  RTP sessions and RTCP packets, \<open>src/rtp_common.c\<close>: the ring buffer of sent packets kept for
  retransmission, the packet headers, the sync packets and the parser of incoming RTCP packets.
  Allocation succeeds; what freshly allocated memory holds is the parameter \<open>fresh\<close>, what the
  random generator writes is an argument of \<open>rtp_session_new\<close>, and the floating point conversion
  of nanoseconds to an NTP fraction is the parameter \<open>ntp_frac\<close>. Log output is left out.
\<close>

subsection \<open>Data\<close>

definition RTP_HEADER_LEN :: nat where "RTP_HEADER_LEN = 12"
definition RTCP_SYNC_PACKET_LEN :: nat where "RTCP_SYNC_PACKET_LEN = 20"
definition NTP_EPOCH_DELTA :: u32 where "NTP_EPOCH_DELTA = 0x83aa7e80"

record media_quality =
  sample_rate :: int
  bits_per_sample :: int
  channels :: int
  bit_rate :: int

text \<open>
  \<open>struct rtp_packet\<close>. \<open>pkt_data\<close> is the allocated block (\<open>None\<close> for a null pointer); the header
  and payload pointers are its offsets 0 and \<^const>\<open>RTP_HEADER_LEN\<close>.
\<close>

record rtp_packet =
  pkt_seqnum :: u16
  pkt_samples :: int
  pkt_header_len :: nat
  pkt_payload_size :: nat
  pkt_payload_len :: nat
  pkt_data :: "bytes option"
  pkt_data_size :: nat
  pkt_data_len :: nat

definition zero_packet :: rtp_packet where
  "zero_packet = \<lparr>pkt_seqnum = 0, pkt_samples = 0, pkt_header_len = 0, pkt_payload_size = 0,
     pkt_payload_len = 0, pkt_data = None, pkt_data_size = 0, pkt_data_len = 0\<rparr>"

record rtp_session =
  ssrc_id :: u32
  pos :: u32
  seqnum :: u16
  quality :: media_quality
  pktbuf :: "rtp_packet list"
  pktbuf_next :: nat
  pktbuf_size :: nat
  pktbuf_len :: nat
  sync_each_nsamples :: int
  sync_counter :: int
  sync_packet_next :: rtp_packet

definition zero_quality :: media_quality where
  "zero_quality = \<lparr>sample_rate = 0, bits_per_sample = 0, channels = 0, bit_rate = 0\<rparr>"

subsection \<open>Sessions\<close>

text \<open>\<open>rtp_session_new\<close>, with the three random values as arguments.\<close>

definition rtp_session_new ::
  "u32 \<Rightarrow> u32 \<Rightarrow> u16 \<Rightarrow> media_quality option \<Rightarrow> nat \<Rightarrow> int \<Rightarrow> rtp_session" where
  "rtp_session_new rnd_ssrc rnd_pos rnd_seq q bufsize sync_each =
     \<lparr>ssrc_id = rnd_ssrc, pos = rnd_pos, seqnum = rnd_seq,
      quality = (case q of None \<Rightarrow> zero_quality | Some q' \<Rightarrow> q'),
      pktbuf = replicate bufsize zero_packet, pktbuf_next = 0, pktbuf_size = bufsize, pktbuf_len = 0,
      sync_each_nsamples =
        (if sync_each > 0 then sync_each
         else if sync_each = 0 then (case q of None \<Rightarrow> 0 | Some q' \<Rightarrow> sample_rate q')
         else 0),
      sync_counter = 0, sync_packet_next = zero_packet\<rparr>"

definition rtp_session_flush :: "rtp_session \<Rightarrow> rtp_session" where
  "rtp_session_flush s = s\<lparr>pktbuf_len := 0, sync_counter := 0\<rparr>"

text \<open>\<open>realloc\<close> to \<open>n\<close> bytes (\<open>malloc\<close> when there is no block yet).\<close>

definition realloc :: "(nat \<Rightarrow> u8) \<Rightarrow> bytes option \<Rightarrow> nat \<Rightarrow> bytes" where
  "realloc fresh old n =
     (let o' = (case old of None \<Rightarrow> [] | Some d \<Rightarrow> d) in take n o' @ map fresh [length o'..<n])"

definition rtp_header :: "rtp_session \<Rightarrow> u8 \<Rightarrow> u8 \<Rightarrow> bytes" where
  "rtp_header s payload_type marker_bit =
     [0x80, push_bit 7 marker_bit OR payload_type] @ put_be16 (seqnum s) @ put_be32 (pos s)
     @ put_be32 (ssrc_id s)"

text \<open>
  \<open>rtp_packet_next\<close>: the packet at \<open>pktbuf_next\<close> gets a block that is large enough and its header.
  The returned pointer is the index of the packet in the ring.
\<close>

definition rtp_packet_next ::
  "(nat \<Rightarrow> u8) \<Rightarrow> rtp_session \<Rightarrow> nat \<Rightarrow> int \<Rightarrow> u8 \<Rightarrow> u8 \<Rightarrow> (nat \<times> rtp_session) res" where
  "rtp_packet_next fresh s payload_len samples payload_type marker_bit =
     (if length (pktbuf s) \<le> pktbuf_next s then Inl Out_of_bounds
      else
        let pkt = pktbuf s ! pktbuf_next s;
            pkt1 =
              (if pkt_data pkt = None \<or> pkt_payload_size pkt < payload_len
               then pkt\<lparr>pkt_data_size := RTP_HEADER_LEN + payload_len,
                        pkt_data := Some (realloc fresh (pkt_data pkt) (RTP_HEADER_LEN + payload_len)),
                        pkt_payload_size := payload_len\<rparr>
               else pkt);
            pkt2 = pkt1\<lparr>pkt_samples := samples, pkt_header_len := RTP_HEADER_LEN,
                        pkt_payload_len := payload_len,
                        pkt_data_len := RTP_HEADER_LEN + payload_len,
                        pkt_seqnum := seqnum s,
                        pkt_data := map_option (\<lambda>d. overlay d (rtp_header s payload_type marker_bit))
                          (pkt_data pkt1)\<rparr>
        in Inr (pktbuf_next s, s\<lparr>pktbuf := (pktbuf s)[pktbuf_next s := pkt2]\<rparr>))"

text \<open>\<open>rtp_packet_commit\<close> of the packet with index \<open>i\<close>.\<close>

definition rtp_packet_commit :: "rtp_session \<Rightarrow> nat \<Rightarrow> rtp_session res" where
  "rtp_packet_commit s i =
     (if length (pktbuf s) \<le> i then Inl Out_of_bounds
      else if pktbuf_size s = 0 then Inl Div_by_zero
      else
        let pkt = pktbuf s ! i in
        Inr (s\<lparr>pktbuf_len := (if pktbuf_len s < pktbuf_size s then pktbuf_len s + 1 else pktbuf_len s),
               pktbuf_next := (pktbuf_next s + 1) mod pktbuf_size s,
               seqnum := seqnum s + 1,
               pos := pos s + of_int (pkt_samples pkt),
               sync_counter := sync_counter s + pkt_samples pkt\<rparr>))"

text \<open>The check of \<open>rtp_packet_get\<close>, and the one its comment gives as its meaning.\<close>

definition seqnum_in_buffer :: "u16 \<Rightarrow> u16 \<Rightarrow> u16 \<Rightarrow> bool" where
  "seqnum_in_buffer fst_sn last_sn sn \<longleftrightarrow> ((fst_sn \<le> last_sn) \<noteq> (fst_sn \<le> sn)) \<noteq> (sn \<le> last_sn)"

definition seqnum_in_buffer_comment :: "u16 \<Rightarrow> u16 \<Rightarrow> u16 \<Rightarrow> bool" where
  "seqnum_in_buffer_comment fst_sn last_sn sn \<longleftrightarrow>
     (fst_sn \<le> last_sn \<and> (fst_sn \<le> sn \<and> sn \<le> last_sn))
     \<or> (fst_sn > last_sn \<and> (fst_sn \<le> sn \<or> sn \<le> last_sn))"

text \<open>
  \<open>rtp_packet_get\<close>: the index of the packet, \<open>None\<close> for a null pointer. The index is computed in
  \<open>size_t\<close>.
\<close>

definition rtp_packet_get :: "rtp_session \<Rightarrow> u16 \<Rightarrow> nat option res" where
  "rtp_packet_get s sn =
     (if pktbuf_len s = 0 then Inr None
      else
        let last_sn = seqnum s - 1; fst_sn = seqnum s - of_nat (pktbuf_len s) in
        if \<not> seqnum_in_buffer fst_sn last_sn sn then Inr None
        else if pktbuf_size s = 0 then Inl Div_by_zero
        else
          let delta = unat (seqnum s - sn);
              idx = ((pktbuf_next s + pktbuf_size s + 2 ^ 64 - delta) mod 2 ^ 64) mod pktbuf_size s
          in if length (pktbuf s) \<le> idx then Inl Out_of_bounds else Inr (Some idx))"

definition rtp_sync_is_time :: "rtp_session \<Rightarrow> bool \<times> rtp_session" where
  "rtp_sync_is_time s =
     (if sync_each_nsamples s \<noteq> 0 \<and> sync_counter s > sync_each_nsamples s
      then (True, s\<lparr>sync_counter := 0\<rparr>) else (False, s))"

subsection \<open>Sync packets\<close>

record timespec =
  tv_sec :: int
  tv_nsec :: int

record rtcp_timestamp =
  stamp_pos :: u32
  stamp_ts :: timespec

record ntp_timestamp =
  ntp_sec :: u32
  ntp_frac_part :: u32

definition timespec_to_ntp :: "(int \<Rightarrow> u32) \<Rightarrow> timespec \<Rightarrow> ntp_timestamp" where
  "timespec_to_ntp ntp_frac ts =
     \<lparr>ntp_sec = of_int (tv_sec ts) + NTP_EPOCH_DELTA, ntp_frac_part = ntp_frac (tv_nsec ts)\<rparr>"

definition rtp_sync_packet_next ::
  "(int \<Rightarrow> u32) \<Rightarrow> (nat \<Rightarrow> u8) \<Rightarrow> rtp_session \<Rightarrow> rtcp_timestamp \<Rightarrow> u8 \<Rightarrow> rtp_session" where
  "rtp_sync_packet_next ntp_frac fresh s cur_stamp ty =
     (let pkt = sync_packet_next s;
          pkt1 = (if pkt_data pkt = None
                  then pkt\<lparr>pkt_data := Some (map fresh [0..<RTCP_SYNC_PACKET_LEN]),
                           pkt_data_len := RTCP_SYNC_PACKET_LEN\<rparr>
                  else pkt);
          cur_ts = timespec_to_ntp ntp_frac (stamp_ts cur_stamp);
          out = [ty, 0xd4, 0x00, 0x07] @ put_be32 (stamp_pos cur_stamp) @ put_be32 (ntp_sec cur_ts)
                @ put_be32 (ntp_frac_part cur_ts) @ put_be32 (pos s)
      in s\<lparr>sync_packet_next := pkt1\<lparr>pkt_data := map_option (\<lambda>d. overlay d out) (pkt_data pkt1)\<rparr>\<rparr>)"

subsection \<open>Parsing RTCP packets\<close>

text \<open>The union of \<open>struct rtcp_packet\<close>, by packet type.\<close>

datatype rtcp_body =
  No_body
| RR (report_count: u8)
| APP (subtype: u8) (app_name: bytes)
| PSFB (message_type: u8) (media_src: u32) (fci: bytes)
| XR (block_type: u8) (block_specific: u8) (block_len: u16) (xr_ntp: ntp_timestamp)

record rtcp_packet =
  rtcp_version :: u8
  rtcp_padding :: bool
  rtcp_len :: u16
  rtcp_ssrc :: u32
  rtcp_payload :: bytes
  rtcp_payload_len :: nat
  rtcp_packet_type :: u8
  rtcp_body :: rtcp_body

definition zero_rtcp :: rtcp_packet where
  "zero_rtcp = \<lparr>rtcp_version = 0, rtcp_padding = False, rtcp_len = 0, rtcp_ssrc = 0, rtcp_payload = [],
     rtcp_payload_len = 0, rtcp_packet_type = 0, rtcp_body = No_body\<rparr>"

definition zero_ntp :: ntp_timestamp where
  "zero_ntp = \<lparr>ntp_sec = 0, ntp_frac_part = 0\<rparr>"

text \<open>A read of \<open>n\<close> bytes at offset \<open>i\<close> of a packet of \<open>size\<close> bytes.\<close>

definition rd :: "bytes \<Rightarrow> nat \<Rightarrow> nat \<Rightarrow> bytes res" where
  "rd data i n = (if i + n \<le> length data then Inr (take n (drop i data)) else Inl Out_of_bounds)"

definition rtcp_parse_xr :: "rtcp_packet \<Rightarrow> bytes \<Rightarrow> (int \<times> rtcp_packet) res" where
  "rtcp_parse_xr pkt data =
     bind_res (rd data 8 1) (\<lambda>bt. bind_res (rd data 9 1) (\<lambda>bs. bind_res (rd data 10 2) (\<lambda>bl.
       let block_len = 4 * get_be16 bl in
       if hd bt \<noteq> 4 \<or> block_len \<noteq> 8
       then Inr (0, pkt\<lparr>rtcp_body := XR (hd bt) (hd bs) block_len zero_ntp\<rparr>)
       else bind_res (rd data 12 4) (\<lambda>sec. bind_res (rd data 16 4) (\<lambda>frac.
         Inr (0, pkt\<lparr>rtcp_body := XR (hd bt) (hd bs) block_len
           \<lparr>ntp_sec = get_be32 sec, ntp_frac_part = get_be32 frac\<rparr>\<rparr>))))))"

definition rtcp_packet_parse :: "rtcp_packet \<Rightarrow> bytes \<Rightarrow> (int \<times> rtcp_packet) res" where
  "rtcp_packet_parse pkt data =
     (let size = length data in
      if size < 8 then Inr (-1, pkt)
      else bind_res (rd data 0 2) (\<lambda>b. bind_res (rd data 2 2) (\<lambda>l. bind_res (rd data 4 4) (\<lambda>ss.
        let version = drop_bit 6 (b ! 0 AND 0xc0);
            padding = drop_bit 5 (b ! 0 AND 0x20) \<noteq> 0;
            len = 4 * (get_be16 l + 1);
            low = b ! 0 AND 0x1f;
            ptype = b ! 1;
            pkt1 = zero_rtcp\<lparr>rtcp_version := version, rtcp_padding := padding, rtcp_len := len,
              rtcp_ssrc := get_be32 ss\<rparr>;
            pkt2 = pkt1\<lparr>rtcp_payload := drop (unat len) data, rtcp_payload_len := size - unat len,
              rtcp_packet_type := ptype\<rparr>
        in if version \<noteq> 2 then Inr (-1, zero_rtcp\<lparr>rtcp_version := version\<rparr>)
           else if size < unat len then Inr (-1, pkt1)
           else if ptype = 201 then Inr (0, pkt2\<lparr>rtcp_body := RR low\<rparr>)
           else if ptype = 204 \<and> 12 \<le> size then
             bind_res (rd data 8 4) (\<lambda>nm. Inr (0, pkt2\<lparr>rtcp_body := APP low (nm @ [0])\<rparr>))
           else if ptype = 206 \<and> 12 \<le> size then
             bind_res (rd data 8 4) (\<lambda>ms.
               Inr (0, pkt2\<lparr>rtcp_body := PSFB low (get_be32 ms) (drop 12 data)\<rparr>))
           else if ptype = 207 \<and> 24 \<le> size then rtcp_parse_xr pkt2 data
           else Inr (-1, pkt2)))))"


subsection \<open>The retransmission window\<close>

lemma seqnum_in_buffer_iff_comment: "seqnum_in_buffer fst_sn last_sn sn \<longleftrightarrow> seqnum_in_buffer_comment fst_sn last_sn sn"
  unfolding seqnum_in_buffer_def seqnum_in_buffer_comment_def by (auto simp: not_le)

text \<open>In words: the requested number is one of the \<open>l\<close> numbers before the session's.\<close>

lemma seqnum_in_buffer_window:
  fixes sq sn l :: u16
  assumes "l \<noteq> 0"
  shows "seqnum_in_buffer (sq - l) (sq - 1) sn \<longleftrightarrow> sq - sn \<noteq> 0 \<and> sq - sn \<le> l"
  using assms unfolding seqnum_in_buffer_def by uint_arith

text \<open>
  The packets that may be asked for, last sent first: position \<open>k\<close> behind \<open>pktbuf_next\<close> in the
  ring for \<open>k = 1..pktbuf_len\<close>. This is the abstract state that the ring buffer implements.
\<close>

definition ring_slot :: "rtp_session \<Rightarrow> nat \<Rightarrow> nat" where
  "ring_slot s k = (pktbuf_next s + pktbuf_size s - k) mod pktbuf_size s"

definition rtp_window :: "rtp_session \<Rightarrow> rtp_packet list" where
  "rtp_window s = map (\<lambda>k. pktbuf s ! ring_slot s k) [1..<Suc (pktbuf_len s)]"

definition packet_ok :: "rtp_packet \<Rightarrow> bool" where
  "packet_ok p \<longleftrightarrow> (case pkt_data p of None \<Rightarrow> pkt_payload_size p = 0
     | Some d \<Rightarrow> length d = RTP_HEADER_LEN + pkt_payload_size p \<and> pkt_data_size p = length d)"

definition rtp_inv :: "rtp_session \<Rightarrow> bool" where
  "rtp_inv s \<longleftrightarrow> length (pktbuf s) = pktbuf_size s \<and> 0 < pktbuf_size s \<and> pktbuf_size s < 2 ^ 16
     \<and> pktbuf_next s < pktbuf_size s \<and> pktbuf_len s \<le> pktbuf_size s
     \<and> (\<forall>p \<in> set (pktbuf s). packet_ok p)
     \<and> (\<forall>k \<in> {1..pktbuf_len s}. pkt_seqnum (pktbuf s ! ring_slot s k) = seqnum s - of_nat k)"

text \<open>
  Sending one packet, as \<open>packets_send\<close> of \<open>airplay.c\<close> does: take the next packet, write the
  payload into it, commit it. The payload is what the caller copies to \<open>pkt->payload\<close>.
\<close>

definition rtp_fill :: "rtp_session \<Rightarrow> nat \<Rightarrow> bytes \<Rightarrow> rtp_session" where
  "rtp_fill s i payload =
     s\<lparr>pktbuf := (pktbuf s)[i := (pktbuf s ! i)\<lparr>pkt_data :=
        map_option (\<lambda>d. take RTP_HEADER_LEN d @ overlay (drop RTP_HEADER_LEN d) payload)
          (pkt_data (pktbuf s ! i))\<rparr>]\<rparr>"

definition rtp_send ::
  "(nat \<Rightarrow> u8) \<Rightarrow> rtp_session \<Rightarrow> bytes \<Rightarrow> int \<Rightarrow> u8 \<Rightarrow> u8 \<Rightarrow> rtp_session res" where
  "rtp_send fresh s payload samples payload_type marker_bit =
     bind_res (rtp_packet_next fresh s (length payload) samples payload_type marker_bit)
       (\<lambda>(i, s1). rtp_packet_commit (rtp_fill s1 i payload) i)"

text \<open>The bytes of a packet that go on the wire, \<open>data_len\<close> bytes from \<open>data\<close>.\<close>

definition packet_wire :: "rtp_packet \<Rightarrow> bytes" where
  "packet_wire p = (case pkt_data p of None \<Rightarrow> [] | Some d \<Rightarrow> take (pkt_data_len p) d)"

lemma length_rtp_header [simp]: "length (rtp_header s pt mb) = RTP_HEADER_LEN"
  by (simp add: rtp_header_def RTP_HEADER_LEN_def codec_simps)

lemma length_realloc [simp]: "length (realloc fresh old n) = n"
  by (auto simp: realloc_def Let_def split: option.splits)

lemma ring_slot_less: "0 < pktbuf_size s \<Longrightarrow> ring_slot s k < pktbuf_size s"
  by (simp add: ring_slot_def)

lemma ring_slot_next:
  assumes "1 \<le> k" "k < n" "nx < (n :: nat)"
  shows "(nx + n - k) mod n \<noteq> nx"
proof (cases "k \<le> nx")
  case True
  then have "(nx + n - k) mod n = nx - k"
    using assms by (simp add: le_mod_geq)
  then show ?thesis using assms True by linarith
next
  case False
  then have "(nx + n - k) mod n = nx + n - k"
    using assms by simp
  then show ?thesis using assms by linarith
qed

lemma ring_slot_advance:
  assumes "1 \<le> k" "k \<le> n" "nx < (n :: nat)"
  shows "((nx + 1) mod n + n - k) mod n = (nx + n - (k - 1)) mod n"
proof (cases "nx + 1 = n")
  case True
  then have "(nx + n - (k - 1)) mod n = (n - k + n) mod n"
    using assms by (simp add: algebra_simps)
  then show ?thesis using True by simp
next
  case False
  then show ?thesis using assms by (simp add: algebra_simps)
qed


text \<open>What the packet at \<open>pktbuf_next\<close> looks like after \<open>rtp_packet_next\<close>.\<close>

definition prepared :: "rtp_session \<Rightarrow> rtp_packet \<Rightarrow> nat \<Rightarrow> int \<Rightarrow> bytes \<Rightarrow> bool" where
  "prepared s p len samples header \<longleftrightarrow>
     (\<exists>d. pkt_data p = Some d \<and> length d = RTP_HEADER_LEN + pkt_payload_size p \<and> pkt_data_size p = length d
        \<and> len \<le> pkt_payload_size p \<and> take RTP_HEADER_LEN d = header)
     \<and> pkt_data_len p = RTP_HEADER_LEN + len \<and> pkt_payload_len p = len
     \<and> pkt_header_len p = RTP_HEADER_LEN \<and> pkt_samples p = samples \<and> pkt_seqnum p = seqnum s"

lemma rtp_packet_next_prepared:
  assumes "rtp_inv s"
  shows "\<exists>p. rtp_packet_next fresh s len samples pt mb =
      Inr (pktbuf_next s, s\<lparr>pktbuf := (pktbuf s)[pktbuf_next s := p]\<rparr>)
    \<and> prepared s p len samples (rtp_header s pt mb)"
proof -
  let ?old = "pktbuf s ! pktbuf_next s"
  from assms have lt: "pktbuf_next s < length (pktbuf s)" and ok: "packet_ok ?old"
    by (auto simp: rtp_inv_def)
  show ?thesis
  proof (cases "pkt_data ?old = None \<or> pkt_payload_size ?old < len")
    case True
    then show ?thesis
      using lt
      by (simp add: rtp_packet_next_def Let_def prepared_def) (rule exI, rule conjI [OF refl], simp)
  next
    case False
    then obtain d where "pkt_data ?old = Some d" "len \<le> pkt_payload_size ?old" by auto
    then show ?thesis
      using lt ok
      by (simp add: rtp_packet_next_def Let_def prepared_def packet_ok_def)
        (rule exI, rule conjI [OF refl], simp)
  qed
qed

definition filled :: "rtp_packet \<Rightarrow> bytes \<Rightarrow> rtp_packet" where
  "filled p payload = p\<lparr>pkt_data :=
     map_option (\<lambda>d. take RTP_HEADER_LEN d @ overlay (drop RTP_HEADER_LEN d) payload) (pkt_data p)\<rparr>"

lemma filled_prepared:
  assumes "prepared s p (length payload) samples header"
  shows "packet_ok (filled p payload)" and "packet_wire (filled p payload) = header @ payload"
    and "pkt_seqnum (filled p payload) = seqnum s" and "pkt_samples (filled p payload) = samples"
proof -
  from assms obtain d where d: "pkt_data p = Some d" "length d = RTP_HEADER_LEN + pkt_payload_size p"
    "length payload \<le> pkt_payload_size p" "take RTP_HEADER_LEN d = header" "pkt_data_size p = length d"
    "pkt_data_len p = RTP_HEADER_LEN + length payload"
    by (auto simp: prepared_def)
  show "packet_ok (filled p payload)"
    using d(1,2,3,5) by (simp add: packet_ok_def filled_def)
  have header: "header = take RTP_HEADER_LEN d" using d(4) by simp
  show "packet_wire (filled p payload) = header @ payload"
    unfolding header using d(1,2,3,6) by (simp add: packet_wire_def filled_def overlay_def)
qed (use assms in \<open>auto simp: filled_def prepared_def\<close>)

text \<open>The session after its packet \<open>p\<close> was committed.\<close>

definition committed :: "rtp_session \<Rightarrow> rtp_packet \<Rightarrow> rtp_session" where
  "committed s p = s\<lparr>pktbuf := (pktbuf s)[pktbuf_next s := p],
        pktbuf_len := min (pktbuf_size s) (Suc (pktbuf_len s)),
        pktbuf_next := (pktbuf_next s + 1) mod pktbuf_size s, seqnum := seqnum s + 1,
        pos := pos s + of_int (pkt_samples p), sync_counter := sync_counter s + pkt_samples p\<rparr>"

lemma committed_simps [simp]:
  "seqnum (committed s p) = seqnum s + 1" "pos (committed s p) = pos s + of_int (pkt_samples p)"
  "pktbuf_size (committed s p) = pktbuf_size s" "ssrc_id (committed s p) = ssrc_id s"
  "quality (committed s p) = quality s" "sync_packet_next (committed s p) = sync_packet_next s"
  "sync_each_nsamples (committed s p) = sync_each_nsamples s"
  by (simp_all add: committed_def)

lemma rtp_packet_commit_eq:
  assumes "rtp_inv s"
  shows "rtp_packet_commit (s\<lparr>pktbuf := (pktbuf s)[pktbuf_next s := p]\<rparr>) (pktbuf_next s) = Inr (committed s p)"
  using assms by (simp add: rtp_inv_def rtp_packet_commit_def committed_def Let_def min_def)

lemma rtp_send_eq:
  assumes "rtp_inv s"
  obtains p where "rtp_send fresh s payload samples pt mb = Inr (committed s p)"
    and "packet_ok p" and "packet_wire p = rtp_header s pt mb @ payload" and "pkt_seqnum p = seqnum s"
    and "pkt_samples p = samples"
proof -
  from assms have lt: "pktbuf_next s < length (pktbuf s)" by (auto simp: rtp_inv_def)
  from rtp_packet_next_prepared [OF assms, of fresh "length payload" samples pt mb] obtain p
    where next_eq: "rtp_packet_next fresh s (length payload) samples pt mb =
        Inr (pktbuf_next s, s\<lparr>pktbuf := (pktbuf s)[pktbuf_next s := p]\<rparr>)"
      and prep: "prepared s p (length payload) samples (rtp_header s pt mb)"
    by blast
  have fill: "rtp_fill (s\<lparr>pktbuf := (pktbuf s)[pktbuf_next s := p]\<rparr>) (pktbuf_next s) payload =
      s\<lparr>pktbuf := (pktbuf s)[pktbuf_next s := filled p payload]\<rparr>"
    using lt by (simp add: rtp_fill_def filled_def)
  show ?thesis
    by (rule that [of "filled p payload"])
      (use filled_prepared [OF prep] in \<open>simp_all add: rtp_send_def next_eq fill rtp_packet_commit_eq [OF assms]\<close>)
qed

lemma ring_slot_after_send:
  assumes "rtp_inv s" and "1 \<le> k" and "k \<le> min (pktbuf_size s) (Suc (pktbuf_len s))"
    and "pktbuf_next s' = (pktbuf_next s + 1) mod pktbuf_size s" and "pktbuf_size s' = pktbuf_size s"
  shows "ring_slot s' k = ring_slot s (k - 1)"
  using assms ring_slot_advance [of k "pktbuf_size s" "pktbuf_next s"]
  by (simp add: ring_slot_def rtp_inv_def)

lemma committed_window:
  assumes "rtp_inv s" and "packet_ok p" and "pkt_seqnum p = seqnum s"
  shows "rtp_inv (committed s p)" and "rtp_window (committed s p) = take (pktbuf_size s) (p # rtp_window s)"
proof -
  let ?s' = "committed s p"
  note inv = assms(1) [unfolded rtp_inv_def]
  have len: "pktbuf_len ?s' = min (pktbuf_size s) (Suc (pktbuf_len s))" by (simp add: committed_def)
  have slot: "pktbuf ?s' ! ring_slot ?s' k = (if k = 1 then p else pktbuf s ! ring_slot s (k - 1))"
    if k: "1 \<le> k" "k \<le> min (pktbuf_size s) (Suc (pktbuf_len s))" for k
  proof -
    have "ring_slot ?s' k = ring_slot s (k - 1)"
      by (rule ring_slot_after_send [OF assms(1) k]) (simp_all add: committed_def)
    moreover have "ring_slot s (k - 1) \<noteq> pktbuf_next s" if "k \<noteq> 1"
      unfolding ring_slot_def by (rule ring_slot_next) (use k that inv in auto)
    moreover have "ring_slot s 0 = pktbuf_next s"
      using inv by (simp add: ring_slot_def)
    ultimately show ?thesis using inv by (auto simp: nth_list_update committed_def)
  qed
  show "rtp_window ?s' = take (pktbuf_size s) (p # rtp_window s)"
  proof (rule nth_equalityI)
    show "length (rtp_window ?s') = length (take (pktbuf_size s) (p # rtp_window s))"
      by (simp add: rtp_window_def len min_def del: upt_Suc)
    fix i assume "i < length (rtp_window ?s')"
    then have i: "1 \<le> Suc i" "Suc i \<le> min (pktbuf_size s) (Suc (pktbuf_len s))"
      by (simp_all add: rtp_window_def len del: upt_Suc)
    have "rtp_window ?s' ! i = pktbuf ?s' ! ring_slot ?s' (Suc i)"
      using i by (simp add: rtp_window_def len del: upt_Suc)
    then show "rtp_window ?s' ! i = take (pktbuf_size s) (p # rtp_window s) ! i"
      unfolding slot [OF i] using i by (cases i) (simp_all add: rtp_window_def del: upt_Suc)
  qed
  have seqs: "\<forall>k \<in> {1..pktbuf_len ?s'}. pkt_seqnum (pktbuf ?s' ! ring_slot ?s' k) = seqnum ?s' - of_nat k"
  proof
    fix k assume "k \<in> {1..pktbuf_len ?s'}"
    then have k: "1 \<le> k" "k \<le> min (pktbuf_size s) (Suc (pktbuf_len s))" by (simp_all add: len)
    then have "k - 1 \<in> {1..pktbuf_len s}" if "k \<noteq> 1" using that by auto
    then show "pkt_seqnum (pktbuf ?s' ! ring_slot ?s' k) = seqnum ?s' - of_nat k"
      unfolding slot [OF k] using inv assms(3) k(1) by (auto simp: of_nat_diff)
  qed
  have "\<forall>q \<in> set (pktbuf ?s'). packet_ok q"
    using inv assms(2) set_update_subset_insert [of "pktbuf s" "pktbuf_next s" p] by (auto simp: committed_def)
  with seqs inv show "rtp_inv ?s'"
    by (auto simp: rtp_inv_def committed_def)
qed

lemma rtp_send_window:
  assumes "rtp_inv s"
  shows "\<exists>s' p. rtp_send fresh s payload samples pt mb = Inr s' \<and> rtp_inv s'
     \<and> rtp_window s' = take (pktbuf_size s) (p # rtp_window s)
     \<and> packet_wire p = rtp_header s pt mb @ payload \<and> pkt_seqnum p = seqnum s
     \<and> seqnum s' = seqnum s + 1 \<and> pos s' = pos s + of_int samples \<and> pktbuf_size s' = pktbuf_size s"
  using rtp_send_eq [OF assms, of fresh payload samples pt mb] committed_window [OF assms]
  by (metis committed_simps(1-3))


subsection \<open>The session as a state machine\<close>

datatype rtp_event =
  Send (ev_payload: bytes) (ev_samples: int) (ev_type: u8) (ev_marker: u8)
| Flush
| Sync_check
| Sync_packet rtcp_timestamp u8

fun rtp_step :: "(nat \<Rightarrow> u8) \<Rightarrow> (int \<Rightarrow> u32) \<Rightarrow> rtp_event \<Rightarrow> rtp_session \<Rightarrow> rtp_session" where
  "rtp_step fresh ntp (Send payload n pt mb) s =
     (case rtp_send fresh s payload n pt mb of Inl _ \<Rightarrow> s | Inr s' \<Rightarrow> s')"
| "rtp_step fresh ntp Flush s = rtp_session_flush s"
| "rtp_step fresh ntp Sync_check s = snd (rtp_sync_is_time s)"
| "rtp_step fresh ntp (Sync_packet stamp ty) s = rtp_sync_packet_next ntp fresh s stamp ty"

lemma rtp_window_cong:
  "pktbuf s' = pktbuf s \<Longrightarrow> pktbuf_next s' = pktbuf_next s \<Longrightarrow> pktbuf_size s' = pktbuf_size s \<Longrightarrow>
     pktbuf_len s' = pktbuf_len s \<Longrightarrow> rtp_window s' = rtp_window s"
  by (simp add: rtp_window_def ring_slot_def)

lemma rtp_inv_cong:
  "pktbuf s' = pktbuf s \<Longrightarrow> pktbuf_next s' = pktbuf_next s \<Longrightarrow> pktbuf_size s' = pktbuf_size s \<Longrightarrow>
     pktbuf_len s' = pktbuf_len s \<Longrightarrow> seqnum s' = seqnum s \<Longrightarrow> rtp_inv s' \<longleftrightarrow> rtp_inv s"
  by (simp add: rtp_inv_def ring_slot_def)

lemma rtp_inv_new: "0 < n \<Longrightarrow> n < 2 ^ 16 \<Longrightarrow> rtp_inv (rtp_session_new a b c q n k)"
  by (simp add: rtp_inv_def rtp_session_new_def packet_ok_def zero_packet_def)

lemma rtp_inv_flush: "rtp_inv s \<Longrightarrow> rtp_inv (rtp_session_flush s)"
  by (simp add: rtp_inv_def rtp_session_flush_def)

lemma rtp_inv_sync: "rtp_inv s \<Longrightarrow> rtp_inv (snd (rtp_sync_is_time s))"
  by (auto simp: rtp_sync_is_time_def rtp_inv_def ring_slot_def)

lemma rtp_inv_sync_packet: "rtp_inv s \<Longrightarrow> rtp_inv (rtp_sync_packet_next ntp fresh s stamp ty)"
  by (simp add: rtp_sync_packet_next_def Let_def rtp_inv_def ring_slot_def)

lemma rtp_inv_step: "rtp_inv s \<Longrightarrow> rtp_inv (rtp_step fresh ntp e s)"
proof (cases e)
  case (Send payload n pt mb)
  assume "rtp_inv s"
  from rtp_send_window [OF this, of fresh payload n pt mb] Send show ?thesis by auto
qed (simp_all add: rtp_inv_flush rtp_inv_sync rtp_inv_sync_packet)

interpretation rtp_machine: inv_machine "rtp_step fresh ntp" rtp_inv
  by unfold_locales (rule rtp_inv_step)

lemma rtp_packet_get_eq:
  assumes "rtp_inv s"
  shows "rtp_packet_get s sn =
    Inr (let k = unat (seqnum s - sn) in if 1 \<le> k \<and> k \<le> pktbuf_len s then Some (ring_slot s k) else None)"
proof (cases "pktbuf_len s = 0")
  case True
  then show ?thesis by (simp add: rtp_packet_get_def Let_def)
next
  case False
  note inv = assms [unfolded rtp_inv_def]
  let ?l = "of_nat (pktbuf_len s) :: u16" and ?k = "unat (seqnum s - sn)"
  have l: "unat ?l = pktbuf_len s"
    using inv by (simp add: unat_of_nat)
  then have "?l \<noteq> 0" using False by auto
  from seqnum_in_buffer_window [OF this]
  have iff: "seqnum_in_buffer (seqnum s - ?l) (seqnum s - 1) sn \<longleftrightarrow> 1 \<le> ?k \<and> ?k \<le> pktbuf_len s"
    by (simp add: word_le_nat_alt l Suc_le_eq unat_gt_0)
  show ?thesis
  proof (cases "1 \<le> ?k \<and> ?k \<le> pktbuf_len s")
    case True
    have "(pktbuf_next s + pktbuf_size s + 2 ^ 64 - ?k) mod 2 ^ 64 = pktbuf_next s + pktbuf_size s - ?k"
    proof -
      have "pktbuf_next s + pktbuf_size s + 2 ^ 64 - ?k = (pktbuf_next s + pktbuf_size s - ?k) + 2 ^ 64"
        using True inv by linarith
      moreover have "pktbuf_next s + pktbuf_size s - ?k < 2 ^ 64"
        by (rule order_le_less_trans [OF diff_le_self]) (use inv in simp)
      ultimately show ?thesis by (metis mod_add_self2 mod_less)
    qed
    then show ?thesis
      using True iff False inv ring_slot_less [of s ?k]
      by (simp add: rtp_packet_get_def Let_def ring_slot_def not_le)
  next
    case out: False
    then show ?thesis
      using iff False by (simp add: rtp_packet_get_def Let_def)
  qed
qed

lemma rtp_packet_get_window:
  assumes "rtp_inv s"
  shows "rtp_packet_get s sn = Inr None \<and> (\<forall>p \<in> set (rtp_window s). pkt_seqnum p \<noteq> sn)
     \<or> (\<exists>i. rtp_packet_get s sn = Inr (Some i) \<and> i < length (pktbuf s)
          \<and> pktbuf s ! i \<in> set (rtp_window s) \<and> pkt_seqnum (pktbuf s ! i) = sn)"
proof -
  note inv = assms [unfolded rtp_inv_def]
  let ?k = "unat (seqnum s - sn)"
  have sn_eq: "seqnum s - of_nat ?k = sn" by simp
  show ?thesis
  proof (cases "1 \<le> ?k \<and> ?k \<le> pktbuf_len s")
    case True
    then have "pktbuf s ! ring_slot s ?k \<in> set (rtp_window s)"
      by (auto simp: rtp_window_def simp del: upt_Suc)
    moreover from True inv sn_eq have "pkt_seqnum (pktbuf s ! ring_slot s ?k) = sn" by auto
    moreover have "ring_slot s ?k < length (pktbuf s)"
      using inv ring_slot_less [of s ?k] by simp
    ultimately show ?thesis
      using True by (simp add: rtp_packet_get_eq [OF assms] Let_def)
  next
    case False
    have "pkt_seqnum p \<noteq> sn" if "p \<in> set (rtp_window s)" for p
    proof
      assume sn: "pkt_seqnum p = sn"
      from that obtain k where k: "k \<in> {1..pktbuf_len s}" "p = pktbuf s ! ring_slot s k"
        by (auto simp: rtp_window_def less_Suc_eq_le simp del: upt_Suc)
      with inv sn have "seqnum s - sn = of_nat k" by auto
      then have "?k = k" using k inv by (simp add: unat_of_nat)
      with k(1) False show False by simp
    qed
    moreover have "rtp_packet_get s sn = Inr None"
      using False by (simp add: rtp_packet_get_eq [OF assms] Let_def)
    ultimately show ?thesis by blast
  qed
qed


subsection \<open>Properties\<close>

text \<open>The packets of a run of sends, in the order they were sent, as the window holds them.\<close>

definition sent_run ::
  "rtp_session \<Rightarrow> rtp_session \<Rightarrow> bytes list \<Rightarrow> rtp_packet list \<Rightarrow> bool" where
  "sent_run s s' ps pkts \<longleftrightarrow> rtp_inv s' \<and> pktbuf_size s' = pktbuf_size s
     \<and> seqnum s' = seqnum s + of_nat (length ps) \<and> map (\<lambda>p. drop RTP_HEADER_LEN (packet_wire p)) pkts = ps
     \<and> rtp_window s' = take (pktbuf_size s) (rev pkts @ rtp_window s)"

lemma sent_run_fold:
  assumes "rtp_inv s"
  shows "\<exists>pkts. sent_run s (fold (\<lambda>p. rtp_step fresh ntp (Send p n pt mb)) ps s) ps pkts"
proof (induction ps rule: rev_induct)
  case Nil
  have "length (rtp_window s) \<le> pktbuf_size s"
    using assms by (simp add: rtp_window_def rtp_inv_def del: upt_Suc)
  with assms have "sent_run s s [] []" by (simp add: sent_run_def)
  then show ?case by auto
next
  case (snoc payload ps)
  let ?s' = "fold (\<lambda>p. rtp_step fresh ntp (Send p n pt mb)) ps s"
  from snoc obtain pkts where run: "sent_run s ?s' ps pkts" by blast
  then have "rtp_inv ?s'" by (simp add: sent_run_def)
  from rtp_send_window [OF this, of fresh payload n pt mb] obtain s'' p
    where send: "rtp_send fresh ?s' payload n pt mb = Inr s''" "rtp_inv s''"
      "rtp_window s'' = take (pktbuf_size ?s') (p # rtp_window ?s')"
      "packet_wire p = rtp_header ?s' pt mb @ payload"
      "seqnum s'' = seqnum ?s' + 1" "pktbuf_size s'' = pktbuf_size ?s'"
    by blast
  have "rtp_window s'' = take (pktbuf_size s) (rev (pkts @ [p]) @ rtp_window s)"
    using send(3) run by (cases "pktbuf_size s") (simp_all add: sent_run_def min_def)
  with send run have "sent_run s s'' (ps @ [payload]) (pkts @ [p])"
    by (simp add: sent_run_def)
  moreover have "rtp_step fresh ntp (Send payload n pt mb) ?s' = s''"
    by (simp add: send(1))
  ultimately show ?case by (auto simp del: rtp_step.simps)
qed

text \<open>C8: the ring buffer implements a bounded queue: sending prepends the packet with the session's
  number, header and payload to the window of packets that can be asked for, and drops what exceeds
  the buffer size.\<close>

theorem rtp_send_refines_queue:
  assumes "rtp_inv s"
  shows "\<exists>s' p. rtp_send fresh s payload samples pt mb = Inr s' \<and> rtp_inv s'
     \<and> rtp_window s' = take (pktbuf_size s) (p # rtp_window s)
     \<and> packet_wire p = rtp_header s pt mb @ payload \<and> pkt_seqnum p = seqnum s
     \<and> seqnum s' = seqnum s + 1 \<and> pos s' = pos s + of_int samples"
  using rtp_send_window [OF assms] by blast

text \<open>C9: retransmission. After sending a run of packets that fits the buffer, with sequence
  numbers that may wrap around, each of them is found under its number, with the payload it was sent
  with.\<close>

theorem rtp_retransmission:
  assumes "rtp_inv s" and "length ps \<le> pktbuf_size s" and "i < length ps"
    and s'_def: "s' = fold (\<lambda>p. rtp_step fresh ntp (Send p n pt mb)) ps s"
  shows "\<exists>j. rtp_packet_get s' (seqnum s + of_nat i) = Inr (Some j)
     \<and> drop RTP_HEADER_LEN (packet_wire (pktbuf s' ! j)) = ps ! i"
proof -
  from sent_run_fold [OF assms(1), of fresh ntp n pt mb ps] obtain pkts
    where run: "sent_run s s' ps pkts" unfolding s'_def by blast
  note run' = run [unfolded sent_run_def]
  have len: "length pkts = length ps" using run' by auto
  let ?k = "length ps - i"
  have "length ps < 2 ^ 16" using assms(1,2) by (auto simp: rtp_inv_def)
  moreover have "seqnum s' - (seqnum s + of_nat i) = of_nat ?k"
  proof -
    have "seqnum s' = seqnum s + of_nat (length ps)" using run' by simp
    then show ?thesis using assms(3) by (simp add: of_nat_diff)
  qed
  ultimately have k: "unat (seqnum s' - (seqnum s + of_nat i)) = ?k"
    by (simp add: unat_of_nat)
  have nth: "rtp_window s' ! (?k - 1) = pkts ! i" and "?k - 1 < length (rtp_window s')"
    using run' len assms(2,3) by (simp_all add: nth_append rev_nth)
  moreover have "Suc (?k - 1) = ?k" using assms(3) by simp
  ultimately have "?k \<le> pktbuf_len s'" and "pktbuf s' ! ring_slot s' ?k = pkts ! i"
    by (simp_all add: rtp_window_def del: upt_Suc)
  moreover have "drop RTP_HEADER_LEN (packet_wire (pkts ! i)) = ps ! i"
    using run' len assms(3) by (metis nth_map)
  ultimately show ?thesis
    using rtp_packet_get_eq [of s' "seqnum s + of_nat i"] run' assms(3) k by (simp add: Let_def)
qed

text \<open>looking a packet up never faults and is exact: it returns the packet of the window with
  the requested number, and null only when the window holds no such packet.\<close>

lemma rtp_packet_get_exact:
  assumes "rtp_inv s"
  shows "rtp_packet_get s sn = Inr None \<and> (\<forall>p \<in> set (rtp_window s). pkt_seqnum p \<noteq> sn)
     \<or> (\<exists>i. rtp_packet_get s sn = Inr (Some i) \<and> i < length (pktbuf s)
          \<and> pktbuf s ! i \<in> set (rtp_window s) \<and> pkt_seqnum (pktbuf s ! i) = sn)"
  by (rule rtp_packet_get_window [OF assms])

text \<open>the buffer invariant holds after every sequence of sends, flushes, sync checks and sync
  packets of a new session.\<close>

lemma rtp_session_invariant:
  assumes "0 < n" and "n < 2 ^ 16"
  shows "rtp_inv (fold (rtp_step fresh ntp) es (rtp_session_new a b c q n k))"
  by (rule rtp_machine.run_inv) (rule rtp_inv_new [OF assms])

text \<open>the exclusive-or test of the packet lookup is the wrap-around test its comment gives, for
  all sequence numbers.\<close>

theorem seqnum_xor_trick: "seqnum_in_buffer fst_sn last_sn sn = seqnum_in_buffer_comment fst_sn last_sn sn"
  by (rule seqnum_in_buffer_iff_comment)

text \<open>parsing an incoming RTCP packet never reads outside it, and it succeeds exactly for
  version 2 packets of a known type whose length field (taken modulo 2 to the 16) fits.\<close>

theorem rtcp_packet_parse_total:
  "\<exists>r pkt'. rtcp_packet_parse pkt data = Inr (r, pkt') \<and>
     (r = 0 \<longleftrightarrow> 8 \<le> length data \<and> drop_bit 6 (data ! 0 AND 0xc0) = 2
        \<and> unat (4 * (get_be16 (take 2 (drop 2 data)) + 1)) \<le> length data
        \<and> (data ! 1 = 201 \<or> (data ! 1 = 204 \<or> data ! 1 = 206) \<and> 12 \<le> length data
            \<or> data ! 1 = 207 \<and> 24 \<le> length data))"
proof (cases "length data < 8")
  case True
  then show ?thesis by (simp add: rtcp_packet_parse_def Let_def)
next
  case False
  then have "take 2 data ! 0 = data ! 0" "take 2 data ! 1 = data ! 1" by auto
  with False show ?thesis
    by (cases "data ! 1 = 201"; cases "data ! 1 = 204"; cases "data ! 1 = 206"; cases "data ! 1 = 207")
      (simp_all add: rtcp_packet_parse_def rtcp_parse_xr_def rd_def Let_def)
qed

end
