(* ===== verification/Crypto.thy ===== *)
theory Crypto
  imports Prelude
begin

text \<open>
  The libraries the pairing code calls (libgcrypt or OpenSSL, libsodium) are not part of the
  repository: they are the fields of one record, an argument of every definition that uses them.
  What the code relies on is stated here as predicates, each the documented behaviour of the library.
  Random numbers and fresh key pairs are arguments of the operations that draw them.
\<close>

datatype hash_alg = HASH_SHA1 | HASH_SHA224 | HASH_SHA256 | HASH_SHA384 | HASH_SHA512

text \<open>
  \<open>mpi_print\<close>/\<open>mpi_scan\<close> are the big endian byte strings of a bignum (\<open>GCRYMPI_FMT_USG\<close>);
  \<open>digest\<close> is the value of a hash over all bytes given to it; \<open>kdf salt ikm info len\<close> is HKDF with
  SHA-512; \<open>aead_seal key nonce ad plain\<close> is ChaCha20-Poly1305 and yields cipher text and tag;
  \<open>sign msg sk\<close> and \<open>sign_verify sig msg pk\<close> are Ed25519; \<open>scalarmult sk pk\<close> is Curve25519. An
  operation that can report an error yields an option.
\<close>

record crypto =
  initialized :: bool
  mpi_nbits :: "int \<Rightarrow> nat"
  mpi_print :: "int \<Rightarrow> bytes"
  mpi_scan :: "bytes \<Rightarrow> int"
  mpi_add :: "int \<Rightarrow> int \<Rightarrow> int"
  mpi_sub :: "int \<Rightarrow> int \<Rightarrow> int"
  mpi_mul :: "int \<Rightarrow> int \<Rightarrow> int"
  mpi_mod :: "int \<Rightarrow> int \<Rightarrow> int"
  mpi_powm :: "int \<Rightarrow> int \<Rightarrow> int \<Rightarrow> int"
  mpi_addm :: "int \<Rightarrow> int \<Rightarrow> int \<Rightarrow> int"
  digest :: "hash_alg \<Rightarrow> bytes \<Rightarrow> bytes"
  kdf :: "bytes \<Rightarrow> bytes \<Rightarrow> bytes \<Rightarrow> nat \<Rightarrow> bytes option"
  aead_seal :: "bytes \<Rightarrow> bytes \<Rightarrow> bytes \<Rightarrow> bytes \<Rightarrow> (bytes \<times> bytes) option"
  aead_open :: "bytes \<Rightarrow> bytes \<Rightarrow> bytes \<Rightarrow> bytes \<Rightarrow> bytes \<Rightarrow> bytes option"
  sign :: "bytes \<Rightarrow> bytes \<Rightarrow> bytes"
  sign_verify :: "bytes \<Rightarrow> bytes \<Rightarrow> bytes \<Rightarrow> bool"
  sign_seed_keypair :: "bytes \<Rightarrow> bytes \<times> bytes"
  sign_sk_to_pk :: "bytes \<Rightarrow> bytes"
  box_sk_to_pk :: "bytes \<Rightarrow> bytes"
  scalarmult :: "bytes \<Rightarrow> bytes \<Rightarrow> bytes option"

text \<open>\<open>hash_length\<close> of \<open>pair.c\<close>: the digest sizes of the five algorithms.\<close>

fun hash_length :: "hash_alg \<Rightarrow> nat" where
  "hash_length HASH_SHA1 = 20"
| "hash_length HASH_SHA224 = 28"
| "hash_length HASH_SHA256 = 32"
| "hash_length HASH_SHA384 = 48"
| "hash_length HASH_SHA512 = 64"

subsection \<open>What the code relies on\<close>

definition mpi_ok :: "crypto \<Rightarrow> bool" where
  "mpi_ok C \<longleftrightarrow>
     (\<forall>n \<ge> 0. \<forall>k. mpi_nbits C n \<le> k \<longleftrightarrow> n < 2 ^ k) \<and>
     (\<forall>n \<ge> 0. mpi_scan C (mpi_print C n) = n \<and> length (mpi_print C n) = (mpi_nbits C n + 7) div 8) \<and>
     (\<forall>bs. 0 \<le> mpi_scan C bs \<and> mpi_scan C bs < 256 ^ length bs) \<and>
     (\<forall>a b. mpi_add C a b = a + b \<and> mpi_sub C a b = a - b \<and> mpi_mul C a b = a * b) \<and>
     (\<forall>a m. 0 < m \<longrightarrow> mpi_mod C a m = a mod m) \<and>
     (\<forall>a b m. 0 < m \<longrightarrow> mpi_addm C a b m = (a + b) mod m) \<and>
     (\<forall>b e m. 0 \<le> e \<longrightarrow> 0 < m \<longrightarrow> mpi_powm C b e m = b ^ nat e mod m)"

definition digest_ok :: "crypto \<Rightarrow> bool" where
  "digest_ok C \<longleftrightarrow> (\<forall>alg m. length (digest C alg m) = hash_length alg)"

definition kdf_ok :: "crypto \<Rightarrow> bool" where
  "kdf_ok C \<longleftrightarrow> (\<forall>salt ikm info len. len \<le> 64 \<longrightarrow>
     (\<exists>okm. kdf C salt ikm info len = Some okm \<and> length okm = len))"

definition aead_ok :: "crypto \<Rightarrow> bool" where
  "aead_ok C \<longleftrightarrow> (\<forall>key nonce ad plain. \<exists>c t. aead_seal C key nonce ad plain = Some (c, t)
     \<and> length c = length plain \<and> length t = 16 \<and> aead_open C key nonce ad c t = Some plain)
   \<and> (\<forall>key nonce ad c t plain. aead_open C key nonce ad c t = Some plain \<longrightarrow> length plain = length c)"

definition sign_ok :: "crypto \<Rightarrow> bool" where
  "sign_ok C \<longleftrightarrow> (\<forall>msg sk. length (sign C msg sk) = 64 \<and> sign_verify C (sign C msg sk) msg (sign_sk_to_pk C sk))
   \<and> (\<forall>seed. length (fst (sign_seed_keypair C seed)) = 32 \<and> length (snd (sign_seed_keypair C seed)) = 64
        \<and> sign_sk_to_pk C (snd (sign_seed_keypair C seed)) = fst (sign_seed_keypair C seed))
   \<and> (\<forall>sk. length (sign_sk_to_pk C sk) = 32)"

definition dh_ok :: "crypto \<Rightarrow> bool" where
  "dh_ok C \<longleftrightarrow> (\<forall>sk sk'. scalarmult C sk (box_sk_to_pk C sk') = scalarmult C sk' (box_sk_to_pk C sk)
     \<and> (\<exists>s. scalarmult C sk (box_sk_to_pk C sk') = Some s \<and> length s = 32))
   \<and> (\<forall>sk. length (box_sk_to_pk C sk) = 32)"

definition crypto_ok :: "crypto \<Rightarrow> bool" where
  "crypto_ok C \<longleftrightarrow> initialized C \<and> mpi_ok C \<and> digest_ok C \<and> kdf_ok C \<and> aead_ok C \<and> sign_ok C \<and> dh_ok C"

lemma mpi_okD:
  assumes "mpi_ok C"
  shows "0 \<le> n \<Longrightarrow> mpi_nbits C n \<le> k \<longleftrightarrow> n < 2 ^ k"
    and "0 \<le> n \<Longrightarrow> mpi_scan C (mpi_print C n) = n"
    and "0 \<le> n \<Longrightarrow> length (mpi_print C n) = (mpi_nbits C n + 7) div 8"
    and "0 \<le> mpi_scan C bs" and "mpi_scan C bs < 256 ^ length bs"
    and "mpi_add C a b = a + b" and "mpi_sub C a b = a - b" and "mpi_mul C a b = a * b"
    and "0 < m \<Longrightarrow> mpi_mod C a m = a mod m"
    and "0 < m \<Longrightarrow> mpi_addm C a b m = (a + b) mod m"
    and "0 \<le> e \<Longrightarrow> 0 < m \<Longrightarrow> mpi_powm C b e m = b ^ nat e mod m"
  using assms by (simp_all add: mpi_ok_def)

lemma length_mpi_print_le:
  assumes "mpi_ok C" and "0 \<le> n"
  shows "length (mpi_print C n) \<le> k \<longleftrightarrow> n < 256 ^ k"
proof -
  have "length (mpi_print C n) \<le> k \<longleftrightarrow> mpi_nbits C n \<le> 8 * k"
    unfolding mpi_okD(3) [OF assms] by linarith
  also have "\<dots> \<longleftrightarrow> n < 256 ^ k"
    by (simp add: mpi_okD(1) [OF assms] power_mult)
  finally show ?thesis .
qed

lemma mpi_print_Nil_iff:
  assumes "mpi_ok C" and "0 \<le> n"
  shows "mpi_print C n = [] \<longleftrightarrow> n = 0"
  using length_mpi_print_le [OF assms, of 0] assms(2) by auto

lemma kdf_okD: "kdf_ok C \<Longrightarrow> len \<le> 64 \<Longrightarrow> \<exists>okm. kdf C salt ikm info len = Some okm \<and> length okm = len"
  by (simp add: kdf_ok_def)

lemma aead_seal_open:
  assumes "aead_ok C"
  obtains c t where "aead_seal C key nonce ad plain = Some (c, t)" "length c = length plain"
    "length t = 16" "aead_open C key nonce ad c t = Some plain"
  using assms unfolding aead_ok_def by blast

lemma aead_open_length: "aead_ok C \<Longrightarrow> aead_open C key nonce ad c t = Some plain \<Longrightarrow> length plain = length c"
  unfolding aead_ok_def by blast

lemma sign_okD:
  assumes "sign_ok C"
  shows "length (sign C msg sk) = 64" and "sign_verify C (sign C msg sk) msg (sign_sk_to_pk C sk)"
    and "length (sign_sk_to_pk C sk) = 32"
    and "length (fst (sign_seed_keypair C seed)) = 32" and "length (snd (sign_seed_keypair C seed)) = 64"
    and "sign_sk_to_pk C (snd (sign_seed_keypair C seed)) = fst (sign_seed_keypair C seed)"
  using assms by (auto simp: sign_ok_def)

lemma dh_okD:
  assumes "dh_ok C"
  shows "scalarmult C sk (box_sk_to_pk C sk') = scalarmult C sk' (box_sk_to_pk C sk)"
    and "\<exists>s. scalarmult C sk (box_sk_to_pk C sk') = Some s \<and> length s = 32"
    and "length (box_sk_to_pk C sk) = 32"
  using assms unfolding dh_ok_def by blast+

lemma digest_okD: "digest_ok C \<Longrightarrow> length (digest C alg m) = hash_length alg"
  by (simp add: digest_ok_def)

end
