(* ===== verification/Sample_Crypto.thy ===== *)
theory Sample_Crypto
  imports Crypto
begin

text \<open>
  One record of operations that keeps all the promises of \<open>Crypto\<close>, so that the theorems which rest on
  them can be applied to concrete inputs. It is arithmetic and copying, not cryptography.
\<close>

subsection \<open>Bignums\<close>

function nat_bits :: "nat \<Rightarrow> nat" where
  "nat_bits n = (if n = 0 then 0 else Suc (nat_bits (n div 2)))"
  by pat_completeness auto
termination by (relation "measure id") auto

function nat_bytes :: "nat \<Rightarrow> bytes" where
  "nat_bytes n = (if n = 0 then [] else nat_bytes (n div 256) @ [of_nat (n mod 256)])"
  by pat_completeness auto
termination by (relation "measure id") auto

declare nat_bits.simps [simp del] nat_bytes.simps [simp del]

definition bytes_nat :: "bytes \<Rightarrow> nat" where
  "bytes_nat bs = foldl (\<lambda>a b. 256 * a + unat b) 0 bs"

lemma nat_bits_le: "nat_bits n \<le> k \<longleftrightarrow> n < 2 ^ k"
proof (induction n arbitrary: k rule: nat_bits.induct)
  case (1 n)
  show ?case
  proof (cases k)
    case 0
    then show ?thesis by (simp add: nat_bits.simps [of n])
  next
    case (Suc j)
    show ?thesis
    proof (cases "n = 0")
      case False
      then have "nat_bits n \<le> k \<longleftrightarrow> n div 2 < 2 ^ j"
        using 1 [OF False, of j] by (simp add: nat_bits.simps [of n] Suc)
      also have "\<dots> \<longleftrightarrow> n < 2 ^ k" by (simp add: Suc div_less_iff_less_mult mult.commute)
      finally show ?thesis .
    qed (simp add: nat_bits.simps)
  qed
qed

lemma nat_bytes_le: "length (nat_bytes n) \<le> k \<longleftrightarrow> n < 256 ^ k"
proof (induction n arbitrary: k rule: nat_bytes.induct)
  case (1 n)
  show ?case
  proof (cases k)
    case 0
    then show ?thesis by (simp add: nat_bytes.simps [of n])
  next
    case (Suc j)
    show ?thesis
    proof (cases "n = 0")
      case False
      then have "length (nat_bytes n) \<le> k \<longleftrightarrow> n div 256 < 256 ^ j"
        using 1 [OF False, of j] by (simp add: nat_bytes.simps [of n] Suc)
      also have "\<dots> \<longleftrightarrow> n < 256 ^ k" by (simp add: Suc div_less_iff_less_mult mult.commute)
      finally show ?thesis .
    qed (simp add: nat_bytes.simps)
  qed
qed

lemma length_nat_bytes: "length (nat_bytes n) = (nat_bits n + 7) div 8"
proof -
  have "length (nat_bytes n) \<le> k \<longleftrightarrow> (nat_bits n + 7) div 8 \<le> k" for k
  proof -
    have "(nat_bits n + 7) div 8 \<le> k \<longleftrightarrow> nat_bits n \<le> 8 * k" by linarith
    also have "\<dots> \<longleftrightarrow> n < 256 ^ k" by (simp add: nat_bits_le power_mult)
    finally show ?thesis by (simp add: nat_bytes_le)
  qed
  then show ?thesis by (metis order_antisym order_refl)
qed

lemma bytes_nat_append: "bytes_nat (bs @ [b]) = 256 * bytes_nat bs + unat b"
  by (simp add: bytes_nat_def)

lemma bytes_nat_bytes: "bytes_nat (nat_bytes n) = n"
proof (induction n rule: nat_bytes.induct)
  case (1 n)
  show ?case
  proof (cases "n = 0")
    case False
    then show ?thesis
      using 1 by (simp add: nat_bytes.simps [of n] bytes_nat_append unat_of_nat)
  qed (simp add: nat_bytes.simps bytes_nat_def)
qed

lemma bytes_nat_less: "bytes_nat bs < 256 ^ length bs"
proof (induction bs rule: rev_induct)
  case (snoc b bs)
  have "unat b < 256" by (rule order_less_le_trans [OF unsigned_less]) simp
  with snoc have "256 * bytes_nat bs + unat b < 256 * 256 ^ length bs" by linarith
  then show ?case by (simp add: bytes_nat_append)
qed (simp add: bytes_nat_def)

subsection \<open>The record\<close>

definition pad :: "nat \<Rightarrow> bytes \<Rightarrow> bytes" where
  "pad n bs = take n (bs @ replicate n 0)"

lemma length_pad [simp]: "length (pad n bs) = n"
  by (simp add: pad_def)

definition sample_crypto :: crypto where
  "sample_crypto =
     \<lparr>initialized = True,
      mpi_nbits = (\<lambda>n. nat_bits (nat n)),
      mpi_print = (\<lambda>n. nat_bytes (nat n)),
      mpi_scan = (\<lambda>bs. int (bytes_nat bs)),
      mpi_add = (+), mpi_sub = (-), mpi_mul = (*), mpi_mod = (mod),
      mpi_powm = (\<lambda>b e m. b ^ nat e mod m),
      mpi_addm = (\<lambda>a b m. (a + b) mod m),
      digest = (\<lambda>alg m. replicate (hash_length alg - 1) 0 @ [1]),
      kdf = (\<lambda>salt ikm info len. if len \<le> 64 then Some (pad len (ikm @ info)) else None),
      aead_seal = (\<lambda>key nonce ad plain. Some (plain, pad 16 key)),
      aead_open = (\<lambda>key nonce ad c tag. if tag = pad 16 key then Some c else None),
      sign = (\<lambda>msg sk. pad 32 (drop 32 sk) @ pad 32 msg),
      sign_verify = (\<lambda>sig msg pk. sig = pk @ pad 32 msg),
      sign_seed_keypair = (\<lambda>seed. (pad 32 seed, pad 32 seed @ pad 32 seed)),
      sign_sk_to_pk = (\<lambda>sk. pad 32 (drop 32 sk)),
      box_sk_to_pk = (\<lambda>sk. pad 32 sk),
      scalarmult = (\<lambda>sk pk. Some (map (\<lambda>(a, b). a XOR b) (zip (pad 32 sk) (pad 32 pk))))\<rparr>"

lemma pad_pad [simp]: "pad n (pad n bs) = pad n bs"
  by (simp add: pad_def)

lemma map_xor_zip_swap: "map (\<lambda>(a, b). a XOR b) (zip xs ys) = map (\<lambda>(a, b). a XOR b) (zip ys (xs :: bytes))"
proof (induction xs arbitrary: ys)
  case (Cons x xs)
  then show ?case by (cases ys) (auto simp: xor.commute)
qed simp

lemma sample_mpi_ok: "mpi_ok sample_crypto"
proof -
  have "int (bytes_nat bs) < 256 ^ length bs" for bs
    using bytes_nat_less [of bs] by (metis of_nat_less_iff of_nat_numeral of_nat_power)
  moreover have "nat_bits (nat n) \<le> k \<longleftrightarrow> n < 2 ^ k" if "0 \<le> n" for n :: int and k
    using that by (simp add: nat_bits_le nat_less_iff)
  ultimately show ?thesis
    by (simp add: mpi_ok_def sample_crypto_def bytes_nat_bytes length_nat_bytes)
qed

lemma sample_crypto_ok: "crypto_ok sample_crypto"
proof -
  have "0 < hash_length alg" for alg by (cases alg) simp_all
  then have "digest_ok sample_crypto" by (simp add: digest_ok_def sample_crypto_def)
  moreover have "kdf_ok sample_crypto" "aead_ok sample_crypto"
    by (simp_all add: kdf_ok_def aead_ok_def sample_crypto_def)
  moreover have "sign_ok sample_crypto"
    by (simp add: sign_ok_def sample_crypto_def)
  moreover have "dh_ok sample_crypto"
    by (auto simp: dh_ok_def sample_crypto_def intro: map_xor_zip_swap)
  moreover have "initialized sample_crypto" by (simp add: sample_crypto_def)
  ultimately show ?thesis by (simp add: crypto_ok_def sample_mpi_ok)
qed

end
