(* ===== verification/Tlv.thy ===== *)
theory Tlv
  imports Prelude
begin

text \<open>
  The TLV messages of the pairing protocol, \<open>src/pair_ap/pair-tlv.c\<close>: a message is a list of typed
  values, on the wire each value is cut into chunks of at most 255 bytes. Allocation is taken to
  succeed, so \<open>PAIR_TLV_ERROR_MEMORY\<close> does not occur; every other branch of the code is here,
  with its reads and writes outside a buffer as \<^const>\<open>Out_of_bounds\<close>.
\<close>

subsection \<open>The list of values\<close>

text \<open>
  A node of \<open>pair_tlv_t\<close>; its \<open>size\<close> is the length of the value, and the value pointer is null
  exactly when the size is 0. The linked list \<open>pair_tlv_values_t\<close> is a list, head first.
\<close>

record tlv =
  tlv_type :: u8
  tlv_value :: bytes

type_synonym tlv_values = "tlv list"

definition mk_tlv :: "u8 \<Rightarrow> bytes \<Rightarrow> tlv" where
  "mk_tlv ty v = \<lparr>tlv_type = ty, tlv_value = v\<rparr>"

lemma mk_tlv_sel [simp]: "tlv_type (mk_tlv ty v) = ty" "tlv_value (mk_tlv ty v) = v"
  by (simp_all add: mk_tlv_def)

lemma mk_tlv_eta [simp]: "mk_tlv (tlv_type t) (tlv_value t) = t"
  by (cases t) (simp add: mk_tlv_def)

text \<open>\<open>TLVType\<close> and \<open>TLVError\<close> of \<open>pair-tlv.h\<close>.\<close>

definition TLVType_Method :: u8 where "TLVType_Method = 0"
definition TLVType_Identifier :: u8 where "TLVType_Identifier = 1"
definition TLVType_Salt :: u8 where "TLVType_Salt = 2"
definition TLVType_PublicKey :: u8 where "TLVType_PublicKey = 3"
definition TLVType_Proof :: u8 where "TLVType_Proof = 4"
definition TLVType_EncryptedData :: u8 where "TLVType_EncryptedData = 5"
definition TLVType_State :: u8 where "TLVType_State = 6"
definition TLVType_Error :: u8 where "TLVType_Error = 7"
definition TLVType_Signature :: u8 where "TLVType_Signature = 10"
definition TLVType_Permissions :: u8 where "TLVType_Permissions = 11"
definition TLVType_Flags :: u8 where "TLVType_Flags = 19"
definition TLVType_Separator :: u8 where "TLVType_Separator = 255"

lemmas tlv_types =
  TLVType_Method_def TLVType_Identifier_def TLVType_Salt_def TLVType_PublicKey_def
  TLVType_Proof_def TLVType_EncryptedData_def TLVType_State_def TLVType_Error_def
  TLVType_Signature_def TLVType_Permissions_def TLVType_Flags_def TLVType_Separator_def

definition PAIR_TLV_ERROR_INSUFFICIENT_SIZE :: int where
  "PAIR_TLV_ERROR_INSUFFICIENT_SIZE = -2"

definition pair_tlv_new :: tlv_values where
  "pair_tlv_new = []"

fun tlv_append_value :: "tlv_values \<Rightarrow> u8 \<Rightarrow> bytes \<Rightarrow> tlv_values" where
  "tlv_append_value [] ty v = [mk_tlv ty v]"
| "tlv_append_value (t # ts) ty v = t # tlv_append_value ts ty v"

definition pair_tlv_add_value :: "tlv_values \<Rightarrow> u8 \<Rightarrow> bytes \<Rightarrow> tlv_values" where
  "pair_tlv_add_value values ty v = tlv_append_value values ty v"

fun pair_tlv_get_value :: "tlv_values \<Rightarrow> u8 \<Rightarrow> tlv option" where
  "pair_tlv_get_value [] ty = None"
| "pair_tlv_get_value (t # ts) ty = (if tlv_type t = ty then Some t else pair_tlv_get_value ts ty)"

lemma tlv_append_value_eq: "tlv_append_value ts ty v = ts @ [mk_tlv ty v]"
  by (induction ts) auto

lemma pair_tlv_get_value_append:
  "pair_tlv_get_value (ts @ us) ty =
     (case pair_tlv_get_value ts ty of None \<Rightarrow> pair_tlv_get_value us ty | Some t \<Rightarrow> Some t)"
  by (induction ts) auto

lemma pair_tlv_get_value_Some_type: "pair_tlv_get_value ts ty = Some t \<Longrightarrow> tlv_type t = ty \<and> t \<in> set ts"
  by (induction ts) (auto split: if_splits)

lemma pair_tlv_get_value_None_iff: "pair_tlv_get_value ts ty = None \<longleftrightarrow> ty \<notin> tlv_type ` set ts"
  by (induction ts) auto

subsection \<open>Formatting\<close>

text \<open>
  The first loop of \<open>pair_tlv_format\<close>: the size the code requires of the buffer. Integer division
  rounds down, so a value of size 0 counts for nothing although it is written as two bytes.
\<close>

fun tlv_required_size :: "tlv_values \<Rightarrow> nat" where
  "tlv_required_size [] = 0"
| "tlv_required_size (t # ts) =
     length (tlv_value t) + 2 * ((length (tlv_value t) + 254) div 255) + tlv_required_size ts"

text \<open>The inner loop of the second pass, \<open>while (remaining)\<close>: one chunk per round.\<close>

fun tlv_chunks :: "u8 \<Rightarrow> bytes \<Rightarrow> bytes" where
  "tlv_chunks ty data =
     (if data = [] then []
      else let chunk_size = (if 255 < length data then 255 else length data)
           in ty # of_nat chunk_size # take chunk_size data @ tlv_chunks ty (drop chunk_size data))"

declare tlv_chunks.simps [simp del]

lemma tlv_chunks_Nil [simp]: "tlv_chunks ty [] = []"
  by (simp add: tlv_chunks.simps)

lemma tlv_chunks_small:
  "data \<noteq> [] \<Longrightarrow> length data \<le> 255 \<Longrightarrow> tlv_chunks ty data = ty # of_nat (length data) # data"
  by (subst tlv_chunks.simps) simp

lemma tlv_chunks_large:
  "255 < length data \<Longrightarrow> tlv_chunks ty data = ty # 255 # take 255 data @ tlv_chunks ty (drop 255 data)"
  by (subst tlv_chunks.simps) auto

definition tlv_item_bytes :: "tlv \<Rightarrow> bytes" where
  "tlv_item_bytes t =
     (if tlv_value t = [] then [tlv_type t, 0] else tlv_chunks (tlv_type t) (tlv_value t))"

fun tlv_bytes :: "tlv_values \<Rightarrow> bytes" where
  "tlv_bytes [] = []"
| "tlv_bytes (t # ts) = tlv_item_bytes t @ tlv_bytes ts"

text \<open>
  \<open>pair_tlv_format\<close> on a buffer of \<open>cap\<close> bytes: the return value, the bytes written and the new
  \<open>*size\<close>. Writing more bytes than the buffer holds is a fault.
\<close>

definition pair_tlv_format :: "tlv_values \<Rightarrow> nat \<Rightarrow> (int \<times> bytes \<times> nat) res" where
  "pair_tlv_format values cap =
     (let required_size = tlv_required_size values; out = tlv_bytes values in
      if cap < required_size then Inr (PAIR_TLV_ERROR_INSUFFICIENT_SIZE, [], required_size)
      else if cap < length out then Inl Out_of_bounds
      else Inr (0, out, required_size))"

subsection \<open>Parsing\<close>

text \<open>
  The positions \<open>i\<close> and \<open>j\<close> of the parser are the suffixes of the buffer that start there. The
  scan adds up the chunks of the type \<open>ty\<close>: as long as they are full (255 bytes), plus one.
\<close>

fun tlv_scan :: "u8 \<Rightarrow> bytes \<Rightarrow> nat res" where
  "tlv_scan ty [] = Inr 0"
| "tlv_scan ty [b] = (if b = ty then Inl Out_of_bounds else Inr 0)"
| "tlv_scan ty (b # c # rest) =
     (if b = ty \<and> c = 255 then bind_res (tlv_scan ty (drop 255 rest)) (\<lambda>n. Inr (255 + n))
      else if b = ty then Inr (unat c)
      else Inr 0)"

text \<open>
  The copy loop \<open>while (remaining)\<close>: the collected value and the position after it. Reading past
  the buffer, and writing past the \<open>remaining\<close> bytes left of the allocated value, are faults.
\<close>

function tlv_copy :: "nat \<Rightarrow> bytes \<Rightarrow> (bytes \<times> bytes) res" where
  "tlv_copy remaining buf =
     (if remaining = 0 then Inr ([], buf)
      else case buf of
        b # c # rest \<Rightarrow>
          (if length rest < unat c \<or> remaining < unat c then Inl Out_of_bounds
           else bind_res (tlv_copy (remaining - unat c) (drop (unat c) rest))
                  (\<lambda>(d, r). Inr (take (unat c) rest @ d, r)))
      | _ \<Rightarrow> Inl Out_of_bounds)"
  by pat_completeness auto
termination
  by (relation "measure (\<lambda>(n, buf). length buf)") auto

declare tlv_copy.simps [simp del]

lemma tlv_copy_0 [simp]: "tlv_copy 0 buf = Inr ([], buf)"
  by (simp add: tlv_copy.simps)

lemma tlv_copy_short [simp]: "0 < n \<Longrightarrow> length buf < 2 \<Longrightarrow> tlv_copy n buf = Inl Out_of_bounds"
  by (subst tlv_copy.simps) (auto split: list.splits)

lemma tlv_copy_Cons [simp]:
  "0 < n \<Longrightarrow> tlv_copy n (b # c # rest) =
     (if length rest < unat c \<or> n < unat c then Inl Out_of_bounds
      else bind_res (tlv_copy (n - unat c) (drop (unat c) rest))
             (\<lambda>(d, r). Inr (take (unat c) rest @ d, r)))"
  by (subst tlv_copy.simps) simp

text \<open>
  One round of the outer loop: the value at position \<open>buf\<close> and the position after it. When the
  scanned size is 0 the code does not move \<open>i\<close>.
\<close>

definition tlv_item :: "bytes \<Rightarrow> (tlv \<times> bytes) res" where
  "tlv_item buf =
     (let ty = hd buf in
      bind_res (tlv_scan ty buf) (\<lambda>size.
        if size = 0 then Inr (mk_tlv ty [], buf)
        else bind_res (tlv_copy size buf) (\<lambda>(data, rest). Inr (mk_tlv ty data, rest))))"

text \<open>The outer loop may run forever; then the value is \<open>None\<close>.\<close>

partial_function (option) tlv_parse_loop :: "bytes \<Rightarrow> tlv_values \<Rightarrow> tlv_values res option" where
  "tlv_parse_loop buf values =
     (if buf = [] then Some (Inr values)
      else if isl (tlv_item buf) then Some (Inl (projl (tlv_item buf)))
      else tlv_parse_loop (snd (projr (tlv_item buf)))
             (tlv_append_value values (tlv_type (fst (projr (tlv_item buf))))
                (tlv_value (fst (projr (tlv_item buf))))))"

definition pair_tlv_parse :: "bytes \<Rightarrow> tlv_values \<Rightarrow> tlv_values res" where
  "pair_tlv_parse buf values =
     (case tlv_parse_loop buf values of None \<Rightarrow> Inl Diverges | Some r \<Rightarrow> r)"


subsection \<open>Sizes\<close>

lemma length_tlv_chunks: "length (tlv_chunks ty data) = length data + 2 * ((length data + 254) div 255)"
proof (induction ty data rule: tlv_chunks.induct)
  case (1 ty data)
  show ?case
  proof (cases "data = []")
    case True
    then show ?thesis by (simp add: tlv_chunks.simps)
  next
    case False
    show ?thesis
    proof (cases "255 < length data")
      case True
      with 1 False have "length (tlv_chunks ty (drop 255 data)) =
          length data - 255 + 2 * ((length data - 255 + 254) div 255)"
        by simp
      moreover from True have "(length data + 254) div 255 = Suc ((length data - 255 + 254) div 255)"
        by linarith
      ultimately show ?thesis
        using True False by (simp add: tlv_chunks.simps [of ty data])
    next
      case small: False
      with False have "(length data + 254) div 255 = 1"
        by (simp add: Suc_le_eq div_nat_eqI)
      then show ?thesis
        using small False by (simp add: tlv_chunks.simps [of ty data])
    qed
  qed
qed

lemma length_tlv_item_bytes:
  "length (tlv_item_bytes t) =
     tlv_required_size [t] + (if tlv_value t = [] then 2 else 0)"
  by (simp add: tlv_item_bytes_def length_tlv_chunks)

definition empty_values :: "tlv_values \<Rightarrow> nat" where
  "empty_values ts = length (filter (\<lambda>t. tlv_value t = []) ts)"

lemma length_tlv_bytes: "length (tlv_bytes ts) = tlv_required_size ts + 2 * empty_values ts"
  by (induction ts) (simp_all add: length_tlv_item_bytes empty_values_def)

lemma tlv_bytes_append: "tlv_bytes (ts @ us) = tlv_bytes ts @ tlv_bytes us"
  by (induction ts) simp_all

lemma tlv_required_size_append:
  "tlv_required_size (ts @ us) = tlv_required_size ts + tlv_required_size us"
  by (induction ts) simp_all

lemma empty_values_0_iff: "empty_values ts = 0 \<longleftrightarrow> (\<forall>t \<in> set ts. tlv_value t \<noteq> [])"
  by (auto simp: empty_values_def filter_empty_conv)

subsection \<open>Parsing what was formatted\<close>

text \<open>
  A value's bytes can be told from what follows when the last chunk of the value is not full, or
  when the scan adds nothing from what follows (no item of the same type, or one of length 0).
\<close>

definition separates :: "u8 \<Rightarrow> bytes \<Rightarrow> bytes \<Rightarrow> bool" where
  "separates ty data rest \<longleftrightarrow> tlv_scan ty rest = Inr 0 \<or> length data mod 255 \<noteq> 0"

lemma tlv_scan_other: "rest = [] \<or> hd rest \<noteq> ty \<Longrightarrow> tlv_scan ty rest = Inr 0"
  by (cases "(ty, rest)" rule: tlv_scan.cases) auto

lemma tlv_scan_chunks:
  "data \<noteq> [] \<Longrightarrow> separates ty data rest \<Longrightarrow> tlv_scan ty (tlv_chunks ty data @ rest) = Inr (length data)"
proof (induction ty data rule: tlv_chunks.induct)
  case (1 ty data)
  show ?case
  proof (cases "255 < length data")
    case True
    then have "separates ty (drop 255 data) rest" and "drop 255 data \<noteq> []"
      using "1.prems"(2) by (auto simp: separates_def mod_if)
    with 1 True have "tlv_scan ty (tlv_chunks ty (drop 255 data) @ rest) = Inr (length data - 255)"
      by simp
    then show ?thesis
      using True "1.prems"(1) by (simp add: tlv_chunks.simps [of ty data])
  next
    case False
    have chunks: "tlv_chunks ty data = ty # of_nat (length data) # data"
      using False "1.prems"(1) by (simp add: tlv_chunks.simps [of ty data])
    have unat: "unat (of_nat (length data) :: u8) = length data"
      using False by (simp add: unat_of_nat)
    show ?thesis
    proof (cases "length data = 255")
      case True
      then have "tlv_scan ty rest = Inr 0"
        using "1.prems"(2) by (simp add: separates_def)
      then show ?thesis
        using True by (simp add: chunks)
    next
      case neq: False
      then have "(of_nat (length data) :: u8) \<noteq> 255"
        using unat neq by auto
      then show ?thesis
        by (simp add: chunks unat)
    qed
  qed
qed

lemma tlv_copy_chunks: "tlv_copy (length data) (tlv_chunks ty data @ rest) = Inr (data, rest)"
proof (induction ty data rule: tlv_chunks.induct)
  case (1 ty data)
  show ?case
  proof (cases "data = []")
    case True
    then show ?thesis by (simp add: tlv_copy.simps tlv_chunks.simps)
  next
    case False
    show ?thesis
    proof (cases "255 < length data")
      case True
      with 1 False have IH: "tlv_copy (length data - 255) (tlv_chunks ty (drop 255 data) @ rest) =
          Inr (drop 255 data, rest)"
        by simp
      show ?thesis
        using True False
        by (subst tlv_copy.simps) (simp add: tlv_chunks.simps [of ty data] IH)
    next
      case small: False
      then have "unat (of_nat (length data) :: u8) = length data"
        by (simp add: unat_of_nat)
      then show ?thesis
        using small False
        by (subst tlv_copy.simps)
          (simp add: tlv_chunks.simps [of ty data] tlv_copy.simps [of 0])
    qed
  qed
qed

lemma hd_tlv_chunks: "data \<noteq> [] \<Longrightarrow> tlv_chunks ty data \<noteq> [] \<and> hd (tlv_chunks ty data) = ty"
  by (simp add: tlv_chunks.simps [of ty data] Let_def)

lemma tlv_item_chunks:
  assumes "data \<noteq> []" and "separates ty data rest"
  shows "tlv_item (tlv_chunks ty data @ rest) = Inr (mk_tlv ty data, rest)"
  using assms hd_tlv_chunks [OF assms(1), of ty]
  by (simp add: tlv_item_def tlv_scan_chunks tlv_copy_chunks)


text \<open>
  A message is unambiguous when no value is empty and no two neighbours of the same type stand
  next to each other with the first one filling its last chunk.
\<close>

fun wf_tlvs :: "tlv_values \<Rightarrow> bool" where
  "wf_tlvs [] \<longleftrightarrow> True"
| "wf_tlvs [t] \<longleftrightarrow> tlv_value t \<noteq> []"
| "wf_tlvs (t # u # ts) \<longleftrightarrow> tlv_value t \<noteq> [] \<and>
     (tlv_type t \<noteq> tlv_type u \<or> length (tlv_value t) mod 255 \<noteq> 0) \<and> wf_tlvs (u # ts)"

lemma wf_tlvs_Cons:
  "wf_tlvs (t # ts) \<longleftrightarrow> tlv_value t \<noteq> [] \<and> wf_tlvs ts \<and>
     (ts = [] \<or> tlv_type t \<noteq> tlv_type (hd ts) \<or> length (tlv_value t) mod 255 \<noteq> 0)"
  by (cases ts) auto

lemma wf_tlvs_nonempty: "wf_tlvs ts \<Longrightarrow> empty_values ts = 0"
  by (induction ts) (auto simp: wf_tlvs_Cons empty_values_def)

lemma hd_tlv_item_bytes: "tlv_item_bytes t \<noteq> [] \<and> hd (tlv_item_bytes t) = tlv_type t"
  by (simp add: tlv_item_bytes_def hd_tlv_chunks)

lemma hd_tlv_bytes: "ts \<noteq> [] \<Longrightarrow> tlv_bytes ts \<noteq> [] \<and> hd (tlv_bytes ts) = tlv_type (hd ts)"
  by (cases ts) (simp_all add: hd_tlv_item_bytes)

lemma separates_tlv_bytes:
  "ts = [] \<or> ty \<noteq> tlv_type (hd ts) \<or> length v mod 255 \<noteq> 0 \<Longrightarrow> separates ty v (tlv_bytes ts)"
  by (cases "ts = []") (auto simp: separates_def hd_tlv_bytes tlv_scan_other)

lemma tlv_parse_loop_step:
  "buf \<noteq> [] \<Longrightarrow> tlv_item buf = Inr (t, rest) \<Longrightarrow>
     tlv_parse_loop buf acc = tlv_parse_loop rest (acc @ [t])"
  by (subst tlv_parse_loop.simps) (simp add: tlv_append_value_eq)

lemma tlv_parse_loop_Nil [simp]: "tlv_parse_loop [] acc = Some (Inr acc)"
  by (simp add: tlv_parse_loop.simps)

text \<open>
  The parser reads a well formed prefix item by item, whatever comes behind it as long as the last
  value is separated from it.
\<close>

lemma tlv_parse_loop_prefix:
  "wf_tlvs ts \<Longrightarrow>
   (ts \<noteq> [] \<Longrightarrow> separates (tlv_type (last ts)) (tlv_value (last ts)) rest) \<Longrightarrow>
   tlv_parse_loop (tlv_bytes ts @ rest) acc = tlv_parse_loop rest (acc @ ts)"
proof (induction ts arbitrary: acc)
  case Nil
  then show ?case by simp
next
  case (Cons t ts)
  have ne: "tlv_value t \<noteq> []" and wf: "wf_tlvs ts"
    using Cons.prems(1) by (auto simp: wf_tlvs_Cons)
  have sep: "separates (tlv_type t) (tlv_value t) (tlv_bytes ts @ rest)"
  proof (cases "ts = []")
    case True
    then show ?thesis using Cons.prems(2) by simp
  next
    case False
    then show ?thesis
      using Cons.prems(1) hd_tlv_bytes [OF False]
      by (auto simp: separates_def wf_tlvs_Cons intro!: tlv_scan_other)
  qed
  have "tlv_item (tlv_bytes (t # ts) @ rest) = Inr (t, tlv_bytes ts @ rest)"
    using tlv_item_chunks [OF ne sep] ne by (simp add: tlv_item_bytes_def mk_tlv_def)
  moreover have "tlv_bytes (t # ts) @ rest \<noteq> []"
    by (simp add: hd_tlv_item_bytes)
  ultimately have "tlv_parse_loop (tlv_bytes (t # ts) @ rest) acc =
      tlv_parse_loop (tlv_bytes ts @ rest) (acc @ [t])"
    by (rule tlv_parse_loop_step [rotated])
  also have "\<dots> = tlv_parse_loop rest ((acc @ [t]) @ ts)"
    using Cons.prems(2) by (intro Cons.IH wf) auto
  finally show ?case by simp
qed

lemma pair_tlv_parse_bytes: "wf_tlvs ts \<Longrightarrow> pair_tlv_parse (tlv_bytes ts) acc = Inr (acc @ ts)"
  using tlv_parse_loop_prefix [of ts "[]" acc] by (simp add: separates_def pair_tlv_parse_def)

lemma pair_tlv_format_wf:
  "wf_tlvs ts \<Longrightarrow> pair_tlv_format ts cap =
     Inr (if cap < tlv_required_size ts
          then (PAIR_TLV_ERROR_INSUFFICIENT_SIZE, [], tlv_required_size ts)
          else (0, tlv_bytes ts, length (tlv_bytes ts)))"
  by (simp add: pair_tlv_format_def length_tlv_bytes wf_tlvs_nonempty)

subsection \<open>A zero length item\<close>

text \<open>
  At an item of length 0 the scan yields size 0, so the outer loop appends an empty value and stays
  where it is: it never returns.
\<close>

lemma tlv_parse_loop_stuck_aux:
  assumes "tlv_parse_loop buf acc = Some r"
  shows "\<not> (buf \<noteq> [] \<and> (\<exists>t. tlv_item buf = Inr (t, buf)))"
proof (rule tlv_parse_loop.raw_induct
    [where P = "\<lambda>buf acc r. \<not> (buf \<noteq> [] \<and> (\<exists>t. tlv_item buf = Inr (t, buf)))", OF _ assms])
  fix f :: "bytes \<Rightarrow> tlv_values \<Rightarrow> tlv_values res option" and buf acc r
  assume IH: "\<And>buf acc r. f buf acc = Some r \<Longrightarrow> \<not> (buf \<noteq> [] \<and> (\<exists>t. tlv_item buf = Inr (t, buf)))"
    and eq: "(if buf = [] then Some (Inr acc)
      else if isl (tlv_item buf) then Some (Inl (projl (tlv_item buf)))
      else f (snd (projr (tlv_item buf)))
             (tlv_append_value acc (tlv_type (fst (projr (tlv_item buf))))
                (tlv_value (fst (projr (tlv_item buf)))))) = Some r"
  show "\<not> (buf \<noteq> [] \<and> (\<exists>t. tlv_item buf = Inr (t, buf)))"
  proof
    assume stuck: "buf \<noteq> [] \<and> (\<exists>t. tlv_item buf = Inr (t, buf))"
    then obtain t where "tlv_item buf = Inr (t, buf)" by blast
    with stuck eq have "f buf (tlv_append_value acc (tlv_type t) (tlv_value t)) = Some r"
      by simp
    from IH [OF this] stuck show False by blast
  qed
qed

lemma tlv_parse_loop_stuck: "buf \<noteq> [] \<Longrightarrow> tlv_item buf = Inr (t, buf) \<Longrightarrow> tlv_parse_loop buf acc = None"
  using tlv_parse_loop_stuck_aux by (cases "tlv_parse_loop buf acc") blast+

lemma tlv_item_zero_length: "tlv_item (ty # 0 # rest) = Inr (mk_tlv ty [], ty # 0 # rest)"
  by (simp add: tlv_item_def)

subsection \<open>Progress\<close>

text \<open>
  Every other item moves the position forward by more than its value: the loop returns unless it
  meets an item of size 0.
\<close>

lemma tlv_copy_progress:
  "tlv_copy n buf = Inr (d, rest) \<Longrightarrow> 0 < n \<Longrightarrow> length d = n \<and> length rest < length buf"
proof (induction n buf arbitrary: d rest rule: tlv_copy.induct)
  case (1 n buf)
  have "\<not> length buf < 2"
    using "1.prems" by (metis Inl_Inr_False tlv_copy_short)
  then obtain b c xs where buf: "buf = b # c # xs"
    by (cases buf; cases "tl buf") auto
  from "1.prems" buf have ok: "unat c \<le> length xs" "unat c \<le> n"
    by (auto split: if_splits)
  with "1.prems" buf obtain d' where rec: "tlv_copy (n - unat c) (drop (unat c) xs) = Inr (d', rest)"
    and d: "d = take (unat c) xs @ d'"
    by (auto simp: bind_res_eq_Inr)
  show ?case
  proof (cases "n - unat c = 0")
    case True
    with rec have "d' = []" "rest = drop (unat c) xs" by auto
    with True ok d buf show ?thesis by simp
  next
    case False
    with "1.IH" [OF _ buf refl _ rec] "1.prems"(2) ok
    have "length d' = n - unat c \<and> length rest < length (drop (unat c) xs)"
      by simp
    with ok d buf show ?thesis by auto
  qed
qed

lemma tlv_item_progress:
  assumes "tlv_item buf = Inr (t, rest)"
  shows "length rest < length buf \<or> (rest = buf \<and> tlv_value t = [])"
  using assms
  by (auto simp: tlv_item_def Let_def bind_res_eq_Inr split: if_splits dest!: tlv_copy_progress)


text \<open>A position where the parser stays put is a zero length item.\<close>

lemma tlv_item_stuck:
  assumes "buf \<noteq> []" and "tlv_item buf = Inr (t, rest)" and "tlv_value t = []"
  shows "rest = buf \<and> (\<exists>xs. buf = tlv_type t # 0 # xs)"
proof -
  have "tlv_scan (hd buf) buf = Inr 0" and "t = mk_tlv (hd buf) []" and "rest = buf"
    using assms(2,3)
    by (auto simp: tlv_item_def Let_def bind_res_eq_Inr split: if_splits dest!: tlv_copy_progress)
  with assms(1) show ?thesis
    by (cases buf; cases "tl buf") (auto split: if_splits simp: bind_res_eq_Inr unat_eq_0)
qed

text \<open>
  What an accepted item looks like: exactly the chunks that formatting its value produces, followed
  by a position from which the scan would add nothing.
\<close>

lemma tlv_scan_copy_chunks:
  "tlv_scan ty buf = Inr n \<Longrightarrow> tlv_copy n buf = Inr (d, rest) \<Longrightarrow> 0 < n \<Longrightarrow>
     buf = tlv_chunks ty d @ rest \<and> length d = n \<and> separates ty d rest"
proof (induction ty buf arbitrary: n d rest rule: tlv_scan.induct)
  case (3 ty b c xs)
  have b: "b = ty" using "3.prems" by (auto split: if_splits)
  show ?case
  proof (cases "c = 255")
    case True
    with "3.prems" b obtain m where m: "tlv_scan ty (drop 255 xs) = Inr m" and n: "n = 255 + m"
      by (auto simp: bind_res_eq_Inr)
    with "3.prems"(2) True obtain d' where rec: "tlv_copy m (drop 255 xs) = Inr (d', rest)"
      and d: "d = take 255 xs @ d'" and len: "255 \<le> length xs"
      by (auto simp: bind_res_eq_Inr split: if_splits)
    show ?thesis
    proof (cases "m = 0")
      case True
      with rec have rest: "d' = []" "rest = drop 255 xs" by auto
      have "tlv_chunks ty d = ty # 255 # take 255 xs"
          using d rest len by (subst tlv_chunks_small) auto
      then show ?thesis
        using True rest d n m len b \<open>c = 255\<close> by (simp add: separates_def)
    next
      case False
      with "3.IH" [OF _ m rec] b \<open>c = 255\<close>
      have IH: "drop 255 xs = tlv_chunks ty d' @ rest" "length d' = m" "separates ty d' rest"
        by auto
      have "tlv_chunks ty d = ty # 255 # take 255 xs @ tlv_chunks ty d'"
        using d len IH(2) False by (subst tlv_chunks_large) auto
      moreover have "take 255 xs @ tlv_chunks ty d' @ rest = xs"
        unfolding IH(1) [symmetric] by simp
      moreover have "length d mod 255 = length d' mod 255"
        using d len by simp
      ultimately show ?thesis
        using d n len IH(2,3) b \<open>c = 255\<close> by (simp add: separates_def)
    qed
  next
    case False
    with "3.prems" b have n: "n = unat c" and ok: "unat c \<le> length xs"
      and d: "d = take (unat c) xs" and rest: "rest = drop (unat c) xs"
      by (auto split: if_splits)
    have lt: "unat c < 255"
    proof -
      have "unat c \<noteq> unat (255 :: u8)" using False by (metis unsigned_word_eqI)
      moreover have "unat c < 256" by (rule order_less_le_trans [OF unsigned_less]) simp
      ultimately show ?thesis by simp
    qed
    have "tlv_chunks ty d = ty # c # d"
      using d ok lt n "3.prems"(3) by (subst tlv_chunks_small) auto
    then show ?thesis
      using d rest n ok lt b "3.prems"(3) by (simp add: separates_def)
  qed
qed (auto split: if_splits)

lemma tlv_item_chunks_inv:
  assumes "tlv_item buf = Inr (t, rest)" and "tlv_value t \<noteq> []"
  shows "buf = tlv_item_bytes t @ rest \<and> separates (tlv_type t) (tlv_value t) rest"
  using assms
  by (auto simp: tlv_item_def Let_def bind_res_eq_Inr tlv_item_bytes_def split: if_splits
      dest!: tlv_scan_copy_chunks)


subsection \<open>What the parser accepts, and when it does not return\<close>

lemma tlv_scan_pos:
  assumes "tlv_value u \<noteq> []"
  shows "tlv_scan (tlv_type u) (tlv_bytes (u # us) @ r) \<noteq> Inr 0"
proof (cases "255 < length (tlv_value u)")
  case True
  with assms show ?thesis
    by (simp add: tlv_item_bytes_def tlv_chunks_large bind_res_eq_Inr)
next
  case False
  then have "unat (of_nat (length (tlv_value u)) :: u8) = length (tlv_value u)"
    by (simp add: unat_of_nat)
  with False assms show ?thesis
    by (simp add: tlv_item_bytes_def tlv_chunks_small bind_res_eq_Inr)
qed

lemma wf_tlvs_ConsI:
  assumes "tlv_value t \<noteq> []" and "wf_tlvs us"
    and "separates (tlv_type t) (tlv_value t) (tlv_bytes us @ r)"
  shows "wf_tlvs (t # us)"
  using assms tlv_scan_pos [of "hd us" "tl us" r]
  by (cases us) (auto simp: wf_tlvs_Cons separates_def)

text \<open>The next position of the loop, when it neither stops, faults nor stays put.\<close>

lemma tlv_parse_loop_moves:
  assumes "buf \<noteq> []" and "tlv_item buf = Inr (t, rest)" and "tlv_parse_loop buf acc = Some r \<or> rest \<noteq> buf"
  shows "tlv_value t \<noteq> [] \<and> length rest < length buf"
  using assms tlv_item_stuck [OF assms(1,2)] tlv_item_progress [OF assms(2)]
    tlv_parse_loop_stuck [of buf t acc]
  by auto

lemma tlv_parse_loop_accepts:
  "tlv_parse_loop buf acc = Some (Inr ts) \<Longrightarrow> \<exists>us. ts = acc @ us \<and> wf_tlvs us \<and> buf = tlv_bytes us"
proof (induction "length buf" arbitrary: buf acc rule: less_induct)
  case less
  show ?case
  proof (cases "buf = []")
    case True
    then show ?thesis using less.prems by (auto intro: exI [of _ "[]"])
  next
    case False
    with less.prems obtain t rest where item: "tlv_item buf = Inr (t, rest)"
      by (cases "tlv_item buf") (auto simp: tlv_parse_loop.simps [of buf])
    have ne: "tlv_value t \<noteq> []" and shorter: "length rest < length buf"
      using tlv_parse_loop_moves [OF False item] less.prems by auto
    from less.prems have "tlv_parse_loop rest (acc @ [t]) = Some (Inr ts)"
      by (simp add: tlv_parse_loop_step [OF False item])
    with less.hyps [OF shorter] obtain us
      where us: "ts = (acc @ [t]) @ us" "wf_tlvs us" "rest = tlv_bytes us"
      by blast
    from tlv_item_chunks_inv [OF item ne] us(3)
    have "buf = tlv_bytes (t # us)" and "separates (tlv_type t) (tlv_value t) (tlv_bytes us @ [])"
      by auto
    with us(1) wf_tlvs_ConsI [OF ne us(2), of "[]"]
    have "ts = acc @ (t # us) \<and> wf_tlvs (t # us) \<and> buf = tlv_bytes (t # us)"
      by simp
    then show ?thesis by blast
  qed
qed

lemma tlv_parse_loop_None:
  "tlv_parse_loop buf acc = None \<Longrightarrow> \<exists>ts ty xs. wf_tlvs ts \<and> buf = tlv_bytes ts @ ty # 0 # xs"
proof (induction "length buf" arbitrary: buf acc rule: less_induct)
  case less
  then have ne_buf: "buf \<noteq> []" by auto
  with less.prems obtain t rest where item: "tlv_item buf = Inr (t, rest)"
    by (cases "tlv_item buf") (auto simp: tlv_parse_loop.simps [of buf])
  show ?case
  proof (cases "tlv_value t = []")
    case True
    with tlv_item_stuck [OF ne_buf item] obtain xs where "buf = tlv_type t # 0 # xs" by blast
    then have "wf_tlvs [] \<and> buf = tlv_bytes [] @ tlv_type t # 0 # xs" by simp
    then show ?thesis by blast
  next
    case ne: False
    with tlv_item_progress [OF item] have shorter: "length rest < length buf" by auto
    from less.prems have "tlv_parse_loop rest (acc @ [t]) = None"
      by (simp add: tlv_parse_loop_step [OF ne_buf item])
    with less.hyps [OF shorter] obtain ts ty xs
      where ts: "wf_tlvs ts" "rest = tlv_bytes ts @ ty # 0 # xs"
      by blast
    from tlv_item_chunks_inv [OF item ne] ts(2)
    have "buf = tlv_bytes (t # ts) @ ty # 0 # xs"
      and "separates (tlv_type t) (tlv_value t) (tlv_bytes ts @ ty # 0 # xs)"
      by auto
    with wf_tlvs_ConsI [OF ne ts(1)] show ?thesis by blast
  qed
qed

lemma tlv_scan_fault: "tlv_scan ty buf = Inl f \<Longrightarrow> f = Out_of_bounds"
proof (induction ty buf rule: tlv_scan.induct)
  case (3 ty b c xs)
  then show ?case by (cases "tlv_scan ty (drop 255 xs)") (auto split: if_splits)
qed (auto split: if_splits)

lemma tlv_copy_fault: "tlv_copy n buf = Inl f \<Longrightarrow> f = Out_of_bounds"
proof (induction n buf rule: tlv_copy.induct)
  case (1 n buf)
  show ?case
  proof (cases "length buf < 2 \<or> n = 0")
    case True
    with "1.prems" show ?thesis by (cases "n = 0") auto
  next
    case False
    then obtain b c xs where buf: "buf = b # c # xs"
      by (cases buf; cases "tl buf") auto
    with 1 False show ?thesis
      by (cases "tlv_copy (n - unat c) (drop (unat c) xs)") (auto split: if_splits)
  qed
qed

lemma tlv_item_fault: "tlv_item buf = Inl f \<Longrightarrow> f = Out_of_bounds"
  by (cases "tlv_scan (hd buf) buf"; cases "tlv_copy (projr (tlv_scan (hd buf) buf)) buf")
    (auto simp: tlv_item_def Let_def split: if_splits dest: tlv_scan_fault tlv_copy_fault)

lemma tlv_parse_loop_fault: "tlv_parse_loop buf acc = Some (Inl f) \<Longrightarrow> f = Out_of_bounds"
proof (induction "length buf" arbitrary: buf acc rule: less_induct)
  case less
  then have ne: "buf \<noteq> []" by auto
  show ?case
  proof (cases "tlv_item buf")
    case (Inl g)
    with less.prems ne show ?thesis
      by (auto simp: tlv_parse_loop.simps [of buf] dest: tlv_item_fault)
  next
    case (Inr p)
    then obtain t rest where item: "tlv_item buf = Inr (t, rest)" by (cases p) auto
    with less.prems have "tlv_parse_loop rest (acc @ [t]) = Some (Inl f)"
      by (simp add: tlv_parse_loop_step [OF ne item])
    moreover have "length rest < length buf"
      using tlv_parse_loop_moves [OF ne item] less.prems by auto
    ultimately show ?thesis using less.hyps by blast
  qed
qed

lemma tlv_parse_loop_zero_length:
  assumes "wf_tlvs ts"
  shows "tlv_parse_loop (tlv_bytes ts @ ty # 0 # xs) acc = None"
proof -
  have "tlv_parse_loop (tlv_bytes ts @ ty # 0 # xs) acc = tlv_parse_loop (ty # 0 # xs) (acc @ ts)"
    by (rule tlv_parse_loop_prefix [OF assms]) (simp add: separates_def)
  also have "\<dots> = None"
    by (rule tlv_parse_loop_stuck [OF _ tlv_item_zero_length]) simp
  finally show ?thesis .
qed

subsection \<open>Properties\<close>

text \<open>C19: the parser accepts exactly the bytes that formatting a well formed message produces, and
  returns that message; in particular parsing inverts formatting, chunking included.\<close>

theorem pair_tlv_parse_iff_format:
  "pair_tlv_parse buf pair_tlv_new = Inr ts \<longleftrightarrow>
     wf_tlvs ts \<and> pair_tlv_format ts (length buf) = Inr (0, buf, length buf)"
proof
  assume "pair_tlv_parse buf pair_tlv_new = Inr ts"
  then have "tlv_parse_loop buf [] = Some (Inr ts)"
    by (auto simp: pair_tlv_parse_def pair_tlv_new_def split: option.splits)
  from tlv_parse_loop_accepts [OF this] have "wf_tlvs ts" "buf = tlv_bytes ts" by auto
  then show "wf_tlvs ts \<and> pair_tlv_format ts (length buf) = Inr (0, buf, length buf)"
    using length_tlv_bytes [of ts] by (simp add: pair_tlv_format_wf)
next
  assume "wf_tlvs ts \<and> pair_tlv_format ts (length buf) = Inr (0, buf, length buf)"
  then show "pair_tlv_parse buf pair_tlv_new = Inr ts"
    by (auto simp: pair_tlv_format_wf pair_tlv_new_def PAIR_TLV_ERROR_INSUFFICIENT_SIZE_def
        pair_tlv_parse_bytes split: if_splits)
qed

text \<open>C26: the parser fails to return exactly on the buffers that hold an item of length 0 at an item
  boundary; on every other buffer its loops terminate.\<close>

theorem pair_tlv_parse_diverges_iff:
  "pair_tlv_parse buf values = Inl Diverges \<longleftrightarrow>
     (\<exists>ts ty xs. wf_tlvs ts \<and> buf = tlv_bytes ts @ ty # 0 # xs)"
proof
  assume "pair_tlv_parse buf values = Inl Diverges"
  then have "tlv_parse_loop buf values = None"
    by (auto simp: pair_tlv_parse_def split: option.splits dest: tlv_parse_loop_fault)
  then show "\<exists>ts ty xs. wf_tlvs ts \<and> buf = tlv_bytes ts @ ty # 0 # xs"
    by (rule tlv_parse_loop_None)
next
  assume "\<exists>ts ty xs. wf_tlvs ts \<and> buf = tlv_bytes ts @ ty # 0 # xs"
  then show "pair_tlv_parse buf values = Inl Diverges"
    by (auto simp: pair_tlv_parse_def tlv_parse_loop_zero_length)
qed

text \<open>what formatting reports and writes. The call succeeds when the buffer has the required
  size; the bytes it writes exceed the size it reports by two for each empty value, and it writes
  past the buffer exactly when these do not fit.\<close>

lemma pair_tlv_format_size:
  "pair_tlv_format ts cap =
     (if cap < tlv_required_size ts
      then Inr (PAIR_TLV_ERROR_INSUFFICIENT_SIZE, [], tlv_required_size ts)
      else if cap < tlv_required_size ts + 2 * empty_values ts then Inl Out_of_bounds
      else Inr (0, tlv_bytes ts, length (tlv_bytes ts) - 2 * empty_values ts))"
  by (simp add: pair_tlv_format_def length_tlv_bytes)

end
