(* ===== verification/Srp.thy ===== *)
theory Srp
  imports Crypto
begin

text \<open>
  SRP-6a, the password authenticated key exchange of pair-setup: the hashing helpers of
  \<open>src/pair_ap/pair.c\<close> and the client and server sides in \<open>src/pair_ap/pair_homekit.c\<close>. A bignum
  is an integer, its operations are the fields of the library record; a hash context is the bytes
  fed to it so far. Allocation succeeds.
\<close>

subsection \<open>Hashing helpers\<close>

definition bnum_num_bytes :: "crypto \<Rightarrow> int \<Rightarrow> nat" where
  "bnum_num_bytes C n = (mpi_nbits C n + 7) div 8"

definition update_hash_n :: "crypto \<Rightarrow> bytes \<Rightarrow> int \<Rightarrow> bytes" where
  "update_hash_n C ctx n = ctx @ mpi_print C n"

definition hash_num :: "crypto \<Rightarrow> hash_alg \<Rightarrow> int \<Rightarrow> bytes" where
  "hash_num C alg n = digest C alg (mpi_print C n)"

definition H_ns :: "crypto \<Rightarrow> hash_alg \<Rightarrow> int \<Rightarrow> bytes \<Rightarrow> int" where
  "H_ns C alg n bs = mpi_scan C (digest C alg (mpi_print C n @ bs))"

definition H_nn_pad :: "crypto \<Rightarrow> hash_alg \<Rightarrow> int \<Rightarrow> int \<Rightarrow> nat \<Rightarrow> int res" where
  "H_nn_pad C alg n1 n2 padded_len =
     (let len_n1 = bnum_num_bytes C n1; len_n2 = bnum_num_bytes C n2 in
      if padded_len < len_n1 \<or> padded_len < len_n2 then Inl Assert_fail
      else Inr (mpi_scan C (digest C alg
        (replicate (padded_len - len_n1) 0 @ mpi_print C n1
         @ replicate (padded_len - len_n2) 0 @ mpi_print C n2))))"

subsection \<open>Groups\<close>

datatype SRP_NGType = SRP_NG_2048 | SRP_NG_3072 | SRP_NG_CUSTOM int int

record NGConstant =
  ng_N_len :: nat
  ng_N :: int
  ng_g :: int

text \<open>The primes of RFC 5054, appendix A; the hex strings of the table are the numbers they denote.\<close>

definition srp_N_2048 :: int where
  "srp_N_2048 = 0xAC6BDB41324A9A9BF166DE5E1389582FAF72B6651987EE07FC3192943DB56050A37329CBB4A099ED8193E0757767A13DD52312AB4B03310DCD7F48A9DA04FD50E8083969EDB767B0CF6095179A163AB3661A05FBD5FAAAE82918A9962F0B93B855F97993EC975EEAA80D740ADBF4FF747359D041D5C33EA71D281E446B14773BCA97B43A23FB801676BD207A436C6481F1D2B9078717461A5B9D32E688F87748544523B524B0D57D5EA77A2775D2ECFA032CFBDBF52FB3786160279004E57AE6AF874E7303CE53299CCC041C7BC308D82A5698F3A8D0C38271AE35F8E9DBFBB694B5C803D89F7AE435DE236D525F54759B65E372FCD68EF20FA7111F9E4AFF73"

definition srp_N_3072 :: int where
  "srp_N_3072 = 0xFFFFFFFFFFFFFFFFC90FDAA22168C234C4C6628B80DC1CD129024E088A67CC74020BBEA63B139B22514A08798E3404DDEF9519B3CD3A431B302B0A6DF25F14374FE1356D6D51C245E485B576625E7EC6F44C42E9A637ED6B0BFF5CB6F406B7EDEE386BFB5A899FA5AE9F24117C4B1FE649286651ECE45B3DC2007CB8A163BF0598DA48361C55D39A69163FA8FD24CF5F83655D23DCA3AD961C62F356208552BB9ED529077096966D670C354E4ABC9804F1746C08CA18217C32905E462E36CE3BE39E772C180E86039B2783A2EC07A28FB5C55DF06F4C52C9DE2BCBF6955817183995497CEA956AE515D2261898FA051015728E5A8AAAC42DAD33170D04507A33A85521ABDF1CBA64ECFB850458DBEF0A8AEA71575D060C7DB3970F85A6E1E4C7ABF5AE8CDB0933D71E8C94E04A25619DCEE3D2261AD2EE6BF12FFA06D98A0864D87602733EC86A64521F2B18177B200CBBE117577A615D6C770988C0BAD946E208E24FA074E5AB3143DB5BFCE0FD108E4B82D120A93AD2CAFFFFFFFFFFFFFFFF"

fun global_Ng_constants :: "SRP_NGType \<Rightarrow> nat \<times> int \<times> int" where
  "global_Ng_constants SRP_NG_2048 = (256, srp_N_2048, 2)"
| "global_Ng_constants SRP_NG_3072 = (384, srp_N_3072, 5)"
| "global_Ng_constants (SRP_NG_CUSTOM n g) = (0, n, g)"

definition is_custom :: "SRP_NGType \<Rightarrow> bool" where
  "is_custom ng_type \<longleftrightarrow> (case ng_type of SRP_NG_CUSTOM _ _ \<Rightarrow> True | _ \<Rightarrow> False)"

definition new_ng :: "crypto \<Rightarrow> SRP_NGType \<Rightarrow> NGConstant res" where
  "new_ng C ng_type =
     (case global_Ng_constants ng_type of (nlen, n, g) \<Rightarrow>
        let ng = \<lparr>ng_N_len = bnum_num_bytes C n, ng_N = n, ng_g = g\<rparr> in
        if is_custom ng_type \<or> ng_N_len ng = nlen then Inr ng else Inl Assert_fail)"

definition N_len :: "SRP_NGType \<Rightarrow> int" where
  "N_len ng_type = (if is_custom ng_type then -1 else int (fst (global_Ng_constants ng_type)))"

subsection \<open>Proofs and keys\<close>

definition colon :: u8 where "colon = 58"

definition calculate_x :: "crypto \<Rightarrow> hash_alg \<Rightarrow> int \<Rightarrow> bytes \<Rightarrow> bytes \<Rightarrow> int" where
  "calculate_x C alg salt username password =
     H_ns C alg salt (digest C alg (username @ [colon] @ password))"

definition calculate_M ::
  "crypto \<Rightarrow> hash_alg \<Rightarrow> NGConstant \<Rightarrow> bytes \<Rightarrow> int \<Rightarrow> int \<Rightarrow> int \<Rightarrow> bytes \<Rightarrow> bytes" where
  "calculate_M C alg ng I s A B K =
     (let H_N = hash_num C alg (ng_N ng); H_g = hash_num C alg (ng_g ng); H_I = digest C alg I;
          H_xor = map2 (XOR) H_N H_g
      in digest C alg
           (update_hash_n C (update_hash_n C (update_hash_n C (H_xor @ H_I) s) A) B @ K))"

definition calculate_H_AMK :: "crypto \<Rightarrow> hash_alg \<Rightarrow> int \<Rightarrow> bytes \<Rightarrow> bytes \<Rightarrow> bytes" where
  "calculate_H_AMK C alg A M K = digest C alg (update_hash_n C [] A @ M @ K)"

subsection \<open>The client\<close>

text \<open>\<open>calloc\<close> leaves the proofs and the session key zero until the challenge is processed.\<close>

record srp_user =
  u_alg :: hash_alg
  u_ng :: NGConstant
  u_a :: int
  u_A :: int
  u_S :: int
  u_bytes_A :: bytes
  u_authenticated :: bool
  u_username :: bytes
  u_password :: bytes
  u_M :: bytes
  u_H_AMK :: bytes
  u_session_key :: bytes
  u_session_key_len :: nat

definition srp_user_new :: "crypto \<Rightarrow> hash_alg \<Rightarrow> SRP_NGType \<Rightarrow> bytes \<Rightarrow> bytes \<Rightarrow> srp_user res" where
  "srp_user_new C alg ng_type username password =
     bind_res (new_ng C ng_type) (\<lambda>ng. Inr
       \<lparr>u_alg = alg, u_ng = ng, u_a = 0, u_A = 0, u_S = 0, u_bytes_A = [], u_authenticated = False,
        u_username = username, u_password = password, u_M = replicate 64 0, u_H_AMK = replicate 64 0,
        u_session_key = replicate 64 0, u_session_key_len = 0\<rparr>)"

definition srp_user_get_session_key :: "srp_user \<Rightarrow> bytes" where
  "srp_user_get_session_key usr = take (u_session_key_len usr) (u_session_key usr)"

definition srp_user_is_authenticated :: "srp_user \<Rightarrow> bool" where
  "srp_user_is_authenticated usr = u_authenticated usr"

text \<open>\<open>rnd_a\<close> is the 256 bit random exponent.\<close>

definition srp_user_start_authentication :: "crypto \<Rightarrow> int \<Rightarrow> srp_user \<Rightarrow> srp_user \<times> bytes" where
  "srp_user_start_authentication C rnd_a usr =
     (let A = mpi_powm C (ng_g (u_ng usr)) rnd_a (ng_N (u_ng usr)); bytes_A = mpi_print C A
      in (usr\<lparr>u_a := rnd_a, u_A := A, u_bytes_A := bytes_A\<rparr>, bytes_A))"

text \<open>The second result is the proof M; it is empty when the safety check fails.\<close>

definition srp_user_process_challenge ::
  "crypto \<Rightarrow> srp_user \<Rightarrow> bytes \<Rightarrow> bytes \<Rightarrow> (srp_user \<times> bytes) res" where
  "srp_user_process_challenge C usr bytes_s bytes_B =
     (let s = mpi_scan C bytes_s; B = mpi_scan C bytes_B; alg = u_alg usr; ng = u_ng usr;
          N = ng_N ng; g = ng_g ng in
      bind_res (H_nn_pad C alg N g (ng_N_len ng)) (\<lambda>k.
      bind_res (H_nn_pad C alg (u_A usr) B (ng_N_len ng)) (\<lambda>u.
        let x = calculate_x C alg s (u_username usr) (u_password usr) in
        if B \<noteq> 0 \<and> u \<noteq> 0 then
          let tmp2 = mpi_add C (u_a usr) (mpi_mul C u x);
              tmp3 = mpi_mul C k (mpi_powm C g x N);
              S = mpi_powm C (mpi_sub C B tmp3) tmp2 N;
              K = hash_num C alg S;
              M = calculate_M C alg ng (u_username usr) s (u_A usr) B K
          in Inr (usr\<lparr>u_S := S, u_session_key := K, u_session_key_len := hash_length alg, u_M := M,
                      u_H_AMK := calculate_H_AMK C alg (u_A usr) M K\<rparr>, M)
        else Inr (usr, []))))"

definition srp_user_verify_session :: "srp_user \<Rightarrow> bytes \<Rightarrow> srp_user res" where
  "srp_user_verify_session usr bytes_HAMK =
     (let n = hash_length (u_alg usr) in
      if length bytes_HAMK < n then Inl Out_of_bounds
      else if take n (u_H_AMK usr) = take n bytes_HAMK then Inr (usr\<lparr>u_authenticated := True\<rparr>)
      else Inr usr)"

subsection \<open>The server\<close>

record srp_verifier =
  v_alg :: hash_alg
  v_ng :: NGConstant
  v_bytes_B :: bytes
  v_authenticated :: bool
  v_username :: bytes
  v_M :: bytes
  v_H_AMK :: bytes
  v_session_key :: bytes

text \<open>Salt and verifier of a password; \<open>rnd_s\<close> is the 128 bit random salt.\<close>

definition srp_create_salted_verification_key ::
  "crypto \<Rightarrow> hash_alg \<Rightarrow> SRP_NGType \<Rightarrow> bytes \<Rightarrow> bytes \<Rightarrow> int \<Rightarrow> (bytes \<times> bytes) res" where
  "srp_create_salted_verification_key C alg ng_type username password rnd_s =
     bind_res (new_ng C ng_type) (\<lambda>ng.
       let x = calculate_x C alg rnd_s username password; v = mpi_powm C (ng_g ng) x (ng_N ng)
       in Inr (mpi_print C rnd_s, mpi_print C v))"

text \<open>The server's secret \<open>b\<close> (\<open>rnd_b\<close>) and public value B.\<close>

definition srp_verifier_start_authentication ::
  "crypto \<Rightarrow> hash_alg \<Rightarrow> SRP_NGType \<Rightarrow> bytes \<Rightarrow> int \<Rightarrow> (bytes \<times> bytes) res" where
  "srp_verifier_start_authentication C alg ng_type bytes_v rnd_b =
     bind_res (new_ng C ng_type) (\<lambda>ng.
     bind_res (H_nn_pad C alg (ng_N ng) (ng_g ng) (ng_N_len ng)) (\<lambda>k.
       let v = mpi_scan C bytes_v;
           tmp1 = mpi_mul C k v;
           tmp2 = mpi_powm C (ng_g ng) rnd_b (ng_N ng);
           B = mpi_addm C tmp1 tmp2 (ng_N ng)
       in Inr (mpi_print C rnd_b, mpi_print C B)))"

definition srp_verifier_new ::
  "crypto \<Rightarrow> hash_alg \<Rightarrow> SRP_NGType \<Rightarrow> bytes \<Rightarrow> bytes \<Rightarrow> bytes \<Rightarrow> bytes \<Rightarrow> bytes \<Rightarrow> bytes
     \<Rightarrow> srp_verifier option res" where
  "srp_verifier_new C alg ng_type username bytes_s bytes_v bytes_A bytes_b bytes_B =
     (let s = mpi_scan C bytes_s; v = mpi_scan C bytes_v; A = mpi_scan C bytes_A;
          b = mpi_scan C bytes_b; B = mpi_scan C bytes_B in
      bind_res (new_ng C ng_type) (\<lambda>ng.
        if mpi_mod C A (ng_N ng) = 0 then Inr None
        else
          bind_res (H_nn_pad C alg (ng_N ng) (ng_g ng) (ng_N_len ng)) (\<lambda>k.
          bind_res (H_nn_pad C alg A B (ng_N_len ng)) (\<lambda>u.
            let tmp2 = mpi_mul C A (mpi_powm C v u (ng_N ng));
                S = mpi_powm C tmp2 b (ng_N ng);
                K = hash_num C alg S;
                M = calculate_M C alg ng username s A B K
            in Inr (Some
              \<lparr>v_alg = alg, v_ng = ng, v_bytes_B = bytes_B, v_authenticated = False,
               v_username = username, v_M = M, v_H_AMK = calculate_H_AMK C alg A M K,
               v_session_key = K\<rparr>)))))"

definition srp_verifier_verify_session :: "srp_verifier \<Rightarrow> bytes \<Rightarrow> (srp_verifier \<times> bytes option) res" where
  "srp_verifier_verify_session ver user_M =
     (let n = hash_length (v_alg ver) in
      if length user_M < n then Inl Out_of_bounds
      else if take n (v_M ver) = take n user_M
      then Inr (ver\<lparr>v_authenticated := True\<rparr>, Some (v_H_AMK ver))
      else Inr (ver, None))"

definition srp_verifier_get_session_key :: "srp_verifier \<Rightarrow> bytes" where
  "srp_verifier_get_session_key ver = take (hash_length (v_alg ver)) (v_session_key ver)"


subsection \<open>The group of 3072 bits\<close>

definition ng_3072 :: NGConstant where
  "ng_3072 = \<lparr>ng_N_len = 384, ng_N = srp_N_3072, ng_g = 5\<rparr>"

lemma srp_N_3072_bounds: "256 ^ 383 \<le> srp_N_3072" "srp_N_3072 < 256 ^ 384" "1 < srp_N_3072"
  by (simp_all add: srp_N_3072_def)

lemma bnum_num_bytes_print: "mpi_ok C \<Longrightarrow> 0 \<le> n \<Longrightarrow> bnum_num_bytes C n = length (mpi_print C n)"
  by (simp add: bnum_num_bytes_def mpi_okD)

lemma new_ng_3072:
  assumes "mpi_ok C"
  shows "new_ng C SRP_NG_3072 = Inr ng_3072"
proof -
  have "length (mpi_print C srp_N_3072) \<le> 384" "\<not> length (mpi_print C srp_N_3072) \<le> 383"
    using srp_N_3072_bounds by (simp_all add: length_mpi_print_le [OF assms])
  then have "bnum_num_bytes C srp_N_3072 = 384"
    using srp_N_3072_bounds by (simp add: bnum_num_bytes_print [OF assms])
  then show ?thesis
    by (simp add: new_ng_def ng_3072_def is_custom_def Let_def)
qed

lemma srp_g_power_mod_N: "5 ^ n mod srp_N_3072 \<noteq> 0"
proof
  assume "5 ^ n mod srp_N_3072 = 0"
  then have "srp_N_3072 dvd 5 ^ n" by (simp add: dvd_eq_mod_eq_0)
  moreover have "coprime (5 ^ n) srp_N_3072"
  proof -
    define q :: int where "q = 0x333333333333333328365EED39E1C070F427AD4F19C59F5D0833A934E87B28E40068BFBAD89D856D437534E51C70CDC5FCB76B8A5C3EDA38A33BCEE2CA13040B0FF9D77C49105A0DFA81244AE0794C8E30DC0D61EE0B2F7BCF33128AFD9AF195FC71AF32454EB98789530736B2756CC7A83B47A9FC2DABD926CCE5BE86AD8C9AB82BA80AD27790B87B6AD98832A0F6464D7AAC3A5F53EF846C13CA446CE776F252F76E9B1684847C47CF3DDC7558EB34304A7C01C204D37F3D5012DAD60AF60BFA52E4A26B361ACD856E4D86FC0186E98AC112C9AFDC108EC608C2648444D16B3EB77518FBB77BC76AC3A1381E9867699DE3B6121BBBC0D5EF709E35CDA9B20A54DDD388C638F2142F658100DE9263021BC87D11790135B2BD849CB454939427EF3122E8F89B70C49FB5B7600ED446B92960C3A13890961596A332015EB534E0F8179A170C8E7BADAA063BD19E4BD335BF2D04AB1879DF7C17CEB4F35891DAFA01C6DCB9B0FABBD6A72BDF329365D01C75809039BB722A289999999999999999"
    have "srp_N_3072 = 5 * q + 2" unfolding srp_N_3072_def q_def by simp
    then have "srp_N_3072 mod 5 = 2" by presburger
    then have "coprime (5 :: int) (srp_N_3072 mod 5)" by simp
    then show ?thesis by simp
  qed
  ultimately have "is_unit srp_N_3072" by (metis coprime_common_divisor dvd_refl)
  then show False using srp_N_3072_bounds(3) by simp
qed

subsection \<open>Both sides compute the same secret\<close>

definition nn_hash :: "crypto \<Rightarrow> hash_alg \<Rightarrow> int \<Rightarrow> int \<Rightarrow> nat \<Rightarrow> int" where
  "nn_hash C alg n1 n2 len = projr (H_nn_pad C alg n1 n2 len)"

lemma H_nn_pad_ok:
  "bnum_num_bytes C n1 \<le> len \<Longrightarrow> bnum_num_bytes C n2 \<le> len \<Longrightarrow>
     H_nn_pad C alg n1 n2 len = Inr (nn_hash C alg n1 n2 len)"
  by (simp add: nn_hash_def H_nn_pad_def Let_def)

lemma nn_hash_nonneg:
  "mpi_ok C \<Longrightarrow> bnum_num_bytes C n1 \<le> len \<Longrightarrow> bnum_num_bytes C n2 \<le> len \<Longrightarrow> 0 \<le> nn_hash C alg n1 n2 len"
  by (simp add: nn_hash_def H_nn_pad_def Let_def mpi_okD)

lemma calculate_x_nonneg: "mpi_ok C \<Longrightarrow> 0 \<le> calculate_x C alg s user pw"
  by (simp add: calculate_x_def H_ns_def mpi_okD)

text \<open>The algebra of SRP-6a, for any modulus.\<close>

lemma srp_secret_eq:
  fixes N g k :: int and x u a b :: nat
  assumes v: "v = g ^ x mod N" and B: "B = (k * v + g ^ b mod N) mod N" and A: "A = g ^ a mod N"
  shows "(B - k * (g ^ x mod N)) ^ (a + u * x) mod N = (A * (v ^ u mod N)) ^ b mod N"
proof -
  have "(B - k * (g ^ x mod N)) mod N = g ^ b mod N"
    unfolding B v by (simp add: mod_simps)
  then have "(B - k * (g ^ x mod N)) ^ (a + u * x) mod N = (g ^ b) ^ (a + u * x) mod N"
    by (metis power_mod)
  also have "(g ^ b) ^ (a + u * x) = (g ^ a * (g ^ x) ^ u) ^ b"
    by (simp add: power_add power_mult power_mult_distrib mult.commute flip: power_mult)
  also have "(g ^ a * (g ^ x) ^ u) ^ b mod N = (A * (v ^ u mod N)) ^ b mod N"
  proof -
    have "A * (v ^ u mod N) mod N = g ^ a * (g ^ x) ^ u mod N"
      unfolding A v by (simp add: mod_simps power_mod)
    then show ?thesis by (metis power_mod)
  qed
  finally show ?thesis .
qed


text \<open>
  A run of SRP with the 3072 bit group and SHA-512: what each side computes from its secrets. The
  server's public value and the client's, the scrambling parameter and the shared secret.
\<close>

definition srp_k :: "crypto \<Rightarrow> int" where
  "srp_k C = nn_hash C HASH_SHA512 srp_N_3072 5 384"

definition srp_v :: "crypto \<Rightarrow> bytes \<Rightarrow> bytes \<Rightarrow> int \<Rightarrow> int" where
  "srp_v C user pw s = 5 ^ nat (calculate_x C HASH_SHA512 s user pw) mod srp_N_3072"

definition srp_A :: "int \<Rightarrow> int" where
  "srp_A a = 5 ^ nat a mod srp_N_3072"

definition srp_B :: "crypto \<Rightarrow> bytes \<Rightarrow> bytes \<Rightarrow> int \<Rightarrow> int \<Rightarrow> int" where
  "srp_B C user pw s b = (srp_k C * srp_v C user pw s + 5 ^ nat b mod srp_N_3072) mod srp_N_3072"

definition srp_u :: "crypto \<Rightarrow> int \<Rightarrow> int \<Rightarrow> int" where
  "srp_u C A B = nn_hash C HASH_SHA512 A B 384"

definition srp_K :: "crypto \<Rightarrow> bytes \<Rightarrow> bytes \<Rightarrow> int \<Rightarrow> int \<Rightarrow> int \<Rightarrow> bytes" where
  "srp_K C user pw s a b =
     (let A = srp_A a; B = srp_B C user pw s b in
      hash_num C HASH_SHA512
        ((A * (srp_v C user pw s ^ nat (srp_u C A B) mod srp_N_3072)) ^ nat b mod srp_N_3072))"

definition srp_M :: "crypto \<Rightarrow> bytes \<Rightarrow> bytes \<Rightarrow> int \<Rightarrow> int \<Rightarrow> int \<Rightarrow> bytes" where
  "srp_M C user pw s a b =
     calculate_M C HASH_SHA512 ng_3072 user s (srp_A a) (srp_B C user pw s b) (srp_K C user pw s a b)"

definition srp_HAMK :: "crypto \<Rightarrow> bytes \<Rightarrow> bytes \<Rightarrow> int \<Rightarrow> int \<Rightarrow> int \<Rightarrow> bytes" where
  "srp_HAMK C user pw s a b =
     calculate_H_AMK C HASH_SHA512 (srp_A a) (srp_M C user pw s a b) (srp_K C user pw s a b)"

lemma ng_3072_sel [simp]: "ng_N_len ng_3072 = 384" "ng_N ng_3072 = srp_N_3072" "ng_g ng_3072 = 5"
  by (simp_all add: ng_3072_def)

lemma num_bytes_mod_N:
  assumes "mpi_ok C"
  shows "bnum_num_bytes C (n mod srp_N_3072) \<le> 384"
proof -
  have "0 \<le> n mod srp_N_3072" "n mod srp_N_3072 < 256 ^ 384"
    using srp_N_3072_bounds(2,3) by (simp, smt (verit) pos_mod_bound)
  then show ?thesis
    using length_mpi_print_le [OF assms] by (simp add: bnum_num_bytes_print [OF assms])
qed

lemma srp_A_props:
  assumes "mpi_ok C"
  shows "0 \<le> srp_A a" "srp_A a mod srp_N_3072 = srp_A a" "srp_A a \<noteq> 0"
    "bnum_num_bytes C (srp_A a) \<le> 384"
  using srp_N_3072_bounds(3) srp_g_power_mod_N num_bytes_mod_N [OF assms]
  by (simp_all add: srp_A_def)

lemma srp_B_props:
  assumes "mpi_ok C"
  shows "0 \<le> srp_B C user pw s b" "bnum_num_bytes C (srp_B C user pw s b) \<le> 384"
  using srp_N_3072_bounds(3) num_bytes_mod_N [OF assms] by (simp_all add: srp_B_def)

lemma srp_N_num_bytes:
  assumes "mpi_ok C"
  shows "bnum_num_bytes C srp_N_3072 \<le> 384" "bnum_num_bytes C 5 \<le> 384"
  using srp_N_3072_bounds length_mpi_print_le [OF assms]
  by (simp_all add: bnum_num_bytes_print [OF assms])

lemmas srp_bounds = srp_A_props srp_B_props srp_N_num_bytes

lemma srp_create_eq:
  assumes "mpi_ok C"
  shows "srp_create_salted_verification_key C HASH_SHA512 SRP_NG_3072 user pw s =
     Inr (mpi_print C s, mpi_print C (srp_v C user pw s))"
  using srp_N_3072_bounds(3)
  by (simp add: srp_create_salted_verification_key_def new_ng_3072 [OF assms] mpi_okD [OF assms]
      calculate_x_nonneg [OF assms] srp_v_def Let_def)

lemma srp_v_nonneg: "0 \<le> srp_v C user pw s"
  using srp_N_3072_bounds(3) by (simp add: srp_v_def)

lemma srp_start_server_eq:
  assumes "mpi_ok C" and "0 \<le> b"
  shows "srp_verifier_start_authentication C HASH_SHA512 SRP_NG_3072 (mpi_print C (srp_v C user pw s)) b =
     Inr (mpi_print C b, mpi_print C (srp_B C user pw s b))"
  using srp_N_3072_bounds(3) assms(2)
  by (simp add: srp_verifier_start_authentication_def new_ng_3072 [OF assms(1)] mpi_okD [OF assms(1)]
      H_nn_pad_ok srp_bounds [OF assms(1)] srp_v_nonneg srp_B_def srp_k_def Let_def)

lemma srp_server_eq:
  assumes "mpi_ok C" and "0 \<le> s" and "0 \<le> b"
  shows "srp_verifier_new C HASH_SHA512 SRP_NG_3072 user (mpi_print C s) (mpi_print C (srp_v C user pw s))
       (mpi_print C (srp_A a)) (mpi_print C b) (mpi_print C (srp_B C user pw s b)) =
     Inr (Some \<lparr>v_alg = HASH_SHA512, v_ng = ng_3072, v_bytes_B = mpi_print C (srp_B C user pw s b),
       v_authenticated = False, v_username = user, v_M = srp_M C user pw s a b,
       v_H_AMK = srp_HAMK C user pw s a b, v_session_key = srp_K C user pw s a b\<rparr>)"
  using srp_N_3072_bounds(3) assms(2,3)
    nn_hash_nonneg [OF assms(1) srp_A_props(4) [OF assms(1)] srp_B_props(2) [OF assms(1)]]
  by (simp add: srp_verifier_new_def new_ng_3072 [OF assms(1)] mpi_okD [OF assms(1)] H_nn_pad_ok
      srp_bounds [OF assms(1)] srp_v_nonneg srp_K_def srp_M_def srp_HAMK_def srp_u_def Let_def)

lemma srp_client_eq:
  assumes "mpi_ok C" and "0 \<le> s" and "0 \<le> a"
    and "u_alg usr = HASH_SHA512" "u_ng usr = ng_3072" "u_A usr = srp_A a" "u_a usr = a"
    and "srp_B C user pw s b \<noteq> 0" and "srp_u C (srp_A a) (srp_B C user pw s b) \<noteq> 0"
    and "u_username usr = user" "u_password usr = pw"
  shows "\<exists>S. srp_user_process_challenge C usr (mpi_print C s) (mpi_print C (srp_B C user pw s b)) =
     Inr (usr\<lparr>u_S := S, u_session_key := srp_K C user pw s a b, u_session_key_len := 64,
             u_M := srp_M C user pw s a b, u_H_AMK := srp_HAMK C user pw s a b\<rparr>, srp_M C user pw s a b)"
proof -
  let ?B = "srp_B C user pw s b" and ?x = "calculate_x C HASH_SHA512 s user pw"
  let ?u = "srp_u C (srp_A a) ?B"
  have u: "0 \<le> ?u" and x: "0 \<le> ?x"
    using nn_hash_nonneg [OF assms(1) srp_A_props(4) [OF assms(1)] srp_B_props(2) [OF assms(1)]]
      calculate_x_nonneg [OF assms(1)]
    by (simp_all add: srp_u_def)
  have exp: "nat (a + ?u * ?x) = nat a + nat ?u * nat ?x"
    using u x assms(3) by (simp add: nat_add_distrib nat_mult_distrib)
  have secret: "(?B - srp_k C * (5 ^ nat ?x mod srp_N_3072)) ^ nat (a + ?u * ?x) mod srp_N_3072 =
      (srp_A a * (srp_v C user pw s ^ nat ?u mod srp_N_3072)) ^ nat b mod srp_N_3072"
    unfolding exp by (rule srp_secret_eq [OF srp_v_def srp_B_def srp_A_def])
  have k: "H_nn_pad C HASH_SHA512 srp_N_3072 5 384 = Inr (srp_k C)"
    and uu: "H_nn_pad C HASH_SHA512 (srp_A a) ?B 384 = Inr ?u"
    using srp_bounds [OF assms(1)] by (simp_all add: H_nn_pad_ok srp_k_def srp_u_def)
  have "0 \<le> a + ?u * ?x" using u x assms(3) by simp
  then show ?thesis
    using assms srp_N_3072_bounds(3) x srp_B_props(1) [OF assms(1), of user pw s b]
    by (simp add: srp_user_process_challenge_def mpi_okD k uu secret Let_def srp_K_def srp_M_def
        srp_HAMK_def) (rule exI, rule refl)
qed


lemma length_srp_hashes:
  assumes "digest_ok C"
  shows "length (srp_K C user pw s a b) = 64" "length (srp_M C user pw s a b) = 64"
    "length (srp_HAMK C user pw s a b) = 64"
  using digest_okD [OF assms, of HASH_SHA512]
  by (simp_all add: srp_K_def srp_M_def srp_HAMK_def hash_num_def calculate_M_def calculate_H_AMK_def Let_def)

text \<open>
  The client after both its steps, the server's verifier, and what each makes of the other's proof.
\<close>

definition srp_user_fresh :: "bytes \<Rightarrow> bytes \<Rightarrow> srp_user" where
  "srp_user_fresh user pw =
     \<lparr>u_alg = HASH_SHA512, u_ng = ng_3072, u_a = 0, u_A = 0, u_S = 0, u_bytes_A = [],
      u_authenticated = False, u_username = user, u_password = pw, u_M = replicate 64 0,
      u_H_AMK = replicate 64 0, u_session_key = replicate 64 0, u_session_key_len = 0\<rparr>"

lemma srp_user_fresh_sel [simp]:
  "u_alg (srp_user_fresh user pw) = HASH_SHA512" "u_ng (srp_user_fresh user pw) = ng_3072"
  "u_username (srp_user_fresh user pw) = user" "u_password (srp_user_fresh user pw) = pw"
  "u_H_AMK (srp_user_fresh user pw) = replicate 64 0" "u_M (srp_user_fresh user pw) = replicate 64 0"
  "u_session_key_len (srp_user_fresh user pw) = 0" "u_authenticated (srp_user_fresh user pw) = False"
  by (simp_all add: srp_user_fresh_def)

lemma srp_user_new_eq: "mpi_ok C \<Longrightarrow> srp_user_new C HASH_SHA512 SRP_NG_3072 user pw = Inr (srp_user_fresh user pw)"
  by (simp add: srp_user_new_def new_ng_3072 srp_user_fresh_def)

lemma srp_user_start_eq:
  assumes "mpi_ok C" and "0 \<le> a" and "u_ng usr = ng_3072"
  shows "srp_user_start_authentication C a usr =
     (usr\<lparr>u_a := a, u_A := srp_A a, u_bytes_A := mpi_print C (srp_A a)\<rparr>, mpi_print C (srp_A a))"
  using assms srp_N_3072_bounds(3)
  by (simp add: srp_user_start_authentication_def mpi_okD srp_A_def Let_def)

lemma srp_user_verify_eq:
  "u_alg usr = HASH_SHA512 \<Longrightarrow> length (u_H_AMK usr) = 64 \<Longrightarrow> length h = 64 \<Longrightarrow>
     srp_user_verify_session usr h = Inr (if u_H_AMK usr = h then usr\<lparr>u_authenticated := True\<rparr> else usr)"
  by (simp add: srp_user_verify_session_def Let_def)

lemma srp_verifier_verify_eq:
  "v_alg ver = HASH_SHA512 \<Longrightarrow> length (v_M ver) = 64 \<Longrightarrow> length m = 64 \<Longrightarrow>
     srp_verifier_verify_session ver m =
       Inr (if v_M ver = m then (ver\<lparr>v_authenticated := True\<rparr>, Some (v_H_AMK ver)) else (ver, None))"
  by (simp add: srp_verifier_verify_session_def Let_def)

subsection \<open>Properties\<close>

text \<open>
  The messages of one run: from the random salt and exponents, what the two sides send (salt, B, A,
  the client's proof) and the states they end in.
\<close>

definition srp_run ::
  "crypto \<Rightarrow> bytes \<Rightarrow> bytes \<Rightarrow> bytes \<Rightarrow> int \<Rightarrow> int \<Rightarrow> int \<Rightarrow> (srp_user \<times> bytes \<times> srp_verifier option) res" where
  "srp_run C user pw_client pw_server rnd_s rnd_a rnd_b =
     bind_res (srp_user_new C HASH_SHA512 SRP_NG_3072 user pw_client) (\<lambda>usr0.
     bind_res (srp_create_salted_verification_key C HASH_SHA512 SRP_NG_3072 user pw_server rnd_s)
       (\<lambda>(bytes_s, bytes_v).
     bind_res (srp_verifier_start_authentication C HASH_SHA512 SRP_NG_3072 bytes_v rnd_b)
       (\<lambda>(bytes_b, bytes_B).
     case srp_user_start_authentication C rnd_a usr0 of (usr1, bytes_A) \<Rightarrow>
     bind_res (srp_user_process_challenge C usr1 bytes_s bytes_B) (\<lambda>(usr2, bytes_M).
     bind_res (srp_verifier_new C HASH_SHA512 SRP_NG_3072 user bytes_s bytes_v bytes_A bytes_b bytes_B)
       (\<lambda>ver. Inr (usr2, bytes_M, ver))))))"

text \<open>C7: SRP correctness. With the same password on both sides, and random values for which the
  safety checks pass, no assertion fails, the server accepts the client's proof, the client accepts
  the server's, and both hold the same 64 byte session key.\<close>

theorem srp_agreement:
  assumes "mpi_ok C" and "digest_ok C" and "0 \<le> rnd_s" and "0 \<le> rnd_a" and "0 \<le> rnd_b"
    and "srp_B C user pw rnd_s rnd_b \<noteq> 0"
    and "srp_u C (srp_A rnd_a) (srp_B C user pw rnd_s rnd_b) \<noteq> 0"
  shows "\<exists>usr M ver ver' usr' h. srp_run C user pw pw rnd_s rnd_a rnd_b = Inr (usr, M, Some ver)
     \<and> srp_verifier_verify_session ver M = Inr (ver', Some h)
     \<and> srp_user_verify_session usr h = Inr usr' \<and> srp_user_is_authenticated usr' \<and> v_authenticated ver'
     \<and> srp_user_get_session_key usr' = srp_verifier_get_session_key ver'
     \<and> length (srp_user_get_session_key usr') = 64"
proof -
  let ?usr1 = "(srp_user_fresh user pw)\<lparr>u_a := rnd_a, u_A := srp_A rnd_a, u_bytes_A := mpi_print C (srp_A rnd_a)\<rparr>"
  have usr1: "u_alg ?usr1 = HASH_SHA512" "u_ng ?usr1 = ng_3072" "u_A ?usr1 = srp_A rnd_a" "u_a ?usr1 = rnd_a"
    "u_username ?usr1 = user" "u_password ?usr1 = pw" "u_ng (srp_user_fresh user pw) = ng_3072"
    by simp_all
  obtain S where client: "srp_user_process_challenge C ?usr1 (mpi_print C rnd_s) (mpi_print C (srp_B C user pw rnd_s rnd_b)) =
      Inr (?usr1\<lparr>u_S := S, u_session_key := srp_K C user pw rnd_s rnd_a rnd_b, u_session_key_len := 64,
             u_M := srp_M C user pw rnd_s rnd_a rnd_b, u_H_AMK := srp_HAMK C user pw rnd_s rnd_a rnd_b\<rparr>,
           srp_M C user pw rnd_s rnd_a rnd_b)" (is "_ = Inr (?usr2, _)")
    using srp_client_eq [OF assms(1,3,4) usr1(1-4) assms(6,7) usr1(5,6)] by blast
  have "srp_run C user pw pw rnd_s rnd_a rnd_b = Inr (?usr2, srp_M C user pw rnd_s rnd_a rnd_b,
      Some \<lparr>v_alg = HASH_SHA512, v_ng = ng_3072, v_bytes_B = mpi_print C (srp_B C user pw rnd_s rnd_b),
       v_authenticated = False, v_username = user, v_M = srp_M C user pw rnd_s rnd_a rnd_b,
       v_H_AMK = srp_HAMK C user pw rnd_s rnd_a rnd_b, v_session_key = srp_K C user pw rnd_s rnd_a rnd_b\<rparr>)"
    using assms(1,3-5)
    by (simp add: srp_run_def srp_user_new_eq srp_create_eq srp_start_server_eq srp_user_start_eq usr1(7)
        client srp_server_eq)
  then show ?thesis
    using length_srp_hashes [OF assms(2)]
    by (simp add: srp_verifier_verify_eq srp_user_verify_eq usr1 srp_user_is_authenticated_def
        srp_user_get_session_key_def srp_verifier_get_session_key_def)
qed

text \<open>when the client's safety check fails (the server's public value is 0, or the scrambling
  parameter is) it has no proof and no session key, and it accepts 64 zero bytes as the server's
  proof.\<close>

theorem srp_unsafe_challenge_accepts_zeros:
  assumes "mpi_ok C" and "0 \<le> rnd_a"
    and "srp_user_new C HASH_SHA512 SRP_NG_3072 user pw = Inr usr0"
    and "srp_user_start_authentication C rnd_a usr0 = (usr1, bytes_A)"
    and "mpi_scan C bytes_B = 0"
  shows "srp_user_process_challenge C usr1 bytes_s bytes_B = Inr (usr1, [])
     \<and> (\<exists>usr'. srp_user_verify_session usr1 (replicate 64 0) = Inr usr' \<and> srp_user_is_authenticated usr'
          \<and> srp_user_get_session_key usr' = [])"
proof -
  have usr0: "usr0 = srp_user_fresh user pw"
    using assms(1,3) by (simp add: srp_user_new_eq)
  then have usr1: "usr1 = (srp_user_fresh user pw)\<lparr>u_a := rnd_a, u_A := srp_A rnd_a, u_bytes_A := mpi_print C (srp_A rnd_a)\<rparr>"
    using assms(4) srp_user_start_eq [OF assms(1,2), of usr0] by (simp add: srp_user_fresh_def)
  have "bnum_num_bytes C 0 \<le> 384"
    using mpi_okD(1) [OF assms(1), of 0 0] by (simp add: bnum_num_bytes_def)
  then have "srp_user_process_challenge C usr1 bytes_s bytes_B = Inr (usr1, [])"
    using srp_bounds [OF assms(1)] assms(5)
    by (simp add: srp_user_process_challenge_def usr1 srp_user_fresh_def H_nn_pad_ok Let_def)
  then show ?thesis
    by (simp add: usr1 srp_user_fresh_def srp_user_verify_session_def srp_user_is_authenticated_def
        srp_user_get_session_key_def Let_def)
qed

end
