(* ===== verification/Homekit_Base.thy ===== *)
theory Homekit_Base
  imports Tlv Srp
begin

text \<open>
  What the HomeKit pairing handlers of \<open>src/pair_ap/pair_homekit.c\<close> share: the contexts of
  \<open>src/pair_ap/pair-internal.h\<close>, the table of keys and nonces, the processing of an incoming message,
  key derivation, the ChaCha20-Poly1305 wrappers, and the signed device information.
\<close>

subsection \<open>Contexts\<close>

datatype pair_type = PAIR_CLIENT_FRUIT | PAIR_CLIENT_HOMEKIT_NORMAL | PAIR_CLIENT_HOMEKIT_TRANSIENT
  | PAIR_SERVER_HOMEKIT

datatype pair_status = PAIR_STATUS_IN_PROGRESS | PAIR_STATUS_COMPLETED | PAIR_STATUS_AUTH_FAILED
  | PAIR_STATUS_INVALID

text \<open>
  The error messages are static strings of the form ``Setup request 1: Missing \<open>\<dots>\<close>''; the model
  keeps which step the text names and what it says.
\<close>

datatype msg_step = Setup_request nat | Setup_response nat | Verify_request nat | Verify_response nat

datatype msg_text =
  Create_srp_user_failed | Format_error | No_session_key | Hkdf_device_x | Hkdf_derived_key
| Create_info_error | Append_public_key_error | Could_not_encrypt | Bad_public_key | Bad_salt | Bad_proof
| Server_auth_failed | No_session_key_computed | Missing_encrypted_data | Bad_encrypted_data
| Decryption_error | Bad_info_fields | Invalid_signature | Curve_error | Bad_method
| No_verification_key | No_B | Device_id_too_long | Unsupported
| Missing_pk_or_salt | Missing_proof | Missing_epk | Missing_authtag | Aes_failed | Response_too_short

datatype errmsg =
  Peer_auth_failure | Peer_backoff | Peer_max_peers | Peer_max_tries | Peer_unavailable | Peer_busy_or_unknown
| At msg_step msg_text
| No_message_state | Get_state_unsupported | Setup_unsupported_state | Verify_unsupported_state
| Setup_not_completed | Verify_not_completed
| Encryption_failed | Decryption_failed | Encryption_unsupported | Decryption_unsupported

definition PAIR_AP_DEVICE_ID_LEN_MAX :: nat where "PAIR_AP_DEVICE_ID_LEN_MAX = 64"

record pair_result =
  res_device_id :: bytes
  res_client_private_key :: bytes
  res_client_public_key :: bytes
  res_server_public_key :: bytes
  res_shared_secret :: bytes
  res_shared_secret_len :: nat

definition zero_result :: pair_result where
  "zero_result = \<lparr>res_device_id = replicate 64 0, res_client_private_key = replicate 64 0,
     res_client_public_key = replicate 32 0, res_server_public_key = replicate 32 0,
     res_shared_secret = replicate 64 0, res_shared_secret_len = 0\<rparr>"

text \<open>
  \<open>struct pair_client_setup_context\<close> and \<open>struct pair_server_setup_context\<close>. A byte string with its
  length field is one list (a null pointer with length 0 is the empty list); whether the callback is
  set is a bool.
\<close>

record client_setup =
  cs_user :: "srp_user option"
  cs_pin :: bytes
  cs_device_id :: bytes
  cs_add_cb :: bool
  cs_public_key :: bytes
  cs_private_key :: bytes
  cs_pkA :: bytes
  cs_pkB :: bytes
  cs_M1 :: bytes
  cs_M2 :: bytes
  cs_salt :: bytes

definition zero_client_setup :: client_setup where
  "zero_client_setup = \<lparr>cs_user = None, cs_pin = [], cs_device_id = [], cs_add_cb = False,
     cs_public_key = replicate 32 0, cs_private_key = replicate 64 0, cs_pkA = [], cs_pkB = [],
     cs_M1 = [], cs_M2 = [], cs_salt = []\<rparr>"

record server_setup =
  ss_verifier :: "srp_verifier option"
  ss_pin :: bytes
  ss_device_id :: bytes
  ss_add_cb :: bool
  ss_public_key :: bytes
  ss_private_key :: bytes
  ss_is_transient :: bool
  ss_pkA :: bytes
  ss_pkB :: bytes
  ss_b :: bytes
  ss_M1 :: bytes
  ss_M2 :: "bytes option"
  ss_M2_len :: nat
  ss_v :: bytes
  ss_salt :: bytes

definition zero_server_setup :: server_setup where
  "zero_server_setup = \<lparr>ss_verifier = None, ss_pin = [], ss_device_id = [], ss_add_cb = False,
     ss_public_key = replicate 32 0, ss_private_key = replicate 64 0, ss_is_transient = False,
     ss_pkA = [], ss_pkB = [], ss_b = [], ss_M1 = [], ss_M2 = None, ss_M2_len = 0, ss_v = [], ss_salt = []\<rparr>"

text \<open>
  \<open>struct pair_setup_context\<close>. Of the union one member is used, by the type of the context. The last
  field records the calls of the \<open>add_cb\<close> callback (public key and id), which the caller provides.
\<close>

record setup_ctx =
  s_type :: pair_type
  s_status :: pair_status
  s_errmsg :: "errmsg option"
  s_result :: pair_result
  s_result_str :: bytes
  s_client :: client_setup
  s_server :: server_setup
  s_cb_calls :: "(bytes \<times> bytes) list"

definition zero_setup_ctx :: "pair_type \<Rightarrow> setup_ctx" where
  "zero_setup_ctx ty = \<lparr>s_type = ty, s_status = PAIR_STATUS_IN_PROGRESS, s_errmsg = None,
     s_result = zero_result, s_result_str = replicate 256 0, s_client = zero_client_setup,
     s_server = zero_server_setup, s_cb_calls = []\<rparr>"

record client_verify =
  cv_device_id :: bytes
  cv_client_public_key :: bytes
  cv_client_private_key :: bytes
  cv_verify_server_signature :: bool
  cv_server_fruit_public_key :: bytes
  cv_server_public_key :: bytes
  cv_client_eph_public_key :: bytes
  cv_client_eph_private_key :: bytes
  cv_server_eph_public_key :: bytes
  cv_shared_secret :: bytes

definition zero_client_verify :: client_verify where
  "zero_client_verify = \<lparr>cv_device_id = [], cv_client_public_key = replicate 32 0,
     cv_client_private_key = replicate 64 0, cv_verify_server_signature = False,
     cv_server_fruit_public_key = replicate 64 0, cv_server_public_key = replicate 32 0, cv_client_eph_public_key = replicate 32 0,
     cv_client_eph_private_key = replicate 32 0, cv_server_eph_public_key = replicate 32 0,
     cv_shared_secret = replicate 32 0\<rparr>"

text \<open>The \<open>get_cb\<close> callback looks a client's public key up by its id; \<open>None\<close> when it is not set.\<close>

record server_verify =
  sv_device_id :: bytes
  sv_server_public_key :: bytes
  sv_server_private_key :: bytes
  sv_verify_client_signature :: bool
  sv_get_cb :: "(bytes \<Rightarrow> bytes option) option"
  sv_server_eph_public_key :: bytes
  sv_server_eph_private_key :: bytes
  sv_client_eph_public_key :: bytes
  sv_shared_secret :: bytes

definition zero_server_verify :: server_verify where
  "zero_server_verify = \<lparr>sv_device_id = [], sv_server_public_key = replicate 32 0,
     sv_server_private_key = replicate 64 0, sv_verify_client_signature = False, sv_get_cb = None,
     sv_server_eph_public_key = replicate 32 0, sv_server_eph_private_key = replicate 32 0,
     sv_client_eph_public_key = replicate 32 0, sv_shared_secret = replicate 32 0\<rparr>"

record verify_ctx =
  v_type :: pair_type
  v_status :: pair_status
  v_errmsg :: "errmsg option"
  v_result :: pair_result
  v_client :: client_verify
  v_server :: server_verify

definition zero_verify_ctx :: "pair_type \<Rightarrow> verify_ctx" where
  "zero_verify_ctx ty = \<lparr>v_type = ty, v_status = PAIR_STATUS_IN_PROGRESS, v_errmsg = None,
     v_result = zero_result, v_client = zero_client_verify, v_server = zero_server_verify\<rparr>"

text \<open>The random values an operation may draw: a fresh Ed25519 and a fresh Curve25519 secret key, a
  128 bit number for the salt and a 256 bit number for an exponent.\<close>

record rand =
  r_sign_sk :: bytes
  r_box_sk :: bytes
  r_salt :: int
  r_exp :: int

definition s_return_error :: "pair_status \<Rightarrow> errmsg option \<Rightarrow> setup_ctx \<Rightarrow> setup_ctx" where
  "s_return_error st msg h = h\<lparr>s_status := st, s_errmsg := msg\<rparr>"

definition v_return_error :: "pair_status \<Rightarrow> errmsg option \<Rightarrow> verify_ctx \<Rightarrow> verify_ctx" where
  "v_return_error st msg h = h\<lparr>v_status := st, v_errmsg := msg\<rparr>"

subsection \<open>Keys\<close>

datatype pair_keys =
  PAIR_SETUP_MSG01 | PAIR_SETUP_MSG02 | PAIR_SETUP_MSG03 | PAIR_SETUP_MSG04 | PAIR_SETUP_MSG05
| PAIR_SETUP_MSG06 | PAIR_SETUP_CONTROLLER_SIGN | PAIR_SETUP_ACCESSORY_SIGN | PAIR_VERIFY_MSG01
| PAIR_VERIFY_MSG02 | PAIR_VERIFY_MSG03 | PAIR_VERIFY_MSG04 | PAIR_CONTROL_WRITE | PAIR_CONTROL_READ
| PAIR_EVENTS_WRITE | PAIR_EVENTS_READ

record keys_entry =
  key_state :: u8
  key_salt :: "bytes option"
  key_info :: "bytes option"
  key_nonce :: bytes

definition plain_key :: "u8 \<Rightarrow> keys_entry" where
  "plain_key st = \<lparr>key_state = st, key_salt = None, key_info = None, key_nonce = replicate 8 0\<rparr>"

definition kdf_key :: "u8 \<Rightarrow> string \<Rightarrow> string \<Rightarrow> bytes \<Rightarrow> keys_entry" where
  "kdf_key st salt info nonce =
     \<lparr>key_state = st, key_salt = Some (str salt), key_info = Some (str info), key_nonce = nonce\<rparr>"

fun pair_keys_map :: "pair_keys \<Rightarrow> keys_entry" where
  "pair_keys_map PAIR_SETUP_MSG01 = plain_key 1"
| "pair_keys_map PAIR_SETUP_MSG02 = plain_key 2"
| "pair_keys_map PAIR_SETUP_MSG03 = plain_key 3"
| "pair_keys_map PAIR_SETUP_MSG04 = plain_key 4"
| "pair_keys_map PAIR_SETUP_MSG05 =
     kdf_key 5 ''Pair-Setup-Encrypt-Salt'' ''Pair-Setup-Encrypt-Info'' (str ''PS-Msg05'')"
| "pair_keys_map PAIR_SETUP_MSG06 =
     kdf_key 6 ''Pair-Setup-Encrypt-Salt'' ''Pair-Setup-Encrypt-Info'' (str ''PS-Msg06'')"
| "pair_keys_map PAIR_SETUP_CONTROLLER_SIGN =
     kdf_key 0 ''Pair-Setup-Controller-Sign-Salt'' ''Pair-Setup-Controller-Sign-Info'' (replicate 8 0)"
| "pair_keys_map PAIR_SETUP_ACCESSORY_SIGN =
     kdf_key 0 ''Pair-Setup-Accessory-Sign-Salt'' ''Pair-Setup-Accessory-Sign-Info'' (replicate 8 0)"
| "pair_keys_map PAIR_VERIFY_MSG01 = plain_key 1"
| "pair_keys_map PAIR_VERIFY_MSG02 =
     kdf_key 2 ''Pair-Verify-Encrypt-Salt'' ''Pair-Verify-Encrypt-Info'' (str ''PV-Msg02'')"
| "pair_keys_map PAIR_VERIFY_MSG03 =
     kdf_key 3 ''Pair-Verify-Encrypt-Salt'' ''Pair-Verify-Encrypt-Info'' (str ''PV-Msg03'')"
| "pair_keys_map PAIR_VERIFY_MSG04 = plain_key 4"
| "pair_keys_map PAIR_CONTROL_WRITE =
     kdf_key 0 ''Control-Salt'' ''Control-Write-Encryption-Key'' (replicate 8 0)"
| "pair_keys_map PAIR_CONTROL_READ =
     kdf_key 0 ''Control-Salt'' ''Control-Read-Encryption-Key'' (replicate 8 0)"
| "pair_keys_map PAIR_EVENTS_WRITE =
     kdf_key 0 ''Events-Salt'' ''Events-Write-Encryption-Key'' (replicate 8 0)"
| "pair_keys_map PAIR_EVENTS_READ =
     kdf_key 0 ''Events-Salt'' ''Events-Read-Encryption-Key'' (replicate 8 0)"

definition USERNAME :: bytes where "USERNAME = str ''Pair-Setup''"
definition DEFAULT_PIN :: bytes where "DEFAULT_PIN = str ''3939''"
definition AUTHTAG_LENGTH :: nat where "AUTHTAG_LENGTH = 16"
definition NONCE_LENGTH :: nat where "NONCE_LENGTH = 12"
definition REQUEST_BUFSIZE :: nat where "REQUEST_BUFSIZE = 4096"
definition ENCRYPTED_LEN_MAX :: nat where "ENCRYPTED_LEN_MAX = 0x400"

text \<open>\<open>memcpy(nonce + 4, pair_keys_map[key].nonce, NONCE_LENGTH - 4)\<close> on a zeroed nonce.\<close>

definition msg_nonce :: "pair_keys \<Rightarrow> bytes" where
  "msg_nonce key = replicate 4 0 @ key_nonce (pair_keys_map key)"

subsection \<open>Helpers\<close>

text \<open>
  \<open>pair_tlv_format\<close> into a buffer, and the part of it that the caller uses afterwards: the reported
  size counts.
\<close>

definition format_to :: "nat \<Rightarrow> tlv_values \<Rightarrow> (int \<times> bytes) res" where
  "format_to cap values = bind_res (pair_tlv_format values cap) (\<lambda>(ret, out, n). Inr (ret, take n out))"

text \<open>The error code of an error TLV, in the order of the code's tests.\<close>

definition peer_error :: "u8 \<Rightarrow> errmsg" where
  "peer_error e =
     (if e = 2 then Peer_auth_failure else if e = 3 then Peer_backoff else if e = 4 then Peer_max_peers
      else if e = 5 then Peer_max_tries else if e = 6 then Peer_unavailable else Peer_busy_or_unknown)"

definition message_process :: "bytes \<Rightarrow> (errmsg + tlv_values) res" where
  "message_process data =
     bind_res (pair_tlv_parse data pair_tlv_new) (\<lambda>response.
       case pair_tlv_get_value response TLVType_Error of
         None \<Rightarrow> Inr (Inr response)
       | Some err \<Rightarrow>
           (case tlv_value err of [] \<Rightarrow> Inl Null_deref | e # _ \<Rightarrow> Inr (Inl (peer_error e))))"

text \<open>\<open>hkdf_extract_expand\<close>: \<open>None\<close> for a negative return.\<close>

definition hkdf_extract_expand :: "crypto \<Rightarrow> nat \<Rightarrow> bytes \<Rightarrow> pair_keys \<Rightarrow> bytes option res" where
  "hkdf_extract_expand C okm_len ikm pair_key =
     (if 64 < okm_len then Inr None
      else case (key_salt (pair_keys_map pair_key), key_info (pair_keys_map pair_key)) of
        (Some salt, Some info) \<Rightarrow> Inr (kdf C salt ikm info okm_len)
      | _ \<Rightarrow> Inl Null_deref)"

definition encrypt_chacha :: "crypto \<Rightarrow> bytes \<Rightarrow> bytes \<Rightarrow> bytes \<Rightarrow> bytes \<Rightarrow> (bytes \<times> bytes) option" where
  "encrypt_chacha C plain key ad nonce = aead_seal C key nonce ad plain"

definition decrypt_chacha :: "crypto \<Rightarrow> bytes \<Rightarrow> bytes \<Rightarrow> bytes \<Rightarrow> bytes \<Rightarrow> bytes \<Rightarrow> bytes option" where
  "decrypt_chacha C cipher key ad tag nonce = aead_open C key nonce ad cipher tag"

text \<open>\<open>info_len\<close> is the size of the buffer.\<close>

definition create_info :: "nat \<Rightarrow> bytes \<Rightarrow> bytes \<Rightarrow> bytes \<Rightarrow> bytes option" where
  "create_info info_len a b c =
     (if info_len < length a + length b + length c then None else Some (a @ b @ c))"

text \<open>The identifier and the signature, as TLV, in a buffer of \<open>msg_len\<close> bytes.\<close>

definition create_and_sign_device_info ::
  "crypto \<Rightarrow> nat \<Rightarrow> bytes \<Rightarrow> bytes \<Rightarrow> bytes \<Rightarrow> bytes \<Rightarrow> (int \<times> bytes) res" where
  "create_and_sign_device_info C msg_len device_id device_x pk sk =
     (case create_info 256 device_x device_id pk of
        None \<Rightarrow> Inr (-1, [])
      | Some device_info \<Rightarrow>
          let signature = sign C device_info sk;
              tlv0 = pair_tlv_add_value pair_tlv_new TLVType_Identifier device_id;
              tlv1 = pair_tlv_add_value tlv0 TLVType_Signature signature
          in format_to msg_len tlv1)"

definition create_and_sign_accessory_info ::
  "crypto \<Rightarrow> nat \<Rightarrow> bytes \<Rightarrow> bytes \<Rightarrow> bytes \<Rightarrow> bytes \<Rightarrow> (int \<times> bytes) res" where
  "create_and_sign_accessory_info C msg_len server_pk accessory_id client_pk sk =
     (case create_info 256 server_pk accessory_id client_pk of
        None \<Rightarrow> Inr (-1, [])
      | Some accessory_info \<Rightarrow>
          let signature = sign C accessory_info sk;
              tlv0 = pair_tlv_add_value pair_tlv_new TLVType_Identifier accessory_id;
              tlv1 = pair_tlv_add_value tlv0 TLVType_Signature signature
          in format_to msg_len tlv1)"

definition verify_info :: "crypto \<Rightarrow> bytes \<Rightarrow> bytes \<Rightarrow> bytes \<Rightarrow> bytes \<Rightarrow> bytes \<Rightarrow> int" where
  "verify_info C signature pk a b c =
     (case create_info 256 a b c of
        None \<Rightarrow> -1
      | Some info \<Rightarrow> if sign_verify C signature info pk then 0 else -1)"

text \<open>
  \<open>strtol\<close> in base 16 of a string of two characters: leading white space, a sign, digits up to the
  first other character. (A prefix \<open>0x\<close> leaves no digit and gives 0.)
\<close>

definition hex_digit :: "u8 \<Rightarrow> int option" where
  "hex_digit c =
     (if 48 \<le> c \<and> c \<le> 57 then Some (uint c - 48)
      else if 65 \<le> c \<and> c \<le> 70 then Some (uint c - 55)
      else if 97 \<le> c \<and> c \<le> 102 then Some (uint c - 87)
      else None)"

fun hex_digits :: "int \<Rightarrow> bytes \<Rightarrow> int" where
  "hex_digits n [] = n"
| "hex_digits n (c # cs) = (case hex_digit c of None \<Rightarrow> n | Some d \<Rightarrow> hex_digits (16 * n + d) cs)"

fun strtol16_sign :: "bytes \<Rightarrow> int" where
  "strtol16_sign (c # cs) =
     (if c = 45 then - hex_digits 0 cs else if c = 43 then hex_digits 0 cs else hex_digits 0 (c # cs))"
| "strtol16_sign [] = 0"

definition strtol16 :: "bytes \<Rightarrow> int" where
  "strtol16 cs = strtol16_sign (dropWhile is_space (c_string cs))"

fun hexread :: "nat \<Rightarrow> bytes \<Rightarrow> bytes res" where
  "hexread 0 cs = Inr []"
| "hexread (Suc n) (a # b # cs) =
     bind_res (hexread n cs) (\<lambda>rest. Inr (of_int (strtol16 [a, b]) # rest))"
| "hexread (Suc n) _ = Inl Out_of_bounds"

text \<open>\<open>sprintf\<close> with \<open>%02x\<close>.\<close>

definition hex_char :: "u8 \<Rightarrow> u8" where
  "hex_char d = (if d < 10 then 48 + d else 87 + d)"

definition sprintf_02x :: "u8 \<Rightarrow> bytes" where
  "sprintf_02x b = [hex_char (drop_bit 4 b), hex_char (b AND 15)]"

subsection \<open>Shapes the handlers share\<close>

text \<open>
  A call with a null or negative result and its \<open>if (ret < 0)\<close>: \<open>on_error\<close> is the error path.
\<close>

definition or_error :: "'a option res \<Rightarrow> 'b res \<Rightarrow> ('a \<Rightarrow> 'b res) \<Rightarrow> 'b res" where
  "or_error m on_error k = bind_res m (\<lambda>x. case x of None \<Rightarrow> on_error | Some a \<Rightarrow> k a)"

definition format_or_error :: "(int \<times> bytes) res \<Rightarrow> 'b res \<Rightarrow> (bytes \<Rightarrow> 'b res) \<Rightarrow> 'b res" where
  "format_or_error m on_error k = bind_res m (\<lambda>(ret, data). if ret < 0 then on_error else k data)"

text \<open>
  Encryption of a message under the nonce of its key, with the tag appended; and the reverse, of a
  value of at least \<open>AUTHTAG_LENGTH\<close> bytes.
\<close>

definition seal_message :: "crypto \<Rightarrow> bytes \<Rightarrow> bytes \<Rightarrow> pair_keys \<Rightarrow> bytes option" where
  "seal_message C data derived_key key =
     (case encrypt_chacha C data derived_key [] (msg_nonce key) of
        None \<Rightarrow> None
      | Some (cipher, tag) \<Rightarrow> Some (cipher @ tag))"

definition open_message :: "crypto \<Rightarrow> bytes \<Rightarrow> bytes \<Rightarrow> pair_keys \<Rightarrow> bytes option" where
  "open_message C encrypted_data derived_key key =
     (let encrypted_len = length encrypted_data - AUTHTAG_LENGTH in
      decrypt_chacha C (take encrypted_len encrypted_data) derived_key []
        (drop encrypted_len encrypted_data) (msg_nonce key))"

text \<open>A client handler that fails sets the message only; a server handler sets the status too.\<close>

definition s_errmsg_set :: "msg_step \<Rightarrow> msg_text \<Rightarrow> setup_ctx \<Rightarrow> setup_ctx" where
  "s_errmsg_set step txt h = h\<lparr>s_errmsg := Some (At step txt)\<rparr>"

definition v_errmsg_set :: "msg_step \<Rightarrow> msg_text \<Rightarrow> verify_ctx \<Rightarrow> verify_ctx" where
  "v_errmsg_set step txt h = h\<lparr>v_errmsg := Some (At step txt)\<rparr>"

definition s_invalid :: "msg_step \<Rightarrow> msg_text \<Rightarrow> setup_ctx \<Rightarrow> setup_ctx" where
  "s_invalid step txt h = s_return_error PAIR_STATUS_INVALID (Some (At step txt)) h"

definition v_invalid :: "msg_step \<Rightarrow> msg_text \<Rightarrow> verify_ctx \<Rightarrow> verify_ctx" where
  "v_invalid step txt h = v_return_error PAIR_STATUS_INVALID (Some (At step txt)) h"

definition value_of :: "tlv_values \<Rightarrow> u8 \<Rightarrow> bytes option" where
  "value_of values ty = map_option tlv_value (pair_tlv_get_value values ty)"

definition state_tlv :: "pair_keys \<Rightarrow> tlv_values" where
  "state_tlv key = pair_tlv_add_value pair_tlv_new TLVType_State [key_state (pair_keys_map key)]"

subsection \<open>The helpers on messages that the handlers build\<close>

lemma value_of_Nil [simp]: "value_of [] ty = None"
  by (simp add: value_of_def)

lemma value_of_Cons [simp]: "value_of (mk_tlv ty v # ts) ty' = (if ty = ty' then Some v else value_of ts ty')"
  by (simp add: value_of_def)

lemma pair_tlv_add_value_eq [simp]: "pair_tlv_add_value ts ty v = ts @ [mk_tlv ty v]"
  by (simp add: pair_tlv_add_value_def tlv_append_value_eq)

lemma or_error_simps [simp]:
  "or_error (Inl f) e k = Inl f" "or_error (Inr None) e k = e" "or_error (Inr (Some a)) e k = k a"
  by (simp_all add: or_error_def)

lemma format_or_error_simps [simp]:
  "format_or_error (Inl f) e k = Inl f" "format_or_error (Inr (n, d)) e k = (if n < 0 then e else k d)"
  by (simp_all add: format_or_error_def)

lemma format_to_wf:
  "wf_tlvs ts \<Longrightarrow> tlv_required_size ts \<le> cap \<Longrightarrow> format_to cap ts = Inr (0, tlv_bytes ts)"
  by (simp add: format_to_def pair_tlv_format_wf)

lemma message_process_bytes:
  assumes "wf_tlvs ts" and "TLVType_Error \<notin> tlv_type ` set ts"
  shows "message_process (tlv_bytes ts) = Inr (Inr ts)"
proof -
  have "pair_tlv_get_value ts TLVType_Error = None"
    using assms(2) by (simp add: pair_tlv_get_value_None_iff)
  then show ?thesis
    using assms(1) by (simp add: message_process_def pair_tlv_parse_bytes pair_tlv_new_def)
qed

lemma kdf_key_sel [simp]:
  "key_state (kdf_key st salt info nonce) = st" "key_salt (kdf_key st salt info nonce) = Some (str salt)"
  "key_info (kdf_key st salt info nonce) = Some (str info)" "key_nonce (kdf_key st salt info nonce) = nonce"
  by (simp_all add: kdf_key_def)

lemma plain_key_sel [simp]: "key_state (plain_key st) = st"
  by (simp add: plain_key_def)

lemma hkdf_some:
  "kdf_ok C \<Longrightarrow> key_salt (pair_keys_map key) \<noteq> None \<Longrightarrow> key_info (pair_keys_map key) \<noteq> None \<Longrightarrow>
     \<exists>okm. hkdf_extract_expand C 32 ikm key = Inr (Some okm) \<and> length okm = 32"
  using kdf_okD [of C 32] by (auto simp: hkdf_extract_expand_def)

lemma seal_open_message:
  assumes "aead_ok C"
  obtains e where "seal_message C data k key = Some e" and "open_message C e k key = Some data"
    and "length e = length data + 16"
proof -
  obtain c t where "aead_seal C k (msg_nonce key) [] data = Some (c, t)" "length c = length data"
    "length t = 16" "aead_open C k (msg_nonce key) [] c t = Some data"
    by (rule aead_seal_open [OF assms])
  then show thesis
    by (intro that [of "c @ t"])
      (simp_all add: seal_message_def open_message_def encrypt_chacha_def decrypt_chacha_def AUTHTAG_LENGTH_def)
qed

subsection \<open>Hexadecimal digits, written and read\<close>


lemma hex_char_cases:
  assumes "d < 16"
  shows "hex_digit (hex_char d) = Some (uint d) \<and> \<not> is_space (hex_char d) \<and> hex_char d \<noteq> 0
    \<and> hex_char d \<noteq> 45 \<and> hex_char d \<noteq> 43"
proof -
  have all: "\<forall>n \<in> set [0..<16]. hex_digit (hex_char (of_nat n)) = Some (int n) \<and> \<not> is_space (hex_char (of_nat n))
    \<and> hex_char (of_nat n) \<noteq> 0 \<and> hex_char (of_nat n) \<noteq> 45 \<and> hex_char (of_nat n) \<noteq> 43"
    by code_simp
  have "unat d \<in> set [0..<16]" using assms by (simp add: word_less_nat_alt)
  from bspec [OF all this] show ?thesis by simp
qed

lemma byte_nibbles:
  fixes b :: u8
  shows "drop_bit 4 b < 16" "b AND 15 < 16" "uint b = 16 * uint (drop_bit 4 b) + uint (b AND 15)"
proof -
  have "(15 :: u8) = mask 4" by (simp add: mask_eq_exp_minus_1)
  then have lo: "b AND 15 = take_bit 4 b" by (simp add: take_bit_eq_mask)
  have b: "uint b < 256" using uint_bounded [of b] by simp
  have hi': "uint (drop_bit 4 b) = uint b div 16" by (simp add: drop_bit_eq_div uint_div)
  have lo': "uint (b AND 15) = uint b mod 16" by (simp add: lo take_bit_eq_mod uint_mod)
  show "drop_bit 4 b < 16" "b AND 15 < 16" "uint b = 16 * uint (drop_bit 4 b) + uint (b AND 15)"
    using b by (simp_all add: word_less_def hi' lo')
qed

lemma strtol16_sprintf: "(of_int (strtol16 (sprintf_02x b)) :: u8) = b"
proof -
  note hi = hex_char_cases [OF byte_nibbles(1) [of b]] and lo = hex_char_cases [OF byte_nibbles(2) [of b]]
  have "strtol16 (sprintf_02x b) = uint b"
    using hi lo byte_nibbles(3) [of b] by (simp add: strtol16_def sprintf_02x_def c_string_def)
  then show ?thesis by simp
qed

lemma hexread_sprintf: "hexread (length bs) (concat (map sprintf_02x bs) @ rest) = Inr bs"
proof (induction bs)
  case (Cons b bs)
  then show ?case
    using strtol16_sprintf [of b] by (simp add: sprintf_02x_def)
qed simp

lemma sprintf_no_zero: "0 \<notin> set (concat (map sprintf_02x bs))"
  using hex_char_cases [OF byte_nibbles(1)] hex_char_cases [OF byte_nibbles(2)]
  by (induction bs) (auto simp: sprintf_02x_def)

lemma length_sprintf: "length (concat (map sprintf_02x bs)) = 2 * length bs"
  by (induction bs) (auto simp: sprintf_02x_def)

end
