(* ===== verification/Homekit_Client.thy ===== *)
theory Homekit_Client
  imports Homekit_Base
begin

text \<open>
  The client side of HomeKit pairing, \<open>client_setup_*\<close> and \<open>client_verify_*\<close> of
  \<open>src/pair_ap/pair_homekit.c\<close>. A request handler yields the message it allocates (\<open>None\<close> for a
  null pointer) and the new context; a response handler yields the C return value and the context.
\<close>

type_synonym setup_request = "(bytes option \<times> setup_ctx) res"
type_synonym setup_response = "(int \<times> setup_ctx) res"
type_synonym verify_request = "(bytes option \<times> verify_ctx) res"
type_synonym verify_response = "(int \<times> verify_ctx) res"

subsection \<open>Pair setup\<close>

definition client_setup_new ::
  "crypto \<Rightarrow> rand \<Rightarrow> setup_ctx \<Rightarrow> bytes option \<Rightarrow> bool \<Rightarrow> bytes option \<Rightarrow> int \<times> setup_ctx" where
  "client_setup_new C r h pin add_cb device_id =
     (let c = s_client h;
          pin' = (case pin of Some p \<Rightarrow> Some p
                  | None \<Rightarrow> if s_type h = PAIR_CLIENT_HOMEKIT_TRANSIENT then Some DEFAULT_PIN else None)
      in
      if \<not> initialized C then (-1, h)
      else case pin' of
        None \<Rightarrow> (-1, h)
      | Some p \<Rightarrow>
          if (case device_id of None \<Rightarrow> False | Some d \<Rightarrow> PAIR_AP_DEVICE_ID_LEN_MAX \<le> length d) then (-1, h)
          else (0, h\<lparr>s_client := c\<lparr>cs_pin := p, cs_add_cb := add_cb,
                       cs_device_id := (case device_id of None \<Rightarrow> [] | Some d \<Rightarrow> d),
                       cs_public_key := sign_sk_to_pk C (r_sign_sk r), cs_private_key := r_sign_sk r\<rparr>\<rparr>))"

definition client_setup_request1 :: "crypto \<Rightarrow> rand \<Rightarrow> setup_ctx \<Rightarrow> setup_request" where
  "client_setup_request1 C r h =
     (let c = s_client h in
      bind_res (srp_user_new C HASH_SHA512 SRP_NG_3072 USERNAME (cs_pin c)) (\<lambda>user.
        let h1 = h\<lparr>s_client := c\<lparr>cs_user := Some user\<rparr>\<rparr>;
            tlv0 = state_tlv PAIR_SETUP_MSG01;
            tlv1 = pair_tlv_add_value tlv0 TLVType_Method [0];
            tlv2 = (if s_type h = PAIR_CLIENT_HOMEKIT_TRANSIENT
                    then pair_tlv_add_value tlv1 TLVType_Flags [0x10] else tlv1)
        in format_or_error (format_to REQUEST_BUFSIZE tlv2)
             (Inr (None, s_errmsg_set (Setup_request 1) Format_error h1))
             (\<lambda>data. Inr (Some data, h1))))"

definition client_setup_request2 :: "crypto \<Rightarrow> rand \<Rightarrow> setup_ctx \<Rightarrow> setup_request" where
  "client_setup_request2 C r h =
     (let c = s_client h in
      case cs_user c of
        None \<Rightarrow> Inl Null_deref
      | Some user \<Rightarrow>
          (case srp_user_start_authentication C (r_exp r) user of
             (user1, pkA) \<Rightarrow>
               bind_res (srp_user_process_challenge C user1 (cs_salt c) (cs_pkB c)) (\<lambda>(user2, m1).
                 let h1 = h\<lparr>s_client := c\<lparr>cs_user := Some user2, cs_pkA := pkA, cs_M1 := m1\<rparr>\<rparr>;
                     tlv0 = state_tlv PAIR_SETUP_MSG03;
                     tlv1 = pair_tlv_add_value tlv0 TLVType_PublicKey pkA;
                     tlv2 = pair_tlv_add_value tlv1 TLVType_Proof m1
                 in format_or_error (format_to REQUEST_BUFSIZE tlv2)
                      (Inr (None, s_errmsg_set (Setup_request 2) Format_error h1))
                      (\<lambda>data. Inr (Some data, h1)))))"

definition client_setup_request3 :: "crypto \<Rightarrow> rand \<Rightarrow> setup_ctx \<Rightarrow> setup_request" where
  "client_setup_request3 C r h =
     (let c = s_client h; step = Setup_request 3 in
      case cs_user c of
        None \<Rightarrow> Inl Null_deref
      | Some user \<Rightarrow>
          let session_key = srp_user_get_session_key user in
          or_error (hkdf_extract_expand C 32 session_key PAIR_SETUP_CONTROLLER_SIGN)
            (Inr (None, s_errmsg_set step Hkdf_device_x h)) (\<lambda>device_x.
          format_or_error
            (create_and_sign_device_info C REQUEST_BUFSIZE (cs_device_id c) device_x (cs_public_key c) (cs_private_key c))
            (Inr (None, s_errmsg_set step Create_info_error h)) (\<lambda>info.
          or_error (hkdf_extract_expand C 32 session_key PAIR_SETUP_MSG05)
            (Inr (None, s_errmsg_set step Hkdf_derived_key h)) (\<lambda>derived_key.
          format_or_error
            (format_to (REQUEST_BUFSIZE - length info)
              (pair_tlv_add_value pair_tlv_new TLVType_PublicKey (cs_public_key c)))
            (Inr (None, s_errmsg_set step Append_public_key_error h)) (\<lambda>append.
          case seal_message C (info @ append) derived_key PAIR_SETUP_MSG05 of
            None \<Rightarrow> Inr (None, s_errmsg_set step Could_not_encrypt h)
          | Some encrypted_data \<Rightarrow>
              format_or_error
                (format_to REQUEST_BUFSIZE
                  (pair_tlv_add_value (state_tlv PAIR_SETUP_MSG05) TLVType_EncryptedData encrypted_data))
                (Inr (None, s_errmsg_set step Append_public_key_error h))
                (\<lambda>data. Inr (Some data, h)))))))"

definition client_setup_response1 :: "crypto \<Rightarrow> rand \<Rightarrow> setup_ctx \<Rightarrow> bytes \<Rightarrow> setup_response" where
  "client_setup_response1 C r h data =
     (let c = s_client h; step = Setup_response 1 in
      bind_res (message_process data) (\<lambda>m. case m of
        Inl err \<Rightarrow> Inr (-1, h\<lparr>s_errmsg := Some err\<rparr>)
      | Inr response \<Rightarrow>
          (case value_of response TLVType_PublicKey of
             None \<Rightarrow> Inr (-1, s_errmsg_set step Bad_public_key h)
           | Some pk \<Rightarrow>
               if N_len SRP_NG_3072 < int (length pk) then Inr (-1, s_errmsg_set step Bad_public_key h)
               else (case value_of response TLVType_Salt of
                 None \<Rightarrow> Inr (-1, s_errmsg_set step Bad_salt h)
               | Some salt \<Rightarrow>
                   if length salt \<noteq> 16 then Inr (-1, s_errmsg_set step Bad_salt h)
                   else Inr (0, h\<lparr>s_client := c\<lparr>cs_pkB := pk, cs_salt := salt\<rparr>\<rparr>)))))"

definition client_setup_response2 :: "crypto \<Rightarrow> rand \<Rightarrow> setup_ctx \<Rightarrow> bytes \<Rightarrow> setup_response" where
  "client_setup_response2 C r h data =
     (let c = s_client h; step = Setup_response 2 in
      bind_res (message_process data) (\<lambda>m. case m of
        Inl err \<Rightarrow> Inr (-1, h\<lparr>s_errmsg := Some err\<rparr>)
      | Inr response \<Rightarrow>
          (case value_of response TLVType_Proof of
             None \<Rightarrow> Inr (-1, s_errmsg_set step Bad_proof h)
           | Some proof \<Rightarrow>
               if length proof \<noteq> 64 then Inr (-1, s_errmsg_set step Bad_proof h)
               else (case cs_user c of
                 None \<Rightarrow> Inl Null_deref
               | Some user \<Rightarrow>
                   bind_res (srp_user_verify_session user proof) (\<lambda>user1.
                     let h1 = h\<lparr>s_client := c\<lparr>cs_user := Some user1, cs_M2 := proof\<rparr>\<rparr> in
                     if \<not> srp_user_is_authenticated user1
                     then Inr (-1, s_errmsg_set step Server_auth_failed h1)
                     else if s_type h = PAIR_CLIENT_HOMEKIT_TRANSIENT
                     then let session_key = srp_user_get_session_key user1 in
                       if 64 < length session_key then Inl Assert_fail
                       else Inr (0, h1\<lparr>s_result := (s_result h1)
                              \<lparr>res_shared_secret := overlay (res_shared_secret (s_result h1)) session_key,
                               res_shared_secret_len := length session_key\<rparr>,
                              s_status := PAIR_STATUS_COMPLETED\<rparr>)
                     else Inr (0, h1))))))"

definition client_setup_response3 :: "crypto \<Rightarrow> rand \<Rightarrow> setup_ctx \<Rightarrow> bytes \<Rightarrow> setup_response" where
  "client_setup_response3 C r h data =
     (let c = s_client h; step = Setup_response 3 in
      bind_res (message_process data) (\<lambda>m. case m of
        Inl err \<Rightarrow> Inr (-1, h\<lparr>s_errmsg := Some err\<rparr>)
      | Inr outer \<Rightarrow>
          (case value_of outer TLVType_EncryptedData of
             None \<Rightarrow> Inr (-1, s_errmsg_set step Missing_encrypted_data h)
           | Some encrypted_data \<Rightarrow>
               (case cs_user c of
                  None \<Rightarrow> Inl Null_deref
                | Some user \<Rightarrow>
                    let session_key = srp_user_get_session_key user in
                    or_error (hkdf_extract_expand C 32 session_key PAIR_SETUP_MSG06)
                      (Inr (-1, s_errmsg_set step Hkdf_derived_key h)) (\<lambda>derived_key.
                    if length encrypted_data < AUTHTAG_LENGTH
                    then Inr (-1, s_errmsg_set step Bad_encrypted_data h)
                    else (case open_message C encrypted_data derived_key PAIR_SETUP_MSG06 of
                      None \<Rightarrow> Inr (-1, s_errmsg_set step Decryption_error h)
                    | Some decrypted_data \<Rightarrow>
                        bind_res (message_process decrypted_data) (\<lambda>m2. case m2 of
                          Inl err \<Rightarrow> Inr (-1, h\<lparr>s_errmsg := Some err\<rparr>)
                        | Inr response \<Rightarrow>
                            or_error (hkdf_extract_expand C 32 session_key PAIR_SETUP_ACCESSORY_SIGN)
                              (Inr (-1, s_errmsg_set step Hkdf_device_x h)) (\<lambda>device_x.
                            (case (value_of response TLVType_Identifier, value_of response TLVType_PublicKey,
                                   value_of response TLVType_Signature) of
                               (Some device_id, Some pk, Some signature) \<Rightarrow>
                                 if 64 \<le> length device_id \<or> length pk \<noteq> 32 \<or> length signature \<noteq> 64
                                 then Inr (-1, s_errmsg_set step Bad_info_fields h)
                                 else if verify_info C signature pk device_x device_id pk < 0
                                 then Inr (-1, s_errmsg_set step Invalid_signature h)
                                 else
                                   let res = (s_result h)
                                         \<lparr>res_client_private_key := cs_private_key c,
                                          res_client_public_key := cs_public_key c,
                                          res_server_public_key := pk,
                                          res_device_id := overlay (res_device_id (s_result h)) device_id\<rparr>;
                                       calls = (if cs_add_cb c
                                         then s_cb_calls h @ [(res_server_public_key res, c_string (res_device_id res))]
                                         else s_cb_calls h)
                                   in Inr (0, h\<lparr>s_result := res, s_cb_calls := calls,
                                                s_status := PAIR_STATUS_COMPLETED\<rparr>)
                             | _ \<Rightarrow> Inr (-1, s_errmsg_set step Bad_info_fields h))))))))))"

text \<open>\<open>result_str\<close> has 256 bytes; 193 of them are written, the last one a zero.\<close>

definition client_setup_result :: "setup_ctx \<Rightarrow> int \<times> setup_ctx" where
  "client_setup_result h =
     (0, h\<lparr>s_result_str := overlay (s_result_str h)
        (concat (map sprintf_02x (res_client_private_key (s_result h)))
         @ concat (map sprintf_02x (res_server_public_key (s_result h))) @ [0])\<rparr>)"

subsection \<open>Pair verify\<close>

text \<open>
  The keys are the string of \<open>client_setup_result\<close>: 2 * 64 hexadecimal digits of the private key, and
  possibly 2 * 32 of the server's public key.
\<close>

definition client_verify_new ::
  "crypto \<Rightarrow> verify_ctx \<Rightarrow> bytes option \<Rightarrow> (bytes \<Rightarrow> bytes option) option \<Rightarrow> bytes option \<Rightarrow> (int \<times> verify_ctx) res" where
  "client_verify_new C h client_setup_keys cb device_id =
     (let c = v_client h in
      if \<not> initialized C then Inr (-1, h)
      else case device_id of
        None \<Rightarrow> Inr (-1, h)
      | Some d \<Rightarrow>
          if PAIR_AP_DEVICE_ID_LEN_MAX \<le> length d then Inr (-1, h)
          else (case client_setup_keys of
            None \<Rightarrow> Inr (-1, h)
          | Some keys \<Rightarrow>
              if length keys = 2 * 64 + 2 * 32
              then bind_res (hexread 64 keys) (\<lambda>sk.
                   bind_res (hexread 32 (drop (2 * 64) keys)) (\<lambda>pk.
                   Inr (0, h\<lparr>v_client := c\<lparr>cv_client_private_key := sk, cv_server_public_key := pk,
                     cv_verify_server_signature := True, cv_client_public_key := sign_sk_to_pk C sk,
                     cv_device_id := d\<rparr>\<rparr>)))
              else if length keys = 2 * 64
              then bind_res (hexread 64 keys) (\<lambda>sk.
                   Inr (0, h\<lparr>v_client := c\<lparr>cv_client_private_key := sk,
                     cv_client_public_key := sign_sk_to_pk C sk, cv_device_id := d\<rparr>\<rparr>))
              else Inr (-1, h)))"

definition client_verify_request1 :: "crypto \<Rightarrow> rand \<Rightarrow> verify_ctx \<Rightarrow> verify_request" where
  "client_verify_request1 C r h =
     (let h1 = h\<lparr>v_client := (v_client h)\<lparr>cv_client_eph_public_key := box_sk_to_pk C (r_box_sk r),
                   cv_client_eph_private_key := r_box_sk r\<rparr>\<rparr>
      in format_or_error
           (format_to REQUEST_BUFSIZE (pair_tlv_add_value (state_tlv PAIR_VERIFY_MSG01) TLVType_PublicKey
             (cv_client_eph_public_key (v_client h1))))
           (Inr (None, v_errmsg_set (Verify_request 1) Format_error h1))
           (\<lambda>data. Inr (Some data, h1)))"

definition client_verify_request2 :: "crypto \<Rightarrow> rand \<Rightarrow> verify_ctx \<Rightarrow> verify_request" where
  "client_verify_request2 C r h =
     (let c = v_client h; step = Verify_request 2 in
      format_or_error
        (create_and_sign_device_info C REQUEST_BUFSIZE (cv_device_id c) (cv_client_eph_public_key c)
          (cv_server_eph_public_key c) (cv_client_private_key c))
        (Inr (None, v_errmsg_set step Create_info_error h)) (\<lambda>info.
      or_error (hkdf_extract_expand C 32 (cv_shared_secret c) PAIR_VERIFY_MSG03)
        (Inr (None, v_errmsg_set step Hkdf_derived_key h)) (\<lambda>derived_key.
      case seal_message C info derived_key PAIR_VERIFY_MSG03 of
        None \<Rightarrow> Inr (None, v_errmsg_set step Could_not_encrypt h)
      | Some encrypted_data \<Rightarrow>
          format_or_error
            (format_to REQUEST_BUFSIZE
              (pair_tlv_add_value (state_tlv PAIR_VERIFY_MSG03) TLVType_EncryptedData encrypted_data))
            (Inr (None, v_errmsg_set step Format_error h))
            (\<lambda>data. Inr (Some data, h)))))"

definition client_verify_response1 :: "crypto \<Rightarrow> rand \<Rightarrow> verify_ctx \<Rightarrow> bytes \<Rightarrow> verify_response" where
  "client_verify_response1 C r h data =
     (let step = Verify_response 1 in
      bind_res (message_process data) (\<lambda>m. case m of
        Inl err \<Rightarrow> Inr (-1, h\<lparr>v_errmsg := Some err\<rparr>)
      | Inr outer \<Rightarrow>
          (case value_of outer TLVType_EncryptedData of
             None \<Rightarrow> Inr (-1, v_errmsg_set step Missing_encrypted_data h)
           | Some encrypted_data \<Rightarrow>
           (case value_of outer TLVType_PublicKey of
             None \<Rightarrow> Inr (-1, v_errmsg_set step Bad_public_key h)
           | Some public_key \<Rightarrow>
               if length public_key \<noteq> 32 then Inr (-1, v_errmsg_set step Bad_public_key h)
               else
                 let h1 = h\<lparr>v_client := (v_client h)\<lparr>cv_server_eph_public_key := public_key\<rparr>\<rparr> in
                 (case scalarmult C (cv_client_eph_private_key (v_client h1)) public_key of
                    None \<Rightarrow> Inr (-1, v_errmsg_set step Curve_error h1)
                  | Some shared_secret \<Rightarrow>
                      let h2 = h1\<lparr>v_client := (v_client h1)\<lparr>cv_shared_secret := shared_secret\<rparr>\<rparr> in
                      or_error (hkdf_extract_expand C 32 shared_secret PAIR_VERIFY_MSG02)
                        (Inr (-1, v_errmsg_set step Hkdf_derived_key h2)) (\<lambda>derived_key.
                      if length encrypted_data < AUTHTAG_LENGTH
                      then Inr (-1, v_errmsg_set step Bad_encrypted_data h2)
                      else (case open_message C encrypted_data derived_key PAIR_VERIFY_MSG02 of
                        None \<Rightarrow> Inr (-1, v_errmsg_set step Decryption_error h2)
                      | Some decrypted_data \<Rightarrow>
                          bind_res (message_process decrypted_data) (\<lambda>m2. case m2 of
                            Inl err \<Rightarrow> Inr (-1, h2\<lparr>v_errmsg := Some err\<rparr>)
                          | Inr response \<Rightarrow>
                              (case (value_of response TLVType_Identifier, value_of response TLVType_Signature) of
                                 (Some device_id, Some signature) \<Rightarrow>
                                   if length signature \<noteq> 64
                                   then Inr (-1, v_errmsg_set step Bad_info_fields h2)
                                   else if cv_verify_server_signature (v_client h2)
                                     \<and> verify_info C signature (cv_server_public_key (v_client h2)) public_key
                                         device_id (cv_client_eph_public_key (v_client h2)) < 0
                                   then Inr (-1, v_errmsg_set step Invalid_signature h2)
                                   else Inr (0, h2)
                               | _ \<Rightarrow> Inr (-1, v_errmsg_set step Bad_info_fields h2))))))))))"

definition client_verify_response2 :: "crypto \<Rightarrow> rand \<Rightarrow> verify_ctx \<Rightarrow> bytes \<Rightarrow> verify_response" where
  "client_verify_response2 C r h data =
     bind_res (message_process data) (\<lambda>m. case m of
       Inl err \<Rightarrow> Inr (-1, h\<lparr>v_errmsg := Some err\<rparr>)
     | Inr response \<Rightarrow>
         Inr (0, h\<lparr>v_result := (v_result h)
               \<lparr>res_shared_secret := overlay (res_shared_secret (v_result h)) (cv_shared_secret (v_client h)),
                res_shared_secret_len := 32\<rparr>,
               v_status := PAIR_STATUS_COMPLETED\<rparr>))"

end
