(* ===== verification/Homekit_Server.thy ===== *)
theory Homekit_Server
  imports Homekit_Client
begin

text \<open>
  The server side of HomeKit pairing, \<open>server_*\<close> of \<open>src/pair_ap/pair_homekit.c\<close>: pair setup, pair
  verify, and the pairings requests. Here a \<open>request\<close> handler reads a message and a \<open>response\<close>
  handler makes one.
\<close>

definition server_keypair :: "crypto \<Rightarrow> bytes \<Rightarrow> bytes \<times> bytes" where
  "server_keypair C device_id =
     (let len = min (length device_id) 32
      in sign_seed_keypair C (overlay (replicate 32 0) (take len device_id)))"

text \<open>The return value of \<open>pair_tlv_format\<close> is not looked at.\<close>

definition server_auth_failed_response :: "pair_keys \<Rightarrow> bytes res" where
  "server_auth_failed_response msg_state =
     bind_res (format_to REQUEST_BUFSIZE (pair_tlv_add_value (state_tlv msg_state) TLVType_Error [2]))
       (\<lambda>(ret, data). Inr data)"

subsection \<open>Pair setup\<close>

definition server_setup_new ::
  "crypto \<Rightarrow> rand \<Rightarrow> setup_ctx \<Rightarrow> bytes option \<Rightarrow> bool \<Rightarrow> bytes option \<Rightarrow> int \<times> setup_ctx" where
  "server_setup_new C r h pin add_cb device_id =
     (let c = s_server h; p = (case pin of None \<Rightarrow> DEFAULT_PIN | Some p \<Rightarrow> p) in
      if \<not> initialized C then (-1, h)
      else case device_id of
        None \<Rightarrow> (-1, h)
      | Some d \<Rightarrow>
          if PAIR_AP_DEVICE_ID_LEN_MAX \<le> length d then (-1, h)
          else (case server_keypair C d of (pk, sk) \<Rightarrow>
            (0, h\<lparr>s_server := c\<lparr>ss_pin := p, ss_add_cb := add_cb, ss_device_id := d,
                   ss_public_key := pk, ss_private_key := sk\<rparr>\<rparr>)))"

definition server_setup_request1 :: "crypto \<Rightarrow> rand \<Rightarrow> setup_ctx \<Rightarrow> bytes \<Rightarrow> setup_response" where
  "server_setup_request1 C r h data =
     (let c = s_server h; step = Setup_request 1 in
      bind_res (message_process data) (\<lambda>m. case m of
        Inl err \<Rightarrow> Inr (-1, s_return_error PAIR_STATUS_INVALID (Some err) h)
      | Inr request \<Rightarrow>
          if value_of request TLVType_Method \<noteq> Some [0]
          then Inr (-1, s_invalid step Bad_method h)
          else
            let is_transient = (value_of request TLVType_Flags = Some [0x10]) in
            bind_res (srp_create_salted_verification_key C HASH_SHA512 SRP_NG_3072 USERNAME (ss_pin c) (r_salt r))
              (\<lambda>(salt, v).
            bind_res (srp_verifier_start_authentication C HASH_SHA512 SRP_NG_3072 v (r_exp r))
              (\<lambda>(b, pkB).
            Inr (0, h\<lparr>s_server := c\<lparr>ss_is_transient := is_transient, ss_salt := salt, ss_v := v,
                         ss_b := b, ss_pkB := pkB\<rparr>\<rparr>)))))"

definition server_setup_request2 :: "crypto \<Rightarrow> rand \<Rightarrow> setup_ctx \<Rightarrow> bytes \<Rightarrow> setup_response" where
  "server_setup_request2 C r h data =
     (let c = s_server h; step = Setup_request 2 in
      bind_res (message_process data) (\<lambda>m. case m of
        Inl err \<Rightarrow> Inr (-1, s_return_error PAIR_STATUS_INVALID (Some err) h)
      | Inr request \<Rightarrow>
          (case value_of request TLVType_PublicKey of
             None \<Rightarrow> Inr (-1, s_invalid step Bad_public_key h)
           | Some pk \<Rightarrow>
               if N_len SRP_NG_3072 < int (length pk) then Inr (-1, s_invalid step Bad_public_key h)
               else (case value_of request TLVType_Proof of
                 None \<Rightarrow> Inr (-1, s_invalid step Bad_proof h)
               | Some proof \<Rightarrow>
                   if length proof \<noteq> 64 then Inr (-1, s_invalid step Bad_proof h)
                   else
                     let c1 = c\<lparr>ss_pkA := pk, ss_M1 := proof\<rparr> in
                     bind_res (srp_verifier_new C HASH_SHA512 SRP_NG_3072 USERNAME (ss_salt c1) (ss_v c1)
                         (ss_pkA c1) (ss_b c1) (ss_pkB c1)) (\<lambda>verifier.
                     case verifier of
                       None \<Rightarrow> Inr (0, h\<lparr>s_server := c1\<lparr>ss_verifier := None\<rparr>, s_status := PAIR_STATUS_AUTH_FAILED\<rparr>)
                     | Some ver \<Rightarrow>
                         bind_res (srp_verifier_verify_session ver (ss_M1 c1)) (\<lambda>(ver1, M2).
                         let h1 = h\<lparr>s_server := c1\<lparr>ss_verifier := Some ver1, ss_M2 := M2, ss_M2_len := 64\<rparr>\<rparr> in
                         (case M2 of
                            None \<Rightarrow> Inr (0, h1\<lparr>s_status := PAIR_STATUS_AUTH_FAILED\<rparr>)
                          | Some _ \<Rightarrow> Inr (0, h1))))))))"

definition server_setup_request3 :: "crypto \<Rightarrow> rand \<Rightarrow> setup_ctx \<Rightarrow> bytes \<Rightarrow> setup_response" where
  "server_setup_request3 C r h data =
     (let c = s_server h; step = Setup_request 3 in
      bind_res (message_process data) (\<lambda>m. case m of
        Inl err \<Rightarrow> Inr (-1, s_return_error PAIR_STATUS_INVALID (Some err) h)
      | Inr outer \<Rightarrow>
          (case ss_verifier c of
             None \<Rightarrow> Inl Null_deref
           | Some ver \<Rightarrow>
               let session_key = srp_verifier_get_session_key ver in
               or_error (hkdf_extract_expand C 32 session_key PAIR_SETUP_MSG05)
                 (Inr (-1, s_invalid step Hkdf_derived_key h)) (\<lambda>derived_key.
               case value_of outer TLVType_EncryptedData of
                 None \<Rightarrow> Inr (-1, s_invalid step Missing_encrypted_data h)
               | Some encrypted_data \<Rightarrow>
                   if length encrypted_data < AUTHTAG_LENGTH
                   then Inr (-1, s_invalid step Bad_encrypted_data h)
                   else (case open_message C encrypted_data derived_key PAIR_SETUP_MSG05 of
                     None \<Rightarrow> Inr (-1, s_invalid step Decryption_error h)
                   | Some decrypted_data \<Rightarrow>
                       bind_res (message_process decrypted_data) (\<lambda>m2. case m2 of
                         Inl err \<Rightarrow> Inr (-1, s_return_error PAIR_STATUS_INVALID (Some err) h)
                       | Inr request \<Rightarrow>
                           or_error (hkdf_extract_expand C 32 session_key PAIR_SETUP_CONTROLLER_SIGN)
                             (Inr (-1, s_invalid step Hkdf_device_x h)) (\<lambda>device_x.
                           (case (value_of request TLVType_Identifier, value_of request TLVType_PublicKey,
                                  value_of request TLVType_Signature) of
                              (Some device_id, Some pk, Some signature) \<Rightarrow>
                                if 64 \<le> length device_id \<or> length pk \<noteq> 32 \<or> length signature \<noteq> 64
                                then Inr (-1, s_invalid step Bad_info_fields h)
                                else if verify_info C signature pk device_x device_id pk < 0
                                then Inr (0, h\<lparr>s_status := PAIR_STATUS_AUTH_FAILED\<rparr>)
                                else Inr (0, h\<lparr>s_result := (s_result h)
                                       \<lparr>res_device_id := overlay (res_device_id (s_result h)) device_id,
                                        res_client_public_key := pk\<rparr>\<rparr>)
                            | _ \<Rightarrow> Inr (-1, s_invalid step Bad_info_fields h)))))))))"

definition server_setup_response1 :: "crypto \<Rightarrow> rand \<Rightarrow> setup_ctx \<Rightarrow> setup_request" where
  "server_setup_response1 C r h =
     (let c = s_server h in
      if s_status h = PAIR_STATUS_AUTH_FAILED
      then bind_res (server_auth_failed_response PAIR_SETUP_MSG02) (\<lambda>data. Inr (Some data, h))
      else
        let tlv0 = state_tlv PAIR_SETUP_MSG02;
            tlv1 = pair_tlv_add_value tlv0 TLVType_Salt (ss_salt c);
            tlv2 = pair_tlv_add_value tlv1 TLVType_PublicKey (ss_pkB c)
        in format_or_error (format_to REQUEST_BUFSIZE tlv2)
             (Inr (None, s_invalid (Setup_response 1) Format_error h))
             (\<lambda>data. Inr (Some data, h)))"

text \<open>Appending a proof of 64 bytes from a null pointer faults.\<close>

definition server_setup_response2 :: "crypto \<Rightarrow> rand \<Rightarrow> setup_ctx \<Rightarrow> setup_request" where
  "server_setup_response2 C r h =
     (let c = s_server h in
      if s_status h = PAIR_STATUS_AUTH_FAILED
      then bind_res (server_auth_failed_response PAIR_SETUP_MSG04) (\<lambda>data. Inr (Some data, h))
      else if ss_M2 c = None \<and> ss_M2_len c \<noteq> 0 then Inl Null_deref
      else
        let proof = (case ss_M2 c of None \<Rightarrow> [] | Some M2 \<Rightarrow> take (ss_M2_len c) M2);
            tlv1 = pair_tlv_add_value (state_tlv PAIR_SETUP_MSG04) TLVType_Proof proof
        in format_or_error (format_to REQUEST_BUFSIZE tlv1)
             (Inr (None, s_invalid (Setup_response 2) Format_error h)) (\<lambda>data.
           if \<not> ss_is_transient c then Inr (Some data, h)
           else (case ss_verifier c of
             None \<Rightarrow> Inl Null_deref
           | Some ver \<Rightarrow>
               let session_key = srp_verifier_get_session_key ver in
               if 64 < length session_key then Inl Assert_fail
               else Inr (Some data, h\<lparr>s_result := (s_result h)
                      \<lparr>res_shared_secret := overlay (res_shared_secret (s_result h)) session_key,
                       res_shared_secret_len := length session_key\<rparr>,
                      s_status := PAIR_STATUS_COMPLETED\<rparr>))))"

definition server_setup_response3 :: "crypto \<Rightarrow> rand \<Rightarrow> setup_ctx \<Rightarrow> setup_request" where
  "server_setup_response3 C r h =
     (let c = s_server h; step = Setup_response 3 in
      if s_status h = PAIR_STATUS_AUTH_FAILED
      then bind_res (server_auth_failed_response PAIR_SETUP_MSG06) (\<lambda>data. Inr (Some data, h))
      else (case ss_verifier c of
        None \<Rightarrow> Inl Null_deref
      | Some ver \<Rightarrow>
          let session_key = srp_verifier_get_session_key ver in
          or_error (hkdf_extract_expand C 32 session_key PAIR_SETUP_ACCESSORY_SIGN)
            (Inr (None, s_invalid step Hkdf_device_x h)) (\<lambda>device_x.
          format_or_error
            (create_and_sign_device_info C REQUEST_BUFSIZE (ss_device_id c) device_x (ss_public_key c) (ss_private_key c))
            (Inr (None, s_invalid step Create_info_error h)) (\<lambda>info.
          format_or_error
            (format_to (REQUEST_BUFSIZE - length info)
              (pair_tlv_add_value pair_tlv_new TLVType_PublicKey (ss_public_key c)))
            (Inr (None, s_invalid step Append_public_key_error h)) (\<lambda>append.
          or_error (hkdf_extract_expand C 32 session_key PAIR_SETUP_MSG06)
            (Inr (None, s_invalid step Hkdf_derived_key h)) (\<lambda>derived_key.
          case seal_message C (info @ append) derived_key PAIR_SETUP_MSG06 of
            None \<Rightarrow> Inr (None, s_invalid step Could_not_encrypt h)
          | Some encrypted_data \<Rightarrow>
              format_or_error
                (format_to REQUEST_BUFSIZE
                  (pair_tlv_add_value (state_tlv PAIR_SETUP_MSG06) TLVType_EncryptedData encrypted_data))
                (Inr (None, s_invalid step Append_public_key_error h))
                (\<lambda>data.
                  let calls = (if ss_add_cb c
                        then s_cb_calls h @ [(res_client_public_key (s_result h), c_string (res_device_id (s_result h)))]
                        else s_cb_calls h)
                  in Inr (Some data, h\<lparr>s_cb_calls := calls, s_status := PAIR_STATUS_COMPLETED\<rparr>))))))))"

subsection \<open>Pair verify\<close>

definition server_verify_new ::
  "crypto \<Rightarrow> verify_ctx \<Rightarrow> bytes option \<Rightarrow> (bytes \<Rightarrow> bytes option) option \<Rightarrow> bytes option \<Rightarrow> (int \<times> verify_ctx) res" where
  "server_verify_new C h client_setup_keys cb device_id =
     (let c = v_server h in
      if \<not> initialized C then Inr (-1, h)
      else if client_setup_keys \<noteq> None then Inr (-1, h)
      else case device_id of
        None \<Rightarrow> Inr (-1, h)
      | Some d \<Rightarrow>
          if PAIR_AP_DEVICE_ID_LEN_MAX \<le> length d then Inr (-1, h)
          else (case server_keypair C d of (pk, sk) \<Rightarrow>
            Inr (0, h\<lparr>v_server := c\<lparr>sv_device_id := d, sv_get_cb := cb,
                       sv_verify_client_signature := (cb \<noteq> None),
                       sv_server_public_key := pk, sv_server_private_key := sk\<rparr>\<rparr>)))"

definition server_verify_request1 :: "crypto \<Rightarrow> rand \<Rightarrow> verify_ctx \<Rightarrow> bytes \<Rightarrow> verify_response" where
  "server_verify_request1 C r h data =
     bind_res (message_process data) (\<lambda>m. case m of
       Inl err \<Rightarrow> Inr (-1, v_return_error PAIR_STATUS_INVALID (Some err) h)
     | Inr request \<Rightarrow>
         (case value_of request TLVType_PublicKey of
            None \<Rightarrow> Inr (-1, v_invalid (Verify_request 1) Bad_public_key h)
          | Some pk \<Rightarrow>
              if length pk \<noteq> 32 then Inr (-1, v_invalid (Verify_request 1) Bad_public_key h)
              else Inr (0, h\<lparr>v_server := (v_server h)\<lparr>sv_client_eph_public_key := pk\<rparr>\<rparr>)))"

text \<open>\<open>get_cb\<close> gets the identifier as a C string, in a zeroed buffer.\<close>

definition server_verify_request2 :: "crypto \<Rightarrow> rand \<Rightarrow> verify_ctx \<Rightarrow> bytes \<Rightarrow> verify_response" where
  "server_verify_request2 C r h data =
     (let c = v_server h; step = Verify_request 2 in
      bind_res (message_process data) (\<lambda>m. case m of
        Inl err \<Rightarrow> Inr (-1, v_return_error PAIR_STATUS_INVALID (Some err) h)
      | Inr outer \<Rightarrow>
          or_error (hkdf_extract_expand C 32 (sv_shared_secret c) PAIR_VERIFY_MSG03)
            (Inr (-1, v_invalid step Hkdf_derived_key h)) (\<lambda>derived_key.
          case value_of outer TLVType_EncryptedData of
            None \<Rightarrow> Inr (-1, v_invalid step Missing_encrypted_data h)
          | Some encrypted_data \<Rightarrow>
              if length encrypted_data < AUTHTAG_LENGTH
              then Inr (-1, v_invalid step Bad_encrypted_data h)
              else (case open_message C encrypted_data derived_key PAIR_VERIFY_MSG03 of
                None \<Rightarrow> Inr (-1, v_invalid step Decryption_error h)
              | Some decrypted_data \<Rightarrow>
                  bind_res (message_process decrypted_data) (\<lambda>m2. case m2 of
                    Inl err \<Rightarrow> Inr (-1, v_return_error PAIR_STATUS_INVALID (Some err) h)
                  | Inr request \<Rightarrow>
                      (case (value_of request TLVType_Identifier, value_of request TLVType_Signature) of
                         (Some device_id, Some signature) \<Rightarrow>
                           if length signature \<noteq> 64 then Inr (-1, v_invalid step Bad_info_fields h)
                           else if \<not> sv_verify_client_signature c then Inr (0, h)
                           else if 64 \<le> length device_id then Inr (-1, v_invalid step Device_id_too_long h)
                           else (case sv_get_cb c of
                             None \<Rightarrow> Inl Null_deref
                           | Some get_cb \<Rightarrow>
                               (case get_cb (c_string (overlay (replicate 64 0) device_id)) of
                                  None \<Rightarrow> Inr (0, h\<lparr>v_status := PAIR_STATUS_AUTH_FAILED\<rparr>)
                                | Some client_public_key \<Rightarrow>
                                    if verify_info C signature client_public_key (sv_client_eph_public_key c)
                                         device_id (sv_server_eph_public_key c) < 0
                                    then Inr (0, h\<lparr>v_status := PAIR_STATUS_AUTH_FAILED\<rparr>)
                                    else Inr (0, h)))
                       | _ \<Rightarrow> Inr (-1, v_invalid step Bad_info_fields h)))))))"

definition server_verify_response1 :: "crypto \<Rightarrow> rand \<Rightarrow> verify_ctx \<Rightarrow> verify_request" where
  "server_verify_response1 C r h =
     (let step = Verify_response 1 in
      if v_status h = PAIR_STATUS_AUTH_FAILED
      then bind_res (server_auth_failed_response PAIR_VERIFY_MSG02) (\<lambda>data. Inr (Some data, h))
      else
        let h1 = h\<lparr>v_server := (v_server h)\<lparr>sv_server_eph_public_key := box_sk_to_pk C (r_box_sk r),
                     sv_server_eph_private_key := r_box_sk r\<rparr>\<rparr> in
        (case scalarmult C (sv_server_eph_private_key (v_server h1)) (sv_client_eph_public_key (v_server h1)) of
           None \<Rightarrow> Inr (None, v_invalid step Curve_error h1)
         | Some shared_secret \<Rightarrow>
             let h2 = h1\<lparr>v_server := (v_server h1)\<lparr>sv_shared_secret := shared_secret\<rparr>\<rparr>; c = v_server h2 in
             format_or_error
               (create_and_sign_accessory_info C REQUEST_BUFSIZE (sv_server_eph_public_key c) (sv_device_id c)
                 (sv_client_eph_public_key c) (sv_server_private_key c))
               (Inr (None, v_invalid step Create_info_error h2)) (\<lambda>info.
             or_error (hkdf_extract_expand C 32 (sv_shared_secret c) PAIR_VERIFY_MSG02)
               (Inr (None, v_invalid step Hkdf_derived_key h2)) (\<lambda>derived_key.
             case seal_message C info derived_key PAIR_VERIFY_MSG02 of
               None \<Rightarrow> Inr (None, v_invalid step Could_not_encrypt h2)
             | Some encrypted_data \<Rightarrow>
                 let tlv1 = pair_tlv_add_value (state_tlv PAIR_VERIFY_MSG02) TLVType_PublicKey (sv_server_eph_public_key c);
                     tlv2 = pair_tlv_add_value tlv1 TLVType_EncryptedData encrypted_data
                 in format_or_error (format_to REQUEST_BUFSIZE tlv2)
                      (Inr (None, v_invalid step Format_error h2))
                      (\<lambda>data. Inr (Some data, h2))))))"

definition server_verify_response2 :: "crypto \<Rightarrow> rand \<Rightarrow> verify_ctx \<Rightarrow> verify_request" where
  "server_verify_response2 C r h =
     (if v_status h = PAIR_STATUS_AUTH_FAILED
      then bind_res (server_auth_failed_response PAIR_VERIFY_MSG04) (\<lambda>data. Inr (Some data, h))
      else
        format_or_error (format_to REQUEST_BUFSIZE (state_tlv PAIR_VERIFY_MSG04))
          (Inr (None, v_invalid (Verify_response 2) Format_error h))
          (\<lambda>data. Inr (Some data, h\<lparr>v_result := (v_result h)
              \<lparr>res_shared_secret := overlay (res_shared_secret (v_result h)) (sv_shared_secret (v_server h)),
               res_shared_secret_len := 32\<rparr>,
              v_status := PAIR_STATUS_COMPLETED\<rparr>)))"

subsection \<open>Pairings\<close>

text \<open>
  Adding and removing call the caller's callback once, with the public key (\<open>None\<close> for a null
  pointer) and the identifier; the model yields that call.
\<close>

definition server_add_remove_request :: "bytes \<Rightarrow> (int \<times> (bytes option \<times> bytes) list) res" where
  "server_add_remove_request in_data =
     bind_res (message_process in_data) (\<lambda>m. case m of
       Inl err \<Rightarrow> Inr (-1, [])
     | Inr request \<Rightarrow>
         (case value_of request TLVType_Identifier of
            None \<Rightarrow> Inr (-1, [])
          | Some device_id \<Rightarrow>
              if PAIR_AP_DEVICE_ID_LEN_MAX \<le> length device_id then Inr (-1, [])
              else
                let public_key = (case value_of request TLVType_PublicKey of
                      None \<Rightarrow> None
                    | Some pk \<Rightarrow> if length pk = 32 then Some pk else None)
                in Inr (0, [(public_key, c_string (overlay (replicate 64 0) device_id))])))"

definition server_add_remove_response :: "bytes option res" where
  "server_add_remove_response =
     format_or_error (format_to REQUEST_BUFSIZE (pair_tlv_add_value pair_tlv_new TLVType_State [2]))
       (Inr None) (\<lambda>data. Inr (Some data))"

definition server_add_remove :: "bytes \<Rightarrow> (int \<times> bytes option \<times> (bytes option \<times> bytes) list) res" where
  "server_add_remove in_data =
     bind_res (server_add_remove_request in_data) (\<lambda>(ret, calls).
       if ret < 0 then Inr (-1, None, calls)
       else bind_res server_add_remove_response (\<lambda>out_data. case out_data of
         None \<Rightarrow> Inr (-1, None, calls)
       | Some data \<Rightarrow> Inr (0, Some data, calls)))"

definition server_list_cb :: "bytes \<Rightarrow> bytes \<Rightarrow> tlv_values \<Rightarrow> tlv_values" where
  "server_list_cb public_key device_id response =
     (let r1 = (if value_of response TLVType_Identifier \<noteq> None
                then pair_tlv_add_value response TLVType_Separator [] else response);
          r2 = pair_tlv_add_value r1 TLVType_Identifier device_id;
          r3 = pair_tlv_add_value r2 TLVType_PublicKey public_key
      in pair_tlv_add_value r3 TLVType_Permissions [1])"

text \<open>The caller's \<open>pair_list_cb\<close> calls \<open>server_list_cb\<close> for each of its pairings, in order.\<close>

fun run_list_cb :: "(bytes \<times> bytes) list \<Rightarrow> tlv_values \<Rightarrow> tlv_values" where
  "run_list_cb [] response = response"
| "run_list_cb ((pk, device_id) # ps) response = run_list_cb ps (server_list_cb pk device_id response)"

definition server_list_response :: "(bytes \<times> bytes) list \<Rightarrow> bytes option res" where
  "server_list_response pairings =
     format_or_error (format_to REQUEST_BUFSIZE
         (run_list_cb pairings (pair_tlv_add_value pair_tlv_new TLVType_State [2])))
       (Inr None) (\<lambda>data. Inr (Some data))"

definition server_list :: "(bytes \<times> bytes) list \<Rightarrow> (int \<times> bytes option) res" where
  "server_list pairings =
     bind_res (server_list_response pairings) (\<lambda>out_data. case out_data of
       None \<Rightarrow> Inr (-1, None)
     | Some data \<Rightarrow> Inr (0, Some data))"

text \<open>\<open>state_get\<close>: the state byte of a message, 0 when there is no message.\<close>

definition state_get :: "bytes \<Rightarrow> (int \<times> errmsg option) res" where
  "state_get data =
     (if data = [] then Inr (0, None)
      else bind_res (message_process data) (\<lambda>m. case m of
        Inl err \<Rightarrow> Inr (-1, Some err)
      | Inr message \<Rightarrow>
          (case value_of message TLVType_State of
             Some [b] \<Rightarrow> Inr (uint b, None)
           | _ \<Rightarrow> Inr (-1, Some No_message_state))))"

definition public_key_get :: "crypto \<Rightarrow> bytes \<Rightarrow> bytes" where
  "public_key_get C device_id = fst (server_keypair C device_id)"

end
