(* ===== verification/Cipher.thy ===== *)
theory Cipher
  imports Homekit_Base
begin

text \<open>
  The cipher of an established connection: \<open>cipher_new\<close>, \<open>encrypt\<close>, \<open>decrypt\<close> of
  \<open>src/pair_ap/pair_homekit.c\<close> and the rollbacks of \<open>src/pair_ap/pair.c\<close>. A message is cut into
  blocks of at most \<open>0x400\<close> bytes; each is a 16 bit length, the cipher text and the tag, under a
  nonce that counts blocks.
\<close>

record cipher_ctx =
  c_type :: pair_type
  c_encryption_key :: bytes
  c_decryption_key :: bytes
  c_encryption_counter :: u64
  c_decryption_counter :: u64
  c_encryption_counter_prev :: u64
  c_decryption_counter_prev :: u64
  c_errmsg :: "errmsg option"

text \<open>The write and the read key of a channel.\<close>

definition channel_keys :: "int \<Rightarrow> (pair_keys \<times> pair_keys) option" where
  "channel_keys channel =
     (if channel = 0 then Some (PAIR_CONTROL_WRITE, PAIR_CONTROL_READ)
      else if channel = 1 then Some (PAIR_EVENTS_READ, PAIR_EVENTS_WRITE)
      else if channel = 2 then Some (PAIR_CONTROL_READ, PAIR_CONTROL_WRITE)
      else if channel = 3 then Some (PAIR_EVENTS_WRITE, PAIR_EVENTS_READ)
      else None)"

definition cipher_new :: "crypto \<Rightarrow> pair_type \<Rightarrow> int \<Rightarrow> bytes \<Rightarrow> cipher_ctx option res" where
  "cipher_new C ty channel shared_secret =
     (case channel_keys channel of
        None \<Rightarrow> Inr None
      | Some (write_key, read_key) \<Rightarrow>
          or_error (hkdf_extract_expand C 32 shared_secret write_key) (Inr None) (\<lambda>enc.
          or_error (hkdf_extract_expand C 32 shared_secret read_key) (Inr None) (\<lambda>dec.
          Inr (Some \<lparr>c_type = ty, c_encryption_key = enc, c_decryption_key = dec,
                 c_encryption_counter = 0, c_decryption_counter = 0,
                 c_encryption_counter_prev = 0, c_decryption_counter_prev = 0, c_errmsg = None\<rparr>))))"

text \<open>\<open>memcpy(nonce + 4, &counter, 8)\<close> on a zeroed nonce; the machine is little endian.\<close>

definition counter_nonce :: "u64 \<Rightarrow> bytes" where
  "counter_nonce ctr = replicate 4 0 @ put_le64 ctr"

definition cipher_block :: "crypto \<Rightarrow> bytes \<Rightarrow> u64 \<Rightarrow> bytes \<Rightarrow> bytes option" where
  "cipher_block C key ctr plain =
     (let block_len = put_le16 (of_nat (length plain)) in
      case encrypt_chacha C plain key block_len (counter_nonce ctr) of
        None \<Rightarrow> None
      | Some (c, tag) \<Rightarrow> Some (block_len @ c @ tag))"

text \<open>
  The loop over \<open>nblocks\<close> blocks, the last one being what remains. It yields the cipher text, or
  \<open>None\<close> at the first block that cannot be encrypted, and the counter it reaches.
\<close>

fun encrypt_loop :: "crypto \<Rightarrow> bytes \<Rightarrow> nat \<Rightarrow> u64 \<Rightarrow> bytes \<Rightarrow> bytes option \<times> u64" where
  "encrypt_loop C key 0 ctr plain = (Some [], ctr)"
| "encrypt_loop C key (Suc n) ctr plain =
     (let block_len = (if n = 0 then length plain else ENCRYPTED_LEN_MAX) in
      case cipher_block C key ctr (take block_len plain) of
        None \<Rightarrow> (None, ctr)
      | Some blk \<Rightarrow>
          (case encrypt_loop C key n (ctr + 1) (drop block_len plain) of
             (None, ctr') \<Rightarrow> (None, ctr')
           | (Some rest, ctr') \<Rightarrow> (Some (blk @ rest), ctr')))"

text \<open>The results: the return value, the cipher text and its announced length, the new context.\<close>

definition encrypt :: "crypto \<Rightarrow> bytes \<Rightarrow> cipher_ctx \<Rightarrow> int \<times> (bytes \<times> nat) option \<times> cipher_ctx" where
  "encrypt C plaintext cctx =
     (if plaintext = [] then (-1, None, cctx)
      else
        let nblocks = 1 + (length plaintext - 1) div ENCRYPTED_LEN_MAX;
            ciphertext_len = nblocks * (2 + AUTHTAG_LENGTH) + length plaintext;
            cctx1 = cctx\<lparr>c_encryption_counter_prev := c_encryption_counter cctx\<rparr>
        in case encrypt_loop C (c_encryption_key cctx) nblocks (c_encryption_counter cctx1) plaintext of
             (None, ctr) \<Rightarrow> (-1, None, cctx1\<lparr>c_errmsg := Some Encryption_failed,
                                        c_encryption_counter := c_encryption_counter_prev cctx1\<rparr>)
           | (Some ciphertext, ctr) \<Rightarrow>
               (int (length plaintext), Some (ciphertext, ciphertext_len), cctx1\<lparr>c_encryption_counter := ctr\<rparr>))"

text \<open>
  The loop of \<open>decrypt\<close>. A single remaining byte is read as the first half of a length: past the end
  of the buffer. It stops in front of a block that is not complete. The results are the plain text and
  the number of bytes consumed, with the counter; or \<open>None\<close> at a block that does not verify.
\<close>

function decrypt_loop :: "crypto \<Rightarrow> bytes \<Rightarrow> u64 \<Rightarrow> bytes \<Rightarrow> ((bytes \<times> nat) option \<times> u64) res" where
  "decrypt_loop C key ctr buf =
     (case buf of
        [] \<Rightarrow> Inr (Some ([], 0), ctr)
      | [_] \<Rightarrow> Inl Out_of_bounds
      | b0 # b1 # rest \<Rightarrow>
          let block_len = unat (get_le16 [b0, b1]) in
          if length rest < block_len + AUTHTAG_LENGTH then Inr (Some ([], 0), ctr)
          else
            (case decrypt_chacha C (take block_len rest) key [b0, b1]
                    (take AUTHTAG_LENGTH (drop block_len rest)) (counter_nonce ctr) of
               None \<Rightarrow> Inr (None, ctr)
             | Some plain \<Rightarrow>
                 bind_res (decrypt_loop C key (ctr + 1) (drop (block_len + AUTHTAG_LENGTH) rest)) (\<lambda>(r, ctr').
                   case r of
                     None \<Rightarrow> Inr (None, ctr')
                   | Some (tail, consumed) \<Rightarrow>
                       Inr (Some (plain @ tail, 2 + block_len + AUTHTAG_LENGTH + consumed), ctr'))))"
  by pat_completeness auto
termination
  by (relation "measure (\<lambda>(C, key, ctr, buf). length buf)") (auto simp: AUTHTAG_LENGTH_def)

declare decrypt_loop.simps [simp del]

definition decrypt :: "crypto \<Rightarrow> bytes \<Rightarrow> cipher_ctx \<Rightarrow> (int \<times> bytes option \<times> cipher_ctx) res" where
  "decrypt C ciphertext cctx =
     (if length ciphertext < 2 then Inr (-1, None, cctx)
      else
        let cctx1 = cctx\<lparr>c_decryption_counter_prev := c_decryption_counter cctx\<rparr> in
        bind_res (decrypt_loop C (c_decryption_key cctx) (c_decryption_counter cctx1) ciphertext) (\<lambda>(r, ctr).
          case r of
            None \<Rightarrow> Inr (-1, None, cctx1\<lparr>c_errmsg := Some Decryption_failed,
                                      c_decryption_counter := c_decryption_counter_prev cctx1\<rparr>)
          | Some (plain, consumed) \<Rightarrow>
              Inr (int consumed, Some plain, cctx1\<lparr>c_decryption_counter := ctr\<rparr>)))"

definition pair_encrypt_rollback :: "cipher_ctx \<Rightarrow> cipher_ctx" where
  "pair_encrypt_rollback cctx = cctx\<lparr>c_encryption_counter := c_encryption_counter_prev cctx\<rparr>"

definition pair_decrypt_rollback :: "cipher_ctx \<Rightarrow> cipher_ctx" where
  "pair_decrypt_rollback cctx = cctx\<lparr>c_decryption_counter := c_decryption_counter_prev cctx\<rparr>"

subsection \<open>Blocks\<close>

text \<open>The cut of a plain text into blocks, as a reference for the two loops.\<close>

function blocks :: "bytes \<Rightarrow> bytes list" where
  "blocks plain =
     (if plain = [] then [] else take ENCRYPTED_LEN_MAX plain # blocks (drop ENCRYPTED_LEN_MAX plain))"
  by pat_completeness auto
termination
  by (relation "measure length") (auto simp: ENCRYPTED_LEN_MAX_def)

declare blocks.simps [simp del]

lemma blocks_Nil [simp]: "blocks [] = []"
  by (simp add: blocks.simps)

lemma concat_blocks: "concat (blocks plain) = plain"
proof (induction plain rule: blocks.induct)
  case (1 plain)
  then show ?case by (cases "plain = []") (simp_all add: blocks.simps [of plain])
qed

lemma length_blocks: "length (blocks plain) = (length plain + 1023) div 1024"
proof (induction plain rule: blocks.induct)
  case (1 plain)
  show ?case
  proof (cases "plain = []")
    case False
    then have "0 < length plain" by simp
    then have "(length plain + 1023) div 1024 = Suc ((length plain - 1024 + 1023) div 1024)"
      by (cases "length plain \<le> 1024") (simp_all add: div_if)
    with False 1 show ?thesis by (simp add: blocks.simps [of plain] ENCRYPTED_LEN_MAX_def)
  qed simp
qed

lemma blocks_bounds: "b \<in> set (blocks plain) \<Longrightarrow> b \<noteq> [] \<and> length b \<le> 1024"
proof (induction plain rule: blocks.induct)
  case (1 plain)
  then show ?case
    by (cases "plain = []") (auto simp: blocks.simps [of plain] ENCRYPTED_LEN_MAX_def)
qed

text \<open>The cipher text of a list of blocks.\<close>

fun seal_blocks :: "crypto \<Rightarrow> bytes \<Rightarrow> u64 \<Rightarrow> bytes list \<Rightarrow> bytes" where
  "seal_blocks C key ctr [] = []"
| "seal_blocks C key ctr (b # bs) = the (cipher_block C key ctr b) @ seal_blocks C key (ctr + 1) bs"

lemma cipher_block_ok:
  assumes "aead_ok C"
  obtains c t where "cipher_block C key ctr plain = Some (put_le16 (of_nat (length plain)) @ c @ t)"
    and "length c = length plain" and "length t = 16"
    and "decrypt_chacha C c key (put_le16 (of_nat (length plain))) t (counter_nonce ctr) = Some plain"
proof -
  obtain c t where "aead_seal C key (counter_nonce ctr) (put_le16 (of_nat (length plain))) plain = Some (c, t)"
    "length c = length plain" "length t = 16"
    "aead_open C key (counter_nonce ctr) (put_le16 (of_nat (length plain))) c t = Some plain"
    by (rule aead_seal_open [OF assms])
  then show thesis
    by (intro that [of c t]) (simp_all add: cipher_block_def encrypt_chacha_def decrypt_chacha_def Let_def)
qed

lemma the_cipher_block:
  assumes "aead_ok C"
  shows "cipher_block C key ctr plain = Some (the (cipher_block C key ctr plain))"
    and "length (the (cipher_block C key ctr plain)) = length plain + 18"
proof -
  obtain c t where "cipher_block C key ctr plain = Some (put_le16 (of_nat (length plain)) @ c @ t)"
    "length c = length plain" "length t = 16"
    by (rule cipher_block_ok [OF assms])
  then show "cipher_block C key ctr plain = Some (the (cipher_block C key ctr plain))"
    and "length (the (cipher_block C key ctr plain)) = length plain + 18"
    by (simp_all add: le16.length_enc)
qed

lemma length_seal_blocks:
  "aead_ok C \<Longrightarrow> length (seal_blocks C key ctr bs) = length (concat bs) + 18 * length bs"
  by (induction bs arbitrary: ctr) (simp_all add: the_cipher_block(2))

lemma seal_blocks_append:
  "seal_blocks C key ctr (as @ bs) = seal_blocks C key ctr as @ seal_blocks C key (ctr + of_nat (length as)) bs"
  by (induction as arbitrary: ctr) (simp_all add: algebra_simps)

text \<open>The number of blocks that \<open>encrypt\<close> computes is the number of blocks of the cut.\<close>

lemma nblocks_eq: "plain \<noteq> [] \<Longrightarrow> 1 + (length plain - 1) div ENCRYPTED_LEN_MAX = length (blocks plain)"
  unfolding length_blocks ENCRYPTED_LEN_MAX_def by (cases "length plain") auto

lemma encrypt_loop_blocks:
  assumes "aead_ok C"
  shows "plain \<noteq> [] \<Longrightarrow> encrypt_loop C key (length (blocks plain)) ctr plain =
     (Some (seal_blocks C key ctr (blocks plain)), ctr + of_nat (length (blocks plain)))"
proof (induction plain arbitrary: ctr rule: blocks.induct)
  case (1 plain)
  let ?rest = "drop ENCRYPTED_LEN_MAX plain"
  have blocks: "blocks plain = take ENCRYPTED_LEN_MAX plain # blocks ?rest"
    using 1(2) by (simp add: blocks.simps [of plain])
  show ?case
  proof (cases "?rest = []")
    case True
    then show ?thesis
      unfolding blocks using the_cipher_block(1) [OF assms] by (auto split: option.split)
  next
    case False
    then have "blocks ?rest \<noteq> []" by (simp add: blocks.simps [of ?rest])
    then show ?thesis
      unfolding blocks using the_cipher_block(1) [OF assms, of key ctr "take ENCRYPTED_LEN_MAX plain"]
        1(1) [OF 1(2) False, of "ctr + 1"]
      by (auto split: option.split simp: algebra_simps)
  qed
qed

lemma encrypt_eq:
  assumes "aead_ok C" and "plain \<noteq> []"
  shows "encrypt C plain cctx =
    (int (length plain),
     Some (seal_blocks C (c_encryption_key cctx) (c_encryption_counter cctx) (blocks plain),
           length (seal_blocks C (c_encryption_key cctx) (c_encryption_counter cctx) (blocks plain))),
     cctx\<lparr>c_encryption_counter_prev := c_encryption_counter cctx,
          c_encryption_counter := c_encryption_counter cctx + of_nat (length (blocks plain))\<rparr>)"
  using assms encrypt_loop_blocks [OF assms]
  by (simp add: encrypt_def nblocks_eq Let_def length_seal_blocks concat_blocks AUTHTAG_LENGTH_def
      del: One_nat_def)

subsection \<open>Decrypting a stream of blocks\<close>

lemma decrypt_loop_Nil [simp]: "decrypt_loop C key ctr [] = Inr (Some ([], 0), ctr)"
  by (simp add: decrypt_loop.simps)

lemma put_le16_cases:
  obtains b0 b1 where "put_le16 w = [b0, b1]" and "get_le16 [b0, b1] = w"
proof -
  have b: "put_le16 w = [ucast w, ucast (drop_bit 8 w)]"
    by (simp add: put_le16_def)
  show thesis
    by (rule that [OF b]) (simp flip: b add: le16.dec_enc)
qed

lemma decrypt_loop_block:
  assumes "aead_ok C" and "length b \<le> 1024"
  shows "decrypt_loop C key ctr (the (cipher_block C key ctr b) @ rest) =
    bind_res (decrypt_loop C key (ctr + 1) rest) (\<lambda>(r, ctr'). Inr
      (map_option (\<lambda>(more, consumed). (b @ more, length b + 18 + consumed)) r, ctr'))"
proof -
  obtain c t where blk: "cipher_block C key ctr b = Some (put_le16 (of_nat (length b)) @ c @ t)"
    and len: "length c = length b" "length t = 16"
    and opn: "decrypt_chacha C c key (put_le16 (of_nat (length b))) t (counter_nonce ctr) = Some b"
    by (rule cipher_block_ok [OF assms(1)])
  obtain b0 b1 where le: "put_le16 (of_nat (length b)) = [b0, b1]" "get_le16 [b0, b1] = (of_nat (length b) :: u16)"
    by (rule put_le16_cases)
  have unat: "unat (of_nat (length b) :: u16) = length b"
    using assms(2) by (simp add: unat_of_nat)
  show ?thesis
    using opn unfolding blk le(1)
    by (subst decrypt_loop.simps)
      (simp add: le(2) unat len AUTHTAG_LENGTH_def Let_def,
       cases "decrypt_loop C key (ctr + 1) rest", auto simp: le(2) unat AUTHTAG_LENGTH_def split: option.split)
qed

text \<open>In front of an incomplete block the loop stops; of a block, a proper prefix of at least 2 bytes.\<close>

lemma decrypt_loop_incomplete:
  assumes "aead_ok C" and "length b \<le> 1024" and "the (cipher_block C key ctr b) = p @ q" and "q \<noteq> []" and "length p \<noteq> 1"
  shows "decrypt_loop C key ctr p = Inr (Some ([], 0), ctr)"
proof (cases "p = []")
  case False
  with assms(5) obtain b0 b1 r where p: "p = b0 # b1 # r"
    by (metis One_nat_def length_Cons list.size(3) neq_Nil_conv)
  obtain c t where blk: "the (cipher_block C key ctr b) = put_le16 (of_nat (length b)) @ c @ t"
    and len: "length c = length b" "length t = 16"
    by (rule cipher_block_ok [OF assms(1), of key ctr b]) simp
  obtain a0 a1 where le: "put_le16 (of_nat (length b)) = [a0, a1]" "get_le16 [a0, a1] = (of_nat (length b) :: u16)"
    by (rule put_le16_cases)
  have "a0 = b0 \<and> a1 = b1" and ct: "c @ t = r @ q"
    using assms(3) blk le(1) p by auto
  moreover have "unat (of_nat (length b) :: u16) = length b"
    using assms(2) by (simp add: unat_of_nat)
  moreover have "length r < length b + 16"
    using arg_cong [OF ct, of length] len assms(4) by (cases q) auto
  ultimately show ?thesis
    using le(2) by (subst decrypt_loop.simps) (simp add: p AUTHTAG_LENGTH_def Let_def)
qed simp

lemma decrypt_loop_seal_blocks:
  assumes "aead_ok C"
  shows "(\<forall>b \<in> set bs. length b \<le> 1024) \<Longrightarrow>
    decrypt_loop C key ctr (seal_blocks C key ctr bs @ rest) =
    bind_res (decrypt_loop C key (ctr + of_nat (length bs)) rest) (\<lambda>(r, ctr'). Inr
      (map_option (\<lambda>(more, consumed). (concat bs @ more, length (seal_blocks C key ctr bs) + consumed)) r, ctr'))"
proof (induction bs arbitrary: ctr)
  case Nil
  have "map_option (\<lambda>(x, y). (x, y)) r = r" for r :: "(bytes \<times> nat) option"
    by (cases r) auto
  then show ?case by (cases "decrypt_loop C key ctr rest") (auto simp: option.map_ident)
next
  case (Cons b bs)
  from Cons.prems have b: "length b \<le> 1024" and bs: "\<forall>b \<in> set bs. length b \<le> 1024" by auto
  show ?case
    unfolding seal_blocks.simps append_assoc decrypt_loop_block [OF assms b] Cons.IH [OF bs]
    by (cases "decrypt_loop C key (ctr + 1 + of_nat (length bs)) rest")
      (auto simp: ac_simps the_cipher_block(2) [OF assms] option.map_comp comp_def split_def)
qed

lemma length_cipher_block_pos: "aead_ok C \<Longrightarrow> the (cipher_block C key ctr b) \<noteq> []"
  using the_cipher_block(2) [of C key ctr b] by auto

text \<open>Any prefix of a stream is a number of blocks and a proper prefix of the next one.\<close>

lemma seal_blocks_prefix:
  assumes "aead_ok C"
  shows "p @ q = seal_blocks C key ctr bs \<Longrightarrow>
    \<exists>k r. k \<le> length bs \<and> p = seal_blocks C key ctr (take k bs) @ r \<and>
      (if k = length bs then r = [] \<and> q = []
       else \<exists>s. s \<noteq> [] \<and> the (cipher_block C key (ctr + of_nat k) (bs ! k)) = r @ s)"
proof (induction bs arbitrary: ctr p)
  case Nil
  then show ?case by simp
next
  case (Cons b bs)
  let ?blk = "the (cipher_block C key ctr b)"
  show ?case
  proof (cases "length p < length ?blk")
    case True
    have "p = take (length p) (?blk @ seal_blocks C key (ctr + 1) bs)"
      using arg_cong [OF Cons.prems, of "take (length p)"] by simp
    with True have split: "p = take (length p) ?blk" by simp
    have "?blk = p @ drop (length p) ?blk"
      by (subst split) (rule append_take_drop_id [symmetric])
    moreover have "drop (length p) ?blk \<noteq> []" using True by simp
    ultimately obtain s where "?blk = p @ s" "s \<noteq> []" by blast
    then show ?thesis by (intro exI [of _ 0] exI [of _ p]) auto
  next
    case False
    then have "take (length ?blk) p = ?blk"
      using arg_cong [OF Cons.prems, of "take (length ?blk)"] by simp
    then obtain p' where p: "p = ?blk @ p'"
      by (metis append_take_drop_id)
    with Cons.prems have "p' @ q = seal_blocks C key (ctr + 1) bs" by simp
    note p = p this
    from Cons.IH [OF p(2)] obtain k r where "k \<le> length bs"
      "p' = seal_blocks C key (ctr + 1) (take k bs) @ r"
      "if k = length bs then r = [] \<and> q = []
       else \<exists>s. s \<noteq> [] \<and> the (cipher_block C key (ctr + 1 + of_nat k) (bs ! k)) = r @ s"
      by blast
    then show ?thesis
      by (intro exI [of _ "Suc k"] exI [of _ r]) (simp add: p(1) algebra_simps split: if_splits)
  qed
qed

text \<open>
  What \<open>decrypt_loop\<close> makes of a prefix of a stream that does not break off one byte into a block.
\<close>

lemma decrypt_loop_prefix:
  assumes "aead_ok C" and "\<forall>b \<in> set bs. length b \<le> 1024"
    and "k \<le> length bs" and "p = seal_blocks C key ctr (take k bs) @ r"
    and "if k = length bs then r = [] else \<exists>s. s \<noteq> [] \<and> the (cipher_block C key (ctr + of_nat k) (bs ! k)) = r @ s"
    and "length r \<noteq> 1"
  shows "decrypt_loop C key ctr p =
    Inr (Some (concat (take k bs), length (seal_blocks C key ctr (take k bs))), ctr + of_nat k)"
proof -
  have "decrypt_loop C key (ctr + of_nat k) r = Inr (Some ([], 0), ctr + of_nat k)"
  proof (cases "k = length bs")
    case False
    then have "length (bs ! k) \<le> 1024" using assms(2,3) by simp
    with False show ?thesis
      using assms(5,6) decrypt_loop_incomplete [OF assms(1)] by metis
  qed (use assms(5) in simp)
  moreover have "\<forall>b \<in> set (take k bs). length b \<le> 1024"
    using assms(2) by (meson in_set_takeD)
  ultimately show ?thesis
    unfolding assms(4) using assms(3)
    by (subst decrypt_loop_seal_blocks [OF assms(1)]) (simp_all add: min_absorb2)
qed

lemma decrypt_prefix:
  assumes "aead_ok C" and "\<forall>b \<in> set bs. length b \<le> 1024"
    and "p @ q = seal_blocks C (c_decryption_key cctx) (c_decryption_counter cctx) bs"
    and "2 \<le> length p"
    and "\<forall>k \<le> length bs. length p \<noteq> length (seal_blocks C (c_decryption_key cctx) (c_decryption_counter cctx) (take k bs)) + 1"
  obtains k r where "k \<le> length bs"
    and "p = seal_blocks C (c_decryption_key cctx) (c_decryption_counter cctx) (take k bs) @ r"
    and "q = [] \<Longrightarrow> k = length bs \<and> r = []"
    and "decrypt C p cctx = Inr (int (length p - length r), Some (concat (take k bs)),
           cctx\<lparr>c_decryption_counter_prev := c_decryption_counter cctx,
                c_decryption_counter := c_decryption_counter cctx + of_nat k\<rparr>)"
proof -
  let ?key = "c_decryption_key cctx" and ?ctr = "c_decryption_counter cctx"
  obtain k r where k: "k \<le> length bs" and p: "p = seal_blocks C ?key ?ctr (take k bs) @ r"
    and last: "if k = length bs then r = [] \<and> q = []
               else \<exists>s. s \<noteq> [] \<and> the (cipher_block C ?key (?ctr + of_nat k) (bs ! k)) = r @ s"
    using seal_blocks_prefix [OF assms(1,3)] by blast
  have r: "length r \<noteq> 1"
    using assms(5) k p by auto
  have "decrypt_loop C ?key ?ctr p =
      Inr (Some (concat (take k bs), length (seal_blocks C ?key ?ctr (take k bs))), ?ctr + of_nat k)"
    by (rule decrypt_loop_prefix [OF assms(1,2) k p _ r]) (use last in \<open>auto split: if_splits\<close>)
  then have dec: "decrypt C p cctx = Inr (int (length p - length r), Some (concat (take k bs)),
           cctx\<lparr>c_decryption_counter_prev := ?ctr, c_decryption_counter := ?ctr + of_nat k\<rparr>)"
    using assms(4) by (simp add: decrypt_def Let_def p)
  have "k = length bs" if q: "q = []"
  proof (rule ccontr)
    assume "k \<noteq> length bs"
    with k have lt: "k < length bs" by simp
    with last obtain s where s: "s \<noteq> []" "the (cipher_block C ?key (?ctr + of_nat k) (bs ! k)) = r @ s"
      by auto
    have "take k bs @ bs ! k # drop (Suc k) bs = bs" by (rule id_take_nth_drop [OF lt, symmetric])
    then have "seal_blocks C ?key ?ctr bs = seal_blocks C ?key ?ctr (take k bs)
        @ (r @ s) @ seal_blocks C ?key (?ctr + of_nat k + 1) (drop (Suc k) bs)"
      using seal_blocks_append [of C ?key ?ctr "take k bs" "bs ! k # drop (Suc k) bs"] lt s(2)
      by (simp add: min_absorb2 algebra_simps)
    with assms(3) p q s(1) show False by simp
  qed
  with last have "k = length bs \<and> r = []" if "q = []" using that by (simp split: if_splits)
  from that [OF k p this dec] show thesis .
qed

lemma get_le16_pair: "length hdr = 2 \<Longrightarrow> \<exists>b0 b1. hdr = [b0, b1]"
  by (auto simp: length_Suc_conv numeral_2_eq_2)

subsection \<open>Properties\<close>

lemma encrypt_decrypt:
  assumes "aead_ok C" and "plain \<noteq> []"
    and "c_decryption_key rcv = c_encryption_key sender"
    and "c_decryption_counter rcv = c_encryption_counter sender"
  shows "\<exists>c sender' rcv'. encrypt C plain sender = (int (length plain), Some (c, length c), sender')
     \<and> length c = length plain + 18 * ((length plain + 1023) div 1024)
     \<and> decrypt C c rcv = Inr (int (length c), Some plain, rcv')
     \<and> c_decryption_counter rcv' = c_encryption_counter sender'
     \<and> c_decryption_key rcv' = c_encryption_key sender'"
proof -
  let ?c = "seal_blocks C (c_decryption_key rcv) (c_decryption_counter rcv) (blocks plain)"
  have len: "length ?c = length plain + 18 * ((length plain + 1023) div 1024)"
    by (simp add: length_seal_blocks [OF assms(1)] concat_blocks length_blocks)
  have "0 < length plain" using assms(2) by simp
  then have "1 \<le> (length plain + 1023) div 1024" by linarith
  with len have two: "\<not> length ?c < 2" by linarith
  have "decrypt_loop C (c_decryption_key rcv) (c_decryption_counter rcv) ?c =
      Inr (Some (plain, length ?c), c_decryption_counter rcv + of_nat (length (blocks plain)))"
    using decrypt_loop_seal_blocks [OF assms(1), of "blocks plain" _ _ "[]"] blocks_bounds
    by (simp add: concat_blocks)
  then show ?thesis
    using encrypt_eq [OF assms(1,2), of sender] assms(3,4) len two by (simp add: decrypt_def Let_def)
qed

text \<open>C6: Encrypting and decrypting a message. If the receiver's decryption key and counter are the
  sender's encryption key and counter, then every plain text that is not empty comes back, all of the
  cipher text is consumed, the announced length of the cipher text is its length (18 bytes for every
  block of 1024), and the two counters agree again afterwards.\<close>

theorem cipher_roundtrip:
  assumes "aead_ok C" and "plain \<noteq> []"
    and "c_decryption_key rcv = c_encryption_key sender"
    and "c_decryption_counter rcv = c_encryption_counter sender"
  shows "\<exists>c sender' rcv'. encrypt C plain sender = (int (length plain), Some (c, length c), sender')
     \<and> length c = length plain + 18 * ((length plain + 1023) div 1024)
     \<and> decrypt C c rcv = Inr (int (length c), Some plain, rcv')
     \<and> c_decryption_counter rcv' = c_encryption_counter sender'
     \<and> c_decryption_key rcv' = c_encryption_key sender'"
  by (rule encrypt_decrypt [OF assms])

text \<open>A message that cannot be encrypted, or a buffer that does not verify, leaves the counter where
  it was, and rolling a success back restores it: the next call uses the nonces again.\<close>

lemma cipher_failure_and_rollback:
  "(case encrypt C plain cctx of
      (ret, None, cctx') \<Rightarrow> ret = -1 \<and> c_encryption_counter cctx' = c_encryption_counter cctx
    | (ret, Some (c, n), cctx') \<Rightarrow> ret = int (length plain)
        \<and> c_encryption_counter (pair_encrypt_rollback cctx') = c_encryption_counter cctx
        \<and> encrypt C plain (pair_encrypt_rollback cctx') = (ret, Some (c, n), cctx'))
   \<and> (case decrypt C buf cctx of
      Inl f \<Rightarrow> f = Out_of_bounds
    | Inr (ret, None, cctx') \<Rightarrow> ret = -1 \<and> c_decryption_counter cctx' = c_decryption_counter cctx
    | Inr (ret, Some plain, cctx') \<Rightarrow> 0 \<le> ret
        \<and> c_decryption_counter (pair_decrypt_rollback cctx') = c_decryption_counter cctx
        \<and> decrypt C buf (pair_decrypt_rollback cctx') = Inr (ret, Some plain, cctx'))"
proof -
  have "decrypt_loop C key ctr buf = Inl f \<Longrightarrow> f = Out_of_bounds" for key ctr f
  proof (induction C key ctr buf rule: decrypt_loop.induct)
    case (1 C key ctr buf)
    from 1(2) show ?case
      by (subst (asm) decrypt_loop.simps)
        (auto simp: Let_def split: list.splits if_splits option.splits elim!: bind_res.elims dest: 1(1))
  qed
  note dec_fault = this
  let ?n = "1 + (length plain - 1) div ENCRYPTED_LEN_MAX"
  obtain e ctr where e: "encrypt_loop C (c_encryption_key cctx) ?n (c_encryption_counter cctx) plain = (e, ctr)"
    by (cases "encrypt_loop C (c_encryption_key cctx) ?n (c_encryption_counter cctx) plain")
  show ?thesis
    using dec_fault [of "c_decryption_key cctx" "c_decryption_counter cctx"] e
    by (cases e; cases "decrypt_loop C (c_decryption_key cctx) (c_decryption_counter cctx) buf")
      (auto simp: encrypt_def decrypt_def Let_def pair_encrypt_rollback_def pair_decrypt_rollback_def
        simp del: encrypt_loop.simps One_nat_def split: option.split)
qed

text \<open>
  A block of a buffer with the plain text that it opens to, and a list of them under consecutive nonces.
\<close>

definition opened_block :: "crypto \<Rightarrow> bytes \<Rightarrow> u64 \<Rightarrow> bytes \<times> bytes \<Rightarrow> bool" where
  "opened_block C key ctr = (\<lambda>(blk, plain). \<exists>hdr c tag. blk = hdr @ c @ tag \<and> length hdr = 2
     \<and> length c = unat (get_le16 hdr) \<and> length tag = 16
     \<and> decrypt_chacha C c key hdr tag (counter_nonce ctr) = Some plain)"

fun opened_blocks :: "crypto \<Rightarrow> bytes \<Rightarrow> u64 \<Rightarrow> (bytes \<times> bytes) list \<Rightarrow> bool" where
  "opened_blocks C key ctr [] \<longleftrightarrow> True"
| "opened_blocks C key ctr (b # bs) \<longleftrightarrow> opened_block C key ctr b \<and> opened_blocks C key (ctr + 1) bs"

lemma take_take_drop: "take n xs @ take m (drop n xs) @ drop (n + m) xs = xs"
  by (simp add: add.commute [of n m] drop_drop [symmetric] del: drop_drop)

lemma length_take_take: "\<not> length xs < n + m \<Longrightarrow> length (take n xs @ take m (drop n xs)) = n + m"
  by simp

lemma opened_blockI:
  assumes "\<not> length rest < unat (get_le16 [b0, b1]) + AUTHTAG_LENGTH"
    and "decrypt_chacha C (take (unat (get_le16 [b0, b1])) rest) key [b0, b1]
      (take AUTHTAG_LENGTH (drop (unat (get_le16 [b0, b1])) rest)) (counter_nonce ctr) = Some p"
  shows "opened_block C key ctr ([b0, b1] @ take (unat (get_le16 [b0, b1])) rest
      @ take AUTHTAG_LENGTH (drop (unat (get_le16 [b0, b1])) rest), p)"
proof -
  have "length (take n xs) = n \<and> length (take AUTHTAG_LENGTH (drop n xs)) = 16"
    if "\<not> length xs < n + AUTHTAG_LENGTH" for n and xs :: bytes
    using that by (simp add: AUTHTAG_LENGTH_def)
  moreover have "length [b0, b1] = 2" by simp
  ultimately show ?thesis using assms unfolding opened_block_def prod.case by blast
qed

lemma decrypt_loop_opened:
  "decrypt_loop C key ctr buf = Inr (Some (plain, consumed), ctr') \<Longrightarrow>
     \<exists>bs rest. opened_blocks C key ctr bs \<and> buf = concat (map fst bs) @ rest \<and> plain = concat (map snd bs)
       \<and> consumed = length (concat (map fst bs)) \<and> ctr' = ctr + of_nat (length bs)"
proof (induction C key ctr buf arbitrary: plain consumed ctr' rule: decrypt_loop.induct)
  case (1 C key ctr buf)
  show ?case
  proof (cases "buf = [] \<or> (\<exists>b0 b1 rest. buf = b0 # b1 # rest \<and> length rest < unat (get_le16 [b0, b1]) + AUTHTAG_LENGTH)")
    case True
    with 1(2) have "plain = [] \<and> consumed = 0 \<and> ctr' = ctr"
      by (subst (asm) decrypt_loop.simps) (auto simp: Let_def split: if_splits)
    then show ?thesis by (intro exI [of _ "[]"] exI [of _ buf]) simp
  next
    case False
    then obtain b0 b1 rest where buf: "buf = b0 # b1 # rest"
      and long: "\<not> length rest < unat (get_le16 [b0, b1]) + AUTHTAG_LENGTH"
      using 1(2) by (cases buf rule: remdups_adj.cases) (auto simp: decrypt_loop.simps)
    let ?n = "unat (get_le16 [b0, b1])"
    let ?c = "take ?n rest" and ?t = "take AUTHTAG_LENGTH (drop ?n rest)" and ?rest = "drop (?n + AUTHTAG_LENGTH) rest"
    from 1(2) long obtain p q m where dec: "decrypt_chacha C ?c key [b0, b1] ?t (counter_nonce ctr) = Some p"
      and rec: "decrypt_loop C key (ctr + 1) ?rest = Inr (Some (q, m), ctr')"
      and res: "plain = p @ q" "consumed = 2 + ?n + AUTHTAG_LENGTH + m"
      by (subst (asm) decrypt_loop.simps)
        (auto simp: buf Let_def bind_res_eq_Inr split: option.splits if_splits)
    from 1(1) [OF buf refl refl long dec rec]
    obtain bs r where "opened_blocks C key (ctr + 1) bs" "?rest = concat (map fst bs) @ r"
      "q = concat (map snd bs)" "m = length (concat (map fst bs))" "ctr' = ctr + 1 + of_nat (length bs)"
      by blast
    moreover have "opened_block C key ctr ([b0, b1] @ ?c @ ?t, p)"
      by (rule opened_blockI [OF long dec])
    moreover have "rest = ?c @ ?t @ ?rest"
      by (rule take_take_drop [symmetric])
    moreover have "length (?c @ ?t) = ?n + AUTHTAG_LENGTH"
      using long by (rule length_take_take)
    ultimately show ?thesis
      using res by (intro exI [of _ "([b0, b1] @ ?c @ ?t, p) # bs"] exI [of _ r]) (simp add: buf)
  qed
qed

text \<open>C25: Integrity. Whatever the library does, the plain text that \<open>decrypt\<close> returns is the
  concatenation of what the authenticated decryption of whole blocks yields, in the order of the
  buffer, under consecutive nonces from the context's counter, and the return value counts exactly the
  bytes of these blocks.\<close>

theorem decrypt_integrity:
  assumes "decrypt C buf cctx = Inr (ret, Some plain, cctx')"
  shows "\<exists>bs rest. opened_blocks C (c_decryption_key cctx) (c_decryption_counter cctx) bs
     \<and> buf = concat (map fst bs) @ rest \<and> plain = concat (map snd bs)
     \<and> ret = int (length (concat (map fst bs)))
     \<and> c_decryption_counter cctx' = c_decryption_counter cctx + of_nat (length bs)"
proof -
  from assms obtain consumed where
    "decrypt_loop C (c_decryption_key cctx) (c_decryption_counter cctx) buf =
       Inr (Some (plain, consumed), c_decryption_counter cctx')" "ret = int consumed"
    by (auto simp: decrypt_def Let_def bind_res_eq_Inr split: if_splits option.splits)
  then show ?thesis using decrypt_loop_opened by metis
qed

text \<open>The two ends of a channel. A cipher made for channel 0 (control) or 1 (events) by the
  controller and one made for channel 2 or 3 by the accessory, from the same shared secret, have each
  other's keys; no other channel number gives a cipher.\<close>

theorem cipher_new_mirror:
  assumes "kdf_ok C" and "channel \<in> {0, 1}"
  shows "\<exists>a b. cipher_new C ty channel secret = Inr (Some a)
     \<and> cipher_new C ty' (channel + 2) secret = Inr (Some b)
     \<and> c_encryption_key a = c_decryption_key b \<and> c_decryption_key a = c_encryption_key b
     \<and> c_encryption_counter a = c_decryption_counter b \<and> c_decryption_counter a = c_encryption_counter b
     \<and> length (c_encryption_key a) = 32
     \<and> (\<forall>other. other \<notin> {0, 1, 2, 3} \<longrightarrow> cipher_new C ty other secret = Inr None)"
proof -
  have hkdf: "\<exists>okm. hkdf_extract_expand C 32 secret key = Inr (Some okm) \<and> length okm = 32"
    if "key \<in> {PAIR_CONTROL_WRITE, PAIR_CONTROL_READ, PAIR_EVENTS_WRITE, PAIR_EVENTS_READ}" for key
    using that hkdf_some [OF assms(1), of key] by auto
  from hkdf [of PAIR_CONTROL_WRITE] hkdf [of PAIR_CONTROL_READ] hkdf [of PAIR_EVENTS_WRITE] hkdf [of PAIR_EVENTS_READ]
  show ?thesis
    using assms(2) by (auto simp: cipher_new_def channel_keys_def)
qed

lemma decrypt_loop_opened_block:
  assumes "opened_block C key ctr (blk, plain)"
  shows "decrypt_loop C key ctr (blk @ rest) = Inl f \<longleftrightarrow> decrypt_loop C key (ctr + 1) rest = Inl f"
proof -
  from assms obtain b0 b1 c tag where blk: "blk = [b0, b1] @ c @ tag" and len: "length c = unat (get_le16 [b0, b1])"
      "length tag = 16" and opn: "decrypt_chacha C c key [b0, b1] tag (counter_nonce ctr) = Some plain"
    unfolding opened_block_def prod.case using get_le16_pair by metis
  have "take (length c) (c @ tag @ rest) = c" "take AUTHTAG_LENGTH (drop (length c) (c @ tag @ rest)) = tag"
    "drop (length c + AUTHTAG_LENGTH) (c @ tag @ rest) = rest"
    "\<not> length (c @ tag @ rest) < length c + AUTHTAG_LENGTH"
    using len(2) by (simp_all add: AUTHTAG_LENGTH_def)
  then show ?thesis
    using opn unfolding blk
    by (subst decrypt_loop.simps)
      (cases "decrypt_loop C key (ctr + 1) rest",
       auto simp: Let_def len(1) [symmetric] simp del: take_append drop_append length_append split: option.splits)
qed

lemma decrypt_loop_fault_inv:
  "decrypt_loop C key ctr buf = Inl f \<Longrightarrow>
     f = Out_of_bounds \<and> (\<exists>bs x. opened_blocks C key ctr bs \<and> buf = concat (map fst bs) @ [x])"
proof (induction C key ctr buf rule: decrypt_loop.induct)
  case (1 C key ctr buf)
  show ?case
  proof (cases "length buf < 2")
    case True
    with 1(2) obtain x where "buf = [x]" "f = Out_of_bounds"
      by (cases buf rule: remdups_adj.cases) (auto simp: decrypt_loop.simps)
    then show ?thesis by (intro conjI exI [of _ "[]"] exI [of _ x]) simp_all
  next
    case False
    then obtain b0 b1 rest where buf: "buf = b0 # b1 # rest"
      by (cases buf rule: remdups_adj.cases) auto
    let ?n = "unat (get_le16 [b0, b1])"
    let ?c = "take ?n rest" and ?t = "take AUTHTAG_LENGTH (drop ?n rest)" and ?rest = "drop (?n + AUTHTAG_LENGTH) rest"
    from 1(2) obtain p where long: "\<not> length rest < ?n + AUTHTAG_LENGTH"
      and dec: "decrypt_chacha C ?c key [b0, b1] ?t (counter_nonce ctr) = Some p"
      and rec: "decrypt_loop C key (ctr + 1) ?rest = Inl f"
      by (subst (asm) decrypt_loop.simps)
        (auto simp: buf Let_def split: option.splits if_splits elim!: bind_res.elims)
    from 1(1) [OF buf refl refl long dec rec]
    obtain bs x where ih: "f = Out_of_bounds" "opened_blocks C key (ctr + 1) bs" "?rest = concat (map fst bs) @ [x]"
      by blast
    have "opened_block C key ctr ([b0, b1] @ ?c @ ?t, p)"
      by (rule opened_blockI [OF long dec])
    moreover have "buf = ([b0, b1] @ ?c @ ?t) @ ?rest"
      using take_take_drop [of ?n rest AUTHTAG_LENGTH] by (simp add: buf)
    ultimately show ?thesis
      using ih by (intro conjI exI [of _ "([b0, b1] @ ?c @ ?t, p) # bs"] exI [of _ x]) simp_all
  qed
qed

lemma decrypt_loop_one_byte:
  "opened_blocks C key ctr bs \<Longrightarrow> decrypt_loop C key ctr (concat (map fst bs) @ [x]) = Inl Out_of_bounds"
proof (induction bs arbitrary: ctr)
  case Nil
  show ?case by (simp add: decrypt_loop.simps)
next
  case (Cons b bs)
  obtain blk p where "b = (blk, p)" by (cases b)
  with Cons show ?case using decrypt_loop_opened_block [of C key ctr blk p] by simp
qed

text \<open>The over-read. \<open>decrypt\<close> reads outside its buffer exactly when one or more blocks verify and
  a single byte follows them, the first half of the next block's length.\<close>

lemma decrypt_overread_iff:
  "decrypt C buf cctx = Inl f \<longleftrightarrow> f = Out_of_bounds \<and>
     (\<exists>bs x. bs \<noteq> [] \<and> opened_blocks C (c_decryption_key cctx) (c_decryption_counter cctx) bs
        \<and> buf = concat (map fst bs) @ [x])"
proof -
  have loop: "decrypt C buf cctx = Inl f \<longleftrightarrow> 2 \<le> length buf
      \<and> decrypt_loop C (c_decryption_key cctx) (c_decryption_counter cctx) buf = Inl f"
    by (cases "decrypt_loop C (c_decryption_key cctx) (c_decryption_counter cctx) buf")
      (auto simp: decrypt_def Let_def split: option.splits)
  have "2 \<le> length (concat (map fst bs) @ [x])"
    if "bs \<noteq> []" "opened_blocks C key ctr bs" for bs x key ctr
    using that by (cases bs) (auto simp: opened_block_def)
  note two = this
  show ?thesis
    unfolding loop
  proof (intro iffI; elim conjE exE)
    assume "2 \<le> length buf"
      and "decrypt_loop C (c_decryption_key cctx) (c_decryption_counter cctx) buf = Inl f"
    with decrypt_loop_fault_inv obtain bs x where "f = Out_of_bounds"
      "opened_blocks C (c_decryption_key cctx) (c_decryption_counter cctx) bs" "buf = concat (map fst bs) @ [x]"
      by blast
    moreover from this \<open>2 \<le> length buf\<close> have "bs \<noteq> []" by auto
    ultimately show "f = Out_of_bounds \<and> (\<exists>bs x. bs \<noteq> []
        \<and> opened_blocks C (c_decryption_key cctx) (c_decryption_counter cctx) bs \<and> buf = concat (map fst bs) @ [x])"
      by blast
  qed (use two decrypt_loop_one_byte in blast)
qed

end
