(* ===== verification/Pair.thy ===== *)
theory Pair
  imports Homekit_Server Cipher
begin

text \<open>
  The interface of the pairing library, \<open>src/pair_ap/pair.c\<close> from line 309: a table of operations per
  type of pairing (\<open>struct pair_definition\<close> of \<open>src/pair_ap/pair-internal.h\<close>) and the functions that
  dispatch through it. The table is an argument; \<open>homekit_table\<close> is the one of the program, with the
  entry of the older fruit protocol (\<open>src/pair_ap/pair_fruit.c\<close>) left open.
\<close>

record pair_definition =
  d_setup_new :: "(crypto \<Rightarrow> rand \<Rightarrow> setup_ctx \<Rightarrow> bytes option \<Rightarrow> bool \<Rightarrow> bytes option \<Rightarrow> int \<times> setup_ctx) option"
  d_setup_result :: "(setup_ctx \<Rightarrow> int \<times> setup_ctx) option"
  d_setup_request1 :: "(crypto \<Rightarrow> rand \<Rightarrow> setup_ctx \<Rightarrow> setup_request) option"
  d_setup_request2 :: "(crypto \<Rightarrow> rand \<Rightarrow> setup_ctx \<Rightarrow> setup_request) option"
  d_setup_request3 :: "(crypto \<Rightarrow> rand \<Rightarrow> setup_ctx \<Rightarrow> setup_request) option"
  d_setup_response1 :: "(crypto \<Rightarrow> rand \<Rightarrow> setup_ctx \<Rightarrow> bytes \<Rightarrow> setup_response) option"
  d_setup_response2 :: "(crypto \<Rightarrow> rand \<Rightarrow> setup_ctx \<Rightarrow> bytes \<Rightarrow> setup_response) option"
  d_setup_response3 :: "(crypto \<Rightarrow> rand \<Rightarrow> setup_ctx \<Rightarrow> bytes \<Rightarrow> setup_response) option"
  d_verify_new :: "(crypto \<Rightarrow> verify_ctx \<Rightarrow> bytes option \<Rightarrow> (bytes \<Rightarrow> bytes option) option \<Rightarrow> bytes option
                     \<Rightarrow> (int \<times> verify_ctx) res) option"
  d_verify_result :: "(verify_ctx \<Rightarrow> int \<times> verify_ctx) option"
  d_verify_request1 :: "(crypto \<Rightarrow> rand \<Rightarrow> verify_ctx \<Rightarrow> verify_request) option"
  d_verify_request2 :: "(crypto \<Rightarrow> rand \<Rightarrow> verify_ctx \<Rightarrow> verify_request) option"
  d_verify_response1 :: "(crypto \<Rightarrow> rand \<Rightarrow> verify_ctx \<Rightarrow> bytes \<Rightarrow> verify_response) option"
  d_verify_response2 :: "(crypto \<Rightarrow> rand \<Rightarrow> verify_ctx \<Rightarrow> bytes \<Rightarrow> verify_response) option"
  d_add :: "(bytes \<Rightarrow> (int \<times> bytes option \<times> (bytes option \<times> bytes) list) res) option"
  d_remove :: "(bytes \<Rightarrow> (int \<times> bytes option \<times> (bytes option \<times> bytes) list) res) option"
  d_list :: "((bytes \<times> bytes) list \<Rightarrow> (int \<times> bytes option) res) option"
  d_cipher_new :: "(crypto \<Rightarrow> pair_type \<Rightarrow> int \<Rightarrow> bytes \<Rightarrow> cipher_ctx option res) option"
  d_encrypt :: "(crypto \<Rightarrow> bytes \<Rightarrow> cipher_ctx \<Rightarrow> int \<times> (bytes \<times> nat) option \<times> cipher_ctx) option"
  d_decrypt :: "(crypto \<Rightarrow> bytes \<Rightarrow> cipher_ctx \<Rightarrow> (int \<times> bytes option \<times> cipher_ctx) res) option"
  d_state_get :: "(bytes \<Rightarrow> (int \<times> errmsg option) res) option"
  d_public_key_get :: "(crypto \<Rightarrow> bytes \<Rightarrow> bytes) option"

subsection \<open>The HomeKit tables\<close>

definition pair_client_homekit_normal :: pair_definition where
  "pair_client_homekit_normal =
     \<lparr>d_setup_new = Some client_setup_new, d_setup_result = Some client_setup_result,
      d_setup_request1 = Some client_setup_request1, d_setup_request2 = Some client_setup_request2,
      d_setup_request3 = Some client_setup_request3, d_setup_response1 = Some client_setup_response1,
      d_setup_response2 = Some client_setup_response2, d_setup_response3 = Some client_setup_response3,
      d_verify_new = Some client_verify_new, d_verify_result = None,
      d_verify_request1 = Some client_verify_request1, d_verify_request2 = Some client_verify_request2,
      d_verify_response1 = Some client_verify_response1, d_verify_response2 = Some client_verify_response2,
      d_add = None, d_remove = None, d_list = None, d_cipher_new = Some cipher_new,
      d_encrypt = Some encrypt, d_decrypt = Some decrypt, d_state_get = Some state_get,
      d_public_key_get = None\<rparr>"

definition pair_client_homekit_transient :: pair_definition where
  "pair_client_homekit_transient =
     \<lparr>d_setup_new = Some client_setup_new, d_setup_result = None,
      d_setup_request1 = Some client_setup_request1, d_setup_request2 = Some client_setup_request2,
      d_setup_request3 = Some client_setup_request3, d_setup_response1 = Some client_setup_response1,
      d_setup_response2 = Some client_setup_response2, d_setup_response3 = Some client_setup_response3,
      d_verify_new = Some client_verify_new, d_verify_result = None,
      d_verify_request1 = Some client_verify_request1, d_verify_request2 = Some client_verify_request2,
      d_verify_response1 = Some client_verify_response1, d_verify_response2 = Some client_verify_response2,
      d_add = None, d_remove = None, d_list = None, d_cipher_new = Some cipher_new,
      d_encrypt = Some encrypt, d_decrypt = Some decrypt, d_state_get = Some state_get,
      d_public_key_get = None\<rparr>"

definition pair_server_homekit :: pair_definition where
  "pair_server_homekit =
     \<lparr>d_setup_new = Some server_setup_new, d_setup_result = None,
      d_setup_request1 = Some server_setup_response1, d_setup_request2 = Some server_setup_response2,
      d_setup_request3 = Some server_setup_response3, d_setup_response1 = Some server_setup_request1,
      d_setup_response2 = Some server_setup_request2, d_setup_response3 = Some server_setup_request3,
      d_verify_new = Some server_verify_new, d_verify_result = None,
      d_verify_request1 = Some server_verify_response1, d_verify_request2 = Some server_verify_response2,
      d_verify_response1 = Some server_verify_request1, d_verify_response2 = Some server_verify_request2,
      d_add = Some server_add_remove, d_remove = Some server_add_remove, d_list = Some server_list,
      d_cipher_new = Some cipher_new, d_encrypt = Some encrypt, d_decrypt = Some decrypt,
      d_state_get = Some state_get, d_public_key_get = Some public_key_get\<rparr>"

type_synonym pair_table = "pair_type \<Rightarrow> pair_definition"

fun homekit_table :: "pair_definition \<Rightarrow> pair_table" where
  "homekit_table fruit PAIR_CLIENT_FRUIT = fruit"
| "homekit_table fruit PAIR_CLIENT_HOMEKIT_NORMAL = pair_client_homekit_normal"
| "homekit_table fruit PAIR_CLIENT_HOMEKIT_TRANSIENT = pair_client_homekit_transient"
| "homekit_table fruit PAIR_SERVER_HOMEKIT = pair_server_homekit"

subsection \<open>Pair setup\<close>

definition pair_setup_new ::
  "pair_table \<Rightarrow> crypto \<Rightarrow> rand \<Rightarrow> pair_type \<Rightarrow> bytes option \<Rightarrow> bool \<Rightarrow> bytes option \<Rightarrow> setup_ctx option" where
  "pair_setup_new T C r ty pin add_cb device_id =
     (case d_setup_new (T ty) of
        None \<Rightarrow> None
      | Some f \<Rightarrow>
          (case f C r (zero_setup_ctx ty) pin add_cb device_id of
             (ret, sctx) \<Rightarrow> if ret < 0 then None else Some sctx))"

definition call_setup_request ::
  "nat \<Rightarrow> (crypto \<Rightarrow> rand \<Rightarrow> setup_ctx \<Rightarrow> setup_request) option \<Rightarrow> crypto \<Rightarrow> rand \<Rightarrow> setup_ctx \<Rightarrow> setup_request" where
  "call_setup_request n f C r sctx =
     (case f of None \<Rightarrow> Inr (None, s_errmsg_set (Setup_request n) Unsupported sctx) | Some g \<Rightarrow> g C r sctx)"

definition call_setup_response ::
  "nat \<Rightarrow> (crypto \<Rightarrow> rand \<Rightarrow> setup_ctx \<Rightarrow> bytes \<Rightarrow> setup_response) option
     \<Rightarrow> crypto \<Rightarrow> rand \<Rightarrow> setup_ctx \<Rightarrow> bytes \<Rightarrow> setup_response" where
  "call_setup_response n f C r sctx data =
     (case f of None \<Rightarrow> Inr (-1, s_errmsg_set (Setup_response n) Unsupported sctx) | Some g \<Rightarrow> g C r sctx data)"

definition pair_setup_request1 :: "pair_table \<Rightarrow> crypto \<Rightarrow> rand \<Rightarrow> setup_ctx \<Rightarrow> setup_request" where
  "pair_setup_request1 T C r sctx = call_setup_request 1 (d_setup_request1 (T (s_type sctx))) C r sctx"

definition pair_setup_request2 :: "pair_table \<Rightarrow> crypto \<Rightarrow> rand \<Rightarrow> setup_ctx \<Rightarrow> setup_request" where
  "pair_setup_request2 T C r sctx = call_setup_request 2 (d_setup_request2 (T (s_type sctx))) C r sctx"

definition pair_setup_request3 :: "pair_table \<Rightarrow> crypto \<Rightarrow> rand \<Rightarrow> setup_ctx \<Rightarrow> setup_request" where
  "pair_setup_request3 T C r sctx = call_setup_request 3 (d_setup_request3 (T (s_type sctx))) C r sctx"

definition pair_setup_response1 :: "pair_table \<Rightarrow> crypto \<Rightarrow> rand \<Rightarrow> setup_ctx \<Rightarrow> bytes \<Rightarrow> setup_response" where
  "pair_setup_response1 T C r sctx data = call_setup_response 1 (d_setup_response1 (T (s_type sctx))) C r sctx data"

definition pair_setup_response2 :: "pair_table \<Rightarrow> crypto \<Rightarrow> rand \<Rightarrow> setup_ctx \<Rightarrow> bytes \<Rightarrow> setup_response" where
  "pair_setup_response2 T C r sctx data = call_setup_response 2 (d_setup_response2 (T (s_type sctx))) C r sctx data"

definition pair_setup_response3 :: "pair_table \<Rightarrow> crypto \<Rightarrow> rand \<Rightarrow> setup_ctx \<Rightarrow> bytes \<Rightarrow> setup_response" where
  "pair_setup_response3 T C r sctx data =
     bind_res (call_setup_response 3 (d_setup_response3 (T (s_type sctx))) C r sctx data)
       (\<lambda>(ret, sctx1). Inr (if ret \<noteq> 0 then -1 else 0, sctx1))"

text \<open>One case of the switch: read the message, and if that went well make the next one.\<close>

definition setup_exchange ::
  "(setup_ctx \<Rightarrow> setup_response) \<Rightarrow> (setup_ctx \<Rightarrow> setup_request) \<Rightarrow> setup_ctx \<Rightarrow> (int \<times> bytes option \<times> setup_ctx) res" where
  "setup_exchange response request sctx =
     bind_res (response sctx) (\<lambda>(ret, sctx1).
       if ret < 0 then Inr (-1, None, sctx1)
       else bind_res (request sctx1) (\<lambda>(out, sctx2). Inr (if out = None then -1 else 0, out, sctx2)))"

definition pair_setup :: "pair_table \<Rightarrow> crypto \<Rightarrow> rand \<Rightarrow> setup_ctx \<Rightarrow> bytes \<Rightarrow> (int \<times> bytes option \<times> setup_ctx) res" where
  "pair_setup T C r sctx data =
     (case d_state_get (T (s_type sctx)) of
        None \<Rightarrow> Inr (-1, None, sctx\<lparr>s_errmsg := Some Get_state_unsupported\<rparr>)
      | Some get \<Rightarrow>
          bind_res (get data) (\<lambda>(state, err).
            let sctx0 = (case err of None \<Rightarrow> sctx | Some e \<Rightarrow> sctx\<lparr>s_errmsg := Some e\<rparr>);
                res1 = (\<lambda>h. pair_setup_response1 T C r h data);
                res2 = (\<lambda>h. pair_setup_response2 T C r h data);
                res3 = (\<lambda>h. pair_setup_response3 T C r h data);
                req1 = pair_setup_request1 T C r; req2 = pair_setup_request2 T C r; req3 = pair_setup_request3 T C r
            in
            if state < 0 then Inr (-1, None, sctx0)
            else if state = 0 then bind_res (req1 sctx0) (\<lambda>(out, sctx1). Inr (-1, out, sctx1))
            else if state = 1 then setup_exchange res1 req1 sctx0
            else if state = 2 then setup_exchange res1 req2 sctx0
            else if state = 3 then setup_exchange res2 req2 sctx0
            else if state = 4 then setup_exchange res2 req3 sctx0
            else if state = 5 then setup_exchange res3 req3 sctx0
            else if state = 6 then bind_res (res3 sctx0) (\<lambda>(ret, sctx1). Inr (-1, None, sctx1))
            else Inr (-1, None, sctx0\<lparr>s_errmsg := Some Setup_unsupported_state\<rparr>)))"

definition pair_setup_result :: "pair_table \<Rightarrow> setup_ctx \<Rightarrow> int \<times> setup_ctx \<times> (bytes \<times> pair_result) option" where
  "pair_setup_result T sctx =
     (if s_status sctx \<noteq> PAIR_STATUS_COMPLETED
      then (-1, sctx\<lparr>s_errmsg := Some Setup_not_completed\<rparr>, None)
      else case d_setup_result (T (s_type sctx)) of
        None \<Rightarrow> (0, sctx, Some (s_result_str sctx, s_result sctx))
      | Some f \<Rightarrow>
          (case f sctx of (ret, sctx1) \<Rightarrow>
             if ret \<noteq> 0 then (-1, sctx1, None)
             else (0, sctx1, Some (s_result_str sctx1, s_result sctx1))))"

subsection \<open>Pair verify\<close>

definition pair_verify_new ::
  "pair_table \<Rightarrow> crypto \<Rightarrow> pair_type \<Rightarrow> bytes option \<Rightarrow> (bytes \<Rightarrow> bytes option) option \<Rightarrow> bytes option \<Rightarrow> verify_ctx option res" where
  "pair_verify_new T C ty keys get_cb device_id =
     (case d_verify_new (T ty) of
        None \<Rightarrow> Inr None
      | Some f \<Rightarrow>
          bind_res (f C (zero_verify_ctx ty) keys get_cb device_id) (\<lambda>(ret, vctx).
            Inr (if ret < 0 then None else Some vctx)))"

definition call_verify_request ::
  "nat \<Rightarrow> (crypto \<Rightarrow> rand \<Rightarrow> verify_ctx \<Rightarrow> verify_request) option \<Rightarrow> crypto \<Rightarrow> rand \<Rightarrow> verify_ctx \<Rightarrow> verify_request" where
  "call_verify_request n f C r vctx =
     (case f of None \<Rightarrow> Inr (None, v_errmsg_set (Verify_request n) Unsupported vctx) | Some g \<Rightarrow> g C r vctx)"

definition call_verify_response ::
  "nat \<Rightarrow> (crypto \<Rightarrow> rand \<Rightarrow> verify_ctx \<Rightarrow> bytes \<Rightarrow> verify_response) option
     \<Rightarrow> crypto \<Rightarrow> rand \<Rightarrow> verify_ctx \<Rightarrow> bytes \<Rightarrow> verify_response" where
  "call_verify_response n f C r vctx data =
     (case f of None \<Rightarrow> Inr (-1, v_errmsg_set (Verify_response n) Unsupported vctx) | Some g \<Rightarrow> g C r vctx data)"

definition pair_verify_request1 :: "pair_table \<Rightarrow> crypto \<Rightarrow> rand \<Rightarrow> verify_ctx \<Rightarrow> verify_request" where
  "pair_verify_request1 T C r vctx = call_verify_request 1 (d_verify_request1 (T (v_type vctx))) C r vctx"

definition pair_verify_request2 :: "pair_table \<Rightarrow> crypto \<Rightarrow> rand \<Rightarrow> verify_ctx \<Rightarrow> verify_request" where
  "pair_verify_request2 T C r vctx = call_verify_request 2 (d_verify_request2 (T (v_type vctx))) C r vctx"

definition pair_verify_response1 :: "pair_table \<Rightarrow> crypto \<Rightarrow> rand \<Rightarrow> verify_ctx \<Rightarrow> bytes \<Rightarrow> verify_response" where
  "pair_verify_response1 T C r vctx data = call_verify_response 1 (d_verify_response1 (T (v_type vctx))) C r vctx data"

definition pair_verify_response2 :: "pair_table \<Rightarrow> crypto \<Rightarrow> rand \<Rightarrow> verify_ctx \<Rightarrow> bytes \<Rightarrow> verify_response" where
  "pair_verify_response2 T C r vctx data =
     bind_res (call_verify_response 2 (d_verify_response2 (T (v_type vctx))) C r vctx data)
       (\<lambda>(ret, vctx1). Inr (if ret \<noteq> 0 then -1 else 0, vctx1))"

definition verify_exchange ::
  "(verify_ctx \<Rightarrow> verify_response) \<Rightarrow> (verify_ctx \<Rightarrow> verify_request) \<Rightarrow> verify_ctx \<Rightarrow> (int \<times> bytes option \<times> verify_ctx) res" where
  "verify_exchange response request vctx =
     bind_res (response vctx) (\<lambda>(ret, vctx1).
       if ret < 0 then Inr (-1, None, vctx1)
       else bind_res (request vctx1) (\<lambda>(out, vctx2). Inr (if out = None then -1 else 0, out, vctx2)))"

definition pair_verify :: "pair_table \<Rightarrow> crypto \<Rightarrow> rand \<Rightarrow> verify_ctx \<Rightarrow> bytes \<Rightarrow> (int \<times> bytes option \<times> verify_ctx) res" where
  "pair_verify T C r vctx data =
     (case d_state_get (T (v_type vctx)) of
        None \<Rightarrow> Inr (-1, None, vctx\<lparr>v_errmsg := Some Get_state_unsupported\<rparr>)
      | Some get \<Rightarrow>
          bind_res (get data) (\<lambda>(state, err).
            let vctx0 = (case err of None \<Rightarrow> vctx | Some e \<Rightarrow> vctx\<lparr>v_errmsg := Some e\<rparr>);
                res1 = (\<lambda>h. pair_verify_response1 T C r h data);
                res2 = (\<lambda>h. pair_verify_response2 T C r h data);
                req1 = pair_verify_request1 T C r; req2 = pair_verify_request2 T C r
            in
            if state < 0 then Inr (-1, None, vctx0)
            else if state = 0 then bind_res (req1 vctx0) (\<lambda>(out, vctx1). Inr (-1, out, vctx1))
            else if state = 1 then verify_exchange res1 req1 vctx0
            else if state = 2 then verify_exchange res1 req2 vctx0
            else if state = 3 then verify_exchange res2 req2 vctx0
            else if state = 4 then bind_res (res2 vctx0) (\<lambda>(ret, vctx1). Inr (-1, None, vctx1))
            else Inr (-1, None, vctx0\<lparr>v_errmsg := Some Verify_unsupported_state\<rparr>)))"

definition pair_verify_result :: "pair_table \<Rightarrow> verify_ctx \<Rightarrow> int \<times> verify_ctx \<times> pair_result option" where
  "pair_verify_result T vctx =
     (if v_status vctx \<noteq> PAIR_STATUS_COMPLETED
      then (-1, vctx\<lparr>v_errmsg := Some Verify_not_completed\<rparr>, None)
      else case d_verify_result (T (v_type vctx)) of
        None \<Rightarrow> (0, vctx, Some (v_result vctx))
      | Some f \<Rightarrow>
          (case f vctx of (ret, vctx1) \<Rightarrow>
             if ret \<noteq> 0 then (-1, vctx1, None) else (0, vctx1, Some (v_result vctx1))))"

subsection \<open>Ciphers and pairings\<close>

definition pair_cipher_new :: "pair_table \<Rightarrow> crypto \<Rightarrow> pair_type \<Rightarrow> int \<Rightarrow> bytes \<Rightarrow> cipher_ctx option res" where
  "pair_cipher_new T C ty channel secret =
     (case d_cipher_new (T ty) of None \<Rightarrow> Inr None | Some f \<Rightarrow> f C ty channel secret)"

definition pair_encrypt ::
  "pair_table \<Rightarrow> crypto \<Rightarrow> bytes \<Rightarrow> cipher_ctx \<Rightarrow> int \<times> (bytes \<times> nat) option \<times> cipher_ctx" where
  "pair_encrypt T C plaintext cctx =
     (case d_encrypt (T (c_type cctx)) of
        None \<Rightarrow> (-1, None, cctx\<lparr>c_errmsg := Some Encryption_unsupported\<rparr>)
      | Some f \<Rightarrow> f C plaintext cctx)"

definition pair_decrypt ::
  "pair_table \<Rightarrow> crypto \<Rightarrow> bytes \<Rightarrow> cipher_ctx \<Rightarrow> (int \<times> bytes option \<times> cipher_ctx) res" where
  "pair_decrypt T C ciphertext cctx =
     (case d_decrypt (T (c_type cctx)) of
        None \<Rightarrow> Inr (-1, None, cctx\<lparr>c_errmsg := Some Decryption_unsupported\<rparr>)
      | Some f \<Rightarrow> f C ciphertext cctx)"

definition pair_add ::
  "pair_table \<Rightarrow> pair_type \<Rightarrow> bytes \<Rightarrow> (int \<times> bytes option \<times> (bytes option \<times> bytes) list) res" where
  "pair_add T ty data = (case d_add (T ty) of None \<Rightarrow> Inr (-1, None, []) | Some f \<Rightarrow> f data)"

definition pair_remove ::
  "pair_table \<Rightarrow> pair_type \<Rightarrow> bytes \<Rightarrow> (int \<times> bytes option \<times> (bytes option \<times> bytes) list) res" where
  "pair_remove T ty data = (case d_remove (T ty) of None \<Rightarrow> Inr (-1, None, []) | Some f \<Rightarrow> f data)"

definition pair_list :: "pair_table \<Rightarrow> pair_type \<Rightarrow> (bytes \<times> bytes) list \<Rightarrow> (int \<times> bytes option) res" where
  "pair_list T ty pairings = (case d_list (T ty) of None \<Rightarrow> Inr (-1, None) | Some f \<Rightarrow> f pairings)"

definition pair_state_get :: "pair_table \<Rightarrow> pair_type \<Rightarrow> bytes \<Rightarrow> (int \<times> errmsg option) res" where
  "pair_state_get T ty data =
     (case d_state_get (T ty) of None \<Rightarrow> Inr (-1, Some Get_state_unsupported) | Some f \<Rightarrow> f data)"

definition pair_public_key_get :: "pair_table \<Rightarrow> crypto \<Rightarrow> pair_type \<Rightarrow> bytes \<Rightarrow> bytes option" where
  "pair_public_key_get T C ty device_id = map_option (\<lambda>f. f C device_id) (d_public_key_get (T ty))"

end
