(* ===== verification/Cipher_Stream.thy ===== *)
theory Cipher_Stream
  imports Pair
begin

text \<open>
  The two users of the cipher: \<open>rtsp_cipher\<close> of \<open>src/airplay.c\<close> for the control connection and
  \<open>buffer_decrypt\<close>/\<open>buffer_encrypt\<close> of \<open>src/airplay_events.c\<close> for the events connection. An
  evbuffer is the list of the bytes it holds.
\<close>

definition rtsp_cipher ::
  "pair_table \<Rightarrow> crypto \<Rightarrow> bytes \<Rightarrow> bytes \<Rightarrow> cipher_ctx \<Rightarrow> bool \<Rightarrow> (int \<times> bytes \<times> bytes \<times> cipher_ctx) res" where
  "rtsp_cipher T C outbuf inbuf cctx do_encrypt =
     (if do_encrypt
      then (case pair_encrypt T C inbuf cctx of
              (processed, out, cctx1) \<Rightarrow>
                (case out of
                   None \<Rightarrow> Inr (-1, outbuf, inbuf, cctx1)
                 | Some (c, n) \<Rightarrow> Inr (0, outbuf @ take n c, drop (nat processed) inbuf, cctx1)))
      else bind_res (pair_decrypt T C inbuf cctx) (\<lambda>(processed, out, cctx1).
             case out of
               None \<Rightarrow> Inr (-1, outbuf, inbuf, cctx1)
             | Some plain \<Rightarrow> Inr (0, outbuf @ plain, drop (nat processed) inbuf, cctx1)))"

definition buffer_decrypt ::
  "pair_table \<Rightarrow> crypto \<Rightarrow> bytes \<Rightarrow> bytes \<Rightarrow> cipher_ctx \<Rightarrow> (int \<times> bytes \<times> bytes \<times> cipher_ctx) res" where
  "buffer_decrypt T C obuf ibuf cctx =
     bind_res (pair_decrypt T C ibuf cctx) (\<lambda>(bytes_decrypted, plain, cctx1).
       case plain of
         None \<Rightarrow> Inr (-1, obuf, ibuf, cctx1)
       | Some p \<Rightarrow> Inr (0, obuf @ p, drop (nat bytes_decrypted) ibuf, cctx1))"

definition buffer_encrypt ::
  "pair_table \<Rightarrow> crypto \<Rightarrow> bytes \<Rightarrow> bytes \<Rightarrow> cipher_ctx \<Rightarrow> int \<times> bytes \<times> cipher_ctx" where
  "buffer_encrypt T C obuf in_data cctx =
     (case pair_encrypt T C in_data cctx of
        (ret, out, cctx1) \<Rightarrow>
          (case out of None \<Rightarrow> (-1, obuf, cctx1) | Some (c, n) \<Rightarrow> (0, obuf @ take n c, cctx1)))"

text \<open>
  A sender writes messages, each encrypted into the output; a receiver gets the bytes in pieces, and
  at each piece runs the decryption over all it has. \<open>None\<close> is the failure of a read.
\<close>

fun send_all :: "pair_table \<Rightarrow> crypto \<Rightarrow> bytes \<Rightarrow> bytes list \<Rightarrow> cipher_ctx \<Rightarrow> bytes \<times> cipher_ctx" where
  "send_all T C obuf [] cctx = (obuf, cctx)"
| "send_all T C obuf (m # ms) cctx =
     (case buffer_encrypt T C obuf m cctx of (ret, obuf1, cctx1) \<Rightarrow> send_all T C obuf1 ms cctx1)"

fun receive_all ::
  "pair_table \<Rightarrow> crypto \<Rightarrow> bytes list \<Rightarrow> bytes \<Rightarrow> bytes \<Rightarrow> cipher_ctx \<Rightarrow> (bytes \<times> bytes \<times> cipher_ctx) option res" where
  "receive_all T C [] obuf ibuf cctx = Inr (Some (obuf, ibuf, cctx))"
| "receive_all T C (p # ps) obuf ibuf cctx =
     bind_res (buffer_decrypt T C obuf (ibuf @ p) cctx) (\<lambda>(ret, obuf1, ibuf1, cctx1).
       if ret < 0 then Inr None else receive_all T C ps obuf1 ibuf1 cctx1)"

subsection \<open>The sender's stream\<close>

text \<open>The context is of a type whose operations are those of \<open>Cipher\<close>.\<close>

definition homekit_cipher :: "pair_table \<Rightarrow> pair_type \<Rightarrow> bool" where
  "homekit_cipher T ty \<longleftrightarrow> d_encrypt (T ty) = Some encrypt \<and> d_decrypt (T ty) = Some decrypt"

lemma homekit_cipher_eq:
  assumes "homekit_cipher T (c_type cctx)"
  shows "pair_encrypt T C p cctx = encrypt C p cctx" "pair_decrypt T C p cctx = decrypt C p cctx"
  using assms by (simp_all add: homekit_cipher_def pair_encrypt_def pair_decrypt_def)

lemma homekit_table_cipher: "ty \<noteq> PAIR_CLIENT_FRUIT \<Longrightarrow> homekit_cipher (homekit_table fruit) ty"
  by (cases ty) (simp_all add: homekit_cipher_def pair_client_homekit_normal_def
      pair_client_homekit_transient_def pair_server_homekit_def)

definition stream_blocks :: "bytes list \<Rightarrow> bytes list" where
  "stream_blocks ms = concat (map blocks ms)"

lemma stream_blocks_simps [simp]:
  "stream_blocks [] = []" "stream_blocks (m # ms) = blocks m @ stream_blocks ms"
  by (simp_all add: stream_blocks_def)

lemma concat_stream_blocks: "concat (stream_blocks ms) = concat ms"
  by (induction ms) (simp_all add: concat_blocks)

lemma stream_blocks_bound: "\<forall>b \<in> set (stream_blocks ms). length b \<le> 1024"
  by (induction ms) (auto dest: blocks_bounds)

lemma send_all_eq:
  assumes "aead_ok C"
  shows "[] \<notin> set ms \<Longrightarrow> homekit_cipher T (c_type cctx) \<Longrightarrow> send_all T C obuf ms cctx = (obuf',cctx') \<Longrightarrow>
     obuf' = obuf @ seal_blocks C (c_encryption_key cctx) (c_encryption_counter cctx) (stream_blocks ms)
     \<and> c_encryption_counter cctx' = c_encryption_counter cctx + of_nat (length (stream_blocks ms))"
proof (induction ms arbitrary: obuf cctx)
  case (Cons m ms)
  have "m \<noteq> []" using Cons.prems(1) by auto
  note enc = encrypt_eq [OF assms this, of cctx]
  note pair_enc = homekit_cipher_eq(1) [OF Cons.prems(2)]
  let ?c = "seal_blocks C (c_encryption_key cctx) (c_encryption_counter cctx) (blocks m)"
  let ?cctx1 = "cctx\<lparr>c_encryption_counter_prev := c_encryption_counter cctx,
      c_encryption_counter := c_encryption_counter cctx + of_nat (length (blocks m))\<rparr>"
  have "buffer_encrypt T C obuf m cctx = (0, obuf @ ?c, ?cctx1)"
    by (simp add: buffer_encrypt_def pair_enc enc)
  with Cons.prems have "send_all T C (obuf @ ?c) ms ?cctx1 = (obuf', cctx')" by simp
  from Cons.IH [OF _ _ this] Cons.prems(1,2) show ?case
    by (simp add: seal_blocks_append algebra_simps)
qed simp

subsection \<open>The receiver\<close>

text \<open>No piece ends one byte into a block.\<close>

definition no_split :: "crypto \<Rightarrow> bytes \<Rightarrow> u64 \<Rightarrow> bytes list \<Rightarrow> bytes list \<Rightarrow> bool" where
  "no_split C key ctr bs ps \<longleftrightarrow> (\<forall>i \<le> length ps. \<forall>k \<le> length bs.
     length (concat (take i ps)) \<noteq> length (seal_blocks C key ctr (take k bs)) + 1)"

lemma receive_all_stream:
  assumes "aead_ok C" and "\<forall>b \<in> set bs. length b \<le> 1024" and "[] \<notin> set ps"
    and "ibuf @ concat ps = seal_blocks C (c_decryption_key cctx) (c_decryption_counter cctx) bs"
    and "\<forall>i. 0 < i \<longrightarrow> i \<le> length ps \<longrightarrow> (\<forall>k \<le> length bs. length (ibuf @ concat (take i ps)) \<noteq>
           length (seal_blocks C (c_decryption_key cctx) (c_decryption_counter cctx) (take k bs)) + 1)"
    and "ps \<noteq> []" and "homekit_cipher T (c_type cctx)"
  shows "\<exists>cctx'. receive_all T C ps obuf ibuf cctx = Inr (Some (obuf @ concat bs, [], cctx'))
     \<and> c_decryption_counter cctx' = c_decryption_counter cctx + of_nat (length bs)"
  using assms(2-)
proof (induction ps arbitrary: obuf ibuf cctx bs)
  case Nil
  then show ?case by simp
next
  case (Cons p ps)
  let ?key = "c_decryption_key cctx" and ?ctr = "c_decryption_counter cctx"
  have split: "\<forall>k \<le> length bs. length (ibuf @ p) \<noteq> length (seal_blocks C ?key ?ctr (take k bs)) + 1"
    using Cons.prems(4) [rule_format, of 1] by simp
  have "p \<noteq> []" using Cons.prems(2) by auto
  with split [rule_format, of 0] have "2 \<le> length (ibuf @ p)"
    by (cases "length (ibuf @ p)") (auto simp: Suc_le_eq numeral_2_eq_2)
  moreover have "(ibuf @ p) @ concat ps = seal_blocks C ?key ?ctr bs"
    using Cons.prems(3) by simp
  ultimately obtain k r where k: "k \<le> length bs"
    and buf: "ibuf @ p = seal_blocks C ?key ?ctr (take k bs) @ r"
    and all: "concat ps = [] \<Longrightarrow> k = length bs \<and> r = []"
    and dec: "decrypt C (ibuf @ p) cctx = Inr (int (length (ibuf @ p) - length r), Some (concat (take k bs)),
           cctx\<lparr>c_decryption_counter_prev := ?ctr, c_decryption_counter := ?ctr + of_nat k\<rparr>)"
    using decrypt_prefix [OF assms(1) Cons.prems(1) _ _ split] by metis
  let ?cctx1 = "cctx\<lparr>c_decryption_counter_prev := ?ctr, c_decryption_counter := ?ctr + of_nat k\<rparr>"
  have "drop (length (ibuf @ p) - length r) (ibuf @ p) = r"
    unfolding buf by simp
  then have step: "receive_all T C (p # ps) obuf ibuf cctx = receive_all T C ps (obuf @ concat (take k bs)) r ?cctx1"
    using dec homekit_cipher_eq(2) [OF Cons.prems(6)] by (simp add: buffer_decrypt_def nat_int)
  show ?case
  proof (cases "ps = []")
    case True
    then have "k = length bs" "r = []" using all by simp_all
    with step show ?thesis unfolding True by (simp del: receive_all.simps(2))
  next
    case False
    have seal: "seal_blocks C ?key ?ctr bs =
        seal_blocks C ?key ?ctr (take k bs) @ seal_blocks C ?key (?ctr + of_nat k) (drop k bs)"
      using seal_blocks_append [of C ?key ?ctr "take k bs" "drop k bs"] k by (simp add: min_absorb2)
    have rest: "r @ concat ps = seal_blocks C ?key (?ctr + of_nat k) (drop k bs)"
      using Cons.prems(3) buf seal by (metis append.assoc concat.simps(2) same_append_eq)
    have "length (r @ concat (take i ps)) \<noteq> length (seal_blocks C ?key (?ctr + of_nat k) (take j (drop k bs))) + 1"
      if "0 < i" "i \<le> length ps" "j \<le> length (drop k bs)" for i j
    proof -
      have "take (k + j) bs = take k bs @ take j (drop k bs)" by (rule take_add)
      then have "length (seal_blocks C ?key ?ctr (take (k + j) bs)) = length (seal_blocks C ?key ?ctr (take k bs))
          + length (seal_blocks C ?key (?ctr + of_nat k) (take j (drop k bs)))"
        using k by (simp add: seal_blocks_append min_absorb2)
      moreover have "length (ibuf @ concat (take (Suc i) (p # ps))) \<noteq> length (seal_blocks C ?key ?ctr (take (k + j) bs)) + 1"
        using that k by (intro Cons.prems(4) [rule_format]) simp_all
      moreover have "length (ibuf @ concat (take (Suc i) (p # ps))) =
          length (seal_blocks C ?key ?ctr (take k bs)) + length (r @ concat (take i ps))"
        using arg_cong [OF buf, of length] by simp
      ultimately show ?thesis by simp
    qed
    moreover have "\<forall>b \<in> set (drop k bs). length b \<le> 1024"
      using Cons.prems(1) by (meson in_set_dropD)
    moreover have "[] \<notin> set ps" using Cons.prems(2) by simp
    ultimately obtain cctx' where
      "receive_all T C ps (obuf @ concat (take k bs)) r ?cctx1 = Inr (Some ((obuf @ concat (take k bs)) @ concat (drop k bs), [], cctx'))"
      "c_decryption_counter cctx' = ?ctr + of_nat k + of_nat (length (drop k bs))"
      using Cons.IH [of "drop k bs" r ?cctx1 "obuf @ concat (take k bs)"] False rest Cons.prems(6) by auto
    moreover have "concat (take k bs) @ concat (drop k bs) = concat bs"
      by (metis append_take_drop_id concat_append)
    ultimately show ?thesis
      using k step by (auto simp: of_nat_diff simp del: receive_all.simps(2))
  qed
qed

subsection \<open>Properties\<close>

text \<open>C5: Streaming. A sequence of messages goes through \<open>buffer_encrypt\<close> into one byte stream, which
  arrives cut into pieces of any size. If the two ends share key and counter, and no piece ends just
  one byte into a block, then the receiver, decrypting after each piece, gets exactly the concatenated
  messages, has nothing left, and its counter is the sender's.\<close>

theorem cipher_stream:
  assumes "aead_ok C" and "[] \<notin> set ms"
    and "c_decryption_key rcv = c_encryption_key sender"
    and "c_decryption_counter rcv = c_encryption_counter sender"
    and "c_type sender \<noteq> PAIR_CLIENT_FRUIT" and "c_type rcv \<noteq> PAIR_CLIENT_FRUIT"
    and "send_all (homekit_table fruit) C [] ms sender = (wire, sender')"
    and "concat ps = wire" and "[] \<notin> set ps"
    and "no_split C (c_encryption_key sender) (c_encryption_counter sender) (stream_blocks ms) ps"
  shows "\<exists>rcv'. receive_all (homekit_table fruit) C ps [] [] rcv = Inr (Some (concat ms, [], rcv'))
     \<and> c_decryption_counter rcv' = c_encryption_counter sender'"
proof -
  have wire: "wire = seal_blocks C (c_encryption_key sender) (c_encryption_counter sender) (stream_blocks ms)"
    and ctr: "c_encryption_counter sender' = c_encryption_counter sender + of_nat (length (stream_blocks ms))"
    using send_all_eq [OF assms(1,2) homekit_table_cipher [OF assms(5)] assms(7)] by simp_all
  show ?thesis
  proof (cases "ps = []")
    case True
    then have "length (seal_blocks C (c_encryption_key sender) (c_encryption_counter sender) (stream_blocks ms)) = 0"
      using wire assms(8) by simp
    then have "stream_blocks ms = []"
      by (simp add: length_seal_blocks [OF assms(1)])
    with concat_stream_blocks [of ms] True show ?thesis
      using assms(4) ctr by simp
  next
    case False
    then show ?thesis
      using receive_all_stream [OF assms(1) stream_blocks_bound assms(9), of "[]" rcv ms "homekit_table fruit" "[]"]
        homekit_table_cipher [OF assms(6)] assms(3,4,8,10) wire ctr
      by (auto simp: no_split_def concat_stream_blocks)
  qed
qed

end
