(* ===== verification/Handshake.thy ===== *)
theory Handshake
  imports Pair
begin

text \<open>
  Complete runs of pair setup between the client and the server of the repository: each side's
  handler on the message the other side makes, and the runs composed from them through the
  functions of \<open>pair.c\<close>, as \<open>src/airplay.c\<close> (client) and an accessory (server) call them.
\<close>

subsection \<open>Messages\<close>

text \<open>A message that can be formatted into the buffer, read back, and carries no error.\<close>

definition msg_ok :: "tlv_values \<Rightarrow> bool" where
  "msg_ok ts \<longleftrightarrow> wf_tlvs ts \<and> TLVType_Error \<notin> tlv_type ` set ts \<and> tlv_required_size ts \<le> 4096"

lemma msg_ok_format: "msg_ok ts \<Longrightarrow> format_to REQUEST_BUFSIZE ts = Inr (0, tlv_bytes ts)"
  by (simp add: msg_ok_def format_to_wf REQUEST_BUFSIZE_def)

lemma msg_ok_process: "msg_ok ts \<Longrightarrow> message_process (tlv_bytes ts) = Inr (Inr ts)"
  by (simp add: msg_ok_def message_process_bytes)

lemma tlv_bytes_Nil_iff [simp]: "tlv_bytes ts = [] \<longleftrightarrow> ts = []"
  using hd_tlv_bytes [of ts] by auto

lemma msg_ok_state:
  "msg_ok (mk_tlv TLVType_State [n] # ts) \<Longrightarrow>
     state_get (tlv_bytes (mk_tlv TLVType_State [n] # ts)) = Inr (uint n, None)"
  using msg_ok_process [of "mk_tlv TLVType_State [n] # ts"] by (simp add: state_get_def del: tlv_bytes.simps)

lemma state_tlv_eq: "state_tlv key = [mk_tlv TLVType_State [key_state (pair_keys_map key)]]"
  by (simp add: state_tlv_def pair_tlv_new_def)

lemma tlv_required_size_1: "length v \<le> 1024 \<Longrightarrow> tlv_required_size (mk_tlv ty v # ts) \<le> 1034 + tlv_required_size ts"
  by simp

text \<open>The six messages of pair setup.\<close>

definition setup_M1 :: "pair_type \<Rightarrow> tlv_values" where
  "setup_M1 ty = mk_tlv TLVType_State [1] # mk_tlv TLVType_Method [0]
     # (if ty = PAIR_CLIENT_HOMEKIT_TRANSIENT then [mk_tlv TLVType_Flags [0x10]] else [])"

definition setup_M2 :: "bytes \<Rightarrow> bytes \<Rightarrow> tlv_values" where
  "setup_M2 salt pkB = [mk_tlv TLVType_State [2], mk_tlv TLVType_Salt salt, mk_tlv TLVType_PublicKey pkB]"

definition setup_M3 :: "bytes \<Rightarrow> bytes \<Rightarrow> tlv_values" where
  "setup_M3 pkA proof = [mk_tlv TLVType_State [3], mk_tlv TLVType_PublicKey pkA, mk_tlv TLVType_Proof proof]"

definition setup_M4 :: "bytes \<Rightarrow> tlv_values" where
  "setup_M4 proof = [mk_tlv TLVType_State [4], mk_tlv TLVType_Proof proof]"

definition encrypted_msg :: "u8 \<Rightarrow> bytes \<Rightarrow> tlv_values" where
  "encrypted_msg state e = [mk_tlv TLVType_State [state], mk_tlv TLVType_EncryptedData e]"

lemma setup_msgs_ok:
  "msg_ok (setup_M1 ty)"
  "salt \<noteq> [] \<Longrightarrow> pkB \<noteq> [] \<Longrightarrow> length salt \<le> 1024 \<Longrightarrow> length pkB \<le> 1024 \<Longrightarrow> msg_ok (setup_M2 salt pkB)"
  "pkA \<noteq> [] \<Longrightarrow> proof \<noteq> [] \<Longrightarrow> length pkA \<le> 1024 \<Longrightarrow> length proof \<le> 1024 \<Longrightarrow> msg_ok (setup_M3 pkA proof)"
  "proof \<noteq> [] \<Longrightarrow> length proof \<le> 1024 \<Longrightarrow> msg_ok (setup_M4 proof)"
  "e \<noteq> [] \<Longrightarrow> length e \<le> 1024 \<Longrightarrow> msg_ok (encrypted_msg state e)"
  by (simp_all add: msg_ok_def setup_M1_def setup_M2_def setup_M3_def setup_M4_def encrypted_msg_def tlv_types)

lemma setup_msgs_state:
  "state_get (tlv_bytes (setup_M1 ty)) = Inr (1, None)"
  "msg_ok (setup_M2 salt pkB) \<Longrightarrow> state_get (tlv_bytes (setup_M2 salt pkB)) = Inr (2, None)"
  "msg_ok (setup_M3 pkA proof) \<Longrightarrow> state_get (tlv_bytes (setup_M3 pkA proof)) = Inr (3, None)"
  "msg_ok (setup_M4 proof) \<Longrightarrow> state_get (tlv_bytes (setup_M4 proof)) = Inr (4, None)"
  "msg_ok (encrypted_msg state e) \<Longrightarrow> state_get (tlv_bytes (encrypted_msg state e)) = Inr (uint state, None)"
  using msg_ok_state setup_msgs_ok(1) [of ty]
  by (simp_all add: setup_M1_def setup_M2_def setup_M3_def setup_M4_def encrypted_msg_def del: tlv_bytes.simps)

lemma setup_msgs_values:
  "value_of (setup_M1 ty) TLVType_Method = Some [0]"
  "value_of (setup_M1 ty) TLVType_Flags = (if ty = PAIR_CLIENT_HOMEKIT_TRANSIENT then Some [0x10] else None)"
  "value_of (setup_M2 salt pkB) TLVType_Salt = Some salt" "value_of (setup_M2 salt pkB) TLVType_PublicKey = Some pkB"
  "value_of (setup_M3 pkA proof) TLVType_PublicKey = Some pkA" "value_of (setup_M3 pkA proof) TLVType_Proof = Some proof"
  "value_of (setup_M4 proof) TLVType_Proof = Some proof"
  "value_of (encrypted_msg state e) TLVType_EncryptedData = Some e"
  by (simp_all add: setup_M1_def setup_M2_def setup_M3_def setup_M4_def encrypted_msg_def tlv_types)

subsection \<open>Each handler on an honest message\<close>

lemma N_len_3072 [simp]: "N_len SRP_NG_3072 = 384"
  by (simp add: N_len_def is_custom_def)

lemma client_makes_M1:
  assumes "mpi_ok C"
  shows "client_setup_request1 C r h = Inr (Some (tlv_bytes (setup_M1 (s_type h))),
     h\<lparr>s_client := (s_client h)\<lparr>cs_user := Some (srp_user_fresh USERNAME (cs_pin (s_client h)))\<rparr>\<rparr>)"
  using msg_ok_format [OF setup_msgs_ok(1), of "s_type h"]
  by (cases "s_type h = PAIR_CLIENT_HOMEKIT_TRANSIENT")
    (simp_all add: client_setup_request1_def srp_user_new_eq [OF assms] state_tlv_eq plain_key_def setup_M1_def Let_def
      del: tlv_bytes.simps)

lemma server_reads_M1:
  assumes "mpi_ok C" and "0 \<le> r_exp r"
  shows "server_setup_request1 C r h (tlv_bytes (setup_M1 ty)) = Inr (0, h\<lparr>s_server := (s_server h)
     \<lparr>ss_is_transient := (ty = PAIR_CLIENT_HOMEKIT_TRANSIENT), ss_salt := mpi_print C (r_salt r),
      ss_v := mpi_print C (srp_v C USERNAME (ss_pin (s_server h)) (r_salt r)), ss_b := mpi_print C (r_exp r),
      ss_pkB := mpi_print C (srp_B C USERNAME (ss_pin (s_server h)) (r_salt r) (r_exp r))\<rparr>\<rparr>)"
  by (simp add: server_setup_request1_def msg_ok_process setup_msgs_ok setup_msgs_values
      srp_create_eq [OF assms(1)] srp_start_server_eq [OF assms] Let_def)

lemma server_makes_M2:
  assumes "s_status h \<noteq> PAIR_STATUS_AUTH_FAILED" and "msg_ok (setup_M2 (ss_salt (s_server h)) (ss_pkB (s_server h)))"
  shows "server_setup_response1 C r h =
     Inr (Some (tlv_bytes (setup_M2 (ss_salt (s_server h)) (ss_pkB (s_server h)))), h)"
  using assms msg_ok_format [OF assms(2)]
  by (simp add: server_setup_response1_def state_tlv_eq plain_key_def setup_M2_def Let_def del: tlv_bytes.simps)

lemma client_reads_M2:
  assumes "msg_ok (setup_M2 salt pkB)" and "length salt = 16" and "length pkB \<le> 384"
  shows "client_setup_response1 C r h (tlv_bytes (setup_M2 salt pkB)) =
     Inr (0, h\<lparr>s_client := (s_client h)\<lparr>cs_pkB := pkB, cs_salt := salt\<rparr>\<rparr>)"
  using assms by (simp add: client_setup_response1_def msg_ok_process setup_msgs_values Let_def)

lemma client_makes_M3:
  assumes "cs_user (s_client h) = Some u0"
    and "srp_user_start_authentication C (r_exp r) u0 = (u1, pkA)"
    and "srp_user_process_challenge C u1 (cs_salt (s_client h)) (cs_pkB (s_client h)) = Inr (u2, M)"
    and "msg_ok (setup_M3 pkA M)"
  shows "client_setup_request2 C r h = Inr (Some (tlv_bytes (setup_M3 pkA M)),
     h\<lparr>s_client := (s_client h)\<lparr>cs_user := Some u2, cs_pkA := pkA, cs_M1 := M\<rparr>\<rparr>)"
  using assms msg_ok_format [OF assms(4)]
  by (simp add: client_setup_request2_def state_tlv_eq plain_key_def setup_M3_def Let_def del: tlv_bytes.simps)

lemma server_reads_M3:
  assumes "msg_ok (setup_M3 pkA M)" and "length pkA \<le> 384" and "length M = 64"
    and "srp_verifier_new C HASH_SHA512 SRP_NG_3072 USERNAME (ss_salt (s_server h)) (ss_v (s_server h)) pkA
           (ss_b (s_server h)) (ss_pkB (s_server h)) = Inr (Some ver)"
    and "v_alg ver = HASH_SHA512" and "length (v_M ver) = 64"
  shows "server_setup_request2 C r h (tlv_bytes (setup_M3 pkA M)) = Inr (0,
     if v_M ver = M
     then h\<lparr>s_server := (s_server h)\<lparr>ss_pkA := pkA, ss_M1 := M, ss_verifier := Some (ver\<lparr>v_authenticated := True\<rparr>),
              ss_M2 := Some (v_H_AMK ver), ss_M2_len := 64\<rparr>\<rparr>
     else h\<lparr>s_server := (s_server h)\<lparr>ss_pkA := pkA, ss_M1 := M, ss_verifier := Some ver,
              ss_M2 := None, ss_M2_len := 64\<rparr>, s_status := PAIR_STATUS_AUTH_FAILED\<rparr>)"
  using assms
  by (simp add: server_setup_request2_def msg_ok_process setup_msgs_values srp_verifier_verify_eq Let_def)

lemma server_makes_M4:
  assumes "s_status h \<noteq> PAIR_STATUS_AUTH_FAILED" and "ss_M2 (s_server h) = Some M2" and "ss_M2_len (s_server h) = 64"
    and "length M2 = 64" and "ss_verifier (s_server h) = Some ver" and "v_alg ver = HASH_SHA512"
    and "length (v_session_key ver) = 64" and "length (res_shared_secret (s_result h)) = 64"
  shows "server_setup_response2 C r h = Inr (Some (tlv_bytes (setup_M4 M2)),
     if ss_is_transient (s_server h)
     then h\<lparr>s_result := (s_result h)\<lparr>res_shared_secret := v_session_key ver, res_shared_secret_len := 64\<rparr>,
            s_status := PAIR_STATUS_COMPLETED\<rparr>
     else h)"
proof -
  have "msg_ok (setup_M4 M2)"
    using assms(4) by (intro setup_msgs_ok) auto
  from msg_ok_format [OF this] show ?thesis
    using assms
    by (simp add: server_setup_response2_def state_tlv_eq plain_key_def setup_M4_def Let_def
        srp_verifier_get_session_key_def del: tlv_bytes.simps)
qed

lemma client_reads_M4:
  assumes "length proof = 64" and "cs_user (s_client h) = Some u" and "u_alg u = HASH_SHA512"
    and "length (u_H_AMK u) = 64" and "u_H_AMK u = proof" and "length (res_shared_secret (s_result h)) = 64"
    and "length (srp_user_get_session_key u) = 64"
  defines "h1 \<equiv> h\<lparr>s_client := (s_client h)\<lparr>cs_user := Some (u\<lparr>u_authenticated := True\<rparr>), cs_M2 := proof\<rparr>\<rparr>"
  shows "client_setup_response2 C r h (tlv_bytes (setup_M4 proof)) = Inr (0,
     if s_type h = PAIR_CLIENT_HOMEKIT_TRANSIENT
     then h1\<lparr>s_result := (s_result h)\<lparr>res_shared_secret := srp_user_get_session_key u, res_shared_secret_len := 64\<rparr>,
             s_status := PAIR_STATUS_COMPLETED\<rparr>
     else h1)"
proof -
  have "msg_ok (setup_M4 proof)"
    using assms(1) by (intro setup_msgs_ok) auto
  then show ?thesis
    using assms
    by (simp add: client_setup_response2_def msg_ok_process setup_msgs_values srp_user_verify_eq
        srp_user_is_authenticated_def srp_user_get_session_key_def Let_def)
qed

text \<open>The values of the key derivation and of the encryption, where the library keeps its promises.\<close>

definition hkdf_value :: "crypto \<Rightarrow> bytes \<Rightarrow> pair_keys \<Rightarrow> bytes" where
  "hkdf_value C ikm key = the (projr (hkdf_extract_expand C 32 ikm key))"

definition sealed :: "crypto \<Rightarrow> bytes \<Rightarrow> bytes \<Rightarrow> pair_keys \<Rightarrow> bytes" where
  "sealed C data k key = the (seal_message C data k key)"

lemma hkdf_value:
  assumes "kdf_ok C" and "key_salt (pair_keys_map key) \<noteq> None" and "key_info (pair_keys_map key) \<noteq> None"
  shows "hkdf_extract_expand C 32 ikm key = Inr (Some (hkdf_value C ikm key))" and "length (hkdf_value C ikm key) = 32"
  using hkdf_some [OF assms, of ikm] by (auto simp: hkdf_value_def)

lemma sealed:
  assumes "aead_ok C"
  shows "seal_message C data k key = Some (sealed C data k key)"
    and "open_message C (sealed C data k key) k key = Some data"
    and "length (sealed C data k key) = length data + 16"
  by (rule seal_open_message [OF assms, of data k key], simp add: sealed_def)+

text \<open>The signed identity inside the fifth and the sixth message.\<close>

definition info_msg :: "bytes \<Rightarrow> bytes \<Rightarrow> bytes \<Rightarrow> tlv_values" where
  "info_msg ident signature pk =
     [mk_tlv TLVType_Identifier ident, mk_tlv TLVType_Signature signature, mk_tlv TLVType_PublicKey pk]"

lemma info_msg_values:
  "value_of (info_msg ident signature pk) TLVType_Identifier = Some ident"
  "value_of (info_msg ident signature pk) TLVType_Signature = Some signature"
  "value_of (info_msg ident signature pk) TLVType_PublicKey = Some pk"
  by (simp_all add: info_msg_def tlv_types)

lemma length_tlv_bytes_small:
  "v \<noteq> [] \<Longrightarrow> length v \<le> 255 \<Longrightarrow> length (tlv_bytes (mk_tlv ty v # ts)) = length v + 2 + length (tlv_bytes ts)"
  by (simp add: tlv_item_bytes_def tlv_chunks_small)

lemma info_msg_ok:
  assumes "ident \<noteq> []" "length ident < 64" "length signature = 64" "length pk = 32"
  shows "msg_ok (info_msg ident signature pk)" and "length (tlv_bytes (info_msg ident signature pk)) \<le> 165"
proof -
  have "signature \<noteq> []" "pk \<noteq> []" using assms(3,4) by auto
  then show "msg_ok (info_msg ident signature pk)" and "length (tlv_bytes (info_msg ident signature pk)) \<le> 165"
    using assms by (simp_all add: msg_ok_def info_msg_def tlv_types length_tlv_bytes_small del: tlv_bytes.simps(2))
qed

lemma create_device_info:
  assumes "ident \<noteq> []" "length ident < 64" "length x = 32" "length pk = 32" "length (sign C (x @ ident @ pk) sk) = 64"
  shows "create_and_sign_device_info C REQUEST_BUFSIZE ident x pk sk =
     Inr (0, tlv_bytes [mk_tlv TLVType_Identifier ident, mk_tlv TLVType_Signature (sign C (x @ ident @ pk) sk)])"
proof -
  have "sign C (x @ ident @ pk) sk \<noteq> []" using assms(5) by auto
  then have "msg_ok [mk_tlv TLVType_Identifier ident, mk_tlv TLVType_Signature (sign C (x @ ident @ pk) sk)]"
    using assms(1,2,5) by (simp add: msg_ok_def tlv_types)
  from msg_ok_format [OF this] show ?thesis
    using assms(2-4)
    by (simp add: create_and_sign_device_info_def create_info_def pair_tlv_new_def Let_def del: tlv_bytes.simps)
qed

lemma append_public_key:
  assumes "ident \<noteq> []" "length ident < 64" "length signature = 64" "length pk = 32"
  defines "info \<equiv> tlv_bytes [mk_tlv TLVType_Identifier ident, mk_tlv TLVType_Signature signature]"
  shows "format_to (REQUEST_BUFSIZE - length info) [mk_tlv TLVType_PublicKey pk] =
       Inr (0, tlv_bytes [mk_tlv TLVType_PublicKey pk])"
    and "info @ tlv_bytes [mk_tlv TLVType_PublicKey pk] = tlv_bytes (info_msg ident signature pk)"
proof -
  have "signature \<noteq> []" "pk \<noteq> []" using assms(3,4) by auto
  with assms(1-3) have "length info \<le> 131"
    by (simp add: info_def length_tlv_bytes_small del: tlv_bytes.simps(2))
  then show "format_to (REQUEST_BUFSIZE - length info) [mk_tlv TLVType_PublicKey pk] =
       Inr (0, tlv_bytes [mk_tlv TLVType_PublicKey pk])"
    using \<open>pk \<noteq> []\<close> assms(4) by (simp add: format_to_wf REQUEST_BUFSIZE_def del: tlv_bytes.simps)
  show "info @ tlv_bytes [mk_tlv TLVType_PublicKey pk] = tlv_bytes (info_msg ident signature pk)"
    by (simp add: info_def info_msg_def)
qed

lemma sealed_info_ok:
  assumes "aead_ok C" "ident \<noteq> []" "length ident < 64" "length signature = 64" "length pk = 32"
  shows "msg_ok (encrypted_msg n (sealed C (tlv_bytes (info_msg ident signature pk)) k key))"
  using info_msg_ok(2) [OF assms(2-5)] sealed(3) [OF assms(1), of "tlv_bytes (info_msg ident signature pk)" k key]
  by (intro setup_msgs_ok) auto

text \<open>What a party with the session key \<open>K\<close> seals in its last message, and how the peer checks it.\<close>

definition signed_info :: "crypto \<Rightarrow> bytes \<Rightarrow> pair_keys \<Rightarrow> bytes \<Rightarrow> bytes \<Rightarrow> bytes \<Rightarrow> tlv_values" where
  "signed_info C K sign_key ident pk sk = info_msg ident (sign C (hkdf_value C K sign_key @ ident @ pk) sk) pk"

definition setup_M5 :: "crypto \<Rightarrow> bytes \<Rightarrow> bytes \<Rightarrow> bytes \<Rightarrow> bytes \<Rightarrow> tlv_values" where
  "setup_M5 C K ident pk sk = encrypted_msg 5
     (sealed C (tlv_bytes (signed_info C K PAIR_SETUP_CONTROLLER_SIGN ident pk sk))
        (hkdf_value C K PAIR_SETUP_MSG05) PAIR_SETUP_MSG05)"

definition setup_M6 :: "crypto \<Rightarrow> bytes \<Rightarrow> bytes \<Rightarrow> bytes \<Rightarrow> bytes \<Rightarrow> tlv_values" where
  "setup_M6 C K ident pk sk = encrypted_msg 6
     (sealed C (tlv_bytes (signed_info C K PAIR_SETUP_ACCESSORY_SIGN ident pk sk))
        (hkdf_value C K PAIR_SETUP_MSG06) PAIR_SETUP_MSG06)"

lemma setup_M5_M6_ok:
  assumes "aead_ok C" "sign_ok C" "ident \<noteq> []" "length ident < 64" "length pk = 32"
  shows "msg_ok (setup_M5 C K ident pk sk)" and "msg_ok (setup_M6 C K ident pk sk)"
  using sealed_info_ok [OF assms(1,3,4) _ assms(5)] sign_okD(1) [OF assms(2)]
  by (simp_all add: setup_M5_def setup_M6_def signed_info_def)

lemma verify_signed:
  assumes "sign_ok C" "length x = 32" "length ident < 64" "length pk = 32" "pk = sign_sk_to_pk C sk"
  shows "verify_info C (sign C (x @ ident @ pk) sk) pk x ident pk = 0"
  using assms sign_okD(2) [OF assms(1)] by (simp add: verify_info_def create_info_def)

lemma client_makes_M5:
  assumes "kdf_ok C" "aead_ok C" "sign_ok C"
    and "cs_user (s_client h) = Some u" and "cs_device_id (s_client h) = ident" and "ident \<noteq> []" and "length ident < 64"
    and "cs_public_key (s_client h) = pk" and "length pk = 32" and "cs_private_key (s_client h) = sk"
  shows "client_setup_request3 C r h =
     Inr (Some (tlv_bytes (setup_M5 C (srp_user_get_session_key u) ident pk sk)), h)"
proof -
  note create = create_device_info [OF assms(6,7) _ assms(9) sign_okD(1) [OF assms(3)]]
  note append = append_public_key [OF assms(6,7) sign_okD(1) [OF assms(3)] assms(9)]
  show ?thesis
    using assms msg_ok_format [OF setup_M5_M6_ok(1) [OF assms(2,3,6,7,9)]]
    by (simp add: client_setup_request3_def hkdf_value [OF assms(1)] create append sealed(1) [OF assms(2)] state_tlv_eq
        setup_M5_def signed_info_def encrypted_msg_def Let_def
        pair_tlv_new_def del: tlv_bytes.simps)
qed

lemma server_reads_M5:
  assumes "kdf_ok C" "aead_ok C" "sign_ok C"
    and "ss_verifier (s_server h) = Some ver" and "ident \<noteq> []" and "length ident < 64"
    and "pk = sign_sk_to_pk C sk"
  shows "server_setup_request3 C r h (tlv_bytes (setup_M5 C (srp_verifier_get_session_key ver) ident pk sk)) =
     Inr (0, h\<lparr>s_result := (s_result h)\<lparr>res_device_id := overlay (res_device_id (s_result h)) ident,
                res_client_public_key := pk\<rparr>\<rparr>)"
proof -
  let ?K = "srp_verifier_get_session_key ver"
  have pk: "length pk = 32" using assms(7) sign_okD(3) [OF assms(3)] by simp
  note ok = setup_M5_M6_ok(1) [OF assms(2,3,5,6) pk, of ?K sk]
  have inner: "message_process (tlv_bytes (signed_info C ?K PAIR_SETUP_CONTROLLER_SIGN ident pk sk)) =
      Inr (Inr (signed_info C ?K PAIR_SETUP_CONTROLLER_SIGN ident pk sk))"
    unfolding signed_info_def by (intro msg_ok_process info_msg_ok(1) assms(5,6) sign_okD(1) [OF assms(3)] pk)
  have sig: "verify_info C (sign C (hkdf_value C ?K PAIR_SETUP_CONTROLLER_SIGN @ ident @ pk) sk) pk
      (hkdf_value C ?K PAIR_SETUP_CONTROLLER_SIGN) ident pk = 0"
    by (rule verify_signed [OF assms(3) hkdf_value(2) [OF assms(1)] assms(6) pk assms(7)]) simp_all
  show ?thesis
    using assms(4,6) pk sign_okD(1) [OF assms(3)] inner sig msg_ok_process [OF ok]
    by (simp add: server_setup_request3_def hkdf_value [OF assms(1)] setup_M5_def sealed(2,3) [OF assms(2)]
        setup_msgs_values signed_info_def info_msg_values AUTHTAG_LENGTH_def Let_def del: tlv_bytes.simps)
qed

lemma server_makes_M6:
  assumes "kdf_ok C" "aead_ok C" "sign_ok C" and "s_status h \<noteq> PAIR_STATUS_AUTH_FAILED"
    and "ss_verifier (s_server h) = Some ver" and "ss_device_id (s_server h) = ident" and "ident \<noteq> []"
    and "length ident < 64" and "ss_public_key (s_server h) = pk" and "length pk = 32"
    and "ss_private_key (s_server h) = sk"
  shows "server_setup_response3 C r h =
     Inr (Some (tlv_bytes (setup_M6 C (srp_verifier_get_session_key ver) ident pk sk)),
       h\<lparr>s_cb_calls := (if ss_add_cb (s_server h)
            then s_cb_calls h @ [(res_client_public_key (s_result h), c_string (res_device_id (s_result h)))]
            else s_cb_calls h),
         s_status := PAIR_STATUS_COMPLETED\<rparr>)"
proof -
  note create = create_device_info [OF assms(7,8) _ assms(10) sign_okD(1) [OF assms(3)]]
  note append = append_public_key [OF assms(7,8) sign_okD(1) [OF assms(3)] assms(10)]
  show ?thesis
    using assms(4-) msg_ok_format [OF setup_M5_M6_ok(2) [OF assms(2,3,7,8,10)]]
    by (simp add: server_setup_response3_def hkdf_value [OF assms(1)] create append sealed(1) [OF assms(2)] state_tlv_eq
        setup_M6_def signed_info_def encrypted_msg_def Let_def
        pair_tlv_new_def del: tlv_bytes.simps)
qed

lemma client_reads_M6:
  assumes "kdf_ok C" "aead_ok C" "sign_ok C"
    and "cs_user (s_client h) = Some u" and "ident \<noteq> []" and "length ident < 64" and "pk = sign_sk_to_pk C sk"
  shows "\<exists>h'. client_setup_response3 C r h (tlv_bytes (setup_M6 C (srp_user_get_session_key u) ident pk sk)) = Inr (0, h')
     \<and> s_status h' = PAIR_STATUS_COMPLETED \<and> s_type h' = s_type h \<and> s_result_str h' = s_result_str h
     \<and> s_result h' = (s_result h)\<lparr>res_client_private_key := cs_private_key (s_client h),
          res_client_public_key := cs_public_key (s_client h), res_server_public_key := pk,
          res_device_id := overlay (res_device_id (s_result h)) ident\<rparr>
     \<and> s_cb_calls h' = (if cs_add_cb (s_client h)
          then s_cb_calls h @ [(pk, c_string (overlay (res_device_id (s_result h)) ident))] else s_cb_calls h)"
proof -
  let ?K = "srp_user_get_session_key u"
  have pk: "length pk = 32" using assms(7) sign_okD(3) [OF assms(3)] by simp
  note ok = setup_M5_M6_ok(2) [OF assms(2,3,5,6) pk, of ?K sk]
  have inner: "message_process (tlv_bytes (signed_info C ?K PAIR_SETUP_ACCESSORY_SIGN ident pk sk)) =
      Inr (Inr (signed_info C ?K PAIR_SETUP_ACCESSORY_SIGN ident pk sk))"
    unfolding signed_info_def by (intro msg_ok_process info_msg_ok(1) assms(5,6) sign_okD(1) [OF assms(3)] pk)
  have sig: "verify_info C (sign C (hkdf_value C ?K PAIR_SETUP_ACCESSORY_SIGN @ ident @ pk) sk) pk
      (hkdf_value C ?K PAIR_SETUP_ACCESSORY_SIGN) ident pk = 0"
    by (rule verify_signed [OF assms(3) hkdf_value(2) [OF assms(1)] assms(6) pk assms(7)]) simp_all
  show ?thesis
    using assms(4,6) pk sign_okD(1) [OF assms(3)] inner sig msg_ok_process [OF ok]
    by (simp add: client_setup_response3_def hkdf_value [OF assms(1)] setup_M6_def sealed(2,3) [OF assms(2)]
        setup_msgs_values signed_info_def info_msg_values AUTHTAG_LENGTH_def Let_def del: tlv_bytes.simps)
qed

end
