(* ===== verification/Setup_Run.thy ===== *)
theory Setup_Run
  imports Handshake
begin

text \<open>
  Runs of pair setup: a client of the library and a server of the library, each called through
  \<open>src/pair_ap/pair.c\<close>, exchange the messages M1 to M4 (transient pairing) or M1 to M6.
\<close>

subsection \<open>The runs\<close>

text \<open>A null message, or a negative return value, ends the run: \<open>Inr None\<close>.\<close>

definition message_of :: "setup_request \<Rightarrow> (bytes \<Rightarrow> setup_ctx \<Rightarrow> 'a option res) \<Rightarrow> 'a option res" where
  "message_of m k = bind_res m (\<lambda>(out, h). case out of None \<Rightarrow> Inr None | Some data \<Rightarrow> k data h)"

definition reply_of ::
  "(int \<times> bytes option \<times> setup_ctx) res \<Rightarrow> (bytes \<Rightarrow> setup_ctx \<Rightarrow> 'a option res) \<Rightarrow> 'a option res" where
  "reply_of m k = bind_res m (\<lambda>(ret, out, h).
     if ret < 0 then Inr None else case out of None \<Rightarrow> Inr None | Some data \<Rightarrow> k data h)"

definition accepted :: "setup_response \<Rightarrow> (setup_ctx \<Rightarrow> 'a option res) \<Rightarrow> 'a option res" where
  "accepted m k = bind_res m (\<lambda>(ret, h). if ret < 0 then Inr None else k h)"

definition run_M1_to_M4 ::
  "pair_table \<Rightarrow> crypto \<Rightarrow> rand \<Rightarrow> rand \<Rightarrow> setup_ctx \<Rightarrow> setup_ctx
     \<Rightarrow> (setup_ctx \<Rightarrow> setup_ctx \<Rightarrow> 'a option res) \<Rightarrow> 'a option res" where
  "run_M1_to_M4 T C rc rs c s k =
     message_of (pair_setup_request1 T C rc c) (\<lambda>m1 c1.
     reply_of (pair_setup T C rs s m1) (\<lambda>m2 s1.
     accepted (pair_setup_response1 T C rc c1 m2) (\<lambda>c2.
     message_of (pair_setup_request2 T C rc c2) (\<lambda>m3 c3.
     reply_of (pair_setup T C rs s1 m3) (\<lambda>m4 s2.
     accepted (pair_setup_response2 T C rc c3 m4) (\<lambda>c4. k c4 s2))))))"

definition run_M5_to_M6 ::
  "pair_table \<Rightarrow> crypto \<Rightarrow> rand \<Rightarrow> rand \<Rightarrow> setup_ctx \<Rightarrow> setup_ctx \<Rightarrow> (setup_ctx \<times> setup_ctx) option res" where
  "run_M5_to_M6 T C rc rs c s =
     message_of (pair_setup_request3 T C rc c) (\<lambda>m5 c1.
     reply_of (pair_setup T C rs s m5) (\<lambda>m6 s1.
     accepted (pair_setup_response3 T C rc c1 m6) (\<lambda>c2. Inr (Some (c2, s1)))))"

definition transient_run :: "pair_table \<Rightarrow> crypto \<Rightarrow> rand \<Rightarrow> rand \<Rightarrow> setup_ctx \<Rightarrow> setup_ctx \<Rightarrow> (setup_ctx \<times> setup_ctx) option res" where
  "transient_run T C rc rs c s = run_M1_to_M4 T C rc rs c s (\<lambda>c1 s1. Inr (Some (c1, s1)))"

definition normal_run :: "pair_table \<Rightarrow> crypto \<Rightarrow> rand \<Rightarrow> rand \<Rightarrow> setup_ctx \<Rightarrow> setup_ctx \<Rightarrow> (setup_ctx \<times> setup_ctx) option res" where
  "normal_run T C rc rs c s = run_M1_to_M4 T C rc rs c s (run_M5_to_M6 T C rc rs)"

lemma message_of_simps [simp]:
  "message_of (Inl f) k = Inl f" "message_of (Inr (None, h)) k = Inr None" "message_of (Inr (Some d, h)) k = k d h"
  by (simp_all add: message_of_def)

lemma reply_of_simps [simp]:
  "reply_of (Inl f) k = Inl f" "ret < 0 \<Longrightarrow> reply_of (Inr (ret, out, h)) k = Inr None"
  "reply_of (Inr (ret, None, h)) k = Inr None" "0 \<le> ret \<Longrightarrow> reply_of (Inr (ret, Some d, h)) k = k d h"
  by (simp_all add: reply_of_def)

lemma accepted_simps [simp]:
  "accepted (Inl f) k = Inl f" "ret < 0 \<Longrightarrow> accepted (Inr (ret, h)) k = Inr None" "0 \<le> ret \<Longrightarrow> accepted (Inr (ret, h)) k = k h"
  by (simp_all add: accepted_def)

subsection \<open>Dispatch\<close>

definition is_homekit_client :: "pair_type \<Rightarrow> bool" where
  "is_homekit_client ty \<longleftrightarrow> ty = PAIR_CLIENT_HOMEKIT_NORMAL \<or> ty = PAIR_CLIENT_HOMEKIT_TRANSIENT"

lemmas table_defs = pair_client_homekit_normal_def pair_client_homekit_transient_def pair_server_homekit_def
  call_setup_request_def call_setup_response_def

lemma client_dispatch:
  assumes "is_homekit_client (s_type h)"
  shows "pair_setup_request1 (homekit_table fruit) C r h = client_setup_request1 C r h"
    and "pair_setup_request2 (homekit_table fruit) C r h = client_setup_request2 C r h"
    and "pair_setup_request3 (homekit_table fruit) C r h = client_setup_request3 C r h"
    and "pair_setup_response1 (homekit_table fruit) C r h d = client_setup_response1 C r h d"
    and "pair_setup_response2 (homekit_table fruit) C r h d = client_setup_response2 C r h d"
    and "pair_setup_response3 (homekit_table fruit) C r h d =
           bind_res (client_setup_response3 C r h d) (\<lambda>(ret, h1). Inr (if ret \<noteq> 0 then -1 else 0, h1))"
  using assms
  by (auto simp: is_homekit_client_def pair_setup_request1_def pair_setup_request2_def pair_setup_request3_def
      pair_setup_response1_def pair_setup_response2_def pair_setup_response3_def table_defs)

lemma server_dispatch:
  assumes "s_type h = PAIR_SERVER_HOMEKIT"
  shows "pair_setup_request1 (homekit_table fruit) C r h = server_setup_response1 C r h"
    and "pair_setup_request2 (homekit_table fruit) C r h = server_setup_response2 C r h"
    and "pair_setup_request3 (homekit_table fruit) C r h = server_setup_response3 C r h"
    and "pair_setup_response1 (homekit_table fruit) C r h d = server_setup_request1 C r h d"
    and "pair_setup_response2 (homekit_table fruit) C r h d = server_setup_request2 C r h d"
    and "pair_setup_response3 (homekit_table fruit) C r h d =
           bind_res (server_setup_request3 C r h d) (\<lambda>(ret, h1). Inr (if ret \<noteq> 0 then -1 else 0, h1))"
  using assms
  by (auto simp: pair_setup_request1_def pair_setup_request2_def pair_setup_request3_def
      pair_setup_response1_def pair_setup_response2_def pair_setup_response3_def table_defs)

lemma server_pair_setup:
  assumes "s_type h = PAIR_SERVER_HOMEKIT"
  shows "state_get d = Inr (1, None) \<Longrightarrow> pair_setup (homekit_table fruit) C r h d =
      setup_exchange (\<lambda>h. pair_setup_response1 (homekit_table fruit) C r h d) (pair_setup_request1 (homekit_table fruit) C r) h"
    and "state_get d = Inr (3, None) \<Longrightarrow> pair_setup (homekit_table fruit) C r h d =
      setup_exchange (\<lambda>h. pair_setup_response2 (homekit_table fruit) C r h d) (pair_setup_request2 (homekit_table fruit) C r) h"
    and "state_get d = Inr (5, None) \<Longrightarrow> pair_setup (homekit_table fruit) C r h d =
      setup_exchange (\<lambda>h. pair_setup_response3 (homekit_table fruit) C r h d) (pair_setup_request3 (homekit_table fruit) C r) h"
  using assms by (simp_all add: pair_setup_def table_defs Let_def)

lemma setup_exchange_ok:
  assumes "response h = Inr (0, h1)" and "request h1 = Inr (Some out, h2)"
  shows "setup_exchange response request h = Inr (0, Some out, h2)"
  using assms by (simp add: setup_exchange_def)

subsection \<open>New contexts\<close>

lemma pair_setup_new_client:
  assumes "pair_setup_new (homekit_table fruit) C r ty pin cb dev = Some c" and "is_homekit_client ty"
  shows "s_type c = ty \<and> s_status c = PAIR_STATUS_IN_PROGRESS \<and> s_result c = zero_result
     \<and> s_result_str c = replicate 256 0 \<and> s_cb_calls c = []
     \<and> cs_public_key (s_client c) = sign_sk_to_pk C (r_sign_sk r) \<and> cs_private_key (s_client c) = r_sign_sk r
     \<and> cs_device_id (s_client c) = (case dev of None \<Rightarrow> [] | Some d \<Rightarrow> d) \<and> length (cs_device_id (s_client c)) < 64
     \<and> cs_add_cb (s_client c) = cb"
  using assms
  by (auto simp: pair_setup_new_def client_setup_new_def is_homekit_client_def table_defs Let_def
      zero_setup_ctx_def PAIR_AP_DEVICE_ID_LEN_MAX_def split: option.splits if_splits)

lemma pair_setup_new_server:
  assumes "pair_setup_new (homekit_table fruit) C r PAIR_SERVER_HOMEKIT pin cb dev = Some s"
  obtains d where "dev = Some d" and "length d < 64" and "s_type s = PAIR_SERVER_HOMEKIT"
    and "s_status s = PAIR_STATUS_IN_PROGRESS" and "s_result s = zero_result" and "s_cb_calls s = []"
    and "ss_device_id (s_server s) = d" and "ss_add_cb (s_server s) = cb"
    and "ss_public_key (s_server s) = fst (server_keypair C d)"
    and "ss_private_key (s_server s) = Product_Type.snd (server_keypair C d)"
  using assms
  by (auto simp: pair_setup_new_def server_setup_new_def table_defs Let_def
      zero_setup_ctx_def PAIR_AP_DEVICE_ID_LEN_MAX_def split: option.splits if_splits prod.splits)

subsection \<open>M1 to M4\<close>

text \<open>
  The conditions of an honest run: both sides have the same pin, the random values are what the
  libraries draw (the salt has its full 16 bytes, which \<open>client_setup_response1\<close> insists on), and the
  SRP safety checks pass.
\<close>

definition honest_srp :: "crypto \<Rightarrow> rand \<Rightarrow> rand \<Rightarrow> bytes \<Rightarrow> bool" where
  "honest_srp C rc rs pin \<longleftrightarrow> 0 \<le> r_exp rc \<and> 0 \<le> r_exp rs \<and> 0 \<le> r_salt rs
     \<and> length (mpi_print C (r_salt rs)) = 16
     \<and> srp_B C USERNAME pin (r_salt rs) (r_exp rs) \<noteq> 0
     \<and> srp_u C (srp_A (r_exp rc)) (srp_B C USERNAME pin (r_salt rs) (r_exp rs)) \<noteq> 0"

lemma srp_public_values:
  assumes "mpi_ok C"
  shows "mpi_print C (srp_A a) \<noteq> []" "length (mpi_print C (srp_A a)) \<le> 384"
    and "srp_B C user pw s b \<noteq> 0 \<Longrightarrow> mpi_print C (srp_B C user pw s b) \<noteq> []"
    and "length (mpi_print C (srp_B C user pw s b)) \<le> 384"
  using srp_A_props [OF assms, of a] srp_B_props [OF assms, of user pw s b] mpi_print_Nil_iff [OF assms]
  by (simp_all add: bnum_num_bytes_print [OF assms])

lemma M1_to_M4:
  fixes k :: "setup_ctx \<Rightarrow> setup_ctx \<Rightarrow> (setup_ctx \<times> setup_ctx) option res"
  assumes C: "mpi_ok C" "digest_ok C" and honest: "honest_srp C rc rs pin"
    and c: "is_homekit_client (s_type c)" "cs_pin (s_client c) = pin" "length (res_shared_secret (s_result c)) = 64"
    and s: "s_type s = PAIR_SERVER_HOMEKIT" "ss_pin (s_server s) = pin" "length (res_shared_secret (s_result s)) = 64"
      "s_status s \<noteq> PAIR_STATUS_AUTH_FAILED"
  obtains c4 s2 u ver where
    "\<And>k :: setup_ctx \<Rightarrow> setup_ctx \<Rightarrow> (setup_ctx \<times> setup_ctx) option res.
       run_M1_to_M4 (homekit_table fruit) C rc rs c s k = k c4 s2"
    and "cs_user (s_client c4) = Some u" and "ss_verifier (s_server s2) = Some ver"
    and "srp_user_get_session_key u = srp_verifier_get_session_key ver"
    and "length (srp_user_get_session_key u) = 64"
    and "s_type c4 = s_type c" and "s_type s2 = s_type s" and "s_cb_calls c4 = s_cb_calls c" "s_cb_calls s2 = s_cb_calls s"
    and "s_result_str c4 = s_result_str c"
    and "cs_public_key (s_client c4) = cs_public_key (s_client c)" "cs_private_key (s_client c4) = cs_private_key (s_client c)"
      "cs_device_id (s_client c4) = cs_device_id (s_client c)" "cs_add_cb (s_client c4) = cs_add_cb (s_client c)"
    and "ss_public_key (s_server s2) = ss_public_key (s_server s)" "ss_private_key (s_server s2) = ss_private_key (s_server s)"
      "ss_device_id (s_server s2) = ss_device_id (s_server s)" "ss_add_cb (s_server s2) = ss_add_cb (s_server s)"
    and "if s_type c = PAIR_CLIENT_HOMEKIT_TRANSIENT
         then s_status c4 = PAIR_STATUS_COMPLETED \<and> s_status s2 = PAIR_STATUS_COMPLETED
           \<and> s_result c4 = (s_result c)\<lparr>res_shared_secret := srp_user_get_session_key u, res_shared_secret_len := 64\<rparr>
           \<and> s_result s2 = (s_result s)\<lparr>res_shared_secret := srp_user_get_session_key u, res_shared_secret_len := 64\<rparr>
         else s_status c4 = s_status c \<and> s_status s2 = s_status s \<and> s_result c4 = s_result c \<and> s_result s2 = s_result s"
proof -
  let ?T = "homekit_table fruit"
  let ?a = "r_exp rc" and ?b = "r_exp rs" and ?salt = "r_salt rs"
  let ?A = "srp_A ?a" and ?B = "srp_B C USERNAME pin ?salt ?b"
  let ?M = "srp_M C USERNAME pin ?salt ?a ?b" and ?K = "srp_K C USERNAME pin ?salt ?a ?b"
  let ?HAMK = "srp_HAMK C USERNAME pin ?salt ?a ?b"
  from honest have rnd: "0 \<le> ?a" "0 \<le> ?b" "0 \<le> ?salt" "length (mpi_print C ?salt) = 16" "?B \<noteq> 0" "srp_u C ?A ?B \<noteq> 0"
    by (simp_all add: honest_srp_def)
  note pub = srp_public_values [OF C(1)]
  note len = length_srp_hashes [OF C(2)]
  let ?u0 = "srp_user_fresh USERNAME pin"
  let ?u1 = "?u0\<lparr>u_a := ?a, u_A := ?A, u_bytes_A := mpi_print C ?A\<rparr>"
  have start: "srp_user_start_authentication C ?a ?u0 = (?u1, mpi_print C ?A)"
    by (rule srp_user_start_eq) (simp_all add: C rnd)
  obtain S where proc: "srp_user_process_challenge C ?u1 (mpi_print C ?salt) (mpi_print C ?B) =
      Inr (?u1\<lparr>u_S := S, u_session_key := ?K, u_session_key_len := 64, u_M := ?M, u_H_AMK := ?HAMK\<rparr>, ?M)"
    using srp_client_eq [OF C(1) rnd(3,1) _ _ _ _ rnd(5,6), of ?u1] by auto
  let ?u2 = "?u1\<lparr>u_S := S, u_session_key := ?K, u_session_key_len := 64, u_M := ?M, u_H_AMK := ?HAMK\<rparr>"
  let ?u3 = "?u2\<lparr>u_authenticated := True\<rparr>"
  let ?ver = "\<lparr>v_alg = HASH_SHA512, v_ng = ng_3072, v_bytes_B = mpi_print C ?B,
       v_authenticated = False, v_username = USERNAME, v_M = ?M, v_H_AMK = ?HAMK, v_session_key = ?K\<rparr>"
  have M2: "msg_ok (setup_M2 (mpi_print C ?salt) (mpi_print C ?B))"
    using pub(3) [OF rnd(5)] pub(4) [of USERNAME pin ?salt ?b] rnd(4) by (intro setup_msgs_ok) auto
  have M3: "msg_ok (setup_M3 (mpi_print C ?A) ?M)"
    using pub(1,2) [of ?a] len(2) [of USERNAME pin ?salt ?a ?b] by (intro setup_msgs_ok) auto
  have M4: "msg_ok (setup_M4 ?HAMK)"
    using len(3) [of USERNAME pin ?salt ?a ?b] by (intro setup_msgs_ok) auto
  let ?tr = "s_type c = PAIR_CLIENT_HOMEKIT_TRANSIENT"
  let ?c1 = "c\<lparr>s_client := (s_client c)\<lparr>cs_user := Some ?u0\<rparr>\<rparr>"
  let ?s1 = "s\<lparr>s_server := (s_server s)\<lparr>ss_is_transient := ?tr, ss_salt := mpi_print C ?salt,
      ss_v := mpi_print C (srp_v C USERNAME pin ?salt), ss_b := mpi_print C ?b, ss_pkB := mpi_print C ?B\<rparr>\<rparr>"
  let ?c2 = "?c1\<lparr>s_client := (s_client ?c1)\<lparr>cs_pkB := mpi_print C ?B, cs_salt := mpi_print C ?salt\<rparr>\<rparr>"
  let ?c3 = "?c2\<lparr>s_client := (s_client ?c2)\<lparr>cs_user := Some ?u2, cs_pkA := mpi_print C ?A, cs_M1 := ?M\<rparr>\<rparr>"
  let ?s2 = "?s1\<lparr>s_server := (s_server ?s1)\<lparr>ss_pkA := mpi_print C ?A, ss_M1 := ?M,
      ss_verifier := Some (?ver\<lparr>v_authenticated := True\<rparr>), ss_M2 := Some ?HAMK, ss_M2_len := 64\<rparr>\<rparr>"
  let ?s3 = "if ?tr then ?s2\<lparr>s_result := (s_result s)\<lparr>res_shared_secret := ?K, res_shared_secret_len := 64\<rparr>,
            s_status := PAIR_STATUS_COMPLETED\<rparr> else ?s2"
  let ?c4 = "?c3\<lparr>s_client := (s_client ?c3)\<lparr>cs_user := Some ?u3, cs_M2 := ?HAMK\<rparr>\<rparr>"
  let ?c5 = "if ?tr then ?c4\<lparr>s_result := (s_result c)\<lparr>res_shared_secret := ?K, res_shared_secret_len := 64\<rparr>,
            s_status := PAIR_STATUS_COMPLETED\<rparr> else ?c4"
  have 1: "pair_setup_request1 ?T C rc c = Inr (Some (tlv_bytes (setup_M1 (s_type c))), ?c1)"
    using client_makes_M1 [OF C(1), of rc c] c by (simp add: client_dispatch)
  have 2: "pair_setup ?T C rs s (tlv_bytes (setup_M1 (s_type c))) =
      Inr (0, Some (tlv_bytes (setup_M2 (mpi_print C ?salt) (mpi_print C ?B))), ?s1)"
    unfolding server_pair_setup(1) [OF s(1) setup_msgs_state(1)]
  proof (rule setup_exchange_ok)
    show "pair_setup_response1 ?T C rs s (tlv_bytes (setup_M1 (s_type c))) = Inr (0, ?s1)"
      using server_reads_M1 [OF C(1) rnd(2)] s by (simp add: server_dispatch)
    show "pair_setup_request1 ?T C rs ?s1 =
        Inr (Some (tlv_bytes (setup_M2 (mpi_print C ?salt) (mpi_print C ?B))), ?s1)"
      using server_makes_M2 [of ?s1 C rs] s M2 by (simp add: server_dispatch)
  qed
  have 3: "pair_setup_response1 ?T C rc ?c1 (tlv_bytes (setup_M2 (mpi_print C ?salt) (mpi_print C ?B))) = Inr (0, ?c2)"
    using client_reads_M2 [OF M2 rnd(4) pub(4), where h = ?c1 and C = C and r = rc] c by (simp add: client_dispatch)
  have 4: "pair_setup_request2 ?T C rc ?c2 = Inr (Some (tlv_bytes (setup_M3 (mpi_print C ?A) ?M)), ?c3)"
    using client_makes_M3 [where h = ?c2 and C = C and r = rc] start proc M3 c by (simp add: client_dispatch)
  have 5: "pair_setup ?T C rs ?s1 (tlv_bytes (setup_M3 (mpi_print C ?A) ?M)) =
      Inr (0, Some (tlv_bytes (setup_M4 ?HAMK)), ?s3)"
  proof -
    have ty: "s_type ?s1 = PAIR_SERVER_HOMEKIT" using s(1) by simp
    show ?thesis
      unfolding server_pair_setup(2) [OF ty setup_msgs_state(3) [OF M3]]
    proof (rule setup_exchange_ok)
      show "pair_setup_response2 ?T C rs ?s1 (tlv_bytes (setup_M3 (mpi_print C ?A) ?M)) = Inr (0, ?s2)"
        using server_reads_M3 [OF M3 pub(2) len(2), where h = ?s1 and C = C and r = rs]
          srp_server_eq [OF C(1) rnd(3,2), of USERNAME pin ?a] s len(2) by (simp add: server_dispatch)
      show "pair_setup_request2 ?T C rs ?s2 = Inr (Some (tlv_bytes (setup_M4 ?HAMK)), ?s3)"
        using server_makes_M4 [where h = ?s2 and C = C and r = rs] s len by (simp add: server_dispatch)
    qed
  qed
  have 6: "pair_setup_response2 ?T C rc ?c3 (tlv_bytes (setup_M4 ?HAMK)) = Inr (0, ?c5)"
    using client_reads_M4 [OF len(3), where h = ?c3 and u = ?u2 and C = C and r = rc] c len
    by (simp add: client_dispatch srp_user_get_session_key_def)
  have "run_M1_to_M4 ?T C rc rs c s k = k ?c5 ?s3" for k :: "setup_ctx \<Rightarrow> setup_ctx \<Rightarrow> (setup_ctx \<times> setup_ctx) option res"
    by (simp only: run_M1_to_M4_def 1 2 3 4 5 6 message_of_simps reply_of_simps accepted_simps order_refl)
  then show thesis
    by (rule that [of ?c5 ?s3 ?u3 "?ver\<lparr>v_authenticated := True\<rparr>"]; cases ?tr)
      (use len(1) [of USERNAME pin ?salt ?a ?b] in
        \<open>simp_all add: srp_user_get_session_key_def srp_verifier_get_session_key_def\<close>)
qed

subsection \<open>Properties\<close>

lemma length_zero_result [simp]:
  "length (res_shared_secret zero_result) = 64" "res_device_id zero_result = replicate 64 0"
  "res_shared_secret_len zero_result = 0"
  by (simp_all add: zero_result_def)


lemma server_keypair_ok:
  assumes "sign_ok C"
  shows "fst (server_keypair C d) = sign_sk_to_pk C (snd (server_keypair C d))"
    and "length (fst (server_keypair C d)) = 32" and "length (snd (server_keypair C d)) = 64"
  using sign_okD(4-6) [OF assms] by (simp_all add: server_keypair_def Let_def)

lemma M5_to_M6:
  assumes C: "kdf_ok C" "aead_ok C" "sign_ok C"
    and c: "is_homekit_client (s_type c)" "cs_user (s_client c) = Some u" "cs_device_id (s_client c) = cid"
      "cid \<noteq> []" "length cid < 64" "cs_private_key (s_client c) = csk" "cs_public_key (s_client c) = sign_sk_to_pk C csk"
    and s: "s_type s = PAIR_SERVER_HOMEKIT" "ss_verifier (s_server s) = Some ver" "ss_device_id (s_server s) = sid"
      "sid \<noteq> []" "length sid < 64" "ss_private_key (s_server s) = ssk" "ss_public_key (s_server s) = sign_sk_to_pk C ssk"
      "s_status s \<noteq> PAIR_STATUS_AUTH_FAILED"
    and K: "srp_user_get_session_key u = srp_verifier_get_session_key ver"
  shows "\<exists>c'. run_M5_to_M6 (homekit_table fruit) C rc rs c s = Inr (Some (c',
       s\<lparr>s_result := (s_result s)\<lparr>res_device_id := overlay (res_device_id (s_result s)) cid,
              res_client_public_key := sign_sk_to_pk C csk\<rparr>,
         s_cb_calls := (if ss_add_cb (s_server s)
            then s_cb_calls s @ [(sign_sk_to_pk C csk, c_string (overlay (res_device_id (s_result s)) cid))]
            else s_cb_calls s),
         s_status := PAIR_STATUS_COMPLETED\<rparr>))
     \<and> s_status c' = PAIR_STATUS_COMPLETED \<and> s_type c' = s_type c \<and> s_result_str c' = s_result_str c
     \<and> s_result c' = (s_result c)\<lparr>res_client_private_key := csk,
          res_client_public_key := sign_sk_to_pk C csk, res_server_public_key := sign_sk_to_pk C ssk,
          res_device_id := overlay (res_device_id (s_result c)) sid\<rparr>
     \<and> s_cb_calls c' = (if cs_add_cb (s_client c)
          then s_cb_calls c @ [(sign_sk_to_pk C ssk, c_string (overlay (res_device_id (s_result c)) sid))]
          else s_cb_calls c)"
proof -
  let ?T = "homekit_table fruit" and ?K = "srp_user_get_session_key u"
  note pk = sign_okD(3) [OF C(3)]
  let ?s1 = "s\<lparr>s_result := (s_result s)\<lparr>res_device_id := overlay (res_device_id (s_result s)) cid,
      res_client_public_key := sign_sk_to_pk C csk\<rparr>\<rparr>"
  have 1: "pair_setup_request3 ?T C rc c = Inr (Some (tlv_bytes (setup_M5 C ?K cid (sign_sk_to_pk C csk) csk)), c)"
    using client_makes_M5 [OF C c(2,3,4,5,7) pk c(6)] c(1) by (simp add: client_dispatch)
  note M5 = setup_msgs_state(5) [OF setup_M5_M6_ok(1) [OF C(2,3) c(4,5) pk, unfolded setup_M5_def], folded setup_M5_def, simplified]
  have 2: "pair_setup ?T C rs s (tlv_bytes (setup_M5 C ?K cid (sign_sk_to_pk C csk) csk)) = Inr (0,
      Some (tlv_bytes (setup_M6 C ?K sid (sign_sk_to_pk C ssk) ssk)),
      ?s1\<lparr>s_cb_calls := (if ss_add_cb (s_server s)
            then s_cb_calls s @ [(sign_sk_to_pk C csk, c_string (overlay (res_device_id (s_result s)) cid))]
            else s_cb_calls s), s_status := PAIR_STATUS_COMPLETED\<rparr>)"
    unfolding server_pair_setup(3) [OF s(1) M5]
  proof (rule setup_exchange_ok)
    show "pair_setup_response3 ?T C rs s (tlv_bytes (setup_M5 C ?K cid (sign_sk_to_pk C csk) csk)) = Inr (0, ?s1)"
      using server_reads_M5 [OF C s(2) c(4,5) refl] s(1) K by (simp add: server_dispatch)
    show "pair_setup_request3 ?T C rs ?s1 = Inr (Some (tlv_bytes (setup_M6 C ?K sid (sign_sk_to_pk C ssk) ssk)),
       ?s1\<lparr>s_cb_calls := (if ss_add_cb (s_server s)
            then s_cb_calls s @ [(sign_sk_to_pk C csk, c_string (overlay (res_device_id (s_result s)) cid))]
            else s_cb_calls s), s_status := PAIR_STATUS_COMPLETED\<rparr>)"
      using server_makes_M6 [OF C, where h = ?s1 and r = rs and pk = "sign_sk_to_pk C ssk" and ver = ver] s pk K
      by (simp add: server_dispatch)
  qed
  obtain c' where 3: "client_setup_response3 C rc c (tlv_bytes (setup_M6 C ?K sid (sign_sk_to_pk C ssk) ssk)) = Inr (0, c')"
    and c': "s_status c' = PAIR_STATUS_COMPLETED" "s_type c' = s_type c" "s_result_str c' = s_result_str c"
      "s_result c' = (s_result c)\<lparr>res_client_private_key := csk,
          res_client_public_key := sign_sk_to_pk C csk, res_server_public_key := sign_sk_to_pk C ssk,
          res_device_id := overlay (res_device_id (s_result c)) sid\<rparr>"
      "s_cb_calls c' = (if cs_add_cb (s_client c)
          then s_cb_calls c @ [(sign_sk_to_pk C ssk, c_string (overlay (res_device_id (s_result c)) sid))]
          else s_cb_calls c)"
    using client_reads_M6 [OF C c(2) s(4,5) refl, of rc] c(6,7) by auto
  have "run_M5_to_M6 ?T C rc rs c s = Inr (Some (c', ?s1\<lparr>s_cb_calls := (if ss_add_cb (s_server s)
            then s_cb_calls s @ [(sign_sk_to_pk C csk, c_string (overlay (res_device_id (s_result s)) cid))]
            else s_cb_calls s), s_status := PAIR_STATUS_COMPLETED\<rparr>))"
    unfolding run_M5_to_M6_def 1 message_of_simps 2
    by (simp add: client_dispatch [OF c(1)] 3)
  with c' show ?thesis by blast
qed

text \<open>The text of the keys that \<open>client_setup_result\<close> leaves in \<open>result_str\<close>.\<close>

definition client_keys_text :: "bytes \<Rightarrow> bytes \<Rightarrow> bytes" where
  "client_keys_text sk pk = concat (map sprintf_02x sk) @ concat (map sprintf_02x pk)"

lemma c_string_terminated:
  assumes "0 \<notin> set xs"
  shows "c_string (overlay arr (xs @ [0])) = xs"
proof -
  have "takeWhile (\<lambda>b. b \<noteq> 0) (xs @ 0 # ys) = xs" for ys
    using assms by (induction xs) auto
  then show ?thesis by (simp add: c_string_def overlay_def)
qed

lemma c_string_result:
  "c_string (s_result_str (snd (client_setup_result h))) =
     client_keys_text (res_client_private_key (s_result h)) (res_server_public_key (s_result h))"
proof -
  have "0 \<notin> set (client_keys_text (res_client_private_key (s_result h)) (res_server_public_key (s_result h)))"
    using sprintf_no_zero by (simp add: client_keys_text_def del: set_concat)
  from c_string_terminated [OF this, of "s_result_str h"] show ?thesis
    by (simp add: client_setup_result_def client_keys_text_def)
qed

text \<open>What both sides know after a normal pairing.\<close>

definition paired :: "crypto \<Rightarrow> setup_ctx \<Rightarrow> setup_ctx \<Rightarrow> bytes \<Rightarrow> bytes \<Rightarrow> bytes \<Rightarrow> bool" where
  "paired C c' s' cid sid csk \<longleftrightarrow>
     s_status c' = PAIR_STATUS_COMPLETED \<and> s_status s' = PAIR_STATUS_COMPLETED
     \<and> res_client_private_key (s_result c') = csk
     \<and> res_client_public_key (s_result c') = sign_sk_to_pk C csk
     \<and> res_server_public_key (s_result c') = public_key_get C sid
     \<and> c_string (res_device_id (s_result c')) = sid
     \<and> res_client_public_key (s_result s') = sign_sk_to_pk C csk
     \<and> c_string (res_device_id (s_result s')) = cid"

lemma normal_setup_run:
  assumes "crypto_ok C"
    and "pair_setup_new (homekit_table fruit) C rc PAIR_CLIENT_HOMEKIT_NORMAL pin_c cb_c (Some cid) = Some c"
    and "pair_setup_new (homekit_table fruit) C rs PAIR_SERVER_HOMEKIT pin_s cb_s (Some sid) = Some s"
    and "cs_pin (s_client c) = ss_pin (s_server s)"
    and "honest_srp C rc rs (ss_pin (s_server s))"
    and "cid \<noteq> []" and "0 \<notin> set cid" and "sid \<noteq> []" and "0 \<notin> set sid"
  shows "\<exists>c' s' c'' str res. normal_run (homekit_table fruit) C rc rs c s = Inr (Some (c', s'))
     \<and> paired C c' s' cid sid (r_sign_sk rc)
     \<and> s_cb_calls c' = (if cb_c then [(public_key_get C sid, sid)] else [])
     \<and> s_cb_calls s' = (if cb_s then [(sign_sk_to_pk C (r_sign_sk rc), cid)] else [])
     \<and> pair_setup_result (homekit_table fruit) c' = (0, c'', Some (str, res))
     \<and> c_string str = client_keys_text (r_sign_sk rc) (public_key_get C sid)"
proof -
  have C: "mpi_ok C" "digest_ok C" "kdf_ok C" "aead_ok C" "sign_ok C" using assms(1) by (simp_all add: crypto_ok_def)
  have ty: "is_homekit_client PAIR_CLIENT_HOMEKIT_NORMAL" by (simp add: is_homekit_client_def)
  note c = pair_setup_new_client [OF assms(2) ty]
  obtain s: "s_type s = PAIR_SERVER_HOMEKIT" "s_status s = PAIR_STATUS_IN_PROGRESS" "s_result s = zero_result"
      "s_cb_calls s = []" "ss_device_id (s_server s) = sid" "length sid < 64" "ss_add_cb (s_server s) = cb_s"
      "ss_public_key (s_server s) = fst (server_keypair C sid)" "ss_private_key (s_server s) = snd (server_keypair C sid)"
    by (rule pair_setup_new_server [OF assms(3)]) simp
  have hom: "is_homekit_client (s_type c)" and lc: "length (res_shared_secret (s_result c)) = 64"
    and ls: "length (res_shared_secret (s_result s)) = 64" and st: "s_status s \<noteq> PAIR_STATUS_AUTH_FAILED"
    using c s(1-3) ty by simp_all
  obtain c4 s2 u ver where run: "\<And>k :: setup_ctx \<Rightarrow> setup_ctx \<Rightarrow> (setup_ctx \<times> setup_ctx) option res.
       run_M1_to_M4 (homekit_table fruit) C rc rs c s k = k c4 s2"
    and u: "cs_user (s_client c4) = Some u" and ver: "ss_verifier (s_server s2) = Some ver"
    and K: "srp_user_get_session_key u = srp_verifier_get_session_key ver"
    and same: "s_type c4 = s_type c" "s_type s2 = s_type s" "s_cb_calls c4 = s_cb_calls c" "s_cb_calls s2 = s_cb_calls s"
      "cs_public_key (s_client c4) = cs_public_key (s_client c)" "cs_private_key (s_client c4) = cs_private_key (s_client c)"
      "cs_device_id (s_client c4) = cs_device_id (s_client c)" "cs_add_cb (s_client c4) = cs_add_cb (s_client c)"
      "ss_public_key (s_server s2) = ss_public_key (s_server s)" "ss_private_key (s_server s2) = ss_private_key (s_server s)"
      "ss_device_id (s_server s2) = ss_device_id (s_server s)" "ss_add_cb (s_server s2) = ss_add_cb (s_server s)"
    and finished: "s_status s2 = s_status s" "s_result c4 = s_result c" "s_result s2 = s_result s"
    by (rule M1_to_M4 [OF C(1,2) assms(5) hom assms(4) lc s(1) refl ls st]) (use c in auto)
  note ends = M5_to_M6 [OF C(3-5), of c4 u cid "r_sign_sk rc" s2 ver sid "snd (server_keypair C sid)" fruit rc rs]
  obtain c' s' where run2: "run_M5_to_M6 (homekit_table fruit) C rc rs c4 s2 = Inr (Some (c', s'))"
    and c': "s_status c' = PAIR_STATUS_COMPLETED" "s_type c' = PAIR_CLIENT_HOMEKIT_NORMAL"
      "s_result c' = zero_result\<lparr>res_client_private_key := r_sign_sk rc,
          res_client_public_key := sign_sk_to_pk C (r_sign_sk rc), res_server_public_key := public_key_get C sid,
          res_device_id := overlay (replicate 64 0) sid\<rparr>"
      "s_cb_calls c' = (if cb_c then [(public_key_get C sid, c_string (overlay (replicate 64 0) sid))] else [])"
    and s': "s_status s' = PAIR_STATUS_COMPLETED"
      "s_result s' = zero_result\<lparr>res_device_id := overlay (replicate 64 0) cid,
              res_client_public_key := sign_sk_to_pk C (r_sign_sk rc)\<rparr>"
      "s_cb_calls s' = (if cb_s then [(sign_sk_to_pk C (r_sign_sk rc), c_string (overlay (replicate 64 0) cid))] else [])"
    using ends c s u ver K same finished hom assms(6,8) server_keypair_ok(1) [OF C(5), of sid]
    by (auto simp: public_key_get_def)
  have ids: "c_string (overlay (replicate 64 0) sid) = sid" "c_string (overlay (replicate 64 0) cid) = cid"
    using c_string_overlay [OF assms(9), of 64] c_string_overlay [OF assms(7), of 64] s(6) c by auto
  have "normal_run (homekit_table fruit) C rc rs c s = Inr (Some (c', s'))"
    by (simp add: normal_run_def run run2)
  moreover have "paired C c' s' cid sid (r_sign_sk rc)"
    using c' s' ids by (simp add: paired_def)
  moreover have "pair_setup_result (homekit_table fruit) c' =
      (0, snd (client_setup_result c'), Some (s_result_str (snd (client_setup_result c')), s_result (snd (client_setup_result c'))))"
    using c'(1,2) by (simp add: pair_setup_result_def table_defs client_setup_result_def)
  moreover have "c_string (s_result_str (snd (client_setup_result c'))) = client_keys_text (r_sign_sk rc) (public_key_get C sid)"
    unfolding c_string_result using c'(3) by simp
  ultimately show ?thesis
    using c'(4) [unfolded ids] s'(3) [unfolded ids] by blast
qed


end
