(* ===== verification/Verify_Run.thy ===== *)
theory Verify_Run
  imports Setup_Run
begin

text \<open>
  Runs of pair verify between a client and a server of the library: the four messages by which the
  two prove their long term keys and agree on a fresh shared secret.
\<close>

subsection \<open>Messages\<close>

definition verify_M1 :: "bytes \<Rightarrow> tlv_values" where
  "verify_M1 pk = [mk_tlv TLVType_State [1], mk_tlv TLVType_PublicKey pk]"

definition verify_M2 :: "bytes \<Rightarrow> bytes \<Rightarrow> tlv_values" where
  "verify_M2 pk e = [mk_tlv TLVType_State [2], mk_tlv TLVType_PublicKey pk, mk_tlv TLVType_EncryptedData e]"

definition verify_M4 :: tlv_values where
  "verify_M4 = [mk_tlv TLVType_State [4]]"

text \<open>The sealed content of the second and the third message.\<close>

definition id_msg :: "bytes \<Rightarrow> bytes \<Rightarrow> tlv_values" where
  "id_msg ident signature = [mk_tlv TLVType_Identifier ident, mk_tlv TLVType_Signature signature]"

lemma verify_msgs_ok:
  "length pk = 32 \<Longrightarrow> msg_ok (verify_M1 pk)"
  "length pk = 32 \<Longrightarrow> e \<noteq> [] \<Longrightarrow> length e \<le> 1024 \<Longrightarrow> msg_ok (verify_M2 pk e)"
  "msg_ok verify_M4"
  "ident \<noteq> [] \<Longrightarrow> length ident < 64 \<Longrightarrow> length signature = 64 \<Longrightarrow> msg_ok (id_msg ident signature)"
  by (auto simp: msg_ok_def verify_M1_def verify_M2_def verify_M4_def id_msg_def tlv_types)

lemma verify_msgs_state:
  "msg_ok (verify_M1 pk) \<Longrightarrow> state_get (tlv_bytes (verify_M1 pk)) = Inr (1, None)"
  "msg_ok (verify_M2 pk e) \<Longrightarrow> state_get (tlv_bytes (verify_M2 pk e)) = Inr (2, None)"
  "state_get (tlv_bytes verify_M4) = Inr (4, None)"
  using msg_ok_state verify_msgs_ok(3)
  by (simp_all add: verify_M1_def verify_M2_def verify_M4_def del: tlv_bytes.simps)

lemma verify_msgs_values:
  "value_of (verify_M1 pk) TLVType_PublicKey = Some pk"
  "value_of (verify_M2 pk e) TLVType_PublicKey = Some pk" "value_of (verify_M2 pk e) TLVType_EncryptedData = Some e"
  "value_of (id_msg ident signature) TLVType_Identifier = Some ident"
  "value_of (id_msg ident signature) TLVType_Signature = Some signature"
  by (simp_all add: verify_M1_def verify_M2_def id_msg_def tlv_types)

lemma length_id_msg:
  assumes "ident \<noteq> []" "length ident < 64" "length signature = 64"
  shows "length (tlv_bytes (id_msg ident signature)) \<le> 131"
proof -
  have "signature \<noteq> []" using assms(3) by auto
  with assms show ?thesis by (simp add: id_msg_def length_tlv_bytes_small del: tlv_bytes.simps(2))
qed

lemma sealed_id_ok:
  assumes "aead_ok C" "ident \<noteq> []" "length ident < 64" "length signature = 64"
  shows "sealed C (tlv_bytes (id_msg ident signature)) k key \<noteq> []"
    and "length (sealed C (tlv_bytes (id_msg ident signature)) k key) \<le> 1024"
    and "\<not> length (sealed C (tlv_bytes (id_msg ident signature)) k key) < 16"
  using length_id_msg [OF assms(2-4)] sealed(3) [OF assms(1), of "tlv_bytes (id_msg ident signature)" k key] by auto

lemma create_accessory_info:
  assumes "ident \<noteq> []" "length ident < 64" "length x = 32" "length pk = 32" "length (sign C (x @ ident @ pk) sk) = 64"
  shows "create_and_sign_accessory_info C REQUEST_BUFSIZE x ident pk sk =
     Inr (0, tlv_bytes (id_msg ident (sign C (x @ ident @ pk) sk)))"
  using assms msg_ok_format [OF verify_msgs_ok(4) [OF assms(1,2,5)]]
  by (simp add: create_and_sign_accessory_info_def create_info_def pair_tlv_new_def id_msg_def Let_def del: tlv_bytes.simps)

lemma verify_signed_by:
  assumes "sign_ok C" "length x = 32" "length ident < 64" "length y = 32"
  shows "verify_info C (sign C (x @ ident @ y) sk) (sign_sk_to_pk C sk) x ident y = 0"
  using assms sign_okD(2) [OF assms(1)] by (simp add: verify_info_def create_info_def)

subsection \<open>Each handler on an honest message\<close>

text \<open>The shared secret of two ephemeral secret keys.\<close>

definition dh_secret :: "crypto \<Rightarrow> bytes \<Rightarrow> bytes \<Rightarrow> bytes" where
  "dh_secret C a b = the (scalarmult C a (box_sk_to_pk C b))"

lemma dh_secret:
  assumes "dh_ok C"
  shows "scalarmult C a (box_sk_to_pk C b) = Some (dh_secret C a b)"
    and "scalarmult C b (box_sk_to_pk C a) = Some (dh_secret C a b)" and "length (dh_secret C a b) = 32"
  using dh_okD(2) [OF assms, of a b] dh_okD(1) [OF assms, of b a] by (auto simp: dh_secret_def)

definition verify_M2_of :: "crypto \<Rightarrow> bytes \<Rightarrow> bytes \<Rightarrow> bytes \<Rightarrow> bytes \<Rightarrow> tlv_values" where
  "verify_M2_of C a b sid ssk = verify_M2 (box_sk_to_pk C b)
     (sealed C (tlv_bytes (id_msg sid (sign C (box_sk_to_pk C b @ sid @ box_sk_to_pk C a) ssk)))
        (hkdf_value C (dh_secret C a b) PAIR_VERIFY_MSG02) PAIR_VERIFY_MSG02)"

definition verify_M3_of :: "crypto \<Rightarrow> bytes \<Rightarrow> bytes \<Rightarrow> bytes \<Rightarrow> bytes \<Rightarrow> tlv_values" where
  "verify_M3_of C a b cid csk = encrypted_msg 3
     (sealed C (tlv_bytes (id_msg cid (sign C (box_sk_to_pk C a @ cid @ box_sk_to_pk C b) csk)))
        (hkdf_value C (dh_secret C a b) PAIR_VERIFY_MSG03) PAIR_VERIFY_MSG03)"

lemma verify_M2_M3_ok:
  assumes "aead_ok C" "sign_ok C" "dh_ok C" "ident \<noteq> []" "length ident < 64"
  shows "msg_ok (verify_M2_of C a b ident sk)" and "msg_ok (verify_M3_of C a b ident sk)"
  using sealed_id_ok [OF assms(1,4,5) sign_okD(1) [OF assms(2)]] dh_okD(3) [OF assms(3)]
  by (auto simp: verify_M2_of_def verify_M3_of_def intro!: verify_msgs_ok setup_msgs_ok)

lemma client_makes_V1:
  assumes "dh_ok C"
  shows "client_verify_request1 C r h = Inr (Some (tlv_bytes (verify_M1 (box_sk_to_pk C (r_box_sk r)))),
     h\<lparr>v_client := (v_client h)\<lparr>cv_client_eph_public_key := box_sk_to_pk C (r_box_sk r),
                   cv_client_eph_private_key := r_box_sk r\<rparr>\<rparr>)"
  using msg_ok_format [OF verify_msgs_ok(1) [OF dh_okD(3) [OF assms]]]
  by (simp add: client_verify_request1_def state_tlv_eq plain_key_def verify_M1_def Let_def del: tlv_bytes.simps)

lemma server_reads_V1:
  assumes "length pk = 32"
  shows "server_verify_request1 C r h (tlv_bytes (verify_M1 pk)) =
     Inr (0, h\<lparr>v_server := (v_server h)\<lparr>sv_client_eph_public_key := pk\<rparr>\<rparr>)"
  using assms by (simp add: server_verify_request1_def msg_ok_process verify_msgs_ok verify_msgs_values)

lemma server_makes_V2:
  assumes C: "kdf_ok C" "aead_ok C" "sign_ok C" "dh_ok C"
    and s: "v_status h \<noteq> PAIR_STATUS_AUTH_FAILED" "sv_client_eph_public_key (v_server h) = box_sk_to_pk C a"
      "sv_device_id (v_server h) = sid" "sid \<noteq> []" "length sid < 64" "sv_server_private_key (v_server h) = ssk"
  shows "server_verify_response1 C r h = Inr (Some (tlv_bytes (verify_M2_of C a (r_box_sk r) sid ssk)),
     h\<lparr>v_server := (v_server h)\<lparr>sv_server_eph_public_key := box_sk_to_pk C (r_box_sk r),
        sv_server_eph_private_key := r_box_sk r, sv_shared_secret := dh_secret C a (r_box_sk r)\<rparr>\<rparr>)"
proof -
  let ?b = "r_box_sk r"
  note create = create_accessory_info [OF s(4,5) dh_okD(3) [OF C(4)] dh_okD(3) [OF C(4)] sign_okD(1) [OF C(3)]]
  have "msg_ok (verify_M2_of C a ?b sid ssk)" by (rule verify_M2_M3_ok [OF C(2-4) s(4,5)])
  from msg_ok_format [OF this] show ?thesis
    using s dh_secret(2) [OF C(4), of ?b a]
    by (simp add: server_verify_response1_def create hkdf_value [OF C(1)] sealed(1) [OF C(2)] state_tlv_eq
        verify_M2_of_def verify_M2_def Let_def del: tlv_bytes.simps)
qed

lemma client_reads_V2:
  assumes C: "kdf_ok C" "aead_ok C" "sign_ok C" "dh_ok C"
    and c: "cv_client_eph_private_key (v_client h) = a" "cv_client_eph_public_key (v_client h) = box_sk_to_pk C a"
      "cv_verify_server_signature (v_client h) \<longrightarrow> cv_server_public_key (v_client h) = sign_sk_to_pk C ssk"
    and s: "sid \<noteq> []" "length sid < 64"
  shows "client_verify_response1 C r h (tlv_bytes (verify_M2_of C a b sid ssk)) = Inr (0,
     h\<lparr>v_client := (v_client h)\<lparr>cv_server_eph_public_key := box_sk_to_pk C b, cv_shared_secret := dh_secret C a b\<rparr>\<rparr>)"
proof -
  let ?sig = "sign C (box_sk_to_pk C b @ sid @ box_sk_to_pk C a) ssk"
  have ok: "msg_ok (verify_M2_of C a b sid ssk)" by (rule verify_M2_M3_ok [OF C(2-4) s])
  have inner: "message_process (tlv_bytes (id_msg sid ?sig)) = Inr (Inr (id_msg sid ?sig))"
    by (intro msg_ok_process verify_msgs_ok s sign_okD(1) [OF C(3)])
  have sig: "verify_info C ?sig (sign_sk_to_pk C ssk) (box_sk_to_pk C b) sid (box_sk_to_pk C a) = 0"
    by (rule verify_signed_by [OF C(3) dh_okD(3) [OF C(4)] s(2) dh_okD(3) [OF C(4)]])
  note len = sealed_id_ok(3) [OF C(2) s sign_okD(1) [OF C(3)]]
  show ?thesis
    using c inner sig len dh_okD(3) [OF C(4)] sign_okD(1) [OF C(3)] dh_secret(1) [OF C(4)] msg_ok_process [OF ok]
    by (cases "cv_verify_server_signature (v_client h)")
      (simp_all add: client_verify_response1_def hkdf_value [OF C(1)] verify_M2_of_def sealed(2) [OF C(2)]
        verify_msgs_values AUTHTAG_LENGTH_def Let_def del: tlv_bytes.simps)
qed

lemma client_makes_V3:
  assumes C: "kdf_ok C" "aead_ok C" "sign_ok C" "dh_ok C"
    and c: "cv_client_eph_public_key (v_client h) = box_sk_to_pk C a" "cv_server_eph_public_key (v_client h) = box_sk_to_pk C b"
      "cv_shared_secret (v_client h) = dh_secret C a b" "cv_device_id (v_client h) = cid" "cid \<noteq> []" "length cid < 64"
      "cv_client_private_key (v_client h) = csk"
  shows "client_verify_request2 C r h = Inr (Some (tlv_bytes (verify_M3_of C a b cid csk)), h)"
proof -
  note create = create_device_info [OF c(5,6) dh_okD(3) [OF C(4)] dh_okD(3) [OF C(4)] sign_okD(1) [OF C(3)]]
  have "msg_ok (verify_M3_of C a b cid csk)" by (rule verify_M2_M3_ok [OF C(2-4) c(5,6)])
  from msg_ok_format [OF this] show ?thesis
    using c
    by (simp add: client_verify_request2_def create hkdf_value [OF C(1)] sealed(1) [OF C(2)] state_tlv_eq
        verify_M3_of_def encrypted_msg_def id_msg_def Let_def del: tlv_bytes.simps)
qed

lemma server_reads_V3:
  assumes C: "kdf_ok C" "aead_ok C" "sign_ok C" "dh_ok C"
    and s: "sv_client_eph_public_key (v_server h) = box_sk_to_pk C a" "sv_server_eph_public_key (v_server h) = box_sk_to_pk C b"
      "sv_shared_secret (v_server h) = dh_secret C a b"
      "sv_verify_client_signature (v_server h) = (sv_get_cb (v_server h) \<noteq> None)"
      "\<And>f. sv_get_cb (v_server h) = Some f \<Longrightarrow> f cid = Some (sign_sk_to_pk C csk)"
    and c: "cid \<noteq> []" "length cid < 64" "0 \<notin> set cid"
  shows "server_verify_request2 C r h (tlv_bytes (verify_M3_of C a b cid csk)) = Inr (0, h)"
proof -
  let ?sig = "sign C (box_sk_to_pk C a @ cid @ box_sk_to_pk C b) csk"
  have ok: "msg_ok (verify_M3_of C a b cid csk)" by (rule verify_M2_M3_ok [OF C(2-4) c(1,2)])
  have inner: "message_process (tlv_bytes (id_msg cid ?sig)) = Inr (Inr (id_msg cid ?sig))"
    by (intro msg_ok_process verify_msgs_ok c sign_okD(1) [OF C(3)])
  have sig: "verify_info C ?sig (sign_sk_to_pk C csk) (box_sk_to_pk C a) cid (box_sk_to_pk C b) = 0"
    by (rule verify_signed_by [OF C(3) dh_okD(3) [OF C(4)] c(2) dh_okD(3) [OF C(4)]])
  note len = sealed_id_ok(3) [OF C(2) c(1,2) sign_okD(1) [OF C(3)]]
  show ?thesis
    using s c inner sig len sign_okD(1) [OF C(3)] msg_ok_process [OF ok] c_string_overlay [OF c(3), of 64]
    by (cases "sv_get_cb (v_server h)")
      (simp_all add: server_verify_request2_def hkdf_value [OF C(1)] verify_M3_of_def sealed(2) [OF C(2)]
        setup_msgs_values verify_msgs_values AUTHTAG_LENGTH_def Let_def del: tlv_bytes.simps)
qed

lemma server_makes_V4:
  assumes "v_status h \<noteq> PAIR_STATUS_AUTH_FAILED"
  shows "server_verify_response2 C r h = Inr (Some (tlv_bytes verify_M4),
     h\<lparr>v_result := (v_result h)
              \<lparr>res_shared_secret := overlay (res_shared_secret (v_result h)) (sv_shared_secret (v_server h)),
               res_shared_secret_len := 32\<rparr>,
              v_status := PAIR_STATUS_COMPLETED\<rparr>)"
  using assms msg_ok_format [OF verify_msgs_ok(3)]
  by (simp add: server_verify_response2_def state_tlv_eq plain_key_def verify_M4_def del: tlv_bytes.simps)

lemma client_reads_V4:
  "client_verify_response2 C r h (tlv_bytes verify_M4) = Inr (0,
     h\<lparr>v_result := (v_result h)
              \<lparr>res_shared_secret := overlay (res_shared_secret (v_result h)) (cv_shared_secret (v_client h)),
               res_shared_secret_len := 32\<rparr>,
              v_status := PAIR_STATUS_COMPLETED\<rparr>)"
  by (simp add: client_verify_response2_def msg_ok_process verify_msgs_ok)

subsection \<open>The run\<close>

definition verify_run :: "pair_table \<Rightarrow> crypto \<Rightarrow> rand \<Rightarrow> rand \<Rightarrow> verify_ctx \<Rightarrow> verify_ctx \<Rightarrow> (verify_ctx \<times> verify_ctx) option res" where
  "verify_run T C rc rs c s =
     bind_res (pair_verify_request1 T C rc c) (\<lambda>(m1, c1). case m1 of None \<Rightarrow> Inr None | Some d1 \<Rightarrow>
     bind_res (pair_verify T C rs s d1) (\<lambda>(ret2, m2, s1). case m2 of None \<Rightarrow> Inr None | Some d2 \<Rightarrow>
     if ret2 < 0 then Inr None else
     bind_res (pair_verify_response1 T C rc c1 d2) (\<lambda>(ret3, c2). if ret3 < 0 then Inr None else
     bind_res (pair_verify_request2 T C rc c2) (\<lambda>(m3, c3). case m3 of None \<Rightarrow> Inr None | Some d3 \<Rightarrow>
     bind_res (pair_verify T C rs s1 d3) (\<lambda>(ret4, m4, s2). case m4 of None \<Rightarrow> Inr None | Some d4 \<Rightarrow>
     if ret4 < 0 then Inr None else
     bind_res (pair_verify_response2 T C rc c3 d4) (\<lambda>(ret5, c4). if ret5 < 0 then Inr None else
     Inr (Some (c4, s2))))))))"

lemmas verify_table_defs = pair_client_homekit_normal_def pair_client_homekit_transient_def pair_server_homekit_def
  call_verify_request_def call_verify_response_def

lemma client_verify_dispatch:
  assumes "is_homekit_client (v_type h)"
  shows "pair_verify_request1 (homekit_table fruit) C r h = client_verify_request1 C r h"
    and "pair_verify_request2 (homekit_table fruit) C r h = client_verify_request2 C r h"
    and "pair_verify_response1 (homekit_table fruit) C r h d = client_verify_response1 C r h d"
    and "pair_verify_response2 (homekit_table fruit) C r h d =
           bind_res (client_verify_response2 C r h d) (\<lambda>(ret, h1). Inr (if ret \<noteq> 0 then -1 else 0, h1))"
  using assms
  by (auto simp: is_homekit_client_def pair_verify_request1_def pair_verify_request2_def
      pair_verify_response1_def pair_verify_response2_def verify_table_defs)

lemma server_verify_dispatch:
  assumes "v_type h = PAIR_SERVER_HOMEKIT"
  shows "pair_verify_request1 (homekit_table fruit) C r h = server_verify_response1 C r h"
    and "pair_verify_request2 (homekit_table fruit) C r h = server_verify_response2 C r h"
    and "pair_verify_response1 (homekit_table fruit) C r h d = server_verify_request1 C r h d"
    and "pair_verify_response2 (homekit_table fruit) C r h d =
           bind_res (server_verify_request2 C r h d) (\<lambda>(ret, h1). Inr (if ret \<noteq> 0 then -1 else 0, h1))"
  using assms
  by (auto simp: pair_verify_request1_def pair_verify_request2_def
      pair_verify_response1_def pair_verify_response2_def verify_table_defs)

lemma server_pair_verify:
  assumes "v_type h = PAIR_SERVER_HOMEKIT"
  shows "state_get d = Inr (1, None) \<Longrightarrow> pair_verify (homekit_table fruit) C r h d =
      verify_exchange (\<lambda>h. pair_verify_response1 (homekit_table fruit) C r h d) (pair_verify_request1 (homekit_table fruit) C r) h"
    and "state_get d = Inr (3, None) \<Longrightarrow> pair_verify (homekit_table fruit) C r h d =
      verify_exchange (\<lambda>h. pair_verify_response2 (homekit_table fruit) C r h d) (pair_verify_request2 (homekit_table fruit) C r) h"
  using assms by (simp_all add: pair_verify_def verify_table_defs Let_def)

lemma verify_exchange_ok:
  assumes "response h = Inr (0, h1)" and "request h1 = Inr (Some out, h2)"
  shows "verify_exchange response request h = Inr (0, Some out, h2)"
  using assms by (simp add: verify_exchange_def)

lemma server_pair_verify_V3:
  assumes C: "kdf_ok C" "aead_ok C" "sign_ok C" "dh_ok C"
    and s: "v_type h = PAIR_SERVER_HOMEKIT" "v_status h \<noteq> PAIR_STATUS_AUTH_FAILED"
      "sv_client_eph_public_key (v_server h) = box_sk_to_pk C a" "sv_server_eph_public_key (v_server h) = box_sk_to_pk C b"
      "sv_shared_secret (v_server h) = dh_secret C a b"
      "sv_verify_client_signature (v_server h) = (sv_get_cb (v_server h) \<noteq> None)"
      "\<And>f. sv_get_cb (v_server h) = Some f \<Longrightarrow> f cid = Some (sign_sk_to_pk C csk)"
    and c: "cid \<noteq> []" "length cid < 64" "0 \<notin> set cid"
  shows "state_get (tlv_bytes (verify_M3_of C a b cid csk)) = Inr (3, None)"
    and "pair_verify (homekit_table fruit) C r h (tlv_bytes (verify_M3_of C a b cid csk)) =
     Inr (0, Some (tlv_bytes verify_M4), h\<lparr>v_result := (v_result h)
              \<lparr>res_shared_secret := overlay (res_shared_secret (v_result h)) (dh_secret C a b),
               res_shared_secret_len := 32\<rparr>,
              v_status := PAIR_STATUS_COMPLETED\<rparr>)"
proof -
  show V3: "state_get (tlv_bytes (verify_M3_of C a b cid csk)) = Inr (3, None)"
    using setup_msgs_state(5) [OF verify_M2_M3_ok(2) [OF C(2-4) c(1,2), unfolded verify_M3_of_def]]
    by (simp add: verify_M3_of_def)
  show "pair_verify (homekit_table fruit) C r h (tlv_bytes (verify_M3_of C a b cid csk)) =
     Inr (0, Some (tlv_bytes verify_M4), h\<lparr>v_result := (v_result h)
              \<lparr>res_shared_secret := overlay (res_shared_secret (v_result h)) (dh_secret C a b),
               res_shared_secret_len := 32\<rparr>, v_status := PAIR_STATUS_COMPLETED\<rparr>)"
    unfolding server_pair_verify(2) [OF s(1) V3]
  proof (rule verify_exchange_ok)
    show "pair_verify_response2 (homekit_table fruit) C r h (tlv_bytes (verify_M3_of C a b cid csk)) = Inr (0, h)"
      using server_reads_V3 [OF C, where h = h and r = r and cid = cid and csk = csk and a = a and b = b] s c
      by (simp add: server_verify_dispatch)
    show "pair_verify_request2 (homekit_table fruit) C r h = Inr (Some (tlv_bytes verify_M4), h\<lparr>v_result := (v_result h)
              \<lparr>res_shared_secret := overlay (res_shared_secret (v_result h)) (dh_secret C a b),
               res_shared_secret_len := 32\<rparr>, v_status := PAIR_STATUS_COMPLETED\<rparr>)"
      using server_makes_V4 [OF s(2), of C r] s(1,5) by (simp add: server_verify_dispatch)
  qed
qed

lemma hexread_client_keys:
  assumes "length csk = 64"
  shows "hexread 64 (client_keys_text csk spk) = Inr csk"
    and "length spk = 32 \<Longrightarrow> hexread 32 (drop 128 (client_keys_text csk spk)) = Inr spk"
    and "length (client_keys_text csk spk) = 128 + 2 * length spk"
proof -
  show "hexread 64 (client_keys_text csk spk) = Inr csk"
    using hexread_sprintf [of csk] assms by (simp add: client_keys_text_def)
  have "drop 128 (client_keys_text csk spk) = concat (map sprintf_02x spk) @ []"
    using length_sprintf [of csk] assms by (simp add: client_keys_text_def)
  then show "length spk = 32 \<Longrightarrow> hexread 32 (drop 128 (client_keys_text csk spk)) = Inr spk"
    using hexread_sprintf [of spk "[]"] by (simp only:)
  show "length (client_keys_text csk spk) = 128 + 2 * length spk"
    using length_sprintf [of csk] length_sprintf [of spk] assms
    by (simp add: client_keys_text_def del: length_concat)
qed

lemma pair_verify_new_client:
  assumes "pair_verify_new (homekit_table fruit) C ty (Some (client_keys_text csk spk)) cb (Some cid) = Inr (Some c)"
    and "is_homekit_client ty" and "length csk = 64" and "length spk \<in> {0, 32}"
  shows "v_type c = ty \<and> v_status c = PAIR_STATUS_IN_PROGRESS \<and> v_result c = zero_result
     \<and> cv_device_id (v_client c) = cid \<and> length cid < 64 \<and> cv_client_private_key (v_client c) = csk
     \<and> cv_verify_server_signature (v_client c) = (spk \<noteq> [])
     \<and> (spk \<noteq> [] \<longrightarrow> cv_server_public_key (v_client c) = spk)"
  using assms hexread_client_keys [OF assms(3), of spk]
  by (auto simp: pair_verify_new_def client_verify_new_def is_homekit_client_def verify_table_defs Let_def
      zero_verify_ctx_def zero_client_verify_def PAIR_AP_DEVICE_ID_LEN_MAX_def split: if_splits)

lemma pair_verify_new_server:
  assumes "pair_verify_new (homekit_table fruit) C PAIR_SERVER_HOMEKIT None cb (Some sid) = Inr (Some s)"
  shows "v_type s = PAIR_SERVER_HOMEKIT \<and> v_status s = PAIR_STATUS_IN_PROGRESS \<and> v_result s = zero_result
     \<and> sv_device_id (v_server s) = sid \<and> length sid < 64 \<and> sv_get_cb (v_server s) = cb
     \<and> sv_verify_client_signature (v_server s) = (cb \<noteq> None)
     \<and> sv_server_private_key (v_server s) = snd (server_keypair C sid)"
  using assms
  by (auto simp: pair_verify_new_def server_verify_new_def verify_table_defs Let_def
      zero_verify_ctx_def PAIR_AP_DEVICE_ID_LEN_MAX_def split: if_splits prod.splits)

subsection \<open>Properties\<close>

lemma verify_run_agrees:
  assumes "crypto_ok C" and "is_homekit_client ty" and "length csk = 64"
    and "spk = [] \<or> spk = public_key_get C sid"
    and "pair_verify_new (homekit_table fruit) C ty (Some (client_keys_text csk spk)) cb (Some cid) = Inr (Some c)"
    and "pair_verify_new (homekit_table fruit) C PAIR_SERVER_HOMEKIT None get_cb (Some sid) = Inr (Some s)"
    and "case get_cb of None \<Rightarrow> True | Some f \<Rightarrow> f cid = Some (sign_sk_to_pk C csk)"
    and "cid \<noteq> []" and "0 \<notin> set cid" and "sid \<noteq> []"
  shows "\<exists>c' s' res_c res_s. verify_run (homekit_table fruit) C rc rs c s = Inr (Some (c', s'))
     \<and> pair_verify_result (homekit_table fruit) c' = (0, c', Some res_c)
     \<and> pair_verify_result (homekit_table fruit) s' = (0, s', Some res_s)
     \<and> res_shared_secret_len res_c = 32 \<and> res_shared_secret_len res_s = 32
     \<and> take 32 (res_shared_secret res_c) = take 32 (res_shared_secret res_s)
     \<and> take 32 (res_shared_secret res_c) = dh_secret C (r_box_sk rc) (r_box_sk rs)"
proof -
  let ?T = "homekit_table fruit" and ?a = "r_box_sk rc" and ?b = "r_box_sk rs"
  let ?ssk = "snd (server_keypair C sid)"
  have C: "kdf_ok C" "aead_ok C" "sign_ok C" "dh_ok C" using assms(1) by (simp_all add: crypto_ok_def)
  have spk: "length spk \<in> {0, 32}" "spk \<noteq> [] \<longrightarrow> spk = sign_sk_to_pk C ?ssk"
    using assms(4) server_keypair_ok(1,2) [OF C(3), of sid] by (auto simp: public_key_get_def)
  note c = pair_verify_new_client [OF assms(5,2,3) spk(1)] and s = pair_verify_new_server [OF assms(6)]
  let ?c1 = "c\<lparr>v_client := (v_client c)\<lparr>cv_client_eph_public_key := box_sk_to_pk C ?a, cv_client_eph_private_key := ?a\<rparr>\<rparr>"
  let ?s0 = "s\<lparr>v_server := (v_server s)\<lparr>sv_client_eph_public_key := box_sk_to_pk C ?a\<rparr>\<rparr>"
  let ?s1 = "?s0\<lparr>v_server := (v_server ?s0)\<lparr>sv_server_eph_public_key := box_sk_to_pk C ?b,
        sv_server_eph_private_key := ?b, sv_shared_secret := dh_secret C ?a ?b\<rparr>\<rparr>"
  let ?c2 = "?c1\<lparr>v_client := (v_client ?c1)\<lparr>cv_server_eph_public_key := box_sk_to_pk C ?b,
        cv_shared_secret := dh_secret C ?a ?b\<rparr>\<rparr>"
  let ?s2 = "?s1\<lparr>v_result := (v_result s)\<lparr>res_shared_secret := overlay (res_shared_secret (v_result s)) (dh_secret C ?a ?b),
        res_shared_secret_len := 32\<rparr>, v_status := PAIR_STATUS_COMPLETED\<rparr>"
  let ?c3 = "?c2\<lparr>v_result := (v_result c)\<lparr>res_shared_secret := overlay (res_shared_secret (v_result c)) (dh_secret C ?a ?b),
        res_shared_secret_len := 32\<rparr>, v_status := PAIR_STATUS_COMPLETED\<rparr>"
  have hom: "is_homekit_client (v_type h)" if "v_type h = v_type c" for h using that c assms(2) by simp
  have 1: "pair_verify_request1 ?T C rc c = Inr (Some (tlv_bytes (verify_M1 (box_sk_to_pk C ?a))), ?c1)"
    using client_makes_V1 [OF C(4), of rc c] by (simp add: client_verify_dispatch [OF hom])
  have 2: "pair_verify ?T C rs s (tlv_bytes (verify_M1 (box_sk_to_pk C ?a))) =
      Inr (0, Some (tlv_bytes (verify_M2_of C ?a ?b sid ?ssk)), ?s1)"
    using c s assms(10) server_reads_V1 [OF dh_okD(3) [OF C(4)], of C rs s ?a]
      server_makes_V2 [OF C, where h = ?s0 and r = rs and sid = sid and ssk = ?ssk and a = ?a]
      verify_msgs_state(1) [OF verify_msgs_ok(1) [OF dh_okD(3) [OF C(4)]], of ?a]
    by (simp add: server_pair_verify verify_exchange_ok [where ?h1.0 = ?s0] server_verify_dispatch)
  have 3: "pair_verify_response1 ?T C rc ?c1 (tlv_bytes (verify_M2_of C ?a ?b sid ?ssk)) = Inr (0, ?c2)"
    using client_reads_V2 [OF C, where h = ?c1 and r = rc and sid = sid and ssk = ?ssk and a = ?a and b = ?b] c s spk(2) assms(10)
    by (simp add: client_verify_dispatch [OF hom])
  have 4: "pair_verify_request2 ?T C rc ?c2 = Inr (Some (tlv_bytes (verify_M3_of C ?a ?b cid csk)), ?c2)"
    using client_makes_V3 [OF C, where h = ?c2 and r = rc and cid = cid and csk = csk and a = ?a and b = ?b] c assms(8)
    by (simp add: client_verify_dispatch [OF hom])
  have 5: "pair_verify ?T C rs ?s1 (tlv_bytes (verify_M3_of C ?a ?b cid csk)) =
      Inr (0, Some (tlv_bytes verify_M4), ?s2)"
    using server_pair_verify_V3(2) [OF C, where h = ?s1 and r = rs and cid = cid and csk = csk and a = ?a and b = ?b and fruit = fruit]
      s c assms(7-9) by (cases get_cb) simp_all
  have 6: "pair_verify_response2 ?T C rc ?c2 (tlv_bytes verify_M4) = Inr (0, ?c3)"
    using client_reads_V4 [of C rc ?c2] by (simp add: client_verify_dispatch [OF hom])
  have "verify_run ?T C rc rs c s = Inr (Some (?c3, ?s2))"
    unfolding verify_run_def 1 bind_res.simps prod.case option.case 2 3 4 5 6 by (simp add: 3 4 5 6)
  moreover have "pair_verify_result ?T ?c3 = (0, ?c3, Some (v_result ?c3))" "pair_verify_result ?T ?s2 = (0, ?s2, Some (v_result ?s2))"
    using c s assms(2) by (auto simp: pair_verify_result_def is_homekit_client_def verify_table_defs)
  ultimately show ?thesis
    using dh_secret(3) [OF C(4), of ?a ?b] by (intro exI conjI) (assumption | simp)+
qed

text \<open>C4: Pair verify. A client with the keys that setup exported (its private key, and the server's
  public key or none) and a server that knows the client's public key under its identifier, or does
  not check, run M1 to M4 without a fault; \<open>pair_verify_result\<close> then succeeds on both sides and both
  hold the same shared secret of 32 bytes.\<close>

theorem verify_agreement:
  assumes "crypto_ok C" and "is_homekit_client ty" and "length csk = 64"
    and "spk = [] \<or> spk = public_key_get C sid"
    and "pair_verify_new (homekit_table fruit) C ty (Some (client_keys_text csk spk)) cb (Some cid) = Inr (Some c)"
    and "pair_verify_new (homekit_table fruit) C PAIR_SERVER_HOMEKIT None get_cb (Some sid) = Inr (Some s)"
    and "case get_cb of None \<Rightarrow> True | Some f \<Rightarrow> f cid = Some (sign_sk_to_pk C csk)"
    and "cid \<noteq> []" and "0 \<notin> set cid" and "sid \<noteq> []"
  shows "\<exists>c' s' res_c res_s. verify_run (homekit_table fruit) C rc rs c s = Inr (Some (c', s'))
     \<and> pair_verify_result (homekit_table fruit) c' = (0, c', Some res_c)
     \<and> pair_verify_result (homekit_table fruit) s' = (0, s', Some res_s)
     \<and> res_shared_secret_len res_c = 32 \<and> res_shared_secret_len res_s = 32
     \<and> take 32 (res_shared_secret res_c) = take 32 (res_shared_secret res_s)
     \<and> take 32 (res_shared_secret res_c) = dh_secret C (r_box_sk rc) (r_box_sk rs)"
  by (rule verify_run_agrees [OF assms])

end
