(* ===== verification/Pairing_Safety.thy ===== *)
theory Pairing_Safety
  imports Verify_Run
begin

text \<open>
  What a peer that does not follow the protocol can and cannot make of the pairing functions: which
  checks stand before a context is completed, what a wrong proof leads to, and the two ways around
  the checks that the code leaves open.
\<close>

subsection \<open>The server of pair verify\<close>

lemma or_error_Inr:
  "or_error m e k = Inr y \<longleftrightarrow> (m = Inr None \<and> e = Inr y) \<or> (\<exists>a. m = Inr (Some a) \<and> k a = Inr y)"
  by (cases m) (auto simp: or_error_def split: option.splits)

lemma format_or_error_Inr:
  "format_or_error m e k = Inr y \<longleftrightarrow> (\<exists>n d. m = Inr (n, d) \<and> (n < 0 \<and> e = Inr y \<or> \<not> n < 0 \<and> k d = Inr y))"
  by (cases m) (auto simp: format_or_error_def split: if_splits)

lemma case_option_Inr:
  "(case x of None \<Rightarrow> e | Some a \<Rightarrow> k a) = Inr y \<longleftrightarrow> (x = None \<and> e = Inr y) \<or> (\<exists>a. x = Some a \<and> k a = Inr y)"
  by (cases x) auto

lemma case_sum_Inr:
  "(case x of Inl a \<Rightarrow> e a | Inr b \<Rightarrow> k b) = Inr y \<longleftrightarrow> (\<exists>a. x = Inl a \<and> e a = Inr y) \<or> (\<exists>b. x = Inr b \<and> k b = Inr y)"
  by (cases x) auto

lemma if_Inr: "(if c then a else b) = Inr y \<longleftrightarrow> (c \<and> a = Inr y) \<or> (\<not> c \<and> b = Inr y)"
  by auto

lemma case_list_Inr:
  "(case x of [] \<Rightarrow> e | a # as \<Rightarrow> k a as) = Inr y \<longleftrightarrow> (x = [] \<and> e = Inr y) \<or> (\<exists>a as. x = a # as \<and> k a as = Inr y)"
  by (cases x) auto

lemmas res_cases = case_list_Inr bind_res_eq_Inr or_error_Inr format_or_error_Inr case_option_Inr case_sum_Inr if_Inr

text \<open>A signature over the three parts, by the key that the lookup gives for the identifier.\<close>

definition registered_signature :: "crypto \<Rightarrow> (bytes \<Rightarrow> bytes option) \<Rightarrow> bytes \<Rightarrow> bytes \<Rightarrow> bytes \<Rightarrow> bytes \<Rightarrow> bool" where
  "registered_signature C get_cb signature x ident y \<longleftrightarrow>
     (\<exists>pk. get_cb (c_string (overlay (replicate 64 0) ident)) = Some pk
        \<and> length signature = 64 \<and> sign_verify C signature (x @ ident @ y) pk)"

lemma verify_info_sound: "\<not> verify_info C signature pk a b c < 0 \<Longrightarrow> sign_verify C signature (a @ b @ c) pk"
  by (auto simp: verify_info_def create_info_def split: if_splits)

lemma server_verify_request2_cases:
  assumes "server_verify_request2 C r h data = Inr (ret, h')"
    and "sv_verify_client_signature (v_server h)" and "sv_get_cb (v_server h) = Some get_cb"
  shows "v_server h' = v_server h \<and> v_result h' = v_result h \<and> v_type h' = v_type h \<and>
     (v_status h' = PAIR_STATUS_INVALID \<and> ret = -1 \<or> v_status h' = PAIR_STATUS_AUTH_FAILED \<and> ret = 0 \<or>
      h' = h \<and> ret = 0 \<and> (\<exists>signature ident. registered_signature C get_cb signature
         (sv_client_eph_public_key (v_server h)) ident (sv_server_eph_public_key (v_server h))))"
  using assms
  by (auto simp: server_verify_request2_def res_cases Let_def v_invalid_def v_return_error_def registered_signature_def
      dest!: verify_info_sound)

lemma server_verify_request1_cases:
  "server_verify_request1 C r h data = Inr (ret, h') \<Longrightarrow>
     sv_get_cb (v_server h') = sv_get_cb (v_server h)
     \<and> sv_verify_client_signature (v_server h') = sv_verify_client_signature (v_server h)
     \<and> v_type h' = v_type h \<and> (v_status h' = v_status h \<or> v_status h' = PAIR_STATUS_INVALID)"
  by (auto simp: server_verify_request1_def res_cases v_invalid_def v_return_error_def)

lemma server_verify_response1_cases:
  "server_verify_response1 C r h = Inr (out, h') \<Longrightarrow>
     sv_get_cb (v_server h') = sv_get_cb (v_server h)
     \<and> sv_verify_client_signature (v_server h') = sv_verify_client_signature (v_server h)
     \<and> v_type h' = v_type h \<and> (v_status h' = v_status h \<or> v_status h' = PAIR_STATUS_INVALID)"
  by (auto simp: server_verify_response1_def res_cases Let_def v_invalid_def v_return_error_def)

lemma server_verify_response2_cases:
  "server_verify_response2 C r h = Inr (out, h') \<Longrightarrow> v_server h' = v_server h \<and> v_type h' = v_type h
     \<and> (v_status h = PAIR_STATUS_AUTH_FAILED \<longrightarrow> h' = h)"
  by (auto simp: server_verify_response2_def res_cases Let_def v_invalid_def v_return_error_def)

lemma state_get_cases:
  "state_get data = Inr (n, e) \<Longrightarrow> (case e of None \<Rightarrow> 0 \<le> n | Some _ \<Rightarrow> n = -1)"
  by (auto simp: state_get_def res_cases)


text \<open>C24: A way around, server side. A fresh server context, whatever its callback, is completed by one
  message: state 2 with any public key of 32 bytes. The switch of \<open>pair_verify\<close> reads it with the
  handler of the first message and answers with the handler of the last one, so no signature is looked
  at; the shared secret of the result is 32 zero bytes.\<close>

theorem server_verify_bypass:
  assumes "pair_verify_new (homekit_table fruit) C PAIR_SERVER_HOMEKIT None get_cb (Some sid) = Inr (Some s)"
    and "length pk = 32"
  shows "\<exists>out s' res. pair_verify (homekit_table fruit) C r s
       (tlv_bytes [mk_tlv TLVType_State [2], mk_tlv TLVType_PublicKey pk]) = Inr (0, Some out, s')
     \<and> pair_verify_result (homekit_table fruit) s' = (0, s', Some res)
     \<and> res_shared_secret_len res = 32 \<and> take 32 (res_shared_secret res) = replicate 32 0"
proof -
  let ?m = "[mk_tlv TLVType_State [2], mk_tlv TLVType_PublicKey pk]"
  have ok: "msg_ok ?m" using assms(2) by (auto simp: msg_ok_def tlv_types)
  have s: "v_type s = PAIR_SERVER_HOMEKIT" "v_status s = PAIR_STATUS_IN_PROGRESS" "v_result s = zero_result"
    using pair_verify_new_server [OF assms(1)] by simp_all
  have zero: "sv_shared_secret (v_server s) = replicate 32 0"
    using assms(1) by (auto simp: pair_verify_new_def server_verify_new_def verify_table_defs Let_def
        zero_verify_ctx_def zero_server_verify_def split: if_splits prod.splits)
  have state: "state_get (tlv_bytes ?m) = Inr (2, None)"
    using msg_ok_state [OF ok] by (simp del: tlv_bytes.simps)
  have pk: "value_of ?m TLVType_PublicKey = Some pk" by (simp add: tlv_types)
  let ?s1 = "s\<lparr>v_server := (v_server s)\<lparr>sv_client_eph_public_key := pk\<rparr>\<rparr>"
  have "pair_verify (homekit_table fruit) C r s (tlv_bytes ?m) = Inr (0, Some (tlv_bytes verify_M4),
      ?s1\<lparr>v_result := (v_result ?s1)\<lparr>res_shared_secret := overlay (res_shared_secret (v_result ?s1)) (replicate 32 0),
          res_shared_secret_len := 32\<rparr>, v_status := PAIR_STATUS_COMPLETED\<rparr>)"
    using s zero server_makes_V4 [of ?s1 C r] msg_ok_process [OF ok] pk assms(2)
    by (simp add: pair_verify_def verify_table_defs state verify_exchange_def pair_verify_response1_def
        pair_verify_request2_def server_verify_request1_def del: tlv_bytes.simps)
  then show ?thesis
    using s by (simp add: pair_verify_result_def verify_table_defs del: tlv_bytes.simps)
qed

text \<open>Order of messages, client side. A fresh client context that gets the last message first is
  completed with a shared secret of 32 zero bytes, although it never saw a key or a signature. (The
  return value is -1, as it is for the last message of every run.)\<close>

theorem client_verify_out_of_order:
  assumes "pair_verify_new (homekit_table fruit) C ty keys get_cb dev = Inr (Some c)" and "is_homekit_client ty"
  shows "\<exists>c' res. pair_verify (homekit_table fruit) C r c (tlv_bytes verify_M4) = Inr (-1, None, c')
     \<and> pair_verify_result (homekit_table fruit) c' = (0, c', Some res)
     \<and> res_shared_secret_len res = 32 \<and> take 32 (res_shared_secret res) = replicate 32 0"
proof -
  have c: "v_type c = ty" "v_result c = zero_result" "cv_shared_secret (v_client c) = replicate 32 0"
    using assms by (auto simp: pair_verify_new_def client_verify_new_def is_homekit_client_def verify_table_defs Let_def
        zero_verify_ctx_def zero_client_verify_def bind_res_eq_Inr split: if_splits option.splits)
  have hom: "is_homekit_client (v_type c)" using c assms(2) by simp
  have "pair_verify (homekit_table fruit) C r c (tlv_bytes verify_M4) = Inr (-1, None,
      c\<lparr>v_result := (v_result c)\<lparr>res_shared_secret := overlay (res_shared_secret (v_result c)) (replicate 32 0),
          res_shared_secret_len := 32\<rparr>, v_status := PAIR_STATUS_COMPLETED\<rparr>)"
    using c assms(2) verify_msgs_state(3) client_reads_V4 [of C r c]
    by (auto simp: pair_verify_def is_homekit_client_def verify_table_defs pair_verify_response2_def del: tlv_bytes.simps)
  then show ?thesis
    using c assms(2) by (auto simp: pair_verify_result_def is_homekit_client_def verify_table_defs simp del: tlv_bytes.simps)
qed

subsection \<open>The client of pair verify\<close>


subsection \<open>Pair setup\<close>

text \<open>C22: A wrong proof. A server that gets, after the first message, a client key that is not 0 modulo
  N with a proof of 64 bytes other than the one it computes, is left in state \<open>AUTH_FAILED\<close> with its
  result untouched; its answer makes a client fail with an authentication error and stay as it is.\<close>

theorem setup_wrong_proof_rejected:
  assumes "s_type s = PAIR_SERVER_HOMEKIT"
    and "srp_verifier_new C HASH_SHA512 SRP_NG_3072 USERNAME (ss_salt (s_server s)) (ss_v (s_server s)) A
           (ss_b (s_server s)) (ss_pkB (s_server s)) = Inr (Some ver)"
    and "digest_ok C" and "A \<noteq> []" and "length A \<le> 384" and "length M = 64" and "M \<noteq> v_M ver"
    and "is_homekit_client (s_type c)"
  shows "\<exists>s' reply c'. pair_setup (homekit_table fruit) C r s (tlv_bytes (setup_M3 A M)) = Inr (0, Some reply, s')
     \<and> s_status s' = PAIR_STATUS_AUTH_FAILED \<and> s_result s' = s_result s \<and> s_cb_calls s' = s_cb_calls s
     \<and> pair_setup_response2 (homekit_table fruit) C rc c reply = Inr (-1, c\<lparr>s_errmsg := Some Peer_auth_failure\<rparr>)"
proof -
  have ver: "v_alg ver = HASH_SHA512" "length (v_M ver) = 64"
    using assms(2) digest_okD [OF assms(3), of HASH_SHA512]
    by (auto simp: srp_verifier_new_def res_cases Let_def calculate_M_def)
  have M3: "msg_ok (setup_M3 A M)" using assms(4-6) by (intro setup_msgs_ok) auto
  let ?s1 = "s\<lparr>s_server := (s_server s)\<lparr>ss_pkA := A, ss_M1 := M, ss_verifier := Some ver,
              ss_M2 := None, ss_M2_len := 64\<rparr>, s_status := PAIR_STATUS_AUTH_FAILED\<rparr>"
  let ?err = "[mk_tlv TLVType_State [4], mk_tlv TLVType_Error [2]]"
  have wf: "wf_tlvs ?err" "tlv_required_size ?err \<le> REQUEST_BUFSIZE"
    by (simp_all add: tlv_types REQUEST_BUFSIZE_def)
  have reply: "server_auth_failed_response PAIR_SETUP_MSG04 = Inr (tlv_bytes ?err)"
    using format_to_wf [OF wf] by (simp add: server_auth_failed_response_def state_tlv_eq plain_key_def del: tlv_bytes.simps)
  have "pair_setup (homekit_table fruit) C r s (tlv_bytes (setup_M3 A M)) = Inr (0, Some (tlv_bytes ?err), ?s1)"
    unfolding server_pair_setup(2) [OF assms(1) setup_msgs_state(3) [OF M3]]
  proof (rule setup_exchange_ok)
    show "pair_setup_response2 (homekit_table fruit) C r s (tlv_bytes (setup_M3 A M)) = Inr (0, ?s1)"
      using server_reads_M3 [OF M3 assms(5,6,2) ver, of r] assms(1,7) by (simp add: server_dispatch)
    show "pair_setup_request2 (homekit_table fruit) C r ?s1 = Inr (Some (tlv_bytes ?err), ?s1)"
      using assms(1) reply by (simp add: server_dispatch server_setup_response2_def del: tlv_bytes.simps)
  qed
  moreover have "message_process (tlv_bytes ?err) = Inr (Inl Peer_auth_failure)"
    using pair_tlv_parse_bytes [OF wf(1)]
    by (simp add: message_process_def pair_tlv_new_def tlv_types peer_error_def del: tlv_bytes.simps)
  then have "pair_setup_response2 (homekit_table fruit) C rc c (tlv_bytes ?err) = Inr (-1, c\<lparr>s_errmsg := Some Peer_auth_failure\<rparr>)"
    by (simp add: client_dispatch [OF assms(8)] client_setup_response2_def Let_def del: tlv_bytes.simps)
  ultimately show ?thesis by (auto simp del: tlv_bytes.simps)
qed

text \<open>Pair setup, client side. The context of a client is completed by the sixth message only if
  what it sealed opened under the key of the SRP session, and held an identifier shorter than 64 bytes,
  a public key and a signature, made with this key, over the session's accessory value, the identifier
  and the key; exactly these go into the result and to the callback.\<close>

lemma client_setup_accepts_only_signed:
  assumes "client_setup_response3 C r h data = Inr (0, h')"
  shows "\<exists>user derived_key device_x sealed_data plain ident pk signature.
       cs_user (s_client h) = Some user
     \<and> hkdf_extract_expand C 32 (srp_user_get_session_key user) PAIR_SETUP_MSG06 = Inr (Some derived_key)
     \<and> hkdf_extract_expand C 32 (srp_user_get_session_key user) PAIR_SETUP_ACCESSORY_SIGN = Inr (Some device_x)
     \<and> open_message C sealed_data derived_key PAIR_SETUP_MSG06 = Some plain
     \<and> length ident < 64 \<and> length pk = 32 \<and> length signature = 64
     \<and> sign_verify C signature (device_x @ ident @ pk) pk
     \<and> s_status h' = PAIR_STATUS_COMPLETED
     \<and> res_server_public_key (s_result h') = pk
     \<and> res_device_id (s_result h') = overlay (res_device_id (s_result h)) ident
     \<and> s_cb_calls h' = s_cb_calls h @ (if cs_add_cb (s_client h)
          then [(pk, c_string (overlay (res_device_id (s_result h)) ident))] else [])"
proof -
  from assms obtain encrypted_data user derived_key plain device_x ident pk signature
    where *: "cs_user (s_client h) = Some user"
      "hkdf_extract_expand C 32 (srp_user_get_session_key user) PAIR_SETUP_MSG06 = Inr (Some derived_key)"
      "hkdf_extract_expand C 32 (srp_user_get_session_key user) PAIR_SETUP_ACCESSORY_SIGN = Inr (Some device_x)"
      "open_message C encrypted_data derived_key PAIR_SETUP_MSG06 = Some plain"
      "length ident < 64" "length pk = 32" "length signature = 64"
      "\<not> verify_info C signature pk device_x ident pk < 0"
    and h': "h' = (let res = (s_result h)\<lparr>res_client_private_key := cs_private_key (s_client h),
              res_client_public_key := cs_public_key (s_client h), res_server_public_key := pk,
              res_device_id := overlay (res_device_id (s_result h)) ident\<rparr>
        in h\<lparr>s_result := res, s_cb_calls := (if cs_add_cb (s_client h)
             then s_cb_calls h @ [(res_server_public_key res, c_string (res_device_id res))] else s_cb_calls h),
             s_status := PAIR_STATUS_COMPLETED\<rparr>)"
    by (simp add: client_setup_response3_def res_cases Let_def s_errmsg_set_def)
      (elim exE conjE, auto simp: res_cases not_le Let_def split: option.splits)
  have "sign_verify C signature (device_x @ ident @ pk) pk" by (rule verify_info_sound [OF *(8)])
  with * show ?thesis
    unfolding h' Let_def by (intro exI conjI) (assumption | simp)+
qed

lemma format_to_fits:
  "tlv_required_size ts + 2 * empty_values ts \<le> cap \<Longrightarrow> \<exists>d. format_to cap ts = Inr (0, d)"
  by (simp add: format_to_def pair_tlv_format_def length_tlv_bytes Let_def)

text \<open>C23: A way around, client side of transient pairing. A server that does not know the pin sends a
  zero as its public key, with any salt of 16 bytes, and 64 zero bytes as its proof. The client goes on
  without a session key, accepts the proof, and is completed with a shared secret of length 0.\<close>

theorem transient_setup_bypass:
  assumes "crypto_ok C" and "0 \<le> r_exp rc"
    and "pair_setup_new (homekit_table fruit) C rc PAIR_CLIENT_HOMEKIT_TRANSIENT pin cb dev = Some c"
    and "length salt = 16" and "zero_key \<noteq> []" and "length zero_key \<le> 384" and "mpi_scan C zero_key = 0"
  shows "\<exists>m1 c1 c2 m3 c3 c4 str res.
       pair_setup_request1 (homekit_table fruit) C rc c = Inr (Some m1, c1)
     \<and> pair_setup_response1 (homekit_table fruit) C rc c1 (tlv_bytes (setup_M2 salt zero_key)) = Inr (0, c2)
     \<and> pair_setup_request2 (homekit_table fruit) C rc c2 = Inr (Some m3, c3)
     \<and> pair_setup_response2 (homekit_table fruit) C rc c3 (tlv_bytes (setup_M4 (replicate 64 0))) = Inr (0, c4)
     \<and> pair_setup_result (homekit_table fruit) c4 = (0, c4, Some (str, res)) \<and> res_shared_secret_len res = 0"
proof -
  have C: "mpi_ok C" using assms(1) by (simp add: crypto_ok_def)
  have ty: "is_homekit_client PAIR_CLIENT_HOMEKIT_TRANSIENT" by (simp add: is_homekit_client_def)
  note c = pair_setup_new_client [OF assms(3) ty]
  let ?T = "homekit_table fruit" and ?a = "r_exp rc"
  let ?u0 = "srp_user_fresh USERNAME (cs_pin (s_client c))"
  let ?u1 = "?u0\<lparr>u_a := ?a, u_A := srp_A ?a, u_bytes_A := mpi_print C (srp_A ?a)\<rparr>"
  let ?c1 = "c\<lparr>s_client := (s_client c)\<lparr>cs_user := Some ?u0\<rparr>\<rparr>"
  let ?c2 = "?c1\<lparr>s_client := (s_client ?c1)\<lparr>cs_pkB := zero_key, cs_salt := salt\<rparr>\<rparr>"
  let ?c3 = "?c2\<lparr>s_client := (s_client ?c2)\<lparr>cs_user := Some ?u1, cs_pkA := mpi_print C (srp_A ?a), cs_M1 := []\<rparr>\<rparr>"
  let ?c4 = "?c3\<lparr>s_client := (s_client ?c3)\<lparr>cs_user := Some (?u1\<lparr>u_authenticated := True\<rparr>), cs_M2 := replicate 64 0\<rparr>,
     s_result := (s_result c)\<lparr>res_shared_secret_len := 0\<rparr>, s_status := PAIR_STATUS_COMPLETED\<rparr>"
  have M2: "msg_ok (setup_M2 salt zero_key)" using assms(4-6) by (intro setup_msgs_ok) auto
  have M4: "msg_ok (setup_M4 (replicate 64 0))" by (rule setup_msgs_ok(4)) auto
  have 1: "pair_setup_request1 ?T C rc c = Inr (Some (tlv_bytes (setup_M1 (s_type c))), ?c1)"
    using client_makes_M1 [OF C, of rc c] c ty by (simp add: client_dispatch)
  have 2: "pair_setup_response1 ?T C rc ?c1 (tlv_bytes (setup_M2 salt zero_key)) = Inr (0, ?c2)"
    using client_reads_M2 [OF M2 assms(4,6), where h = ?c1 and C = C and r = rc] c ty by (simp add: client_dispatch)
  have "bnum_num_bytes C 0 \<le> 384"
    using mpi_okD(1) [OF C, of 0 0] by (simp add: bnum_num_bytes_def)
  then have proc: "srp_user_process_challenge C ?u1 salt zero_key = Inr (?u1, [])"
    using srp_bounds [OF C] assms(7)
    by (simp add: srp_user_process_challenge_def srp_user_fresh_def H_nn_pad_ok Let_def)
  have start: "srp_user_start_authentication C ?a ?u0 = (?u1, mpi_print C (srp_A ?a))"
    by (rule srp_user_start_eq) (simp_all add: C assms(2))
  let ?ts = "[mk_tlv TLVType_State [3], mk_tlv TLVType_PublicKey (mpi_print C (srp_A ?a)), mk_tlv TLVType_Proof []]"
  have "tlv_required_size ?ts \<le> 1034 + (1034 + 1034)"
    using srp_public_values(2) [OF C, of ?a] by simp
  moreover have "empty_values ?ts \<le> 3" by (simp add: empty_values_def)
  ultimately obtain m3 where fmt: "format_to REQUEST_BUFSIZE ?ts = Inr (0, m3)"
    using format_to_fits [of ?ts REQUEST_BUFSIZE] by (auto simp: REQUEST_BUFSIZE_def simp del: tlv_required_size.simps)
  have 3: "pair_setup_request2 ?T C rc ?c2 = Inr (Some m3, ?c3)"
    using start proc fmt c ty
    by (simp add: client_dispatch client_setup_request2_def state_tlv_eq plain_key_def Let_def del: tlv_bytes.simps)
  have 4: "pair_setup_response2 ?T C rc ?c3 (tlv_bytes (setup_M4 (replicate 64 0))) = Inr (0, ?c4)"
    using c ty msg_ok_process [OF M4]
    by (simp add: client_dispatch client_setup_response2_def setup_msgs_values srp_user_verify_session_def
        srp_user_is_authenticated_def srp_user_get_session_key_def overlay_def Let_def del: tlv_bytes.simps)
  have "pair_setup_result ?T ?c4 = (0, ?c4, Some (s_result_str ?c4, s_result ?c4))"
    using c by (simp add: pair_setup_result_def table_defs)
  moreover have "res_shared_secret_len (s_result ?c4) = 0" by simp
  ultimately show ?thesis using 1 2 3 4 by blast
qed

text \<open>The return value of \<open>pair_setup\<close>. For the first message of a client (no input) and for the last
  one (state 6) it is -1 although all went well: the first message is made, and the last one is read
  and completes the context.\<close>

theorem pair_setup_return_values:
  assumes "mpi_ok C" and "is_homekit_client (s_type c)"
  shows "(\<exists>c'. pair_setup (homekit_table fruit) C r c [] = Inr (-1, Some (tlv_bytes (setup_M1 (s_type c))), c'))
     \<and> (\<forall>data c'. state_get data = Inr (6, None) \<longrightarrow> client_setup_response3 C r c data = Inr (0, c') \<longrightarrow>
          pair_setup (homekit_table fruit) C r c data = Inr (-1, None, c') \<and> s_status c' = PAIR_STATUS_COMPLETED)"
proof (intro conjI allI impI)
  show "\<exists>c'. pair_setup (homekit_table fruit) C r c [] = Inr (-1, Some (tlv_bytes (setup_M1 (s_type c))), c')"
    using assms(2) client_makes_M1 [OF assms(1), of r c]
    by (auto simp: pair_setup_def is_homekit_client_def table_defs state_get_def pair_setup_request1_def del: tlv_bytes.simps)
next
  fix data c' assume "state_get data = Inr (6, None)" and ok: "client_setup_response3 C r c data = Inr (0, c')"
  then show "pair_setup (homekit_table fruit) C r c data = Inr (-1, None, c')"
    using assms(2) by (auto simp: pair_setup_def is_homekit_client_def table_defs pair_setup_response3_def)
next
  fix data c' assume "client_setup_response3 C r c data = Inr (0, c')"
  then show "s_status c' = PAIR_STATUS_COMPLETED"
    by (simp add: client_setup_response3_def res_cases Let_def s_errmsg_set_def)
      (elim exE conjE, auto simp: res_cases Let_def split: option.splits)
qed

end
