(* ===== verification/Pairings.thy ===== *)
theory Pairings
  imports Handshake
begin

text \<open>
  The requests of a controller that manages pairings: \<open>server_add_remove\<close> and \<open>server_list\<close> of
  \<open>src/pair_ap/pair_homekit.c\<close>, on the messages of the HomeKit protocol.
\<close>

text \<open>An add request names the key of the new pairing, a remove request does not.\<close>

definition add_request :: "bytes \<Rightarrow> bytes \<Rightarrow> tlv_values" where
  "add_request ident pk = [mk_tlv TLVType_State [1], mk_tlv TLVType_Method [3], mk_tlv TLVType_Identifier ident,
     mk_tlv TLVType_PublicKey pk, mk_tlv TLVType_Permissions [1]]"

definition remove_request :: "bytes \<Rightarrow> tlv_values" where
  "remove_request ident = [mk_tlv TLVType_State [1], mk_tlv TLVType_Method [4], mk_tlv TLVType_Identifier ident]"

lemma server_add_remove_response_eq:
  "server_add_remove_response = Inr (Some (tlv_bytes [mk_tlv TLVType_State [2]]))"
proof -
  have "msg_ok [mk_tlv TLVType_State [2]]" by (simp add: msg_ok_def tlv_types)
  from msg_ok_format [OF this] show ?thesis
    by (simp add: server_add_remove_response_def pair_tlv_new_def del: tlv_bytes.simps)
qed

text \<open>Adding and removing a pairing. An add request makes exactly one call of the callback, with the
  public key and the identifier; a remove request makes one call, with a null key and the identifier;
  both are answered with state 2.\<close>

lemma pairings_add_remove:
  assumes "ident \<noteq> []" and "length ident < 64" and "0 \<notin> set ident" and "length pk = 32"
  shows "server_add_remove (tlv_bytes (add_request ident pk)) =
      Inr (0, Some (tlv_bytes [mk_tlv TLVType_State [2]]), [(Some pk, ident)])
     \<and> server_add_remove (tlv_bytes (remove_request ident)) =
      Inr (0, Some (tlv_bytes [mk_tlv TLVType_State [2]]), [(None, ident)])"
proof -
  have "pk \<noteq> []" using assms(4) by auto
  then have ok: "msg_ok (add_request ident pk)" "msg_ok (remove_request ident)"
    using assms by (simp_all add: msg_ok_def add_request_def remove_request_def tlv_types)
  have vals: "value_of (add_request ident pk) TLVType_Identifier = Some ident"
    "value_of (add_request ident pk) TLVType_PublicKey = Some pk"
    "value_of (remove_request ident) TLVType_Identifier = Some ident"
    "value_of (remove_request ident) TLVType_PublicKey = None"
    by (simp_all add: add_request_def remove_request_def tlv_types)
  show ?thesis
    using assms c_string_overlay [OF assms(3), of 64]
    by (simp add: server_add_remove_def server_add_remove_request_def msg_ok_process ok vals
        server_add_remove_response_eq PAIR_AP_DEVICE_ID_LEN_MAX_def Let_def del: tlv_bytes.simps)
qed

subsection \<open>Listing\<close>

definition pairing_tlvs :: "bytes \<times> bytes \<Rightarrow> tlv_values" where
  "pairing_tlvs = (\<lambda>(pk, ident). [mk_tlv TLVType_Identifier ident, mk_tlv TLVType_PublicKey pk, mk_tlv TLVType_Permissions [1]])"

text \<open>The list as the protocol has it: the items of each pairing, separators between them.\<close>

fun list_tlvs :: "(bytes \<times> bytes) list \<Rightarrow> tlv_values" where
  "list_tlvs [] = []"
| "list_tlvs [p] = pairing_tlvs p"
| "list_tlvs (p # q # ps) = pairing_tlvs p @ mk_tlv TLVType_Separator [] # list_tlvs (q # ps)"

lemma list_tlvs_Cons: "ps \<noteq> [] \<Longrightarrow> list_tlvs (p # ps) = pairing_tlvs p @ mk_tlv TLVType_Separator [] # list_tlvs ps"
  by (cases ps) auto

lemma run_list_cb_later:
  "value_of response TLVType_Identifier \<noteq> None \<Longrightarrow> ps \<noteq> [] \<Longrightarrow>
     run_list_cb ps response = response @ mk_tlv TLVType_Separator [] # list_tlvs ps"
proof (induction ps arbitrary: response)
  case (Cons p ps)
  obtain pk ident where p: "p = (pk, ident)" by (cases p)
  have "value_of (response @ xs) TLVType_Identifier \<noteq> None" for xs
    using Cons.prems(1) by (auto simp: value_of_def pair_tlv_get_value_append split: option.split)
  then show ?case
    using Cons.prems Cons.IH by (cases "ps = []")
      (auto simp: p server_list_cb_def pairing_tlvs_def list_tlvs_Cons Let_def)
qed simp

lemma run_list_cb_eq:
  "value_of response TLVType_Identifier = None \<Longrightarrow> run_list_cb ps response = response @ list_tlvs ps"
proof (cases ps)
  case (Cons p ps')
  assume none: "value_of response TLVType_Identifier = None"
  obtain pk ident where p: "p = (pk, ident)" by (cases p)
  have "pair_tlv_get_value response TLVType_Identifier = None"
    using none by (simp add: value_of_def)
  then have "value_of (response @ pairing_tlvs p) TLVType_Identifier \<noteq> None"
    by (simp add: p pairing_tlvs_def value_of_def pair_tlv_get_value_append)
  then show ?thesis
    using none run_list_cb_later [of "response @ pairing_tlvs p" ps']
    by (cases "ps' = []") (auto simp: Cons p server_list_cb_def pairing_tlvs_def list_tlvs_Cons Let_def)
qed simp

lemma empty_values_list:
  "\<forall>(pk, ident) \<in> set ps. pk \<noteq> [] \<and> ident \<noteq> [] \<Longrightarrow> empty_values (list_tlvs ps) = length ps - 1"
  by (induction ps rule: list_tlvs.induct) (auto simp: pairing_tlvs_def empty_values_def)

text \<open>Listing pairings. The answer is the formatted list, with separators between the pairings, but
  it lacks its last 2 bytes for every separator: with one pairing it is complete, with two it breaks off
  inside the last item.\<close>

theorem server_list_truncated:
  assumes "\<forall>(pk, ident) \<in> set ps. pk \<noteq> [] \<and> ident \<noteq> []"
    and "tlv_required_size (mk_tlv TLVType_State [2] # list_tlvs ps) + 2 * (length ps - 1) \<le> 4096"
  shows "\<exists>data. server_list ps = Inr (0, Some data)
     \<and> data = take (length (tlv_bytes (mk_tlv TLVType_State [2] # list_tlvs ps)) - 2 * (length ps - 1))
         (tlv_bytes (mk_tlv TLVType_State [2] # list_tlvs ps))"
proof -
  let ?ts = "mk_tlv TLVType_State [2] # list_tlvs ps"
  have empty: "empty_values ?ts = length ps - 1"
    using empty_values_list [OF assms(1)] by (simp add: empty_values_def)
  have "run_list_cb ps [mk_tlv TLVType_State [2]] = ?ts"
    using run_list_cb_eq [of "[mk_tlv TLVType_State [2]]" ps] by (simp add: tlv_types)
  moreover have "format_to REQUEST_BUFSIZE ?ts = Inr (0, take (length (tlv_bytes ?ts) - 2 * (length ps - 1)) (tlv_bytes ?ts))"
    using assms(2) unfolding format_to_def pair_tlv_format_def Let_def length_tlv_bytes empty REQUEST_BUFSIZE_def
    by (simp del: tlv_required_size.simps tlv_bytes.simps)
  ultimately show ?thesis
    by (simp add: server_list_def server_list_response_def pair_tlv_new_def del: tlv_bytes.simps)
qed

end
