(* ===== verification/Samples.thy ===== *)
theory Samples
  imports Rtp Sample_Crypto Cipher_Stream Pairing_Safety Pairings
begin

text \<open>
  The theorems that have hypotheses, each applied to a concrete input at which they hold: sessions and
  contexts made by the program's own constructors, and the operations of \<open>Sample_Crypto\<close>.
\<close>

subsection \<open>Concrete values\<close>

definition sample_table :: pair_table where
  "sample_table = homekit_table pair_client_homekit_normal"

definition sample_rand :: "nat \<Rightarrow> rand" where
  "sample_rand n = \<lparr>r_sign_sk = replicate 32 (of_nat n) @ replicate 32 (of_nat n + 1), r_box_sk = replicate 32 (of_nat n + 2),
     r_salt = 2 ^ 120, r_exp = 1\<rparr>"

definition client_id :: bytes where "client_id = [65, 66]"
definition server_id :: bytes where "server_id = [83]"

definition sample_session :: rtp_session where
  "sample_session = rtp_session_new 1 2 65535 None 4 0"

lemma sample_ok:
  "mpi_ok sample_crypto" "digest_ok sample_crypto" "kdf_ok sample_crypto" "aead_ok sample_crypto"
  "sign_ok sample_crypto" "dh_ok sample_crypto"
  using sample_crypto_ok by (simp_all add: crypto_ok_def)

lemma sample_digest: "digest sample_crypto alg m = replicate (hash_length alg - 1) 0 @ [1]"
  by (simp add: sample_crypto_def)

lemma bytes_nat_zeros: "bytes_nat (replicate n 0 @ bs) = bytes_nat bs"
  by (induction n) (simp_all add: bytes_nat_def)

lemma sample_scan_digest: "mpi_scan sample_crypto (digest sample_crypto alg m) = 1"
  unfolding sample_digest by (simp add: sample_crypto_def bytes_nat_zeros) (simp add: bytes_nat_def)

lemma srp_N_large: "10 < srp_N_3072"
proof -
  have "(10 :: int) < 256 ^ 383" by simp
  with srp_N_3072_bounds(1) show ?thesis by linarith
qed

lemma sample_nn_hash:
  assumes "0 \<le> a" "a < 256 ^ 384" "0 \<le> b" "b < 256 ^ 384"
  shows "nn_hash sample_crypto HASH_SHA512 a b 384 = 1"
proof -
  have "bnum_num_bytes sample_crypto a \<le> 384" "bnum_num_bytes sample_crypto b \<le> 384"
    using assms length_mpi_print_le [OF sample_ok(1)] by (simp_all add: bnum_num_bytes_print [OF sample_ok(1)])
  then show ?thesis
    by (simp add: nn_hash_def H_nn_pad_def sample_scan_digest Let_def)
qed

lemma sample_srp:
  "srp_B sample_crypto user pin s 1 = 10" "srp_u sample_crypto (srp_A 1) 10 = 1"
proof -
  have k: "srp_k sample_crypto = 1"
    unfolding srp_k_def using srp_N_3072_bounds by (intro sample_nn_hash) simp_all
  have x: "calculate_x sample_crypto HASH_SHA512 s user pin = 1"
    by (simp add: calculate_x_def H_ns_def sample_scan_digest)
  show "srp_B sample_crypto user pin s 1 = 10"
    using srp_N_large by (simp add: srp_B_def srp_v_def k x)
  show "srp_u sample_crypto (srp_A 1) 10 = 1"
    unfolding srp_u_def using srp_N_large by (intro sample_nn_hash) (simp_all add: srp_A_def)
qed

lemma sample_salt: "length (mpi_print sample_crypto (2 ^ 120)) = 16"
proof -
  have "length (mpi_print sample_crypto (2 ^ 120)) \<le> 16" "\<not> length (mpi_print sample_crypto (2 ^ 120)) \<le> 15"
    using length_mpi_print_le [OF sample_ok(1), of "2 ^ 120" 16] length_mpi_print_le [OF sample_ok(1), of "2 ^ 120" 15]
    by simp_all
  then show ?thesis by linarith
qed

lemma sample_honest: "honest_srp sample_crypto (sample_rand a) (sample_rand b) pin"
  using sample_salt by (simp add: honest_srp_def sample_rand_def sample_srp)

subsection \<open>RTP\<close>

lemma sample_session_inv: "rtp_inv sample_session"
  unfolding sample_session_def by (rule rtp_inv_new) simp_all

theorem rtp_send_refines_queue_witness:
  "\<exists>s' p. rtp_send (\<lambda>_. 7) sample_session [1, 2, 3] 352 96 1 = Inr s' \<and> seqnum s' = 0 \<and> pkt_seqnum p = 65535
     \<and> rtp_window s' = take 4 (p # rtp_window sample_session)"
proof -
  have "seqnum sample_session = 65535" "pktbuf_size sample_session = 4"
    by (simp_all add: sample_session_def rtp_session_new_def)
  then show ?thesis
    using rtp_send_refines_queue [OF sample_session_inv, of "\<lambda>_. 7" "[1, 2, 3]" 352 96 1] by auto
qed

theorem rtp_retransmission_witness:
  "\<exists>j. rtp_packet_get (fold (\<lambda>p. rtp_step (\<lambda>_. 7) (\<lambda>_. 0) (Send p 352 96 0)) [[1, 2], [3], [4, 5]] sample_session) 0
       = Inr (Some j)
     \<and> drop RTP_HEADER_LEN (packet_wire (pktbuf (fold (\<lambda>p. rtp_step (\<lambda>_. 7) (\<lambda>_. 0) (Send p 352 96 0))
          [[1, 2], [3], [4, 5]] sample_session) ! j)) = [3]"
proof -
  have "length [[1, 2], [3], [4, 5 :: u8]] \<le> pktbuf_size sample_session"
    by (simp add: sample_session_def rtp_session_new_def)
  moreover have "seqnum sample_session + of_nat 1 = 0"
    by (simp add: sample_session_def rtp_session_new_def)
  ultimately show ?thesis
    using rtp_retransmission [OF sample_session_inv _ _ refl, of "[[1, 2], [3], [4, 5]]" 1 "\<lambda>_. 7" "\<lambda>_. 0" 352 96 0]
    by (simp del: fold_simps)
qed

theorem rtp_packet_get_exact_witness:
  "rtp_packet_get sample_session 3 = Inr None
     \<or> (\<exists>i. rtp_packet_get sample_session 3 = Inr (Some i) \<and> i < length (pktbuf sample_session)
          \<and> pktbuf sample_session ! i \<in> set (rtp_window sample_session) \<and> pkt_seqnum (pktbuf sample_session ! i) = 3)"
  using rtp_packet_get_exact [OF sample_session_inv, of 3] by blast

theorem rtp_session_invariant_witness:
  "rtp_inv (fold (rtp_step (\<lambda>_. 7) (\<lambda>_. 0)) [Send [1, 2] 352 96 0, Flush, Send [3] 352 96 0] (rtp_session_new 1 2 65535 None 4 0))"
  by (rule rtp_session_invariant) simp_all

subsection \<open>SRP\<close>

theorem srp_agreement_witness:
  "\<exists>usr M ver ver' usr' h. srp_run sample_crypto USERNAME [49] [49] (2 ^ 120) 1 1 = Inr (usr, M, Some ver)
     \<and> srp_verifier_verify_session ver M = Inr (ver', Some h)
     \<and> srp_user_verify_session usr h = Inr usr' \<and> srp_user_is_authenticated usr'"
proof -
  have "srp_B sample_crypto USERNAME [49] (2 ^ 120) 1 \<noteq> 0"
    "srp_u sample_crypto (srp_A 1) (srp_B sample_crypto USERNAME [49] (2 ^ 120) 1) \<noteq> 0"
    by (simp_all add: sample_srp)
  from srp_agreement [OF sample_ok(1,2) _ _ _ this] show ?thesis by auto
qed

theorem srp_unsafe_challenge_accepts_zeros_witness:
  "\<exists>usr1 bytes_A usr'. srp_user_start_authentication sample_crypto 1 (srp_user_fresh USERNAME [49]) = (usr1, bytes_A)
     \<and> srp_user_process_challenge sample_crypto usr1 [7] [0] = Inr (usr1, [])
     \<and> srp_user_verify_session usr1 (replicate 64 0) = Inr usr' \<and> srp_user_is_authenticated usr'"
proof -
  obtain usr1 bytes_A where start: "srp_user_start_authentication sample_crypto 1 (srp_user_fresh USERNAME [49]) = (usr1, bytes_A)"
    by (cases "srp_user_start_authentication sample_crypto 1 (srp_user_fresh USERNAME [49])")
  have "mpi_scan sample_crypto [0] = 0" by (simp add: sample_crypto_def bytes_nat_def)
  from srp_unsafe_challenge_accepts_zeros [OF sample_ok(1) _ srp_user_new_eq [OF sample_ok(1)] start this, of "[7]"] start
  show ?thesis by auto
qed

subsection \<open>The cipher\<close>

definition sample_cipher :: "int \<Rightarrow> cipher_ctx" where
  "sample_cipher channel = the (projr (cipher_new sample_crypto PAIR_CLIENT_HOMEKIT_TRANSIENT channel (replicate 64 9)))"

lemma sample_cipher_new:
  "channel \<in> {0, 1, 2, 3} \<Longrightarrow> cipher_new sample_crypto PAIR_CLIENT_HOMEKIT_TRANSIENT channel (replicate 64 9) =
     Inr (Some (sample_cipher channel))"
  using hkdf_some [OF sample_ok(3)]
  by (auto simp: sample_cipher_def cipher_new_def channel_keys_def hkdf_extract_expand_def sample_crypto_def)

lemma sample_cipher_keys:
  "c_decryption_key (sample_cipher 2) = c_encryption_key (sample_cipher 0)"
  "c_decryption_counter (sample_cipher 2) = c_encryption_counter (sample_cipher 0)"
  "c_type (sample_cipher channel) \<noteq> PAIR_CLIENT_FRUIT \<or> channel \<notin> {0, 1, 2, 3}"
  by (auto simp: sample_cipher_def cipher_new_def channel_keys_def hkdf_extract_expand_def sample_crypto_def)

theorem cipher_roundtrip_witness:
  "\<exists>c s' r'. encrypt sample_crypto (replicate 1500 5) (sample_cipher 0) = (1500, Some (c, length c), s')
     \<and> length c = 1536 \<and> decrypt sample_crypto c (sample_cipher 2) = Inr (1536, Some (replicate 1500 5), r')"
  using cipher_roundtrip [OF sample_ok(4) _ sample_cipher_keys(1,2), of "replicate 1500 5"] by auto

theorem decrypt_integrity_witness:
  "\<exists>ret cctx' (bs :: (bytes \<times> bytes) list) rest. decrypt sample_crypto [9, 9] (sample_cipher 2) = Inr (ret, Some [], cctx')
     \<and> [9, 9 :: u8] = concat (map fst bs) @ rest \<and> ret = int (length (concat (map fst bs)))"
proof -
  have "\<exists>ret cctx'. decrypt sample_crypto [9, 9] (sample_cipher 2) = Inr (ret, Some [], cctx')"
    by (simp add: decrypt_def decrypt_loop.simps [of _ _ _ "[9, 9]"] get_le16_def AUTHTAG_LENGTH_def Let_def)
  then obtain ret cctx' where "decrypt sample_crypto [9, 9] (sample_cipher 2) = Inr (ret, Some [], cctx')"
    by blast
  with decrypt_integrity [OF this] show ?thesis by blast
qed

theorem cipher_new_mirror_witness:
  "\<exists>a b. cipher_new sample_crypto PAIR_CLIENT_HOMEKIT_NORMAL 1 [1] = Inr (Some a)
     \<and> cipher_new sample_crypto PAIR_SERVER_HOMEKIT 3 [1] = Inr (Some b) \<and> c_encryption_key a = c_decryption_key b"
  using cipher_new_mirror [OF sample_ok(3), of 1 PAIR_CLIENT_HOMEKIT_NORMAL "[1]" PAIR_SERVER_HOMEKIT] by auto

text \<open>Two messages in a stream of 39 bytes, cut 2 bytes into the second block.\<close>

theorem cipher_stream_witness:
  "\<exists>wire s' rcv'. send_all sample_table sample_crypto [] [[1, 2], [3]] (sample_cipher 0) = (wire, s')
     \<and> receive_all sample_table sample_crypto [take 22 wire, drop 22 wire] [] [] (sample_cipher 2) = Inr (Some ([1, 2, 3], [], rcv'))"
proof -
  obtain wire s' where send: "send_all sample_table sample_crypto [] [[1, 2], [3]] (sample_cipher 0) = (wire, s')"
    by (cases "send_all sample_table sample_crypto [] [[1, 2], [3]] (sample_cipher 0)")
  have ty: "c_type (sample_cipher 0) \<noteq> PAIR_CLIENT_FRUIT" "c_type (sample_cipher 2) \<noteq> PAIR_CLIENT_FRUIT"
    using sample_cipher_keys(3) [of 0] sample_cipher_keys(3) [of 2] by auto
  let ?key = "c_encryption_key (sample_cipher 0)" and ?ctr = "c_encryption_counter (sample_cipher 0)"
  let ?bs = "[[1, 2], [3]] :: bytes list"
  have blocks: "stream_blocks ?bs = ?bs"
    by (simp add: blocks.simps ENCRYPTED_LEN_MAX_def)
  have wire: "wire = seal_blocks sample_crypto ?key ?ctr ?bs"
    using send_all_eq [OF sample_ok(4) _ homekit_table_cipher [OF ty(1)] send [unfolded sample_table_def]] blocks by simp
  have lens: "length (seal_blocks sample_crypto ?key ?ctr bs) = length (concat bs) + 18 * length bs" for bs
    by (rule length_seal_blocks [OF sample_ok(4)])
  have split: "no_split sample_crypto ?key ?ctr (stream_blocks ?bs) [take 22 wire, drop 22 wire]"
  proof -
    have "length wire = 39" unfolding wire lens by simp
    then have "length (concat (take i [take 22 wire, drop 22 wire])) \<in> {0, 22, 39}" if "i \<le> 2" for i
      using that by (auto simp: le_Suc_eq numeral_2_eq_2)
    moreover have "length (seal_blocks sample_crypto ?key ?ctr (take k ?bs)) \<in> {0, 20, 39}" if "k \<le> 2" for k
      unfolding lens using that by (auto simp: le_Suc_eq numeral_2_eq_2)
    moreover have "m \<noteq> n + 1" if "m \<in> {0, 22, 39}" "n \<in> {0, 20, 39}" for m n :: nat
      using that by auto
    ultimately show ?thesis
      unfolding no_split_def blocks by (simp only: list.size One_nat_def numeral_2_eq_2 add_0 add_Suc) blast
  qed
  have len: "length wire = 39" unfolding wire lens by simp
  then have "concat [take 22 wire, drop 22 wire] = wire" "[] \<notin> set [take 22 wire, drop 22 wire]" by auto
  note stream = cipher_stream [OF sample_ok(4) _ sample_cipher_keys(1,2) ty send [unfolded sample_table_def] this split]
  from stream send show ?thesis by (auto simp: sample_table_def simp del: send_all.simps receive_all.simps)
qed

subsection \<open>Pair setup\<close>

definition sample_client :: "pair_type \<Rightarrow> setup_ctx" where
  "sample_client ty = the (pair_setup_new sample_table sample_crypto (sample_rand 1) ty (Some [49]) True (Some client_id))"

definition sample_server :: setup_ctx where
  "sample_server = the (pair_setup_new sample_table sample_crypto (sample_rand 2) PAIR_SERVER_HOMEKIT (Some [49]) True (Some server_id))"

lemma sample_new:
  "is_homekit_client ty \<Longrightarrow> pair_setup_new sample_table sample_crypto (sample_rand 1) ty (Some [49]) True (Some client_id) =
     Some (sample_client ty)"
  "pair_setup_new sample_table sample_crypto (sample_rand 2) PAIR_SERVER_HOMEKIT (Some [49]) True (Some server_id) =
     Some sample_server"
  "is_homekit_client ty \<Longrightarrow> cs_pin (s_client (sample_client ty)) = [49]" "ss_pin (s_server sample_server) = [49]"
  by (auto simp: sample_client_def sample_server_def pair_setup_new_def sample_table_def is_homekit_client_def table_defs
      client_setup_new_def server_setup_new_def sample_crypto_def client_id_def server_id_def
      PAIR_AP_DEVICE_ID_LEN_MAX_def Let_def split: prod.split)

lemma homekit_clients: "is_homekit_client PAIR_CLIENT_HOMEKIT_TRANSIENT" "is_homekit_client PAIR_CLIENT_HOMEKIT_NORMAL"
  by (simp_all add: is_homekit_client_def)



text \<open>A server that has made its keys, and a proof of zeros, which is not the one it computes.\<close>

theorem setup_wrong_proof_rejected_witness:
  "\<exists>s s' reply. server_setup_request1 sample_crypto (sample_rand 2) sample_server
       (tlv_bytes (setup_M1 PAIR_CLIENT_HOMEKIT_TRANSIENT)) = Inr (0, s)
     \<and> pair_setup sample_table sample_crypto (sample_rand 2) s
         (tlv_bytes (setup_M3 (mpi_print sample_crypto (srp_A 1)) (replicate 64 0))) = Inr (0, Some reply, s')
     \<and> s_status s' = PAIR_STATUS_AUTH_FAILED"
proof -
  have exp: "0 \<le> r_exp (sample_rand 2)" by (simp add: sample_rand_def)
  have ty: "s_type sample_server = PAIR_SERVER_HOMEKIT"
    by (rule pair_setup_new_server [OF sample_new(2) [unfolded sample_table_def]])
  let ?s = "sample_server\<lparr>s_server := (s_server sample_server)
     \<lparr>ss_is_transient := True, ss_salt := mpi_print sample_crypto (r_salt (sample_rand 2)),
      ss_v := mpi_print sample_crypto (srp_v sample_crypto USERNAME [49] (r_salt (sample_rand 2))),
      ss_b := mpi_print sample_crypto (r_exp (sample_rand 2)),
      ss_pkB := mpi_print sample_crypto (srp_B sample_crypto USERNAME [49] (r_salt (sample_rand 2)) (r_exp (sample_rand 2)))\<rparr>\<rparr>"
  have s: "server_setup_request1 sample_crypto (sample_rand 2) sample_server (tlv_bytes (setup_M1 PAIR_CLIENT_HOMEKIT_TRANSIENT)) = Inr (0, ?s)"
    using server_reads_M1 [OF sample_ok(1) exp, of sample_server] by (simp add: sample_new)
  have salt: "0 \<le> r_salt (sample_rand 2)" by (simp add: sample_rand_def)
  have "srp_M sample_crypto USERNAME [49] (r_salt (sample_rand 2)) 1 (r_exp (sample_rand 2)) = replicate 63 0 @ [1]"
    by (simp add: srp_M_def calculate_M_def sample_digest Let_def)
  moreover have "replicate 64 0 \<noteq> replicate 63 0 @ [1 :: u8]"
    by (metis last_replicate last_snoc zero_neq_numeral zero_neq_one)
  moreover note ver = srp_server_eq [OF sample_ok(1) salt exp, of USERNAME "[49]" 1]
  ultimately show ?thesis
    using s ty setup_wrong_proof_rejected [where s = ?s and C = sample_crypto and A = "mpi_print sample_crypto (srp_A 1)"
        and M = "replicate 64 0" and fruit = pair_client_homekit_normal and r = "sample_rand 2" and rc = "sample_rand 1"
        and c = "sample_client PAIR_CLIENT_HOMEKIT_TRANSIENT", OF _ _ sample_ok(2) srp_public_values(1,2) [OF sample_ok(1)]]
      pair_setup_new_client [OF sample_new(1) [OF homekit_clients(1), unfolded sample_table_def] homekit_clients(1)] homekit_clients(1)
    by (fastforce simp: sample_table_def)
qed

theorem client_setup_accepts_only_signed_witness:
  "\<exists>h' user pk ident signature. client_setup_response3 sample_crypto (sample_rand 1)
       (zero_setup_ctx PAIR_CLIENT_HOMEKIT_NORMAL\<lparr>s_client := zero_client_setup\<lparr>cs_user := Some (srp_user_fresh USERNAME [49])\<rparr>\<rparr>)
       (tlv_bytes (setup_M6 sample_crypto [] server_id (sign_sk_to_pk sample_crypto [1]) [1])) = Inr (0, h')
     \<and> res_server_public_key (s_result h') = pk \<and> length signature = 64
     \<and> sign_verify sample_crypto signature (user @ ident @ pk) pk"
proof -
  let ?h = "zero_setup_ctx PAIR_CLIENT_HOMEKIT_NORMAL\<lparr>s_client := zero_client_setup\<lparr>cs_user := Some (srp_user_fresh USERNAME [49])\<rparr>\<rparr>"
  have "srp_user_get_session_key (srp_user_fresh USERNAME [49]) = []"
    by (simp add: srp_user_get_session_key_def)
  then obtain h' where "client_setup_response3 sample_crypto (sample_rand 1) ?h
       (tlv_bytes (setup_M6 sample_crypto [] server_id (sign_sk_to_pk sample_crypto [1]) [1])) = Inr (0, h')"
    using client_reads_M6 [OF sample_ok(3-5), where h = ?h and u = "srp_user_fresh USERNAME [49]" and ident = server_id
        and sk = "[1]" and r = "sample_rand 1"] by (auto simp: server_id_def)
  with client_setup_accepts_only_signed [OF this] show ?thesis by blast
qed

theorem transient_setup_bypass_witness:
  "\<exists>m1 c1 c2 m3 c3 c4 str res.
       pair_setup_request1 sample_table sample_crypto (sample_rand 1) (sample_client PAIR_CLIENT_HOMEKIT_TRANSIENT) = Inr (Some m1, c1)
     \<and> pair_setup_response1 sample_table sample_crypto (sample_rand 1) c1 (tlv_bytes (setup_M2 (replicate 16 7) [0])) = Inr (0, c2)
     \<and> pair_setup_request2 sample_table sample_crypto (sample_rand 1) c2 = Inr (Some m3, c3)
     \<and> pair_setup_response2 sample_table sample_crypto (sample_rand 1) c3 (tlv_bytes (setup_M4 (replicate 64 0))) = Inr (0, c4)
     \<and> pair_setup_result sample_table c4 = (0, c4, Some (str, res)) \<and> res_shared_secret_len res = 0"
proof -
  have "0 \<le> r_exp (sample_rand 1)" by (simp add: sample_rand_def)
  moreover have "mpi_scan sample_crypto [0] = 0" by (simp add: sample_crypto_def bytes_nat_def)
  ultimately show ?thesis
    using transient_setup_bypass [OF sample_crypto_ok _ sample_new(1) [OF homekit_clients(1), unfolded sample_table_def],
        of "replicate 16 7" "[0]"]
    unfolding sample_table_def by simp
qed

theorem pair_setup_return_values_witness:
  "\<exists>c'. pair_setup sample_table sample_crypto (sample_rand 1) (sample_client PAIR_CLIENT_HOMEKIT_NORMAL) [] =
     Inr (-1, Some (tlv_bytes (setup_M1 PAIR_CLIENT_HOMEKIT_NORMAL)), c')"
proof -
  have "s_type (sample_client PAIR_CLIENT_HOMEKIT_NORMAL) = PAIR_CLIENT_HOMEKIT_NORMAL"
    using pair_setup_new_client [OF sample_new(1) [OF homekit_clients(2), unfolded sample_table_def] homekit_clients(2)] by simp
  then show ?thesis
    using pair_setup_return_values [OF sample_ok(1), of "sample_client PAIR_CLIENT_HOMEKIT_NORMAL"] homekit_clients(2)
    unfolding sample_table_def by simp
qed

subsection \<open>Pair verify\<close>

definition sample_keys :: bytes where
  "sample_keys = client_keys_text (replicate 64 7) (public_key_get sample_crypto server_id)"

definition sample_lookup :: "bytes \<Rightarrow> bytes option" where
  "sample_lookup ident = (if ident = client_id then Some (sign_sk_to_pk sample_crypto (replicate 64 7)) else None)"

definition sample_verifier :: verify_ctx where
  "sample_verifier = the (projr (pair_verify_new sample_table sample_crypto PAIR_CLIENT_HOMEKIT_NORMAL (Some sample_keys) None (Some client_id)))"

definition sample_prover :: verify_ctx where
  "sample_prover = the (projr (pair_verify_new sample_table sample_crypto PAIR_SERVER_HOMEKIT None (Some sample_lookup) (Some server_id)))"

lemma sample_verify_new:
  "pair_verify_new sample_table sample_crypto PAIR_CLIENT_HOMEKIT_NORMAL (Some sample_keys) None (Some client_id) =
     Inr (Some sample_verifier)"
  "pair_verify_new sample_table sample_crypto PAIR_SERVER_HOMEKIT None (Some sample_lookup) (Some server_id) =
     Inr (Some sample_prover)"
proof -
  have len: "length (public_key_get sample_crypto server_id) = 32"
    using server_keypair_ok(2) [OF sample_ok(5)] by (simp add: public_key_get_def)
  have init: "initialized sample_crypto" by (simp add: sample_crypto_def)
  show "pair_verify_new sample_table sample_crypto PAIR_CLIENT_HOMEKIT_NORMAL (Some sample_keys) None (Some client_id) =
     Inr (Some sample_verifier)"
    using hexread_client_keys [of "replicate 64 7" "public_key_get sample_crypto server_id"] len init
    by (simp add: sample_verifier_def pair_verify_new_def sample_table_def verify_table_defs client_verify_new_def
        client_id_def PAIR_AP_DEVICE_ID_LEN_MAX_def sample_keys_def Let_def)
  show "pair_verify_new sample_table sample_crypto PAIR_SERVER_HOMEKIT None (Some sample_lookup) (Some server_id) =
     Inr (Some sample_prover)"
    using init by (simp add: sample_prover_def pair_verify_new_def sample_table_def verify_table_defs server_verify_new_def
        server_id_def PAIR_AP_DEVICE_ID_LEN_MAX_def Let_def split: prod.split)
qed

theorem verify_agreement_witness:
  "\<exists>c' s' res_c res_s. verify_run sample_table sample_crypto (sample_rand 1) (sample_rand 2) sample_verifier sample_prover =
       Inr (Some (c', s'))
     \<and> pair_verify_result sample_table c' = (0, c', Some res_c) \<and> pair_verify_result sample_table s' = (0, s', Some res_s)
     \<and> take 32 (res_shared_secret res_c) = take 32 (res_shared_secret res_s)"
proof -
  have "length (replicate 64 7 :: bytes) = 64" by simp
  from verify_agreement [OF sample_crypto_ok homekit_clients(2) this _ sample_verify_new(1) [unfolded sample_table_def sample_keys_def]
      sample_verify_new(2) [unfolded sample_table_def], of "sample_rand 1" "sample_rand 2"]
  show ?thesis
    unfolding sample_table_def by (auto simp: client_id_def server_id_def sample_lookup_def)
qed

text \<open>The server's context between the second and the third message.\<close>

definition sample_halfway :: verify_ctx where
  "sample_halfway = sample_prover\<lparr>v_server := (v_server sample_prover)
     \<lparr>sv_client_eph_public_key := box_sk_to_pk sample_crypto [1], sv_server_eph_public_key := box_sk_to_pk sample_crypto [2],
      sv_shared_secret := dh_secret sample_crypto [1] [2]\<rparr>\<rparr>"


theorem server_verify_bypass_witness:
  "\<exists>out s' res. pair_verify sample_table sample_crypto (sample_rand 2) sample_prover
       (tlv_bytes [mk_tlv TLVType_State [2], mk_tlv TLVType_PublicKey (replicate 32 1)]) = Inr (0, Some out, s')
     \<and> pair_verify_result sample_table s' = (0, s', Some res) \<and> take 32 (res_shared_secret res) = replicate 32 0"
  using server_verify_bypass [OF sample_verify_new(2) [unfolded sample_table_def], of "replicate 32 1" "sample_rand 2"]
  unfolding sample_table_def by auto

theorem client_verify_out_of_order_witness:
  "\<exists>c' res. pair_verify sample_table sample_crypto (sample_rand 1) sample_verifier (tlv_bytes verify_M4) = Inr (-1, None, c')
     \<and> pair_verify_result sample_table c' = (0, c', Some res) \<and> take 32 (res_shared_secret res) = replicate 32 0"
  using client_verify_out_of_order [OF sample_verify_new(1) [unfolded sample_table_def] homekit_clients(2), of "sample_rand 1"]
  unfolding sample_table_def by auto


subsection \<open>Pairings\<close>

theorem pairings_add_remove_witness:
  "server_add_remove (tlv_bytes (add_request client_id (replicate 32 3))) =
      Inr (0, Some (tlv_bytes [mk_tlv TLVType_State [2]]), [(Some (replicate 32 3), client_id)])"
  by (rule pairings_add_remove [THEN conjunct1]) (simp_all add: client_id_def)

theorem server_list_truncated_witness:
  "\<exists>data. server_list [(replicate 32 3, client_id), (replicate 32 4, server_id)] = Inr (0, Some data)
     \<and> length data = length (tlv_bytes (mk_tlv TLVType_State [2]
          # list_tlvs [(replicate 32 3, client_id), (replicate 32 4, server_id)])) - 2"
proof -
  let ?ps = "[(replicate 32 3, client_id), (replicate 32 4, server_id)]"
  have "\<forall>(pk, ident) \<in> set ?ps. pk \<noteq> [] \<and> ident \<noteq> []"
    by (simp add: client_id_def server_id_def)
  moreover have "tlv_required_size (mk_tlv TLVType_State [2] # list_tlvs ?ps) + 2 * (length ?ps - 1) \<le> 4096"
    by (simp add: pairing_tlvs_def client_id_def server_id_def)
  ultimately show ?thesis
    using server_list_truncated [of ?ps] by (auto simp del: tlv_bytes.simps)
qed

end
