(* ===== verification/Rtsp.thy ===== *)
theory Rtsp
  imports Prelude
begin

text \<open>
  The messages of the RTSP client, \<open>src/evrtsp/rtsp.c\<close>: header lists, the request that
  \<open>evrtsp_make_header\<close> writes, and the parser of responses. An evbuffer is the list of the bytes it
  holds, a C string the bytes before its terminator.

  \<open>evbuffer_readln\<close> of libevent is the parameter \<open>readln\<close>; what its documentation promises is
  \<open>readln_ok\<close>. Memory is always available.
\<close>

subsection \<open>Lines\<close>

datatype eol_style = EVBUFFER_EOL_ANY | EVBUFFER_EOL_CRLF

type_synonym readln = "eol_style \<Rightarrow> bytes \<Rightarrow> (bytes \<times> bytes) option"

definition is_eol :: "u8 \<Rightarrow> bool" where
  "is_eol b \<longleftrightarrow> b = 13 \<or> b = 10"

text \<open>
  \<open>EVBUFFER_EOL_CRLF\<close>: a line ends with a line feed, and a carriage return before it belongs to the end.
  \<open>EVBUFFER_EOL_ANY\<close>: a line ends with any sequence of carriage returns and line feeds, as far as it
  is in the buffer.
\<close>

definition strip_cr :: "bytes \<Rightarrow> bytes" where
  "strip_cr l = (if l \<noteq> [] \<and> last l = 13 then butlast l else l)"

definition readln_ok :: "readln \<Rightarrow> bool" where
  "readln_ok readln \<longleftrightarrow>
     (\<forall>buf. 10 \<notin> set buf \<longrightarrow> readln EVBUFFER_EOL_CRLF buf = None)
   \<and> (\<forall>l buf. 10 \<notin> set l \<longrightarrow> readln EVBUFFER_EOL_CRLF (l @ 10 # buf) = Some (strip_cr l, buf))
   \<and> (\<forall>buf. (\<forall>b \<in> set buf. \<not> is_eol b) \<longrightarrow> readln EVBUFFER_EOL_ANY buf = None)
   \<and> (\<forall>l b buf. (\<forall>c \<in> set l. \<not> is_eol c) \<longrightarrow> is_eol b
        \<longrightarrow> readln EVBUFFER_EOL_ANY (l @ b # buf) = Some (l, dropWhile is_eol buf))"

subsection \<open>Requests\<close>

datatype evrtsp_cmd_type =
  EVRTSP_REQ_ANNOUNCE | EVRTSP_REQ_OPTIONS | EVRTSP_REQ_SETUP | EVRTSP_REQ_RECORD | EVRTSP_REQ_PAUSE
| EVRTSP_REQ_GET_PARAMETER | EVRTSP_REQ_SET_PARAMETER | EVRTSP_REQ_FLUSH | EVRTSP_REQ_TEARDOWN
| EVRTSP_REQ_POST | EVRTSP_REQ_GET | EVRTSP_REQ_SETPEERS

datatype evrtsp_request_kind = EVRTSP_REQUEST | EVRTSP_RESPONSE

type_synonym headers = "(bytes \<times> bytes) list"

text \<open>
  \<open>rq_id\<close> stands for the callback with its argument, and \<open>rq_cb\<close> says that it is not null.
\<close>

record rtsp_request =
  rq_id :: nat
  rq_cb :: bool
  rq_evcon :: bool
  rq_input_headers :: headers
  rq_output_headers :: headers
  rq_kind :: evrtsp_request_kind
  rq_type :: evrtsp_cmd_type
  rq_uri :: "bytes option"
  rq_major :: int
  rq_minor :: int
  rq_response_code :: int
  rq_response_code_line :: "bytes option"
  rq_input_buffer :: bytes
  rq_ntoread :: int
  rq_output_buffer :: bytes

text \<open>\<open>calloc\<close> leaves the type at the first constant of its enumeration.\<close>

definition evrtsp_request_new :: "nat \<Rightarrow> bool \<Rightarrow> rtsp_request" where
  "evrtsp_request_new arg cb =
     \<lparr>rq_id = arg, rq_cb = cb, rq_evcon = False, rq_input_headers = [], rq_output_headers = [],
      rq_kind = EVRTSP_RESPONSE, rq_type = EVRTSP_REQ_ANNOUNCE, rq_uri = None, rq_major = 0, rq_minor = 0,
      rq_response_code = 0, rq_response_code_line = None, rq_input_buffer = [], rq_ntoread = 0,
      rq_output_buffer = []\<rparr>"

fun evrtsp_method :: "evrtsp_cmd_type \<Rightarrow> bytes" where
  "evrtsp_method EVRTSP_REQ_ANNOUNCE = str ''ANNOUNCE''"
| "evrtsp_method EVRTSP_REQ_OPTIONS = str ''OPTIONS''"
| "evrtsp_method EVRTSP_REQ_SETUP = str ''SETUP''"
| "evrtsp_method EVRTSP_REQ_RECORD = str ''RECORD''"
| "evrtsp_method EVRTSP_REQ_PAUSE = str ''PAUSE''"
| "evrtsp_method EVRTSP_REQ_GET_PARAMETER = str ''GET_PARAMETER''"
| "evrtsp_method EVRTSP_REQ_SET_PARAMETER = str ''SET_PARAMETER''"
| "evrtsp_method EVRTSP_REQ_FLUSH = str ''FLUSH''"
| "evrtsp_method EVRTSP_REQ_TEARDOWN = str ''TEARDOWN''"
| "evrtsp_method EVRTSP_REQ_POST = str ''POST''"
| "evrtsp_method EVRTSP_REQ_GET = str ''GET''"
| "evrtsp_method EVRTSP_REQ_SETPEERS = str ''SETPEERS''"

subsection \<open>Headers\<close>

definition to_lower :: "u8 \<Rightarrow> u8" where
  "to_lower b = (if 65 \<le> b \<and> b \<le> 90 then b + 32 else b)"

definition strcasecmp_eq :: "bytes \<Rightarrow> bytes \<Rightarrow> bool" where
  "strcasecmp_eq a b \<longleftrightarrow> map to_lower a = map to_lower b"

fun evrtsp_find_header :: "headers \<Rightarrow> bytes \<Rightarrow> bytes option" where
  "evrtsp_find_header [] key = None"
| "evrtsp_find_header ((k, v) # hs) key = (if strcasecmp_eq k key then Some v else evrtsp_find_header hs key)"

fun evrtsp_remove_header :: "headers \<Rightarrow> bytes \<Rightarrow> int \<times> headers" where
  "evrtsp_remove_header [] key = (-1, [])"
| "evrtsp_remove_header ((k, v) # hs) key =
     (if strcasecmp_eq k key then (0, hs)
      else case evrtsp_remove_header hs key of (ret, hs1) \<Rightarrow> (ret, (k, v) # hs1))"

text \<open>Every line break in a value must be followed by a space or a tab.\<close>

function evrtsp_header_is_valid_value :: "bytes \<Rightarrow> bool" where
  "evrtsp_header_is_valid_value v =
     (case dropWhile (\<lambda>b. \<not> is_eol b) v of
        [] \<Rightarrow> True
      | b # bs \<Rightarrow>
          (case dropWhile is_eol bs of
             [] \<Rightarrow> False
           | c # cs \<Rightarrow> if c \<noteq> 32 \<and> c \<noteq> 9 then False else evrtsp_header_is_valid_value (c # cs)))"
  by pat_completeness auto
termination
proof (relation "measure length", goal_cases)
  case (2 v b bs c cs)
  have "length (c # cs) \<le> length bs" by (metis 2(2) length_dropWhile_le)
  moreover have "length (b # bs) \<le> length v" by (metis 2(1) length_dropWhile_le)
  ultimately show ?case by simp
qed simp

declare evrtsp_header_is_valid_value.simps [simp del]

definition evrtsp_add_header_internal :: "headers \<Rightarrow> bytes \<Rightarrow> bytes \<Rightarrow> int \<times> headers" where
  "evrtsp_add_header_internal hs key v = (0, hs @ [(key, v)])"

definition evrtsp_add_header :: "headers \<Rightarrow> bytes \<Rightarrow> bytes \<Rightarrow> int \<times> headers" where
  "evrtsp_add_header hs key v =
     (if \<exists>b \<in> set key. is_eol b then (-1, hs)
      else if \<not> evrtsp_header_is_valid_value v then (-1, hs)
      else evrtsp_add_header_internal hs key v)"

definition evrtsp_append_to_last_header :: "headers \<Rightarrow> bytes \<Rightarrow> int \<times> headers" where
  "evrtsp_append_to_last_header hs line =
     (if hs = [] then (-1, hs) else (0, butlast hs @ [(fst (last hs), snd (last hs) @ line)]))"

subsection \<open>Writing a request\<close>

definition evrtsp_make_header_request :: "rtsp_request \<Rightarrow> bytes \<times> rtsp_request" where
  "evrtsp_make_header_request req =
     (evrtsp_method (rq_type req) @ str '' '' @ the (rq_uri req) @ str '' RTSP/'' @ print_int (rq_major req)
        @ str ''.'' @ print_int (rq_minor req) @ [13, 10],
      if rq_output_buffer req \<noteq> [] \<and> evrtsp_find_header (rq_output_headers req) (str ''Content-Length'') = None
      then req\<lparr>rq_output_headers := snd (evrtsp_add_header (rq_output_headers req) (str ''Content-Length'')
                (print_int (int (length (rq_output_buffer req)))))\<rparr>
      else req)"

definition header_line :: "bytes \<times> bytes \<Rightarrow> bytes" where
  "header_line h = fst h @ str '': '' @ snd h @ [13, 10]"

text \<open>\<open>evrtsp_make_header\<close>: what is added to the connection's buffer; the body moves there.\<close>

definition evrtsp_make_header :: "rtsp_request \<Rightarrow> bytes \<times> rtsp_request" where
  "evrtsp_make_header req =
     (case evrtsp_make_header_request req of (line, req1) \<Rightarrow>
        (line @ concat (map header_line (rq_output_headers req1)) @ [13, 10] @ rq_output_buffer req1,
         req1\<lparr>rq_output_buffer := []\<rparr>))"

subsection \<open>Reading a response\<close>

datatype message_read_status = ALL_DATA_READ | MORE_DATA_EXPECTED | DATA_CORRUPTED

definition evrtsp_valid_response_code :: "int \<Rightarrow> bool" where
  "evrtsp_valid_response_code code \<longleftrightarrow> code \<noteq> 0"

text \<open>\<open>strsep\<close> with one delimiter: the token, and what follows the delimiter if there is one.\<close>

definition strsep :: "u8 \<Rightarrow> bytes \<Rightarrow> bytes \<times> bytes option" where
  "strsep d s = (takeWhile (\<lambda>b. b \<noteq> d) s,
     case dropWhile (\<lambda>b. b \<noteq> d) s of [] \<Rightarrow> None | _ # rest \<Rightarrow> Some rest)"

definition evrtsp_parse_response_line :: "rtsp_request \<Rightarrow> bytes \<Rightarrow> int \<times> rtsp_request" where
  "evrtsp_parse_response_line req line =
     (case strsep 32 line of
        (protocol, None) \<Rightarrow> (-1, req)
      | (protocol, Some line1) \<Rightarrow>
          (case strsep 32 line1 of (number, line2) \<Rightarrow>
             let readable = (case line2 of None \<Rightarrow> [] | Some l \<Rightarrow> l);
                 answer = (\<lambda>minor.
                   let req1 = req\<lparr>rq_major := 1, rq_minor := minor, rq_response_code := atoi number\<rparr> in
                   if \<not> evrtsp_valid_response_code (rq_response_code req1) then (-1, req1)
                   else (0, req1\<lparr>rq_response_code_line := Some readable\<rparr>))
             in if protocol = str ''RTSP/1.0'' then answer 0
                else if protocol = str ''RTSP/1.1'' then answer 1
                else (-1, req)))"

definition evrtsp_parse_firstline ::
  "readln \<Rightarrow> rtsp_request \<Rightarrow> bytes \<Rightarrow> message_read_status \<times> rtsp_request \<times> bytes" where
  "evrtsp_parse_firstline readln req buffer =
     (case readln EVBUFFER_EOL_ANY buffer of
        None \<Rightarrow> (MORE_DATA_EXPECTED, req, buffer)
      | Some (line, rest) \<Rightarrow>
          (case rq_kind req of
             EVRTSP_RESPONSE \<Rightarrow>
               (case evrtsp_parse_response_line req (c_string line) of (ret, req1) \<Rightarrow>
                  (if ret = -1 then DATA_CORRUPTED else ALL_DATA_READ, req1, rest))
           | EVRTSP_REQUEST \<Rightarrow> (DATA_CORRUPTED, req, rest)))"

text \<open>
  The body of the loop of \<open>evrtsp_parse_headers\<close> on a line: the status if the loop ends, and the
  headers.
\<close>

definition parse_header_line :: "headers \<Rightarrow> bytes \<Rightarrow> message_read_status option \<times> headers" where
  "parse_header_line hs line =
     (case line of
        [] \<Rightarrow> (Some ALL_DATA_READ, hs)
      | b # bs \<Rightarrow>
          if b = 32 \<or> b = 9
          then (case evrtsp_append_to_last_header hs line of (ret, hs1) \<Rightarrow>
                  (if ret = -1 then Some DATA_CORRUPTED else None, hs1))
          else (case strsep 58 line of
                  (skey, None) \<Rightarrow> (Some DATA_CORRUPTED, hs)
                | (skey, Some svalue) \<Rightarrow>
                    (case evrtsp_add_header hs skey (dropWhile (\<lambda>b. b = 32) svalue) of (ret, hs1) \<Rightarrow>
                       (if ret = -1 then Some DATA_CORRUPTED else None, hs1))))"

text \<open>
  The loop, with a bound on the number of lines: if \<open>readln\<close> did not consume anything it would not end.
\<close>

primrec parse_headers_loop ::
  "nat \<Rightarrow> readln \<Rightarrow> headers \<Rightarrow> bytes \<Rightarrow> (message_read_status \<times> headers \<times> bytes) res" where
  "parse_headers_loop 0 readln hs buffer = Inl Diverges"
| "parse_headers_loop (Suc n) readln hs buffer =
     (case readln EVBUFFER_EOL_CRLF buffer of
        None \<Rightarrow> Inr (MORE_DATA_EXPECTED, hs, buffer)
      | Some (line, rest) \<Rightarrow>
          (case parse_header_line hs (c_string line) of
             (Some status, hs1) \<Rightarrow> Inr (status, hs1, rest)
           | (None, hs1) \<Rightarrow> parse_headers_loop n readln hs1 rest))"

definition evrtsp_parse_headers ::
  "readln \<Rightarrow> rtsp_request \<Rightarrow> bytes \<Rightarrow> (message_read_status \<times> rtsp_request \<times> bytes) res" where
  "evrtsp_parse_headers readln req buffer =
     bind_res (parse_headers_loop (Suc (length buffer)) readln (rq_input_headers req) buffer)
       (\<lambda>(status, hs, rest). Inr (status, req\<lparr>rq_input_headers := hs\<rparr>, rest))"

definition evrtsp_get_body_length :: "rtsp_request \<Rightarrow> int \<times> rtsp_request" where
  "evrtsp_get_body_length req =
     (case evrtsp_find_header (rq_input_headers req) (str ''Content-Length'') of
        None \<Rightarrow> (0, req\<lparr>rq_ntoread := 0\<rparr>)
      | Some content_length \<Rightarrow>
          let ntoread = strtoll10 content_length in
          if content_length = [] \<or> ntoread < 0 then (-1, req)
          else (0, req\<lparr>rq_ntoread := ntoread\<rparr>))"

subsection \<open>Addresses\<close>

definition RTSP_PREFIX :: bytes where "RTSP_PREFIX = str ''rtsp://''"

text \<open>\<open>evrtsp_hostportfile\<close>: host, port and file of a URL.\<close>

definition evrtsp_hostportfile :: "bytes \<Rightarrow> (bytes \<times> u16 \<times> bytes) option" where
  "evrtsp_hostportfile url =
     (let n = length RTSP_PREFIX in
      if \<not> strcasecmp_eq (take n url) RTSP_PREFIX then None
      else if 1024 \<le> length (drop n url) then None
      else (case strsep 47 (drop n url) of (hostport, p2) \<Rightarrow>
              let file = 47 # (case p2 of None \<Rightarrow> [] | Some f \<Rightarrow> f) in
              (case strsep 58 hostport of
                 (host, None) \<Rightarrow> None
               | (host, Some portstr) \<Rightarrow>
                   let port = word_of_int (atoi portstr) in
                   if port = 0 then None else Some (host, port, file))))"

end
