(* ===== verification/Rtsp_Connection.thy ===== *)
theory Rtsp_Connection
  imports Rtsp
begin

text \<open>
  The connections of the RTSP client, \<open>src/evrtsp/rtsp.c\<close>: requests wait in a queue, the first is
  written when the connection is there, its response is read by a state machine, and its callback is
  called. Each function that libevent calls is an operation on the connection; the argument says what
  the operating system answered.

  A user's callback only appears in the history \<open>cn_log\<close>: it is the last thing the code does to the
  connection in an event (apart from the loop that ends a failed connection attempt), so what it asks of the connection
  is the next operation. The callback of the cipher is the parameter \<open>ciph\<close>, with its
  state of type \<open>'k\<close> in the connection.
\<close>

subsection \<open>The state\<close>

definition RTSP_CONNECT_TIMEOUT :: int where "RTSP_CONNECT_TIMEOUT = 10"
definition RTSP_WRITE_TIMEOUT :: int where "RTSP_WRITE_TIMEOUT = 15"
definition RTSP_READ_TIMEOUT :: int where "RTSP_READ_TIMEOUT = 15"

datatype evrtsp_connection_state =
  EVCON_DISCONNECTED | EVCON_CONNECTING | EVCON_IDLE | EVCON_READING_FIRSTLINE
| EVCON_READING_HEADERS | EVCON_READING_BODY | EVCON_READING_TRAILER | EVCON_WRITING

datatype evrtsp_connection_error = EVCON_RTSP_TIMEOUT | EVCON_RTSP_EOF | EVCON_RTSP_INVALID_HEADER

text \<open>The history: bytes given to the socket, callbacks of requests (with a null pointer after a
  failure), and calls of the close callback.\<close>

datatype history = Sent bytes | Called nat "rtsp_request option" | Close_called

text \<open>The event of the connection, when it is pending: its function and its timeout in seconds.\<close>

datatype ev_function = Ev_connect | Ev_write | Ev_read

type_synonym 'k ciphercb = "bytes \<Rightarrow> bytes \<Rightarrow> 'k \<Rightarrow> bool \<Rightarrow> (int \<times> bytes \<times> bytes \<times> 'k) res"

record 'k connection =
  cn_fd :: bool
  cn_ev :: "(ev_function \<times> int option) option"
  cn_close_ev :: bool
  cn_input_buffer :: bytes
  cn_output_buffer :: bytes
  cn_input_raw :: bytes
  cn_output_raw :: bytes
  cn_closedetect :: bool
  cn_timeout :: int
  cn_state :: evrtsp_connection_state
  cn_requests :: "rtsp_request list"
  cn_closecb :: bool
  cn_ciphercb :: "'k option"
  cn_log :: "history list"

text \<open>\<open>evrtsp_connection_new\<close> of an address of a known family.\<close>

definition evrtsp_connection_new :: "'k connection" where
  "evrtsp_connection_new =
     \<lparr>cn_fd = False, cn_ev = None, cn_close_ev = False, cn_input_buffer = [], cn_output_buffer = [],
      cn_input_raw = [], cn_output_raw = [], cn_closedetect = False, cn_timeout = -1,
      cn_state = EVCON_DISCONNECTED, cn_requests = [], cn_closecb = False, cn_ciphercb = None, cn_log = []\<rparr>"

definition evrtsp_connection_set_closecb :: "bool \<Rightarrow> 'k connection \<Rightarrow> 'k connection" where
  "evrtsp_connection_set_closecb cb cn = cn\<lparr>cn_closecb := cb\<rparr>"

definition evrtsp_connection_set_ciphercb :: "'k option \<Rightarrow> 'k connection \<Rightarrow> 'k connection" where
  "evrtsp_connection_set_ciphercb cb cn = cn\<lparr>cn_ciphercb := cb\<rparr>"

definition evrtsp_connection_set_timeout :: "int \<Rightarrow> 'k connection \<Rightarrow> 'k connection" where
  "evrtsp_connection_set_timeout t cn = cn\<lparr>cn_timeout := t\<rparr>"

definition evrtsp_add_event :: "ev_function \<Rightarrow> int \<Rightarrow> 'k connection \<Rightarrow> 'k connection" where
  "evrtsp_add_event ev default_timeout cn =
     cn\<lparr>cn_ev := Some (ev, if cn_timeout cn \<noteq> 0
          then Some (if cn_timeout cn \<noteq> -1 then cn_timeout cn else default_timeout) else None)\<rparr>"

lemma add_event_simps [simp]:
  "cn_requests (evrtsp_add_event ev t cn) = cn_requests cn" "cn_state (evrtsp_add_event ev t cn) = cn_state cn"
  "cn_close_ev (evrtsp_add_event ev t cn) = cn_close_ev cn" "cn_log (evrtsp_add_event ev t cn) = cn_log cn"
  "cn_ciphercb (evrtsp_add_event ev t cn) = cn_ciphercb cn" "cn_fd (evrtsp_add_event ev t cn) = cn_fd cn"
  "cn_input_buffer (evrtsp_add_event ev t cn) = cn_input_buffer cn" "cn_input_raw (evrtsp_add_event ev t cn) = cn_input_raw cn"
  by (simp_all add: evrtsp_add_event_def)

definition evrtsp_connected :: "'k connection \<Rightarrow> bool" where
  "evrtsp_connected cn \<longleftrightarrow> cn_state cn \<notin> {EVCON_DISCONNECTED, EVCON_CONNECTING}"

definition evrtsp_write_buffer :: "'k connection \<Rightarrow> 'k connection" where
  "evrtsp_write_buffer cn = evrtsp_add_event Ev_write RTSP_WRITE_TIMEOUT cn"

subsection \<open>Closing and connecting\<close>

definition evrtsp_connection_reset :: "'k connection \<Rightarrow> 'k connection" where
  "evrtsp_connection_reset cn =
     cn\<lparr>cn_ev := None,
        cn_log := cn_log cn @ (if cn_fd cn \<and> evrtsp_connected cn \<and> cn_closecb cn then [Close_called] else []),
        cn_fd := False, cn_state := EVCON_DISCONNECTED,
        cn_input_buffer := [], cn_output_buffer := [], cn_input_raw := [], cn_output_raw := []\<rparr>"

definition evrtsp_detect_close_cb :: "'k connection \<Rightarrow> 'k connection" where
  "evrtsp_detect_close_cb cn = evrtsp_connection_reset cn"

definition evrtsp_connection_start_detectclose :: "'k connection \<Rightarrow> 'k connection" where
  "evrtsp_connection_start_detectclose cn = cn\<lparr>cn_closedetect := True, cn_close_ev := True\<rparr>"

definition evrtsp_connection_stop_detectclose :: "'k connection \<Rightarrow> 'k connection" where
  "evrtsp_connection_stop_detectclose cn = cn\<lparr>cn_closedetect := False, cn_close_ev := False\<rparr>"

text \<open>What the socket calls of a connection attempt return.\<close>

datatype dial = Bind_failed | Connect_failed | Connect_started

definition evrtsp_connection_connect :: "dial \<Rightarrow> 'k connection \<Rightarrow> int \<times> 'k connection" where
  "evrtsp_connection_connect d cn =
     (if cn_state cn = EVCON_CONNECTING then (0, cn)
      else let cn1 = evrtsp_connection_reset cn in
        (case d of
           Bind_failed \<Rightarrow> (-1, cn1)
         | Connect_failed \<Rightarrow> (-1, cn1)
         | Connect_started \<Rightarrow>
             (0, (evrtsp_add_event Ev_connect RTSP_CONNECT_TIMEOUT (cn1\<lparr>cn_fd := True\<rparr>))\<lparr>cn_state := EVCON_CONNECTING\<rparr>)))"

text \<open>\<open>evrtsp_connection_free\<close>: the close callback; queued requests are freed without a callback.\<close>

definition evrtsp_connection_free :: "'k connection \<Rightarrow> history list" where
  "evrtsp_connection_free cn =
     cn_log cn @ (if cn_fd cn \<and> evrtsp_connected cn \<and> cn_closecb cn then [Close_called] else [])"

subsection \<open>Requests\<close>

definition evrtsp_request_dispatch :: "'k ciphercb \<Rightarrow> 'k connection \<Rightarrow> 'k connection res" where
  "evrtsp_request_dispatch ciph cn =
     (case cn_requests cn of
        [] \<Rightarrow> Inr cn
      | req # reqs \<Rightarrow>
          let cn1 = evrtsp_connection_stop_detectclose cn in
          if cn_state cn1 \<noteq> EVCON_IDLE then Inl Assert_fail
          else (case evrtsp_make_header req of (text, req1) \<Rightarrow>
            let cn2 = cn1\<lparr>cn_state := EVCON_WRITING, cn_requests := req1 # reqs,
                          cn_output_buffer := cn_output_buffer cn1 @ text\<rparr> in
            (case cn_ciphercb cn2 of
               None \<Rightarrow> Inr (evrtsp_write_buffer (cn2\<lparr>cn_output_raw := cn_output_raw cn2 @ cn_output_buffer cn2,
                                                    cn_output_buffer := []\<rparr>))
             | Some k \<Rightarrow> bind_res (ciph (cn_output_raw cn2) (cn_output_buffer cn2) k True) (\<lambda>(ret, raw, out, k1).
                 Inr (evrtsp_write_buffer (cn2\<lparr>cn_output_raw := raw, cn_output_buffer := out, cn_ciphercb := Some k1\<rparr>))))))"

definition evrtsp_make_request ::
  "'k ciphercb \<Rightarrow> dial \<Rightarrow> 'k connection \<Rightarrow> rtsp_request \<Rightarrow> evrtsp_cmd_type \<Rightarrow> bytes \<Rightarrow> (int \<times> 'k connection) res" where
  "evrtsp_make_request ciph d cn req ty uri =
     (let req1 = req\<lparr>rq_kind := EVRTSP_REQUEST, rq_type := ty, rq_uri := Some uri\<rparr>;
          req2 = (if rq_major req1 = 0 \<and> rq_minor req1 = 0 then req1\<lparr>rq_major := 1, rq_minor := 0\<rparr> else req1) in
      if rq_evcon req2 then Inl Assert_fail
      else
        let cn1 = cn\<lparr>cn_requests := cn_requests cn @ [req2\<lparr>rq_evcon := True\<rparr>]\<rparr> in
        if \<not> evrtsp_connected cn1 then Inr (evrtsp_connection_connect d cn1)
        else if cn_requests cn = [] then bind_res (evrtsp_request_dispatch ciph cn1) (\<lambda>cn2. Inr (0, cn2))
        else Inr (0, cn1))"

text \<open>\<open>evrtsp_connection_fail\<close>: the error code is not used.\<close>

definition evrtsp_connection_fail ::
  "dial \<Rightarrow> evrtsp_connection_error \<Rightarrow> 'k connection \<Rightarrow> 'k connection res" where
  "evrtsp_connection_fail d err cn =
     (case cn_requests cn of
        [] \<Rightarrow> Inl Assert_fail
      | req # reqs \<Rightarrow>
          let cn1 = evrtsp_connection_reset (cn\<lparr>cn_requests := reqs\<rparr>);
              cn2 = (if reqs \<noteq> [] then snd (evrtsp_connection_connect d cn1) else cn1)
          in Inr (if rq_cb req then cn2\<lparr>cn_log := cn_log cn2 @ [Called (rq_id req) None]\<rparr> else cn2))"

definition evrtsp_connection_done :: "'k ciphercb \<Rightarrow> dial \<Rightarrow> 'k connection \<Rightarrow> 'k connection res" where
  "evrtsp_connection_done ciph d cn =
     (case cn_requests cn of
        [] \<Rightarrow> Inl Null_deref
      | req # reqs \<Rightarrow>
          let req1 = req\<lparr>rq_evcon := False\<rparr>;
              cn1 = cn\<lparr>cn_requests := reqs, cn_state := EVCON_IDLE\<rparr>;
              next_step = (if reqs \<noteq> []
                then (if \<not> evrtsp_connected cn1 then Inr (snd (evrtsp_connection_connect d cn1))
                      else evrtsp_request_dispatch ciph cn1)
                else Inr (evrtsp_connection_start_detectclose cn1))
          in bind_res next_step (\<lambda>cn2.
               if rq_cb req1 then Inr (cn2\<lparr>cn_log := cn_log cn2 @ [Called (rq_id req1) (Some req1)]\<rparr>)
               else Inl Null_deref))"

subsection \<open>Events of the socket\<close>

definition evrtsp_start_read :: "'k connection \<Rightarrow> 'k connection" where
  "evrtsp_start_read cn = (evrtsp_add_event Ev_read RTSP_READ_TIMEOUT cn)\<lparr>cn_state := EVCON_READING_FIRSTLINE\<rparr>"

definition evrtsp_write_connectioncb :: "'k connection \<Rightarrow> 'k connection res" where
  "evrtsp_write_connectioncb cn =
     (case cn_requests cn of
        [] \<Rightarrow> Inl Assert_fail
      | req # reqs \<Rightarrow>
          if cn_state cn \<noteq> EVCON_WRITING then Inl Assert_fail
          else Inr (evrtsp_start_read (cn\<lparr>cn_requests := req\<lparr>rq_kind := EVRTSP_RESPONSE\<rparr> # reqs\<rparr>)))"

text \<open>\<open>None\<close> is a timeout; otherwise the number that \<open>evbuffer_write\<close> returns.\<close>

definition evrtsp_write :: "dial \<Rightarrow> int option \<Rightarrow> 'k connection \<Rightarrow> 'k connection res" where
  "evrtsp_write d what cn =
     (case what of
        None \<Rightarrow> evrtsp_connection_fail d EVCON_RTSP_TIMEOUT cn
      | Some n \<Rightarrow>
          if n = -1 then evrtsp_connection_fail d EVCON_RTSP_EOF cn
          else if n = 0 then evrtsp_connection_fail d EVCON_RTSP_EOF cn
          else
            let cn1 = cn\<lparr>cn_output_raw := drop (nat n) (cn_output_raw cn),
                         cn_log := cn_log cn @ [Sent (take (nat n) (cn_output_raw cn))]\<rparr> in
            if cn_output_raw cn1 \<noteq> [] then Inr (evrtsp_add_event Ev_write RTSP_WRITE_TIMEOUT cn1)
            else evrtsp_write_connectioncb cn1)"

definition evrtsp_read_body :: "'k ciphercb \<Rightarrow> dial \<Rightarrow> 'k connection \<Rightarrow> rtsp_request \<Rightarrow> 'k connection res" where
  "evrtsp_read_body ciph d cn req =
     (let buf = cn_input_buffer cn; reqs = tl (cn_requests cn) in
      if rq_ntoread req < 0
      then Inr (evrtsp_add_event Ev_read RTSP_READ_TIMEOUT
             (cn\<lparr>cn_input_buffer := [], cn_requests := req\<lparr>rq_input_buffer := rq_input_buffer req @ buf\<rparr> # reqs\<rparr>))
      else if int (length buf) \<ge> rq_ntoread req
      then let n = nat (rq_ntoread req);
               req1 = req\<lparr>rq_input_buffer := rq_input_buffer req @ take n buf, rq_ntoread := 0\<rparr>
           in evrtsp_connection_done ciph d (cn\<lparr>cn_input_buffer := drop n buf, cn_requests := req1 # reqs\<rparr>)
      else Inr (evrtsp_add_event Ev_read RTSP_READ_TIMEOUT (cn\<lparr>cn_requests := req # reqs\<rparr>)))"

definition evrtsp_get_body :: "'k ciphercb \<Rightarrow> dial \<Rightarrow> 'k connection \<Rightarrow> rtsp_request \<Rightarrow> 'k connection res" where
  "evrtsp_get_body ciph d cn req =
     (let cn1 = cn\<lparr>cn_state := EVCON_READING_BODY\<rparr> in
      (case evrtsp_get_body_length req of (ret, req1) \<Rightarrow>
         if ret = -1 then evrtsp_connection_fail d EVCON_RTSP_INVALID_HEADER cn1
         else evrtsp_read_body ciph d cn1 req1))"

definition evrtsp_read_header ::
  "readln \<Rightarrow> 'k ciphercb \<Rightarrow> dial \<Rightarrow> 'k connection \<Rightarrow> rtsp_request \<Rightarrow> 'k connection res" where
  "evrtsp_read_header readln ciph d cn req =
     bind_res (evrtsp_parse_headers readln req (cn_input_buffer cn)) (\<lambda>(res, req1, buf).
       let cn1 = cn\<lparr>cn_input_buffer := buf, cn_requests := req1 # tl (cn_requests cn)\<rparr> in
       case res of
         DATA_CORRUPTED \<Rightarrow> evrtsp_connection_fail d EVCON_RTSP_INVALID_HEADER cn1
       | MORE_DATA_EXPECTED \<Rightarrow> Inr (evrtsp_add_event Ev_read RTSP_READ_TIMEOUT cn1)
       | ALL_DATA_READ \<Rightarrow>
           (case rq_kind req1 of
              EVRTSP_RESPONSE \<Rightarrow> evrtsp_get_body ciph d cn1 req1
            | EVRTSP_REQUEST \<Rightarrow> evrtsp_connection_fail d EVCON_RTSP_INVALID_HEADER cn1))"

definition evrtsp_read_firstline ::
  "readln \<Rightarrow> 'k ciphercb \<Rightarrow> dial \<Rightarrow> 'k connection \<Rightarrow> rtsp_request \<Rightarrow> 'k connection res" where
  "evrtsp_read_firstline readln ciph d cn req =
     (case evrtsp_parse_firstline readln req (cn_input_buffer cn) of (res, req1, buf) \<Rightarrow>
       let cn1 = cn\<lparr>cn_input_buffer := buf, cn_requests := req1 # tl (cn_requests cn)\<rparr> in
       case res of
         DATA_CORRUPTED \<Rightarrow> evrtsp_connection_fail d EVCON_RTSP_INVALID_HEADER cn1
       | MORE_DATA_EXPECTED \<Rightarrow> Inr (evrtsp_add_event Ev_read RTSP_READ_TIMEOUT cn1)
       | ALL_DATA_READ \<Rightarrow> evrtsp_read_header readln ciph d (cn1\<lparr>cn_state := EVCON_READING_HEADERS\<rparr>) req1)"

definition evrtsp_read_trailer ::
  "readln \<Rightarrow> 'k ciphercb \<Rightarrow> dial \<Rightarrow> 'k connection \<Rightarrow> rtsp_request \<Rightarrow> 'k connection res" where
  "evrtsp_read_trailer readln ciph d cn req =
     bind_res (evrtsp_parse_headers readln req (cn_input_buffer cn)) (\<lambda>(res, req1, buf).
       let cn1 = cn\<lparr>cn_input_buffer := buf, cn_requests := req1 # tl (cn_requests cn)\<rparr> in
       case res of
         DATA_CORRUPTED \<Rightarrow> evrtsp_connection_fail d EVCON_RTSP_INVALID_HEADER cn1
       | ALL_DATA_READ \<Rightarrow> evrtsp_connection_done ciph d (cn1\<lparr>cn_ev := None\<rparr>)
       | MORE_DATA_EXPECTED \<Rightarrow> Inr (evrtsp_add_event Ev_read RTSP_READ_TIMEOUT cn1))"

text \<open>The states that \<open>evrtsp_read_message\<close> does not know end the program.\<close>

definition evrtsp_read_message ::
  "readln \<Rightarrow> 'k ciphercb \<Rightarrow> dial \<Rightarrow> 'k connection \<Rightarrow> 'k connection res" where
  "evrtsp_read_message readln ciph d cn =
     (case cn_requests cn of
        [] \<Rightarrow> Inl Null_deref
      | req # reqs \<Rightarrow>
          (case cn_state cn of
             EVCON_READING_FIRSTLINE \<Rightarrow> evrtsp_read_firstline readln ciph d cn req
           | EVCON_READING_HEADERS \<Rightarrow> evrtsp_read_header readln ciph d cn req
           | EVCON_READING_BODY \<Rightarrow> evrtsp_read_body ciph d cn req
           | EVCON_READING_TRAILER \<Rightarrow> evrtsp_read_trailer readln ciph d cn req
           | _ \<Rightarrow> Inl Assert_fail))"

text \<open>What \<open>evbuffer_read\<close> gave: a timeout, an error (which may be one to try again), the end of the
  stream, or bytes.\<close>

datatype read_result = Read_timeout | Read_error bool | Read_eof | Read_bytes bytes

definition evrtsp_read ::
  "readln \<Rightarrow> 'k ciphercb \<Rightarrow> dial \<Rightarrow> read_result \<Rightarrow> 'k connection \<Rightarrow> 'k connection res" where
  "evrtsp_read readln ciph d what cn =
     (case what of
        Read_timeout \<Rightarrow> evrtsp_connection_fail d EVCON_RTSP_TIMEOUT cn
      | Read_error try_again \<Rightarrow>
          if \<not> try_again then evrtsp_connection_fail d EVCON_RTSP_EOF cn
          else Inr (evrtsp_add_event Ev_read RTSP_READ_TIMEOUT cn)
      | Read_eof \<Rightarrow> evrtsp_connection_done ciph d (cn\<lparr>cn_state := EVCON_DISCONNECTED\<rparr>)
      | Read_bytes new \<Rightarrow>
          let cn1 = cn\<lparr>cn_input_raw := cn_input_raw cn @ new\<rparr> in
          (case cn_ciphercb cn1 of
             None \<Rightarrow> evrtsp_read_message readln ciph d
                       (cn1\<lparr>cn_input_buffer := cn_input_buffer cn1 @ cn_input_raw cn1, cn_input_raw := []\<rparr>)
           | Some k \<Rightarrow> bind_res (ciph (cn_input_buffer cn1) (cn_input_raw cn1) k False) (\<lambda>(ret, inb, raw, k1).
               let cn2 = cn1\<lparr>cn_input_buffer := inb, cn_input_raw := raw, cn_ciphercb := Some k1\<rparr> in
               if ret < 0 then evrtsp_connection_fail d EVCON_RTSP_EOF cn2
               else evrtsp_read_message readln ciph d cn2)))"

text \<open>The loop that ends a failed connection attempt: every queued request gets its callback.\<close>

fun signal_requests :: "rtsp_request list \<Rightarrow> history list res" where
  "signal_requests [] = Inr []"
| "signal_requests (req # reqs) =
     (if rq_cb req
      then bind_res (signal_requests reqs) (\<lambda>log. Inr (Called (rq_id req) (Some (req\<lparr>rq_evcon := False\<rparr>)) # log))
      else Inl Null_deref)"

datatype connect_result = Connect_timeout | Connect_refused | Connected

definition evrtsp_connectioncb :: "'k ciphercb \<Rightarrow> connect_result \<Rightarrow> 'k connection \<Rightarrow> 'k connection res" where
  "evrtsp_connectioncb ciph what cn =
     (case what of
        Connected \<Rightarrow> evrtsp_request_dispatch ciph (cn\<lparr>cn_state := EVCON_IDLE\<rparr>)
      | _ \<Rightarrow>
          let cn1 = evrtsp_connection_reset cn in
          bind_res (signal_requests (cn_requests cn1)) (\<lambda>log.
            Inr (cn1\<lparr>cn_requests := [], cn_log := cn_log cn1 @ log\<rparr>)))"

end
