(* ===== verification/Airplay_Session.thy ===== *)
theory Airplay_Session
  imports Pair Rtp Rtsp_Connection
begin

text \<open>
  The data of the AirPlay 2 output, \<open>src/airplay.c\<close>: the states of a session, the session
  (\<open>struct airplay_session\<close>) and the master session that encodes for it
  (\<open>struct airplay_master_session\<close>). A pointer to a master session is its number. An evbuffer is
  the list of the bytes it holds; the encoder's context is a value of a type of its own.
\<close>

subsection \<open>Constants\<close>

definition AIRPLAY_SAMPLES_PER_PACKET :: int where "AIRPLAY_SAMPLES_PER_PACKET = 352"
definition AIRPLAY_RTP_PAYLOADTYPE :: u8 where "AIRPLAY_RTP_PAYLOADTYPE = 0x60"
definition AIRPLAY_AUDIO_KEY_LEN :: nat where "AIRPLAY_AUDIO_KEY_LEN = 32"
definition AIRPLAY_PACKET_BUFFER_SIZE :: nat where "AIRPLAY_PACKET_BUFFER_SIZE = 1000"
definition OUTPUTS_BUFFER_DURATION :: int where "OUTPUTS_BUFFER_DURATION = 2"
definition AIRPLAY_STATE_F_STARTUP :: u32 where "AIRPLAY_STATE_F_STARTUP = push_bit 13 1"
definition AIRPLAY_STATE_F_CONNECTED :: u32 where "AIRPLAY_STATE_F_CONNECTED = push_bit 14 1"
definition AIRPLAY_STATE_F_FAILED :: u32 where "AIRPLAY_STATE_F_FAILED = push_bit 15 1"

subsection \<open>States\<close>

datatype airplay_state =
  AIRPLAY_STATE_STOPPED | AIRPLAY_STATE_INFO | AIRPLAY_STATE_ENCRYPTED | AIRPLAY_STATE_SETUP
| AIRPLAY_STATE_RECORD | AIRPLAY_STATE_CONNECTED | AIRPLAY_STATE_STREAMING | AIRPLAY_STATE_TEARDOWN
| AIRPLAY_STATE_FAILED | AIRPLAY_STATE_AUTH

text \<open>The values of the enumeration; the code tests its flags with a bitwise and.\<close>

fun state_value :: "airplay_state \<Rightarrow> u32" where
  "state_value AIRPLAY_STATE_STOPPED = 0"
| "state_value AIRPLAY_STATE_INFO = AIRPLAY_STATE_F_STARTUP OR 1"
| "state_value AIRPLAY_STATE_ENCRYPTED = AIRPLAY_STATE_F_STARTUP OR 2"
| "state_value AIRPLAY_STATE_SETUP = AIRPLAY_STATE_F_STARTUP OR 3"
| "state_value AIRPLAY_STATE_RECORD = AIRPLAY_STATE_F_STARTUP OR 4"
| "state_value AIRPLAY_STATE_CONNECTED = AIRPLAY_STATE_F_CONNECTED OR 1"
| "state_value AIRPLAY_STATE_STREAMING = AIRPLAY_STATE_F_CONNECTED OR 2"
| "state_value AIRPLAY_STATE_TEARDOWN = AIRPLAY_STATE_F_CONNECTED OR 3"
| "state_value AIRPLAY_STATE_FAILED = AIRPLAY_STATE_F_FAILED OR 1"
| "state_value AIRPLAY_STATE_AUTH = AIRPLAY_STATE_F_FAILED OR 2"

definition is_connected :: "airplay_state \<Rightarrow> bool" where
  "is_connected st \<longleftrightarrow> state_value st AND AIRPLAY_STATE_F_CONNECTED \<noteq> 0"

definition is_failed :: "airplay_state \<Rightarrow> bool" where
  "is_failed st \<longleftrightarrow> state_value st AND AIRPLAY_STATE_F_FAILED \<noteq> 0"

lemma is_connected_iff:
  "is_connected st \<longleftrightarrow> st \<in> {AIRPLAY_STATE_CONNECTED, AIRPLAY_STATE_STREAMING, AIRPLAY_STATE_TEARDOWN}"
  by (cases st) (simp_all add: is_connected_def AIRPLAY_STATE_F_CONNECTED_def AIRPLAY_STATE_F_STARTUP_def
      AIRPLAY_STATE_F_FAILED_def)

lemma is_failed_iff: "is_failed st \<longleftrightarrow> st \<in> {AIRPLAY_STATE_FAILED, AIRPLAY_STATE_AUTH}"
  by (cases st) (simp_all add: is_failed_def AIRPLAY_STATE_F_CONNECTED_def AIRPLAY_STATE_F_STARTUP_def
      AIRPLAY_STATE_F_FAILED_def)

datatype airplay_seq_type =
  AIRPLAY_SEQ_ABORT | AIRPLAY_SEQ_START | AIRPLAY_SEQ_START_PLAYBACK | AIRPLAY_SEQ_PROBE
| AIRPLAY_SEQ_FLUSH | AIRPLAY_SEQ_STOP | AIRPLAY_SEQ_FAILURE | AIRPLAY_SEQ_PIN_START
| AIRPLAY_SEQ_SEND_VOLUME | AIRPLAY_SEQ_SEND_TEXT | AIRPLAY_SEQ_SEND_PROGRESS
| AIRPLAY_SEQ_SEND_ARTWORK | AIRPLAY_SEQ_PAIR_SETUP | AIRPLAY_SEQ_PAIR_VERIFY
| AIRPLAY_SEQ_PAIR_TRANSIENT | AIRPLAY_SEQ_FEEDBACK | AIRPLAY_SEQ_CONTINUE

datatype address_family = AF_INET | AF_INET6 | AF_OTHER

subsection \<open>Sessions\<close>

text \<open>
  \<open>ms_encode_ctx\<close> is \<open>None\<close> for a null pointer. The socket address of a session is its family, its
  address bytes (\<open>rs_naddr\<close>) and its port.
\<close>

record 'e master_session =
  ms_input_buffer :: bytes
  ms_input_buffer_samples :: int
  ms_encode_ctx :: "'e option"
  ms_encoded_buffer :: bytes
  ms_rtp_session :: rtp_session
  ms_cur_stamp :: rtcp_timestamp
  ms_rawbuf :: bytes
  ms_rawbuf_size :: nat
  ms_samples_per_packet :: int
  ms_quality :: media_quality
  ms_output_buffer_samples :: int

text \<open>
  A session owns its control connection. The context of the control channel's cipher is the state of
  the connection's cipher callback, with which it is set. \<open>rs_deferred\<close> says whether the timer for a
  deferred failure is pending. The packet cipher handle is its key. Strings are their bytes.
\<close>

record airplay_session =
  rs_device_id :: u64
  rs_callback_id :: int
  rs_master_session :: nat
  rs_ctrl :: "cipher_ctx connection option"
  rs_state :: airplay_state
  rs_next_seq :: airplay_seq_type
  rs_statusflags :: u64
  rs_wanted_metadata :: u16
  rs_req_has_auth :: bool
  rs_deferred :: bool
  rs_reqs_in_flight :: int
  rs_cseq :: int
  rs_session_id :: u32
  rs_session_url :: bytes
  rs_session_uuid :: bytes
  rs_realm :: "bytes option"
  rs_nonce :: "bytes option"
  rs_password :: "bytes option"
  rs_devname :: bytes
  rs_address :: bytes
  rs_family :: address_family
  rs_naddr :: bytes
  rs_volume :: int
  rs_local_address :: "bytes option"
  rs_data_port :: u16
  rs_control_port :: u16
  rs_events_port :: u16
  rs_timing_port :: u16
  rs_pair_type :: pair_type
  rs_pair_verify_ctx :: "verify_ctx option"
  rs_pair_setup_ctx :: "setup_ctx option"
  rs_shared_secret :: bytes
  rs_shared_secret_len :: nat
  rs_packet_cipher_hd :: "bytes option"
  rs_server_fd :: int

text \<open>
  \<open>deferred_session_failure\<close>: the state, and the timer that cleans the session up later.
\<close>

definition deferred_session_failure :: "airplay_session \<Rightarrow> airplay_session" where
  "deferred_session_failure rs =
     rs\<lparr>rs_state := (if rs_state rs \<noteq> AIRPLAY_STATE_AUTH then AIRPLAY_STATE_FAILED else rs_state rs),
        rs_deferred := True\<rparr>"

definition quality_is_equal :: "media_quality \<Rightarrow> media_quality \<Rightarrow> bool" where
  "quality_is_equal a b \<longleftrightarrow> sample_rate a = sample_rate b \<and> bits_per_sample a = bits_per_sample b
     \<and> channels a = channels b \<and> bit_rate a = bit_rate b"

lemma quality_is_equal_iff [simp]: "quality_is_equal a b \<longleftrightarrow> a = b"
  by (cases a; cases b) (simp add: quality_is_equal_def)

definition STOB :: "int \<Rightarrow> int \<Rightarrow> int \<Rightarrow> int" where
  "STOB s bits c = s * c * bits div 8"

text \<open>
  \<open>master_session_make\<close> for a quality that no master session has yet: the setup of the encoder is
  commented out in the source, so its context stays null.
\<close>

definition master_session_new :: "rtp_session \<Rightarrow> media_quality \<Rightarrow> bytes \<Rightarrow> 'e master_session" where
  "master_session_new rtp q rawbuf =
     \<lparr>ms_input_buffer = [], ms_input_buffer_samples = 0, ms_encode_ctx = None, ms_encoded_buffer = [],
      ms_rtp_session = rtp, ms_cur_stamp = \<lparr>stamp_pos = 0, stamp_ts = \<lparr>tv_sec = 0, tv_nsec = 0\<rparr>\<rparr>,
      ms_rawbuf = rawbuf,
      ms_rawbuf_size = nat (STOB AIRPLAY_SAMPLES_PER_PACKET (bits_per_sample q) (channels q)),
      ms_samples_per_packet = AIRPLAY_SAMPLES_PER_PACKET, ms_quality = q,
      ms_output_buffer_samples = OUTPUTS_BUFFER_DURATION * sample_rate q\<rparr>"

text \<open>The list of master sessions, with their numbers, the newest first.\<close>

definition master_session_make ::
  "(nat \<times> 'e master_session) list \<Rightarrow> rtp_session \<Rightarrow> nat \<Rightarrow> bytes \<Rightarrow> media_quality \<Rightarrow> nat \<times> (nat \<times> 'e master_session) list" where
  "master_session_make masters rtp new_id rawbuf q =
     (case find (\<lambda>(i, ms). quality_is_equal q (quality (ms_rtp_session ms))) masters of
        Some (i, ms) \<Rightarrow> (i, masters)
      | None \<Rightarrow> (new_id, (new_id, master_session_new rtp q rawbuf) # masters))"

text \<open>\<open>master_session_cleanup\<close>: the master session goes with its last session.\<close>

definition master_session_cleanup ::
  "airplay_session list \<Rightarrow> nat \<Rightarrow> (nat \<times> 'e master_session) list \<Rightarrow> (nat \<times> 'e master_session) list" where
  "master_session_cleanup sessions rms masters =
     (if \<exists>rs \<in> set sessions. rs_master_session rs = rms then masters
      else filter (\<lambda>(i, ms). i \<noteq> rms) masters)"

end
