(* ===== verification/Airplay_Audio.thy ===== *)
theory Airplay_Audio
  imports Airplay_Session
begin

text \<open>
  The media path of \<open>src/airplay.c\<close>: \<open>airplay_write\<close> cuts the player's samples into blocks, encodes
  each and sends it as an RTP packet to the sessions, encrypted for each of them
  (\<open>packets_send\<close>, \<open>packet_encrypt\<close>, \<open>packet_send\<close>); sync packets go to the control port
  (\<open>packets_sync_send\<close>), and lost packets are sent again when a device asks (\<open>control_svc_cb\<close>,
  \<open>packets_resend\<close>). The last definitions are the replies of the timing service.

  The encoder (ffmpeg) is the parameter \<open>alac\<close>: from its context, the samples, their number and the
  quality it makes the encoded bytes, or none, and a new context. What \<open>send\<close> returns for the n-th
  datagram and its bytes is the parameter \<open>net\<close>. The datagrams given to the network are logged with their
  destination: a connected socket or the control port of an address.
\<close>

subsection \<open>Encryption of a packet\<close>

datatype destination = Connected_socket int | Control_port address_family bytes u16

type_synonym datagrams = "(destination \<times> bytes) list"
type_synonym 'e encoder = "'e \<Rightarrow> bytes \<Rightarrow> int \<Rightarrow> media_quality \<Rightarrow> bytes option \<times> 'e"

text \<open>\<open>chacha_encrypt\<close>; the handle of libgcrypt is its key.\<close>

definition chacha_encrypt :: "crypto \<Rightarrow> bytes \<Rightarrow> bytes \<Rightarrow> bytes \<Rightarrow> bytes option \<Rightarrow> (bytes \<times> bytes) option res" where
  "chacha_encrypt C plain ad nonce handle =
     (case handle of None \<Rightarrow> Inl Null_deref | Some key \<Rightarrow> Inr (aead_seal C key nonce ad plain))"

text \<open>\<open>memcpy(nonce + 4, &pkt->seqnum, 2)\<close> on a zeroed nonce of 12 bytes.\<close>

definition packet_nonce :: "u16 \<Rightarrow> bytes" where
  "packet_nonce sn = replicate 4 0 @ put_le16 sn @ replicate 6 0"

definition packet_encrypt :: "crypto \<Rightarrow> (nat \<Rightarrow> u8) \<Rightarrow> rtp_packet \<Rightarrow> airplay_session \<Rightarrow> bytes option res" where
  "packet_encrypt C fresh pkt rs =
     (let out_len = pkt_data_len pkt + 16 + 12 - 4;
          nonce = packet_nonce (pkt_seqnum pkt) in
      case pkt_data pkt of
        None \<Rightarrow> Inl Null_deref
      | Some d \<Rightarrow>
          if length d < 12 \<or> length d < pkt_header_len pkt \<or> length d < RTP_HEADER_LEN + pkt_payload_len pkt
            \<or> out_len < pkt_header_len pkt + pkt_payload_len pkt + 16 + 8
          then Inl Out_of_bounds
          else
            let header = take (pkt_header_len pkt) d;
                payload = take (pkt_payload_len pkt) (drop RTP_HEADER_LEN d);
                ad = take 8 (drop 4 d)
            in bind_res (chacha_encrypt C payload ad nonce (rs_packet_cipher_hd rs)) (\<lambda>sealed.
                 case sealed of
                   None \<Rightarrow> Inr None
                 | Some (c, authtag) \<Rightarrow>
                     Inr (Some (overlay (map fresh [0..<out_len]) (header @ c @ authtag @ drop 4 nonce)))))"

definition packet_send ::
  "crypto \<Rightarrow> (nat \<Rightarrow> u8) \<Rightarrow> (nat \<Rightarrow> bytes \<Rightarrow> int) \<Rightarrow> airplay_session \<Rightarrow> rtp_packet \<Rightarrow> datagrams \<Rightarrow> (int \<times> airplay_session \<times> datagrams) res" where
  "packet_send C fresh net rs pkt log =
     bind_res (packet_encrypt C fresh pkt rs) (\<lambda>encrypted.
       case encrypted of
         None \<Rightarrow> Inr (-1, rs, log)
       | Some d \<Rightarrow>
           let ret = net (length log) d; log1 = log @ [(Connected_socket (rs_server_fd rs), d)] in
           if ret < 0 then Inr (-1, deferred_session_failure rs, log1)
           else if ret \<noteq> int (length d) then Inr (-1, rs, log1)
           else Inr (0, rs, log1))"

text \<open>\<open>control_packet_send\<close>; a failure is only logged.\<close>

definition control_packet_send :: "airplay_session \<Rightarrow> rtp_packet \<Rightarrow> datagrams \<Rightarrow> datagrams res" where
  "control_packet_send rs pkt log =
     (if rs_family rs = AF_OTHER then Inr log
      else (case pkt_data pkt of
              None \<Rightarrow> Inl Null_deref
            | Some d \<Rightarrow>
                if length d < pkt_data_len pkt then Inl Out_of_bounds
                else Inr (log @ [(Control_port (rs_family rs) (rs_naddr rs) (rs_control_port rs),
                                  take (pkt_data_len pkt) d)])))"

subsection \<open>Sending and sending again\<close>

text \<open>
  \<open>packets_resend\<close>: \<open>len\<close> packets from \<open>seqnum\<close> on, the number wrapping around; packets that are not
  in the buffer any more are skipped. The last component says whether one was missing.
\<close>

fun packets_resend ::
  "crypto \<Rightarrow> (nat \<Rightarrow> u8) \<Rightarrow> (nat \<Rightarrow> bytes \<Rightarrow> int) \<Rightarrow> rtp_session \<Rightarrow> u16 \<Rightarrow> nat \<Rightarrow> airplay_session \<Rightarrow> datagrams
     \<Rightarrow> (airplay_session \<times> datagrams \<times> bool) res" where
  "packets_resend C fresh net rtp sn 0 rs log = Inr (rs, log, False)"
| "packets_resend C fresh net rtp sn (Suc len) rs log =
     bind_res (rtp_packet_get rtp sn) (\<lambda>found.
       case found of
         None \<Rightarrow> bind_res (packets_resend C fresh net rtp (sn + 1) len rs log) (\<lambda>(rs1, log1, missing).
                   Inr (rs1, log1, True))
       | Some i \<Rightarrow> bind_res (packet_send C fresh net rs (pktbuf rtp ! i) log) (\<lambda>(ret, rs1, log1).
                   packets_resend C fresh net rtp (sn + 1) len rs1 log1))"

text \<open>\<open>alac_encode\<close>: \<open>transcode_encode\<close> reads its context first of all.\<close>

definition alac_encode ::
  "'e encoder \<Rightarrow> bytes \<Rightarrow> 'e option \<Rightarrow> bytes \<Rightarrow> int \<Rightarrow> media_quality \<Rightarrow> (int \<times> bytes \<times> 'e option) res" where
  "alac_encode alac evbuf ctx rawbuf nsamples q =
     (case ctx of
        None \<Rightarrow> Inl Null_deref
      | Some e \<Rightarrow>
          (case alac e rawbuf nsamples q of
             (None, e1) \<Rightarrow> Inr (-1, evbuf, Some e1)
           | (Some out, e1) \<Rightarrow> Inr (int (length out), evbuf @ out, Some e1)))"

definition set_header1 :: "nat \<Rightarrow> u8 \<Rightarrow> rtp_session \<Rightarrow> rtp_session" where
  "set_header1 i b s =
     s\<lparr>pktbuf := (pktbuf s)[i := (pktbuf s ! i)\<lparr>pkt_data := map_option (\<lambda>d. d[1 := b]) (pkt_data (pktbuf s ! i))\<rparr>]\<rparr>"

text \<open>
  The loop of \<open>packets_send\<close> over the sessions. The header's second byte is written anew for every
  session, in the packet of the ring buffer.
\<close>

fun packets_send_loop ::
  "crypto \<Rightarrow> (nat \<Rightarrow> u8) \<Rightarrow> (nat \<Rightarrow> bytes \<Rightarrow> int) \<Rightarrow> nat \<Rightarrow> nat \<Rightarrow> airplay_session list \<Rightarrow> rtp_session \<Rightarrow> datagrams
     \<Rightarrow> (airplay_session list \<times> rtp_session \<times> datagrams) res" where
  "packets_send_loop C fresh net rms i [] s log = Inr ([], s, log)"
| "packets_send_loop C fresh net rms i (rs # rss) s log =
     (let skip = bind_res (packets_send_loop C fresh net rms i rss s log) (\<lambda>(rss1, s1, log1).
                   Inr (rs # rss1, s1, log1));
          send_with = (\<lambda>b. let s1 = set_header1 i b s in
            bind_res (packet_send C fresh net rs (pktbuf s1 ! i) log) (\<lambda>(ret, rs1, log1).
            bind_res (packets_send_loop C fresh net rms i rss s1 log1) (\<lambda>(rss1, s2, log2).
              Inr (rs1 # rss1, s2, log2))))
      in if rs_master_session rs \<noteq> rms then skip
         else if rs_state rs = AIRPLAY_STATE_CONNECTED then send_with (push_bit 7 1 OR AIRPLAY_RTP_PAYLOADTYPE)
         else if rs_state rs = AIRPLAY_STATE_STREAMING then send_with AIRPLAY_RTP_PAYLOADTYPE
         else skip)"

definition packets_send ::
  "crypto \<Rightarrow> 'e encoder \<Rightarrow> (nat \<Rightarrow> u8) \<Rightarrow> (nat \<Rightarrow> bytes \<Rightarrow> int) \<Rightarrow> nat \<Rightarrow> 'e master_session \<Rightarrow> airplay_session list \<Rightarrow> datagrams
     \<Rightarrow> (int \<times> 'e master_session \<times> airplay_session list \<times> datagrams) res" where
  "packets_send C alac fresh net rms ms sessions log =
     bind_res (alac_encode alac (ms_encoded_buffer ms) (ms_encode_ctx ms) (ms_rawbuf ms)
         (ms_samples_per_packet ms) (ms_quality ms)) (\<lambda>(len, encoded, ctx).
       let ms1 = ms\<lparr>ms_encoded_buffer := encoded, ms_encode_ctx := ctx\<rparr> in
       if len < 0 then Inr (-1, ms1, sessions, log)
       else
         bind_res (rtp_packet_next fresh (ms_rtp_session ms1) (nat len) (ms_samples_per_packet ms1)
             AIRPLAY_RTP_PAYLOADTYPE 0) (\<lambda>(i, s).
         let s1 = rtp_fill s i (take (nat len) encoded) in
         bind_res (packets_send_loop C fresh net rms i sessions s1 log) (\<lambda>(sessions1, s2, log1).
         bind_res (rtp_packet_commit s2 i) (\<lambda>s3.
           Inr (0, ms1\<lparr>ms_rtp_session := s3, ms_encoded_buffer := drop (nat len) encoded\<rparr>, sessions1, log1)))))"

lemma packets_send_keeps:
  "packets_send C alac fresh net rms ms sessions log = Inr (ret, ms', sessions', log') \<Longrightarrow>
     ms_input_buffer ms' = ms_input_buffer ms \<and> ms_rawbuf_size ms' = ms_rawbuf_size ms
   \<and> ms_input_buffer_samples ms' = ms_input_buffer_samples ms
   \<and> ms_samples_per_packet ms' = ms_samples_per_packet ms \<and> ms_quality ms' = ms_quality ms"
  by (auto simp: packets_send_def bind_res_eq_Inr Let_def split: if_splits)

subsection \<open>Sync packets\<close>

definition timestamp_set :: "timespec \<Rightarrow> 'e master_session \<Rightarrow> 'e master_session" where
  "timestamp_set ts ms =
     ms\<lparr>ms_cur_stamp := \<lparr>stamp_pos = pos (ms_rtp_session ms) + of_int (ms_input_buffer_samples ms)
           - of_int (ms_output_buffer_samples ms), stamp_ts = ts\<rparr>\<rparr>"

fun sync_send_loop ::
  "(int \<Rightarrow> u32) \<Rightarrow> (nat \<Rightarrow> u8) \<Rightarrow> nat \<Rightarrow> rtcp_timestamp \<Rightarrow> bool \<Rightarrow> airplay_session list \<Rightarrow> rtp_session \<Rightarrow> datagrams
     \<Rightarrow> (rtp_session \<times> datagrams) res" where
  "sync_send_loop ntp_frac fresh rms stamp is_sync_time [] s log = Inr (s, log)"
| "sync_send_loop ntp_frac fresh rms stamp is_sync_time (rs # rss) s log =
     (let send_type = (\<lambda>ty. let s1 = rtp_sync_packet_next ntp_frac fresh s stamp ty in
            bind_res (control_packet_send rs (sync_packet_next s1) log) (\<lambda>log1.
              sync_send_loop ntp_frac fresh rms stamp is_sync_time rss s1 log1))
      in if rs_master_session rs \<noteq> rms then sync_send_loop ntp_frac fresh rms stamp is_sync_time rss s log
         else if rs_state rs = AIRPLAY_STATE_CONNECTED then send_type 0x90
         else if is_sync_time \<and> rs_state rs = AIRPLAY_STATE_STREAMING then send_type 0x80
         else sync_send_loop ntp_frac fresh rms stamp is_sync_time rss s log)"

definition packets_sync_send ::
  "(int \<Rightarrow> u32) \<Rightarrow> (nat \<Rightarrow> u8) \<Rightarrow> nat \<Rightarrow> 'e master_session \<Rightarrow> airplay_session list \<Rightarrow> datagrams
     \<Rightarrow> ('e master_session \<times> datagrams) res" where
  "packets_sync_send ntp_frac fresh rms ms sessions log =
     (case rtp_sync_is_time (ms_rtp_session ms) of (is_sync_time, s) \<Rightarrow>
       bind_res (sync_send_loop ntp_frac fresh rms (ms_cur_stamp ms) is_sync_time sessions s log) (\<lambda>(s1, log1).
         Inr (ms\<lparr>ms_rtp_session := s1\<rparr>, log1)))"

subsection \<open>Writing\<close>

text \<open>
  The inner loop of \<open>airplay_write\<close>: blocks of \<open>rawbuf_size\<close> bytes leave the input buffer; a block
  that could not be encoded is lost. With a block size of 0 the loop would not end.
\<close>

function write_loop ::
  "crypto \<Rightarrow> 'e encoder \<Rightarrow> (nat \<Rightarrow> u8) \<Rightarrow> (nat \<Rightarrow> bytes \<Rightarrow> int) \<Rightarrow> nat \<Rightarrow> 'e master_session \<Rightarrow> airplay_session list \<Rightarrow> datagrams
     \<Rightarrow> ('e master_session \<times> airplay_session list \<times> datagrams) res" where
  "write_loop C alac fresh net rms ms sessions log =
     (if length (ms_input_buffer ms) < ms_rawbuf_size ms then Inr (ms, sessions, log)
      else if ms_rawbuf_size ms = 0 then Inl Diverges
      else
        let ms1 = ms\<lparr>ms_rawbuf := take (ms_rawbuf_size ms) (ms_input_buffer ms),
                     ms_input_buffer := drop (ms_rawbuf_size ms) (ms_input_buffer ms),
                     ms_input_buffer_samples := ms_input_buffer_samples ms - ms_samples_per_packet ms\<rparr>
        in case packets_send C alac fresh net rms ms1 sessions log of
             Inl f \<Rightarrow> Inl f
           | Inr (ret, ms2, sessions1, log1) \<Rightarrow>
               write_loop C alac fresh net rms ms2 sessions1 log1)"
  by pat_completeness auto
termination
  by (relation "measure (\<lambda>(C, alac, fresh, net, rms, ms, sessions, log). length (ms_input_buffer ms))")
    (auto dest!: packets_send_keeps)

declare write_loop.simps [simp del]

text \<open>
  \<open>airplay_write\<close> of a buffer: \<open>obuf\<close> lists the data of the qualities (up to the zero terminator),
  with the number of samples of each.
\<close>

record output_data =
  od_quality :: media_quality
  od_buffer :: bytes
  od_samples :: int

fun write_data ::
  "crypto \<Rightarrow> 'e encoder \<Rightarrow> (int \<Rightarrow> u32) \<Rightarrow> (nat \<Rightarrow> u8) \<Rightarrow> (nat \<Rightarrow> bytes \<Rightarrow> int) \<Rightarrow> timespec \<Rightarrow> output_data list \<Rightarrow> nat
     \<Rightarrow> 'e master_session \<Rightarrow> airplay_session list \<Rightarrow> datagrams
     \<Rightarrow> ('e master_session \<times> airplay_session list \<times> datagrams) res" where
  "write_data C alac ntp_frac fresh net pts [] rms ms sessions log = Inr (ms, sessions, log)"
| "write_data C alac ntp_frac fresh net pts (od # ods) rms ms sessions log =
     (if \<not> quality_is_equal (od_quality od) (quality (ms_rtp_session ms))
      then write_data C alac ntp_frac fresh net pts ods rms ms sessions log
      else
        bind_res (packets_sync_send ntp_frac fresh rms (timestamp_set pts ms) sessions log) (\<lambda>(ms1, log1).
        bind_res (write_loop C alac fresh net rms
            (ms1\<lparr>ms_input_buffer := ms_input_buffer ms1 @ od_buffer od,
                 ms_input_buffer_samples := ms_input_buffer_samples ms1 + od_samples od\<rparr>) sessions log1)
          (\<lambda>(ms2, sessions1, log2).
        write_data C alac ntp_frac fresh net pts ods rms ms2 sessions1 log2)))"

fun write_masters ::
  "crypto \<Rightarrow> 'e encoder \<Rightarrow> (int \<Rightarrow> u32) \<Rightarrow> (nat \<Rightarrow> u8) \<Rightarrow> (nat \<Rightarrow> bytes \<Rightarrow> int) \<Rightarrow> timespec \<Rightarrow> output_data list
     \<Rightarrow> (nat \<times> 'e master_session) list \<Rightarrow> airplay_session list \<Rightarrow> datagrams
     \<Rightarrow> ((nat \<times> 'e master_session) list \<times> airplay_session list \<times> datagrams) res" where
  "write_masters C alac ntp_frac fresh net pts obuf [] sessions log = Inr ([], sessions, log)"
| "write_masters C alac ntp_frac fresh net pts obuf ((rms, ms) # rest) sessions log =
     bind_res (write_data C alac ntp_frac fresh net pts obuf rms ms sessions log) (\<lambda>(ms1, sessions1, log1).
     bind_res (write_masters C alac ntp_frac fresh net pts obuf rest sessions1 log1) (\<lambda>(rest1, sessions2, log2).
       Inr ((rms, ms1) # rest1, sessions2, log2)))"

text \<open>After the write, sessions that had just joined count as streaming.\<close>

definition joined :: "airplay_session \<Rightarrow> airplay_session" where
  "joined rs = (if rs_state rs \<noteq> AIRPLAY_STATE_CONNECTED then rs else rs\<lparr>rs_state := AIRPLAY_STATE_STREAMING\<rparr>)"

definition airplay_write ::
  "crypto \<Rightarrow> 'e encoder \<Rightarrow> (int \<Rightarrow> u32) \<Rightarrow> (nat \<Rightarrow> u8) \<Rightarrow> (nat \<Rightarrow> bytes \<Rightarrow> int) \<Rightarrow> timespec \<Rightarrow> output_data list
     \<Rightarrow> (nat \<times> 'e master_session) list \<Rightarrow> airplay_session list \<Rightarrow> datagrams
     \<Rightarrow> ((nat \<times> 'e master_session) list \<times> airplay_session list \<times> datagrams) res" where
  "airplay_write C alac ntp_frac fresh net pts obuf masters sessions log =
     bind_res (write_masters C alac ntp_frac fresh net pts obuf masters sessions log)
       (\<lambda>(masters1, sessions1, log1). Inr (masters1, map joined sessions1, log1))"

subsection \<open>The control and the timing service\<close>

text \<open>
  \<open>session_find_by_address\<close>: the first session with the peer's address; an IPv4 session is also
  found by the IPv4-mapped IPv6 address, of which only the last four bytes are compared.
\<close>

definition v4_mapped :: "bytes \<Rightarrow> bool" where
  "v4_mapped addr \<longleftrightarrow> take 12 addr = replicate 10 0 @ [0xff, 0xff]"

definition session_find_by_address :: "airplay_session list \<Rightarrow> address_family \<Rightarrow> bytes \<Rightarrow> airplay_session option" where
  "session_find_by_address sessions family addr =
     find (\<lambda>rs.
       if family = rs_family rs then family \<noteq> AF_OTHER \<and> addr = rs_naddr rs
       else family = AF_INET6 \<and> v4_mapped addr \<and> drop 12 addr = take 4 (rs_naddr rs)) sessions"

text \<open>
  \<open>control_svc_cb\<close>: the request, if it is one, as the session and the numbers to send again. A
  datagram longer than 8 bytes is cut to 8 by \<open>recvfrom\<close>.
\<close>

definition control_request ::
  "airplay_session list \<Rightarrow> address_family \<Rightarrow> bytes \<Rightarrow> bytes \<Rightarrow> (airplay_session \<times> u16 \<times> u16) option" where
  "control_request sessions family addr datagram =
     (let req = take 8 datagram in
      if length req \<noteq> 8 then None
      else if req ! 0 \<noteq> 0x80 \<or> req ! 1 \<noteq> 0xd5 then None
      else (case session_find_by_address sessions family addr of
              None \<Rightarrow> None
            | Some rs \<Rightarrow> Some (rs, get_be16 (drop 4 req), get_be16 (drop 6 req))))"

definition control_svc_cb ::
  "crypto \<Rightarrow> (nat \<Rightarrow> u8) \<Rightarrow> (nat \<Rightarrow> bytes \<Rightarrow> int) \<Rightarrow> (nat \<Rightarrow> rtp_session) \<Rightarrow> airplay_session list \<Rightarrow> address_family \<Rightarrow> bytes \<Rightarrow> bytes
     \<Rightarrow> datagrams \<Rightarrow> ((airplay_session \<times> bool) option \<times> datagrams) res" where
  "control_svc_cb C fresh net rtp_of sessions family addr datagram log =
     (case control_request sessions family addr datagram of
        None \<Rightarrow> Inr (None, log)
      | Some (rs, seq_start, seq_len) \<Rightarrow>
          bind_res (packets_resend C fresh net (rtp_of (rs_master_session rs)) seq_start (unat seq_len) rs log)
            (\<lambda>(rs1, log1, missing). Inr (Some (rs1, missing), log1)))"

text \<open>
  \<open>timing_svc_cb\<close>: the reply to a timing request, from the times read before and after (the second
  one may fail, then the first is used again).
\<close>

definition timing_reply :: "(int \<Rightarrow> u32) \<Rightarrow> timespec option \<Rightarrow> timespec option \<Rightarrow> bytes \<Rightarrow> bytes option" where
  "timing_reply ntp_frac recv_time xmit_time datagram =
     (case recv_time of
        None \<Rightarrow> None
      | Some t \<Rightarrow>
          let req = take 32 datagram;
              stamp = (\<lambda>t. let n = timespec_to_ntp ntp_frac t in put_be32 (ntp_sec n) @ put_be32 (ntp_frac_part n))
          in if length req \<noteq> 32 then None
             else if req ! 0 \<noteq> 0x80 \<or> req ! 1 \<noteq> 0xd2 then None
             else Some ([0x80, 0xd3, req ! 2] @ replicate 5 0 @ take 8 (drop 24 req) @ stamp t
                    @ stamp (case xmit_time of None \<Rightarrow> t | Some t2 \<Rightarrow> t2)))"

end
