(* ===== verification/Airplay_Stream.thy ===== *)
theory Airplay_Stream
  imports Airplay_Audio
begin

text \<open>
  What a device gets from the media path of \<open>Airplay_Audio\<close>: it can open every packet that is sent to
  it, the packets carry the encoded blocks of the player's stream in order, and a packet that is sent
  again is the one that was sent before, up to the marker bit.
\<close>

subsection \<open>Packets\<close>

text \<open>
  What the receiver does with a datagram: the header, the cipher text, the tag and the last 8 bytes of
  the nonce, opened with timestamp and source of the header as associated data.
\<close>

definition open_packet :: "crypto \<Rightarrow> bytes \<Rightarrow> bytes \<Rightarrow> (bytes \<times> bytes) option" where
  "open_packet C key d =
     (if length d < RTP_HEADER_LEN + 24 then None
      else
        let n = length d - 24; header = take RTP_HEADER_LEN d in
        map_option (Pair header)
          (aead_open C key (replicate 4 0 @ drop (n + 16) d) (take 8 (drop 4 header))
            (drop RTP_HEADER_LEN (take n d)) (take 16 (drop n d))))"

text \<open>A packet that is complete: header and payload lie in its block.\<close>

definition sendable :: "rtp_packet \<Rightarrow> bytes \<Rightarrow> bytes \<Rightarrow> bool" where
  "sendable p header payload \<longleftrightarrow> (\<exists>tail. pkt_data p = Some (header @ payload @ tail))
     \<and> length header = RTP_HEADER_LEN \<and> pkt_header_len p = RTP_HEADER_LEN
     \<and> pkt_payload_len p = length payload \<and> pkt_data_len p = RTP_HEADER_LEN + length payload"

definition set_marker :: "u8 \<Rightarrow> rtp_packet \<Rightarrow> rtp_packet" where
  "set_marker b p = p\<lparr>pkt_data := map_option (\<lambda>d. d[1 := b]) (pkt_data p)\<rparr>"

lemma set_header1_eq: "set_header1 i b s = s\<lparr>pktbuf := (pktbuf s)[i := set_marker b (pktbuf s ! i)]\<rparr>"
  by (simp add: set_header1_def set_marker_def)

lemma set_marker_simps [simp]:
  "pkt_seqnum (set_marker b p) = pkt_seqnum p" "pkt_samples (set_marker b p) = pkt_samples p"
  "pkt_header_len (set_marker b p) = pkt_header_len p" "pkt_payload_len (set_marker b p) = pkt_payload_len p"
  "pkt_data_len (set_marker b p) = pkt_data_len p" "set_marker c (set_marker b p) = set_marker c p"
  by (cases "pkt_data p"; simp add: set_marker_def)+

lemma packet_ok_set_marker [simp]: "packet_ok (set_marker b p) = packet_ok p"
  by (cases "pkt_data p"; simp add: set_marker_def packet_ok_def)

lemma sendable_set_marker:
  assumes "sendable p header payload"
  shows "sendable (set_marker b p) (header[1 := b]) payload"
proof -
  from assms obtain tail where "pkt_data p = Some (header @ payload @ tail)" "length header = RTP_HEADER_LEN"
    by (auto simp: sendable_def)
  then have "pkt_data (set_marker b p) = Some (header[1 := b] @ payload @ tail)"
    by (simp add: set_marker_def list_update_append1 RTP_HEADER_LEN_def)
  then show ?thesis
    using assms by (simp add: sendable_def)
qed

text \<open>The datagram of a packet: the header, and the sealed payload with the rest of the nonce.\<close>

definition datagram :: "crypto \<Rightarrow> bytes \<Rightarrow> u16 \<Rightarrow> bytes \<Rightarrow> bytes \<Rightarrow> bytes" where
  "datagram C key sn header payload = header @
     (case aead_seal C key (packet_nonce sn) (take 8 (drop 4 header)) payload of
        None \<Rightarrow> [] | Some (c, t) \<Rightarrow> c @ t @ drop 4 (packet_nonce sn))"

lemma packet_nonce_simps [simp]:
  "length (packet_nonce sn) = 12" "replicate 4 0 @ drop 4 (packet_nonce sn) = packet_nonce sn"
  by (simp_all add: packet_nonce_def codec_simps)

lemma aead_seal_parts:
  assumes "aead_ok C"
  obtains c t where "aead_seal C key nonce ad plain = Some (c, t)" and "length c = length plain"
    and "length t = 16" and "aead_open C key nonce ad c t = Some plain"
  using assms unfolding aead_ok_def by metis

lemma open_packet_datagram:
  assumes "aead_ok C" and "length header = RTP_HEADER_LEN"
  shows "open_packet C key (datagram C key sn header payload) = Some (header, payload)"
  by (rule aead_seal_parts [OF assms(1), of key "packet_nonce sn" "take 8 (drop 4 header)" payload])
    (use assms(2) in \<open>simp add: open_packet_def datagram_def Let_def RTP_HEADER_LEN_def\<close>)

lemma datagram_marker:
  assumes "length header = RTP_HEADER_LEN"
  shows "datagram C key sn (header[1 := b]) payload = (datagram C key sn header payload)[1 := b]"
  using assms by (simp add: datagram_def list_update_append1 RTP_HEADER_LEN_def)

lemma packet_encrypt_datagram:
  assumes "aead_ok C" and "sendable p header payload" and "rs_packet_cipher_hd rs = Some key"
  shows "packet_encrypt C fresh p rs = Inr (Some (datagram C key (pkt_seqnum p) header payload))"
proof -
  from assms(2) obtain tail where p: "pkt_data p = Some (header @ payload @ tail)" "length header = RTP_HEADER_LEN"
    "pkt_header_len p = RTP_HEADER_LEN" "pkt_payload_len p = length payload"
    "pkt_data_len p = RTP_HEADER_LEN + length payload"
    by (auto simp: sendable_def)
  show ?thesis
    by (rule aead_seal_parts [OF assms(1), of key "packet_nonce (pkt_seqnum p)" "take 8 (drop 4 header)" payload])
      (use p assms(3) in \<open>simp add: packet_encrypt_def datagram_def Let_def chacha_encrypt_def RTP_HEADER_LEN_def\<close>)
qed

subsection \<open>One packet to all sessions\<close>

text \<open>A network to which every datagram can be sent whole.\<close>

definition sends_all :: "(nat \<Rightarrow> bytes \<Rightarrow> int) \<Rightarrow> bool" where
  "sends_all net \<longleftrightarrow> (\<forall>n d. net n d = int (length d))"

definition receives :: "nat \<Rightarrow> airplay_session \<Rightarrow> bool" where
  "receives rms rs \<longleftrightarrow> rs_master_session rs = rms
     \<and> (rs_state rs = AIRPLAY_STATE_CONNECTED \<or> rs_state rs = AIRPLAY_STATE_STREAMING)"

text \<open>The second header byte for a session: the marker bit tells a new one where it starts.\<close>

definition marker_byte :: "airplay_session \<Rightarrow> u8" where
  "marker_byte rs = (if rs_state rs = AIRPLAY_STATE_CONNECTED then 0xe0 else 0x60)"

definition gets :: "crypto \<Rightarrow> u16 \<Rightarrow> bytes \<Rightarrow> bytes \<Rightarrow> airplay_session \<Rightarrow> destination \<times> bytes \<Rightarrow> bool" where
  "gets C sn header payload rs d \<longleftrightarrow> d = (Connected_socket (rs_server_fd rs),
     datagram C (the (rs_packet_cipher_hd rs)) sn (header[1 := marker_byte rs]) payload)"

lemma packet_send_gets:
  assumes "aead_ok C" and "sends_all net"
    and "sendable p (header[1 := marker_byte rs]) payload" and "rs_packet_cipher_hd rs = Some key"
  shows "\<exists>d. packet_send C fresh net rs p log = Inr (0, rs, log @ [d]) \<and> gets C (pkt_seqnum p) header payload rs d"
  using packet_encrypt_datagram [OF assms(1,3,4), of fresh] assms(2,4)
  by (auto simp: packet_send_def gets_def Let_def sends_all_def)

text \<open>The packet in the ring after the loop: the last session that got it left its marker byte.\<close>

definition last_marker :: "nat \<Rightarrow> airplay_session list \<Rightarrow> u8 \<Rightarrow> u8" where
  "last_marker rms rss b = (if filter (receives rms) rss = [] then b else marker_byte (last (filter (receives rms) rss)))"

lemma set_marker_id: "sendable p header payload \<Longrightarrow> set_marker (header ! 1) p = p"
  by (auto simp: sendable_def set_marker_def RTP_HEADER_LEN_def list_update_append1)

lemma packets_send_loop_Cons:
  "\<not> receives rms rs \<Longrightarrow> packets_send_loop C fresh net rms i (rs # rss) s log =
     bind_res (packets_send_loop C fresh net rms i rss s log) (\<lambda>(rss1, s1, log1). Inr (rs # rss1, s1, log1))"
  "receives rms rs \<Longrightarrow> packets_send_loop C fresh net rms i (rs # rss) s log =
     bind_res (packet_send C fresh net rs (pktbuf (set_header1 i (marker_byte rs) s) ! i) log) (\<lambda>(ret, rs1, log1).
     bind_res (packets_send_loop C fresh net rms i rss (set_header1 i (marker_byte rs) s) log1) (\<lambda>(rss1, s2, log2).
       Inr (rs1 # rss1, s2, log2)))"
  by (auto simp: receives_def marker_byte_def Let_def AIRPLAY_RTP_PAYLOADTYPE_def)

lemma packets_send_loop_gets:
  assumes "aead_ok C" and "sends_all net"
    and "i < length (pktbuf s)" and "sendable (pktbuf s ! i) header payload"
    and "\<forall>rs \<in> set rss. receives rms rs \<longrightarrow> rs_packet_cipher_hd rs \<noteq> None"
  shows "\<exists>ds. packets_send_loop C fresh net rms i rss s log = Inr (rss,
        s\<lparr>pktbuf := (pktbuf s)[i := set_marker (last_marker rms rss (header ! 1)) (pktbuf s ! i)]\<rparr>, log @ ds)
     \<and> list_all2 (gets C (pkt_seqnum (pktbuf s ! i)) header payload) (filter (receives rms) rss) ds"
  using assms(3-5)
proof (induction rss arbitrary: s log header)
  case Nil
  show ?case
    by (intro exI [of _ "[]"]) (simp add: last_marker_def set_marker_id [OF Nil(2), simplified] list_update_id)
next
  case (Cons rs rss)
  show ?case
  proof (cases "receives rms rs")
    case False
    then show ?thesis
      using Cons.IH [OF Cons.prems(1,2), of log] Cons.prems(3)
      by (auto simp: packets_send_loop_Cons last_marker_def simp del: packets_send_loop.simps)
  next
    case True
    then obtain key where key: "rs_packet_cipher_hd rs = Some key" using Cons.prems(3) by auto
    let ?s1 = "set_header1 i (marker_byte rs) s" and ?h1 = "header[1 := marker_byte rs]"
    have s1: "pktbuf ?s1 ! i = set_marker (marker_byte rs) (pktbuf s ! i)" "length (pktbuf ?s1) = length (pktbuf s)"
      using Cons.prems(1) by (simp_all add: set_header1_eq)
    have sendable: "sendable (pktbuf ?s1 ! i) ?h1 payload"
      unfolding s1 by (rule sendable_set_marker [OF Cons.prems(2)])
    have h1: "?h1 ! 1 = marker_byte rs" using Cons.prems(2) by (simp add: sendable_def RTP_HEADER_LEN_def)
    obtain d where d: "packet_send C fresh net rs (pktbuf ?s1 ! i) log = Inr (0, rs, log @ [d])"
        "gets C (pkt_seqnum (pktbuf s ! i)) header payload rs d"
      using packet_send_gets [OF assms(1,2) sendable key, of fresh log] unfolding s1 set_marker_simps by blast
    have "i < length (pktbuf ?s1)" using Cons.prems(1) s1(2) by simp
    from Cons.IH [OF this sendable, of "log @ [d]"] Cons.prems(3) obtain ds where
      rest: "packets_send_loop C fresh net rms i rss ?s1 (log @ [d]) = Inr (rss,
          ?s1\<lparr>pktbuf := (pktbuf ?s1)[i := set_marker (last_marker rms rss (?h1 ! 1)) (pktbuf ?s1 ! i)]\<rparr>, (log @ [d]) @ ds)"
        "list_all2 (gets C (pkt_seqnum (pktbuf ?s1 ! i)) ?h1 payload) (filter (receives rms) rss) ds"
      by auto
    have "last_marker rms (rs # rss) (header ! 1) = last_marker rms rss (?h1 ! 1)"
      using True h1 by (simp add: last_marker_def)
    then have "packets_send_loop C fresh net rms i (rs # rss) s log = Inr (rs # rss,
        s\<lparr>pktbuf := (pktbuf s)[i := set_marker (last_marker rms (rs # rss) (header ! 1)) (pktbuf s ! i)]\<rparr>, log @ d # ds)"
      using True d(1) rest(1) s1 by (simp add: packets_send_loop_Cons set_header1_eq del: packets_send_loop.simps)
    moreover have "list_all2 (gets C (pkt_seqnum (pktbuf s ! i)) header payload) (filter (receives rms) rss) ds"
      using rest(2) s1(1) by (simp add: gets_def [abs_def])
    ultimately show ?thesis
      using True d(2) by (intro exI [of _ "d # ds"]) simp
  qed
qed

subsection \<open>One block\<close>

text \<open>
  The session's ring after a packet went out: the entry that was committed is the packet up to its
  marker byte.
\<close>

lemma rtp_packet_next_fill:
  assumes "rtp_inv s"
  obtains p where "rtp_packet_next fresh s (length payload) samples pt mb = Inr (pktbuf_next s, s\<lparr>pktbuf := (pktbuf s)[pktbuf_next s := p]\<rparr>)"
    and "rtp_fill (s\<lparr>pktbuf := (pktbuf s)[pktbuf_next s := p]\<rparr>) (pktbuf_next s) payload =
      s\<lparr>pktbuf := (pktbuf s)[pktbuf_next s := filled p payload]\<rparr>"
    and "sendable (filled p payload) (rtp_header s pt mb) payload" and "packet_ok (filled p payload)"
    and "pkt_seqnum (filled p payload) = seqnum s" and "pkt_samples (filled p payload) = samples"
proof -
  from assms have lt: "pktbuf_next s < length (pktbuf s)" by (auto simp: rtp_inv_def)
  from rtp_packet_next_prepared [OF assms, of fresh "length payload" samples pt mb] obtain p
    where next_eq: "rtp_packet_next fresh s (length payload) samples pt mb =
        Inr (pktbuf_next s, s\<lparr>pktbuf := (pktbuf s)[pktbuf_next s := p]\<rparr>)"
      and prep: "prepared s p (length payload) samples (rtp_header s pt mb)"
    by blast
  from prep obtain d where d: "pkt_data p = Some d" "length d = RTP_HEADER_LEN + pkt_payload_size p"
    "length payload \<le> pkt_payload_size p" "take RTP_HEADER_LEN d = rtp_header s pt mb"
    by (auto simp: prepared_def)
  have "sendable (filled p payload) (rtp_header s pt mb) payload"
    using prep d by (auto simp: sendable_def filled_def prepared_def overlay_def)
  then show ?thesis
    using that [of p] next_eq filled_prepared [OF prep] lt by (simp add: rtp_fill_def filled_def)
qed

lemma packets_send_gets:
  assumes "aead_ok C" and "sends_all net" and "rtp_inv (ms_rtp_session ms)"
    and "ms_encode_ctx ms = Some e" and "ms_encoded_buffer ms = []"
    and "alac e (ms_rawbuf ms) (ms_samples_per_packet ms) (ms_quality ms) = (Some payload, e')"
    and "\<forall>rs \<in> set rss. receives rms rs \<longrightarrow> rs_packet_cipher_hd rs \<noteq> None"
  obtains ds p where "packets_send C alac fresh net rms ms rss log = Inr (0, ms\<lparr>ms_encode_ctx := Some e',
        ms_encoded_buffer := [], ms_rtp_session := committed (ms_rtp_session ms) p\<rparr>, rss, log @ ds)"
    and "list_all2 (gets C (seqnum (ms_rtp_session ms)) (rtp_header (ms_rtp_session ms) 0x60 0) payload) (filter (receives rms) rss) ds"
    and "packet_ok p" and "pkt_seqnum p = seqnum (ms_rtp_session ms)" and "pkt_samples p = ms_samples_per_packet ms"
    and "sendable p ((rtp_header (ms_rtp_session ms) 0x60 0)[1 := last_marker rms rss 0x60]) payload"
proof -
  let ?s = "ms_rtp_session ms" and ?i = "pktbuf_next (ms_rtp_session ms)"
  let ?h = "rtp_header ?s 0x60 0" and ?m = "last_marker rms rss (rtp_header (ms_rtp_session ms) 0x60 0 ! 1)"
  obtain p where p: "rtp_packet_next fresh ?s (length payload) (ms_samples_per_packet ms) 0x60 0 =
        Inr (?i, ?s\<lparr>pktbuf := (pktbuf ?s)[?i := p]\<rparr>)"
      "rtp_fill (?s\<lparr>pktbuf := (pktbuf ?s)[?i := p]\<rparr>) ?i payload = ?s\<lparr>pktbuf := (pktbuf ?s)[?i := filled p payload]\<rparr>"
      "sendable (filled p payload) ?h payload" "packet_ok (filled p payload)"
      "pkt_seqnum (filled p payload) = seqnum ?s" "pkt_samples (filled p payload) = ms_samples_per_packet ms"
    by (rule rtp_packet_next_fill [OF assms(3)])
  let ?s1 = "?s\<lparr>pktbuf := (pktbuf ?s)[?i := filled p payload]\<rparr>" and ?q = "set_marker ?m (filled p payload)"
  have lt: "?i < length (pktbuf ?s)" using assms(3) by (auto simp: rtp_inv_def)
  then have "?i < length (pktbuf ?s1)" "sendable (pktbuf ?s1 ! ?i) ?h payload" using p(3) by simp_all
  from packets_send_loop_gets [OF assms(1,2) this assms(7), of fresh log] lt p(5) obtain ds where
    loop: "packets_send_loop C fresh net rms ?i rss ?s1 log = Inr (rss, ?s1\<lparr>pktbuf := (pktbuf ?s1)[?i := ?q]\<rparr>, log @ ds)"
      "list_all2 (gets C (seqnum ?s) ?h payload) (filter (receives rms) rss) ds"
    by auto
  have "rtp_packet_commit (?s1\<lparr>pktbuf := (pktbuf ?s1)[?i := ?q]\<rparr>) ?i = Inr (committed ?s ?q)"
    using rtp_packet_commit_eq [OF assms(3), of ?q] by simp
  then have "packets_send C alac fresh net rms ms rss log = Inr (0, ms\<lparr>ms_encode_ctx := Some e',
      ms_encoded_buffer := [], ms_rtp_session := committed ?s ?q\<rparr>, rss, log @ ds)"
    using assms(4-6) p(1,2) loop(1)
    by (simp add: packets_send_def alac_encode_def AIRPLAY_RTP_PAYLOADTYPE_def Let_def)
  moreover have "sendable ?q (?h[1 := ?m]) payload" by (rule sendable_set_marker [OF p(3)])
  moreover have "?h ! 1 = 0x60" by (simp add: rtp_header_def)
  ultimately show ?thesis using that [of ?q ds] loop(2) p(4-6) by simp
qed

subsection \<open>Blocks\<close>

text \<open>The full blocks of \<open>n\<close> bytes of the input, and what is left.\<close>

function full_blocks :: "nat \<Rightarrow> bytes \<Rightarrow> bytes list" where
  "full_blocks n xs = (if n = 0 \<or> length xs < n then [] else take n xs # full_blocks n (drop n xs))"
  by pat_completeness auto
termination
  by (relation "measure (\<lambda>(n, xs). length xs)") auto

declare full_blocks.simps [simp del]

definition left_over :: "nat \<Rightarrow> bytes \<Rightarrow> bytes" where
  "left_over n xs = drop (n * length (full_blocks n xs)) xs"

lemma full_blocks_short: "length xs < n \<Longrightarrow> full_blocks n xs = []" "length xs < n \<Longrightarrow> left_over n xs = xs"
  by (simp_all add: full_blocks.simps left_over_def)

lemma full_blocks_step:
  assumes "0 < n" and "n \<le> length xs"
  shows "full_blocks n xs = take n xs # full_blocks n (drop n xs)" "left_over n xs = left_over n (drop n xs)"
  using assms by (simp_all add: full_blocks.simps [of n xs] left_over_def add.commute)

lemma full_blocks_append:
  assumes "0 < n"
  shows "full_blocks n (xs @ ys) = full_blocks n xs @ full_blocks n (left_over n xs @ ys)
    \<and> left_over n (xs @ ys) = left_over n (left_over n xs @ ys)"
  using assms
proof (induction n xs rule: full_blocks.induct)
  case (1 n xs)
  show ?case
  proof (cases "length xs < n")
    case True
    then show ?thesis by (simp add: full_blocks_short)
  next
    case False
    with 1 have "full_blocks n (drop n xs @ ys) = full_blocks n (drop n xs) @ full_blocks n (left_over n (drop n xs) @ ys)
      \<and> left_over n (drop n xs @ ys) = left_over n (left_over n (drop n xs) @ ys)" by simp
    then show ?thesis
      using False 1(2) full_blocks_step [of n xs] full_blocks_step [of n "xs @ ys"] by simp
  qed
qed

lemma length_left_over: "0 < n \<Longrightarrow> length (left_over n xs) < n"
proof (induction n xs rule: full_blocks.induct)
  case (1 n xs)
  then show ?case
    using full_blocks_step [of n xs] by (cases "length xs < n") (auto simp: full_blocks_short)
qed

lemma concat_full_blocks: "concat (full_blocks n xs) @ left_over n xs = xs"
proof (induction n xs rule: full_blocks.induct)
  case (1 n xs)
  show ?case
  proof (cases "n = 0 \<or> length xs < n")
    case True
    then show ?thesis by (auto simp: full_blocks.simps left_over_def)
  next
    case False
    then show ?thesis using 1 full_blocks_step [of n xs] by simp
  qed
qed

text \<open>The encoder on a list of blocks.\<close>

fun encode_all :: "'e encoder \<Rightarrow> int \<Rightarrow> media_quality \<Rightarrow> bytes list \<Rightarrow> 'e \<Rightarrow> (bytes list \<times> 'e) option" where
  "encode_all alac n q [] e = Some ([], e)"
| "encode_all alac n q (b # bs) e =
     (case alac e b n q of
        (None, e1) \<Rightarrow> None
      | (Some p, e1) \<Rightarrow> map_option (\<lambda>(ps, e2). (p # ps, e2)) (encode_all alac n q bs e1))"

lemma encode_all_append:
  "encode_all alac n q (bs @ cs) e = Some (ps, e2) \<longleftrightarrow>
     (\<exists>ps1 e1 ps2. encode_all alac n q bs e = Some (ps1, e1) \<and> encode_all alac n q cs e1 = Some (ps2, e2) \<and> ps = ps1 @ ps2)"
proof (induction bs arbitrary: e ps)
  case (Cons b bs)
  show ?case
  proof (cases "alac e b n q")
    case (Pair out e1)
    then show ?thesis
    proof (cases out)
      case (Some p)
      then show ?thesis using Pair by (auto simp: Cons.IH)
    qed simp
  qed
qed simp

subsection \<open>The stream of a session\<close>

definition packet_header :: "'e master_session \<Rightarrow> nat \<Rightarrow> bytes" where
  "packet_header ms k = rtp_header ((ms_rtp_session ms)\<lparr>seqnum := seqnum (ms_rtp_session ms) + of_nat k,
     pos := pos (ms_rtp_session ms) + of_int (ms_samples_per_packet ms * int k)\<rparr>) AIRPLAY_RTP_PAYLOADTYPE 0"

definition to_session :: "airplay_session \<Rightarrow> datagrams \<Rightarrow> bytes list" where
  "to_session rs log = map snd (filter (\<lambda>d. fst d = Connected_socket (rs_server_fd rs)) log)"

definition received :: "crypto \<Rightarrow> airplay_session \<Rightarrow> datagrams \<Rightarrow> (bytes \<times> bytes) option list" where
  "received C rs log = map (open_packet C (the (rs_packet_cipher_hd rs))) (to_session rs log)"

definition delivers :: "crypto \<Rightarrow> nat \<Rightarrow> 'e master_session \<Rightarrow> airplay_session list \<Rightarrow> bytes list \<Rightarrow> datagrams \<Rightarrow> bool" where
  "delivers C rms ms rss ps ds \<longleftrightarrow> (\<forall>rs \<in> set rss. receives rms rs \<longrightarrow>
     received C rs ds = map (\<lambda>(k, p). Some ((packet_header ms k)[1 := marker_byte rs], p)) (enumerate 0 ps))"

definition progressed :: "'e master_session \<Rightarrow> 'e master_session \<Rightarrow> nat \<Rightarrow> bool" where
  "progressed ms ms' n \<longleftrightarrow> ms_rawbuf_size ms' = ms_rawbuf_size ms
     \<and> ms_samples_per_packet ms' = ms_samples_per_packet ms \<and> ms_quality ms' = ms_quality ms
     \<and> ms_output_buffer_samples ms' = ms_output_buffer_samples ms
     \<and> ssrc_id (ms_rtp_session ms') = ssrc_id (ms_rtp_session ms)
     \<and> quality (ms_rtp_session ms') = quality (ms_rtp_session ms)
     \<and> seqnum (ms_rtp_session ms') = seqnum (ms_rtp_session ms) + of_nat n
     \<and> pos (ms_rtp_session ms') = pos (ms_rtp_session ms) + of_int (ms_samples_per_packet ms * int n)"

lemma progressed_refl: "progressed ms ms 0"
  by (simp add: progressed_def)

lemma progressed_trans: "progressed a b m \<Longrightarrow> progressed b c n \<Longrightarrow> progressed a c (m + n)"
  by (simp add: progressed_def distrib_left)

lemma packet_header_progressed: "progressed ms ms' m \<Longrightarrow> packet_header ms' k = packet_header ms (m + k)"
  by (simp add: packet_header_def progressed_def rtp_header_def distrib_left add.assoc)

lemma delivers_Nil: "filter (\<lambda>d. \<exists>fd. fst d = Connected_socket fd) ds = [] \<Longrightarrow> delivers C rms ms rss [] ds"
  by (auto simp: delivers_def received_def to_session_def filter_empty_conv)

lemma delivers_append:
  assumes "delivers C rms ms rss ps1 ds1" and "progressed ms ms1 (length ps1)" and "delivers C rms ms1 rss ps2 ds2"
  shows "delivers C rms ms rss (ps1 @ ps2) (ds1 @ ds2)"
proof -
  have "map (\<lambda>(k, p). Some ((packet_header ms1 k)[1 := b], p)) (enumerate 0 ps2) =
      map (\<lambda>(k, p). Some ((packet_header ms k)[1 := b], p)) (enumerate (length ps1) ps2)" for b
    by (rule nth_equalityI) (simp_all add: nth_enumerate_eq packet_header_progressed [OF assms(2)])
  then show ?thesis
    using assms(1,3) by (simp add: delivers_def received_def to_session_def enumerate_append_eq)
qed

lemma gets_to_session:
  assumes "list_all2 (gets C sn header payload) rss ds" and "distinct (map rs_server_fd rss)" and "rs \<in> set rss"
  shows "to_session rs ds = [datagram C (the (rs_packet_cipher_hd rs)) sn (header[1 := marker_byte rs]) payload]"
  using assms
proof (induction rss ds rule: list_all2_induct)
  case (Cons r rss d ds)
  have none: "to_session rs ds' = []"
    if "list_all2 (gets C sn header payload) rss' ds'" "rs_server_fd rs \<notin> rs_server_fd ` set rss'" for rss' ds'
    using that by (induction rss' ds' rule: list_all2_induct) (auto simp: to_session_def gets_def)
  show ?case
  proof (cases "rs = r")
    case True
    then show ?thesis
      using Cons none [of rss ds] by (auto simp: to_session_def gets_def)
  next
    case False
    then have "rs \<in> set rss" using Cons.prems by simp
    moreover from this have "rs_server_fd rs \<noteq> rs_server_fd r" using Cons.prems by (metis distinct.simps(2) image_eqI list.simps(9) set_map)
    ultimately show ?thesis
      using Cons by (simp add: to_session_def gets_def)
  qed
qed simp

text \<open>What the media path needs of a master session, with \<open>e\<close> the state of its encoder.\<close>

definition sync_packet_ok :: "rtp_session \<Rightarrow> bool" where
  "sync_packet_ok s \<longleftrightarrow> (case pkt_data (sync_packet_next s) of None \<Rightarrow> True
     | Some d \<Rightarrow> length d = RTCP_SYNC_PACKET_LEN \<and> pkt_data_len (sync_packet_next s) = RTCP_SYNC_PACKET_LEN)"

lemma sync_packet_ok_cong: "sync_packet_next s' = sync_packet_next s \<Longrightarrow> sync_packet_ok s' = sync_packet_ok s"
  by (simp add: sync_packet_ok_def cong: option.case_cong)

lemma sync_packet_ok_committed [simp]: "sync_packet_ok (committed s p) = sync_packet_ok s"
  by (rule sync_packet_ok_cong) simp

definition stream_ok :: "'e master_session \<Rightarrow> 'e \<Rightarrow> bool" where
  "stream_ok ms e \<longleftrightarrow> rtp_inv (ms_rtp_session ms) \<and> sync_packet_ok (ms_rtp_session ms)
     \<and> ms_encode_ctx ms = Some e \<and> ms_encoded_buffer ms = [] \<and> 0 < ms_rawbuf_size ms"

text \<open>What the sessions need: a packet key and a socket of its own for each that gets packets.\<close>

definition sessions_ok :: "nat \<Rightarrow> airplay_session list \<Rightarrow> bool" where
  "sessions_ok rms rss \<longleftrightarrow> (\<forall>rs \<in> set rss. receives rms rs \<longrightarrow> rs_packet_cipher_hd rs \<noteq> None)
     \<and> distinct (map rs_server_fd (filter (receives rms) rss))"

lemma packets_send_delivers:
  assumes "aead_ok C" and "sends_all net" and "sessions_ok rms rss" and "stream_ok ms e"
    and "alac e (ms_rawbuf ms) (ms_samples_per_packet ms) (ms_quality ms) = (Some payload, e')"
  obtains ds ms' where "packets_send C alac fresh net rms ms rss log = Inr (0, ms', rss, log @ ds)"
    and "stream_ok ms' e'" and "progressed ms ms' 1" and "delivers C rms ms rss [payload] ds"
    and "ms_input_buffer ms' = ms_input_buffer ms"
proof -
  from assms(3,4) have ok: "rtp_inv (ms_rtp_session ms)" "ms_encode_ctx ms = Some e" "ms_encoded_buffer ms = []"
      "\<forall>rs \<in> set rss. receives rms rs \<longrightarrow> rs_packet_cipher_hd rs \<noteq> None"
      "distinct (map rs_server_fd (filter (receives rms) rss))"
    by (simp_all add: stream_ok_def sessions_ok_def)
  obtain ds p where send: "packets_send C alac fresh net rms ms rss log = Inr (0, ms\<lparr>ms_encode_ctx := Some e',
        ms_encoded_buffer := [], ms_rtp_session := committed (ms_rtp_session ms) p\<rparr>, rss, log @ ds)"
      (is "_ = Inr (0, ?ms', rss, log @ ds)")
    and gets: "list_all2 (gets C (seqnum (ms_rtp_session ms)) (rtp_header (ms_rtp_session ms) 0x60 0) payload) (filter (receives rms) rss) ds"
    and p: "packet_ok p" "pkt_seqnum p = seqnum (ms_rtp_session ms)" "pkt_samples p = ms_samples_per_packet ms"
    by (rule packets_send_gets [where alac = alac, OF assms(1,2) ok(1-3) assms(5) ok(4)])
  have "packet_header ms 0 = rtp_header (ms_rtp_session ms) 0x60 0"
    by (simp add: packet_header_def AIRPLAY_RTP_PAYLOADTYPE_def)
  then have "delivers C rms ms rss [payload] ds"
    using gets_to_session [OF gets ok(5)] open_packet_datagram [OF assms(1)] by (simp add: delivers_def received_def)
  moreover have "stream_ok ?ms' e'"
    using assms(4) committed_window(1) [OF ok(1) p(1,2)] by (simp add: stream_ok_def)
  moreover have "progressed ms ?ms' 1"
    using p(3) by (simp add: progressed_def)
  ultimately show ?thesis using send that by simp
qed

subsection \<open>Writing\<close>

lemma write_loop_delivers:
  assumes "aead_ok C" and "sends_all net" and "sessions_ok rms rss" and "stream_ok ms e"
    and "encode_all alac (ms_samples_per_packet ms) (ms_quality ms) (full_blocks (ms_rawbuf_size ms) (ms_input_buffer ms)) e = Some (ps, e')"
  shows "\<exists>ms' ds. write_loop C alac fresh net rms ms rss log = Inr (ms', rss, log @ ds)
     \<and> stream_ok ms' e' \<and> ms_input_buffer ms' = left_over (ms_rawbuf_size ms) (ms_input_buffer ms)
     \<and> progressed ms ms' (length ps) \<and> delivers C rms ms rss ps ds"
  using assms(4,5)
proof (induction "length (ms_input_buffer ms)" arbitrary: ms e ps log rule: less_induct)
  case less
  let ?n = "ms_rawbuf_size ms" and ?in = "ms_input_buffer ms"
  have pos: "0 < ?n" using less.prems(1) by (simp add: stream_ok_def)
  show ?case
  proof (cases "length ?in < ?n")
    case True
    then have "ps = []" "e' = e" using less.prems(2) by (auto simp: full_blocks_short)
    then show ?thesis
      using True less.prems(1)
      by (intro exI [of _ ms] exI [of _ "[]"])
        (simp add: write_loop.simps full_blocks_short progressed_refl delivers_Nil)
  next
    case False
    let ?ms1 = "ms\<lparr>ms_rawbuf := take ?n ?in, ms_input_buffer := drop ?n ?in,
                     ms_input_buffer_samples := ms_input_buffer_samples ms - ms_samples_per_packet ms\<rparr>"
    note blocks = full_blocks_step [OF pos, of ?in, unfolded not_less [symmetric], OF False]
    from less.prems(2) obtain p e1 ps' where
      enc: "alac e (take ?n ?in) (ms_samples_per_packet ms) (ms_quality ms) = (Some p, e1)"
        "encode_all alac (ms_samples_per_packet ms) (ms_quality ms) (full_blocks ?n (drop ?n ?in)) e1 = Some (ps', e')"
        "ps = p # ps'"
      by (auto simp: blocks split: prod.splits option.splits)
    have ok1: "stream_ok ?ms1 e" using less.prems(1) by (simp add: stream_ok_def)
    obtain ds ms2 where send: "packets_send C alac fresh net rms ?ms1 rss log = Inr (0, ms2, rss, log @ ds)"
      and ms2: "stream_ok ms2 e1" "progressed ?ms1 ms2 1" "delivers C rms ?ms1 rss [p] ds" "ms_input_buffer ms2 = drop ?n ?in"
      by (rule packets_send_delivers [where alac = alac, OF assms(1-3) ok1, of p e1]) (use enc(1) in auto)
    have prog: "progressed ms ms2 1" "delivers C rms ms rss [p] ds"
      using ms2(2,3) by (simp_all add: progressed_def delivers_def packet_header_def)
    have smaller: "length (ms_input_buffer ms2) < length ?in" using ms2(4) pos False by simp
    have enc2: "encode_all alac (ms_samples_per_packet ms2) (ms_quality ms2)
        (full_blocks (ms_rawbuf_size ms2) (ms_input_buffer ms2)) e1 = Some (ps', e')"
      using enc(2) prog(1) ms2(4) by (simp add: progressed_def)
    from less.hyps [OF smaller ms2(1) enc2, of "log @ ds"] obtain ms' ds' where
      rest: "write_loop C alac fresh net rms ms2 rss (log @ ds) = Inr (ms', rss, log @ ds @ ds')"
        "stream_ok ms' e'" "ms_input_buffer ms' = left_over (ms_rawbuf_size ms2) (ms_input_buffer ms2)"
        "progressed ms2 ms' (length ps')" "delivers C rms ms2 rss ps' ds'"
      by auto
    have "write_loop C alac fresh net rms ms rss log = Inr (ms', rss, log @ ds @ ds')"
      using False pos send rest(1) by (simp add: write_loop.simps [of C alac fresh net rms ms])
    moreover have "delivers C rms ms rss ps (ds @ ds')"
      using delivers_append [OF prog(2) _ rest(5)] prog(1) by (simp add: enc(3))
    moreover have "progressed ms ms' (length ps)"
      using progressed_trans [OF prog(1) rest(4)] by (simp add: enc(3))
    moreover have "ms_input_buffer ms' = left_over ?n ?in"
      using rest(3) ms2(4) prog(1) blocks(2) by (simp add: progressed_def)
    ultimately show ?thesis using rest(2) by blast
  qed
qed

lemma sync_packet_ok_next: "sync_packet_ok s \<Longrightarrow> sync_packet_ok (rtp_sync_packet_next ntp_frac fresh s stamp ty)"
  by (auto simp: sync_packet_ok_def rtp_sync_packet_next_def Let_def RTCP_SYNC_PACKET_LEN_def codec_simps split: option.splits)

lemma sync_packet_next_data:
  "sync_packet_ok s \<Longrightarrow> \<exists>d. pkt_data (sync_packet_next (rtp_sync_packet_next ntp_frac fresh s stamp ty)) = Some d
     \<and> length d = RTCP_SYNC_PACKET_LEN
     \<and> pkt_data_len (sync_packet_next (rtp_sync_packet_next ntp_frac fresh s stamp ty)) = RTCP_SYNC_PACKET_LEN"
  by (auto simp: sync_packet_ok_def rtp_sync_packet_next_def Let_def RTCP_SYNC_PACKET_LEN_def codec_simps split: option.splits)

lemma sync_send_loop_log:
  assumes "rtp_inv s" and "sync_packet_ok s"
  shows "\<exists>s' ds. sync_send_loop ntp_frac fresh rms stamp b rss s log = Inr (s', log @ ds)
     \<and> rtp_inv s' \<and> sync_packet_ok s' \<and> seqnum s' = seqnum s \<and> pos s' = pos s \<and> ssrc_id s' = ssrc_id s
     \<and> quality s' = quality s \<and> (\<forall>d \<in> set ds. \<forall>fd. fst d \<noteq> Connected_socket fd)"
  using assms
proof (induction rss arbitrary: s log)
  case Nil
  then show ?case by (intro exI [of _ s] exI [of _ "[]"]) simp
next
  case (Cons rs rss)
  have skip: ?case if "sync_send_loop ntp_frac fresh rms stamp b (rs # rss) s log = sync_send_loop ntp_frac fresh rms stamp b rss s log"
    unfolding that by (rule Cons.IH [OF Cons.prems])
  have send: ?case if "sync_send_loop ntp_frac fresh rms stamp b (rs # rss) s log =
      bind_res (control_packet_send rs (sync_packet_next (rtp_sync_packet_next ntp_frac fresh s stamp ty)) log)
        (\<lambda>log1. sync_send_loop ntp_frac fresh rms stamp b rss (rtp_sync_packet_next ntp_frac fresh s stamp ty) log1)" for ty
  proof -
    let ?s1 = "rtp_sync_packet_next ntp_frac fresh s stamp ty"
    obtain ds1 where ds1: "control_packet_send rs (sync_packet_next ?s1) log = Inr (log @ ds1)"
        "\<forall>d \<in> set ds1. \<forall>fd. fst d \<noteq> Connected_socket fd"
      using sync_packet_next_data [OF Cons.prems(2), of ntp_frac fresh stamp ty]
      by (cases "rs_family rs = AF_OTHER") (auto simp: control_packet_send_def)
    have fields: "seqnum ?s1 = seqnum s" "pos ?s1 = pos s" "ssrc_id ?s1 = ssrc_id s" "quality ?s1 = quality s"
      by (simp_all add: rtp_sync_packet_next_def Let_def)
    from Cons.IH [OF rtp_inv_sync_packet [OF Cons.prems(1), of ntp_frac fresh stamp ty] sync_packet_ok_next [OF Cons.prems(2)], of "log @ ds1"]
    obtain s' ds2 where "sync_send_loop ntp_frac fresh rms stamp b rss ?s1 (log @ ds1) = Inr (s', (log @ ds1) @ ds2)"
      "rtp_inv s' \<and> sync_packet_ok s' \<and> seqnum s' = seqnum s \<and> pos s' = pos s \<and> ssrc_id s' = ssrc_id s
        \<and> quality s' = quality s" "\<forall>d \<in> set ds2. \<forall>fd. fst d \<noteq> Connected_socket fd"
      unfolding fields by blast
    then show ?thesis
      using ds1 that by (intro exI [of _ s'] exI [of _ "ds1 @ ds2"]) auto
  qed
  show ?case
    using skip send by (auto simp: Let_def simp del: fun_upd_apply)
qed

lemma packets_sync_send_log:
  assumes "stream_ok ms e"
  obtains ms' ds where "packets_sync_send ntp_frac fresh rms ms rss log = Inr (ms', log @ ds)"
    and "stream_ok ms' e" and "progressed ms ms' 0" and "ms_input_buffer ms' = ms_input_buffer ms"
    and "delivers C rms ms rss [] ds"
proof -
  obtain b s where s: "rtp_sync_is_time (ms_rtp_session ms) = (b, s)" by (cases "rtp_sync_is_time (ms_rtp_session ms)")
  then have fields: "seqnum s = seqnum (ms_rtp_session ms)" "pos s = pos (ms_rtp_session ms)"
      "ssrc_id s = ssrc_id (ms_rtp_session ms)" "quality s = quality (ms_rtp_session ms)"
      "sync_packet_next s = sync_packet_next (ms_rtp_session ms)"
    by (auto simp: rtp_sync_is_time_def split: if_splits)
  have "rtp_inv s" using rtp_inv_sync [of "ms_rtp_session ms"] assms s by (simp add: stream_ok_def)
  moreover have "sync_packet_ok s"
    using assms sync_packet_ok_cong [OF fields(5)] by (simp add: stream_ok_def)
  ultimately obtain s' ds where loop: "sync_send_loop ntp_frac fresh rms (ms_cur_stamp ms) b rss s log = Inr (s', log @ ds)"
      "rtp_inv s'" "sync_packet_ok s'" "seqnum s' = seqnum s" "pos s' = pos s" "ssrc_id s' = ssrc_id s"
      "quality s' = quality s" "\<forall>d \<in> set ds. \<forall>fd. fst d \<noteq> Connected_socket fd"
    using sync_send_loop_log by blast
  show ?thesis
  proof (rule that [of "ms\<lparr>ms_rtp_session := s'\<rparr>" ds])
    show "packets_sync_send ntp_frac fresh rms ms rss log = Inr (ms\<lparr>ms_rtp_session := s'\<rparr>, log @ ds)"
      using s loop(1) by (simp add: packets_sync_send_def)
    show "delivers C rms ms rss [] ds"
      by (rule delivers_Nil) (use loop(8) in \<open>auto simp: filter_empty_conv\<close>)
  qed (use assms loop fields in \<open>simp_all add: stream_ok_def progressed_def\<close>)
qed

text \<open>The bytes of a buffer that are meant for a master session.\<close>

definition matching :: "media_quality \<Rightarrow> output_data list \<Rightarrow> bytes" where
  "matching q obuf = concat (map od_buffer (filter (\<lambda>od. od_quality od = q) obuf))"

lemma write_data_delivers:
  assumes "aead_ok C" and "sends_all net" and "sessions_ok rms rss" and "stream_ok ms e"
    and "encode_all alac (ms_samples_per_packet ms) (ms_quality ms)
        (full_blocks (ms_rawbuf_size ms) (ms_input_buffer ms @ matching (quality (ms_rtp_session ms)) obuf)) e = Some (ps, e')"
    and "length (ms_input_buffer ms) < ms_rawbuf_size ms"
  shows "\<exists>ms' ds. write_data C alac ntp_frac fresh net pts obuf rms ms rss log = Inr (ms', rss, log @ ds)
     \<and> stream_ok ms' e' \<and> ms_input_buffer ms' = left_over (ms_rawbuf_size ms) (ms_input_buffer ms @ matching (quality (ms_rtp_session ms)) obuf)
     \<and> progressed ms ms' (length ps) \<and> delivers C rms ms rss ps ds"
  using assms(4-6)
proof (induction obuf arbitrary: ms e ps log)
  case Nil
  then have "ps = []" "e' = e" by (auto simp: matching_def full_blocks_short)
  with Nil show ?case
    by (intro exI [of _ ms] exI [of _ "[]"]) (simp add: matching_def full_blocks_short progressed_refl delivers_Nil)
next
  case (Cons od obuf)
  let ?n = "ms_rawbuf_size ms" and ?q = "quality (ms_rtp_session ms)"
  show ?case
  proof (cases "od_quality od = ?q")
    case False
    then show ?thesis
      using Cons.IH [OF Cons.prems(1) _ Cons.prems(3), of ps log] Cons.prems(2) by (simp add: matching_def)
  next
    case True
    have pos: "0 < ?n" using Cons.prems(1) by (simp add: stream_ok_def)
    have ts: "stream_ok (timestamp_set pts ms) e" using Cons.prems(1) by (simp add: stream_ok_def timestamp_set_def)
    obtain ms1 ds1 where sync: "packets_sync_send ntp_frac fresh rms (timestamp_set pts ms) rss log = Inr (ms1, log @ ds1)"
      and ms1: "stream_ok ms1 e" "progressed (timestamp_set pts ms) ms1 0" "ms_input_buffer ms1 = ms_input_buffer (timestamp_set pts ms)"
        "delivers C rms (timestamp_set pts ms) rss [] ds1"
      by (rule packets_sync_send_log [OF ts])
    let ?ms2 = "ms1\<lparr>ms_input_buffer := ms_input_buffer ms1 @ od_buffer od,
                 ms_input_buffer_samples := ms_input_buffer_samples ms1 + od_samples od\<rparr>"
    have prog: "progressed ms ?ms2 0" "delivers C rms ms rss [] ds1"
      using ms1(2,4) by (simp_all add: progressed_def timestamp_set_def delivers_def)
    have eqs: "ms_rawbuf_size ?ms2 = ?n" "ms_samples_per_packet ?ms2 = ms_samples_per_packet ms"
        "ms_quality ?ms2 = ms_quality ms" "ms_input_buffer ?ms2 = ms_input_buffer ms @ od_buffer od"
      using prog(1) ms1(3) by (simp_all add: progressed_def timestamp_set_def)
    have match: "matching ?q (od # obuf) = od_buffer od @ matching ?q obuf" using True by (simp add: matching_def)
    note cut = full_blocks_append [OF pos, of "ms_input_buffer ms @ od_buffer od" "matching ?q obuf", unfolded append_assoc]
    obtain ps1 e1 ps2 where enc: "encode_all alac (ms_samples_per_packet ms) (ms_quality ms) (full_blocks ?n (ms_input_buffer ms @ od_buffer od)) e = Some (ps1, e1)"
        "encode_all alac (ms_samples_per_packet ms) (ms_quality ms)
           (full_blocks ?n (left_over ?n (ms_input_buffer ms @ od_buffer od) @ matching ?q obuf)) e1 = Some (ps2, e')" "ps = ps1 @ ps2"
      using Cons.prems(2) cut by (auto simp: match encode_all_append)
    have "stream_ok ?ms2 e" using ms1(1) by (simp add: stream_ok_def)
    from write_loop_delivers [OF assms(1-3) this enc(1) [folded eqs], of fresh "log @ ds1"] obtain ms3 ds2 where
      loop: "write_loop C alac fresh net rms ?ms2 rss (log @ ds1) = Inr (ms3, rss, (log @ ds1) @ ds2)"
        "stream_ok ms3 e1" "ms_input_buffer ms3 = left_over ?n (ms_input_buffer ms @ od_buffer od)"
        "progressed ?ms2 ms3 (length ps1)" "delivers C rms ?ms2 rss ps1 ds2"
      unfolding eqs by blast
    have eqs3: "ms_rawbuf_size ms3 = ?n" "ms_samples_per_packet ms3 = ms_samples_per_packet ms" "ms_quality ms3 = ms_quality ms"
        "quality (ms_rtp_session ms3) = ?q"
      using loop(4) prog(1) by (simp_all add: progressed_def)
    have short3: "length (ms_input_buffer ms3) < ms_rawbuf_size ms3"
      unfolding loop(3) eqs3 by (rule length_left_over [OF pos])
    have enc3: "encode_all alac (ms_samples_per_packet ms3) (ms_quality ms3)
        (full_blocks (ms_rawbuf_size ms3) (ms_input_buffer ms3 @ matching (quality (ms_rtp_session ms3)) obuf)) e1 = Some (ps2, e')"
      using enc(2) unfolding eqs3 loop(3) .
    from Cons.IH [OF loop(2) enc3 short3, of "(log @ ds1) @ ds2"] obtain ms' ds3 where
      rest: "write_data C alac ntp_frac fresh net pts obuf rms ms3 rss ((log @ ds1) @ ds2) = Inr (ms', rss, ((log @ ds1) @ ds2) @ ds3)"
        "stream_ok ms' e'" "ms_input_buffer ms' = left_over ?n (ms_input_buffer ms3 @ matching ?q obuf)"
        "progressed ms3 ms' (length ps2)" "delivers C rms ms3 rss ps2 ds3"
      unfolding eqs3 by blast
    have prog3: "progressed ms ms3 (length ps1)" using progressed_trans [OF prog(1) loop(4)] by simp
    have "write_data C alac ntp_frac fresh net pts (od # obuf) rms ms rss log = Inr (ms', rss, log @ ds1 @ ds2 @ ds3)"
      using True sync loop(1) rest(1) by simp
    moreover have "delivers C rms ms rss ps (ds1 @ ds2 @ ds3)"
      using delivers_append [OF delivers_append [OF prog(2) _ loop(5)] _ rest(5)] prog(1) prog3 by (simp add: enc(3))
    moreover have "progressed ms ms' (length ps)" using progressed_trans [OF prog3 rest(4)] by (simp add: enc(3))
    ultimately show ?thesis
      using rest(2,3) cut by (auto simp: match loop(3))
  qed
qed

subsection \<open>Properties\<close>

lemma receives_joined [simp]: "receives rms (joined rs) = receives rms rs"
  by (simp add: receives_def joined_def)

lemma joined_simps [simp]:
  "rs_server_fd (joined rs) = rs_server_fd rs" "rs_packet_cipher_hd (joined rs) = rs_packet_cipher_hd rs"
  "joined (joined rs) = joined rs"
  by (simp_all add: joined_def)

lemma sessions_ok_joined: "sessions_ok rms rss \<Longrightarrow> sessions_ok rms (map joined rss)"
  by (auto simp: sessions_ok_def filter_map comp_def)

lemma packet_header_0x60: "(packet_header ms k)[1 := 0x60] = packet_header ms k"
  by (simp add: packet_header_def rtp_header_def AIRPLAY_RTP_PAYLOADTYPE_def)

lemma airplay_write_delivers:
  assumes "aead_ok C" and "sends_all net" and "sessions_ok rms rss" and "stream_ok ms e"
    and "length (ms_input_buffer ms) < ms_rawbuf_size ms"
    and "encode_all alac (ms_samples_per_packet ms) (ms_quality ms)
        (full_blocks (ms_rawbuf_size ms) (ms_input_buffer ms @ matching (quality (ms_rtp_session ms)) obuf)) e = Some (ps, e')"
  obtains ms' ds where "airplay_write C alac ntp_frac fresh net pts obuf [(rms, ms)] rss log = Inr ([(rms, ms')], map joined rss, log @ ds)"
    and "stream_ok ms' e'" and "ms_input_buffer ms' = left_over (ms_rawbuf_size ms) (ms_input_buffer ms @ matching (quality (ms_rtp_session ms)) obuf)"
    and "progressed ms ms' (length ps)" and "delivers C rms ms rss ps ds"
  using write_data_delivers [OF assms(1-4,6,5), of ntp_frac fresh pts log] by (auto simp: airplay_write_def)

text \<open>A sequence of writes, each with the time and the data the player gives.\<close>

fun airplay_writes ::
  "crypto \<Rightarrow> 'e encoder \<Rightarrow> (int \<Rightarrow> u32) \<Rightarrow> (nat \<Rightarrow> u8) \<Rightarrow> (nat \<Rightarrow> bytes \<Rightarrow> int) \<Rightarrow> (timespec \<times> output_data list) list
     \<Rightarrow> (nat \<times> 'e master_session) list \<Rightarrow> airplay_session list \<Rightarrow> datagrams
     \<Rightarrow> ((nat \<times> 'e master_session) list \<times> airplay_session list \<times> datagrams) res" where
  "airplay_writes C alac ntp_frac fresh net [] masters sessions log = Inr (masters, sessions, log)"
| "airplay_writes C alac ntp_frac fresh net ((pts, obuf) # ws) masters sessions log =
     bind_res (airplay_write C alac ntp_frac fresh net pts obuf masters sessions log) (\<lambda>(masters1, sessions1, log1).
       airplay_writes C alac ntp_frac fresh net ws masters1 sessions1 log1)"


text \<open>Joining. A session that has just connected counts as streaming after the next write, and every
  packet of this write has its marker bit set. But a write that fills no block sends it no packet at all:
  it counts as streaming all the same, and its first packet will have no marker.\<close>

lemma joining_session:
  assumes "aead_ok C" and "sends_all net" and "sessions_ok rms rss" and "stream_ok ms e"
    and "length (ms_input_buffer ms) < ms_rawbuf_size ms"
    and "encode_all alac (ms_samples_per_packet ms) (ms_quality ms)
        (full_blocks (ms_rawbuf_size ms) (ms_input_buffer ms @ matching (quality (ms_rtp_session ms)) obuf)) e = Some (ps, e')"
    and "rs \<in> set rss" and "rs_master_session rs = rms" and "rs_state rs = AIRPLAY_STATE_CONNECTED"
  shows "\<exists>ms' ds. airplay_write C alac ntp_frac fresh net pts obuf [(rms, ms)] rss log = Inr ([(rms, ms')], map joined rss, log @ ds)
     \<and> joined rs = rs\<lparr>rs_state := AIRPLAY_STATE_STREAMING\<rparr>
     \<and> received C rs ds = map (\<lambda>(k, p). Some ((packet_header ms k)[1 := 0xe0], p)) (enumerate 0 ps)
     \<and> (length (ms_input_buffer ms @ matching (quality (ms_rtp_session ms)) obuf) < ms_rawbuf_size ms \<longrightarrow> received C rs ds = [])"
proof -
  obtain ms' ds where one: "airplay_write C alac ntp_frac fresh net pts obuf [(rms, ms)] rss log = Inr ([(rms, ms')], map joined rss, log @ ds)"
    and ds: "delivers C rms ms rss ps ds"
    by (rule airplay_write_delivers [OF assms(1-6)])
  have "receives rms rs" "marker_byte rs = 0xe0"
    using assms(8,9) by (simp_all add: receives_def marker_byte_def)
  then have got: "received C rs ds = map (\<lambda>(k, p). Some ((packet_header ms k)[1 := 0xe0], p)) (enumerate 0 ps)"
    using ds assms(7) by (simp add: delivers_def)
  have "ps = []" if "length (ms_input_buffer ms @ matching (quality (ms_rtp_session ms)) obuf) < ms_rawbuf_size ms"
    using assms(6) full_blocks_short(1) [OF that] by simp
  with one got assms(9) show ?thesis by (auto simp: joined_def)
qed

text \<open>Sending again. When a session asks for the packet that was sent last, it gets one datagram, and
  this is the datagram it got before except for the second header byte, which is the one of the last
  session in the list that the packet went to. The nonce is the sequence number, so nothing else
  differs.\<close>

lemma resend_same_datagram:
  assumes "aead_ok C" and "sends_all net" and "sessions_ok rms rss" and "stream_ok ms e"
    and "alac e (ms_rawbuf ms) (ms_samples_per_packet ms) (ms_quality ms) = (Some payload, e')"
    and "rs \<in> set rss" and "receives rms rs"
  shows "\<exists>ms' ds d. packets_send C alac fresh net rms ms rss log = Inr (0, ms', rss, log @ ds)
     \<and> to_session rs ds = [d]
     \<and> packets_resend C fresh net (ms_rtp_session ms') (seqnum (ms_rtp_session ms)) 1 rs (log @ ds) =
         Inr (rs, log @ ds @ [(Connected_socket (rs_server_fd rs), d[1 := marker_byte (last (filter (receives rms) rss))])], False)"
proof -
  let ?s = "ms_rtp_session ms"
  from assms(3,4) have ok: "rtp_inv ?s" "ms_encode_ctx ms = Some e" "ms_encoded_buffer ms = []"
      "\<forall>rs \<in> set rss. receives rms rs \<longrightarrow> rs_packet_cipher_hd rs \<noteq> None"
      "distinct (map rs_server_fd (filter (receives rms) rss))"
    by (simp_all add: stream_ok_def sessions_ok_def)
  let ?h = "rtp_header ?s 0x60 0" and ?b = "marker_byte (last (filter (receives rms) rss))"
  obtain ds p where send: "packets_send C alac fresh net rms ms rss log = Inr (0, ms\<lparr>ms_encode_ctx := Some e',
        ms_encoded_buffer := [], ms_rtp_session := committed ?s p\<rparr>, rss, log @ ds)"
    and gets: "list_all2 (gets C (seqnum ?s) ?h payload) (filter (receives rms) rss) ds"
    and p: "packet_ok p" "pkt_seqnum p = seqnum ?s" "sendable p (?h[1 := last_marker rms rss 0x60]) payload"
    by (rule packets_send_gets [where alac = alac, OF assms(1,2) ok(1-3) assms(5) ok(4)])
  from assms(6,7) ok(4) obtain key where key: "rs_packet_cipher_hd rs = Some key" by auto
  let ?d = "datagram C key (seqnum ?s) ?h payload"
  have len: "length ?h = RTP_HEADER_LEN" by simp
  have "to_session rs ds = [?d[1 := marker_byte rs]]"
    using gets_to_session [OF gets ok(5)] assms(6,7) key datagram_marker [OF len] by simp
  moreover have "last_marker rms rss 0x60 = ?b"
    using assms(6,7) by (auto simp: last_marker_def filter_empty_conv)
  then have enc: "packet_encrypt C fresh p rs = Inr (Some (?d[1 := ?b]))"
    using packet_encrypt_datagram [OF assms(1) p(3) key, of fresh] p(2) datagram_marker [OF len] by simp
  have win: "rtp_inv (committed ?s p)" "rtp_window (committed ?s p) = take (pktbuf_size ?s) (p # rtp_window ?s)"
    by (rule committed_window [OF ok(1) p(1,2)])+
  have size: "0 < pktbuf_size ?s" using ok(1) by (simp add: rtp_inv_def)
  have one: "pktbuf_len (committed ?s p) = min (pktbuf_size ?s) (Suc (pktbuf_len ?s))" by (simp add: committed_def)
  have "unat (seqnum (committed ?s p) - seqnum ?s) = 1" by simp
  then have get: "rtp_packet_get (committed ?s p) (seqnum ?s) = Inr (Some (ring_slot (committed ?s p) 1))"
    using rtp_packet_get_eq [OF win(1), of "seqnum ?s"] one size by (simp add: Let_def)
  have "rtp_window (committed ?s p) ! 0 = p" using win(2) size by (cases "pktbuf_size ?s") simp_all
  then have ring: "pktbuf (committed ?s p) ! ring_slot (committed ?s p) 1 = p"
    using one size by (simp add: rtp_window_def nth_append del: upt_Suc)
  have "packets_resend C fresh net (committed ?s p) (seqnum ?s) 1 rs (log @ ds) =
      Inr (rs, log @ ds @ [(Connected_socket (rs_server_fd rs), ?d[1 := ?b])], False)"
    using enc get ring assms(2) by (simp add: packet_send_def Let_def sends_all_def)
  ultimately show ?thesis
    using send by (intro exI conjI) (assumption | simp)+
qed

text \<open>No encoder. A master session as \<open>master_session_make\<close> leaves it has no encoder context, since the
  setup is commented out: the first write of a full block in its quality dereferences a null pointer,
  whatever the sessions are.\<close>

lemma write_without_encoder:
  assumes "ms = master_session_new (rtp_session_new a b c (Some q) AIRPLAY_PACKET_BUFFER_SIZE 0) q rawbuf"
    and "0 < STOB AIRPLAY_SAMPLES_PER_PACKET (bits_per_sample q) (channels q)"
    and "nat (STOB AIRPLAY_SAMPLES_PER_PACKET (bits_per_sample q) (channels q)) \<le> length samples"
  shows "airplay_write C alac ntp_frac fresh net pts [\<lparr>od_quality = q, od_buffer = samples, od_samples = n\<rparr>] [(rms, ms)] rss log =
     Inl Null_deref"
proof -
  let ?ms = "timestamp_set pts ms"
  have ms: "ms_encode_ctx ms = None" "ms_input_buffer ms = []" "quality (ms_rtp_session ms) = q"
      "ms_rawbuf_size ms = nat (STOB AIRPLAY_SAMPLES_PER_PACKET (bits_per_sample q) (channels q))"
    by (simp_all add: assms(1) master_session_new_def rtp_session_new_def)
  let ?s = "snd (rtp_sync_is_time (ms_rtp_session ms))"
  have new: "ms_rtp_session ms = rtp_session_new a b c (Some q) AIRPLAY_PACKET_BUFFER_SIZE 0"
    by (simp add: assms(1) master_session_new_def)
  have "rtp_inv (ms_rtp_session ms)"
    unfolding new by (rule rtp_inv_new) (simp_all add: AIRPLAY_PACKET_BUFFER_SIZE_def)
  moreover have "sync_packet_ok (ms_rtp_session ms)"
    by (simp add: new sync_packet_ok_def rtp_session_new_def zero_packet_def)
  ultimately have s: "rtp_inv ?s" "sync_packet_ok ?s"
    using rtp_inv_sync sync_packet_ok_cong [of ?s "ms_rtp_session ms"] by (auto simp: rtp_sync_is_time_def)
  obtain s' ds where "sync_send_loop ntp_frac fresh rms (ms_cur_stamp ?ms) (fst (rtp_sync_is_time (ms_rtp_session ms))) rss ?s log = Inr (s', log @ ds)"
    using sync_send_loop_log [OF s] by blast
  then have sync: "packets_sync_send ntp_frac fresh rms ?ms rss log = Inr (?ms\<lparr>ms_rtp_session := s'\<rparr>, log @ ds)"
    by (simp add: packets_sync_send_def timestamp_set_def split_beta)
  let ?ms2 = "?ms\<lparr>ms_rtp_session := s', ms_input_buffer := samples, ms_input_buffer_samples := ms_input_buffer_samples ?ms + n\<rparr>"
  have "packets_send C alac fresh net rms ms2 rss' log' = Inl Null_deref" if "ms_encode_ctx ms2 = None" for ms2 rss' log'
    using that by (simp add: packets_send_def alac_encode_def)
  then have "write_loop C alac fresh net rms ?ms2 rss (log @ ds) = Inl Null_deref"
    using ms assms(2,3) by (subst write_loop.simps) (simp add: timestamp_set_def)
  then show ?thesis
    using sync ms by (simp add: airplay_write_def timestamp_set_def)
qed

end
