(* ===== verification/Airplay_Samples.thy ===== *)
theory Airplay_Samples
  imports Airplay_Stream Sample_Crypto
begin

text \<open>
  The theorems on the media path that have hypotheses, each applied to a concrete input at which they
  hold: two sessions of a device, 16 bit stereo in blocks of 1408 bytes, and a writer that gives 1500
  bytes.
\<close>

definition sample_quality :: media_quality where
  "sample_quality = \<lparr>sample_rate = 44100, bits_per_sample = 16, channels = 2, bit_rate = 0\<rparr>"

definition sample_airplay_session :: "airplay_state \<Rightarrow> int \<Rightarrow> airplay_session" where
  "sample_airplay_session st fd =
     \<lparr>rs_device_id = 1, rs_callback_id = 0, rs_master_session = 1, rs_ctrl = Some evrtsp_connection_new,
      rs_state = st, rs_next_seq = AIRPLAY_SEQ_ABORT, rs_statusflags = 0, rs_wanted_metadata = 0,
      rs_req_has_auth = False, rs_deferred = False, rs_reqs_in_flight = 0, rs_cseq = 1, rs_session_id = 1,
      rs_session_url = [], rs_session_uuid = [], rs_realm = None, rs_nonce = None, rs_password = None,
      rs_devname = [], rs_address = [], rs_family = AF_INET, rs_naddr = [127, 0, 0, 1], rs_volume = 0,
      rs_local_address = None, rs_data_port = 6000, rs_control_port = 6001, rs_events_port = 6002,
      rs_timing_port = 6003, rs_pair_type = PAIR_CLIENT_HOMEKIT_TRANSIENT,
      rs_pair_verify_ctx = None, rs_pair_setup_ctx = None, rs_shared_secret = [], rs_shared_secret_len = 0,
      rs_packet_cipher_hd = Some (replicate 32 7), rs_server_fd = fd\<rparr>"

definition sample_rtp :: rtp_session where
  "sample_rtp = rtp_session_new 1 2 65535 (Some sample_quality) 4 0"

definition sample_master :: "unit master_session" where
  "sample_master = (master_session_new sample_rtp sample_quality [])\<lparr>ms_encode_ctx := Some ()\<rparr>"

definition sample_alac :: "unit encoder" where
  "sample_alac e b n q = (Some [1, 2, 3], e)"

definition sample_net :: "nat \<Rightarrow> bytes \<Rightarrow> int" where
  "sample_net n d = int (length d)"

definition sample_sessions :: "airplay_session list" where
  "sample_sessions = [sample_airplay_session AIRPLAY_STATE_STREAMING 5, sample_airplay_session AIRPLAY_STATE_CONNECTED 6]"

definition sample_time :: timespec where "sample_time = \<lparr>tv_sec = 10, tv_nsec = 0\<rparr>"

definition sample_data :: "nat \<Rightarrow> output_data list" where
  "sample_data n = [\<lparr>od_quality = sample_quality, od_buffer = replicate n 5, od_samples = int (n div 4)\<rparr>]"

lemma sample_aead_ok: "aead_ok sample_crypto"
  using sample_crypto_ok by (simp add: crypto_ok_def)

lemma sample_sends_all: "sends_all sample_net"
  by (simp add: sends_all_def sample_net_def)

lemma sample_sessions_ok: "sessions_ok 1 sample_sessions"
  by (simp add: sessions_ok_def sample_sessions_def sample_airplay_session_def receives_def)

lemma sample_master_simps:
  "ms_rtp_session sample_master = sample_rtp" "ms_input_buffer sample_master = []"
  "ms_rawbuf_size sample_master = 1408" "ms_samples_per_packet sample_master = 352"
  "ms_quality sample_master = sample_quality" "quality sample_rtp = sample_quality" "ms_rawbuf sample_master = []"
  by (simp_all add: sample_master_def sample_rtp_def master_session_new_def STOB_def sample_quality_def
      AIRPLAY_SAMPLES_PER_PACKET_def rtp_session_new_def)

lemma sample_stream_ok: "stream_ok sample_master ()"
proof -
  have "rtp_inv sample_rtp" unfolding sample_rtp_def by (rule rtp_inv_new) simp_all
  moreover have "sync_packet_ok sample_rtp"
    by (simp add: sync_packet_ok_def sample_rtp_def rtp_session_new_def zero_packet_def)
  moreover have "ms_encode_ctx sample_master = Some ()" "ms_encoded_buffer sample_master = []"
    by (simp_all add: sample_master_def master_session_new_def)
  ultimately show ?thesis
    by (simp add: stream_ok_def sample_master_simps)
qed

lemma sample_encode:
  "encode_all sample_alac (ms_samples_per_packet sample_master) (ms_quality sample_master)
     (full_blocks (ms_rawbuf_size sample_master) (ms_input_buffer sample_master @ replicate 1500 5)) () = Some ([[1, 2, 3]], ())"
  by (simp add: sample_master_simps sample_alac_def full_blocks.simps [of 1408 "replicate 1500 5"] full_blocks_short)

lemma sample_matching: "matching (quality sample_rtp) (sample_data n) = replicate n 5"
  by (simp add: matching_def sample_data_def sample_master_simps)


theorem joining_session_witness:
  "\<exists>ms' ds. airplay_write sample_crypto sample_alac (\<lambda>_. 0) (\<lambda>_. 0) sample_net sample_time (sample_data 1500)
       [(1, sample_master)] sample_sessions [] = Inr ([(1, ms')], map joined sample_sessions, ds)
     \<and> received sample_crypto (sample_airplay_session AIRPLAY_STATE_CONNECTED 6) ds =
         [Some ((packet_header sample_master 0)[1 := 0xe0], [1, 2, 3])]"
proof -
  have "length (ms_input_buffer sample_master) < ms_rawbuf_size sample_master" by (simp add: sample_master_simps)
  moreover have "sample_airplay_session AIRPLAY_STATE_CONNECTED 6 \<in> set sample_sessions"
    "rs_master_session (sample_airplay_session AIRPLAY_STATE_CONNECTED 6) = 1"
    "rs_state (sample_airplay_session AIRPLAY_STATE_CONNECTED 6) = AIRPLAY_STATE_CONNECTED"
    by (simp_all add: sample_sessions_def sample_airplay_session_def)
  moreover have "matching (quality (ms_rtp_session sample_master)) (sample_data 1500) = replicate 1500 5"
    by (simp add: sample_master_simps(1) sample_matching)
  note data = this
  ultimately show ?thesis
    using joining_session [OF sample_aead_ok sample_sends_all sample_sessions_ok sample_stream_ok, where obuf = "sample_data 1500" and alac = sample_alac
        and log = "[]" and rs = "sample_airplay_session AIRPLAY_STATE_CONNECTED 6", unfolded data, OF _ sample_encode]
    by fastforce
qed

theorem resend_same_datagram_witness:
  "\<exists>ms' ds d. packets_send sample_crypto sample_alac (\<lambda>_. 0) sample_net 1 sample_master sample_sessions [] = Inr (0, ms', sample_sessions, ds)
     \<and> to_session (sample_airplay_session AIRPLAY_STATE_STREAMING 5) ds = [d]
     \<and> packets_resend sample_crypto (\<lambda>_. 0) sample_net (ms_rtp_session ms') 65535 1 (sample_airplay_session AIRPLAY_STATE_STREAMING 5) ds
       = Inr (sample_airplay_session AIRPLAY_STATE_STREAMING 5, ds @ [(Connected_socket 5, d[1 := 0xe0])], False)"
proof -
  have "sample_airplay_session AIRPLAY_STATE_STREAMING 5 \<in> set sample_sessions"
    "receives 1 (sample_airplay_session AIRPLAY_STATE_STREAMING 5)"
    "marker_byte (last (filter (receives 1) sample_sessions)) = 0xe0"
    "rs_server_fd (sample_airplay_session AIRPLAY_STATE_STREAMING 5) = 5"
    by (simp_all add: sample_sessions_def sample_airplay_session_def receives_def marker_byte_def)
  moreover have "seqnum (ms_rtp_session sample_master) = 65535"
    by (simp add: sample_master_simps sample_rtp_def rtp_session_new_def)
  moreover have "sample_alac () (ms_rawbuf sample_master) (ms_samples_per_packet sample_master) (ms_quality sample_master) = (Some [1, 2, 3], ())"
    by (simp add: sample_alac_def)
  ultimately show ?thesis
    using resend_same_datagram [OF sample_aead_ok sample_sends_all sample_sessions_ok sample_stream_ok, where log = "[]"
        and rs = "sample_airplay_session AIRPLAY_STATE_STREAMING 5" and alac = sample_alac] by fastforce
qed

theorem write_without_encoder_witness:
  "airplay_write sample_crypto sample_alac (\<lambda>_. 0) (\<lambda>_. 0) sample_net sample_time (sample_data 1500)
     [(1, master_session_new (rtp_session_new 1 2 3 (Some sample_quality) AIRPLAY_PACKET_BUFFER_SIZE 0) sample_quality [])]
     sample_sessions [] = Inl Null_deref"
proof -
  have "STOB AIRPLAY_SAMPLES_PER_PACKET (bits_per_sample sample_quality) (channels sample_quality) = 1408"
    by (simp add: STOB_def AIRPLAY_SAMPLES_PER_PACKET_def sample_quality_def)
  then show ?thesis
    unfolding sample_data_def by (intro write_without_encoder [OF refl]) simp_all
qed

end
