(* ===== verification/Rtsp_Parsing.thy ===== *)
theory Rtsp_Parsing
  imports Rtsp
begin

text \<open>
  The parser of responses: it always returns, it may be given its input in pieces, and it reads back
  the headers that \<open>evrtsp_make_header\<close> writes.
\<close>

subsection \<open>Line by line\<close>

lemma lines_induct [case_names no_line line]:
  assumes "\<And>buf. 10 \<notin> set buf \<Longrightarrow> P buf"
    and "\<And>l buf. 10 \<notin> set l \<Longrightarrow> P buf \<Longrightarrow> P (l @ 10 # buf)"
  shows "P (buf :: bytes)"
proof (induction buf rule: length_induct)
  case (1 buf)
  show ?case
  proof (cases "10 \<in> set buf")
    case True
    then obtain l r where "buf = l @ 10 # r" "10 \<notin> set l" by (meson split_list_first)
    with 1 assms(2) show ?thesis by simp
  qed (rule assms(1))
qed

lemma readln_crlf:
  assumes "readln_ok readln"
  shows "10 \<notin> set buf \<Longrightarrow> readln EVBUFFER_EOL_CRLF buf = None"
    and "10 \<notin> set l \<Longrightarrow> readln EVBUFFER_EOL_CRLF (l @ 10 # buf) = Some (strip_cr l, buf)"
  using assms by (simp_all add: readln_ok_def)

lemma readln_any:
  assumes "readln_ok readln"
  shows "\<forall>b \<in> set buf. \<not> is_eol b \<Longrightarrow> readln EVBUFFER_EOL_ANY buf = None"
    and "\<forall>c \<in> set l. \<not> is_eol c \<Longrightarrow> is_eol b \<Longrightarrow> readln EVBUFFER_EOL_ANY (l @ b # buf) = Some (l, dropWhile is_eol buf)"
  using assms by (simp_all add: readln_ok_def)

definition parse_headers :: "readln \<Rightarrow> headers \<Rightarrow> bytes \<Rightarrow> (message_read_status \<times> headers \<times> bytes) res" where
  "parse_headers readln hs buf = parse_headers_loop (Suc (length buf)) readln hs buf"

lemma loop_fuel:
  assumes "readln_ok readln"
  shows "length buf < n \<Longrightarrow> parse_headers_loop n readln hs buf = parse_headers readln hs buf"
proof (induction buf arbitrary: n hs rule: lines_induct)
  case (no_line buf)
  then show ?case by (cases n) (simp_all add: parse_headers_def readln_crlf(1) [OF assms])
next
  case (line l buf)
  obtain m where n: "n = Suc m" "length buf < m" using line(3) by (cases n) auto
  have "length buf < length (l @ 10 # buf)" by simp
  with line(2) n(2) have "parse_headers_loop m readln hs1 buf = parse_headers_loop (length (l @ 10 # buf)) readln hs1 buf" for hs1
    by metis
  then show ?case
    by (simp add: n(1) parse_headers_def readln_crlf(2) [OF assms line(1)] split: prod.split option.split)
qed

lemma parse_headers_simps:
  assumes "readln_ok readln"
  shows "10 \<notin> set buf \<Longrightarrow> parse_headers readln hs buf = Inr (MORE_DATA_EXPECTED, hs, buf)"
    and "10 \<notin> set l \<Longrightarrow> parse_headers readln hs (l @ 10 # buf) =
      (case parse_header_line hs (c_string (strip_cr l)) of
         (Some status, hs1) \<Rightarrow> Inr (status, hs1, buf)
       | (None, hs1) \<Rightarrow> parse_headers readln hs1 buf)"
proof -
  show "parse_headers readln hs buf = Inr (MORE_DATA_EXPECTED, hs, buf)" if "10 \<notin> set buf"
    using that by (simp add: parse_headers_def readln_crlf(1) [OF assms])
  show "parse_headers readln hs (l @ 10 # buf) = (case parse_header_line hs (c_string (strip_cr l)) of
         (Some status, hs1) \<Rightarrow> Inr (status, hs1, buf) | (None, hs1) \<Rightarrow> parse_headers readln hs1 buf)" if "10 \<notin> set l"
    using loop_fuel [OF assms, of buf "length (l @ 10 # buf)"]
    by (simp add: parse_headers_def [of _ _ "l @ 10 # buf"] readln_crlf(2) [OF assms that] split: prod.split option.split)
qed

text \<open>Nothing gets lost when the input is cut: what was not used is parsed again with the rest.\<close>

lemma parse_headers_append:
  assumes "readln_ok readln"
  shows "\<exists>status hs1 rest. parse_headers readln hs a = Inr (status, hs1, rest)
     \<and> (\<forall>b. parse_headers readln hs (a @ b) =
          (if status = MORE_DATA_EXPECTED then parse_headers readln hs1 (rest @ b) else Inr (status, hs1, rest @ b)))"
proof (induction a arbitrary: hs rule: lines_induct)
  case (no_line a)
  then show ?case by (simp add: parse_headers_simps(1) [OF assms])
next
  case (line l a)
  note eq = parse_headers_simps(2) [OF assms line(1)]
  obtain st hs1 where p: "parse_header_line hs (c_string (strip_cr l)) = (st, hs1)" by fastforce
  have "st \<noteq> Some MORE_DATA_EXPECTED"
    using p by (auto simp: parse_header_line_def split: list.splits if_splits prod.splits option.splits)
  with p line(2) [of hs1] show ?case
    by (cases st) (auto simp: eq)
qed

lemma evrtsp_parse_headers_eq:
  "evrtsp_parse_headers readln req buf =
     bind_res (parse_headers readln (rq_input_headers req) buf) (\<lambda>(status, hs, rest). Inr (status, req\<lparr>rq_input_headers := hs\<rparr>, rest))"
  by (simp add: evrtsp_parse_headers_def parse_headers_def)

lemma evrtsp_parse_headers_append:
  assumes "readln_ok readln"
  obtains status req1 rest where "evrtsp_parse_headers readln req a = Inr (status, req1, rest)"
    "\<And>b. evrtsp_parse_headers readln req (a @ b) =
       (if status = MORE_DATA_EXPECTED then evrtsp_parse_headers readln req1 (rest @ b) else Inr (status, req1, rest @ b))"
    "\<exists>hs. req1 = req\<lparr>rq_input_headers := hs\<rparr>"
proof -
  obtain status hs1 rest where p: "parse_headers readln (rq_input_headers req) a = Inr (status, hs1, rest)"
      "\<And>b. parse_headers readln (rq_input_headers req) (a @ b) =
          (if status = MORE_DATA_EXPECTED then parse_headers readln hs1 (rest @ b) else Inr (status, hs1, rest @ b))"
    using parse_headers_append [OF assms] by blast
  show thesis
    by (rule that [of status "req\<lparr>rq_input_headers := hs1\<rparr>" rest]) (auto simp: evrtsp_parse_headers_eq p)
qed

text \<open>The first line is different: its end must not be cut.\<close>

definition cut_ok :: "bytes \<Rightarrow> bytes \<Rightarrow> bool" where
  "cut_ok a b \<longleftrightarrow> b = [] \<or> \<not> is_eol (hd b) \<or> (\<forall>c \<in> set a. \<not> is_eol c)
     \<or> dropWhile is_eol (dropWhile (\<lambda>c. \<not> is_eol c) a) \<noteq> []"

lemma dropWhile_cut:
  assumes "cut_ok (l @ e # a) b" and "is_eol e" and "\<forall>c \<in> set l. \<not> is_eol c"
  shows "dropWhile is_eol (a @ b) = dropWhile is_eol a @ b"
proof (cases "\<forall>c \<in> set a. is_eol c")
  case True
  have "dropWhile (\<lambda>c. \<not> is_eol c) (l @ e # a) = e # a" using assms(2,3) by (induction l) auto
  then have "dropWhile is_eol b = b" using assms True by (cases b) (auto simp: cut_ok_def)
  then show ?thesis using True by (simp add: dropWhile_append)
next
  case False
  then show ?thesis by (meson dropWhile_append1)
qed

lemma evrtsp_parse_firstline_append:
  assumes "readln_ok readln" and "cut_ok a b"
  obtains status req1 rest where "evrtsp_parse_firstline readln req a = (status, req1, rest)"
    "evrtsp_parse_firstline readln req (a @ b) =
       (if status = MORE_DATA_EXPECTED then evrtsp_parse_firstline readln req1 (rest @ b) else (status, req1, rest @ b))"
    "status = MORE_DATA_EXPECTED \<Longrightarrow> rest = a \<and> req1 = req"
proof (cases "\<exists>c \<in> set a. is_eol c")
  case True
  then obtain l e r where a: "a = l @ e # r" "is_eol e" "\<forall>c \<in> set l. \<not> is_eol c"
    using split_list_first_prop [OF True] by auto
  have "dropWhile is_eol (r @ b) = dropWhile is_eol r @ b"
    by (rule dropWhile_cut [OF assms(2) [unfolded a(1)] a(2,3)])
  then have "readln EVBUFFER_EOL_ANY (a @ b) = Some (l, dropWhile is_eol r @ b)"
      "readln EVBUFFER_EOL_ANY a = Some (l, dropWhile is_eol r)"
    using readln_any(2) [OF assms(1) a(3,2)] by (simp_all add: a(1))
  then have eq: "evrtsp_parse_firstline readln req (a @ b) =
        (case evrtsp_parse_firstline readln req a of (st, req1, rest) \<Rightarrow> (st, req1, rest @ b))"
      "fst (evrtsp_parse_firstline readln req a) \<noteq> MORE_DATA_EXPECTED"
    by (simp_all add: evrtsp_parse_firstline_def split: prod.split evrtsp_request_kind.split)
  obtain st req1 rest where "evrtsp_parse_firstline readln req a = (st, req1, rest)"
    using prod_cases3 by blast
  with eq show ?thesis by (intro that [of st req1 rest]) simp_all
next
  case False
  then show ?thesis
    by (intro that [of MORE_DATA_EXPECTED req a]) (simp_all add: evrtsp_parse_firstline_def readln_any(1) [OF assms(1)])
qed

subsection \<open>Headers that are read as they were written\<close>

definition header_ok :: "bytes \<times> bytes \<Rightarrow> bool" where
  "header_ok h \<longleftrightarrow> (case h of (k, v) \<Rightarrow>
       k \<noteq> [] \<and> hd k \<noteq> 32 \<and> hd k \<noteq> 9 \<and> set k \<inter> {0, 10, 13, 58} = {}
     \<and> set v \<inter> {0, 10, 13} = {} \<and> (v = [] \<or> hd v \<noteq> 32))"

lemma takeWhile_dropWhile_all: "d \<notin> set k \<Longrightarrow> takeWhile (\<lambda>b. b \<noteq> d) (k @ d # r) = k"
  "d \<notin> set k \<Longrightarrow> dropWhile (\<lambda>b. b \<noteq> d) (k @ d # r) = d # r"
  "d \<notin> set k \<Longrightarrow> dropWhile (\<lambda>b. b \<noteq> d) k = []" "d \<notin> set k \<Longrightarrow> takeWhile (\<lambda>b. b \<noteq> d) k = k"
  by (induction k) auto

lemma strsep_first: "d \<notin> set k \<Longrightarrow> strsep d (k @ d # r) = (k, Some r)" "d \<notin> set k \<Longrightarrow> strsep d k = (k, None)"
  by (simp_all add: strsep_def takeWhile_dropWhile_all)

lemma valid_value_no_eol: "\<forall>b \<in> set v. \<not> is_eol b \<Longrightarrow> evrtsp_header_is_valid_value v"
proof -
  assume "\<forall>b \<in> set v. \<not> is_eol b"
  then have "dropWhile (\<lambda>b. \<not> is_eol b) v = []" by (simp only: dropWhile_eq_Nil_conv)
  then show ?thesis by (simp only: evrtsp_header_is_valid_value.simps [of v] list.case)
qed

lemma str_colon: "str '': '' = [58, 32]"
  by (simp add: str_def)

lemma parse_header_line_ok:
  assumes "header_ok (k, v)"
  shows "parse_header_line hs (k @ str '': '' @ v) = (None, hs @ [(k, v)])"
proof -
  obtain c cs where k: "k = c # cs" using assms by (cases k) (simp_all add: header_ok_def)
  have "strsep 58 (k @ 58 # 32 # v) = (k, Some (32 # v))"
    using assms by (intro strsep_first) (simp add: header_ok_def)
  moreover have "dropWhile (\<lambda>b. b = 32) v = v" using assms by (cases v) (simp_all add: header_ok_def)
  moreover have "\<forall>b \<in> set k. \<not> is_eol b" "\<forall>b \<in> set v. \<not> is_eol b" using assms by (auto simp: header_ok_def is_eol_def)
  ultimately show ?thesis
    using assms by (auto simp: parse_header_line_def k str_colon evrtsp_add_header_def valid_value_no_eol
        evrtsp_add_header_internal_def header_ok_def)
qed

lemma strip_cr_snoc [simp]: "strip_cr (l @ [13]) = l"
  by (simp add: strip_cr_def)

lemma parse_headers_lines:
  assumes "readln_ok readln"
  shows "\<forall>h \<in> set new. header_ok h \<Longrightarrow>
     parse_headers readln hs (concat (map header_line new) @ [13, 10] @ rest) = Inr (ALL_DATA_READ, hs @ new, rest)"
proof (induction new arbitrary: hs)
  case Nil
  have "parse_headers readln hs ([13] @ 10 # rest) = Inr (ALL_DATA_READ, hs, rest)"
    by (subst parse_headers_simps(2) [OF assms])
      (simp_all add: strip_cr_snoc [of "[]", simplified] c_string_def parse_header_line_def)
  then show ?case by simp
next
  case (Cons h new)
  obtain k v where h: "h = (k, v)" "header_ok (k, v)" using Cons.prems by (cases h) auto
  let ?l = "k @ str '': '' @ v"
  have no: "0 \<notin> set ?l" "10 \<notin> set (?l @ [13])" using h(2) by (auto simp: header_ok_def str_colon)
  have "concat (map header_line (h # new)) @ [13, 10] @ rest = (?l @ [13]) @ 10 # (concat (map header_line new) @ [13, 10] @ rest)"
    by (simp add: header_line_def h(1))
  also have "parse_headers readln hs \<dots> = parse_headers readln (hs @ [h]) (concat (map header_line new) @ [13, 10] @ rest)"
    unfolding parse_headers_simps(2) [OF assms no(2)] strip_cr_snoc c_string_no_zero [OF no(1)] parse_header_line_ok [OF h(2)]
    by (simp add: h(1))
  finally show ?case using Cons by simp
qed

lemma find_header_append:
  "evrtsp_find_header (hs @ hs1) key = (case evrtsp_find_header hs key of None \<Rightarrow> evrtsp_find_header hs1 key | Some v \<Rightarrow> Some v)"
  by (induction hs) auto

text \<open>The header the request is given for its body.\<close>

definition content_length :: "bytes \<Rightarrow> bytes \<times> bytes" where
  "content_length body = (str ''Content-Length'', print_int (int (length body)))"

lemma content_length_ok: "header_ok (content_length body)"
  using dec_digits_range [of _ "length body"]
  by (cases "dec_digits (length body)") (fastforce simp: header_ok_def content_length_def str_def print_int_def)+

lemma make_header_request_headers:
  "rq_output_headers (snd (evrtsp_make_header_request req)) = rq_output_headers req
     @ (if rq_output_buffer req \<noteq> [] \<and> evrtsp_find_header (rq_output_headers req) (str ''Content-Length'') = None
        then [content_length (rq_output_buffer req)] else [])"
proof -
  have "\<forall>b \<in> set (print_int (int n)). \<not> is_eol b" "\<forall>b \<in> set (str ''Content-Length''). \<not> is_eol b" for n
    using dec_digits_range [of _ n] by (fastforce simp: is_eol_def str_def print_int_def)+
  then show ?thesis
    by (auto simp: evrtsp_make_header_request_def evrtsp_add_header_def valid_value_no_eol evrtsp_add_header_internal_def
        content_length_def)
qed

text \<open>A request and its reader. Whoever reads what \<open>evrtsp_make_header\<close> writes, first a line and then
  headers with \<open>evrtsp_parse_headers\<close>, finds the request line, exactly the headers of the request, and
  after them exactly the body. A body that has no length header of the caller's gets one whose value,
  as \<open>evrtsp_get_body_length\<close> reads it, is the number of its bytes.\<close>

lemma make_header_roundtrip:
  assumes "readln_ok readln" and "\<forall>h \<in> set (rq_output_headers req). header_ok h"
    and "rq_uri req = Some uri" and "10 \<notin> set uri" and "evrtsp_make_header req = (msg, req1)"
    and "int (length (rq_output_buffer req)) < 2 ^ 63" and "rq_input_headers peer = []"
  shows "\<exists>line rest hs. readln EVBUFFER_EOL_CRLF msg = Some (line, rest)
     \<and> line = evrtsp_method (rq_type req) @ str '' '' @ uri @ str '' RTSP/'' @ print_int (rq_major req) @ str ''.''
         @ print_int (rq_minor req)
     \<and> evrtsp_parse_headers readln peer rest = Inr (ALL_DATA_READ, peer\<lparr>rq_input_headers := rq_output_headers req @ hs\<rparr>, rq_output_buffer req)
     \<and> (evrtsp_find_header (rq_output_headers req) (str ''Content-Length'') = None \<longrightarrow>
          (\<exists>req2. evrtsp_get_body_length (peer\<lparr>rq_input_headers := rq_output_headers req @ hs\<rparr>) = (0, req2)
             \<and> rq_ntoread req2 = int (length (rq_output_buffer req))))"
proof -
  let ?body = "rq_output_buffer req" and ?hs = "rq_output_headers req"
  let ?line = "evrtsp_method (rq_type req) @ str '' '' @ uri @ str '' RTSP/'' @ print_int (rq_major req) @ str ''.'' @ print_int (rq_minor req)"
  let ?new = "if ?body \<noteq> [] \<and> evrtsp_find_header ?hs (str ''Content-Length'') = None then [content_length ?body] else []"
  let ?rest = "concat (map header_line (?hs @ ?new)) @ [13, 10] @ ?body"
  have "10 \<notin> set (evrtsp_method ty)" for ty by (cases ty) (simp_all add: str_def)
  moreover have "10 \<notin> set (print_int i)" for i
    using dec_digits_range [of 10 "nat i"] dec_digits_range [of 10 "nat (- i)"] by (auto simp: print_int_def)
  ultimately have line: "10 \<notin> set (?line @ [13])" using assms(4) by (simp add: str_def)
  have buf: "rq_output_buffer (snd (evrtsp_make_header_request req)) = ?body" by (simp add: evrtsp_make_header_request_def)
  have "msg = fst (evrtsp_make_header_request req) @ concat (map header_line (?hs @ ?new)) @ [13, 10] @ ?body"
    using assms(5) make_header_request_headers [of req] buf
    by (cases "evrtsp_make_header_request req") (auto simp: evrtsp_make_header_def)
  then have msg: "msg = (?line @ [13]) @ 10 # ?rest"
    by (simp add: evrtsp_make_header_request_def assms(3))
  have read: "readln EVBUFFER_EOL_CRLF msg = Some (?line, ?rest)"
    unfolding msg readln_crlf(2) [OF assms(1) line] by (simp only: strip_cr_snoc)
  have "\<forall>h \<in> set (?hs @ ?new). header_ok h" using assms(2) content_length_ok by auto
  then have parse: "evrtsp_parse_headers readln peer ?rest = Inr (ALL_DATA_READ, peer\<lparr>rq_input_headers := ?hs @ ?new\<rparr>, ?body)"
    using parse_headers_lines [OF assms(1), of "?hs @ ?new" "[]" ?body] by (simp add: evrtsp_parse_headers_eq assms(7))
  have "evrtsp_find_header (?hs @ ?new) (str ''Content-Length'') = (if ?body = [] then None else Some (dec_digits (length ?body)))"
    if "evrtsp_find_header ?hs (str ''Content-Length'') = None"
    using that by (simp add: find_header_append content_length_def strcasecmp_eq_def print_int_def)
  then have get: "\<exists>req2. evrtsp_get_body_length (peer\<lparr>rq_input_headers := ?hs @ ?new\<rparr>) = (0, req2) \<and> rq_ntoread req2 = int (length ?body)"
    if "evrtsp_find_header ?hs (str ''Content-Length'') = None"
    using that strtoll10_dec_digits [OF assms(6)] by (simp add: evrtsp_get_body_length_def)
  show ?thesis
    by (rule exI, rule exI, rule exI, intro conjI impI, rule read, rule refl, rule parse, erule get)
qed

end
