(* ===== verification/Rtsp_Runs.thy ===== *)
theory Rtsp_Runs
  imports Rtsp_Connection Rtsp_Parsing
begin

text \<open>
  Runs of a connection: libevent calls the function of an event only when the event is pending. In
  every run the connection's state, its events and its queue fit together, no assertion fails, and
  the requests get their callbacks in the order in which they were made.
\<close>

subsection \<open>Runs\<close>

datatype 'k rtsp_event =
  Request rtsp_request evrtsp_cmd_type bytes | Connection connect_result | Writable "int option"
| Readable read_result | Closing | Set_closecb bool | Set_ciphercb "'k option"

definition waits :: "ev_function \<Rightarrow> 'k connection \<Rightarrow> bool" where
  "waits ev cn \<longleftrightarrow> map_option fst (cn_ev cn) = Some ev"

text \<open>Requests are new when they are made; the other events must be pending.\<close>

fun enabled :: "'k rtsp_event \<Rightarrow> 'k connection \<Rightarrow> bool" where
  "enabled (Request req ty uri) cn = (rq_cb req \<and> \<not> rq_evcon req)"
| "enabled (Connection r) cn = waits Ev_connect cn"
| "enabled (Writable n) cn = waits Ev_write cn"
| "enabled (Readable r) cn = waits Ev_read cn"
| "enabled Closing cn = cn_close_ev cn"
| "enabled (Set_closecb cb) cn = True"
| "enabled (Set_ciphercb k) cn = True"

text \<open>An event that fires is not pending any more.\<close>

fun rtsp_do :: "readln \<Rightarrow> 'k ciphercb \<Rightarrow> dial \<Rightarrow> 'k rtsp_event \<Rightarrow> 'k connection \<Rightarrow> 'k connection res" where
  "rtsp_do readln ciph d (Request req ty uri) cn =
     bind_res (evrtsp_make_request ciph d cn req ty uri) (\<lambda>(ret, cn1). Inr cn1)"
| "rtsp_do readln ciph d (Connection r) cn = evrtsp_connectioncb ciph r (cn\<lparr>cn_ev := None\<rparr>)"
| "rtsp_do readln ciph d (Writable n) cn = evrtsp_write d n (cn\<lparr>cn_ev := None\<rparr>)"
| "rtsp_do readln ciph d (Readable r) cn = evrtsp_read readln ciph d r (cn\<lparr>cn_ev := None\<rparr>)"
| "rtsp_do readln ciph d Closing cn = Inr (evrtsp_detect_close_cb (cn\<lparr>cn_close_ev := False\<rparr>))"
| "rtsp_do readln ciph d (Set_closecb cb) cn = Inr (evrtsp_connection_set_closecb cb cn)"
| "rtsp_do readln ciph d (Set_ciphercb k) cn = Inr (evrtsp_connection_set_ciphercb k cn)"

inductive rtsp_run :: "readln \<Rightarrow> 'k ciphercb \<Rightarrow> 'k connection \<Rightarrow> (dial \<times> 'k rtsp_event) list \<Rightarrow> 'k connection \<Rightarrow> bool"
  for readln :: readln and ciph :: "'k ciphercb" where
  run_Nil: "rtsp_run readln ciph cn [] cn"
| run_Cons: "enabled e cn \<Longrightarrow> rtsp_do readln ciph d e cn = Inr cn1 \<Longrightarrow> rtsp_run readln ciph cn1 es cn2
     \<Longrightarrow> rtsp_run readln ciph cn ((d, e) # es) cn2"

inductive_cases rtsp_run_NilE [elim!]: "rtsp_run readln ciph cn [] cn'"
inductive_cases rtsp_run_ConsE [elim!]: "rtsp_run readln ciph cn (x # es) cn'"

fun made :: "'k rtsp_event \<Rightarrow> nat list" where
  "made (Request req ty uri) = [rq_id req]"
| "made _ = []"

fun called1 :: "history \<Rightarrow> nat list" where
  "called1 (Called i r) = [i]"
| "called1 _ = []"

definition called :: "history list \<Rightarrow> nat list" where
  "called log = concat (map called1 log)"

lemma called_simps [simp]: "called [] = []" "called (a @ b) = called a @ called b"
    "called [Called i r] = [i]" "called (Called i r # log) = i # called log" "called [Sent bs] = []" "called [Close_called] = []"
  by (simp_all add: called_def)

text \<open>The requests that had their callback, and those that wait for it.\<close>

definition account :: "'k connection \<Rightarrow> nat list" where
  "account cn = called (cn_log cn) @ map rq_id (cn_requests cn)"

subsection \<open>The invariant\<close>

definition queued :: "rtsp_request \<Rightarrow> bool" where
  "queued q \<longleftrightarrow> rq_cb q \<and> rq_evcon q"

definition state_ok :: "'k connection \<Rightarrow> bool" where
  "state_ok cn \<longleftrightarrow> (case cn_state cn of
       EVCON_DISCONNECTED \<Rightarrow> \<not> cn_fd cn \<and> cn_ev cn = None \<and> cn_input_buffer cn = [] \<and> cn_output_raw cn = []
     | EVCON_CONNECTING \<Rightarrow> cn_fd cn \<and> waits Ev_connect cn \<and> cn_requests cn \<noteq> []
     | EVCON_IDLE \<Rightarrow> cn_fd cn \<and> cn_ev cn = None \<and> cn_requests cn = []
     | EVCON_READING_FIRSTLINE \<Rightarrow> cn_fd cn \<and> waits Ev_read cn \<and> cn_requests cn \<noteq> [] \<and> rq_kind (hd (cn_requests cn)) = EVRTSP_RESPONSE
     | EVCON_READING_HEADERS \<Rightarrow> cn_fd cn \<and> waits Ev_read cn \<and> cn_requests cn \<noteq> [] \<and> rq_kind (hd (cn_requests cn)) = EVRTSP_RESPONSE
     | EVCON_READING_BODY \<Rightarrow> cn_fd cn \<and> waits Ev_read cn \<and> cn_requests cn \<noteq> [] \<and> 0 \<le> rq_ntoread (hd (cn_requests cn))
     | EVCON_READING_TRAILER \<Rightarrow> False
     | EVCON_WRITING \<Rightarrow> cn_fd cn \<and> waits Ev_write cn \<and> cn_requests cn \<noteq> [])"

definition conn_ok :: "'k connection \<Rightarrow> bool" where
  "conn_ok cn \<longleftrightarrow> (\<forall>q \<in> set (cn_requests cn). queued q) \<and> (cn_close_ev cn \<longleftrightarrow> cn_state cn = EVCON_IDLE) \<and> state_ok cn"

text \<open>A connection in the middle of an event of a request.\<close>

definition busy :: "'k connection \<Rightarrow> bool" where
  "busy cn \<longleftrightarrow> cn_fd cn \<and> cn_ev cn = None \<and> \<not> cn_close_ev cn \<and> cn_requests cn \<noteq> [] \<and> (\<forall>q \<in> set (cn_requests cn). queued q)"

definition cipher_total :: "'k ciphercb \<Rightarrow> 'k connection \<Rightarrow> bool" where
  "cipher_total ciph cn \<longleftrightarrow> cn_ciphercb cn = None \<or> (\<forall>out inb k enc. \<exists>r. ciph out inb k enc = Inr r)"

text \<open>An operation that ends well: no fault, the invariant, and every request accounted for.\<close>

definition ends_well :: "'k ciphercb \<Rightarrow> nat list \<Rightarrow> 'k connection res \<Rightarrow> bool" where
  "ends_well ciph ids r \<longleftrightarrow> (\<exists>cn'. r = Inr cn' \<and> conn_ok cn' \<and> account cn' = ids \<and> cipher_total ciph cn')"

definition steady :: "'k ciphercb \<Rightarrow> nat list \<Rightarrow> nat list \<Rightarrow> 'k connection res \<Rightarrow> bool" where
  "steady ciph cal ids r \<longleftrightarrow> (\<exists>cn'. r = Inr cn' \<and> conn_ok cn' \<and> called (cn_log cn') = cal
     \<and> map rq_id (cn_requests cn') = ids \<and> cipher_total ciph cn')"

lemma steady_ends_well: "steady ciph cal ids r \<Longrightarrow> ends_well ciph (cal @ ids) r"
  by (auto simp: steady_def ends_well_def account_def)

lemma ends_wellI: "conn_ok cn' \<Longrightarrow> account cn' = ids \<Longrightarrow> cipher_total ciph cn' \<Longrightarrow> ends_well ciph ids (Inr cn')"
  by (simp add: ends_well_def)

lemma make_header_keeps:
  "rq_id (snd (evrtsp_make_header req)) = rq_id req" "queued (snd (evrtsp_make_header req)) = queued req"
  by (simp_all add: evrtsp_make_header_def evrtsp_make_header_request_def queued_def)

lemma reset_simps [simp]:
  "cn_requests (evrtsp_connection_reset cn) = cn_requests cn" "cn_state (evrtsp_connection_reset cn) = EVCON_DISCONNECTED"
  "cn_close_ev (evrtsp_connection_reset cn) = cn_close_ev cn" "called (cn_log (evrtsp_connection_reset cn)) = called (cn_log cn)"
  "cn_ciphercb (evrtsp_connection_reset cn) = cn_ciphercb cn" "state_ok (evrtsp_connection_reset cn)"
  by (simp_all add: evrtsp_connection_reset_def state_ok_def)

lemma waits_add_event [simp]: "waits ev' (evrtsp_add_event ev t cn) \<longleftrightarrow> ev' = ev"
  by (auto simp: evrtsp_add_event_def waits_def)

lemma waits_update [simp]: "waits ev (cn\<lparr>cn_state := st\<rparr>) = waits ev cn" "waits ev (cn\<lparr>cn_log := l\<rparr>) = waits ev cn"
  by (simp_all add: waits_def)

lemma connect_ok:
  assumes "\<forall>q \<in> set (cn_requests cn). queued q" and "\<not> cn_close_ev cn" and "cn_requests cn \<noteq> []"
    and "cn_state cn = EVCON_CONNECTING \<Longrightarrow> state_ok cn"
  shows "conn_ok (snd (evrtsp_connection_connect d cn))"
    "called (cn_log (snd (evrtsp_connection_connect d cn))) = called (cn_log cn)"
    "cn_requests (snd (evrtsp_connection_connect d cn)) = cn_requests cn"
    "cn_ciphercb (snd (evrtsp_connection_connect d cn)) = cn_ciphercb cn"
proof -
  let ?st = "(evrtsp_add_event Ev_connect RTSP_CONNECT_TIMEOUT ((evrtsp_connection_reset cn)\<lparr>cn_fd := True\<rparr>))\<lparr>cn_state := EVCON_CONNECTING\<rparr>"
  have eq: "snd (evrtsp_connection_connect d cn) =
      (if cn_state cn = EVCON_CONNECTING then cn else if d = Connect_started then ?st else evrtsp_connection_reset cn)"
    by (cases d) (simp_all add: evrtsp_connection_connect_def)
  have "conn_ok ?st" "conn_ok (evrtsp_connection_reset cn)"
    using assms(1-3) by (simp add: conn_ok_def state_ok_def) (use assms(1-3) in \<open>simp add: conn_ok_def\<close>)
  then show "conn_ok (snd (evrtsp_connection_connect d cn))"
    using assms by (simp add: eq conn_ok_def)
qed (simp_all add: evrtsp_connection_connect_def Let_def split: dial.split)

lemma fail_ok [inv_intros]:
  assumes "\<forall>q \<in> set (cn_requests cn). queued q" and "\<not> cn_close_ev cn" and "cn_requests cn \<noteq> []"
    and "account cn = ids" and "cipher_total ciph cn"
  shows "ends_well ciph ids (evrtsp_connection_fail d err cn)"
proof -
  obtain req reqs where q: "cn_requests cn = req # reqs" using assms(3) by (cases "cn_requests cn") simp_all
  let ?cn1 = "evrtsp_connection_reset (cn\<lparr>cn_requests := reqs\<rparr>)"
  let ?cn2 = "if reqs \<noteq> [] then snd (evrtsp_connection_connect d ?cn1) else ?cn1"
  have "conn_ok ?cn2 \<and> called (cn_log ?cn2) = called (cn_log cn) \<and> cn_requests ?cn2 = reqs \<and> cn_ciphercb ?cn2 = cn_ciphercb cn"
    using connect_ok [of ?cn1 d] assms(1,2) by (simp add: q) (simp add: conn_ok_def)
  moreover have "rq_cb req" using assms(1) by (simp add: q queued_def)
  moreover have "conn_ok (?cn2\<lparr>cn_log := l\<rparr>) = conn_ok ?cn2" for l
    by (simp add: conn_ok_def state_ok_def waits_def cong: evrtsp_connection_state.case_cong)
  ultimately show ?thesis
    using assms(4,5) by (auto simp: evrtsp_connection_fail_def q ends_well_def Let_def account_def cipher_total_def)
qed

lemma dispatch_ok:
  assumes "cn_state cn = EVCON_IDLE" and "cn_fd cn" and "\<forall>q \<in> set (cn_requests cn). queued q" and "cn_requests cn \<noteq> []"
    and "cipher_total ciph cn"
  shows "steady ciph (called (cn_log cn)) (map rq_id (cn_requests cn)) (evrtsp_request_dispatch ciph cn)"
proof -
  obtain req reqs where q: "cn_requests cn = req # reqs" using assms(4) by (cases "cn_requests cn") simp_all
  obtain msg req1 where h: "evrtsp_make_header req = (msg, req1)" by fastforce
  have req1: "rq_id req1 = rq_id req" "queued req1" using make_header_keeps [of req] h assms(3) q by simp_all
  show ?thesis
  proof (cases "cn_ciphercb cn")
    case None
    then show ?thesis
      using assms req1 by (auto simp: evrtsp_request_dispatch_def q h Let_def evrtsp_connection_stop_detectclose_def
          evrtsp_write_buffer_def evrtsp_add_event_def steady_def conn_ok_def state_ok_def waits_def cipher_total_def)
  next
    case (Some k)
    then obtain ret raw out k1 where c: "ciph (cn_output_raw cn) (cn_output_buffer cn @ msg) k True = Inr (ret, raw, out, k1)"
      using assms(5) by (simp add: cipher_total_def) (metis surj_pair)
    then show ?thesis
      using assms req1 Some by (auto simp: evrtsp_request_dispatch_def q h Let_def evrtsp_connection_stop_detectclose_def
          evrtsp_write_buffer_def evrtsp_add_event_def steady_def conn_ok_def state_ok_def waits_def cipher_total_def)
  qed
qed

lemma done_ok [inv_intros]:
  assumes "busy cn" and "account cn = ids" and "cipher_total ciph cn"
  shows "ends_well ciph ids (evrtsp_connection_done ciph d cn)"
proof -
  obtain req reqs where q: "cn_requests cn = req # reqs" using assms(1) by (cases "cn_requests cn") (simp_all add: busy_def)
  have cb: "rq_cb req" using assms(1) by (simp add: q busy_def queued_def)
  let ?cn1 = "cn\<lparr>cn_requests := reqs, cn_state := EVCON_IDLE\<rparr>"
  let ?next = "if reqs \<noteq> [] then evrtsp_request_dispatch ciph ?cn1 else Inr (evrtsp_connection_start_detectclose ?cn1)"
  have "steady ciph (called (cn_log cn)) (map rq_id reqs) ?next"
  proof (cases "reqs = []")
    case True
    then show ?thesis using assms(1,3)
      by (auto simp: busy_def evrtsp_connection_start_detectclose_def conn_ok_def state_ok_def cipher_total_def steady_def)
  next
    case False
    have "cipher_total ciph ?cn1" using assms(3) by (simp add: cipher_total_def)
    with False show ?thesis
      using assms(1) using dispatch_ok [of ?cn1 ciph] by (simp add: busy_def q)
  qed
  then obtain cn2 where cn2: "?next = Inr cn2" "conn_ok cn2" "called (cn_log cn2) = called (cn_log cn)" "map rq_id (cn_requests cn2) = map rq_id reqs" "cipher_total ciph cn2"
    by (auto simp: steady_def simp del: if_split)
  have "evrtsp_connection_done ciph d cn = Inr (cn2\<lparr>cn_log := cn_log cn2 @ [Called (rq_id req) (Some (req\<lparr>rq_evcon := False\<rparr>))]\<rparr>)"
    using cn2(1) cb by (simp add: evrtsp_connection_done_def q Let_def evrtsp_connected_def split: if_splits)
  moreover have "conn_ok (cn2\<lparr>cn_log := l\<rparr>) = conn_ok cn2" for l
    by (simp add: conn_ok_def state_ok_def waits_def cong: evrtsp_connection_state.case_cong)
  ultimately show ?thesis
    using cn2 assms(2) by (auto simp: ends_well_def account_def cipher_total_def q)
qed

subsection \<open>Every event ends well\<close>

lemma busy_update [simp]:
  "busy (cn\<lparr>cn_state := st\<rparr>) = busy cn" "busy (cn\<lparr>cn_input_buffer := b\<rparr>) = busy cn"
  "busy (cn\<lparr>cn_input_raw := b\<rparr>) = busy cn" "busy (cn\<lparr>cn_ciphercb := k\<rparr>) = busy cn"
  "busy (cn\<lparr>cn_output_raw := b\<rparr>) = busy cn" "busy (cn\<lparr>cn_log := l\<rparr>) = busy cn"
  by (simp_all add: busy_def)

lemma account_update [simp]:
  "account (cn\<lparr>cn_state := st\<rparr>) = account cn" "account (cn\<lparr>cn_input_buffer := b\<rparr>) = account cn"
  "account (cn\<lparr>cn_input_raw := b\<rparr>) = account cn" "account (cn\<lparr>cn_ciphercb := k\<rparr>) = account cn"
  "account (cn\<lparr>cn_output_raw := b\<rparr>) = account cn" "account (evrtsp_add_event ev t cn) = account cn"
  "account (cn\<lparr>cn_ev := e\<rparr>) = account cn"
  by (simp_all add: account_def)

lemma cipher_total_update [simp]:
  "cipher_total ciph (cn\<lparr>cn_state := st\<rparr>) = cipher_total ciph cn" "cipher_total ciph (cn\<lparr>cn_input_buffer := b\<rparr>) = cipher_total ciph cn"
  "cipher_total ciph (cn\<lparr>cn_input_raw := b\<rparr>) = cipher_total ciph cn" "cipher_total ciph (cn\<lparr>cn_requests := q\<rparr>) = cipher_total ciph cn"
  "cipher_total ciph (cn\<lparr>cn_output_raw := b\<rparr>) = cipher_total ciph cn" "cipher_total ciph (evrtsp_add_event ev t cn) = cipher_total ciph cn"
  "cipher_total ciph (cn\<lparr>cn_ev := e\<rparr>) = cipher_total ciph cn" "cipher_total ciph (cn\<lparr>cn_log := l\<rparr>) = cipher_total ciph cn"
  by (simp_all add: cipher_total_def)

text \<open>A new first request with the old identity.\<close>

definition same_request :: "rtsp_request \<Rightarrow> rtsp_request \<Rightarrow> bool" where
  "same_request q q' \<longleftrightarrow> rq_id q' = rq_id q \<and> rq_cb q' = rq_cb q \<and> rq_evcon q' = rq_evcon q"

lemma replace_first:
  assumes "busy cn" and "same_request (hd (cn_requests cn)) req"
  shows "busy (cn\<lparr>cn_requests := req # tl (cn_requests cn)\<rparr>)" "account (cn\<lparr>cn_requests := req # tl (cn_requests cn)\<rparr>) = account cn"
    "busy (cn\<lparr>cn_input_buffer := b, cn_requests := req # tl (cn_requests cn)\<rparr>)"
    "account (cn\<lparr>cn_input_buffer := b, cn_requests := req # tl (cn_requests cn)\<rparr>) = account cn"
  using assms by (cases "cn_requests cn"; simp add: busy_def same_request_def queued_def account_def)+

lemma busy_fail:
  "busy cn \<Longrightarrow> account cn = ids \<Longrightarrow> cipher_total ciph cn \<Longrightarrow> ends_well ciph ids (evrtsp_connection_fail d err cn)"
  by (rule fail_ok) (simp_all add: busy_def)

lemma read_more:
  assumes "busy cn" and "cn_state cn \<in> {EVCON_READING_FIRSTLINE, EVCON_READING_HEADERS} \<and> rq_kind (hd (cn_requests cn)) = EVRTSP_RESPONSE
      \<or> cn_state cn = EVCON_READING_BODY \<and> 0 \<le> rq_ntoread (hd (cn_requests cn))"
    and "account cn = ids" and "cipher_total ciph cn"
  shows "ends_well ciph ids (Inr (evrtsp_add_event Ev_read t cn))"
  using assms by (intro ends_wellI) (auto simp: conn_ok_def busy_def state_ok_def)

lemma read_body_ok:
  assumes "busy cn" and "cn_state cn = EVCON_READING_BODY" and "same_request (hd (cn_requests cn)) req" and "0 \<le> rq_ntoread req"
    and "account cn = ids" and "cipher_total ciph cn"
  shows "ends_well ciph ids (evrtsp_read_body ciph d cn req)"
proof (cases "rq_ntoread req \<le> int (length (cn_input_buffer cn))")
  case True
  let ?req1 = "req\<lparr>rq_input_buffer := rq_input_buffer req @ take (nat (rq_ntoread req)) (cn_input_buffer cn), rq_ntoread := 0\<rparr>"
  have "same_request (hd (cn_requests cn)) ?req1" using assms(3) by (simp add: same_request_def)
  note first = replace_first [OF assms(1) this]
  have eq: "evrtsp_read_body ciph d cn req = evrtsp_connection_done ciph d
      (cn\<lparr>cn_input_buffer := drop (nat (rq_ntoread req)) (cn_input_buffer cn), cn_requests := ?req1 # tl (cn_requests cn)\<rparr>)"
    using True assms(4) by (simp add: evrtsp_read_body_def Let_def)
  show ?thesis unfolding eq using first assms(5,6) by (intro done_ok) simp_all
next
  case False
  note first = replace_first [OF assms(1,3)]
  show ?thesis
    using False assms(2,4-6) first by (simp add: evrtsp_read_body_def Let_def read_more)
qed

lemma read_header_ok:
  assumes "readln_ok readln" and "busy cn" and "cn_state cn = EVCON_READING_HEADERS" and "same_request (hd (cn_requests cn)) req"
    and "rq_kind req = EVRTSP_RESPONSE" and "account cn = ids" and "cipher_total ciph cn"
  shows "ends_well ciph ids (evrtsp_read_header readln ciph d cn req)"
proof -
  obtain st req1 rest where p: "evrtsp_parse_headers readln req (cn_input_buffer cn) = Inr (st, req1, rest)"
      "\<exists>hs. req1 = req\<lparr>rq_input_headers := hs\<rparr>"
    by (rule evrtsp_parse_headers_append [OF assms(1)])
  then have req1: "same_request (hd (cn_requests cn)) req1" "rq_kind req1 = EVRTSP_RESPONSE"
    using assms(4,5) by (auto simp: same_request_def)
  let ?cn1 = "cn\<lparr>cn_input_buffer := rest, cn_requests := req1 # tl (cn_requests cn)\<rparr>"
  have cn1: "busy ?cn1" "account ?cn1 = ids" "cipher_total ciph ?cn1"
    using replace_first [OF assms(2) req1(1)] assms(6,7) by simp_all
  show ?thesis
  proof (cases st)
    case ALL_DATA_READ
    obtain ret req2 where len: "evrtsp_get_body_length req1 = (ret, req2)" by fastforce
    then have req2: "same_request req1 req2" "ret \<noteq> -1 \<Longrightarrow> 0 \<le> rq_ntoread req2"
      by (auto simp: evrtsp_get_body_length_def same_request_def Let_def split: option.splits if_splits)
    have fail: "ends_well ciph ids (evrtsp_connection_fail d EVCON_RTSP_INVALID_HEADER (?cn1\<lparr>cn_state := EVCON_READING_BODY\<rparr>))"
      using cn1 by (intro busy_fail) simp_all
    have body: "ret \<noteq> -1 \<Longrightarrow> ends_well ciph ids (evrtsp_read_body ciph d (?cn1\<lparr>cn_state := EVCON_READING_BODY\<rparr>) req2)"
      using cn1 req2 by (intro read_body_ok) simp_all
    show ?thesis
      using p(1) ALL_DATA_READ req1(2) fail body by (simp add: evrtsp_read_header_def evrtsp_get_body_def len Let_def)
  next
    case MORE_DATA_EXPECTED
    with p(1) cn1 req1(2) assms(3) show ?thesis
      by (simp add: evrtsp_read_header_def Let_def read_more)
  next
    case DATA_CORRUPTED
    with p(1) cn1 show ?thesis by (simp add: evrtsp_read_header_def Let_def busy_fail)
  qed
qed

lemma parse_firstline_same:
  "evrtsp_parse_firstline readln req buf = (st, req1, rest) \<Longrightarrow> same_request req req1 \<and> rq_kind req1 = rq_kind req"
  by (auto simp: evrtsp_parse_firstline_def evrtsp_parse_response_line_def same_request_def Let_def
      split: option.splits prod.splits evrtsp_request_kind.splits if_splits)

lemma read_firstline_ok:
  assumes "readln_ok readln" and "busy cn" and "cn_state cn = EVCON_READING_FIRSTLINE" and "req = hd (cn_requests cn)"
    and "rq_kind req = EVRTSP_RESPONSE" and "account cn = ids" and "cipher_total ciph cn"
  shows "ends_well ciph ids (evrtsp_read_firstline readln ciph d cn req)"
proof -
  obtain st req1 rest where p: "evrtsp_parse_firstline readln req (cn_input_buffer cn) = (st, req1, rest)"
    by (metis surj_pair)
  have req1: "same_request (hd (cn_requests cn)) req1" "rq_kind req1 = EVRTSP_RESPONSE"
    using parse_firstline_same [OF p] assms(4,5) by simp_all
  let ?cn1 = "cn\<lparr>cn_input_buffer := rest, cn_requests := req1 # tl (cn_requests cn)\<rparr>"
  have cn1: "busy ?cn1" "account ?cn1 = ids" "cipher_total ciph ?cn1"
    using replace_first [OF assms(2) req1(1)] assms(6,7) by simp_all
  have "ends_well ciph ids (evrtsp_read_header readln ciph d (?cn1\<lparr>cn_state := EVCON_READING_HEADERS\<rparr>) req1)"
    using cn1 req1(2) by (intro read_header_ok [OF assms(1)]) (simp_all add: same_request_def)
  then show ?thesis
    using p cn1 req1(2) assms(3) by (cases st) (simp_all add: evrtsp_read_firstline_def Let_def read_more busy_fail)
qed

lemma read_message_ok:
  assumes "readln_ok readln" and "busy cn"
    and "cn_state cn \<in> {EVCON_READING_FIRSTLINE, EVCON_READING_HEADERS} \<and> rq_kind (hd (cn_requests cn)) = EVRTSP_RESPONSE
      \<or> cn_state cn = EVCON_READING_BODY \<and> 0 \<le> rq_ntoread (hd (cn_requests cn))"
    and "account cn = ids" and "cipher_total ciph cn"
  shows "ends_well ciph ids (evrtsp_read_message readln ciph d cn)"
proof -
  obtain req reqs where q: "cn_requests cn = req # reqs" using assms(2) by (cases "cn_requests cn") (simp_all add: busy_def)
  have same: "same_request (hd (cn_requests cn)) req" and first: "req = hd (cn_requests cn)"
    by (simp_all add: same_request_def q)
  from assms(3) consider
      (firstline) "cn_state cn = EVCON_READING_FIRSTLINE" "rq_kind req = EVRTSP_RESPONSE"
    | (headers) "cn_state cn = EVCON_READING_HEADERS" "rq_kind req = EVRTSP_RESPONSE"
    | (body) "cn_state cn = EVCON_READING_BODY" "0 \<le> rq_ntoread req"
    by (auto simp: q)
  then show ?thesis
  proof cases
    case firstline
    with read_firstline_ok [OF assms(1,2) firstline(1) first firstline(2) assms(4,5)] show ?thesis
      by (simp add: evrtsp_read_message_def q)
  next
    case headers
    with read_header_ok [OF assms(1,2) headers(1) same headers(2) assms(4,5)] show ?thesis
      by (simp add: evrtsp_read_message_def q)
  next
    case body
    with read_body_ok [OF assms(2) body(1) same body(2) assms(4,5)] show ?thesis
      by (simp add: evrtsp_read_message_def q)
  qed
qed

lemma conn_ok_read:
  assumes "conn_ok cn" and "waits Ev_read cn"
  shows "busy (cn\<lparr>cn_ev := None\<rparr>)"
    "cn_state cn \<in> {EVCON_READING_FIRSTLINE, EVCON_READING_HEADERS} \<and> rq_kind (hd (cn_requests cn)) = EVRTSP_RESPONSE
      \<or> cn_state cn = EVCON_READING_BODY \<and> 0 \<le> rq_ntoread (hd (cn_requests cn))"
  using assms by (cases "cn_state cn"; auto simp: conn_ok_def state_ok_def busy_def waits_def)+

lemma read_ok:
  assumes "readln_ok readln" and "conn_ok cn" and "waits Ev_read cn" and "cipher_total ciph cn"
  shows "ends_well ciph (account cn) (evrtsp_read readln ciph d what (cn\<lparr>cn_ev := None\<rparr>))"
proof -
  let ?cn = "cn\<lparr>cn_ev := None\<rparr>"
  note start = conn_ok_read [OF assms(2,3)]
  show ?thesis
  proof (cases what)
    case (Read_bytes new)
    have msg: "ends_well ciph (account cn) (evrtsp_read_message readln ciph d cn1)"
      if "busy cn1" "cn_state cn1 = cn_state cn" "cn_requests cn1 = cn_requests cn" "account cn1 = account cn" "cipher_total ciph cn1" for cn1
      using that start(2) by (intro read_message_ok [OF assms(1)]) simp_all
    show ?thesis
    proof (cases "cn_ciphercb cn")
      case None
      with start(1) assms(4) show ?thesis by (simp add: Read_bytes evrtsp_read_def Let_def msg)
    next
      case (Some k)
      then obtain ret inb raw k1 where "ciph (cn_input_buffer cn) (cn_input_raw cn @ new) k False = Inr (ret, inb, raw, k1)"
        using assms(4) by (simp add: cipher_total_def) (metis surj_pair)
      moreover have "cipher_total ciph (cn2\<lparr>cn_ciphercb := Some k1\<rparr>)" for cn2 :: "'a connection"
        using assms(4) Some by (simp add: cipher_total_def)
      ultimately show ?thesis
        using Some start(1) by (simp add: Read_bytes evrtsp_read_def Let_def msg busy_fail)
    qed
  qed (use start assms(4) in \<open>simp_all add: evrtsp_read_def busy_fail done_ok read_more\<close>)
qed

lemma write_ok:
  assumes "conn_ok cn" and "waits Ev_write cn" and "cipher_total ciph cn"
  shows "ends_well ciph (account cn) (evrtsp_write d what (cn\<lparr>cn_ev := None\<rparr>))"
proof -
  have st: "cn_state cn = EVCON_WRITING" and b: "busy (cn\<lparr>cn_ev := None\<rparr>)"
    using assms(1,2) by (cases "cn_state cn"; auto simp: conn_ok_def state_ok_def busy_def waits_def)+
  obtain req reqs where q: "cn_requests cn = req # reqs" using b by (cases "cn_requests cn") (simp_all add: busy_def)
  have "ends_well ciph (account cn) (evrtsp_write d (Some n) (cn\<lparr>cn_ev := None\<rparr>))" if "n \<noteq> -1" "n \<noteq> 0" for n
  proof -
    have "conn_ok (evrtsp_add_event Ev_write t (cn\<lparr>cn_ev := None, cn_output_raw := r, cn_log := l\<rparr>))"
      "conn_ok (evrtsp_start_read (cn\<lparr>cn_ev := None, cn_output_raw := r, cn_log := l, cn_requests := req\<lparr>rq_kind := EVRTSP_RESPONSE\<rparr> # reqs\<rparr>))" for t r l
      using b st by (simp_all add: conn_ok_def state_ok_def busy_def q evrtsp_start_read_def queued_def)
    then show ?thesis
      using that st assms(3)
      by (auto simp: evrtsp_write_def Let_def evrtsp_write_connectioncb_def q evrtsp_start_read_def account_def intro!: ends_wellI)
  qed
  then show ?thesis
    using b assms(3) by (cases what) (auto simp: evrtsp_write_def busy_fail)
qed

lemma signal_requests_ok:
  "\<forall>q \<in> set reqs. queued q \<Longrightarrow> \<exists>log. signal_requests reqs = Inr log \<and> called log = map rq_id reqs"
  by (induction reqs) (auto simp: queued_def)

lemma connectioncb_ok:
  assumes "conn_ok cn" and "waits Ev_connect cn" and "cipher_total ciph cn"
  shows "ends_well ciph (account cn) (evrtsp_connectioncb ciph what (cn\<lparr>cn_ev := None\<rparr>))"
proof -
  have b: "busy (cn\<lparr>cn_ev := None\<rparr>)"
    using assms(1,2) by (cases "cn_state cn"; auto simp: conn_ok_def state_ok_def busy_def waits_def)
  let ?cn1 = "evrtsp_connection_reset (cn\<lparr>cn_ev := None\<rparr>)"
  obtain log where log: "signal_requests (cn_requests cn) = Inr log" "called log = map rq_id (cn_requests cn)"
    using signal_requests_ok [of "cn_requests cn"] b by (auto simp: busy_def)
  have "conn_ok (?cn1\<lparr>cn_requests := [], cn_log := l\<rparr>)" for l
    using b by (simp add: conn_ok_def busy_def) (simp add: state_ok_def evrtsp_connection_reset_def)
  then have cleanup: "ends_well ciph (account cn) (Inr (?cn1\<lparr>cn_requests := [], cn_log := cn_log ?cn1 @ log\<rparr>))"
    using log assms(3) by (intro ends_wellI) (simp_all add: account_def cipher_total_def)
  have "steady ciph (called (cn_log cn)) (map rq_id (cn_requests cn)) (evrtsp_request_dispatch ciph (cn\<lparr>cn_ev := None, cn_state := EVCON_IDLE\<rparr>))"
    using dispatch_ok [of "cn\<lparr>cn_ev := None, cn_state := EVCON_IDLE\<rparr>" ciph] b assms(3) by (simp add: busy_def)
  from steady_ends_well [OF this] cleanup log(1) show ?thesis
    by (cases what) (simp_all add: evrtsp_connectioncb_def Let_def account_def)
qed

lemma make_request_ok:
  assumes "conn_ok cn" and "rq_cb req" and "\<not> rq_evcon req" and "cipher_total ciph cn"
  shows "ends_well ciph (account cn @ [rq_id req]) (bind_res (evrtsp_make_request ciph d cn req ty uri) (\<lambda>(ret, cn1). Inr cn1))"
proof -
  define req1 where "req1 = (if rq_major req = 0 \<and> rq_minor req = 0
      then req\<lparr>rq_kind := EVRTSP_REQUEST, rq_type := ty, rq_uri := Some uri, rq_major := 1, rq_minor := 0, rq_evcon := True\<rparr>
      else req\<lparr>rq_kind := EVRTSP_REQUEST, rq_type := ty, rq_uri := Some uri, rq_evcon := True\<rparr>)"
  let ?cn1 = "cn\<lparr>cn_requests := cn_requests cn @ [req1]\<rparr>"
  have req1: "queued req1" "rq_id req1 = rq_id req" using assms(2) by (simp_all add: req1_def queued_def)
  have eq: "evrtsp_make_request ciph d cn req ty uri =
      (if \<not> evrtsp_connected ?cn1 then Inr (evrtsp_connection_connect d ?cn1)
       else if cn_requests cn = [] then bind_res (evrtsp_request_dispatch ciph ?cn1) (\<lambda>cn2. Inr (0, cn2))
       else Inr (0, ?cn1))"
    using assms(3) by (simp add: evrtsp_make_request_def req1_def Let_def)
  have ok: "\<forall>q \<in> set (cn_requests ?cn1). queued q" using assms(1) req1(1) by (simp add: conn_ok_def)
  show ?thesis
  proof (cases "evrtsp_connected ?cn1")
    case False
    then have "cn_state ?cn1 = EVCON_CONNECTING \<Longrightarrow> state_ok ?cn1" "\<not> cn_close_ev ?cn1"
      using assms(1) by (auto simp: evrtsp_connected_def conn_ok_def state_ok_def waits_def)
    note connect = connect_ok [OF ok this(2) _ this(1), of d]
    show ?thesis
      using connect False assms(4) req1(2)
      by (auto simp: eq account_def cipher_total_def ends_well_def split: prod.split)
  next
    case connected: True
    show ?thesis
    proof (cases "cn_requests cn = []")
      case True
      with connected assms(1) have st: "cn_state cn = EVCON_IDLE" "cn_fd cn"
        by (cases "cn_state cn"; auto simp: evrtsp_connected_def conn_ok_def state_ok_def)+
      have "steady ciph (called (cn_log cn)) [rq_id req] (evrtsp_request_dispatch ciph ?cn1)"
        using dispatch_ok [of ?cn1 ciph] st ok True assms(4) req1(2) by simp
      then show ?thesis
        using connected True by (auto simp: eq steady_def ends_well_def account_def)
    next
      case False
      moreover have "conn_ok ?cn1"
        using assms(1) ok False connected
        by (cases "cn_state cn") (auto simp: conn_ok_def state_ok_def waits_def evrtsp_connected_def)
      ultimately show ?thesis
        using connected assms(4) req1(2) by (auto simp: eq account_def intro!: ends_wellI)
    qed
  qed
qed

definition sets_cipher :: "'k rtsp_event \<Rightarrow> bool" where
  "sets_cipher e \<longleftrightarrow> (\<exists>k. e = Set_ciphercb (Some k))"

lemma rtsp_do_ok:
  assumes "readln_ok readln" and "conn_ok cn" and "cipher_total ciph cn" and "enabled e cn"
    and "sets_cipher e \<Longrightarrow> \<forall>out inb k enc. \<exists>r. ciph out inb k enc = Inr r"
  shows "ends_well ciph (account cn @ made e) (rtsp_do readln ciph d e cn)"
proof (cases e)
  case Closing
  then have "conn_ok (evrtsp_connection_reset (cn\<lparr>cn_close_ev := False\<rparr>))" using assms(2) by (simp add: conn_ok_def)
  then show ?thesis
    using assms(3) Closing by (auto simp: evrtsp_detect_close_cb_def account_def cipher_total_def intro!: ends_wellI)
next
  case (Set_closecb cb)
  have "conn_ok (cn\<lparr>cn_closecb := cb\<rparr>)"
    using assms(2) by (simp add: conn_ok_def state_ok_def waits_def cong: evrtsp_connection_state.case_cong)
  then show ?thesis
    using assms(3) by (auto simp: Set_closecb evrtsp_connection_set_closecb_def account_def cipher_total_def intro!: ends_wellI)
next
  case (Set_ciphercb k)
  have "conn_ok (cn\<lparr>cn_ciphercb := k\<rparr>)"
    using assms(2) by (simp add: conn_ok_def state_ok_def waits_def cong: evrtsp_connection_state.case_cong)
  moreover have "cipher_total ciph (cn\<lparr>cn_ciphercb := k\<rparr>)"
    using assms(5) by (cases k) (auto simp: Set_ciphercb cipher_total_def sets_cipher_def)
  ultimately show ?thesis
    by (auto simp: Set_ciphercb evrtsp_connection_set_ciphercb_def account_def intro!: ends_wellI)
qed (use assms in \<open>simp_all add: make_request_ok connectioncb_ok write_ok read_ok\<close>)


end
