(* ===== verification/Rtsp_Reading.thy ===== *)
theory Rtsp_Reading
  imports Rtsp_Connection Rtsp_Parsing
begin

text \<open>
  Reading a response. The state machine of \<open>evrtsp_read_message\<close> may get its input in any pieces, if
  only the end of the first line is not cut: then a response in pieces is the response at once.
\<close>

subsection \<open>Pieces\<close>

definition reading :: "evrtsp_connection_state \<Rightarrow> bool" where
  "reading st \<longleftrightarrow> st \<in> {EVCON_READING_FIRSTLINE, EVCON_READING_HEADERS, EVCON_READING_BODY}"

lemma fail_not_reading: "evrtsp_connection_fail d err cn = Inr cn1 \<Longrightarrow> \<not> reading (cn_state cn1)"
  by (auto simp: evrtsp_connection_fail_def Let_def evrtsp_connection_connect_def evrtsp_connection_reset_def reading_def
      evrtsp_add_event_def split: list.splits dial.splits if_splits)

lemma dispatch_not_reading:
  "evrtsp_request_dispatch ciph cn = Inr cn1 \<Longrightarrow> cn_state cn = EVCON_IDLE \<Longrightarrow> \<not> reading (cn_state cn1)"
  by (auto simp: evrtsp_request_dispatch_def Let_def reading_def bind_res_eq_Inr evrtsp_write_buffer_def evrtsp_add_event_def
      evrtsp_connection_stop_detectclose_def split: list.splits option.splits prod.splits if_splits)

lemma done_not_reading: "evrtsp_connection_done ciph d cn = Inr cn1 \<Longrightarrow> \<not> reading (cn_state cn1)"
  by (auto simp: evrtsp_connection_done_def Let_def bind_res_eq_Inr evrtsp_connected_def dest!: dispatch_not_reading
      split: list.splits if_splits) (auto simp: reading_def evrtsp_connection_start_detectclose_def)

text \<open>The connection with more input, and its event fired.\<close>

definition with_input :: "bytes \<Rightarrow> bytes \<Rightarrow> 'k option \<Rightarrow> 'k connection \<Rightarrow> 'k connection" where
  "with_input b raw k cn = cn\<lparr>cn_ev := None, cn_input_buffer := cn_input_buffer cn @ b, cn_input_raw := raw, cn_ciphercb := k\<rparr>"

lemma with_input_simps [simp]:
  "cn_state (with_input b raw k cn) = cn_state cn" "cn_requests (with_input b raw k cn) = cn_requests cn"
  "cn_input_buffer (with_input b raw k cn) = cn_input_buffer cn @ b" "cn_log (with_input b raw k cn) = cn_log cn"
  by (simp_all add: with_input_def)

lemma with_input_update:
  "with_input b raw k (cn\<lparr>cn_input_buffer := r, cn_requests := q, cn_state := st\<rparr>) =
     (with_input b raw k cn)\<lparr>cn_input_buffer := r @ b, cn_requests := q, cn_state := st\<rparr>"
  by (cases cn) (simp add: with_input_def)

lemma read_body_more:
  assumes "evrtsp_read_body ciph d cn req = Inr cn1" and "reading (cn_state cn1)" and "cn_state cn = EVCON_READING_BODY"
    and "cn_ev cn = None"
  shows "evrtsp_read_message readln ciph d' (with_input b raw k cn1) = evrtsp_read_body ciph d' (with_input b raw k cn) req"
proof (cases "rq_ntoread req < 0")
  case True
  then have "cn1 = evrtsp_add_event Ev_read RTSP_READ_TIMEOUT (cn\<lparr>cn_input_buffer := [],
      cn_requests := req\<lparr>rq_input_buffer := rq_input_buffer req @ cn_input_buffer cn\<rparr> # tl (cn_requests cn)\<rparr>)"
    using assms(1) by (simp add: evrtsp_read_body_def Let_def)
  then show ?thesis
    using assms(3,4) True by (simp add: evrtsp_read_message_def evrtsp_add_event_def evrtsp_read_body_def with_input_def Let_def)
next
  case False
  then have "rq_ntoread req > int (length (cn_input_buffer cn))"
    using assms(1,2) done_not_reading by (fastforce simp: evrtsp_read_body_def Let_def split: if_splits)
  then have "cn1 = evrtsp_add_event Ev_read RTSP_READ_TIMEOUT (cn\<lparr>cn_requests := req # tl (cn_requests cn)\<rparr>)"
    using assms(1) by (simp add: evrtsp_read_body_def Let_def)
  then show ?thesis
    using assms(3,4) False by (simp add: evrtsp_read_message_def evrtsp_add_event_def evrtsp_read_body_def with_input_def Let_def)
qed

lemma read_header_more:
  assumes "readln_ok readln" and "evrtsp_read_header readln ciph d cn req = Inr cn1" and "reading (cn_state cn1)"
    and "cn_state cn = EVCON_READING_HEADERS" and "cn_ev cn = None"
  shows "evrtsp_read_message readln ciph d' (with_input b raw k cn1) = evrtsp_read_header readln ciph d' (with_input b raw k cn) req"
proof -
  obtain st req1 rest where p: "evrtsp_parse_headers readln req (cn_input_buffer cn) = Inr (st, req1, rest)"
    and app: "\<And>b. evrtsp_parse_headers readln req (cn_input_buffer cn @ b) =
       (if st = MORE_DATA_EXPECTED then evrtsp_parse_headers readln req1 (rest @ b) else Inr (st, req1, rest @ b))"
    by (rule evrtsp_parse_headers_append [OF assms(1), where req = req and a = "cn_input_buffer cn"]) (rule that)
  let ?cn1 = "cn\<lparr>cn_input_buffer := rest, cn_requests := req1 # tl (cn_requests cn)\<rparr>"
  show ?thesis
  proof (cases st)
    case ALL_DATA_READ
    then have get: "evrtsp_get_body ciph d ?cn1 req1 = Inr cn1" "rq_kind req1 = EVRTSP_RESPONSE"
      using assms(2,3) p by (auto simp: evrtsp_read_header_def Let_def dest!: fail_not_reading split: evrtsp_request_kind.splits)
    obtain ret req2 where len: "evrtsp_get_body_length req1 = (ret, req2)" by fastforce
    let ?cn2 = "?cn1\<lparr>cn_state := EVCON_READING_BODY\<rparr>"
    have body: "evrtsp_read_body ciph d ?cn2 req2 = Inr cn1" "ret \<noteq> -1"
      using get(1) len assms(3) fail_not_reading by (fastforce simp: evrtsp_get_body_def Let_def split: if_splits)+
    have "evrtsp_read_message readln ciph d' (with_input b raw k cn1) = evrtsp_read_body ciph d' (with_input b raw k ?cn2) req2"
      by (rule read_body_more [OF body(1) assms(3)]) (simp_all add: assms(5))
    then show ?thesis
      using app [of b] ALL_DATA_READ get(2) len body(2) by (simp add: evrtsp_read_header_def evrtsp_get_body_def Let_def with_input_update)
  next
    case MORE_DATA_EXPECTED
    then have "cn1 = evrtsp_add_event Ev_read RTSP_READ_TIMEOUT ?cn1"
      using assms(2) p by (simp add: evrtsp_read_header_def Let_def)
    then show ?thesis
      using app [of b] MORE_DATA_EXPECTED assms(4)
      by (simp add: evrtsp_read_message_def evrtsp_read_header_def evrtsp_add_event_def with_input_def Let_def)
  next
    case DATA_CORRUPTED
    then show ?thesis using assms(2,3) p fail_not_reading by (fastforce simp: evrtsp_read_header_def Let_def)
  qed
qed

lemma read_message_more:
  assumes "readln_ok readln" and "evrtsp_read_message readln ciph d cn = Inr cn1" and "reading (cn_state cn1)"
    and "cn_state cn = EVCON_READING_FIRSTLINE \<Longrightarrow> cut_ok (cn_input_buffer cn) b" and "cn_ev cn = None" and "reading (cn_state cn)"
  shows "evrtsp_read_message readln ciph d' (with_input b raw k cn1) = evrtsp_read_message readln ciph d' (with_input b raw k cn)"
proof -
  obtain req reqs where q: "cn_requests cn = req # reqs"
    using assms(2) by (cases "cn_requests cn") (simp_all add: evrtsp_read_message_def)
  consider (firstline) "cn_state cn = EVCON_READING_FIRSTLINE" | (headers) "cn_state cn = EVCON_READING_HEADERS"
    | (body) "cn_state cn = EVCON_READING_BODY"
    using assms(6) by (auto simp: reading_def)
  then show ?thesis
  proof cases
    case body
    then have "evrtsp_read_body ciph d cn req = Inr cn1" using assms(2) by (simp add: evrtsp_read_message_def q)
    from read_body_more [OF this assms(3) body assms(5)] body show ?thesis by (simp add: evrtsp_read_message_def q)
  next
    case headers
    then have "evrtsp_read_header readln ciph d cn req = Inr cn1" using assms(2) by (simp add: evrtsp_read_message_def q)
    from read_header_more [OF assms(1) this assms(3) headers assms(5)] headers show ?thesis by (simp add: evrtsp_read_message_def q)
  next
    case firstline
    obtain st req1 rest where p: "evrtsp_parse_firstline readln req (cn_input_buffer cn) = (st, req1, rest)"
      and app: "evrtsp_parse_firstline readln req (cn_input_buffer cn @ b) =
       (if st = MORE_DATA_EXPECTED then evrtsp_parse_firstline readln req1 (rest @ b) else (st, req1, rest @ b))"
      and none: "st = MORE_DATA_EXPECTED \<Longrightarrow> rest = cn_input_buffer cn \<and> req1 = req"
      by (rule evrtsp_parse_firstline_append [OF assms(1) assms(4) [OF firstline], where req = req]) (rule that)
    have line: "evrtsp_read_firstline readln ciph d cn req = Inr cn1"
      using firstline assms(2) by (simp add: evrtsp_read_message_def q)
    let ?cn1 = "cn\<lparr>cn_input_buffer := rest, cn_requests := req1 # tl (cn_requests cn)\<rparr>"
    show ?thesis
    proof (cases st)
      case ALL_DATA_READ
      let ?cn2 = "?cn1\<lparr>cn_state := EVCON_READING_HEADERS\<rparr>"
      have "evrtsp_read_header readln ciph d ?cn2 req1 = Inr cn1"
        using line p ALL_DATA_READ by (simp add: evrtsp_read_firstline_def Let_def)
      from read_header_more [OF assms(1) this assms(3), of d' b raw k] app ALL_DATA_READ assms(5) firstline show ?thesis
        by (simp add: evrtsp_read_message_def [of _ _ _ "with_input b raw k cn"] q evrtsp_read_firstline_def Let_def with_input_update)
    next
      case MORE_DATA_EXPECTED
      then show ?thesis
        using line p none firstline
        by (auto simp: evrtsp_read_firstline_def Let_def q evrtsp_add_event_def with_input_def evrtsp_read_message_def)
    next
      case DATA_CORRUPTED
      then show ?thesis using line p assms(3) fail_not_reading by (fastforce simp: evrtsp_read_firstline_def Let_def)
    qed
  qed
qed

subsection \<open>A response in pieces\<close>

text \<open>Pieces of plain text arrive one after the other, with what the cipher leaves behind each time;
  \<open>None\<close> when the connection stops reading.\<close>

fun feed_all ::
  "readln \<Rightarrow> 'k ciphercb \<Rightarrow> dial \<Rightarrow> (bytes \<times> bytes \<times> 'k option) list \<Rightarrow> 'k connection \<Rightarrow> 'k connection option" where
  "feed_all readln ciph d [] cn = Some cn"
| "feed_all readln ciph d ((p, raw, k) # ps) cn =
     (case evrtsp_read_message readln ciph d (with_input p raw k cn) of
        Inl f \<Rightarrow> None
      | Inr cn1 \<Rightarrow> if reading (cn_state cn1) then feed_all readln ciph d ps cn1 else None)"

fun cuts_ok :: "bytes \<Rightarrow> bytes list \<Rightarrow> bytes \<Rightarrow> bool" where
  "cuts_ok buf [] b = True"
| "cuts_ok buf (p # ps) b = (cut_ok (buf @ p) (concat ps @ b) \<and> cuts_ok (buf @ p) ps b)"

lemma cut_ok_prefix: "cut_ok a (b @ c) \<Longrightarrow> cut_ok a b"
  by (cases b) (auto simp: cut_ok_def)

lemma cuts_ok_prefix: "cuts_ok buf ps (b @ c) \<Longrightarrow> cuts_ok buf ps b"
  by (induction ps arbitrary: buf) (auto intro: cut_ok_prefix [of _ _ c])

lemma with_input_twice [simp]: "with_input b raw k (with_input a raw' k' cn) = with_input (a @ b) raw k cn"
  by (cases cn) (simp add: with_input_def)

lemma still_firstline:
  assumes "evrtsp_read_message readln ciph d cn = Inr cn1" and "cn_state cn1 = EVCON_READING_FIRSTLINE" and "reading (cn_state cn)"
    and "readln_ok readln"
  shows "cn_state cn = EVCON_READING_FIRSTLINE \<and> cn_input_buffer cn1 = cn_input_buffer cn"
proof -
  have body: "cn_state cn' = EVCON_READING_BODY \<Longrightarrow> evrtsp_read_body ciph d cn' q \<noteq> Inr cn1" for cn' q
    using assms(2) done_not_reading [of ciph d _ cn1] by (auto simp: evrtsp_read_body_def Let_def reading_def)
  have fail: "evrtsp_connection_fail d e cn' \<noteq> Inr cn1" for e cn'
    using assms(2) fail_not_reading [of d e cn' cn1] by (auto simp: reading_def)
  have header: "evrtsp_read_header readln ciph d cn' q \<noteq> Inr cn1" if "cn_state cn' = EVCON_READING_HEADERS" for cn' q
  proof
    assume h: "evrtsp_read_header readln ciph d cn' q = Inr cn1"
    obtain s q1 rest where p: "evrtsp_parse_headers readln q (cn_input_buffer cn') = Inr (s, q1, rest)"
      using h by (cases "evrtsp_parse_headers readln q (cn_input_buffer cn')") (auto simp: evrtsp_read_header_def)
    obtain ret q2 where len: "evrtsp_get_body_length q1 = (ret, q2)" by fastforce
    show False
      using that h p len fail body assms(2)
      by (cases s; cases "rq_kind q1"; cases "ret = -1") (auto simp: evrtsp_read_header_def evrtsp_get_body_def Let_def)
  qed
  obtain req reqs where q: "cn_requests cn = req # reqs"
    using assms(1) by (cases "cn_requests cn") (simp_all add: evrtsp_read_message_def)
  have st: "cn_state cn = EVCON_READING_FIRSTLINE"
    using assms(1,3) body header by (auto simp: evrtsp_read_message_def q reading_def)
  then have line: "evrtsp_read_firstline readln ciph d cn req = Inr cn1"
    using assms(1) by (simp add: evrtsp_read_message_def q)
  obtain s r1 rest where p: "evrtsp_parse_firstline readln req (cn_input_buffer cn) = (s, r1, rest)"
    and none: "s = MORE_DATA_EXPECTED \<Longrightarrow> rest = cn_input_buffer cn \<and> r1 = req"
    by (rule evrtsp_parse_firstline_append [OF assms(4), of "cn_input_buffer cn" "[]" req]) (simp add: cut_ok_def, rule that)
  show ?thesis
    using line p none st header fail assms(2)
    by (cases s) (auto simp: evrtsp_read_firstline_def Let_def)
qed

lemma feed_all_more:
  assumes "readln_ok readln"
  shows "feed_all readln ciph d ps cn = Some cn1 \<Longrightarrow> reading (cn_state cn) \<Longrightarrow>
    (cn_state cn = EVCON_READING_FIRSTLINE \<longrightarrow> cuts_ok (cn_input_buffer cn) (map fst ps) b) \<Longrightarrow>
    reading (cn_state cn1)
    \<and> evrtsp_read_message readln ciph d' (with_input b raw k cn1)
        = evrtsp_read_message readln ciph d' (with_input (concat (map fst ps) @ b) raw k cn)"
proof (induction ps arbitrary: cn)
  case (Cons x ps)
  obtain p r0 k0 where x: "x = (p, r0, k0)" using prod_cases3 by blast
  obtain cn2 where cn2: "evrtsp_read_message readln ciph d (with_input p r0 k0 cn) = Inr cn2" "reading (cn_state cn2)"
      "feed_all readln ciph d ps cn2 = Some cn1"
    using Cons.prems(1) by (auto simp: x split: sum.splits if_splits)
  have cuts: "cn_state cn2 = EVCON_READING_FIRSTLINE \<longrightarrow> cuts_ok (cn_input_buffer cn2) (map fst ps) b"
    using still_firstline [OF cn2(1) _ _ assms] Cons.prems(2,3) by (auto simp: x)
  note IH = Cons.IH [OF cn2(3,2) cuts]
  have "evrtsp_read_message readln ciph d' (with_input (concat (map fst ps) @ b) raw k cn2)
      = evrtsp_read_message readln ciph d' (with_input (concat (map fst ps) @ b) raw k (with_input p r0 k0 cn))"
    using Cons.prems(2,3) by (intro read_message_more [OF assms cn2(1,2)]) (auto simp: x with_input_def)
  with IH show ?case by (simp add: x)
qed simp

lemma feed_all_snoc:
  "feed_all readln ciph d (qs @ [x]) cn = Option.bind (feed_all readln ciph d qs cn) (feed_all readln ciph d [x])"
  by (induction qs arbitrary: cn) (auto split: sum.split)

lemma cuts_ok_snoc: "cuts_ok buf (xs @ [x]) b \<longleftrightarrow> cuts_ok buf xs (x @ b) \<and> cut_ok (buf @ concat xs @ x) b"
  by (induction xs arbitrary: buf) auto

text \<open>What the parser makes of a response, from its first line to its body.\<close>

definition parsed :: "readln \<Rightarrow> rtsp_request \<Rightarrow> bytes \<Rightarrow> rtsp_request \<Rightarrow> bytes \<Rightarrow> bool" where
  "parsed readln req resp req3 body \<longleftrightarrow> (\<exists>req1 rest req2.
     evrtsp_parse_firstline readln req resp = (ALL_DATA_READ, req1, rest)
   \<and> evrtsp_parse_headers readln req1 rest = Inr (ALL_DATA_READ, req2, body)
   \<and> rq_kind req2 = EVRTSP_RESPONSE \<and> evrtsp_get_body_length req2 = (0, req3) \<and> rq_ntoread req3 = int (length body))"

definition awaits :: "rtsp_request \<Rightarrow> rtsp_request list \<Rightarrow> 'k connection \<Rightarrow> bool" where
  "awaits req reqs cn \<longleftrightarrow> cn_state cn = EVCON_READING_FIRSTLINE \<and> cn_requests cn = req # reqs \<and> cn_input_buffer cn = []"

lemma prefix_reading:
  assumes "readln_ok readln" and "awaits req reqs cn" and "parsed readln req (x @ y) req3 body" and "y \<noteq> []" and "cut_ok x y"
  shows "\<exists>cn1. evrtsp_read_message readln ciph d (with_input x raw k cn) = Inr cn1 \<and> reading (cn_state cn1)"
proof -
  obtain req1 rest req2 where whole: "evrtsp_parse_firstline readln req (x @ y) = (ALL_DATA_READ, req1, rest)"
      "evrtsp_parse_headers readln req1 rest = Inr (ALL_DATA_READ, req2, body)" "rq_kind req2 = EVRTSP_RESPONSE"
      "evrtsp_get_body_length req2 = (0, req3)" "rq_ntoread req3 = int (length body)"
    using assms(3) by (auto simp: parsed_def)
  obtain st q1 r1 where pl: "evrtsp_parse_firstline readln req x = (st, q1, r1)"
      "evrtsp_parse_firstline readln req (x @ y) =
       (if st = MORE_DATA_EXPECTED then evrtsp_parse_firstline readln q1 (r1 @ y) else (st, q1, r1 @ y))"
    by (rule evrtsp_parse_firstline_append [OF assms(1,5), where req = req]) (rule that)
  obtain st2 q2 r2 where ph: "evrtsp_parse_headers readln q1 r1 = Inr (st2, q2, r2)"
      "evrtsp_parse_headers readln q1 (r1 @ y) =
       (if st2 = MORE_DATA_EXPECTED then evrtsp_parse_headers readln q2 (r2 @ y) else Inr (st2, q2, r2 @ y))"
    by (rule evrtsp_parse_headers_append [OF assms(1), where req = q1 and a = r1]) (rule that)
  have start: "cn_state (with_input x raw k cn) = EVCON_READING_FIRSTLINE" "cn_requests (with_input x raw k cn) = req # reqs"
      "cn_input_buffer (with_input x raw k cn) = x"
    using assms(2) by (simp_all add: awaits_def)
  consider (line) "st = MORE_DATA_EXPECTED" | (headers) "st = ALL_DATA_READ" "st2 = MORE_DATA_EXPECTED"
    | (body) "st = ALL_DATA_READ" "st2 = ALL_DATA_READ" "q2 = req2" "body = r2 @ y"
    using whole(1,2) pl(2) ph(2) by (cases "st = MORE_DATA_EXPECTED"; cases "st2 = MORE_DATA_EXPECTED") auto
  then show ?thesis
  proof cases
    case line
    with pl(1) start show ?thesis
      by (simp add: evrtsp_read_message_def evrtsp_read_firstline_def Let_def evrtsp_add_event_def reading_def)
  next
    case headers
    with ph(1) pl(1) start show ?thesis
      by (simp add: evrtsp_read_message_def evrtsp_read_firstline_def evrtsp_read_header_def Let_def evrtsp_add_event_def reading_def)
  next
    case body
    have "int (length r2) < rq_ntoread req3" using whole(5) body(4) assms(4) by simp
    with body ph(1) pl(1) start whole(3,4) show ?thesis
      by (simp add: evrtsp_read_message_def evrtsp_read_firstline_def evrtsp_read_header_def evrtsp_get_body_def
          evrtsp_read_body_def Let_def evrtsp_add_event_def reading_def)
  qed
qed

lemma whole_response:
  assumes "awaits req reqs cn" and "parsed readln req resp req3 body"
  shows "evrtsp_read_message readln ciph d (with_input resp raw k cn) =
    evrtsp_connection_done ciph d ((with_input [] raw k cn)\<lparr>cn_state := EVCON_READING_BODY, cn_input_buffer := [],
      cn_requests := req3\<lparr>rq_input_buffer := rq_input_buffer req3 @ body, rq_ntoread := 0\<rparr> # reqs\<rparr>)"
proof -
  have "cn_state (with_input resp raw k cn) = EVCON_READING_FIRSTLINE" "cn_requests (with_input resp raw k cn) = req # reqs"
      "cn_input_buffer (with_input resp raw k cn) = resp"
    using assms(1) by (simp_all add: awaits_def)
  with assms(2) show ?thesis
    by (auto simp: parsed_def evrtsp_read_message_def evrtsp_read_firstline_def evrtsp_read_header_def evrtsp_get_body_def
        evrtsp_read_body_def Let_def with_input_def)
qed

lemma feed_response:
  assumes "readln_ok readln" and "awaits req reqs cn" and "parsed readln req (concat (map fst ps) @ p) req3 body"
    and "p \<noteq> []" and "cuts_ok [] (map fst ps) p"
  shows "\<exists>cn1. feed_all readln ciph d ps cn = Some cn1
    \<and> evrtsp_read_message readln ciph d' (with_input p raw k cn1)
        = evrtsp_read_message readln ciph d' (with_input (concat (map fst ps) @ p) raw k cn)"
proof -
  have buf: "cn_input_buffer cn = []" "reading (cn_state cn)" using assms(2) by (simp_all add: awaits_def reading_def)
  have "parsed readln req (concat (map fst qs) @ rest) req3 body \<Longrightarrow> rest \<noteq> [] \<Longrightarrow> cuts_ok [] (map fst qs) rest \<Longrightarrow>
      \<exists>cn1. feed_all readln ciph d qs cn = Some cn1" for qs rest
  proof (induction qs arbitrary: rest rule: rev_induct)
    case (snoc x qs)
    obtain q r0 k0 where x: "x = (q, r0, k0)" using prod_cases3 by blast
    have cuts: "cuts_ok [] (map fst qs) (q @ rest)" "cut_ok (concat (map fst qs) @ q) rest"
      using snoc.prems(3) by (simp_all add: x cuts_ok_snoc)
    obtain cn1 where cn1: "feed_all readln ciph d qs cn = Some cn1"
      using snoc.IH [of "q @ rest"] snoc.prems(1,2) cuts(1) by (auto simp: x)
    have cuts_q: "cuts_ok [] (map fst qs) q" by (rule cuts_ok_prefix [OF cuts(1)])
    note eq = feed_all_more [OF assms(1) cn1 buf(2), unfolded buf(1), of q d r0 k0]
    obtain cn2 where "evrtsp_read_message readln ciph d (with_input (concat (map fst qs) @ q) r0 k0 cn) = Inr cn2" "reading (cn_state cn2)"
      using prefix_reading [OF assms(1,2) _ snoc.prems(2) cuts(2)] snoc.prems(1) by (simp add: x) blast
    then show ?case using eq cuts_q by (simp add: feed_all_snoc cn1 x)
  qed simp
  from this [OF assms(3-5)] obtain cn1 where "feed_all readln ciph d ps cn = Some cn1" by blast
  with feed_all_more [OF assms(1) this buf(2), unfolded buf(1), of p d' raw k] assms(5) show ?thesis by simp
qed

end
