(* ===== verification/Rtsp_Responses.thy ===== *)
theory Rtsp_Responses
  imports Rtsp_Reading
begin

text \<open>
  Responses on a connection without encryption: what the client makes of a response that arrives in
  pieces, and where it goes wrong.
\<close>

subsection \<open>The bytes of a response\<close>

definition status_line :: "nat \<Rightarrow> bytes \<Rightarrow> bytes" where
  "status_line code reason = str ''RTSP/1.0 '' @ dec_digits code @ [32] @ reason"

definition response_bytes :: "nat \<Rightarrow> bytes \<Rightarrow> headers \<Rightarrow> bytes \<Rightarrow> bytes" where
  "response_bytes code reason hs body = status_line code reason @ [13, 10] @ concat (map header_line hs) @ [13, 10] @ body"

definition status_ok :: "nat \<Rightarrow> bytes \<Rightarrow> bool" where
  "status_ok code reason \<longleftrightarrow> 0 < code \<and> code < 2 ^ 31 \<and> (\<forall>b \<in> set reason. b \<noteq> 0 \<and> \<not> is_eol b)"

text \<open>A response has at least one header; its length header is right, and may be missing without a body.\<close>

definition response_ok :: "nat \<Rightarrow> bytes \<Rightarrow> headers \<Rightarrow> bytes \<Rightarrow> bool" where
  "response_ok code reason hs body \<longleftrightarrow> status_ok code reason \<and> hs \<noteq> [] \<and> (\<forall>h \<in> set hs. header_ok h)
     \<and> int (length body) < 2 ^ 63
     \<and> (case evrtsp_find_header hs (str ''Content-Length'') of None \<Rightarrow> body = [] | Some v \<Rightarrow> v = dec_digits (length body))"

text \<open>A request that waits for its response, and the request with the response.\<close>

definition waiting :: "rtsp_request \<Rightarrow> bool" where
  "waiting req \<longleftrightarrow> rq_cb req \<and> rq_kind req = EVRTSP_RESPONSE \<and> rq_input_headers req = [] \<and> rq_input_buffer req = []"

definition answered :: "rtsp_request \<Rightarrow> nat \<Rightarrow> bytes \<Rightarrow> headers \<Rightarrow> bytes \<Rightarrow> rtsp_request" where
  "answered req code reason hs body =
     req\<lparr>rq_evcon := False, rq_major := 1, rq_minor := 0, rq_response_code := int code, rq_response_code_line := Some reason,
        rq_input_headers := hs, rq_input_buffer := body, rq_ntoread := 0\<rparr>"

lemma atoi_dec_digits: "n < 2 ^ 31 \<Longrightarrow> atoi (dec_digits n) = int n"
proof -
  assume "n < 2 ^ 31"
  then have n: "int n < 2 ^ 31" by (metis of_nat_less_iff of_nat_numeral of_nat_power)
  then have "strtoll10 (dec_digits n) = int n" by (intro strtoll10_dec_digits) simp
  moreover have "signed_take_bit 31 (int n) = int n" using n by (intro signed_take_bit_int_eq_self) simp_all
  ultimately show ?thesis by (simp add: atoi_def signed_of_nat)
qed

lemma status_line_bytes:
  assumes "status_ok code reason"
  shows "0 \<notin> set (status_line code reason)" "\<forall>b \<in> set (status_line code reason). \<not> is_eol b"
  using assms dec_digits_range [of _ code] by (fastforce simp: status_line_def status_ok_def str_def is_eol_def)+

lemma parse_status_line:
  assumes "status_ok code reason"
  shows "evrtsp_parse_response_line req (status_line code reason) =
    (0, req\<lparr>rq_major := 1, rq_minor := 0, rq_response_code := int code, rq_response_code_line := Some reason\<rparr>)"
proof -
  have "status_line code reason = str ''RTSP/1.0'' @ 32 # (dec_digits code @ 32 # reason)"
    by (simp add: status_line_def str_def)
  moreover have "32 \<notin> set (str ''RTSP/1.0'')" by (simp add: str_def)
  moreover have "32 \<notin> set (dec_digits code)" using dec_digits_range [of 32 code] by auto
  ultimately show ?thesis
    using assms by (simp add: evrtsp_parse_response_line_def strsep_first atoi_dec_digits status_ok_def evrtsp_valid_response_code_def Let_def)
qed

lemma parse_firstline_status:
  assumes "readln_ok readln" and "status_ok code reason" and "rq_kind req = EVRTSP_RESPONSE" and "is_eol e"
  shows "evrtsp_parse_firstline readln req (status_line code reason @ e # rest) =
    (ALL_DATA_READ, req\<lparr>rq_major := 1, rq_minor := 0, rq_response_code := int code, rq_response_code_line := Some reason\<rparr>,
     dropWhile is_eol rest)"
  using assms by (simp add: evrtsp_parse_firstline_def readln_any(2) [OF assms(1) status_line_bytes(2) [OF assms(2)] assms(4)]
      c_string_no_zero [OF status_line_bytes(1)] parse_status_line)

lemma header_text_start:
  assumes "header_ok h"
  shows "dropWhile is_eol (header_line h @ rest) = header_line h @ rest"
  using assms by (cases h; cases "fst h") (auto simp: header_ok_def header_line_def is_eol_def)

lemma parsed_response:
  assumes "readln_ok readln" and "response_ok code reason hs body" and "waiting req"
  shows "parsed readln req (response_bytes code reason hs body)
    (req\<lparr>rq_major := 1, rq_minor := 0, rq_response_code := int code, rq_response_code_line := Some reason,
        rq_input_headers := hs, rq_ntoread := int (length body)\<rparr>) body"
proof -
  let ?rest = "concat (map header_line hs) @ [13, 10] @ body"
  let ?req1 = "req\<lparr>rq_major := 1, rq_minor := 0, rq_response_code := int code, rq_response_code_line := Some reason\<rparr>"
  obtain h hs1 where hs: "hs = h # hs1" "header_ok h" using assms(2) by (cases hs) (auto simp: response_ok_def)
  have "dropWhile is_eol (10 # ?rest) = ?rest"
    using header_text_start [OF hs(2), of "concat (map header_line hs1) @ [13, 10] @ body"] by (simp add: hs(1) is_eol_def)
  then have line: "evrtsp_parse_firstline readln req (response_bytes code reason hs body) = (ALL_DATA_READ, ?req1, ?rest)"
    using parse_firstline_status [OF assms(1) _ _, of code reason req 13 "10 # ?rest"] assms(2,3)
    by (simp add: response_bytes_def response_ok_def waiting_def is_eol_def)
  have headers: "evrtsp_parse_headers readln ?req1 ?rest = Inr (ALL_DATA_READ, ?req1\<lparr>rq_input_headers := hs\<rparr>, body)"
    using parse_headers_lines [OF assms(1), of hs "[]" body] assms(2,3)
    by (simp add: evrtsp_parse_headers_eq response_ok_def waiting_def)
  have "evrtsp_get_body_length (?req1\<lparr>rq_input_headers := hs\<rparr>) = (0, ?req1\<lparr>rq_input_headers := hs, rq_ntoread := int (length body)\<rparr>)"
    using assms(2) by (auto simp: evrtsp_get_body_length_def response_ok_def strtoll10_dec_digits Let_def split: option.splits)
  with line headers assms(3) show ?thesis
    by (auto simp: parsed_def waiting_def)
qed

lemma cut_ok_length:
  assumes "x @ y = l @ 13 # 10 # rest" and "\<forall>b \<in> set l. \<not> is_eol b" and "dropWhile is_eol rest = rest" and "rest \<noteq> []"
    and "length x \<noteq> length l + 1"
  shows "cut_ok x y"
proof -
  have eol: "is_eol 13" "is_eol 10" by (simp_all add: is_eol_def)
  have rest: "\<not> is_eol (hd rest)" using hd_dropWhile [of is_eol rest] assms(3,4) by simp
  have take: "x = take (length x) (l @ 13 # 10 # rest)" "y = drop (length x) (l @ 13 # 10 # rest)"
    using assms(1) by (metis append_eq_conv_conj)+
  consider "length x \<le> length l" | "length x = length l + 2" | "length x > length l + 2"
    using assms(5) by linarith
  then show ?thesis
  proof cases
    case 1
    then have "set x \<subseteq> set l" using take(1) set_take_subset [of "length x" l] by simp
    then show ?thesis using assms(2) by (auto simp: cut_ok_def)
  next
    case 2
    then have "y = rest" using take(2) by simp
    then show ?thesis using rest by (simp add: cut_ok_def)
  next
    case 3
    then obtain n where n: "length x = length l + (2 + Suc n)" using less_imp_Suc_add [OF 3] by auto
    then have "length x = length l + Suc (Suc (Suc n))" by simp
    with take(1) have x: "x = l @ 13 # 10 # take (Suc n) rest" by (metis diff_add_inverse le_add1 take_Suc_Cons take_all take_append)
    have "dropWhile (\<lambda>c. \<not> is_eol c) x = 13 # 10 # take (Suc n) rest"
      unfolding x using assms(2) eol by (simp add: dropWhile_append)
    moreover obtain c cs where "rest = c # cs" using assms(4) by (cases rest) simp_all
    ultimately have "dropWhile is_eol (dropWhile (\<lambda>c. \<not> is_eol c) x) = take (Suc n) rest"
      using rest eol by simp
    then show ?thesis using assms(4) by (simp add: cut_ok_def)
  qed
qed

subsection \<open>Reading without a cipher\<close>

fun read_chunks :: "readln \<Rightarrow> 'k ciphercb \<Rightarrow> dial \<Rightarrow> bytes list \<Rightarrow> 'k connection \<Rightarrow> 'k connection res" where
  "read_chunks readln ciph d [] cn = Inr cn"
| "read_chunks readln ciph d (c # cs) cn =
     bind_res (evrtsp_read readln ciph d (Read_bytes c) (cn\<lparr>cn_ev := None\<rparr>)) (read_chunks readln ciph d cs)"

lemma read_chunks_append:
  "read_chunks readln ciph d (cs @ cs') cn = bind_res (read_chunks readln ciph d cs cn) (read_chunks readln ciph d cs')"
proof (induction cs arbitrary: cn)
  case (Cons c cs)
  then show ?case by (cases "evrtsp_read readln ciph d (Read_bytes c) (cn\<lparr>cn_ev := None\<rparr>)") simp_all
qed simp

text \<open>While it reads, a connection only changes its input and its first request.\<close>

definition same_pipes :: "'k connection \<Rightarrow> 'k connection \<Rightarrow> bool" where
  "same_pipes a b \<longleftrightarrow> cn_input_raw b = cn_input_raw a \<and> cn_ciphercb b = cn_ciphercb a \<and> cn_log b = cn_log a"

lemma read_message_pipes:
  assumes "evrtsp_read_message readln ciph d cn = Inr cn1" and "reading (cn_state cn1)" and "reading (cn_state cn)"
  shows "same_pipes cn cn1"
proof -
  have fail: "evrtsp_connection_fail d e cn' \<noteq> Inr cn1" for e cn'
    using assms(2) fail_not_reading [of d e cn' cn1] by auto
  have body: "same_pipes cn' cn1" if "evrtsp_read_body ciph d cn' q = Inr cn1" for cn' q
    using that assms(2) done_not_reading [of ciph d _ cn1]
    by (auto simp: evrtsp_read_body_def Let_def same_pipes_def split: if_splits)
  have get: "same_pipes cn' cn1" if "evrtsp_get_body ciph d cn' q = Inr cn1" for cn' q
    using that body fail by (fastforce simp: evrtsp_get_body_def Let_def same_pipes_def split: prod.splits if_splits)
  have header: "same_pipes cn' cn1" if h: "evrtsp_read_header readln ciph d cn' q = Inr cn1" for cn' q
  proof -
    obtain s q1 rest where p: "evrtsp_parse_headers readln q (cn_input_buffer cn') = Inr (s, q1, rest)"
      using h by (cases "evrtsp_parse_headers readln q (cn_input_buffer cn')") (auto simp: evrtsp_read_header_def)
    show ?thesis
      using h p fail get [of "cn'\<lparr>cn_input_buffer := rest, cn_requests := q1 # tl (cn_requests cn')\<rparr>" q1]
      by (cases s; cases "rq_kind q1") (auto simp: evrtsp_read_header_def Let_def same_pipes_def)
  qed
  have line: "same_pipes cn' cn1" if "evrtsp_read_firstline readln ciph d cn' q = Inr cn1" for cn' q
  proof -
    obtain s q1 rest where p: "evrtsp_parse_firstline readln q (cn_input_buffer cn') = (s, q1, rest)" by (metis surj_pair)
    show ?thesis
      using that p fail header [of "cn'\<lparr>cn_input_buffer := rest, cn_requests := q1 # tl (cn_requests cn'), cn_state := EVCON_READING_HEADERS\<rparr>" q1]
      by (cases s) (auto simp: evrtsp_read_firstline_def Let_def same_pipes_def)
  qed
  show ?thesis
    using assms(1,3) body header line by (auto simp: evrtsp_read_message_def reading_def split: list.splits)
qed

lemma read_plain:
  "cn_ciphercb cn = None \<Longrightarrow> cn_input_raw cn = [] \<Longrightarrow>
     evrtsp_read readln ciph d (Read_bytes c) (cn\<lparr>cn_ev := None\<rparr>) = evrtsp_read_message readln ciph d (with_input c [] None cn)"
  by (cases cn) (simp add: evrtsp_read_def with_input_def)

lemma feed_plain:
  "feed_all readln ciph d (map (\<lambda>c. (c, [], None)) cs) cn = Some cn1 \<Longrightarrow> cn_ciphercb cn = None \<Longrightarrow> cn_input_raw cn = [] \<Longrightarrow>
     reading (cn_state cn) \<Longrightarrow> read_chunks readln ciph d cs cn = Inr cn1 \<and> same_pipes cn cn1"
proof (induction cs arbitrary: cn)
  case Nil
  then show ?case by (simp add: same_pipes_def)
next
  case (Cons c cs)
  then obtain cn2 where cn2: "evrtsp_read_message readln ciph d (with_input c [] None cn) = Inr cn2" "reading (cn_state cn2)"
      "feed_all readln ciph d (map (\<lambda>c. (c, [], None)) cs) cn2 = Some cn1"
    by (auto split: sum.splits if_splits)
  have "same_pipes (with_input c [] None cn) cn2"
    using read_message_pipes [OF cn2(1,2)] Cons.prems(4) by simp
  then have "same_pipes cn cn2" using Cons.prems(2,3) by (simp add: same_pipes_def with_input_def)
  with Cons.IH [OF cn2(3) _ _ cn2(2)] Cons.prems(2,3) read_plain [of cn] cn2(1) show ?case
    by (simp add: same_pipes_def)
qed

lemma done_called:
  assumes "cn_requests cn = req # reqs" and "rq_cb req" and "reqs = [] \<or> cn_ciphercb cn = None"
  shows "\<exists>cn'. evrtsp_connection_done ciph d cn = Inr cn'
     \<and> cn_log cn' = cn_log cn @ [Called (rq_id req) (Some (req\<lparr>rq_evcon := False\<rparr>))]
     \<and> map rq_id (cn_requests cn') = map rq_id reqs \<and> cn_input_buffer cn' = cn_input_buffer cn
     \<and> cn_state cn' = (if reqs = [] then EVCON_IDLE else EVCON_WRITING)"
proof (cases reqs)
  case Nil
  then show ?thesis using assms by (simp add: evrtsp_connection_done_def evrtsp_connection_start_detectclose_def)
next
  case (Cons r rs)
  obtain msg r1 where h: "evrtsp_make_header r = (msg, r1)" by fastforce
  then have "rq_id r1 = rq_id r" by (auto simp: evrtsp_make_header_def evrtsp_make_header_request_def split: if_splits)
  then show ?thesis
    using assms Cons h by (simp add: evrtsp_connection_done_def evrtsp_connected_def evrtsp_request_dispatch_def
        evrtsp_connection_stop_detectclose_def evrtsp_write_buffer_def Let_def)
qed

text \<open>C40: A response in pieces. Let a request wait for its response on a connection without encryption.
  When the bytes of a response with a status line, headers and a body of the stated length arrive, cut
  in any way except between the carriage return and the line feed of the status line, the request's
  callback is called once, with the code, the reason, the headers and the body, and the connection is
  idle or already writes the next request.\<close>

theorem response_delivered:
  assumes "readln_ok readln" and "awaits req reqs cn" and "waiting req" and "cn_ciphercb cn = None" and "cn_input_raw cn = []"
    and "response_ok code reason hs body" and "concat cs = response_bytes code reason hs body" and "[] \<notin> set cs"
    and "\<forall>i. length (concat (take i cs)) \<noteq> length (status_line code reason) + 1"
  shows "\<exists>cn'. read_chunks readln ciph d cs cn = Inr cn'
     \<and> cn_log cn' = cn_log cn @ [Called (rq_id req) (Some (answered req code reason hs body))]
     \<and> map rq_id (cn_requests cn') = map rq_id reqs \<and> cn_input_buffer cn' = []
     \<and> cn_state cn' = (if reqs = [] then EVCON_IDLE else EVCON_WRITING)"
proof -
  have "cs \<noteq> []" using assms(7) by (auto simp: response_bytes_def)
  then obtain ds c where cs: "cs = ds @ [c]" by (cases cs rule: rev_cases) auto
  let ?l = "status_line code reason" and ?rest = "concat (map header_line hs) @ [13, 10] @ body"
  have resp: "response_bytes code reason hs body = ?l @ 13 # 10 # ?rest" by (simp add: response_bytes_def)
  obtain h hs1 where h: "hs = h # hs1" "header_ok h" using assms(6) by (cases hs) (auto simp: response_ok_def)
  have rest: "dropWhile is_eol ?rest = ?rest" "?rest \<noteq> []"
    using header_text_start [OF h(2), of "concat (map header_line hs1) @ [13, 10] @ body"] by (simp_all add: h(1))
  have noeol: "\<forall>b \<in> set ?l. \<not> is_eol b" using assms(6) status_line_bytes(2) [of code reason] by (simp add: response_ok_def)
  have "cuts_ok (concat (take n cs)) (take m (drop n cs)) (concat (drop (n + m) cs))" for n m
  proof (induction m arbitrary: n)
    case (Suc m)
    show ?case
    proof (cases "n < length cs")
      case True
      have step: "take (Suc m) (drop n cs) = cs ! n # take m (drop (Suc n) cs)"
        using True by (simp add: Cons_nth_drop_Suc [symmetric])
      have pre: "concat (take n cs) @ cs ! n = concat (take (Suc n) cs)" using True by (simp add: take_Suc_conv_app_nth)
      have post: "concat (take m (drop (Suc n) cs)) @ concat (drop (n + Suc m) cs) = concat (drop (Suc n) cs)"
        by (metis add.commute add_Suc_right append_take_drop_id concat_append drop_drop)
      have "concat (take (Suc n) cs) @ concat (drop (Suc n) cs) = ?l @ 13 # 10 # ?rest"
        using assms(7) resp by (metis append_take_drop_id concat_append)
      then have "cut_ok (concat (take (Suc n) cs)) (concat (drop (Suc n) cs))"
        by (rule cut_ok_length [OF _ noeol rest]) (rule assms(9) [rule_format])
      then show ?thesis using Suc.IH [of "Suc n"] unfolding step cuts_ok.simps pre post by simp
    qed simp
  qed simp
  from this [of 0 "length ds"] have cuts: "cuts_ok [] ds c" by (simp add: cs)
  have map: "map fst (map (\<lambda>c. (c, [], None)) ds) = ds" for ds :: "bytes list" by (simp add: comp_def)
  let ?ps = "map (\<lambda>c. (c, [], None)) ds" 
  have "parsed readln req (concat (map fst ?ps) @ c) (req\<lparr>rq_major := 1, rq_minor := 0, rq_response_code := int code, rq_response_code_line := Some reason,
        rq_input_headers := hs, rq_ntoread := int (length body)\<rparr>) body"
    using parsed_response [OF assms(1,6,3)] assms(7) unfolding map cs by simp
  note parsed = this
  have "c \<noteq> []" using assms(8) by (auto simp: cs)
  from feed_response [OF assms(1,2) parsed this, unfolded map, OF cuts, of ciph d d "[]" None]
  obtain cn1 where cn1: "feed_all readln ciph d ?ps cn = Some cn1"
      "evrtsp_read_message readln ciph d (with_input c [] None cn1) = evrtsp_read_message readln ciph d (with_input (concat ds @ c) [] None cn)"
    by blast
  have reading: "reading (cn_state cn)" using assms(2) by (simp add: awaits_def reading_def)
  have chunks: "read_chunks readln ciph d ds cn = Inr cn1" "same_pipes cn cn1"
    using feed_plain [OF cn1(1) assms(4,5) reading] by simp_all
  have "cn_ciphercb cn1 = None" "cn_input_raw cn1 = []" using chunks(2) assms(4,5) by (simp_all add: same_pipes_def)
  note last = read_plain [OF this, of readln ciph d c, unfolded cn1(2) whole_response [OF assms(2) parsed, unfolded map]]
  let ?cn2 = "(with_input [] [] None cn)\<lparr>cn_state := EVCON_READING_BODY, cn_input_buffer := [],
      cn_requests := (answered req code reason hs body)\<lparr>rq_evcon := rq_evcon req\<rparr> # reqs\<rparr>"
  have "req\<lparr>rq_major := 1, rq_minor := 0, rq_response_code := int code, rq_response_code_line := Some reason,
        rq_input_headers := hs, rq_ntoread := int (length body)\<rparr>\<lparr>rq_input_buffer := rq_input_buffer (req\<lparr>rq_major := 1, rq_minor := 0,
        rq_response_code := int code, rq_response_code_line := Some reason,
        rq_input_headers := hs, rq_ntoread := int (length body)\<rparr>) @ body, rq_ntoread := 0\<rparr>
      = (answered req code reason hs body)\<lparr>rq_evcon := rq_evcon req\<rparr>"
    using assms(3) by (cases req) (simp add: answered_def waiting_def)
  then have "read_chunks readln ciph d cs cn = evrtsp_connection_done ciph d ?cn2"
    using chunks(1) last by (simp add: cs read_chunks_append) (cases "evrtsp_connection_done ciph d ?cn2"; simp)
  moreover obtain cn' where "evrtsp_connection_done ciph d ?cn2 = Inr cn'"
      "cn_log cn' = cn_log cn @ [Called (rq_id req) (Some (answered req code reason hs body))]"
      "map rq_id (cn_requests cn') = map rq_id reqs" "cn_input_buffer cn' = []"
      "cn_state cn' = (if reqs = [] then EVCON_IDLE else EVCON_WRITING)"
    using done_called [of ?cn2 "(answered req code reason hs body)\<lparr>rq_evcon := rq_evcon req\<rparr>" reqs ciph d] assms(3)
    by (auto simp: answered_def waiting_def with_input_def)
  ultimately show ?thesis by auto
qed

subsection \<open>Responses that are misread\<close>

lemma read_message_firstline:
  assumes "awaits req reqs cn" and "evrtsp_parse_firstline readln req x = (ALL_DATA_READ, req1, rest)"
    and "evrtsp_parse_headers readln req1 rest = Inr (st, req2, buf)"
  shows "evrtsp_read_message readln ciph d (with_input x raw k cn) =
    (let cn2 = (with_input [] raw k cn)\<lparr>cn_state := EVCON_READING_HEADERS, cn_input_buffer := buf, cn_requests := req2 # reqs\<rparr> in
     case st of
       DATA_CORRUPTED \<Rightarrow> evrtsp_connection_fail d EVCON_RTSP_INVALID_HEADER cn2
     | MORE_DATA_EXPECTED \<Rightarrow> Inr (evrtsp_add_event Ev_read RTSP_READ_TIMEOUT cn2)
     | ALL_DATA_READ \<Rightarrow> (case rq_kind req2 of
              EVRTSP_RESPONSE \<Rightarrow> evrtsp_get_body ciph d cn2 req2
            | EVRTSP_REQUEST \<Rightarrow> evrtsp_connection_fail d EVCON_RTSP_INVALID_HEADER cn2))"
proof -
  have "cn_state (with_input x raw k cn) = EVCON_READING_FIRSTLINE" "cn_requests (with_input x raw k cn) = req # reqs"
      "cn_input_buffer (with_input x raw k cn) = x"
    using assms(1) by (simp_all add: awaits_def)
  with assms(2,3) show ?thesis
    by (simp add: evrtsp_read_message_def evrtsp_read_firstline_def evrtsp_read_header_def Let_def with_input_def)
qed

lemma cut_status_line:
  assumes "readln_ok readln" and "awaits req reqs cn" and "waiting req" and "cn_ciphercb cn = None" and "cn_input_raw cn = []"
    and "status_ok code reason"
  shows "\<exists>cn'. read_chunks readln ciph d [status_line code reason @ [13], 10 # rest] cn = Inr cn'
     \<and> cn_log cn' = cn_log cn @ [Called (rq_id req) (Some (answered req code reason [] []))] \<and> cn_input_buffer cn' = rest"
proof -
  let ?req1 = "req\<lparr>rq_major := 1, rq_minor := 0, rq_response_code := int code, rq_response_code_line := Some reason\<rparr>"
  have line: "evrtsp_parse_firstline readln req (status_line code reason @ [13]) = (ALL_DATA_READ, ?req1, [])"
    using parse_firstline_status [OF assms(1,6), of req 13 "[]"] assms(3) by (simp add: waiting_def is_eol_def)
  have none: "evrtsp_parse_headers readln ?req1 [] = Inr (MORE_DATA_EXPECTED, ?req1, [])"
    by (simp add: evrtsp_parse_headers_eq parse_headers_simps(1) [OF assms(1)])
  let ?cn1 = "(with_input [] [] None cn)\<lparr>cn_state := EVCON_READING_HEADERS, cn_input_buffer := [], cn_requests := ?req1 # reqs\<rparr>"
  have first: "evrtsp_read readln ciph d (Read_bytes (status_line code reason @ [13])) (cn\<lparr>cn_ev := None\<rparr>)
      = Inr (evrtsp_add_event Ev_read RTSP_READ_TIMEOUT ?cn1)"
    by (simp add: read_plain [OF assms(4,5)] read_message_firstline [OF assms(2) line none])
  let ?cn2 = "evrtsp_add_event Ev_read RTSP_READ_TIMEOUT ?cn1"
  have "parse_headers readln [] (10 # rest) = Inr (ALL_DATA_READ, [], rest)"
    using parse_headers_simps(2) [OF assms(1), of "[]" "[]" rest] by (simp add: strip_cr_def c_string_def parse_header_line_def)
  then have headers: "evrtsp_parse_headers readln ?req1 (10 # rest) = Inr (ALL_DATA_READ, ?req1, rest)"
    using assms(3) by (simp add: evrtsp_parse_headers_eq waiting_def)
  let ?cn3 = "(with_input [] [] None cn)\<lparr>cn_input_buffer := rest, cn_state := EVCON_READING_BODY,
      cn_requests := ?req1\<lparr>rq_input_buffer := [], rq_ntoread := 0\<rparr> # reqs\<rparr>"
  have "cn_ciphercb ?cn2 = None" "cn_input_raw ?cn2 = []" by (simp_all add: with_input_def)
  then have "evrtsp_read readln ciph d (Read_bytes (10 # rest)) (?cn2\<lparr>cn_ev := None\<rparr>) =
      evrtsp_read_message readln ciph d (with_input (10 # rest) [] None ?cn2)"
    by (rule read_plain)
  also have "\<dots> = evrtsp_connection_done ciph d ?cn3"
    using headers assms(3) by (simp add: evrtsp_read_message_def evrtsp_read_header_def evrtsp_get_body_def
        evrtsp_get_body_length_def evrtsp_read_body_def with_input_def evrtsp_add_event_def Let_def waiting_def)
  finally have "read_chunks readln ciph d [status_line code reason @ [13], 10 # rest] cn = evrtsp_connection_done ciph d ?cn3"
    using first by (cases "evrtsp_connection_done ciph d ?cn3") simp_all
  moreover have "answered req code reason [] [] = ?req1\<lparr>rq_input_buffer := [], rq_ntoread := 0, rq_evcon := False\<rparr>"
    using assms(3) by (cases req) (simp add: answered_def waiting_def)
  ultimately show ?thesis
    using done_called [of ?cn3 "?req1\<lparr>rq_input_buffer := [], rq_ntoread := 0\<rparr>" reqs ciph d] assms(3) by (auto simp: waiting_def with_input_def)
qed

lemma response_without_headers:
  assumes "readln_ok readln" and "awaits req reqs cn" and "waiting req" and "cn_ciphercb cn = None" and "cn_input_raw cn = []"
    and "status_ok code reason"
  shows "\<exists>cn'. read_chunks readln ciph d [status_line code reason @ [13, 10, 13, 10]] cn = Inr cn'
     \<and> cn_log cn' = cn_log cn \<and> cn_state cn' = EVCON_READING_HEADERS \<and> cn_input_buffer cn' = []"
proof -
  let ?req1 = "req\<lparr>rq_major := 1, rq_minor := 0, rq_response_code := int code, rq_response_code_line := Some reason\<rparr>"
  have line: "evrtsp_parse_firstline readln req (status_line code reason @ [13, 10, 13, 10]) = (ALL_DATA_READ, ?req1, [])"
    using parse_firstline_status [OF assms(1,6), of req 13 "[10, 13, 10]"] assms(3) by (simp add: waiting_def is_eol_def)
  have none: "evrtsp_parse_headers readln ?req1 [] = Inr (MORE_DATA_EXPECTED, ?req1, [])"
    by (simp add: evrtsp_parse_headers_eq parse_headers_simps(1) [OF assms(1)])
  show ?thesis
    by (simp add: read_plain [OF assms(4,5)] read_message_firstline [OF assms(2) line none])
qed

lemma truncated_response:
  assumes "readln_ok readln" and "awaits req reqs cn" and "waiting req" and "cn_ciphercb cn = None" and "cn_input_raw cn = []"
    and "response_ok code reason hs body" and "n < length body"
  shows "\<exists>cn1 cn' req'. read_chunks readln ciph d [response_bytes code reason hs (take n body)] cn = Inr cn1
     \<and> evrtsp_read readln ciph d Read_eof (cn1\<lparr>cn_ev := None\<rparr>) = Inr cn'
     \<and> cn_log cn' = cn_log cn @ [Called (rq_id req) (Some req')]
     \<and> rq_response_code req' = int code \<and> rq_input_headers req' = hs \<and> rq_input_buffer req' = []"
proof -
  let ?rest = "concat (map header_line hs) @ [13, 10] @ take n body"
  let ?req1 = "req\<lparr>rq_major := 1, rq_minor := 0, rq_response_code := int code, rq_response_code_line := Some reason\<rparr>"
  obtain h hs1 where hs: "hs = h # hs1" "header_ok h" using assms(6) by (cases hs) (auto simp: response_ok_def)
  have "dropWhile is_eol (10 # ?rest) = ?rest"
    using header_text_start [OF hs(2), of "concat (map header_line hs1) @ [13, 10] @ take n body"] by (simp add: hs(1) is_eol_def)
  then have line: "evrtsp_parse_firstline readln req (response_bytes code reason hs (take n body)) = (ALL_DATA_READ, ?req1, ?rest)"
    using parse_firstline_status [OF assms(1) _ _, of code reason req 13 "10 # ?rest"] assms(3,6)
    by (simp add: response_bytes_def response_ok_def waiting_def is_eol_def)
  let ?req2 = "?req1\<lparr>rq_input_headers := hs\<rparr>"
  have headers: "evrtsp_parse_headers readln ?req1 ?rest = Inr (ALL_DATA_READ, ?req2, take n body)"
    using parse_headers_lines [OF assms(1), of hs "[]" "take n body"] assms(3,6)
    by (simp add: evrtsp_parse_headers_eq response_ok_def waiting_def)
  let ?req3 = "?req2\<lparr>rq_ntoread := int (length body)\<rparr>"
  have len: "evrtsp_get_body_length ?req2 = (0, ?req3)"
    using assms(6) by (auto simp: evrtsp_get_body_length_def response_ok_def strtoll10_dec_digits Let_def split: option.splits)
  let ?cn1 = "evrtsp_add_event Ev_read RTSP_READ_TIMEOUT ((with_input [] [] None cn)\<lparr>cn_input_buffer := take n body, cn_state := EVCON_READING_BODY, cn_requests := ?req3 # reqs\<rparr>)"
  have "evrtsp_read_message readln ciph d (with_input (response_bytes code reason hs (take n body)) [] None cn) = Inr ?cn1"
    unfolding read_message_firstline [OF assms(2) line headers]
    using assms(3,7) by (simp add: waiting_def evrtsp_get_body_def len evrtsp_read_body_def Let_def)
  then have "read_chunks readln ciph d [response_bytes code reason hs (take n body)] cn = Inr ?cn1"
    by (simp add: read_plain [OF assms(4,5)])
  moreover have "\<exists>cn'. evrtsp_read readln ciph d Read_eof (?cn1\<lparr>cn_ev := None\<rparr>) = Inr cn'
     \<and> cn_log cn' = cn_log cn @ [Called (rq_id req) (Some (?req3\<lparr>rq_evcon := False\<rparr>))]"
    using done_called [of "?cn1\<lparr>cn_ev := None, cn_state := EVCON_DISCONNECTED\<rparr>" ?req3 reqs ciph d] assms(3)
    by (auto simp: evrtsp_read_def waiting_def with_input_def)
  ultimately show ?thesis
    using assms(3) by (force simp: waiting_def)
qed

text \<open>Where responses are misread. First, when the line feed of the status line comes in a packet
  of its own, it is taken for the empty line after the headers: the callback gets the code without
  headers and body, and the whole rest of the response stays in the buffer for the next request.
  Second, a response without headers is never seen to end: no callback, the client goes on reading.
  Third, a response whose connection is closed within the body is given to the callback like a
  complete one, with its code and its headers, but without a body.\<close>

lemma response_misread:
  assumes "readln_ok readln" and "awaits req reqs cn" and "waiting req" and "cn_ciphercb cn = None" and "cn_input_raw cn = []"
    and "response_ok code reason hs body" and "n < length body"
  shows "(\<exists>cn'. read_chunks readln ciph d [status_line code reason @ [13], 10 # rest] cn = Inr cn'
       \<and> cn_log cn' = cn_log cn @ [Called (rq_id req) (Some (answered req code reason [] []))] \<and> cn_input_buffer cn' = rest)
   \<and> (\<exists>cn'. read_chunks readln ciph d [status_line code reason @ [13, 10, 13, 10]] cn = Inr cn'
       \<and> cn_log cn' = cn_log cn \<and> cn_state cn' = EVCON_READING_HEADERS \<and> cn_input_buffer cn' = [])
   \<and> (\<exists>cn1 cn' req'. read_chunks readln ciph d [response_bytes code reason hs (take n body)] cn = Inr cn1
       \<and> evrtsp_read readln ciph d Read_eof (cn1\<lparr>cn_ev := None\<rparr>) = Inr cn'
       \<and> cn_log cn' = cn_log cn @ [Called (rq_id req) (Some req')]
       \<and> rq_response_code req' = int code \<and> rq_input_headers req' = hs \<and> rq_input_buffer req' = [])"
  using cut_status_line [OF assms(1-5)] response_without_headers [OF assms(1-5)] truncated_response [OF assms(1-7)] assms(6)
  by (simp add: response_ok_def)

end
