(* ===== verification/Rtsp_Cipher.thy ===== *)
theory Rtsp_Cipher
  imports Rtsp_Responses Cipher_Stream
begin

text \<open>
  The RTSP client with the encryption of \<open>src/airplay.c\<close>: \<open>rtsp_cipher\<close> as the cipher callback of the
  connection. The plain text then arrives in whole blocks, however the network cuts the cipher text.
\<close>

lemma read_ciphered:
  assumes "cn_ciphercb cn = Some k" and "ciph (cn_input_buffer cn) (cn_input_raw cn @ c) k False = Inr (0, cn_input_buffer cn @ p, raw, k1)"
  shows "evrtsp_read readln ciph d (Read_bytes c) (cn\<lparr>cn_ev := None\<rparr>) = evrtsp_read_message readln ciph d (with_input p raw (Some k1) cn)"
  using assms by (cases cn) (simp add: evrtsp_read_def with_input_def)

text \<open>The blocks of a response do not cut its status line.\<close>

lemma blocks_cut_ok:
  assumes "resp = l @ 13 # 10 # rest" and "\<forall>b \<in> set l. \<not> is_eol b" and "dropWhile is_eol rest = rest" and "rest \<noteq> []"
    and "length l + 1 < 1024" and "concat (drop j (blocks resp)) \<noteq> []"
  shows "cut_ok (concat (take j (blocks resp))) (concat (drop j (blocks resp)))"
proof (rule cut_ok_length [OF _ assms(2-4)])
  show "concat (take j (blocks resp)) @ concat (drop j (blocks resp)) = l @ 13 # 10 # rest"
    by (metis append_take_drop_id assms(1) concat_append concat_blocks)
  show "length (concat (take j (blocks resp))) \<noteq> length l + 1"
  proof (cases j)
    case (Suc i)
    have resp: "resp \<noteq> []" using assms(1) by simp
    have bs: "blocks resp = take 1024 resp # blocks (drop 1024 resp)"
      using resp by (simp add: blocks.simps [of resp] ENCRYPTED_LEN_MAX_def)
    have "1024 \<le> length resp"
    proof (rule ccontr)
      assume "\<not> 1024 \<le> length resp"
      then have "blocks resp = [resp]" using bs by simp
      with assms(6) Suc show False by simp
    qed
    then have "1024 \<le> length (concat (take j (blocks resp)))" using bs Suc by simp
    then show ?thesis using assms(5) by simp
  qed simp
qed

lemma cipher_run:
  fixes d :: dial
  assumes aead: "aead_ok C" and readln: "readln_ok readln"
    and awaits: "awaits req [] cn0" and parsed: "parsed readln req resp req3 body"
    and cut: "\<And>j. concat (drop j (blocks resp)) \<noteq> [] \<Longrightarrow> cut_ok (concat (take j (blocks resp))) (concat (drop j (blocks resp)))"
  shows "\<lbrakk>feed_all readln (rtsp_cipher T C) d xs cn0 = Some cn; concat (map fst xs) = concat (take j (blocks resp));
      cuts_ok [] (map fst xs) (concat (drop j (blocks resp))); cn_ciphercb cn = Some rcv;
      cn_input_raw cn @ concat ps = seal_blocks C (c_decryption_key rcv) (c_decryption_counter rcv) (drop j (blocks resp));
      [] \<notin> set ps; ps \<noteq> []; \<forall>i. 0 < i \<longrightarrow> i \<le> length ps \<longrightarrow> (\<forall>k \<le> length (drop j (blocks resp)). length (cn_input_raw cn @ concat (take i ps)) \<noteq>
           length (seal_blocks C (c_decryption_key rcv) (c_decryption_counter rcv) (take k (drop j (blocks resp)))) + 1);
      homekit_cipher T (c_type rcv)\<rbrakk> \<Longrightarrow>
     \<exists>rcv'. read_chunks readln (rtsp_cipher T C) d ps cn = evrtsp_read_message readln (rtsp_cipher T C) d (with_input resp [] (Some rcv') cn0)"
proof (induction ps arbitrary: xs cn rcv j)
  case (Cons p ps)
  let ?ciph = "rtsp_cipher T C" and ?BS = "blocks resp"
  let ?bs = "drop j ?BS" and ?key = "c_decryption_key rcv" and ?ctr = "c_decryption_counter rcv" and ?raw = "cn_input_raw cn"
  have start: "cn_state cn0 = EVCON_READING_FIRSTLINE" "cn_input_buffer cn0 = []" "reading (cn_state cn0)"
    using awaits by (simp_all add: awaits_def reading_def)
  have split: "\<forall>k \<le> length ?bs. length (?raw @ p) \<noteq> length (seal_blocks C ?key ?ctr (take k ?bs)) + 1"
    using Cons.prems(8) [rule_format, of 1] by simp
  have "p \<noteq> []" using Cons.prems(6) by auto
  with split [rule_format, of 0] have "2 \<le> length (?raw @ p)"
    by (cases "length (?raw @ p)") (auto simp: Suc_le_eq numeral_2_eq_2)
  moreover have "(?raw @ p) @ concat ps = seal_blocks C ?key ?ctr ?bs" using Cons.prems(5) by simp
  moreover have "\<forall>b \<in> set ?bs. length b \<le> 1024" using blocks_bounds by (meson in_set_dropD)
  ultimately obtain k r where k: "k \<le> length ?bs"
    and buf: "?raw @ p = seal_blocks C ?key ?ctr (take k ?bs) @ r"
    and all: "concat ps = [] \<Longrightarrow> k = length ?bs \<and> r = []"
    and dec: "decrypt C (?raw @ p) rcv = Inr (int (length (?raw @ p) - length r), Some (concat (take k ?bs)),
           rcv\<lparr>c_decryption_counter_prev := ?ctr, c_decryption_counter := ?ctr + of_nat k\<rparr>)"
    using decrypt_prefix [OF aead _ _ _ split] by metis
  let ?rcv1 = "rcv\<lparr>c_decryption_counter_prev := ?ctr, c_decryption_counter := ?ctr + of_nat k\<rparr>"
  let ?piece = "concat (take k ?bs)"
  have "drop (length (?raw @ p) - length r) (?raw @ p) = r" unfolding buf by simp
  then have "?ciph (cn_input_buffer cn) (?raw @ p) rcv False = Inr (0, cn_input_buffer cn @ ?piece, r, ?rcv1)"
    using dec homekit_cipher_eq(2) [OF Cons.prems(9)] by (simp add: rtsp_cipher_def nat_int)
  then have read: "evrtsp_read readln ?ciph d (Read_bytes p) (cn\<lparr>cn_ev := None\<rparr>) = evrtsp_read_message readln ?ciph d (with_input ?piece r (Some ?rcv1) cn)"
    by (rule read_ciphered [OF Cons.prems(4)])
  have cuts: "cuts_ok [] (map fst xs) ?piece"
    using Cons.prems(3) cuts_ok_prefix [of "[]" "map fst xs" ?piece "concat (drop k ?bs)"]
    by (metis append_take_drop_id concat_append)
  have pre: "concat (map fst xs) @ ?piece = concat (take (j + k) ?BS)"
    using Cons.prems(2) by (simp add: take_add)
  have more: "reading (cn_state cn)"
    "evrtsp_read_message readln ?ciph d (with_input ?piece r (Some ?rcv1) cn) =
     evrtsp_read_message readln ?ciph d (with_input (concat (take (j + k) ?BS)) r (Some ?rcv1) cn0)"
    using feed_all_more [OF readln Cons.prems(1) start(3), of ?piece d r "Some ?rcv1"] cuts start(2) pre by simp_all
  show ?case
  proof (cases "ps = []")
    case True
    then have kr: "k = length ?bs" "r = []" using all by simp_all
    then have "concat (take (j + k) ?BS) = resp" using concat_blocks [of resp] by (cases "j \<le> length ?BS") simp_all
    then show ?thesis
      using read more(2) True kr(2)
      by (intro exI [of _ ?rcv1]) (cases "evrtsp_read_message readln ?ciph d (with_input resp [] (Some ?rcv1) cn0)"; simp)
  next
    case False
    have cut_bs: "?bs = take k ?bs @ drop (j + k) ?BS" by (metis add.commute append_take_drop_id drop_drop)
    have seal: "seal_blocks C ?key ?ctr ?bs =
        seal_blocks C ?key ?ctr (take k ?bs) @ seal_blocks C ?key (?ctr + of_nat k) (drop (j + k) ?BS)"
      by (subst (1) cut_bs) (use k in \<open>simp add: seal_blocks_append min_absorb2\<close>)
    have rest: "r @ concat ps = seal_blocks C ?key (?ctr + of_nat k) (drop (j + k) ?BS)"
      using Cons.prems(5) buf seal by (metis append.assoc concat.simps(2) same_append_eq)
    have "concat ps \<noteq> []" using False Cons.prems(6) by (cases ps) auto
    then have "drop (j + k) ?BS \<noteq> []" using rest by auto
    then have left: "concat (drop (j + k) ?BS) \<noteq> []"
      by (metis blocks_bounds concat_eq_Nil_conv hd_in_set in_set_dropD)
    have whole: "concat (take (j + k) ?BS) @ concat (drop (j + k) ?BS) = resp"
      by (metis append_take_drop_id concat_append concat_blocks)
    have "\<exists>cn1. evrtsp_read_message readln ?ciph d (with_input (concat (take (j + k) ?BS)) r (Some ?rcv1) cn0) = Inr cn1
        \<and> reading (cn_state cn1)"
      by (rule prefix_reading [OF readln awaits _ left cut [OF left]]) (simp only: whole, rule parsed)
    then obtain cn1 where cn1: "evrtsp_read_message readln ?ciph d (with_input ?piece r (Some ?rcv1) cn) = Inr cn1" "reading (cn_state cn1)"
      unfolding more(2) [symmetric] by blast
    let ?xs1 = "xs @ [(?piece, r, Some ?rcv1)]"
    have feed: "feed_all readln ?ciph d ?xs1 cn0 = Some cn1" using cn1 by (simp add: feed_all_snoc Cons.prems(1))
    have pipes: "cn_ciphercb cn1 = Some ?rcv1" "cn_input_raw cn1 = r"
      using read_message_pipes [OF cn1] more(1) by (simp_all add: same_pipes_def with_input_def)
    have "?piece @ concat (drop (j + k) ?BS) = concat ?bs"
      by (metis add.commute append_take_drop_id concat_append drop_drop)
    then have cuts1: "cuts_ok [] (map fst ?xs1) (concat (drop (j + k) ?BS))"
      using Cons.prems(3) cut [OF left] pre by (simp add: cuts_ok_snoc)
    have split1: "length (r @ concat (take i ps)) \<noteq> length (seal_blocks C ?key (?ctr + of_nat k) (take m (drop (j + k) ?BS))) + 1"
      if "0 < i" "i \<le> length ps" "m \<le> length (drop (j + k) ?BS)" for i m
    proof -
      have "take (k + m) ?bs = take k ?bs @ take m (drop (j + k) ?BS)" by (simp add: take_add add.commute)
      then have "length (seal_blocks C ?key ?ctr (take (k + m) ?bs)) = length (seal_blocks C ?key ?ctr (take k ?bs))
          + length (seal_blocks C ?key (?ctr + of_nat k) (take m (drop (j + k) ?BS)))"
        using k by (simp add: seal_blocks_append min_absorb2)
      moreover have "length (?raw @ concat (take (Suc i) (p # ps))) \<noteq> length (seal_blocks C ?key ?ctr (take (k + m) ?bs)) + 1"
        using that k by (intro Cons.prems(8) [rule_format]) simp_all
      moreover have "length (?raw @ concat (take (Suc i) (p # ps))) =
          length (seal_blocks C ?key ?ctr (take k ?bs)) + length (r @ concat (take i ps))"
        using arg_cong [OF buf, of length] by simp
      ultimately show ?thesis by simp
    qed
    then have split2: "\<forall>i. 0 < i \<longrightarrow> i \<le> length ps \<longrightarrow> (\<forall>m \<le> length (drop (j + k) ?BS). length (r @ concat (take i ps)) \<noteq>
        length (seal_blocks C ?key (?ctr + of_nat k) (take m (drop (j + k) ?BS))) + 1)" by blast
    have "\<exists>rcv'. read_chunks readln ?ciph d ps cn1 = evrtsp_read_message readln ?ciph d (with_input resp [] (Some rcv') cn0)"
      using pre rest cuts1 pipes split2 Cons.prems(6,9) False by (intro Cons.IH [where rcv = ?rcv1, OF feed]) simp_all
    then show ?thesis using read cn1(1) by simp
  qed
qed simp


end
