(* ===== verification/Rtsp_Samples.thy ===== *)
theory Rtsp_Samples
  imports Rtsp_Runs Rtsp_Cipher Samples
begin

text \<open>
  The theorems on the RTSP client that have hypotheses, each applied to a concrete input at which they
  hold, with a reader of lines that does what libevent documents.
\<close>

definition sample_readln :: readln where
  "sample_readln style buf =
     (case style of
        EVBUFFER_EOL_CRLF \<Rightarrow> (case dropWhile (\<lambda>b. b \<noteq> 10) buf of [] \<Rightarrow> None
           | b # rest \<Rightarrow> Some (strip_cr (takeWhile (\<lambda>b. b \<noteq> 10) buf), rest))
      | EVBUFFER_EOL_ANY \<Rightarrow> (case dropWhile (\<lambda>b. \<not> is_eol b) buf of [] \<Rightarrow> None
           | b # rest \<Rightarrow> Some (takeWhile (\<lambda>b. \<not> is_eol b) buf, dropWhile is_eol rest)))"

lemma sample_readln_ok: "readln_ok sample_readln"
proof -
  have "sample_readln EVBUFFER_EOL_CRLF buf = None" if "10 \<notin> set buf" for buf
    by (simp add: sample_readln_def takeWhile_dropWhile_all that)
  moreover have "sample_readln EVBUFFER_EOL_CRLF (l @ 10 # buf) = Some (strip_cr l, buf)" if "10 \<notin> set l" for l buf
    by (simp add: sample_readln_def takeWhile_dropWhile_all that)
  moreover have "sample_readln EVBUFFER_EOL_ANY buf = None" if "\<forall>b \<in> set buf. \<not> is_eol b" for buf
  proof -
    have "dropWhile (\<lambda>b. \<not> is_eol b) buf = []" using that by (simp only: dropWhile_eq_Nil_conv)
    then show ?thesis by (simp only: sample_readln_def eol_style.case list.case)
  qed
  moreover have "sample_readln EVBUFFER_EOL_ANY (l @ b # buf) = Some (l, dropWhile is_eol buf)"
    if "\<forall>c \<in> set l. \<not> is_eol c" "is_eol b" for l b buf
  proof -
    have "dropWhile (\<lambda>b. \<not> is_eol b) (l @ b # buf) = b # buf" "takeWhile (\<lambda>b. \<not> is_eol b) (l @ b # buf) = l"
      using that by (induction l) auto
    then show ?thesis by (simp only: sample_readln_def eol_style.case list.case)
  qed
  ultimately show ?thesis by (simp add: readln_ok_def)
qed

definition sample_request :: "nat \<Rightarrow> rtsp_request" where
  "sample_request i = evrtsp_request_new i True"

definition sample_connection :: "cipher_ctx option \<Rightarrow> rtsp_request list \<Rightarrow> cipher_ctx connection" where
  "sample_connection k reqs =
     evrtsp_connection_new\<lparr>cn_fd := True, cn_state := EVCON_READING_FIRSTLINE, cn_requests := reqs, cn_ciphercb := k\<rparr>"

definition no_cipher :: "cipher_ctx ciphercb" where
  "no_cipher out inb k enc = Inr (0, out @ inb, [], k)"

definition sample_headers :: headers where
  "sample_headers = [(str ''CSeq'', str ''1''), (str ''content-length'', str ''2'')]"

lemma sample_awaits: "awaits (sample_request 1) reqs (sample_connection k (sample_request 1 # reqs))"
    "waiting (sample_request 1)" "cn_ciphercb (sample_connection k rs) = k" "cn_input_raw (sample_connection k rs) = []"
  by (simp_all add: awaits_def waiting_def sample_connection_def sample_request_def evrtsp_request_new_def evrtsp_connection_new_def)

lemma sample_status_ok: "status_ok 200 (str ''OK'')"
  by (simp add: status_ok_def str_def is_eol_def)

lemma dec_digits_small: "n < 10 \<Longrightarrow> dec_digits n = [48 + of_nat n]"
  by (simp add: dec_digits.simps)

lemma dec_digits_200: "dec_digits 200 = [50, 48, 48]"
  by (simp add: dec_digits.simps)

lemma sample_response_ok: "response_ok 200 (str ''OK'') sample_headers [7, 8]"
  using sample_status_ok
  by (simp add: response_ok_def sample_headers_def header_ok_def strcasecmp_eq_def to_lower_def str_def dec_digits_small)

lemma sample_status_line: "length (status_line 200 (str ''OK'')) = 15"
  by (simp add: status_line_def str_def dec_digits_200)

theorem make_header_roundtrip_witness:
  "\<exists>msg req1 line rest. evrtsp_make_header ((sample_request 1)\<lparr>rq_uri := Some [47], rq_output_buffer := [1, 2, 3]\<rparr>) = (msg, req1)
     \<and> sample_readln EVBUFFER_EOL_CRLF msg = Some (line, rest)
     \<and> (\<exists>hs. evrtsp_parse_headers sample_readln (sample_request 2) rest =
          Inr (ALL_DATA_READ, (sample_request 2)\<lparr>rq_input_headers := hs\<rparr>, [1, 2, 3]))"
proof -
  let ?req = "(sample_request 1)\<lparr>rq_uri := Some [47], rq_output_buffer := [1, 2, 3]\<rparr>"
  obtain msg req1 where msg: "evrtsp_make_header ?req = (msg, req1)" by fastforce
  have "\<forall>h \<in> set (rq_output_headers ?req). header_ok h" "rq_uri ?req = Some [47]" "(10 :: u8) \<notin> set [47]"
      "int (length (rq_output_buffer ?req)) < 2 ^ 63" "rq_input_headers (sample_request 2) = []" "rq_output_buffer ?req = [1, 2, 3]"
    by (simp_all add: sample_request_def evrtsp_request_new_def)
  note ok = this
  from make_header_roundtrip [OF sample_readln_ok ok(1-3) msg ok(4,5)]
  obtain line rest hs where read: "sample_readln EVBUFFER_EOL_CRLF msg = Some (line, rest)"
      "evrtsp_parse_headers sample_readln (sample_request 2) rest =
         Inr (ALL_DATA_READ, (sample_request 2)\<lparr>rq_input_headers := rq_output_headers ?req @ hs\<rparr>, rq_output_buffer ?req)"
    by blast
  show ?thesis
    using msg read [unfolded ok(6)] by blast
qed


theorem response_delivered_witness:
  "\<exists>cn'. read_chunks sample_readln no_cipher Bind_failed
       [take 5 (response_bytes 200 (str ''OK'') sample_headers [7, 8]), drop 5 (response_bytes 200 (str ''OK'') sample_headers [7, 8])]
       (sample_connection None [sample_request 1]) = Inr cn'
     \<and> cn_log cn' = [Called 1 (Some (answered (sample_request 1) 200 (str ''OK'') sample_headers [7, 8]))]"
proof -
  let ?resp = "response_bytes 200 (str ''OK'') sample_headers [7, 8]"
  have len: "15 < length ?resp" using sample_status_line by (simp add: response_bytes_def)
  have "length (concat (take i [take 5 ?resp, drop 5 ?resp])) \<noteq> length (status_line 200 (str ''OK'')) + 1" for i
  proof -
    have "16 < length ?resp" using sample_status_line by (simp add: response_bytes_def)
    then show ?thesis
      by (cases i rule: nat.exhaust; cases "i - 1") (auto simp: sample_status_line)
  qed
  moreover have "concat [take 5 ?resp, drop 5 ?resp] = ?resp" "[] \<notin> set [take 5 ?resp, drop 5 ?resp]" using len by auto
  ultimately show ?thesis
    using response_delivered [OF sample_readln_ok sample_awaits(1,2) sample_awaits(3) sample_awaits(4) sample_response_ok,
        where cs = "[take 5 ?resp, drop 5 ?resp]" and reqs = "[]" and ciph = no_cipher and d = Bind_failed]
    by (auto simp: sample_connection_def evrtsp_connection_new_def sample_request_def evrtsp_request_new_def simp del: read_chunks.simps)
qed

theorem response_misread_witness:
  "\<exists>cn'. read_chunks sample_readln no_cipher Bind_failed [status_line 200 (str ''OK'') @ [13], 10 # [67, 58, 49, 13, 10]]
       (sample_connection None [sample_request 1]) = Inr cn'
     \<and> cn_log cn' = [Called 1 (Some (answered (sample_request 1) 200 (str ''OK'') [] []))] \<and> cn_input_buffer cn' = [67, 58, 49, 13, 10]"
  using response_misread [OF sample_readln_ok sample_awaits(1,2) sample_awaits(3) sample_awaits(4) sample_response_ok, where n = 1 and reqs = "[]"
      and ciph = no_cipher and d = Bind_failed and rest = "[67, 58, 49, 13, 10]"]
  by (auto simp: sample_connection_def evrtsp_connection_new_def sample_request_def evrtsp_request_new_def simp del: read_chunks.simps)


end
