(* ===== verification/Device.thy ===== *)
theory Device
  imports Airplay_Session
begin

text \<open>
  The devices of \<open>src/outputs.h\<close> with the private data of the AirPlay output (\<open>src/airplay.h\<close>), and
  finding a device by its number. A pointer to a session is the session's number, a string is its
  bytes and \<open>None\<close> is a null pointer. Only the AirPlay output is compiled in.
\<close>

datatype output_device_state =
  OUTPUT_STATE_STOPPED | OUTPUT_STATE_STARTUP | OUTPUT_STATE_CONNECTED | OUTPUT_STATE_STREAMING
| OUTPUT_STATE_FAILED | OUTPUT_STATE_PASSWORD

datatype airplay_devtype =
  AIRPLAY_DEV_APEX2_80211N | AIRPLAY_DEV_APEX3_80211N | AIRPLAY_DEV_APPLETV | AIRPLAY_DEV_APPLETV4
| AIRPLAY_DEV_HOMEPOD | AIRPLAY_DEV_OTHER

record airplay_extra =
  ex_devtype :: airplay_devtype
  ex_mdns_name :: bytes
  ex_wanted_metadata :: u16
  ex_supports_auth_setup :: bool
  ex_supports_pairing_transient :: bool

text \<open>
  \<open>dv_addr\<close> is the address of the device itself, \<open>dv_stop_timer\<close> says whether the timer is pending.
\<close>

record output_device =
  dv_addr :: nat
  dv_id :: u64
  dv_name :: bytes
  dv_state :: output_device_state
  dv_selected :: bool
  dv_advertised :: bool
  dv_has_password :: bool
  dv_requires_auth :: bool
  dv_v6_disabled :: bool
  dv_prevent_playback :: bool
  dv_busy :: bool
  dv_resurrect :: bool
  dv_password :: "bytes option"
  dv_auth_key :: "bytes option"
  dv_volume :: int
  dv_relvol :: int
  dv_quality :: media_quality
  dv_v4_address :: "bytes option"
  dv_v6_address :: "bytes option"
  dv_v4_port :: u16
  dv_v6_port :: u16
  dv_stop_timer :: bool
  dv_extra :: airplay_extra
  dv_session :: "nat option"

definition outputs_device_get :: "output_device list \<Rightarrow> u64 \<Rightarrow> output_device option" where
  "outputs_device_get devices i = find (\<lambda>d. i = dv_id d) devices"

text \<open>A change of the device that \<open>outputs_device_get\<close> finds.\<close>

fun device_update :: "u64 \<Rightarrow> (output_device \<Rightarrow> output_device) \<Rightarrow> output_device list \<Rightarrow> output_device list" where
  "device_update i f [] = []"
| "device_update i f (d # ds) = (if i = dv_id d then f d # ds else d # device_update i f ds)"

definition outputs_device_session_add :: "u64 \<Rightarrow> nat \<Rightarrow> output_device list \<Rightarrow> int \<times> output_device list" where
  "outputs_device_session_add i session devices =
     (case outputs_device_get devices i of
        None \<Rightarrow> (-1, devices)
      | Some d \<Rightarrow> (0, device_update i (\<lambda>d. d\<lparr>dv_session := Some session\<rparr>) devices))"

definition outputs_device_session_remove :: "u64 \<Rightarrow> output_device list \<Rightarrow> output_device list" where
  "outputs_device_session_remove i devices = device_update i (\<lambda>d. d\<lparr>dv_session := None\<rparr>) devices"

lemma device_get_simps [simp]:
  "outputs_device_get [] i = None"
  "outputs_device_get (d # ds) i = (if i = dv_id d then Some d else outputs_device_get ds i)"
  by (simp_all add: outputs_device_get_def)

lemma device_get_update:
  "(\<And>d. dv_id (f d) = dv_id d) \<Longrightarrow>
     outputs_device_get (device_update i f ds) j =
       (if i = j then map_option f (outputs_device_get ds j) else outputs_device_get ds j)"
  by (induction ds) auto

lemma device_update_None [simp]: "outputs_device_get ds i = None \<Longrightarrow> device_update i f ds = ds"
  by (induction ds) (auto split: if_splits)

end
