(* ===== verification/Misc.thy ===== *)
theory Misc
  imports Homekit_Base Rtp Rtsp "HOL-Library.List_Lexorder"
begin

text \<open>
  The parts of \<open>src/misc.c\<close> that are computations of their own: reading numbers, replacing and
  trimming in strings, the key/value list, the ring buffer of bytes, and times. A C string is the list of
  the bytes before its terminator; a null pointer is \<open>None\<close>.
\<close>

subsection \<open>Numbers\<close>

text \<open>
  What \<open>strtol\<close> and its relatives read in base 10 or 16: white space, a sign, in base 16 a prefix
  \<open>0x\<close> with a digit behind it, and digits. The result is the sign and the number, or nothing when
  there is no digit.
\<close>

definition digit_val :: "int \<Rightarrow> u8 \<Rightarrow> int option" where
  "digit_val base c = (case hex_digit c of None \<Rightarrow> None | Some d \<Rightarrow> if d < base then Some d else None)"

definition number_sign :: "bytes \<Rightarrow> bool \<times> bytes" where
  "number_sign s = (case s of [] \<Rightarrow> (False, [])
     | c # s' \<Rightarrow> if c = 45 then (True, s') else if c = 43 then (False, s') else (False, s))"

definition number_prefix :: "int \<Rightarrow> bytes \<Rightarrow> bytes" where
  "number_prefix base s = (case s of a # b # c # r \<Rightarrow>
       if base = 16 \<and> a = 48 \<and> (b = 120 \<or> b = 88) \<and> digit_val 16 c \<noteq> None then c # r else s
     | _ \<Rightarrow> s)"

definition digits_value :: "int \<Rightarrow> bytes \<Rightarrow> int" where
  "digits_value base ds = foldl (\<lambda>n c. base * n + the (digit_val base c)) 0 ds"

definition scan_number :: "int \<Rightarrow> bytes \<Rightarrow> (bool \<times> int) option" where
  "scan_number base cs =
     (case number_sign (dropWhile is_space cs) of (neg, s) \<Rightarrow>
        let ds = takeWhile (\<lambda>c. digit_val base c \<noteq> None) (number_prefix base s) in
        if ds = [] then None else Some (neg, digits_value base ds))"

text \<open>
  \<open>strtol\<close> and \<open>strtoll\<close>, \<open>strtoul\<close> and \<open>strtoull\<close> with 64 bits: \<open>None\<close> when there is no number or it is out of
  range. The unsigned ones negate modulo the word.
\<close>

definition strto_signed :: "int \<Rightarrow> bytes \<Rightarrow> int option" where
  "strto_signed base cs = (case scan_number base cs of None \<Rightarrow> None
     | Some (neg, m) \<Rightarrow> let v = (if neg then - m else m) in
         if v > 2 ^ 63 - 1 \<or> v < - (2 ^ 63) then None else Some v)"

definition strto_unsigned :: "int \<Rightarrow> bytes \<Rightarrow> int option" where
  "strto_unsigned base cs = (case scan_number base cs of None \<Rightarrow> None
     | Some (neg, m) \<Rightarrow> if m > 2 ^ 64 - 1 then None else Some (if neg then (- m) mod 2 ^ 64 else m))"

text \<open>The conversions give \<open>None\<close> where they return -1. The limits are tested as the code tests them.\<close>

definition safe_atoi32 :: "bytes option \<Rightarrow> int option" where
  "safe_atoi32 s = (case s of None \<Rightarrow> None | Some cs \<Rightarrow>
     (case strto_signed 10 cs of None \<Rightarrow> None
      | Some v \<Rightarrow> if v > 2 ^ 31 - 1 then None else Some (sint (word_of_int v :: u32))))"

definition safe_atou32 :: "bytes option \<Rightarrow> u32 option" where
  "safe_atou32 s = (case s of None \<Rightarrow> None | Some cs \<Rightarrow>
     (case strto_unsigned 10 cs of None \<Rightarrow> None | Some v \<Rightarrow> if v > 2 ^ 32 - 1 then None else Some (word_of_int v)))"

definition safe_hextou32 :: "bytes option \<Rightarrow> u32 option" where
  "safe_hextou32 s = (case s of None \<Rightarrow> None | Some cs \<Rightarrow>
     (case strto_unsigned 16 cs of None \<Rightarrow> None | Some v \<Rightarrow> if v > 2 ^ 32 - 1 then None else Some (word_of_int v)))"

definition safe_atoi64 :: "bytes option \<Rightarrow> int option" where
  "safe_atoi64 s = (case s of None \<Rightarrow> None | Some cs \<Rightarrow>
     (case strto_signed 10 cs of None \<Rightarrow> None | Some v \<Rightarrow> if v > 2 ^ 63 - 1 then None else Some v))"

definition safe_atou64 :: "bytes option \<Rightarrow> u64 option" where
  "safe_atou64 s = (case s of None \<Rightarrow> None | Some cs \<Rightarrow>
     (case strto_unsigned 10 cs of None \<Rightarrow> None | Some v \<Rightarrow> if v > 2 ^ 64 - 1 then None else Some (word_of_int v)))"

definition safe_hextou64 :: "bytes option \<Rightarrow> u64 option" where
  "safe_hextou64 s = (case s of None \<Rightarrow> None | Some cs \<Rightarrow>
     (case strto_unsigned 16 cs of None \<Rightarrow> None | Some v \<Rightarrow> if v > 2 ^ 64 - 1 then None else Some (word_of_int v)))"

subsection \<open>Strings\<close>

text \<open>\<open>strstr\<close>: what is before the first occurrence, and what is behind it.\<close>

fun strstr :: "bytes \<Rightarrow> bytes \<Rightarrow> (bytes \<times> bytes) option" where
  "strstr pat [] = (if pat = [] then Some ([], []) else None)"
| "strstr pat (c # cs) =
     (if take (length pat) (c # cs) = pat then Some ([], drop (length pat) (c # cs))
      else map_option (\<lambda>(a, b). (c # a, b)) (strstr pat cs))"

lemma strstr_Some: "strstr pat s = Some (a, b) \<Longrightarrow> s = a @ pat @ b"
proof (induction s arbitrary: a)
  case (Cons c cs)
  show ?case
  proof (cases "take (length pat) (c # cs) = pat")
    case True
    then show ?thesis using Cons.prems append_take_drop_id [of "length pat" "c # cs"] by simp
  next
    case False
    then show ?thesis using Cons by auto
  qed
qed (auto split: if_splits)

text \<open>
  \<open>safe_snreplace\<close> in an array of \<open>sz\<close> bytes, after the part \<open>pre\<close> of the string: replacing nothing by
  nothing never ends.
\<close>

function snreplace_loop :: "nat \<Rightarrow> bytes \<Rightarrow> bytes \<Rightarrow> bytes \<Rightarrow> bytes \<Rightarrow> (int \<times> bytes) res" where
  "snreplace_loop sz pat rep pre rest =
     (case strstr pat rest of
        None \<Rightarrow> Inr (0, pre @ rest)
      | Some (a, b) \<Rightarrow>
          if length (pre @ a @ rep @ b) + 1 > sz then Inr (-1, pre @ rest)
          else if pat = [] \<and> rep = [] then Inl Diverges
          else snreplace_loop sz pat rep (pre @ a @ rep) b)"
  by pat_completeness auto
termination
proof (relation "measure (\<lambda>(sz, pat, rep, pre, rest). if pat = [] then sz - length pre else length rest)", goal_cases)
  case (2 sz pat rep pre rest x a b)
  then show ?case using strstr_Some [of pat rest a b] by (cases rep) auto
qed simp

declare snreplace_loop.simps [simp del]

definition safe_snreplace :: "nat \<Rightarrow> bytes option \<Rightarrow> bytes option \<Rightarrow> bytes option \<Rightarrow> (int \<times> bytes option) res" where
  "safe_snreplace sz s pattern replacement =
     (case s of None \<Rightarrow> Inr (-1, None)
      | Some cs \<Rightarrow> (case (pattern, replacement) of
            (Some pat, Some rep) \<Rightarrow> bind_res (snreplace_loop sz pat rep [] cs) (\<lambda>(ret, cs1). Inr (ret, Some cs1))
          | _ \<Rightarrow> Inr (0, Some cs)))"

definition trim :: "bytes \<Rightarrow> bytes" where
  "trim s = (let start = length (takeWhile is_space s);
                 term = start + length (rev (dropWhile is_space (rev (drop start s))))
             in drop start (take term s))"

definition atrim :: "bytes \<Rightarrow> bytes" where
  "atrim s = (let start = length (takeWhile is_space s);
                  term = start + length (rev (dropWhile is_space (rev (drop start s))));
                  n = term - start + 1
              in take (n - 1) (drop start s))"

definition djb_hash :: "bytes \<Rightarrow> u32" where
  "djb_hash = foldl (\<lambda>hash b. (push_bit 5 hash + hash) + ucast b) 5381"

subsection \<open>Keys and values\<close>

type_synonym keyval = "(bytes \<times> bytes) list"

fun keyval_get :: "keyval \<Rightarrow> bytes \<Rightarrow> bytes option" where
  "keyval_get [] name = None"
| "keyval_get ((n, v) # kv) name = (if strcasecmp_eq n name then Some v else keyval_get kv name)"

definition keyval_add_size :: "keyval \<Rightarrow> bytes \<Rightarrow> bytes \<Rightarrow> nat \<Rightarrow> (int \<times> keyval) res" where
  "keyval_add_size kv name value len =
     (case keyval_get kv name of
        Some val \<Rightarrow> Inr (if val = value then 0 else -1, kv)
      | None \<Rightarrow> if length value + 1 < len then Inl Out_of_bounds
                else Inr (0, kv @ [(name, c_string (take len (value @ [0])))]))"

definition keyval_add :: "keyval \<Rightarrow> bytes \<Rightarrow> bytes \<Rightarrow> (int \<times> keyval) res" where
  "keyval_add kv name value = keyval_add_size kv name value (length value)"

fun keyval_remove :: "keyval \<Rightarrow> bytes \<Rightarrow> keyval" where
  "keyval_remove [] name = []"
| "keyval_remove ((n, v) # kv) name = (if strcasecmp_eq n name then kv else (n, v) # keyval_remove kv name)"

fun strcmp :: "bytes \<Rightarrow> bytes \<Rightarrow> int" where
  "strcmp [] [] = 0"
| "strcmp [] (b # bs) = -1"
| "strcmp (a # as) [] = 1"
| "strcmp (a # as) (b # bs) = (if a < b then -1 else if b < a then 1 else strcmp as bs)"

text \<open>
  \<open>keyval_sort\<close>: every pair gets a pointer to the pair with the next greater name; the list then
  starts at the smallest name and follows the pointers.
\<close>

definition sort_next :: "keyval \<Rightarrow> bytes \<Rightarrow> (bytes \<times> bytes) option" where
  "sort_next kv name = fold (\<lambda>s best. if strcmp (fst s) name > 0
        \<and> (case best of None \<Rightarrow> True | Some t \<Rightarrow> strcmp (fst s) (fst t) < 0) then Some s else best) kv None"

lemma strcmp_less: "strcmp a b < 0 \<longleftrightarrow> a < b" and strcmp_greater: "0 < strcmp a b \<longleftrightarrow> b < a"
  by (induction a b rule: strcmp.induct) auto

lemma sort_next_fold:
  fixes name :: bytes
  assumes "\<forall>t. best = Some t \<longrightarrow> name < fst t"
  shows "fold (\<lambda>s best. if strcmp (fst s) name > 0
        \<and> (case best of None \<Rightarrow> True | Some t \<Rightarrow> strcmp (fst s) (fst t) < 0) then Some s else best) kv best = Some r
    \<Longrightarrow> (r \<in> set kv \<or> best = Some r) \<and> name < fst r
      \<and> (\<forall>t \<in> set kv \<union> set_option best. name < fst t \<longrightarrow> fst r \<le> fst t)"
  using assms
proof (induction kv arbitrary: best)
  case (Cons s kv)
  let ?best = "if strcmp (fst s) name > 0
        \<and> (case best of None \<Rightarrow> True | Some t \<Rightarrow> strcmp (fst s) (fst t) < 0) then Some s else best"
  have "\<forall>t. ?best = Some t \<longrightarrow> name < fst t" using Cons.prems(2) by (auto simp: strcmp_greater)
  with Cons.IH [of ?best] Cons.prems(1)
  have r: "r \<in> set kv \<or> ?best = Some r" "name < fst r"
    "\<forall>t \<in> set kv \<union> set_option ?best. name < fst t \<longrightarrow> fst r \<le> fst t"
    by simp_all
  have "fst r \<le> fst s" if "name < fst s"
  proof (cases best)
    case None
    then show ?thesis using r(3) that by (simp add: strcmp_greater)
  next
    case (Some t)
    then show ?thesis using r(3) that Cons.prems(2) strcmp_less [of "fst s" "fst t"] strcmp_greater [of "fst s" name]
      by (cases "fst s < fst t") (auto simp: not_less intro: order_trans)
  qed
  moreover have "fst r \<le> fst t" if "best = Some t" for t
    using r(3) that Cons.prems(2) strcmp_less [of "fst s" "fst t"] strcmp_greater [of "fst s" name]
    by (cases "name < fst s \<and> fst s < fst t") (auto dest: order.strict_implies_order intro: order_trans)
  ultimately show ?case using r by (auto split: if_splits)
qed auto

lemma sort_next_Some:
  "sort_next kv name = Some r \<Longrightarrow> r \<in> set kv \<and> name < fst r \<and> (\<forall>t \<in> set kv. name < fst t \<longrightarrow> fst r \<le> fst t)"
  unfolding sort_next_def by (drule sort_next_fold [rotated]) auto

function sort_chain :: "keyval \<Rightarrow> bytes \<times> bytes \<Rightarrow> keyval" where
  "sort_chain kv okv = okv # (case sort_next kv (fst okv) of None \<Rightarrow> [] | Some s \<Rightarrow> sort_chain kv s)"
  by pat_completeness auto
termination
proof (relation "measure (\<lambda>(kv, okv). card {t \<in> set kv. fst okv < fst t})", goal_cases)
  case (2 kv okv s)
  note s = sort_next_Some [OF 2]
  have "{t \<in> set kv. fst s < fst t} \<subset> {t \<in> set kv. fst okv < fst t}"
    using s by (auto dest: order.strict_trans)
  then show ?case by (simp add: psubset_card_mono)
qed simp

declare sort_chain.simps [simp del]

definition keyval_sort :: "keyval \<Rightarrow> keyval" where
  "keyval_sort kv = (case kv of [] \<Rightarrow> []
     | h # _ \<Rightarrow> sort_chain kv (fold (\<lambda>okv head. if strcmp (fst okv) (fst head) < 0 then okv else head) kv h))"

subsection \<open>The ring buffer of bytes\<close>

record ringbuffer =
  rb_buffer :: bytes
  rb_size :: nat
  rb_write_avail :: nat
  rb_read_avail :: nat
  rb_write_pos :: nat
  rb_read_pos :: nat

text \<open>\<open>ringbuffer_init\<close> with the memory that \<open>malloc\<close> gives.\<close>

definition ringbuffer_init :: "bytes \<Rightarrow> ringbuffer" where
  "ringbuffer_init mem = \<lparr>rb_buffer = mem, rb_size = length mem, rb_write_avail = length mem, rb_read_avail = 0,
     rb_write_pos = 0, rb_read_pos = 0\<rparr>"

text \<open>\<open>memcpy\<close> into the buffer at an offset.\<close>

definition copy_at :: "nat \<Rightarrow> bytes \<Rightarrow> bytes \<Rightarrow> bytes" where
  "copy_at n src buf = take n buf @ src @ drop (n + length src) buf"

definition ringbuffer_write :: "ringbuffer \<Rightarrow> bytes \<Rightarrow> nat \<times> ringbuffer" where
  "ringbuffer_write b src0 =
     (if rb_write_avail b = 0 \<or> src0 = [] then (0, b)
      else
        let src = take (rb_write_avail b) src0;
            srclen = length src;
            remaining = rb_size b - rb_write_pos b;
            buf = (if srclen > remaining
                   then copy_at 0 (drop remaining src) (copy_at (rb_write_pos b) (take remaining src) (rb_buffer b))
                   else copy_at (rb_write_pos b) src (rb_buffer b))
        in (srclen, b\<lparr>rb_buffer := buf, rb_write_pos := (rb_write_pos b + srclen) mod rb_size b,
                      rb_write_avail := rb_write_avail b - srclen, rb_read_avail := rb_read_avail b + srclen\<rparr>))"

text \<open>\<open>ringbuffer_read\<close>: the bytes behind the pointer it sets.\<close>

definition ringbuffer_read :: "nat \<Rightarrow> ringbuffer \<Rightarrow> bytes \<times> ringbuffer" where
  "ringbuffer_read dstlen b =
     (if rb_read_avail b = 0 \<or> dstlen = 0 then ([], b)
      else
        let n = min (min dstlen (rb_size b - rb_read_pos b)) (rb_read_avail b)
        in (take n (drop (rb_read_pos b) (rb_buffer b)),
            b\<lparr>rb_read_pos := (rb_read_pos b + n) mod rb_size b, rb_write_avail := rb_write_avail b + n,
              rb_read_avail := rb_read_avail b - n\<rparr>))"

subsection \<open>Times\<close>

definition timespec_add :: "timespec \<Rightarrow> timespec \<Rightarrow> timespec" where
  "timespec_add t1 t2 =
     (let s = tv_sec t1 + tv_sec t2; n = tv_nsec t1 + tv_nsec t2 in
      if n \<ge> 1000000000 then \<lparr>tv_sec = s + 1, tv_nsec = n - 1000000000\<rparr> else \<lparr>tv_sec = s, tv_nsec = n\<rparr>)"

definition timespec_cmp :: "timespec \<Rightarrow> timespec \<Rightarrow> int" where
  "timespec_cmp t1 t2 =
     (if tv_sec t1 < tv_sec t2 then -1 else if tv_sec t1 > tv_sec t2 then 1
      else if tv_nsec t1 < tv_nsec t2 then -1 else if tv_nsec t1 > tv_nsec t2 then 1 else 0)"

subsection \<open>Addresses\<close>

text \<open>\<open>prefix_is_equal\<close> over the first \<open>len\<close> bytes of arrays that are long enough.\<close>

definition prefix_is_equal :: "bytes \<Rightarrow> bytes \<Rightarrow> bytes \<Rightarrow> nat \<Rightarrow> bool" where
  "prefix_is_equal addr1 addr2 netmask len \<longleftrightarrow>
     (\<forall>i \<in> set [0..<len]. (addr1 ! i) AND (netmask ! i) = (addr2 ! i) AND (netmask ! i))"

definition net_is_http_or_https :: "bytes \<Rightarrow> bool" where
  "net_is_http_or_https url \<longleftrightarrow>
     strcasecmp_eq (take 7 url) (str ''http://'') \<or> strcasecmp_eq (take 8 url) (str ''https://'')"

end
