(* ===== verification/Airplay_Requests.thy ===== *)
theory Airplay_Requests
  imports Device Misc Cipher_Stream "HOL-Library.Signed_Division"
begin

text \<open>
  What \<open>src/airplay.c\<close> puts into a control request: the headers that every request has, the digest
  authentication, the times of the metadata, and the functions that make the payload of each request.

  The property lists are made and read by libplist, the MD5 digests by libgcrypt; both are
  parameters, as are the settings. The volume as text is a parameter too: the source computes it with
  \<open>float\<close> numbers.
\<close>

subsection \<open>The environment\<close>

record 'p plist_lib =
  pl_uint :: "u64 \<Rightarrow> 'p"
  pl_string :: "bytes \<Rightarrow> 'p"
  pl_bool :: "bool \<Rightarrow> 'p"
  pl_data :: "bytes \<Rightarrow> 'p"
  pl_dict :: "(bytes \<times> 'p) list \<Rightarrow> 'p"
  pl_array :: "'p list \<Rightarrow> 'p"
  pl_to_bin :: "'p \<Rightarrow> bytes option"
  pl_from_bin :: "bytes \<Rightarrow> 'p option"
  pl_dict_get_item :: "'p \<Rightarrow> bytes \<Rightarrow> 'p option"
  pl_array_get_item :: "'p \<Rightarrow> nat \<Rightarrow> 'p option"
  pl_get_uint_val :: "'p \<Rightarrow> u64"

record 'p airplay_env =
  ae_table :: pair_table
  ae_crypto :: crypto
  ae_md5 :: "bytes \<Rightarrow> bytes option"
  ae_plist :: "'p plist_lib"
  ae_user_agent :: "bytes option"
  ae_client_name :: bytes
  ae_libhash :: u64
  ae_device_id :: u64
  ae_timing_port :: u16
  ae_control_port :: u16
  ae_volume :: "int \<Rightarrow> bytes \<Rightarrow> bytes"

subsection \<open>Numbers in text\<close>

definition hex_upper :: "u8 \<Rightarrow> u8" where
  "hex_upper d = (if d < 10 then 48 + d else 55 + d)"

text \<open>\<open>%016PRIX64\<close>, \<open>%PRIX64\<close> and \<open>%u\<close>.\<close>

definition print_hex16 :: "u64 \<Rightarrow> bytes" where
  "print_hex16 w = map (\<lambda>i. hex_upper (ucast (drop_bit (60 - 4 * i) w AND 15))) [0..<16]"

definition print_hex :: "u64 \<Rightarrow> bytes" where
  "print_hex w = (case dropWhile (\<lambda>c. c = 48) (print_hex16 w) of [] \<Rightarrow> [48] | ds \<Rightarrow> ds)"

definition print_uint :: "'a::len word \<Rightarrow> bytes" where
  "print_uint w = dec_digits (unat w)"

text \<open>
  \<open>device_id_colon_make\<close> in an array of \<open>size\<close> bytes: the digits move to the end, with a colon before
  every second one. The argument \<open>mem\<close> is what the array holds; the loop ends when the
  positions meet.
\<close>

function colon_loop :: "nat \<Rightarrow> nat \<Rightarrow> bytes \<Rightarrow> bytes res" where
  "colon_loop r w s =
     (if r = w then Inr s
      else if length s \<le> w \<or> length s \<le> r \<or> w < r then Inl Out_of_bounds
      else
        let s1 = s[w := s ! r];
            w1 = (if r mod 2 = 0 then w - 1 else w);
            s2 = (if r mod 2 = 0 then s1[w1 := 58] else s1)
        in if r = 0 then Inl Out_of_bounds else colon_loop (r - 1) (w1 - 1) s2)"
  by pat_completeness auto
termination by (relation "measure (\<lambda>(r, w, s). r)") auto

definition device_id_colon_make :: "bytes \<Rightarrow> u64 \<Rightarrow> bytes res" where
  "device_id_colon_make mem i =
     (let s0 = overlay mem (print_hex16 i @ [0]) in
      bind_res (colon_loop 15 (length mem - 2) s0) (\<lambda>s. Inr (s[length mem - 1 := 0])))"

definition device_id_colon_parse :: "bytes \<Rightarrow> u64 option" where
  "device_id_colon_parse s = safe_hextou64 (Some (filter (\<lambda>c. c \<noteq> 58) s))"

definition device_id_find_byname :: "output_device list \<Rightarrow> bytes \<Rightarrow> u64 option" where
  "device_id_find_byname devices name =
     map_option dv_id (find (\<lambda>d. name = ex_mdns_name (dv_extra d)) devices)"

subsection \<open>Headers\<close>

definition header_add :: "bytes \<Rightarrow> bytes \<Rightarrow> rtsp_request \<Rightarrow> rtsp_request" where
  "header_add key v req = req\<lparr>rq_output_headers := snd (evrtsp_add_header (rq_output_headers req) key v)\<rparr>"

definition payload_add :: "bytes \<Rightarrow> rtsp_request \<Rightarrow> rtsp_request" where
  "payload_add bs req = req\<lparr>rq_output_buffer := rq_output_buffer req @ bs\<rparr>"

definition hash_hex :: "bytes \<Rightarrow> bytes" where
  "hash_hex h = concat (map sprintf_02x h)"

text \<open>The digest of \<open>auth_header_add\<close>, with an empty user name.\<close>

definition auth_response :: "(bytes \<Rightarrow> bytes option) \<Rightarrow> bytes \<Rightarrow> bytes \<Rightarrow> bytes \<Rightarrow> bytes \<Rightarrow> bytes \<Rightarrow> bytes option" where
  "auth_response md5 password realm nonce method uri =
     (case md5 (str '':'' @ realm @ str '':'' @ password) of None \<Rightarrow> None
      | Some h1 \<Rightarrow> (case md5 (method @ str '':'' @ uri) of None \<Rightarrow> None
      | Some h2 \<Rightarrow> map_option hash_hex (md5 (hash_hex h1 @ str '':'' @ nonce @ str '':'' @ hash_hex h2))))"

text \<open>A name with a value in quotation marks.\<close>

definition quoted :: "bytes \<Rightarrow> bytes \<Rightarrow> bytes" where
  "quoted name v = name @ [61, 34] @ v @ [34]"

definition auth_header_add ::
  "'p airplay_env \<Rightarrow> rtsp_request \<Rightarrow> bytes option \<Rightarrow> bytes \<Rightarrow> bytes \<Rightarrow> bytes \<Rightarrow> bytes \<Rightarrow> int \<times> rtsp_request" where
  "auth_header_add E req password realm nonce method uri =
     (case auth_response (ae_md5 E) (case password of None \<Rightarrow> [] | Some p \<Rightarrow> p) realm nonce method uri of
        None \<Rightarrow> (-1, req)
      | Some ha1 \<Rightarrow>
          let auth = str ''Digest '' @ quoted (str ''username'') [] @ str '', '' @ quoted (str ''realm'') realm
                @ str '', '' @ quoted (str ''nonce'') nonce @ str '', '' @ quoted (str ''uri'') uri
                @ str '', '' @ quoted (str ''response'') ha1
          in if length auth \<ge> 256 then (-1, req) else (0, header_add (str ''Authorization'') auth req))"

text \<open>\<open>strtok_r\<close>: the next token and what is left.\<close>

definition strtok_r :: "bytes \<Rightarrow> bytes \<Rightarrow> (bytes \<times> bytes) option" where
  "strtok_r delims s =
     (case dropWhile (\<lambda>c. c \<in> set delims) s of
        [] \<Rightarrow> None
      | c # cs \<Rightarrow> Some (takeWhile (\<lambda>c. c \<notin> set delims) (c # cs), tl (dropWhile (\<lambda>c. c \<notin> set delims) (c # cs))))"

lemma strtok_r_shorter: "strtok_r delims s = Some (token, rest) \<Longrightarrow> length rest < length s"
proof (unfold strtok_r_def, cases "dropWhile (\<lambda>c. c \<in> set delims) s")
  case (Cons c cs)
  moreover assume "(case dropWhile (\<lambda>c. c \<in> set delims) s of [] \<Rightarrow> None
      | c # cs \<Rightarrow> Some (takeWhile (\<lambda>c. c \<notin> set delims) (c # cs), tl (dropWhile (\<lambda>c. c \<notin> set delims) (c # cs)))) = Some (token, rest)"
  ultimately have "rest = tl (dropWhile (\<lambda>c. c \<notin> set delims) (c # cs))" by simp
  moreover have "length (dropWhile (\<lambda>c. c \<notin> set delims) (c # cs)) \<le> length (c # cs)" by (rule length_dropWhile_le)
  moreover have "length (c # cs) \<le> length s" using length_dropWhile_le [of "\<lambda>c. c \<in> set delims" s] Cons by simp
  ultimately show ?thesis by simp
qed simp

text \<open>The loop over the parameters of the header, with the realm and the nonce found so far.\<close>

function auth_params :: "bytes \<Rightarrow> bytes option \<Rightarrow> bytes option \<Rightarrow> bytes option \<times> bytes option" where
  "auth_params s realm nonce =
     (case strtok_r [32, 61] s of
        None \<Rightarrow> (realm, nonce)
      | Some (token, s1) \<Rightarrow>
          if token = str ''realm''
          then (case strtok_r [61, 34] s1 of None \<Rightarrow> (realm, nonce) | Some (v, s2) \<Rightarrow> auth_params s2 (Some v) nonce)
          else if token = str ''nonce''
          then (case strtok_r [61, 34] s1 of None \<Rightarrow> (realm, nonce) | Some (v, s2) \<Rightarrow> auth_params s2 realm (Some v))
          else auth_params s1 realm nonce)"
  by pat_completeness auto
termination by (relation "measure (\<lambda>(s, r, n). length s)") (auto dest!: strtok_r_shorter)

declare auth_params.simps [simp del]

definition auth_header_parse :: "airplay_session \<Rightarrow> rtsp_request \<Rightarrow> int \<times> airplay_session" where
  "auth_header_parse rs req =
     (let rs0 = rs\<lparr>rs_realm := None, rs_nonce := None\<rparr> in
      case evrtsp_find_header (rq_input_headers req) (str ''WWW-Authenticate'') of
        None \<Rightarrow> (-1, rs0)
      | Some param \<Rightarrow>
          if take 7 param \<noteq> str ''Digest '' then (-1, rs0)
          else (case auth_params (drop 7 param) None None of
                  (Some realm, Some nonce) \<Rightarrow> (0, rs0\<lparr>rs_realm := Some realm, rs_nonce := Some nonce\<rparr>)
                | _ \<Rightarrow> (-1, rs0)))"

definition request_headers_add ::
  "'p airplay_env \<Rightarrow> evrtsp_cmd_type \<Rightarrow> airplay_session \<Rightarrow> rtsp_request \<Rightarrow> int \<times> airplay_session \<times> rtsp_request" where
  "request_headers_add E req_method rs req =
     (let req1 = header_add (str ''CSeq'') (print_int (rs_cseq rs)) req;
          rs1 = rs\<lparr>rs_cseq := rs_cseq rs + 1\<rparr>;
          user_agent = (case ae_user_agent E of None \<Rightarrow> str ''iTunes/7.6.2 (Windows; N)'' | Some a \<Rightarrow> a);
          req2 = header_add (str ''X-Apple-Client-Name'') (ae_client_name E)
                   (header_add (str ''User-Agent'') user_agent req1);
          auth = (case (rs_realm rs1, rs_nonce rs1) of
              (Some realm, Some nonce) \<Rightarrow>
                (case auth_header_add E req2 (rs_password rs1) realm nonce (evrtsp_method req_method)
                        (if req_method = EVRTSP_REQ_OPTIONS then str ''*'' else rs_session_url rs1) of
                   (ret, req3) \<Rightarrow> (ret, if ret < 0 then rs1 else rs1\<lparr>rs_req_has_auth := True\<rparr>, req3))
            | _ \<Rightarrow> (0, rs1, req2))
      in case auth of (ret, rs2, req3) \<Rightarrow>
           if ret < 0 then (-1, rs2, req3)
           else (0, rs2, header_add (str ''Active-Remote'') (print_uint (ucast (rs_device_id rs2) :: u32))
                  (header_add (str ''DACP-ID'') (print_hex (ae_libhash E))
                    (header_add (str ''Client-Instance'') (print_hex (ae_libhash E)) req3))))"

subsection \<open>Metadata\<close>

definition AIRPLAY_MD_DELAY_STARTUP :: u32 where "AIRPLAY_MD_DELAY_STARTUP = 15360"
definition AIRPLAY_MD_DELAY_SWITCH :: u32 where "AIRPLAY_MD_DELAY_SWITCH = AIRPLAY_MD_DELAY_STARTUP * 2"
definition AIRPLAY_MD_WANTS_TEXT :: u16 where "AIRPLAY_MD_WANTS_TEXT = push_bit 0 1"
definition AIRPLAY_MD_WANTS_ARTWORK :: u16 where "AIRPLAY_MD_WANTS_ARTWORK = push_bit 1 1"
definition AIRPLAY_MD_WANTS_PROGRESS :: u16 where "AIRPLAY_MD_WANTS_PROGRESS = push_bit 2 1"
definition ART_FMT_PNG :: int where "ART_FMT_PNG = 1"
definition ART_FMT_JPEG :: int where "ART_FMT_JPEG = 2"

text \<open>\<open>struct output_metadata\<close> with the private data of the AirPlay output.\<close>

record output_metadata =
  md_pos_ms :: u32
  md_len_ms :: u32
  md_pts :: timespec
  md_startup :: bool
  md_text :: bytes
  md_artwork :: "bytes option"
  md_artwork_fmt :: int

definition metadata_rtptimes_get :: "'e master_session \<Rightarrow> output_metadata \<Rightarrow> u32 \<times> u32 \<times> u32 \<times> u32" where
  "metadata_rtptimes_get ms md =
     (let rate = sample_rate (quality (ms_rtp_session ms));
          stamp = ms_cur_stamp ms;
          diff_ms = (tv_sec (stamp_ts stamp) - tv_sec (md_pts md)) * 1000
                    + (tv_nsec (stamp_ts stamp) - tv_nsec (md_pts md)) sdiv 1000000;
          elapsed_ms = uint (md_pos_ms md) + diff_ms;
          elapsed_samples = (elapsed_ms * rate) sdiv 1000;
          start = stamp_pos stamp - of_int elapsed_samples;
          len_samples = (uint (md_len_ms md) * rate) sdiv 1000;
          display = (if md_startup md then start - AIRPLAY_MD_DELAY_STARTUP else start - AIRPLAY_MD_DELAY_SWITCH);
          cur_pos = max (stamp_pos stamp) start;
          end_pos = (if len_samples \<noteq> 0 then start + of_int len_samples else cur_pos)
      in (start, display, cur_pos, end_pos))"

definition rtpinfo_header_add :: "rtsp_request \<Rightarrow> 'e master_session \<Rightarrow> output_metadata \<Rightarrow> int \<times> rtsp_request" where
  "rtpinfo_header_add req ms md =
     (case metadata_rtptimes_get ms md of (start, display, cur_pos, end_pos) \<Rightarrow>
        let rtpinfo = str ''rtptime='' @ print_uint start in
        if length rtpinfo \<ge> 32 then (-1, req) else (0, header_add (str ''RTP-Info'') rtpinfo req))"

subsection \<open>Payloads\<close>

definition crlf :: bytes where "crlf = [13, 10]"

text \<open>The sequence number and the time of the next packet; the array has 64 bytes.\<close>

definition rtp_info :: "'e master_session \<Rightarrow> bytes" where
  "rtp_info ms = str ''seq='' @ print_uint (seqnum (ms_rtp_session ms)) @ str '';rtptime='' @ print_uint (pos (ms_rtp_session ms))"

definition payload_make_flush :: "'e master_session \<Rightarrow> rtsp_request \<Rightarrow> int \<times> rtsp_request" where
  "payload_make_flush ms req =
     (if length (rtp_info ms) \<ge> 64 then (-1, req) else (0, header_add (str ''RTP-Info'') (rtp_info ms) req))"

definition payload_make_teardown :: "airplay_session \<Rightarrow> int \<times> airplay_session" where
  "payload_make_teardown rs = (0, rs\<lparr>rs_state := AIRPLAY_STATE_TEARDOWN\<rparr>)"

definition payload_make_set_volume :: "'p airplay_env \<Rightarrow> airplay_session \<Rightarrow> rtsp_request \<Rightarrow> int \<times> rtsp_request" where
  "payload_make_set_volume E rs req =
     (0, payload_add (str ''volume: '' @ ae_volume E (rs_volume rs) (rs_devname rs) @ crlf) req)"

definition payload_make_send_progress :: "'e master_session \<Rightarrow> output_metadata \<Rightarrow> rtsp_request \<Rightarrow> int \<times> rtsp_request" where
  "payload_make_send_progress ms md req =
     (case metadata_rtptimes_get ms md of (start, display, cur_pos, end_pos) \<Rightarrow>
        rtpinfo_header_add (payload_add (str ''progress: '' @ print_uint display @ str ''/'' @ print_uint cur_pos
            @ str ''/'' @ print_uint end_pos @ crlf) req) ms md)"

definition payload_make_send_artwork :: "'e master_session \<Rightarrow> output_metadata \<Rightarrow> rtsp_request \<Rightarrow> (int \<times> rtsp_request) res" where
  "payload_make_send_artwork ms md req =
     (if md_artwork_fmt md \<noteq> ART_FMT_PNG \<and> md_artwork_fmt md \<noteq> ART_FMT_JPEG then Inr (-1, req)
      else case md_artwork md of
        None \<Rightarrow> Inl Null_deref
      | Some art \<Rightarrow>
          (case rtpinfo_header_add (payload_add art req) ms md of (ret, req1) \<Rightarrow>
             if ret < 0 then Inr (-1, req1)
             else Inr (0, header_add (str ''Content-Type'')
                     (if md_artwork_fmt md = ART_FMT_PNG then str ''image/png'' else str ''image/jpeg'') req1)))"

definition payload_make_send_text :: "'e master_session \<Rightarrow> output_metadata \<Rightarrow> rtsp_request \<Rightarrow> int \<times> rtsp_request" where
  "payload_make_send_text ms md req =
     (case rtpinfo_header_add (payload_add (md_text md) req) ms md of (ret, req1) \<Rightarrow> (if ret < 0 then -1 else 0, req1))"

text \<open>\<open>wplist_to_bin\<close> and adding its bytes to the request.\<close>

definition plist_payload :: "'p airplay_env \<Rightarrow> 'p \<Rightarrow> rtsp_request \<Rightarrow> int \<times> rtsp_request" where
  "plist_payload E root req =
     (case pl_to_bin (ae_plist E) root of None \<Rightarrow> (-1, req) | Some data \<Rightarrow> (0, payload_add data req))"

definition payload_make_setup_stream :: "'p airplay_env \<Rightarrow> airplay_session \<Rightarrow> rtsp_request \<Rightarrow> int \<times> rtsp_request" where
  "payload_make_setup_stream E rs req =
     (let L = ae_plist E;
          stream = pl_dict L
            [(str ''audioFormat'', pl_uint L 262144), (str ''audioMode'', pl_string L (str ''default'')),
             (str ''controlPort'', pl_uint L (ucast (ae_control_port E))), (str ''ct'', pl_uint L 2),
             (str ''isMedia'', pl_bool L True), (str ''latencyMax'', pl_uint L 88200), (str ''latencyMin'', pl_uint L 11025),
             (str ''shk'', pl_data L (take AIRPLAY_AUDIO_KEY_LEN (rs_shared_secret rs))),
             (str ''spf'', pl_uint L (of_int AIRPLAY_SAMPLES_PER_PACKET)), (str ''sr'', pl_uint L 44100),
             (str ''type'', pl_uint L (ucast AIRPLAY_RTP_PAYLOADTYPE)), (str ''supportsDynamicStreamID'', pl_bool L False),
             (str ''streamConnectionID'', pl_uint L (ucast (rs_session_id rs)))]
      in plist_payload E (pl_dict L [(str ''streams'', pl_array L [stream])]) req)"

text \<open>\<open>plist_new_string\<close> copies its argument: a local address that is not there is a null pointer.\<close>

definition payload_make_setpeers :: "'p airplay_env \<Rightarrow> airplay_session \<Rightarrow> rtsp_request \<Rightarrow> (int \<times> rtsp_request) res" where
  "payload_make_setpeers E rs req =
     (case rs_local_address rs of
        None \<Rightarrow> Inl Null_deref
      | Some local \<Rightarrow> Inr (plist_payload E (pl_array (ae_plist E)
            [pl_string (ae_plist E) (rs_address rs), pl_string (ae_plist E) local]) req))"

definition payload_make_record :: "'e master_session \<Rightarrow> rtsp_request \<Rightarrow> int \<times> rtsp_request" where
  "payload_make_record ms req =
     (let req1 = header_add (str ''Range'') (str ''npt=0-'') (header_add (str ''X-Apple-ProtocolVersion'') (str ''1'') req) in
      if length (rtp_info ms) \<ge> 64 then (-1, req1) else (0, header_add (str ''RTP-Info'') (rtp_info ms) req1))"

definition payload_make_setup_session :: "'p airplay_env \<Rightarrow> bytes \<Rightarrow> airplay_session \<Rightarrow> rtsp_request \<Rightarrow> (int \<times> rtsp_request) res" where
  "payload_make_setup_session E mem rs req =
     bind_res (device_id_colon_make mem (ae_device_id E)) (\<lambda>device_id_colon.
       case rs_local_address rs of
         None \<Rightarrow> Inl Null_deref
       | Some local \<Rightarrow>
           let L = ae_plist E in
           Inr (plist_payload E (pl_dict L
             [(str ''deviceID'', pl_string L (c_string device_id_colon)), (str ''sessionUUID'', pl_string L (rs_session_uuid rs)),
              (str ''timingPort'', pl_uint L (ucast (ae_timing_port E))), (str ''timingProtocol'', pl_string L (str ''NTP''))]) req))"

text \<open>The header that both functions for pairing requests add.\<close>

definition hkp_header :: "airplay_session \<Rightarrow> rtsp_request \<Rightarrow> rtsp_request" where
  "hkp_header rs req =
     (if rs_pair_type rs = PAIR_CLIENT_HOMEKIT_NORMAL then header_add (str ''X-Apple-HKP'') (str ''3'') req
      else if rs_pair_type rs = PAIR_CLIENT_HOMEKIT_TRANSIENT then header_add (str ''X-Apple-HKP'') (str ''4'') req
      else req)"

definition payload_make_pin_start :: "airplay_session \<Rightarrow> rtsp_request \<Rightarrow> int \<times> rtsp_request" where
  "payload_make_pin_start rs req = (0, hkp_header rs req)"

text \<open>The steps of \<open>payload_make_pair_generic\<close>.\<close>

datatype pair_step = Setup1 | Setup2 | Setup3 | Verify1 | Verify2

definition setup_request :: "pair_step \<Rightarrow> 'p airplay_env \<Rightarrow> rand \<Rightarrow> setup_ctx \<Rightarrow> (bytes option \<times> setup_ctx) res" where
  "setup_request step E =
     (case step of Setup1 \<Rightarrow> pair_setup_request1 (ae_table E) (ae_crypto E)
      | Setup2 \<Rightarrow> pair_setup_request2 (ae_table E) (ae_crypto E)
      | _ \<Rightarrow> pair_setup_request3 (ae_table E) (ae_crypto E))"

definition verify_request :: "pair_step \<Rightarrow> 'p airplay_env \<Rightarrow> rand \<Rightarrow> verify_ctx \<Rightarrow> (bytes option \<times> verify_ctx) res" where
  "verify_request step E =
     (case step of Verify1 \<Rightarrow> pair_verify_request1 (ae_table E) (ae_crypto E)
      | _ \<Rightarrow> pair_verify_request2 (ae_table E) (ae_crypto E))"

definition payload_make_pair_generic ::
  "pair_step \<Rightarrow> 'p airplay_env \<Rightarrow> rand \<Rightarrow> airplay_session \<Rightarrow> rtsp_request \<Rightarrow> (int \<times> airplay_session \<times> rtsp_request) res" where
  "payload_make_pair_generic step E r rs req =
     (let finish = (\<lambda>body rs1. case body of
            None \<Rightarrow> Inr (-1, rs1, req)
          | Some b \<Rightarrow> Inr (0, rs1, hkp_header rs1 (payload_add b req)))
      in if step \<in> {Setup1, Setup2, Setup3}
         then (case rs_pair_setup_ctx rs of
                 None \<Rightarrow> Inl Null_deref
               | Some ctx \<Rightarrow> bind_res (setup_request step E r ctx) (\<lambda>(body, ctx1). finish body (rs\<lparr>rs_pair_setup_ctx := Some ctx1\<rparr>)))
         else (case rs_pair_verify_ctx rs of
                 None \<Rightarrow> Inl Null_deref
               | Some ctx \<Rightarrow> bind_res (verify_request step E r ctx) (\<lambda>(body, ctx1). finish body (rs\<lparr>rs_pair_verify_ctx := Some ctx1\<rparr>))))"

definition payload_make_pair_setup1 ::
  "'p airplay_env \<Rightarrow> rand \<Rightarrow> bytes option \<Rightarrow> airplay_session \<Rightarrow> rtsp_request \<Rightarrow> (int \<times> airplay_session \<times> rtsp_request) res" where
  "payload_make_pair_setup1 E r arg rs req =
     (let pin = (if arg = None then rs_password rs else arg);
          rs1 = (if pin \<noteq> None then rs\<lparr>rs_pair_type := PAIR_CLIENT_HOMEKIT_NORMAL\<rparr> else rs);
          ctx = pair_setup_new (ae_table E) (ae_crypto E) r (rs_pair_type rs1) pin False (Some (print_hex16 (ae_device_id E)));
          rs2 = rs1\<lparr>rs_pair_setup_ctx := ctx\<rparr>
      in if ctx = None then Inr (-1, rs2, req)
         else payload_make_pair_generic Setup1 E r (rs2\<lparr>rs_state := AIRPLAY_STATE_AUTH\<rparr>) req)"

definition payload_make_pair_setup2 ::
  "'p airplay_env \<Rightarrow> rand \<Rightarrow> airplay_session \<Rightarrow> rtsp_request \<Rightarrow> (int \<times> airplay_session \<times> rtsp_request) res" where
  "payload_make_pair_setup2 E r rs req = payload_make_pair_generic Setup2 E r rs req"

definition payload_make_pair_setup3 ::
  "'p airplay_env \<Rightarrow> rand \<Rightarrow> airplay_session \<Rightarrow> rtsp_request \<Rightarrow> (int \<times> airplay_session \<times> rtsp_request) res" where
  "payload_make_pair_setup3 E r rs req = payload_make_pair_generic Setup3 E r rs req"

definition payload_make_pair_verify1 ::
  "'p airplay_env \<Rightarrow> rand \<Rightarrow> output_device list \<Rightarrow> airplay_session \<Rightarrow> rtsp_request \<Rightarrow> (int \<times> airplay_session \<times> rtsp_request) res" where
  "payload_make_pair_verify1 E r devices rs req =
     (case outputs_device_get devices (rs_device_id rs) of
        None \<Rightarrow> Inr (-1, rs, req)
      | Some device \<Rightarrow>
          bind_res (pair_verify_new (ae_table E) (ae_crypto E) (rs_pair_type rs) (dv_auth_key device) None
              (Some (print_hex16 (ae_device_id E)))) (\<lambda>ctx.
            let rs1 = rs\<lparr>rs_pair_verify_ctx := ctx\<rparr> in
            if ctx = None then Inr (-1, rs1, req) else payload_make_pair_generic Verify1 E r rs1 req))"

definition payload_make_pair_verify2 ::
  "'p airplay_env \<Rightarrow> rand \<Rightarrow> airplay_session \<Rightarrow> rtsp_request \<Rightarrow> (int \<times> airplay_session \<times> rtsp_request) res" where
  "payload_make_pair_verify2 E r rs req = payload_make_pair_generic Verify2 E r rs req"

end
