(* ===== verification/Airplay_World.thy ===== *)
theory Airplay_World
  imports Airplay_Requests
begin

text \<open>
  The state of \<open>src/airplay.c\<close> as a whole: its sessions with their control connections, the master
  sessions, the devices of the player, and the contexts of the request sequences; and the functions that
  report on, make, and free a session.

  A pointer to a session is a number. Using a session that has been freed is the fault \<open>Freed\<close>. A
  context belongs to the request that carries it, so it is found by the number of the request.
\<close>

subsection \<open>Faults\<close>

text \<open>
  \<open>Inner\<close> is a fault of one of the parts below; \<open>Freed\<close> is the use of freed memory, \<open>Wrong_arg\<close> an argument
  of a type the function does not expect, \<open>No_fuel\<close> more rounds of a loop than the model was given.
\<close>

datatype world_fault = Inner fault | Freed | Wrong_arg | No_fuel

type_synonym 'a wres = "world_fault + 'a"

definition lift_res :: "'a res \<Rightarrow> 'a wres" where
  "lift_res r = (case r of Inl f \<Rightarrow> Inl (Inner f) | Inr x \<Rightarrow> Inr x)"

lemma lift_res_simps [simp]: "lift_res (Inl f) = Inl (Inner f)" "lift_res (Inr x) = Inr x"
  by (simp_all add: lift_res_def)

lemma lift_res_eq_Inr [simp]: "lift_res r = Inr x \<longleftrightarrow> r = Inr x"
  by (cases r) simp_all

lemma lift_res_not_Freed [simp]: "lift_res r \<noteq> Inl Freed" "lift_res r \<noteq> Inl Wrong_arg"
  by (cases r; simp)+

subsection \<open>Requests of a sequence\<close>

datatype payload_fn =
  No_payload | Setup_session_payload | Setpeers_payload | Setup_stream_payload | Record_payload
| Set_volume_payload | Flush_payload | Teardown_payload | Pin_start_payload | Send_text_payload
| Send_progress_payload | Send_artwork_payload | Pair_setup1_payload | Pair_setup2_payload
| Pair_setup3_payload | Pair_verify1_payload | Pair_verify2_payload

datatype response_fn =
  No_handler | Info_start_handler | Info_probe_handler | Setup_session_handler | Setup_stream_handler
| Record_handler | Volume_start_handler | Flush_handler | Teardown_handler | Teardown_failure_handler
| Pin_start_handler | Pair_setup1_handler | Pair_setup2_handler | Pair_setup3_handler
| Pair_verify1_handler | Pair_verify2_handler

datatype session_fn =
  No_function | Fn_session_connected | Fn_session_success | Fn_session_status | Fn_session_pair_success
| Fn_session_failure | Fn_start_failure | Fn_start_retry

record seq_request =
  sq_name :: bytes
  sq_rtsp_type :: evrtsp_cmd_type
  sq_payload_make :: payload_fn
  sq_response_handler :: response_fn
  sq_content_type :: "bytes option"
  sq_uri :: "bytes option"
  sq_proceed_on_rtsp_not_ok :: bool

datatype payload_arg = Arg_null | Arg_pin bytes | Arg_metadata output_metadata

text \<open>\<open>struct airplay_seq_ctx\<close>: \<open>cur_request\<close> is the list of the requests from the current one on.\<close>

record seq_ctx =
  sc_cur :: "seq_request list"
  sc_on_success :: session_fn
  sc_on_error :: session_fn
  sc_session :: nat
  sc_arg :: payload_arg

subsection \<open>The state\<close>

text \<open>
  \<open>w_ctxs\<close> holds the contexts by the number of their request, \<open>w_dangling\<close> the requests that were freed
  although a connection has them in its queue, \<open>w_status\<close> the calls of \<open>outputs_cb\<close>.
\<close>

record 'e world =
  w_sessions :: "(nat \<times> airplay_session) list"
  w_masters :: "(nat \<times> 'e master_session) list"
  w_devices :: "output_device list"
  w_ctxs :: "(nat \<times> seq_ctx) list"
  w_dangling :: "nat list"
  w_status :: "(int \<times> u64 \<times> output_device_state) list"
  w_metadata :: "output_metadata option"
  w_next :: nat

text \<open>
  What the surroundings answer in one event: how a connection attempt for a request starts, the local
  address of a connection, random values, sockets, uninitialised memory, addresses that parse, and the
  rounds the loop over a failed connection's requests may take.
\<close>

record answers =
  an_dial :: "nat \<Rightarrow> dial"
  an_local :: "(bytes \<times> u16 \<times> address_family) option"
  an_uuid :: bytes
  an_session_id :: u32
  an_udp :: int
  an_rand :: rand
  an_mem :: bytes
  an_pton :: "address_family \<Rightarrow> bytes \<Rightarrow> bytes option"
  an_interface :: "bytes \<Rightarrow> bool"
  an_rtp :: "u32 \<times> u32 \<times> u16"
  an_rawbuf :: bytes
  an_rounds :: nat

definition session_get :: "nat \<Rightarrow> 'e world \<Rightarrow> airplay_session wres" where
  "session_get p w = (case map_of (w_sessions w) p of None \<Rightarrow> Inl Freed | Some rs \<Rightarrow> Inr rs)"

definition session_put :: "nat \<Rightarrow> airplay_session \<Rightarrow> 'e world \<Rightarrow> 'e world" where
  "session_put p rs w = w\<lparr>w_sessions := map (\<lambda>(q, s). if q = p then (q, rs) else (q, s)) (w_sessions w)\<rparr>"

definition session_modify :: "nat \<Rightarrow> (airplay_session \<Rightarrow> airplay_session) \<Rightarrow> 'e world \<Rightarrow> 'e world wres" where
  "session_modify p f w = bind_res (session_get p w) (\<lambda>rs. Inr (session_put p (f rs) w))"

definition master_get :: "nat \<Rightarrow> 'e world \<Rightarrow> 'e master_session wres" where
  "master_get p w = (case map_of (w_masters w) p of None \<Rightarrow> Inl Freed | Some ms \<Rightarrow> Inr ms)"

subsection \<open>Reports\<close>

fun output_state :: "airplay_state \<Rightarrow> output_device_state" where
  "output_state AIRPLAY_STATE_AUTH = OUTPUT_STATE_PASSWORD"
| "output_state AIRPLAY_STATE_FAILED = OUTPUT_STATE_FAILED"
| "output_state AIRPLAY_STATE_STOPPED = OUTPUT_STATE_STOPPED"
| "output_state AIRPLAY_STATE_INFO = OUTPUT_STATE_STARTUP"
| "output_state AIRPLAY_STATE_ENCRYPTED = OUTPUT_STATE_STARTUP"
| "output_state AIRPLAY_STATE_SETUP = OUTPUT_STATE_STARTUP"
| "output_state AIRPLAY_STATE_RECORD = OUTPUT_STATE_STARTUP"
| "output_state AIRPLAY_STATE_CONNECTED = OUTPUT_STATE_CONNECTED"
| "output_state AIRPLAY_STATE_STREAMING = OUTPUT_STATE_STREAMING"
| "output_state AIRPLAY_STATE_TEARDOWN = OUTPUT_STATE_STOPPED"

text \<open>\<open>session_status\<close>: the callback is made once.\<close>

definition session_status :: "nat \<Rightarrow> 'e world \<Rightarrow> 'e world wres" where
  "session_status p w =
     bind_res (session_get p w) (\<lambda>rs.
       let w1 = w\<lparr>w_status := w_status w @ [(rs_callback_id rs, rs_device_id rs, output_state (rs_state rs))]\<rparr>
       in Inr (session_put p (rs\<lparr>rs_callback_id := -1\<rparr>) w1))"

subsection \<open>The end of a session\<close>

text \<open>
  \<open>session_free\<close> of a session that is not in the list any more. The connection's queue is freed with it,
  without callbacks: the contexts of its requests are lost, and a request that is freed already is
  freed again.
\<close>

definition dangles :: "'e world \<Rightarrow> 'k connection \<Rightarrow> bool" where
  "dangles w cn \<longleftrightarrow> (\<exists>q \<in> set (cn_requests cn). rq_id q \<in> set (w_dangling w))"

definition session_free :: "airplay_session \<Rightarrow> 'e world \<Rightarrow> 'e world wres" where
  "session_free rs w =
     (let w1 = w\<lparr>w_masters := master_session_cleanup (map snd (w_sessions w)) (rs_master_session rs) (w_masters w)\<rparr> in
      case rs_ctrl rs of
        None \<Rightarrow> Inr w1
      | Some cn \<Rightarrow> if dangles w1 cn then Inl Freed else Inr w1)"

definition session_cleanup :: "nat \<Rightarrow> 'e world \<Rightarrow> 'e world wres" where
  "session_cleanup p w =
     bind_res (session_get p w) (\<lambda>rs.
       session_free rs (w\<lparr>w_sessions := filter (\<lambda>(q, s). q \<noteq> p) (w_sessions w),
                          w_devices := outputs_device_session_remove (rs_device_id rs) (w_devices w)\<rparr>))"

definition session_failure :: "nat \<Rightarrow> 'e world \<Rightarrow> 'e world wres" where
  "session_failure p w =
     bind_res (session_modify p (\<lambda>rs. rs\<lparr>rs_state :=
         (if rs_state rs \<noteq> AIRPLAY_STATE_AUTH then AIRPLAY_STATE_FAILED else rs_state rs)\<rparr>) w) (\<lambda>w1.
     bind_res (session_status p w1) (\<lambda>w2. session_cleanup p w2))"

definition deferred_session_failure_cb :: "nat \<Rightarrow> 'e world \<Rightarrow> 'e world wres" where
  "deferred_session_failure_cb p w = session_failure p w"

definition rtsp_close_cb :: "nat \<Rightarrow> 'e world \<Rightarrow> 'e world wres" where
  "rtsp_close_cb p w = session_modify p deferred_session_failure w"

definition session_success :: "nat \<Rightarrow> 'e world \<Rightarrow> 'e world wres" where
  "session_success p w = bind_res (session_status p w) (session_cleanup p)"

definition session_connected :: "nat \<Rightarrow> 'e world \<Rightarrow> 'e world wres" where
  "session_connected p w =
     bind_res (session_modify p (\<lambda>rs. rs\<lparr>rs_state := AIRPLAY_STATE_CONNECTED\<rparr>) w) (session_status p)"

subsection \<open>The beginning of a session\<close>

text \<open>The part of an address before the name of the interface, and that name.\<close>

definition split_interface :: "bytes \<Rightarrow> bytes \<times> bytes option" where
  "split_interface address =
     (takeWhile (\<lambda>c. c \<noteq> 37) address,
      case dropWhile (\<lambda>c. c \<noteq> 37) address of [] \<Rightarrow> None | c # intf \<Rightarrow> Some intf)"

definition session_connection_setup ::
  "answers \<Rightarrow> airplay_session \<Rightarrow> output_device \<Rightarrow> address_family \<Rightarrow> int \<times> airplay_session" where
  "session_connection_setup A rs dev family =
     (let connect = (\<lambda>address naddr. (0, rs\<lparr>rs_ctrl := Some evrtsp_connection_new, rs_naddr := naddr,
                        rs_address := address, rs_family := family\<rparr>)) in
      case family of
        AF_INET \<Rightarrow>
          (case dv_v4_address dev of None \<Rightarrow> (-1, rs)
           | Some address \<Rightarrow>
               (case an_pton A AF_INET address of None \<Rightarrow> (-1, rs) | Some naddr \<Rightarrow> connect address naddr))
      | AF_INET6 \<Rightarrow>
          (case dv_v6_address dev of None \<Rightarrow> (-1, rs)
           | Some address \<Rightarrow>
               (case split_interface address of (plain, intf) \<Rightarrow>
                  if (case intf of None \<Rightarrow> False | Some i \<Rightarrow> \<not> an_interface A i) then (-1, rs)
                  else (case an_pton A AF_INET6 plain of None \<Rightarrow> (-1, rs) | Some naddr \<Rightarrow> connect address naddr)))
      | AF_OTHER \<Rightarrow> (-1, rs))"

text \<open>\<open>calloc\<close> leaves the family, the pairing type and the secret at zero.\<close>

definition session_new :: "output_device \<Rightarrow> int \<Rightarrow> airplay_session" where
  "session_new dev callback_id =
     \<lparr>rs_device_id = dv_id dev, rs_callback_id = callback_id, rs_master_session = 0, rs_ctrl = None,
      rs_state = AIRPLAY_STATE_STOPPED, rs_next_seq = AIRPLAY_SEQ_CONTINUE, rs_statusflags = 0,
      rs_wanted_metadata = ex_wanted_metadata (dv_extra dev), rs_req_has_auth = False, rs_deferred = False,
      rs_reqs_in_flight = 0, rs_cseq = 1, rs_session_id = 0, rs_session_url = [], rs_session_uuid = [],
      rs_realm = None, rs_nonce = None, rs_password = dv_password dev, rs_devname = dv_name dev, rs_address = [],
      rs_family = AF_OTHER, rs_naddr = [], rs_volume = dv_volume dev, rs_local_address = None, rs_data_port = 0,
      rs_control_port = 0, rs_events_port = 0, rs_timing_port = 0, rs_pair_type = PAIR_CLIENT_FRUIT,
      rs_pair_verify_ctx = None, rs_pair_setup_ctx = None, rs_shared_secret = replicate 64 0,
      rs_shared_secret_len = 0, rs_packet_cipher_hd = None, rs_server_fd = -1\<rparr>"

text \<open>\<open>session_make\<close>: it does not look at \<open>v6_disabled\<close>, and it does not tell the device its session.\<close>

definition session_make :: "answers \<Rightarrow> output_device \<Rightarrow> int \<Rightarrow> 'e world \<Rightarrow> nat option \<times> 'e world" where
  "session_make A dev callback_id w =
     (let rs0 = session_new dev callback_id;
          (ret6, rs6) = session_connection_setup A rs0 dev AF_INET6;
          (ret, rs) = (if ret6 < 0 then session_connection_setup A rs6 dev AF_INET else (ret6, rs6))
      in if ret < 0 then (None, w)
         else
           let p = w_next w;
               (ssrc, rtptime, seq) = an_rtp A;
               rtp = rtp_session_new ssrc rtptime seq (Some (dv_quality dev)) AIRPLAY_PACKET_BUFFER_SIZE 0;
               (m, masters) = master_session_make (w_masters w) rtp (p + 1) (an_rawbuf A) (dv_quality dev)
           in (Some p, w\<lparr>w_sessions := (p, rs\<lparr>rs_master_session := m\<rparr>) # w_sessions w, w_masters := masters,
                         w_next := p + 2\<rparr>))"

end
