(* ===== verification/Airplay_Sequences.thy ===== *)
theory Airplay_Sequences
  imports Airplay_World
begin

text \<open>
  The sequences of requests of \<open>src/airplay.c\<close>: the two tables, making the payload of a request, sending
  the current request of a sequence, starting a sequence, and the functions that are called when a
  sequence ends.
\<close>

subsection \<open>The tables\<close>

text \<open>\<open>airplay_seq_definition\<close>: what to call after success and after an error.\<close>

fun airplay_seq_definition :: "airplay_seq_type \<Rightarrow> (session_fn \<times> session_fn) option" where
  "airplay_seq_definition AIRPLAY_SEQ_START = Some (No_function, Fn_start_retry)"
| "airplay_seq_definition AIRPLAY_SEQ_START_PLAYBACK = Some (Fn_session_connected, Fn_start_failure)"
| "airplay_seq_definition AIRPLAY_SEQ_PROBE = Some (Fn_session_success, Fn_session_failure)"
| "airplay_seq_definition AIRPLAY_SEQ_FLUSH = Some (Fn_session_status, Fn_session_failure)"
| "airplay_seq_definition AIRPLAY_SEQ_STOP = Some (Fn_session_success, Fn_session_failure)"
| "airplay_seq_definition AIRPLAY_SEQ_FAILURE = Some (Fn_session_success, Fn_session_failure)"
| "airplay_seq_definition AIRPLAY_SEQ_PIN_START = Some (Fn_session_success, Fn_session_failure)"
| "airplay_seq_definition AIRPLAY_SEQ_SEND_VOLUME = Some (Fn_session_status, Fn_session_failure)"
| "airplay_seq_definition AIRPLAY_SEQ_SEND_TEXT = Some (No_function, Fn_session_failure)"
| "airplay_seq_definition AIRPLAY_SEQ_SEND_PROGRESS = Some (No_function, Fn_session_failure)"
| "airplay_seq_definition AIRPLAY_SEQ_SEND_ARTWORK = Some (No_function, Fn_session_failure)"
| "airplay_seq_definition AIRPLAY_SEQ_PAIR_SETUP = Some (Fn_session_pair_success, Fn_session_failure)"
| "airplay_seq_definition AIRPLAY_SEQ_PAIR_VERIFY = Some (Fn_session_pair_success, Fn_session_failure)"
| "airplay_seq_definition AIRPLAY_SEQ_PAIR_TRANSIENT = Some (Fn_session_pair_success, Fn_session_failure)"
| "airplay_seq_definition AIRPLAY_SEQ_FEEDBACK = Some (No_function, Fn_session_failure)"
| "airplay_seq_definition AIRPLAY_SEQ_ABORT = None"
| "airplay_seq_definition AIRPLAY_SEQ_CONTINUE = None"

definition seq_entry ::
  "string \<Rightarrow> evrtsp_cmd_type \<Rightarrow> payload_fn \<Rightarrow> response_fn \<Rightarrow> string option \<Rightarrow> string option \<Rightarrow> bool \<Rightarrow> seq_request" where
  "seq_entry name ty payload handler content uri proceed =
     \<lparr>sq_name = str name, sq_rtsp_type = ty, sq_payload_make = payload, sq_response_handler = handler,
      sq_content_type = map_option str content, sq_uri = map_option str uri, sq_proceed_on_rtsp_not_ok = proceed\<rparr>"

fun airplay_seq_request :: "airplay_seq_type \<Rightarrow> seq_request list" where
  "airplay_seq_request AIRPLAY_SEQ_START =
     [seq_entry ''GET /info'' EVRTSP_REQ_GET No_payload Info_start_handler None (Some ''/info'') False]"
| "airplay_seq_request AIRPLAY_SEQ_START_PLAYBACK =
     [seq_entry ''SETUP (session)'' EVRTSP_REQ_SETUP Setup_session_payload Setup_session_handler
        (Some ''application/x-apple-binary-plist'') None True,
      seq_entry ''SETPEERS'' EVRTSP_REQ_SETPEERS Setpeers_payload No_handler (Some ''/peer-list-changed'') None False,
      seq_entry ''SETUP (stream)'' EVRTSP_REQ_SETUP Setup_stream_payload Setup_stream_handler
        (Some ''application/x-apple-binary-plist'') None False,
      seq_entry ''RECORD'' EVRTSP_REQ_RECORD Record_payload Record_handler None None False,
      seq_entry ''SET_PARAMETER (volume)'' EVRTSP_REQ_SET_PARAMETER Set_volume_payload Volume_start_handler
        (Some ''text/parameters'') None True]"
| "airplay_seq_request AIRPLAY_SEQ_PROBE =
     [seq_entry ''GET /info (probe)'' EVRTSP_REQ_GET No_payload Info_probe_handler None (Some ''/info'') False]"
| "airplay_seq_request AIRPLAY_SEQ_FLUSH =
     [seq_entry ''FLUSH'' EVRTSP_REQ_FLUSH Flush_payload Flush_handler None None False]"
| "airplay_seq_request AIRPLAY_SEQ_STOP =
     [seq_entry ''TEARDOWN'' EVRTSP_REQ_TEARDOWN Teardown_payload Teardown_handler None None True]"
| "airplay_seq_request AIRPLAY_SEQ_FAILURE =
     [seq_entry ''TEARDOWN (failure)'' EVRTSP_REQ_TEARDOWN Teardown_payload Teardown_failure_handler None None False]"
| "airplay_seq_request AIRPLAY_SEQ_PIN_START =
     [seq_entry ''PIN start'' EVRTSP_REQ_POST Pin_start_payload Pin_start_handler None (Some ''/pair-pin-start'') False]"
| "airplay_seq_request AIRPLAY_SEQ_SEND_VOLUME =
     [seq_entry ''SET_PARAMETER (volume)'' EVRTSP_REQ_SET_PARAMETER Set_volume_payload No_handler
        (Some ''text/parameters'') None True]"
| "airplay_seq_request AIRPLAY_SEQ_SEND_TEXT =
     [seq_entry ''SET_PARAMETER (text)'' EVRTSP_REQ_SET_PARAMETER Send_text_payload No_handler
        (Some ''application/x-dmap-tagged'') None True]"
| "airplay_seq_request AIRPLAY_SEQ_SEND_PROGRESS =
     [seq_entry ''SET_PARAMETER (progress)'' EVRTSP_REQ_SET_PARAMETER Send_progress_payload No_handler
        (Some ''text/parameters'') None True]"
| "airplay_seq_request AIRPLAY_SEQ_SEND_ARTWORK =
     [seq_entry ''SET_PARAMETER (artwork)'' EVRTSP_REQ_SET_PARAMETER Send_artwork_payload No_handler None None True]"
| "airplay_seq_request AIRPLAY_SEQ_PAIR_SETUP =
     [seq_entry ''pair setup 1'' EVRTSP_REQ_POST Pair_setup1_payload Pair_setup1_handler
        (Some ''application/octet-stream'') (Some ''/pair-setup'') False,
      seq_entry ''pair setup 2'' EVRTSP_REQ_POST Pair_setup2_payload Pair_setup2_handler
        (Some ''application/octet-stream'') (Some ''/pair-setup'') False,
      seq_entry ''pair setup 3'' EVRTSP_REQ_POST Pair_setup3_payload Pair_setup3_handler
        (Some ''application/octet-stream'') (Some ''/pair-setup'') False]"
| "airplay_seq_request AIRPLAY_SEQ_PAIR_VERIFY =
     [seq_entry ''pair verify 1'' EVRTSP_REQ_POST Pair_verify1_payload Pair_verify1_handler
        (Some ''application/octet-stream'') (Some ''/pair-verify'') True,
      seq_entry ''pair verify 2'' EVRTSP_REQ_POST Pair_verify2_payload Pair_verify2_handler
        (Some ''application/octet-stream'') (Some ''/pair-verify'') False]"
| "airplay_seq_request AIRPLAY_SEQ_PAIR_TRANSIENT =
     [seq_entry ''pair setup 1'' EVRTSP_REQ_POST Pair_setup1_payload Pair_setup1_handler
        (Some ''application/octet-stream'') (Some ''/pair-setup'') True,
      seq_entry ''pair setup 2'' EVRTSP_REQ_POST Pair_setup2_payload Pair_setup2_handler
        (Some ''application/octet-stream'') (Some ''/pair-setup'') False]"
| "airplay_seq_request AIRPLAY_SEQ_FEEDBACK =
     [seq_entry ''POST /feedback'' EVRTSP_REQ_POST No_payload No_handler None (Some ''/feedback'') True]"
| "airplay_seq_request AIRPLAY_SEQ_ABORT = []"
| "airplay_seq_request AIRPLAY_SEQ_CONTINUE = []"

subsection \<open>The payload of a request\<close>

text \<open>
  The call of \<open>payload_make\<close>, with the session, the argument of the sequence and the request. The
  functions read the master session and the devices of the state \<open>w\<close>.
\<close>

definition with_session :: "airplay_session \<Rightarrow> int \<times> rtsp_request \<Rightarrow> (int \<times> airplay_session \<times> rtsp_request) wres" where
  "with_session rs r = (case r of (ret, req) \<Rightarrow> Inr (ret, rs, req))"

definition the_metadata :: "payload_arg \<Rightarrow> output_metadata wres" where
  "the_metadata arg = (case arg of Arg_metadata md \<Rightarrow> Inr md | Arg_null \<Rightarrow> Inl (Inner Null_deref) | Arg_pin pin \<Rightarrow> Inl Wrong_arg)"

definition the_pin :: "payload_arg \<Rightarrow> bytes option wres" where
  "the_pin arg = (case arg of Arg_metadata md \<Rightarrow> Inl Wrong_arg | Arg_null \<Rightarrow> Inr None | Arg_pin pin \<Rightarrow> Inr (Some pin))"

fun payload_make ::
  "payload_fn \<Rightarrow> 'p airplay_env \<Rightarrow> answers \<Rightarrow> 'e world \<Rightarrow> payload_arg \<Rightarrow> airplay_session \<Rightarrow> rtsp_request
     \<Rightarrow> (int \<times> airplay_session \<times> rtsp_request) wres" where
  "payload_make No_payload E A w arg rs req = Inr (0, rs, req)"
| "payload_make Setup_session_payload E A w arg rs req =
     bind_res (lift_res (payload_make_setup_session E (an_mem A) rs req)) (with_session rs)"
| "payload_make Setpeers_payload E A w arg rs req = bind_res (lift_res (payload_make_setpeers E rs req)) (with_session rs)"
| "payload_make Setup_stream_payload E A w arg rs req = with_session rs (payload_make_setup_stream E rs req)"
| "payload_make Record_payload E A w arg rs req =
     bind_res (master_get (rs_master_session rs) w) (\<lambda>ms. with_session rs (payload_make_record ms req))"
| "payload_make Set_volume_payload E A w arg rs req = with_session rs (payload_make_set_volume E rs req)"
| "payload_make Flush_payload E A w arg rs req =
     bind_res (master_get (rs_master_session rs) w) (\<lambda>ms. with_session rs (payload_make_flush ms req))"
| "payload_make Teardown_payload E A w arg rs req = (case payload_make_teardown rs of (ret, rs1) \<Rightarrow> Inr (ret, rs1, req))"
| "payload_make Pin_start_payload E A w arg rs req = with_session rs (payload_make_pin_start rs req)"
| "payload_make Send_text_payload E A w arg rs req =
     bind_res (the_metadata arg) (\<lambda>md. bind_res (master_get (rs_master_session rs) w) (\<lambda>ms.
       with_session rs (payload_make_send_text ms md req)))"
| "payload_make Send_progress_payload E A w arg rs req =
     bind_res (the_metadata arg) (\<lambda>md. bind_res (master_get (rs_master_session rs) w) (\<lambda>ms.
       with_session rs (payload_make_send_progress ms md req)))"
| "payload_make Send_artwork_payload E A w arg rs req =
     bind_res (the_metadata arg) (\<lambda>md. bind_res (master_get (rs_master_session rs) w) (\<lambda>ms.
       bind_res (lift_res (payload_make_send_artwork ms md req)) (with_session rs)))"
| "payload_make Pair_setup1_payload E A w arg rs req =
     bind_res (the_pin arg) (\<lambda>pin. lift_res (payload_make_pair_setup1 E (an_rand A) pin rs req))"
| "payload_make Pair_setup2_payload E A w arg rs req = lift_res (payload_make_pair_setup2 E (an_rand A) rs req)"
| "payload_make Pair_setup3_payload E A w arg rs req = lift_res (payload_make_pair_setup3 E (an_rand A) rs req)"
| "payload_make Pair_verify1_payload E A w arg rs req =
     lift_res (payload_make_pair_verify1 E (an_rand A) (w_devices w) rs req)"
| "payload_make Pair_verify2_payload E A w arg rs req = lift_res (payload_make_pair_verify2 E (an_rand A) rs req)"

subsection \<open>Sending\<close>

text \<open>
  The end of \<open>sequence_continue\<close> for a request it cannot send: the request and the context are freed,
  the session fails later. After a failed \<open>evrtsp_make_request\<close> the request is in the
  connection's queue nevertheless.
\<close>

definition sequence_error :: "nat \<Rightarrow> airplay_session \<Rightarrow> 'e world \<Rightarrow> 'e world wres" where
  "sequence_error p rs w = Inr (session_put p (deferred_session_failure rs) w)"

definition rtsp_ciph :: "'p airplay_env \<Rightarrow> cipher_ctx ciphercb" where
  "rtsp_ciph E out inb k enc = rtsp_cipher (ae_table E) (ae_crypto E) out inb k enc"

text \<open>Giving the request to the connection. A request in the queue that has been freed is written to.\<close>

definition sequence_send ::
  "'p airplay_env \<Rightarrow> answers \<Rightarrow> seq_ctx \<Rightarrow> nat \<Rightarrow> airplay_session \<Rightarrow> rtsp_request \<Rightarrow> evrtsp_cmd_type \<Rightarrow> bytes \<Rightarrow> 'e world \<Rightarrow> 'e world wres" where
  "sequence_send E A ctx i rs req ty uri w =
     (case rs_ctrl rs of
        None \<Rightarrow> Inl (Inner Null_deref)
      | Some cn \<Rightarrow>
          if dangles w cn then Inl Freed
          else bind_res (lift_res (evrtsp_make_request (rtsp_ciph E) (an_dial A i) cn req ty uri)) (\<lambda>(ret, cn1).
            if ret < 0
            then sequence_error (sc_session ctx) (rs\<lparr>rs_ctrl := Some cn1\<rparr>) (w\<lparr>w_dangling := i # w_dangling w\<rparr>)
            else Inr (session_put (sc_session ctx)
                   (rs\<lparr>rs_ctrl := Some (evrtsp_connection_set_closecb False cn1),
                       rs_reqs_in_flight := rs_reqs_in_flight rs + 1\<rparr>)
                   (w\<lparr>w_ctxs := (i, ctx) # w_ctxs w\<rparr>))))"

text \<open>
  \<open>sequence_continue\<close>, over the requests that are left: a payload function with a positive result
  skips its request.
\<close>

fun sequence_requests ::
  "'p airplay_env \<Rightarrow> answers \<Rightarrow> seq_ctx \<Rightarrow> seq_request list \<Rightarrow> 'e world \<Rightarrow> 'e world wres" where
  "sequence_requests E A ctx [] w = Inl (Inner Null_deref)"
| "sequence_requests E A ctx (cur # rest) w =
     bind_res (session_get (sc_session ctx) w) (\<lambda>rs.
       let i = w_next w;
           w0 = w\<lparr>w_next := i + 1\<rparr>;
           req0 = evrtsp_request_new i True
       in case request_headers_add E (sq_rtsp_type cur) rs req0 of (ret, rs1, req1) \<Rightarrow>
         if ret < 0 then sequence_error (sc_session ctx) rs1 w0
         else
           let req2 = (case sq_content_type cur of None \<Rightarrow> req1 | Some t \<Rightarrow> header_add (str ''Content-Type'') t req1) in
           bind_res (payload_make (sq_payload_make cur) E A w0 (sc_arg ctx) rs1 req2) (\<lambda>(ret, rs2, req3).
             if ret > 0
             then (if rest = [] then sequence_error (sc_session ctx) rs2 w0
                   else sequence_requests E A (ctx\<lparr>sc_cur := rest\<rparr>) rest (session_put (sc_session ctx) rs2 w0))
             else if ret < 0 then sequence_error (sc_session ctx) rs2 w0
             else sequence_send E A (ctx\<lparr>sc_cur := cur # rest\<rparr>) i rs2 req3 (sq_rtsp_type cur)
                    (case sq_uri cur of None \<Rightarrow> rs_session_url rs2 | Some u \<Rightarrow> u) w0))"

definition sequence_continue :: "'p airplay_env \<Rightarrow> answers \<Rightarrow> seq_ctx \<Rightarrow> 'e world \<Rightarrow> 'e world wres" where
  "sequence_continue E A ctx w = sequence_requests E A ctx (sc_cur ctx) w"

definition sequence_start ::
  "'p airplay_env \<Rightarrow> answers \<Rightarrow> airplay_seq_type \<Rightarrow> nat \<Rightarrow> payload_arg \<Rightarrow> 'e world \<Rightarrow> 'e world wres" where
  "sequence_start E A seq_type p arg w =
     (case airplay_seq_definition seq_type of
        None \<Rightarrow> Inl (Inner Out_of_bounds)
      | Some (on_success, on_error) \<Rightarrow>
          sequence_continue E A \<lparr>sc_cur = airplay_seq_request seq_type, sc_on_success = on_success,
            sc_on_error = on_error, sc_session = p, sc_arg = arg\<rparr> w)"

subsection \<open>Devices\<close>

definition airplay_device_start :: "'p airplay_env \<Rightarrow> answers \<Rightarrow> output_device \<Rightarrow> int \<Rightarrow> 'e world \<Rightarrow> (int \<times> 'e world) wres" where
  "airplay_device_start E A device callback_id w =
     (case session_make A device callback_id w of
        (None, w1) \<Rightarrow> Inr (-1, w1)
      | (Some p, w1) \<Rightarrow> bind_res (sequence_start E A AIRPLAY_SEQ_START p Arg_null w1) (\<lambda>w2. Inr (1, w2)))"

definition airplay_device_probe :: "'p airplay_env \<Rightarrow> answers \<Rightarrow> output_device \<Rightarrow> int \<Rightarrow> 'e world \<Rightarrow> (int \<times> 'e world) wres" where
  "airplay_device_probe E A device callback_id w =
     (case session_make A device callback_id w of
        (None, w1) \<Rightarrow> Inr (-1, w1)
      | (Some p, w1) \<Rightarrow> bind_res (sequence_start E A AIRPLAY_SEQ_PROBE p Arg_null w1) (\<lambda>w2. Inr (1, w2)))"

definition airplay_device_authorize ::
  "'p airplay_env \<Rightarrow> answers \<Rightarrow> output_device \<Rightarrow> bytes \<Rightarrow> int \<Rightarrow> 'e world \<Rightarrow> (int \<times> 'e world) wres" where
  "airplay_device_authorize E A device pin callback_id w =
     (case session_make A device callback_id w of
        (None, w1) \<Rightarrow> Inr (-1, w1)
      | (Some p, w1) \<Rightarrow> bind_res (sequence_start E A AIRPLAY_SEQ_PAIR_SETUP p (Arg_pin pin) w1) (\<lambda>w2. Inr (1, w2)))"

text \<open>The operations on a device's session, which is null when the device has none.\<close>

definition device_session :: "output_device \<Rightarrow> nat wres" where
  "device_session device = (case dv_session device of None \<Rightarrow> Inl (Inner Null_deref) | Some p \<Rightarrow> Inr p)"

definition airplay_device_stop :: "'p airplay_env \<Rightarrow> answers \<Rightarrow> output_device \<Rightarrow> int \<Rightarrow> 'e world \<Rightarrow> (int \<times> 'e world) wres" where
  "airplay_device_stop E A device callback_id w =
     bind_res (device_session device) (\<lambda>p.
     bind_res (session_modify p (\<lambda>rs. rs\<lparr>rs_callback_id := callback_id\<rparr>) w) (\<lambda>w1.
     bind_res (sequence_start E A AIRPLAY_SEQ_STOP p Arg_null w1) (\<lambda>w2. Inr (1, w2))))"

definition airplay_device_flush :: "'p airplay_env \<Rightarrow> answers \<Rightarrow> output_device \<Rightarrow> int \<Rightarrow> 'e world \<Rightarrow> (int \<times> 'e world) wres" where
  "airplay_device_flush E A device callback_id w =
     bind_res (device_session device) (\<lambda>p. bind_res (session_get p w) (\<lambda>rs.
       if rs_state rs \<noteq> AIRPLAY_STATE_STREAMING then Inr (0, w)
       else bind_res (sequence_start E A AIRPLAY_SEQ_FLUSH p Arg_null (session_put p (rs\<lparr>rs_callback_id := callback_id\<rparr>) w))
              (\<lambda>w2. Inr (1, w2))))"

definition airplay_device_cb_set :: "output_device \<Rightarrow> int \<Rightarrow> 'e world \<Rightarrow> 'e world wres" where
  "airplay_device_cb_set device callback_id w =
     bind_res (device_session device) (\<lambda>p. session_modify p (\<lambda>rs. rs\<lparr>rs_callback_id := callback_id\<rparr>) w)"

definition airplay_set_volume_one :: "'p airplay_env \<Rightarrow> answers \<Rightarrow> output_device \<Rightarrow> int \<Rightarrow> 'e world \<Rightarrow> (int \<times> 'e world) wres" where
  "airplay_set_volume_one E A device callback_id w =
     (case dv_session device of
        None \<Rightarrow> Inr (0, w)
      | Some p \<Rightarrow> bind_res (session_get p w) (\<lambda>rs.
          if \<not> is_connected (rs_state rs) then Inr (0, w)
          else bind_res (sequence_start E A AIRPLAY_SEQ_SEND_VOLUME p Arg_null
                 (session_put p (rs\<lparr>rs_volume := dv_volume device, rs_callback_id := callback_id\<rparr>) w)) (\<lambda>w2. Inr (1, w2))))"

subsection \<open>The end of a sequence\<close>

definition session_pair_success :: "'p airplay_env \<Rightarrow> answers \<Rightarrow> nat \<Rightarrow> 'e world \<Rightarrow> 'e world wres" where
  "session_pair_success E A p w =
     bind_res (session_get p w) (\<lambda>rs.
       if rs_next_seq rs \<noteq> AIRPLAY_SEQ_CONTINUE
       then bind_res (sequence_start E A (rs_next_seq rs) p Arg_null w)
              (session_modify p (\<lambda>rs. rs\<lparr>rs_next_seq := AIRPLAY_SEQ_CONTINUE\<rparr>))
       else session_success p w)"

definition start_failure :: "nat \<Rightarrow> 'e world \<Rightarrow> 'e world wres" where
  "start_failure p w =
     bind_res (session_get p w) (\<lambda>rs.
       session_failure p (w\<lparr>w_devices := device_update (rs_device_id rs)
         (\<lambda>d. if dv_auth_key d \<noteq> None then d\<lparr>dv_auth_key := None, dv_requires_auth := True\<rparr> else d) (w_devices w)\<rparr>))"

text \<open>\<open>start_retry\<close> passes on the device as it is after the session has gone.\<close>

definition start_retry :: "'p airplay_env \<Rightarrow> answers \<Rightarrow> nat \<Rightarrow> 'e world \<Rightarrow> 'e world wres" where
  "start_retry E A p w =
     bind_res (session_get p w) (\<lambda>rs.
       case outputs_device_get (w_devices w) (rs_device_id rs) of
         None \<Rightarrow> session_failure p w
       | Some device \<Rightarrow>
           if rs_family rs \<noteq> AF_INET6 \<or> is_failed (rs_state rs) then session_failure p w
           else
             bind_res (session_cleanup p (w\<lparr>w_devices := device_update (rs_device_id rs)
                 (\<lambda>d. d\<lparr>dv_v6_disabled := True\<rparr>) (w_devices w)\<rparr>)) (\<lambda>w1.
               case outputs_device_get (w_devices w1) (rs_device_id rs) of
                 None \<Rightarrow> Inl Freed
               | Some device1 \<Rightarrow>
                   bind_res (airplay_device_start E A device1 (rs_callback_id rs) w1) (\<lambda>(ret, w2). Inr w2)))"

definition session_call :: "session_fn \<Rightarrow> 'p airplay_env \<Rightarrow> answers \<Rightarrow> nat \<Rightarrow> 'e world \<Rightarrow> 'e world wres" where
  "session_call f E A p w =
     (case f of
        No_function \<Rightarrow> Inr w
      | Fn_session_connected \<Rightarrow> session_connected p w
      | Fn_session_success \<Rightarrow> session_success p w
      | Fn_session_status \<Rightarrow> session_status p w
      | Fn_session_pair_success \<Rightarrow> session_pair_success E A p w
      | Fn_session_failure \<Rightarrow> session_failure p w
      | Fn_start_failure \<Rightarrow> start_failure p w
      | Fn_start_retry \<Rightarrow> start_retry E A p w)"

end
