(* ===== verification/Airplay_Handlers.thy ===== *)
theory Airplay_Handlers
  imports Airplay_Sequences
begin

text \<open>
  The response handlers of \<open>src/airplay.c\<close>. A handler reads the response, changes its session and the
  session's device, and says what the sequence does next: go on, abort, or give way to another
  sequence.
\<close>

definition RTSP_OK :: int where "RTSP_OK = 200"
definition RTSP_UNAUTHORIZED :: int where "RTSP_UNAUTHORIZED = 401"
definition RTSP_CONNECTION_AUTH_REQUIRED :: int where "RTSP_CONNECTION_AUTH_REQUIRED = 470"

definition AIRPLAY_FLAG_PIN_REQUIRED :: u64 where "AIRPLAY_FLAG_PIN_REQUIRED = push_bit 3 1"
definition AIRPLAY_FLAG_PASSWORD_REQUIRED :: u64 where "AIRPLAY_FLAG_PASSWORD_REQUIRED = push_bit 7 1"
definition AIRPLAY_FLAG_ONE_TIME_PAIRING_REQUIRED :: u64 where "AIRPLAY_FLAG_ONE_TIME_PAIRING_REQUIRED = push_bit 9 1"

type_synonym handled = "(airplay_seq_type \<times> airplay_session \<times> output_device list) res"

subsection \<open>Session set-up\<close>

text \<open>
  \<open>session_cipher_setup\<close>: the control channel is ciphered from now on, and the audio packets with the
  first half of the secret.
\<close>

definition session_cipher_setup :: "'p airplay_env \<Rightarrow> bytes \<Rightarrow> airplay_session \<Rightarrow> (int \<times> airplay_session) res" where
  "session_cipher_setup E key rs =
     (if length key < AIRPLAY_AUDIO_KEY_LEN \<or> length key > 64 then Inr (-1, rs)
      else
        let rs1 = rs\<lparr>rs_shared_secret_len := length key, rs_shared_secret := overlay (rs_shared_secret rs) key\<rparr> in
        bind_res (pair_cipher_new (ae_table E) (ae_crypto E) (rs_pair_type rs1) 0 key) (\<lambda>ctx.
          case ctx of
            None \<Rightarrow> Inr (-1, rs1)
          | Some control_cipher_ctx \<Rightarrow>
              (case rs_ctrl rs1 of
                 None \<Rightarrow> Inl Null_deref
               | Some cn \<Rightarrow>
                   Inr (0, rs1\<lparr>rs_state := AIRPLAY_STATE_ENCRYPTED,
                     rs_packet_cipher_hd := Some (take AIRPLAY_AUDIO_KEY_LEN (rs_shared_secret rs1)),
                     rs_ctrl := Some (evrtsp_connection_set_ciphercb (Some control_cipher_ctx) cn)\<rparr>))))"

definition evrtsp_connection_get_local_address ::
  "answers \<Rightarrow> 'k connection \<Rightarrow> (bytes \<times> u16 \<times> address_family) option res" where
  "evrtsp_connection_get_local_address A cn =
     (if \<not> evrtsp_connected cn then Inr None
      else case an_local A of
        Some (address, port, AF_OTHER) \<Rightarrow> Inl Assert_fail
      | r \<Rightarrow> Inr r)"

text \<open>\<open>session_ids_set\<close>; \<open>snprintf\<close> cuts an url that does not fit, and the session is not used then.\<close>

definition session_ids_set :: "answers \<Rightarrow> airplay_session \<Rightarrow> (int \<times> airplay_session) res" where
  "session_ids_set A rs =
     (case rs_ctrl rs of
        None \<Rightarrow> Inl Null_deref
      | Some cn \<Rightarrow>
          bind_res (evrtsp_connection_get_local_address A cn) (\<lambda>local.
            case local of
              None \<Rightarrow> Inr (-1, rs)
            | Some (full_address, port, family) \<Rightarrow>
                if port = 0 then Inr (-1, rs)
                else
                  let address = fst (split_interface full_address);
                      url = (if family = AF_INET
                             then str ''rtsp://'' @ address @ str ''/'' @ print_uint (an_session_id A)
                             else str ''rtsp://['' @ address @ str '']/'' @ print_uint (an_session_id A));
                      rs1 = rs\<lparr>rs_session_uuid := an_uuid A, rs_session_id := an_session_id A,
                               rs_session_url := take 127 url\<rparr>
                  in if length url \<ge> 128 then Inr (-1, rs1) else Inr (0, rs1\<lparr>rs_local_address := Some address\<rparr>)))"

subsection \<open>Information on the device\<close>

definition response_handler_info_generic ::
  "'p airplay_env \<Rightarrow> answers \<Rightarrow> rtsp_request \<Rightarrow> airplay_session \<Rightarrow> output_device list \<Rightarrow> handled" where
  "response_handler_info_generic E A req rs devs =
     (let L = ae_plist E in
      case outputs_device_get devs (rs_device_id rs) of
        None \<Rightarrow> Inr (AIRPLAY_SEQ_ABORT, rs, devs)
      | Some device \<Rightarrow>
          bind_res (session_ids_set A rs) (\<lambda>(ret, rs1).
            if ret < 0 then Inr (AIRPLAY_SEQ_ABORT, rs1, devs)
            else case pl_from_bin L (rq_input_buffer req) of
              None \<Rightarrow> Inr (AIRPLAY_SEQ_ABORT, rs1, devs)
            | Some response \<Rightarrow>
                let rs2 = (case pl_dict_get_item L response (str ''statusFlags'') of
                        None \<Rightarrow> rs1 | Some item \<Rightarrow> rs1\<lparr>rs_statusflags := pl_get_uint_val L item\<rparr>);
                    flags = rs_statusflags rs2;
                    normal = rs2\<lparr>rs_pair_type := PAIR_CLIENT_HOMEKIT_NORMAL\<rparr>
                in if flags AND AIRPLAY_FLAG_ONE_TIME_PAIRING_REQUIRED \<noteq> 0
                   then (if dv_auth_key device = None
                         then Inr (AIRPLAY_SEQ_PIN_START, normal\<lparr>rs_state := AIRPLAY_STATE_AUTH\<rparr>,
                                device_update (dv_id device) (\<lambda>d. d\<lparr>dv_requires_auth := True\<rparr>) devs)
                         else Inr (AIRPLAY_SEQ_PAIR_VERIFY, normal\<lparr>rs_state := AIRPLAY_STATE_INFO\<rparr>, devs))
                   else if flags AND AIRPLAY_FLAG_PIN_REQUIRED \<noteq> 0
                   then Inr (AIRPLAY_SEQ_PIN_START, normal\<lparr>rs_state := AIRPLAY_STATE_AUTH\<rparr>,
                          device_update (dv_id device) (\<lambda>d. d\<lparr>dv_auth_key := None, dv_requires_auth := True\<rparr>) devs)
                   else if flags AND AIRPLAY_FLAG_PASSWORD_REQUIRED \<noteq> 0
                   then (if rs_password normal = None then Inr (AIRPLAY_SEQ_ABORT, normal, devs)
                         else if dv_auth_key device = None
                         then Inr (AIRPLAY_SEQ_PAIR_SETUP, normal\<lparr>rs_state := AIRPLAY_STATE_AUTH\<rparr>, devs)
                         else Inr (AIRPLAY_SEQ_PAIR_VERIFY, normal\<lparr>rs_state := AIRPLAY_STATE_INFO\<rparr>, devs))
                   else Inr (AIRPLAY_SEQ_PAIR_TRANSIENT,
                          rs2\<lparr>rs_pair_type := PAIR_CLIENT_HOMEKIT_TRANSIENT, rs_state := AIRPLAY_STATE_INFO\<rparr>, devs)))"

definition response_handler_info_probe ::
  "'p airplay_env \<Rightarrow> answers \<Rightarrow> rtsp_request \<Rightarrow> airplay_session \<Rightarrow> output_device list \<Rightarrow> handled" where
  "response_handler_info_probe E A req rs devs =
     bind_res (response_handler_info_generic E A req rs devs) (\<lambda>(seq_type, rs1, devs1).
       Inr (if seq_type = AIRPLAY_SEQ_PAIR_TRANSIENT \<or> seq_type = AIRPLAY_SEQ_PAIR_VERIFY then AIRPLAY_SEQ_CONTINUE
            else seq_type, rs1, devs1))"

definition response_handler_info_start ::
  "'p airplay_env \<Rightarrow> answers \<Rightarrow> rtsp_request \<Rightarrow> airplay_session \<Rightarrow> output_device list \<Rightarrow> handled" where
  "response_handler_info_start E A req rs devs =
     bind_res (response_handler_info_generic E A req rs devs) (\<lambda>(seq_type, rs1, devs1).
       Inr (seq_type,
            if seq_type \<noteq> AIRPLAY_SEQ_ABORT \<and> seq_type \<noteq> AIRPLAY_SEQ_PIN_START
            then rs1\<lparr>rs_next_seq := AIRPLAY_SEQ_START_PLAYBACK\<rparr> else rs1, devs1))"

subsection \<open>Pairing\<close>

definition setup_response :: "pair_step \<Rightarrow> 'p airplay_env \<Rightarrow> rand \<Rightarrow> setup_ctx \<Rightarrow> bytes \<Rightarrow> (int \<times> setup_ctx) res" where
  "setup_response step E =
     (case step of Setup1 \<Rightarrow> pair_setup_response1 (ae_table E) (ae_crypto E)
      | Setup2 \<Rightarrow> pair_setup_response2 (ae_table E) (ae_crypto E)
      | _ \<Rightarrow> pair_setup_response3 (ae_table E) (ae_crypto E))"

definition verify_response :: "pair_step \<Rightarrow> 'p airplay_env \<Rightarrow> rand \<Rightarrow> verify_ctx \<Rightarrow> bytes \<Rightarrow> (int \<times> verify_ctx) res" where
  "verify_response step E =
     (case step of Verify1 \<Rightarrow> pair_verify_response1 (ae_table E) (ae_crypto E)
      | _ \<Rightarrow> pair_verify_response2 (ae_table E) (ae_crypto E))"

definition response_handler_pair_generic ::
  "pair_step \<Rightarrow> 'p airplay_env \<Rightarrow> answers \<Rightarrow> rtsp_request \<Rightarrow> airplay_session \<Rightarrow> (airplay_seq_type \<times> airplay_session) res" where
  "response_handler_pair_generic step E A req rs =
     (let result = (\<lambda>ret. if ret < (0::int) then AIRPLAY_SEQ_ABORT else AIRPLAY_SEQ_CONTINUE) in
      if step \<in> {Setup1, Setup2, Setup3}
      then (case rs_pair_setup_ctx rs of
              None \<Rightarrow> Inl Null_deref
            | Some ctx \<Rightarrow> bind_res (setup_response step E (an_rand A) ctx (rq_input_buffer req)) (\<lambda>(ret, ctx1).
                Inr (result ret, rs\<lparr>rs_pair_setup_ctx := Some ctx1\<rparr>)))
      else (case rs_pair_verify_ctx rs of
              None \<Rightarrow> Inl Null_deref
            | Some ctx \<Rightarrow> bind_res (verify_response step E (an_rand A) ctx (rq_input_buffer req)) (\<lambda>(ret, ctx1).
                Inr (result ret, rs\<lparr>rs_pair_verify_ctx := Some ctx1\<rparr>))))"

definition response_handler_pair_setup1 ::
  "'p airplay_env \<Rightarrow> answers \<Rightarrow> rtsp_request \<Rightarrow> airplay_session \<Rightarrow> output_device list \<Rightarrow> handled" where
  "response_handler_pair_setup1 E A req rs devs =
     (if rs_pair_type rs = PAIR_CLIENT_HOMEKIT_TRANSIENT \<and> rq_response_code req = RTSP_CONNECTION_AUTH_REQUIRED
      then (case outputs_device_get devs (rs_device_id rs) of
              None \<Rightarrow> Inr (AIRPLAY_SEQ_ABORT, rs, devs)
            | Some device \<Rightarrow> Inr (AIRPLAY_SEQ_PIN_START, rs\<lparr>rs_pair_type := PAIR_CLIENT_HOMEKIT_NORMAL\<rparr>,
                device_update (dv_id device) (\<lambda>d. d\<lparr>dv_requires_auth := True\<rparr>) devs))
      else bind_res (response_handler_pair_generic Setup1 E A req rs) (\<lambda>(seq_type, rs1). Inr (seq_type, rs1, devs)))"

text \<open>The secret that a result holds.\<close>

definition result_secret :: "pair_result \<Rightarrow> bytes" where
  "result_secret r = take (res_shared_secret_len r) (res_shared_secret r)"

definition response_handler_pair_setup2 ::
  "'p airplay_env \<Rightarrow> answers \<Rightarrow> rtsp_request \<Rightarrow> airplay_session \<Rightarrow> output_device list \<Rightarrow> handled" where
  "response_handler_pair_setup2 E A req rs devs =
     bind_res (response_handler_pair_generic Setup2 E A req rs) (\<lambda>(seq_type, rs1).
       if seq_type \<noteq> AIRPLAY_SEQ_CONTINUE \<or> rs_pair_type rs1 \<noteq> PAIR_CLIENT_HOMEKIT_TRANSIENT
       then Inr (seq_type, rs1, devs)
       else case rs_pair_setup_ctx rs1 of
         None \<Rightarrow> Inl Null_deref
       | Some ctx \<Rightarrow>
           (case pair_setup_result (ae_table E) ctx of (ret, ctx1, result) \<Rightarrow>
             let rs2 = rs1\<lparr>rs_pair_setup_ctx := Some ctx1\<rparr> in
             case result of
               None \<Rightarrow> Inr (AIRPLAY_SEQ_ABORT, rs2\<lparr>rs_state := AIRPLAY_STATE_FAILED\<rparr>, devs)
             | Some (key_text, r) \<Rightarrow>
                 bind_res (session_cipher_setup E (result_secret r) rs2) (\<lambda>(ret, rs3).
                   if ret < 0 then Inr (AIRPLAY_SEQ_ABORT, rs3\<lparr>rs_state := AIRPLAY_STATE_FAILED\<rparr>, devs)
                   else Inr (AIRPLAY_SEQ_CONTINUE, rs3, devs))))"

definition response_handler_pair_setup3 ::
  "'p airplay_env \<Rightarrow> answers \<Rightarrow> rtsp_request \<Rightarrow> airplay_session \<Rightarrow> output_device list \<Rightarrow> handled" where
  "response_handler_pair_setup3 E A req rs devs =
     bind_res (response_handler_pair_generic Setup3 E A req rs) (\<lambda>(seq_type, rs1).
       if seq_type \<noteq> AIRPLAY_SEQ_CONTINUE then Inr (seq_type, rs1, devs)
       else case rs_pair_setup_ctx rs1 of
         None \<Rightarrow> Inl Null_deref
       | Some ctx \<Rightarrow>
           (case pair_setup_result (ae_table E) ctx of (ret, ctx1, result) \<Rightarrow>
             let rs2 = rs1\<lparr>rs_pair_setup_ctx := Some ctx1\<rparr> in
             case (result, outputs_device_get devs (rs_device_id rs2)) of
               (Some (authorization_key, r), Some device) \<Rightarrow>
                 Inr (AIRPLAY_SEQ_CONTINUE, rs2\<lparr>rs_state := AIRPLAY_STATE_STOPPED\<rparr>,
                   device_update (dv_id device) (\<lambda>d. d\<lparr>dv_auth_key := Some (c_string authorization_key)\<rparr>) devs)
             | _ \<Rightarrow> Inr (AIRPLAY_SEQ_ABORT, rs2, devs)))"

text \<open>Both handlers of pair verify take the device's key away when something is wrong.\<close>

definition response_handler_pair_verify1 ::
  "'p airplay_env \<Rightarrow> answers \<Rightarrow> rtsp_request \<Rightarrow> airplay_session \<Rightarrow> output_device list \<Rightarrow> handled" where
  "response_handler_pair_verify1 E A req rs devs =
     bind_res (response_handler_pair_generic Verify1 E A req rs) (\<lambda>(seq_type, rs1).
       if seq_type \<noteq> AIRPLAY_SEQ_CONTINUE
       then Inr (AIRPLAY_SEQ_ABORT, rs1\<lparr>rs_state := AIRPLAY_STATE_AUTH\<rparr>,
              device_update (rs_device_id rs1) (\<lambda>d. d\<lparr>dv_auth_key := None\<rparr>) devs)
       else Inr (seq_type, rs1, devs))"

definition verify2_error :: "airplay_session \<Rightarrow> output_device list \<Rightarrow> handled" where
  "verify2_error rs devs =
     (case outputs_device_get devs (rs_device_id rs) of
        None \<Rightarrow> Inr (AIRPLAY_SEQ_ABORT, rs, devs)
      | Some device \<Rightarrow> Inr (AIRPLAY_SEQ_ABORT, rs\<lparr>rs_state := AIRPLAY_STATE_AUTH\<rparr>,
          device_update (dv_id device) (\<lambda>d. d\<lparr>dv_auth_key := None\<rparr>) devs))"

definition response_handler_pair_verify2 ::
  "'p airplay_env \<Rightarrow> answers \<Rightarrow> rtsp_request \<Rightarrow> airplay_session \<Rightarrow> output_device list \<Rightarrow> handled" where
  "response_handler_pair_verify2 E A req rs devs =
     bind_res (response_handler_pair_generic Verify2 E A req rs) (\<lambda>(seq_type, rs1).
       if seq_type \<noteq> AIRPLAY_SEQ_CONTINUE then verify2_error rs1 devs
       else case rs_pair_verify_ctx rs1 of
         None \<Rightarrow> Inl Null_deref
       | Some ctx \<Rightarrow>
           (case pair_verify_result (ae_table E) ctx of (ret, ctx1, result) \<Rightarrow>
             let rs2 = rs1\<lparr>rs_pair_verify_ctx := Some ctx1\<rparr> in
             case result of
               None \<Rightarrow> verify2_error rs2 devs
             | Some r \<Rightarrow>
                 bind_res (session_cipher_setup E (result_secret r) rs2) (\<lambda>(ret, rs3).
                   if ret < 0 then verify2_error rs3 devs else Inr (AIRPLAY_SEQ_CONTINUE, rs3, devs))))"

subsection \<open>Setting up the stream\<close>

text \<open>A port of a response: the code takes the low 16 bits, and keeps the old one when it is missing.\<close>

definition response_port :: "'p plist_lib \<Rightarrow> 'p \<Rightarrow> string \<Rightarrow> u16 \<Rightarrow> u16" where
  "response_port L dict name old =
     (case pl_dict_get_item L dict (str name) of None \<Rightarrow> old | Some item \<Rightarrow> ucast (pl_get_uint_val L item))"

definition response_handler_setup_session ::
  "'p airplay_env \<Rightarrow> rtsp_request \<Rightarrow> airplay_session \<Rightarrow> airplay_seq_type \<times> airplay_session" where
  "response_handler_setup_session E req rs =
     (let L = ae_plist E in
      if rq_response_code req = RTSP_UNAUTHORIZED
      then (if rs_req_has_auth rs then (AIRPLAY_SEQ_ABORT, rs)
            else case auth_header_parse rs req of (ret, rs1) \<Rightarrow>
              (if ret < 0 then AIRPLAY_SEQ_ABORT else AIRPLAY_SEQ_START_PLAYBACK, rs1))
      else if rq_response_code req \<noteq> RTSP_OK then (AIRPLAY_SEQ_ABORT, rs)
      else case pl_from_bin L (rq_input_buffer req) of
        None \<Rightarrow> (AIRPLAY_SEQ_ABORT, rs)
      | Some response \<Rightarrow>
          let rs1 = rs\<lparr>rs_events_port := response_port L response ''eventPort'' (rs_events_port rs),
                       rs_timing_port := response_port L response ''timingPort'' (rs_timing_port rs)\<rparr>
          in (if rs_events_port rs1 = 0 then AIRPLAY_SEQ_ABORT else AIRPLAY_SEQ_CONTINUE, rs1))"

text \<open>Listening for events may fail; the code goes on.\<close>

definition response_handler_setup_stream ::
  "'p airplay_env \<Rightarrow> answers \<Rightarrow> rtsp_request \<Rightarrow> airplay_session \<Rightarrow> airplay_seq_type \<times> airplay_session" where
  "response_handler_setup_stream E A req rs =
     (let L = ae_plist E in
      case pl_from_bin L (rq_input_buffer req) of
        None \<Rightarrow> (AIRPLAY_SEQ_ABORT, rs)
      | Some response \<Rightarrow>
          (case pl_dict_get_item L response (str ''streams'') of
             None \<Rightarrow> (AIRPLAY_SEQ_ABORT, rs)
           | Some streams \<Rightarrow>
               (case pl_array_get_item L streams 0 of
                  None \<Rightarrow> (AIRPLAY_SEQ_ABORT, rs)
                | Some stream \<Rightarrow>
                    let rs1 = rs\<lparr>rs_data_port := response_port L stream ''dataPort'' (rs_data_port rs),
                                 rs_control_port := response_port L stream ''controlPort'' (rs_control_port rs)\<rparr>;
                        rs2 = rs1\<lparr>rs_server_fd := an_udp A\<rparr>
                    in if rs_data_port rs1 = 0 \<or> rs_control_port rs1 = 0 then (AIRPLAY_SEQ_ABORT, rs1)
                       else if rs_server_fd rs2 < 0 then (AIRPLAY_SEQ_ABORT, rs2)
                       else (AIRPLAY_SEQ_CONTINUE, rs2\<lparr>rs_state := AIRPLAY_STATE_SETUP\<rparr>))))"

definition response_handler_record :: "airplay_session \<Rightarrow> airplay_seq_type \<times> airplay_session" where
  "response_handler_record rs = (AIRPLAY_SEQ_CONTINUE, rs\<lparr>rs_state := AIRPLAY_STATE_RECORD\<rparr>)"

definition response_handler_flush :: "airplay_session \<Rightarrow> airplay_seq_type \<times> airplay_session" where
  "response_handler_flush rs = (AIRPLAY_SEQ_CONTINUE, rs\<lparr>rs_state := AIRPLAY_STATE_CONNECTED\<rparr>)"

definition response_handler_teardown :: "airplay_session \<Rightarrow> airplay_seq_type \<times> airplay_session" where
  "response_handler_teardown rs = (AIRPLAY_SEQ_CONTINUE, rs\<lparr>rs_state := AIRPLAY_STATE_STOPPED\<rparr>)"

definition response_handler_teardown_failure :: "airplay_session \<Rightarrow> airplay_seq_type \<times> airplay_session" where
  "response_handler_teardown_failure rs =
     (AIRPLAY_SEQ_CONTINUE, if rs_state rs \<noteq> AIRPLAY_STATE_AUTH then rs\<lparr>rs_state := AIRPLAY_STATE_FAILED\<rparr> else rs)"

definition response_handler_pin_start :: "airplay_session \<Rightarrow> airplay_seq_type \<times> airplay_session" where
  "response_handler_pin_start rs = (AIRPLAY_SEQ_CONTINUE, rs\<lparr>rs_state := AIRPLAY_STATE_AUTH\<rparr>)"

subsection \<open>Metadata\<close>

text \<open>The sequences that send what the device wants of the metadata.\<close>

definition airplay_metadata_send_generic ::
  "'p airplay_env \<Rightarrow> answers \<Rightarrow> nat \<Rightarrow> output_metadata \<Rightarrow> bool \<Rightarrow> 'e world \<Rightarrow> (int \<times> 'e world) wres" where
  "airplay_metadata_send_generic E A p md only_progress w =
     (let send = (\<lambda>bit wanted seq_type w. bind_res (session_get p w) (\<lambda>rs.
            if wanted \<and> rs_wanted_metadata rs AND bit \<noteq> 0 then sequence_start E A seq_type p (Arg_metadata md) w else Inr w))
      in bind_res (send AIRPLAY_MD_WANTS_PROGRESS True AIRPLAY_SEQ_SEND_PROGRESS w) (\<lambda>w1.
         bind_res (send AIRPLAY_MD_WANTS_TEXT (\<not> only_progress) AIRPLAY_SEQ_SEND_TEXT w1) (\<lambda>w2.
         bind_res (send AIRPLAY_MD_WANTS_ARTWORK (\<not> only_progress \<and> md_artwork md \<noteq> None) AIRPLAY_SEQ_SEND_ARTWORK w2) (\<lambda>w3.
         Inr (0, w3)))))"

definition airplay_metadata_startup_send :: "'p airplay_env \<Rightarrow> answers \<Rightarrow> nat \<Rightarrow> 'e world \<Rightarrow> (int \<times> 'e world) wres" where
  "airplay_metadata_startup_send E A p w =
     bind_res (session_get p w) (\<lambda>rs.
       case w_metadata w of
         None \<Rightarrow> Inr (0, w)
       | Some md \<Rightarrow>
           if rs_wanted_metadata rs = 0 then Inr (0, w)
           else airplay_metadata_send_generic E A p (md\<lparr>md_startup := True\<rparr>) False
                  (w\<lparr>w_metadata := Some (md\<lparr>md_startup := True\<rparr>)\<rparr>))"

definition response_handler_volume_start ::
  "'p airplay_env \<Rightarrow> answers \<Rightarrow> nat \<Rightarrow> 'e world \<Rightarrow> (airplay_seq_type \<times> 'e world) wres" where
  "response_handler_volume_start E A p w =
     bind_res (airplay_metadata_startup_send E A p w) (\<lambda>(ret, w1).
       Inr (if ret < 0 then AIRPLAY_SEQ_ABORT else AIRPLAY_SEQ_CONTINUE, w1))"

subsection \<open>Calling a handler\<close>

definition on_session ::
  "nat \<Rightarrow> 'e world \<Rightarrow> (airplay_session \<Rightarrow> output_device list \<Rightarrow> handled) \<Rightarrow> (airplay_seq_type \<times> 'e world) wres" where
  "on_session p w f =
     bind_res (session_get p w) (\<lambda>rs.
     bind_res (lift_res (f rs (w_devices w))) (\<lambda>(seq_type, rs1, devs).
       Inr (seq_type, session_put p rs1 (w\<lparr>w_devices := devs\<rparr>))))"

definition simply :: "(airplay_session \<Rightarrow> airplay_seq_type \<times> airplay_session) \<Rightarrow> airplay_session \<Rightarrow> output_device list \<Rightarrow> handled" where
  "simply f rs devs = (case f rs of (seq_type, rs1) \<Rightarrow> Inr (seq_type, rs1, devs))"

fun response_handler ::
  "response_fn \<Rightarrow> 'p airplay_env \<Rightarrow> answers \<Rightarrow> rtsp_request \<Rightarrow> nat \<Rightarrow> 'e world \<Rightarrow> (airplay_seq_type \<times> 'e world) wres" where
  "response_handler No_handler E A req p w = Inr (AIRPLAY_SEQ_CONTINUE, w)"
| "response_handler Info_start_handler E A req p w = on_session p w (response_handler_info_start E A req)"
| "response_handler Info_probe_handler E A req p w = on_session p w (response_handler_info_probe E A req)"
| "response_handler Setup_session_handler E A req p w = on_session p w (simply (response_handler_setup_session E req))"
| "response_handler Setup_stream_handler E A req p w = on_session p w (simply (response_handler_setup_stream E A req))"
| "response_handler Record_handler E A req p w = on_session p w (simply response_handler_record)"
| "response_handler Volume_start_handler E A req p w = response_handler_volume_start E A p w"
| "response_handler Flush_handler E A req p w = on_session p w (simply response_handler_flush)"
| "response_handler Teardown_handler E A req p w = on_session p w (simply response_handler_teardown)"
| "response_handler Teardown_failure_handler E A req p w = on_session p w (simply response_handler_teardown_failure)"
| "response_handler Pin_start_handler E A req p w = on_session p w (simply response_handler_pin_start)"
| "response_handler Pair_setup1_handler E A req p w = on_session p w (response_handler_pair_setup1 E A req)"
| "response_handler Pair_setup2_handler E A req p w = on_session p w (response_handler_pair_setup2 E A req)"
| "response_handler Pair_setup3_handler E A req p w = on_session p w (response_handler_pair_setup3 E A req)"
| "response_handler Pair_verify1_handler E A req p w = on_session p w (response_handler_pair_verify1 E A req)"
| "response_handler Pair_verify2_handler E A req p w = on_session p w (response_handler_pair_verify2 E A req)"

end
