(* ===== verification/Airplay_Events.thy ===== *)
theory Airplay_Events
  imports Airplay_Handlers Rtsp_Runs
begin

text \<open>
  What happens to the state of \<open>src/airplay.c\<close>: the callback of a request, the events of the control
  connections, timers, and the calls of the player. A callback is the last thing that an event of a
  connection does, except in the loop that ends a failed connection attempt, which goes on with the
  connection after each callback.
\<close>

subsection \<open>The callback of a request\<close>

definition sequence_done :: "session_fn \<Rightarrow> 'p airplay_env \<Rightarrow> answers \<Rightarrow> nat \<Rightarrow> 'e world \<Rightarrow> 'e world wres" where
  "sequence_done f E A p w = session_call f E A p w"

text \<open>
  \<open>sequence_continue_cb\<close> for the request with the number \<open>i\<close>; \<open>resp\<close> is \<open>None\<close> when the connection failed.
  First the session learns that the request is not in flight any more.
\<close>

definition sequence_continue_cb ::
  "'p airplay_env \<Rightarrow> answers \<Rightarrow> nat \<Rightarrow> rtsp_request option \<Rightarrow> 'e world \<Rightarrow> 'e world wres" where
  "sequence_continue_cb E A i resp w =
     (case map_of (w_ctxs w) i of
        None \<Rightarrow> Inl Freed
      | Some ctx \<Rightarrow>
          let p = sc_session ctx; w0 = w\<lparr>w_ctxs := filter (\<lambda>(j, c). j \<noteq> i) (w_ctxs w)\<rparr> in
          bind_res (session_get p w0) (\<lambda>rs.
            case rs_ctrl rs of
              None \<Rightarrow> Inl (Inner Null_deref)
            | Some cn \<Rightarrow>
                let left = rs_reqs_in_flight rs - 1;
                    rs1 = rs\<lparr>rs_reqs_in_flight := left,
                             rs_ctrl := Some (if left = 0 then evrtsp_connection_set_closecb True cn else cn)\<rparr>;
                    w1 = session_put p rs1 w0
                in case (resp, sc_cur ctx) of
                     (_, []) \<Rightarrow> Inl (Inner Null_deref)
                   | (None, cur # rest) \<Rightarrow> sequence_done (sc_on_error ctx) E A p w1
                   | (Some req, cur # rest) \<Rightarrow>
                       if rq_response_code req \<noteq> RTSP_OK \<and> \<not> sq_proceed_on_rtsp_not_ok cur
                       then sequence_done (sc_on_error ctx) E A p w1
                       else
                         bind_res (response_handler (sq_response_handler cur) E A req p w1) (\<lambda>(seq_type, w2).
                           if seq_type = AIRPLAY_SEQ_ABORT then sequence_done (sc_on_error ctx) E A p w2
                           else if seq_type \<noteq> AIRPLAY_SEQ_CONTINUE then sequence_start E A seq_type p (sc_arg ctx) w2
                           else if rest \<noteq> [] then sequence_continue E A (ctx\<lparr>sc_cur := rest\<rparr>) w2
                           else sequence_done (sc_on_success ctx) E A p w2)))"

subsection \<open>Events of a connection\<close>

text \<open>The callbacks that an event of the connection of session \<open>p\<close> made.\<close>

fun run_callbacks :: "'p airplay_env \<Rightarrow> answers \<Rightarrow> nat \<Rightarrow> history list \<Rightarrow> 'e world \<Rightarrow> 'e world wres" where
  "run_callbacks E A p [] w = Inr w"
| "run_callbacks E A p (Sent bs # log) w = run_callbacks E A p log w"
| "run_callbacks E A p (Close_called # log) w = bind_res (rtsp_close_cb p w) (run_callbacks E A p log)"
| "run_callbacks E A p (Called i resp # log) w = bind_res (sequence_continue_cb E A i resp w) (run_callbacks E A p log)"

text \<open>
  The loop at the end of \<open>evrtsp_connectioncb\<close> after a failure: it looks at the connection again after
  each callback.
\<close>

fun signal_all :: "nat \<Rightarrow> 'p airplay_env \<Rightarrow> answers \<Rightarrow> nat \<Rightarrow> 'e world \<Rightarrow> 'e world wres" where
  "signal_all 0 E A p w = Inl No_fuel"
| "signal_all (Suc n) E A p w =
     bind_res (session_get p w) (\<lambda>rs.
       case rs_ctrl rs of
         None \<Rightarrow> Inl (Inner Null_deref)
       | Some cn \<Rightarrow>
           (case cn_requests cn of
              [] \<Rightarrow> Inr w
            | q # qs \<Rightarrow>
                if rq_id q \<in> set (w_dangling w) then Inl Freed
                else bind_res (sequence_continue_cb E A (rq_id q) (Some (q\<lparr>rq_evcon := False\<rparr>))
                         (session_put p (rs\<lparr>rs_ctrl := Some (cn\<lparr>cn_requests := qs\<rparr>)\<rparr>) w))
                       (signal_all n E A p)))"

definition connection_event ::
  "readln \<Rightarrow> 'p airplay_env \<Rightarrow> answers \<Rightarrow> nat \<Rightarrow> cipher_ctx rtsp_event \<Rightarrow> 'e world \<Rightarrow> 'e world wres" where
  "connection_event readln E A p ev w =
     bind_res (session_get p w) (\<lambda>rs.
       case rs_ctrl rs of
         None \<Rightarrow> Inl (Inner Null_deref)
       | Some cn \<Rightarrow>
           if dangles w cn then Inl Freed
           else if ev = Connection Connect_timeout \<or> ev = Connection Connect_refused
           then signal_all (an_rounds A) E A p
                  (session_put p (rs\<lparr>rs_ctrl := Some (evrtsp_connection_reset (cn\<lparr>cn_ev := None\<rparr>))\<rparr>) w)
           else bind_res (lift_res (rtsp_do readln (rtsp_ciph E) (an_dial A 0) ev cn)) (\<lambda>cn1.
                  run_callbacks E A p (drop (length (cn_log cn)) (cn_log cn1))
                    (session_put p (rs\<lparr>rs_ctrl := Some cn1\<rparr>) w)))"

subsection \<open>Sending metadata, and keeping connections alive\<close>

text \<open>The loops go over the list of sessions as it is: the sequences they start do not change the list.\<close>

fun metadata_send_loop :: "'p airplay_env \<Rightarrow> answers \<Rightarrow> output_metadata \<Rightarrow> nat list \<Rightarrow> 'e world \<Rightarrow> 'e world wres" where
  "metadata_send_loop E A md [] w = Inr w"
| "metadata_send_loop E A md (p # ps) w =
     bind_res (session_get p w) (\<lambda>rs.
       if \<not> is_connected (rs_state rs) \<or> rs_wanted_metadata rs = 0 then metadata_send_loop E A md ps w
       else bind_res (airplay_metadata_send_generic E A p md False w) (\<lambda>(ret, w1).
              if ret < 0 then bind_res (session_failure p w1) (metadata_send_loop E A md ps)
              else metadata_send_loop E A md ps w1))"

definition airplay_metadata_send :: "'p airplay_env \<Rightarrow> answers \<Rightarrow> output_metadata \<Rightarrow> 'e world \<Rightarrow> 'e world wres" where
  "airplay_metadata_send E A md w =
     bind_res (metadata_send_loop E A md (map fst (w_sessions w)) w) (\<lambda>w1. Inr (w1\<lparr>w_metadata := Some md\<rparr>))"

definition airplay_metadata_purge :: "'e world \<Rightarrow> 'e world" where
  "airplay_metadata_purge w = w\<lparr>w_metadata := None\<rparr>"

definition airplay_metadata_keep_alive_send :: "'p airplay_env \<Rightarrow> answers \<Rightarrow> nat \<Rightarrow> 'e world \<Rightarrow> 'e world wres" where
  "airplay_metadata_keep_alive_send E A p w = sequence_start E A AIRPLAY_SEQ_FEEDBACK p Arg_null w"

fun keep_alive_loop :: "'p airplay_env \<Rightarrow> answers \<Rightarrow> nat list \<Rightarrow> 'e world \<Rightarrow> 'e world wres" where
  "keep_alive_loop E A [] w = Inr w"
| "keep_alive_loop E A (p # ps) w =
     bind_res (session_get p w) (\<lambda>rs.
       if \<not> is_connected (rs_state rs) then keep_alive_loop E A ps w
       else bind_res (airplay_metadata_keep_alive_send E A p w) (keep_alive_loop E A ps))"

definition airplay_keep_alive_timer_cb :: "'p airplay_env \<Rightarrow> answers \<Rightarrow> 'e world \<Rightarrow> 'e world wres" where
  "airplay_keep_alive_timer_cb E A w = keep_alive_loop E A (map fst (w_sessions w)) w"

subsection \<open>Steps\<close>

text \<open>
  The player's calls name a device by its number, as the player's list has it. The timer of a session
  that has failed fires once.
\<close>

datatype airplay_event =
  Device_start u64 int | Device_probe u64 int | Device_authorize u64 bytes int
| Device_stop u64 int | Device_flush u64 int | Device_volume u64 int | Device_cb_set u64 int
| Metadata_send output_metadata | Metadata_purge | Keep_alive
| Deferred nat | Connection_event nat "cipher_ctx rtsp_event"

definition on_device :: "u64 \<Rightarrow> 'e world \<Rightarrow> (output_device \<Rightarrow> (int \<times> 'e world) wres) \<Rightarrow> 'e world wres" where
  "on_device i w f =
     (case outputs_device_get (w_devices w) i of
        None \<Rightarrow> Inr w
      | Some device \<Rightarrow> bind_res (f device) (\<lambda>(ret, w1). Inr w1))"

fun airplay_step ::
  "readln \<Rightarrow> 'p airplay_env \<Rightarrow> answers \<Rightarrow> airplay_event \<Rightarrow> 'e world \<Rightarrow> 'e world wres" where
  "airplay_step readln E A (Device_start i cb) w = on_device i w (\<lambda>d. airplay_device_start E A d cb w)"
| "airplay_step readln E A (Device_probe i cb) w = on_device i w (\<lambda>d. airplay_device_probe E A d cb w)"
| "airplay_step readln E A (Device_authorize i pin cb) w = on_device i w (\<lambda>d. airplay_device_authorize E A d pin cb w)"
| "airplay_step readln E A (Device_stop i cb) w = on_device i w (\<lambda>d. airplay_device_stop E A d cb w)"
| "airplay_step readln E A (Device_flush i cb) w = on_device i w (\<lambda>d. airplay_device_flush E A d cb w)"
| "airplay_step readln E A (Device_volume i cb) w = on_device i w (\<lambda>d. airplay_set_volume_one E A d cb w)"
| "airplay_step readln E A (Device_cb_set i cb) w =
     on_device i w (\<lambda>d. bind_res (airplay_device_cb_set d cb w) (\<lambda>w1. Inr (0, w1)))"
| "airplay_step readln E A (Metadata_send md) w = airplay_metadata_send E A md w"
| "airplay_step readln E A Metadata_purge w = Inr (airplay_metadata_purge w)"
| "airplay_step readln E A Keep_alive w = airplay_keep_alive_timer_cb E A w"
| "airplay_step readln E A (Deferred p) w = deferred_session_failure_cb p w"
| "airplay_step readln E A (Connection_event p ev) w = connection_event readln E A p ev w"

text \<open>
  When an event can happen: an operation on a session when the device has one (\<open>outputs.c\<close> looks
  before it calls), a timer or an event of a connection when it is pending.
\<close>

fun possible :: "airplay_event \<Rightarrow> 'e world \<Rightarrow> bool" where
  "possible (Device_stop i cb) w = (\<forall>d. outputs_device_get (w_devices w) i = Some d \<longrightarrow> dv_session d \<noteq> None)"
| "possible (Device_flush i cb) w = (\<forall>d. outputs_device_get (w_devices w) i = Some d \<longrightarrow> dv_session d \<noteq> None)"
| "possible (Device_cb_set i cb) w = (\<forall>d. outputs_device_get (w_devices w) i = Some d \<longrightarrow> dv_session d \<noteq> None)"
| "possible (Deferred p) w = (\<exists>rs. map_of (w_sessions w) p = Some rs \<and> rs_deferred rs)"
| "possible (Connection_event p ev) w =
     (\<exists>rs cn. map_of (w_sessions w) p = Some rs \<and> rs_ctrl rs = Some cn \<and> enabled ev cn
        \<and> (case ev of Request r ty u \<Rightarrow> False | Set_closecb b \<Rightarrow> False | Set_ciphercb k \<Rightarrow> False | _ \<Rightarrow> True))"
| "possible _ w = True"

inductive airplay_run ::
  "readln \<Rightarrow> 'p airplay_env \<Rightarrow> 'e world \<Rightarrow> (answers \<times> airplay_event) list \<Rightarrow> 'e world \<Rightarrow> bool"
  for readln :: readln and E :: "'p airplay_env" where
  airplay_Nil: "airplay_run readln E w [] w"
| airplay_Cons: "possible e w \<Longrightarrow> airplay_step readln E A e w = Inr w1 \<Longrightarrow> airplay_run readln E w1 es w2
     \<Longrightarrow> airplay_run readln E w ((A, e) # es) w2"

inductive_cases airplay_run_NilE: "airplay_run readln E w [] w'"
inductive_cases airplay_run_ConsE: "airplay_run readln E w (x # es) w'"

end
