(* ===== verification/Rtsp_Callbacks.thy ===== *)
theory Rtsp_Callbacks
  imports Rtsp_Runs
begin

text \<open>
  What the user of a connection may count on in one event, also with a cipher that can fault: the
  invariant stays, and the event makes at most one callback of a request, after everything else, and
  calls the close callback only when it is set.
\<close>

subsection \<open>A cipher that never faults\<close>

definition total_ciph :: "'k ciphercb \<Rightarrow> 'k ciphercb" where
  "total_ciph ciph out inb k enc = (case ciph out inb k enc of Inl f \<Rightarrow> Inr (-1, out, inb, k) | Inr r \<Rightarrow> Inr r)"

lemma total_ciph_Inr: "ciph out inb k enc = Inr r \<Longrightarrow> total_ciph ciph out inb k enc = Inr r"
  by (simp add: total_ciph_def)

lemma cipher_total_total [simp]: "cipher_total (total_ciph ciph) cn"
  by (simp add: cipher_total_def total_ciph_def split: sum.split)

lemma dispatch_total: "evrtsp_request_dispatch ciph cn = Inr cn' \<Longrightarrow> evrtsp_request_dispatch (total_ciph ciph) cn = Inr cn'"
  by (auto simp: evrtsp_request_dispatch_def Let_def bind_res_eq_Inr total_ciph_Inr split: list.splits if_splits option.splits prod.splits)

lemma bind_total:
  assumes "bind_res m k = Inr y" and "\<And>x. m = Inr x \<Longrightarrow> m' = Inr x" and "\<And>x. m = Inr x \<Longrightarrow> k x = Inr y \<Longrightarrow> k' x = Inr y"
  shows "bind_res m' k' = Inr y"
  using assms by (cases m) auto

lemma make_request_total:
  "evrtsp_make_request ciph d cn req ty uri = Inr r \<Longrightarrow> evrtsp_make_request (total_ciph ciph) d cn req ty uri = Inr r"
  unfolding evrtsp_make_request_def Let_def
  by (auto split: if_splits elim!: bind_total dest: dispatch_total)

lemma done_total: "evrtsp_connection_done ciph d cn = Inr cn' \<Longrightarrow> evrtsp_connection_done (total_ciph ciph) d cn = Inr cn'"
  unfolding evrtsp_connection_done_def Let_def
  by (auto split: list.splits if_splits elim!: bind_total dest: dispatch_total)

lemma read_body_total: "evrtsp_read_body ciph d cn req = Inr cn' \<Longrightarrow> evrtsp_read_body (total_ciph ciph) d cn req = Inr cn'"
  unfolding evrtsp_read_body_def Let_def by (auto split: if_splits dest: done_total)

lemma get_body_total: "evrtsp_get_body ciph d cn req = Inr cn' \<Longrightarrow> evrtsp_get_body (total_ciph ciph) d cn req = Inr cn'"
  unfolding evrtsp_get_body_def Let_def by (auto split: prod.splits if_splits dest: read_body_total)

lemma read_header_total:
  "evrtsp_read_header readln ciph d cn req = Inr cn' \<Longrightarrow> evrtsp_read_header readln (total_ciph ciph) d cn req = Inr cn'"
  unfolding evrtsp_read_header_def Let_def
  by (erule bind_total) (auto split: message_read_status.splits evrtsp_request_kind.splits dest: get_body_total)

lemma read_firstline_total:
  "evrtsp_read_firstline readln ciph d cn req = Inr cn' \<Longrightarrow> evrtsp_read_firstline readln (total_ciph ciph) d cn req = Inr cn'"
  unfolding evrtsp_read_firstline_def Let_def
  by (auto split: prod.splits message_read_status.splits dest: read_header_total)

lemma read_trailer_total:
  "evrtsp_read_trailer readln ciph d cn req = Inr cn' \<Longrightarrow> evrtsp_read_trailer readln (total_ciph ciph) d cn req = Inr cn'"
  unfolding evrtsp_read_trailer_def Let_def
  by (erule bind_total) (auto split: message_read_status.splits dest: done_total)

lemma read_message_total:
  "evrtsp_read_message readln ciph d cn = Inr cn' \<Longrightarrow> evrtsp_read_message readln (total_ciph ciph) d cn = Inr cn'"
  unfolding evrtsp_read_message_def
  by (auto split: list.splits evrtsp_connection_state.splits
      dest: read_firstline_total read_header_total read_body_total read_trailer_total)

lemma read_total: "evrtsp_read readln ciph d what cn = Inr cn' \<Longrightarrow> evrtsp_read readln (total_ciph ciph) d what cn = Inr cn'"
proof -
  assume r: "evrtsp_read readln ciph d what cn = Inr cn'"
  show ?thesis
  proof (cases what)
    case (Read_bytes new)
    then show ?thesis
    proof (cases "cn_ciphercb cn")
      case (Some k)
      then show ?thesis using r unfolding evrtsp_read_def Let_def
        by (auto simp: Read_bytes elim!: bind_total dest: total_ciph_Inr read_message_total split: if_splits)
    qed (use r in \<open>auto simp: evrtsp_read_def Let_def dest: read_message_total\<close>)
  qed (use r in \<open>auto simp: evrtsp_read_def dest: done_total\<close>)
qed

lemma connectioncb_total:
  "evrtsp_connectioncb ciph what cn = Inr cn' \<Longrightarrow> evrtsp_connectioncb (total_ciph ciph) what cn = Inr cn'"
  by (auto simp: evrtsp_connectioncb_def split: connect_result.splits dest: dispatch_total)

lemma rtsp_do_total: "rtsp_do readln ciph d e cn = Inr cn' \<Longrightarrow> rtsp_do readln (total_ciph ciph) d e cn = Inr cn'"
  by (cases e) (auto dest: connectioncb_total read_total elim!: bind_total dest!: make_request_total)

text \<open>The invariant, when an event goes through.\<close>

lemma rtsp_do_Inr:
  assumes "readln_ok readln" and "conn_ok cn" and "enabled e cn" and "rtsp_do readln ciph d e cn = Inr cn'"
  shows "conn_ok cn' \<and> account cn' = account cn @ made e"
  using rtsp_do_ok [OF assms(1,2) cipher_total_total [of ciph] assms(3), of d] rtsp_do_total [OF assms(4)]
  by (simp add: ends_well_def total_ciph_def split: sum.splits)

subsection \<open>The history of an event\<close>

definition quiet :: "'k connection \<Rightarrow> 'k connection \<Rightarrow> bool" where
  "quiet cn cn' \<longleftrightarrow> cn_closecb cn' = cn_closecb cn
     \<and> (\<exists>l. cn_log cn' = cn_log cn @ l \<and> called l = [] \<and> (cn_closecb cn \<or> Close_called \<notin> set l))"

definition one_call :: "'k connection \<Rightarrow> 'k connection \<Rightarrow> bool" where
  "one_call cn cn' \<longleftrightarrow> cn_closecb cn' = cn_closecb cn
     \<and> (\<exists>l c. cn_log cn' = cn_log cn @ l @ c \<and> called l = [] \<and> (cn_closecb cn \<or> Close_called \<notin> set l)
          \<and> (c = [] \<or> (\<exists>i r. c = [Called i r])))"

lemma one_callI:
  assumes "cn_closecb cn' = cn_closecb cn" and "cn_log cn' = cn_log cn @ l @ c" and "called l = []"
    and "cn_closecb cn \<or> Close_called \<notin> set l" and "c = [] \<or> (\<exists>i r. c = [Called i r])"
  shows "one_call cn cn'"
  unfolding one_call_def using assms by blast

lemma quietE:
  assumes "quiet cn cn'"
  obtains l where "cn_closecb cn' = cn_closecb cn" "cn_log cn' = cn_log cn @ l" "called l = []" "cn_closecb cn \<or> Close_called \<notin> set l"
  using assms unfolding quiet_def by blast

lemma one_callE:
  assumes "one_call cn cn'"
  obtains l c where "cn_closecb cn' = cn_closecb cn" "cn_log cn' = cn_log cn @ l @ c" "called l = []"
    "cn_closecb cn \<or> Close_called \<notin> set l" "c = [] \<or> (\<exists>i r. c = [Called i r])"
  using assms unfolding one_call_def by blast

lemma quiet_one_call: "quiet cn cn' \<Longrightarrow> one_call cn cn'"
  by (erule quietE) (rule one_callI [where c = "[]"], simp_all)

lemma quiet_then: "quiet cn cn1 \<Longrightarrow> one_call cn1 cn' \<Longrightarrow> one_call cn cn'"
proof (erule quietE, erule one_callE)
  fix l l' c
  assume "cn_closecb cn1 = cn_closecb cn" "cn_log cn1 = cn_log cn @ l" "called l = []" "cn_closecb cn \<or> Close_called \<notin> set l"
    "cn_closecb cn' = cn_closecb cn1" "cn_log cn' = cn_log cn1 @ l' @ c" "called l' = []"
    "cn_closecb cn1 \<or> Close_called \<notin> set l'" "c = [] \<or> (\<exists>i r. c = [Called i r])"
  then show "one_call cn cn'" by (intro one_callI [where l = "l @ l'" and c = c]) auto
qed

lemma quiet_call: "quiet cn cn' \<Longrightarrow> one_call cn (cn'\<lparr>cn_log := cn_log cn' @ [Called i r]\<rparr>)"
  by (erule quietE) (rule one_callI [where c = "[Called i r]"], simp_all)

lemma quiet_same [simp]: "cn_closecb cn' = cn_closecb cn \<Longrightarrow> cn_log cn' = cn_log cn \<Longrightarrow> quiet cn cn'"
  by (simp add: quiet_def)

lemma log_same [simp]:
  "quiet (cn\<lparr>cn_requests := v1\<rparr>) cn' = quiet cn cn'"
  "quiet (cn\<lparr>cn_state := v2\<rparr>) cn' = quiet cn cn'"
  "quiet (cn\<lparr>cn_input_buffer := v3\<rparr>) cn' = quiet cn cn'"
  "quiet (cn\<lparr>cn_output_buffer := v4\<rparr>) cn' = quiet cn cn'"
  "quiet (cn\<lparr>cn_input_raw := v5\<rparr>) cn' = quiet cn cn'"
  "quiet (cn\<lparr>cn_output_raw := v6\<rparr>) cn' = quiet cn cn'"
  "quiet (cn\<lparr>cn_ev := v7\<rparr>) cn' = quiet cn cn'"
  "quiet (cn\<lparr>cn_close_ev := v8\<rparr>) cn' = quiet cn cn'"
  "quiet (cn\<lparr>cn_closedetect := v9\<rparr>) cn' = quiet cn cn'"
  "quiet (cn\<lparr>cn_ciphercb := v10\<rparr>) cn' = quiet cn cn'"
  "one_call (cn\<lparr>cn_requests := v11\<rparr>) cn' = one_call cn cn'"
  "one_call (cn\<lparr>cn_state := v12\<rparr>) cn' = one_call cn cn'"
  "one_call (cn\<lparr>cn_input_buffer := v13\<rparr>) cn' = one_call cn cn'"
  "one_call (cn\<lparr>cn_output_buffer := v14\<rparr>) cn' = one_call cn cn'"
  "one_call (cn\<lparr>cn_input_raw := v15\<rparr>) cn' = one_call cn cn'"
  "one_call (cn\<lparr>cn_output_raw := v16\<rparr>) cn' = one_call cn cn'"
  "one_call (cn\<lparr>cn_ev := v17\<rparr>) cn' = one_call cn cn'"
  "one_call (cn\<lparr>cn_close_ev := v18\<rparr>) cn' = one_call cn cn'"
  "one_call (cn\<lparr>cn_closedetect := v19\<rparr>) cn' = one_call cn cn'"
  "one_call (cn\<lparr>cn_ciphercb := v20\<rparr>) cn' = one_call cn cn'"
  by (simp_all add: quiet_def one_call_def)

lemma add_event_closecb [simp]: "cn_closecb (evrtsp_add_event ev t cn) = cn_closecb cn"
  by (simp add: evrtsp_add_event_def)

lemma reset_quiet: "quiet cn (evrtsp_connection_reset cn)"
  by (simp add: quiet_def evrtsp_connection_reset_def)

lemma connect_quiet: "quiet cn (snd (evrtsp_connection_connect d cn))"
proof -
  have "quiet cn cn'" if "cn_closecb cn' = cn_closecb (evrtsp_connection_reset cn)" "cn_log cn' = cn_log (evrtsp_connection_reset cn)" for cn'
    using reset_quiet [of cn] that by (simp add: quiet_def)
  then show ?thesis by (simp add: evrtsp_connection_connect_def Let_def split: dial.split)
qed

lemma dispatch_quiet: "evrtsp_request_dispatch ciph cn = Inr cn' \<Longrightarrow> quiet cn cn'"
  by (auto simp: evrtsp_request_dispatch_def Let_def bind_res_eq_Inr evrtsp_connection_stop_detectclose_def
      evrtsp_write_buffer_def split: list.splits if_splits option.splits prod.splits)

lemma make_request_queues:
  assumes "evrtsp_make_request ciph d cn req ty uri = Inr (ret, cn')"
  obtains req1 where "rq_id req1 = rq_id req" "rq_cb req1 = rq_cb req"
    "(if \<not> evrtsp_connected cn then Inr (evrtsp_connection_connect d (cn\<lparr>cn_requests := cn_requests cn @ [req1]\<rparr>))
       else if cn_requests cn = []
         then bind_res (evrtsp_request_dispatch ciph (cn\<lparr>cn_requests := cn_requests cn @ [req1]\<rparr>)) (\<lambda>cn2. Inr (0, cn2))
       else Inr (0, cn\<lparr>cn_requests := cn_requests cn @ [req1]\<rparr>)) = (Inr (ret, cn') :: fault + int \<times> 'a connection)"
proof -
  let ?q = "req\<lparr>rq_kind := EVRTSP_REQUEST, rq_type := ty, rq_uri := Some uri\<rparr>"
  define req1 where "req1 = (if rq_major req = 0 \<and> rq_minor req = 0
    then ?q\<lparr>rq_major := 1, rq_minor := 0, rq_evcon := True\<rparr> else ?q\<lparr>rq_evcon := True\<rparr>)"
  have "\<not> rq_evcon req" using assms
    by (cases "rq_evcon req"; cases "rq_major req = 0 \<and> rq_minor req = 0") (simp_all add: evrtsp_make_request_def Let_def)
  then have "evrtsp_make_request ciph d cn req ty uri =
      (if \<not> evrtsp_connected cn then Inr (evrtsp_connection_connect d (cn\<lparr>cn_requests := cn_requests cn @ [req1]\<rparr>))
       else if cn_requests cn = []
         then bind_res (evrtsp_request_dispatch ciph (cn\<lparr>cn_requests := cn_requests cn @ [req1]\<rparr>)) (\<lambda>cn2. Inr (0, cn2))
       else Inr (0, cn\<lparr>cn_requests := cn_requests cn @ [req1]\<rparr>))"
    by (simp add: evrtsp_make_request_def req1_def Let_def evrtsp_connected_def)
  moreover have "rq_id req1 = rq_id req" "rq_cb req1 = rq_cb req" by (simp_all add: req1_def)
  ultimately show thesis using assms that by simp
qed

lemma make_request_quiet:
  assumes "evrtsp_make_request ciph d cn req ty uri = Inr (ret, cn')"
  shows "quiet cn cn'"
proof -
  from assms obtain req1 where r: "(if \<not> evrtsp_connected cn then Inr (evrtsp_connection_connect d (cn\<lparr>cn_requests := cn_requests cn @ [req1]\<rparr>))
       else if cn_requests cn = []
         then bind_res (evrtsp_request_dispatch ciph (cn\<lparr>cn_requests := cn_requests cn @ [req1]\<rparr>)) (\<lambda>cn2. Inr (0, cn2))
       else Inr (0, cn\<lparr>cn_requests := cn_requests cn @ [req1]\<rparr>)) = (Inr (ret, cn') :: fault + int \<times> 'a connection)"
    by (rule make_request_queues)
  let ?cn1 = "cn\<lparr>cn_requests := cn_requests cn @ [req1]\<rparr>"
  consider "evrtsp_connection_connect d ?cn1 = (ret, cn')" | "evrtsp_request_dispatch ciph ?cn1 = Inr cn'" | "cn' = ?cn1"
    using r by (auto simp: bind_res_eq_Inr split: if_splits)
  then show ?thesis
  proof cases
    case 1 then show ?thesis using connect_quiet [of ?cn1 d] by simp
  next
    case 2 then show ?thesis using dispatch_quiet [of ciph ?cn1] by simp
  qed (simp add: quiet_def)
qed

lemma fail_log: "evrtsp_connection_fail d err cn = Inr cn' \<Longrightarrow> one_call cn cn'"
proof (cases "cn_requests cn")
  case (Cons req reqs)
  let ?cn1 = "evrtsp_connection_reset (cn\<lparr>cn_requests := reqs\<rparr>)"
  let ?cn2 = "if reqs \<noteq> [] then snd (evrtsp_connection_connect d ?cn1) else ?cn1"
  have "quiet (cn\<lparr>cn_requests := reqs\<rparr>) ?cn1" by (rule reset_quiet)
  then have q1: "quiet cn ?cn1" by simp
  have "one_call ?cn1 ?cn2" using connect_quiet [of ?cn1 d] by (simp add: quiet_one_call)
  moreover have "one_call ?cn1 (?cn2\<lparr>cn_log := cn_log ?cn2 @ [Called i r]\<rparr>)" for i r
    using connect_quiet [of ?cn1 d] by (intro quiet_call) simp
  moreover assume "evrtsp_connection_fail d err cn = Inr cn'"
  ultimately show ?thesis
    by (auto simp: evrtsp_connection_fail_def Cons Let_def intro: quiet_then [OF q1])
qed (simp add: evrtsp_connection_fail_def)

lemma done_log: "evrtsp_connection_done ciph d cn = Inr cn' \<Longrightarrow> one_call cn cn'"
proof (cases "cn_requests cn")
  case (Cons req reqs)
  let ?cn1 = "cn\<lparr>cn_requests := reqs, cn_state := EVCON_IDLE\<rparr>"
  assume r: "evrtsp_connection_done ciph d cn = Inr cn'"
  then obtain cn2 where cn2: "(if reqs \<noteq> [] then evrtsp_request_dispatch ciph ?cn1
        else Inr (evrtsp_connection_start_detectclose ?cn1)) = Inr cn2"
      "cn' = cn2\<lparr>cn_log := cn_log cn2 @ [Called (rq_id req) (Some (req\<lparr>rq_evcon := False\<rparr>))]\<rparr>"
    by (auto simp: evrtsp_connection_done_def Cons Let_def bind_res_eq_Inr evrtsp_connected_def split: if_splits)
  have "quiet ?cn1 cn2"
    using cn2(1) by (auto simp: evrtsp_connection_start_detectclose_def dest: dispatch_quiet split: if_splits)
  then show ?thesis unfolding cn2(2) by (intro quiet_call) (simp add:)
qed (simp add: evrtsp_connection_done_def)

lemma read_body_log: "evrtsp_read_body ciph d cn req = Inr cn' \<Longrightarrow> one_call cn cn'"
  unfolding evrtsp_read_body_def Let_def
  by (auto simp: quiet_one_call dest!: done_log split: if_splits)

lemma get_body_log: "evrtsp_get_body ciph d cn req = Inr cn' \<Longrightarrow> one_call cn cn'"
  unfolding evrtsp_get_body_def Let_def
  by (auto dest!: read_body_log fail_log split: prod.splits if_splits)

lemma read_status_cases: "a \<noteq> ALL_DATA_READ \<Longrightarrow> a \<noteq> MORE_DATA_EXPECTED \<Longrightarrow> a \<noteq> DATA_CORRUPTED \<Longrightarrow> False"
  by (cases a) simp_all

lemma read_header_log: "evrtsp_read_header readln ciph d cn req = Inr cn' \<Longrightarrow> one_call cn cn'"
  unfolding evrtsp_read_header_def Let_def
  by (auto simp: bind_res_eq_Inr quiet_one_call dest!: get_body_log fail_log dest: read_status_cases
      split: message_read_status.splits evrtsp_request_kind.splits)

lemma read_firstline_log: "evrtsp_read_firstline readln ciph d cn req = Inr cn' \<Longrightarrow> one_call cn cn'"
  unfolding evrtsp_read_firstline_def Let_def
  by (auto simp: quiet_one_call dest!: read_header_log fail_log split: prod.splits message_read_status.splits)

lemma read_trailer_log: "evrtsp_read_trailer readln ciph d cn req = Inr cn' \<Longrightarrow> one_call cn cn'"
  unfolding evrtsp_read_trailer_def Let_def
  by (auto simp: bind_res_eq_Inr quiet_one_call dest!: done_log fail_log dest: read_status_cases split: message_read_status.splits)

lemma read_message_log: "evrtsp_read_message readln ciph d cn = Inr cn' \<Longrightarrow> one_call cn cn'"
  unfolding evrtsp_read_message_def
  by (auto dest: read_firstline_log read_header_log read_body_log read_trailer_log
      split: list.splits evrtsp_connection_state.splits)

lemma read_log: "evrtsp_read readln ciph d what cn = Inr cn' \<Longrightarrow> one_call cn cn'"
  unfolding evrtsp_read_def Let_def
  by (auto simp: bind_res_eq_Inr quiet_one_call dest!: read_message_log fail_log done_log
      split: read_result.splits option.splits if_splits)

lemma write_log: "evrtsp_write d what cn = Inr cn' \<Longrightarrow> one_call cn cn'"
proof -
  assume r: "evrtsp_write d what cn = Inr cn'"
  have sent: "quiet cn cn1" if "cn_closecb cn1 = cn_closecb cn" "cn_log cn1 = cn_log cn @ [Sent bs]" for cn1 :: "'a connection" and bs
    using that by (simp add: quiet_def)
  show ?thesis
  proof (cases "\<exists>n. what = Some n \<and> n \<noteq> -1 \<and> n \<noteq> 0")
    case True
    then obtain n where n: "what = Some n" "n \<noteq> -1" "n \<noteq> 0" by blast
    then have "cn_closecb cn' = cn_closecb cn" "cn_log cn' = cn_log cn @ [Sent (take (nat n) (cn_output_raw cn))]"
      using r by (auto simp: evrtsp_write_def Let_def evrtsp_write_connectioncb_def evrtsp_start_read_def split: if_splits list.splits)
    then show ?thesis using sent quiet_one_call by blast
  next
    case False
    then show ?thesis using r by (auto simp: evrtsp_write_def split: option.splits if_splits dest: fail_log)
  qed
qed

text \<open>The events of the socket, apart from a failed connection attempt.\<close>

lemma rtsp_do_log:
  assumes "rtsp_do readln ciph d e cn = Inr cn'" and "e \<notin> {Connection Connect_timeout, Connection Connect_refused}"
    and "\<And>b. e \<noteq> Set_closecb b"
  shows "one_call cn cn'"
proof (cases e)
  case (Connection r)
  then show ?thesis using assms
    by (cases r) (auto simp: evrtsp_connectioncb_def dest!: dispatch_quiet intro: quiet_one_call)
next
  case Closing
  then show ?thesis using assms reset_quiet [of "cn\<lparr>cn_close_ev := False\<rparr>"]
    by (auto simp: evrtsp_detect_close_cb_def intro: quiet_one_call)
qed (use assms in \<open>auto simp: evrtsp_connection_set_ciphercb_def bind_res_eq_Inr quiet_one_call
      dest!: write_log read_log make_request_quiet\<close>)

text \<open>A request that is made waits behind the others.\<close>

lemma make_request_Inr:
  assumes "conn_ok cn" and "rq_cb req" and "\<not> rq_evcon req"
    and "evrtsp_make_request ciph d cn req ty uri = Inr (ret, cn')"
  shows "conn_ok cn' \<and> map rq_id (cn_requests cn') = map rq_id (cn_requests cn) @ [rq_id req]
     \<and> (d = Connect_started \<longrightarrow> ret = 0)"
proof -
  have "conn_ok cn' \<and> account cn' = account cn @ [rq_id req]"
    using make_request_ok [OF assms(1-3) cipher_total_total [of ciph], of d ty uri] make_request_total [OF assms(4)]
    by (simp add: ends_well_def)
  moreover have "called (cn_log cn') = called (cn_log cn)"
    using make_request_quiet [OF assms(4)] by (auto simp: quiet_def)
  moreover have "ret = 0" if "d = Connect_started"
    using assms(4) that
    by (rule_tac make_request_queues [OF assms(4)])
      (auto simp: evrtsp_connection_connect_def Let_def bind_res_eq_Inr split: if_splits)
  ultimately show ?thesis by (auto simp: account_def)
qed

text \<open>
  An event: either no callback and the same requests wait, or the last thing that happens is the callback
  of the first one.
\<close>

lemma rtsp_event_outcome:
  assumes "readln_ok readln" and "conn_ok cn" and "enabled e cn" and "made e = []"
    and "e \<notin> {Connection Connect_timeout, Connection Connect_refused}" and "\<And>b. e \<noteq> Set_closecb b"
    and "rtsp_do readln ciph d e cn = Inr cn'"
  obtains l c where "conn_ok cn'" "cn_closecb cn' = cn_closecb cn" "cn_log cn' = cn_log cn @ l @ c" "called l = []"
    "cn_closecb cn \<or> Close_called \<notin> set l"
    "c = [] \<and> map rq_id (cn_requests cn') = map rq_id (cn_requests cn)
     \<or> (\<exists>i r. c = [Called i r] \<and> map rq_id (cn_requests cn) = i # map rq_id (cn_requests cn'))"
proof -
  have ok: "conn_ok cn'" "account cn' = account cn" using rtsp_do_Inr [OF assms(1-3,7)] assms(4) by simp_all
  obtain l c where l: "cn_closecb cn' = cn_closecb cn" "cn_log cn' = cn_log cn @ l @ c" "called l = []"
      "cn_closecb cn \<or> Close_called \<notin> set l" "c = [] \<or> (\<exists>i r. c = [Called i r])"
    using one_callE [OF rtsp_do_log [OF assms(7,5,6)]] by blast
  from l(5) have "c = [] \<and> map rq_id (cn_requests cn') = map rq_id (cn_requests cn)
      \<or> (\<exists>i r. c = [Called i r] \<and> map rq_id (cn_requests cn) = i # map rq_id (cn_requests cn'))"
    using ok(2) l(2,3) by (auto simp: account_def)
  then show thesis by (rule that [OF ok(1) l(1-4)])
qed

end
