(* ===== verification/Airplay_Shapes.thy ===== *)
theory Airplay_Shapes
  imports Airplay_Events Rtsp_Callbacks
begin

text \<open>
  What the payload functions and the response handlers of \<open>src/airplay.c\<close> leave alone: the connection of
  their session apart from its cipher, its master session, its count of requests in flight, the
  identity of the request, and the sessions of the devices. None of them uses freed memory.
\<close>

named_theorems shapes \<open>what an operation leaves alone\<close>

subsection \<open>The shape of a session and of a request\<close>

definition shape :: "airplay_session \<Rightarrow> nat \<times> int \<times> cipher_ctx connection option" where
  "shape rs = (rs_master_session rs, rs_reqs_in_flight rs, map_option (cn_ciphercb_update (\<lambda>_. None)) (rs_ctrl rs))"

definition tag :: "rtsp_request \<Rightarrow> nat \<times> bool \<times> bool \<times> int" where
  "tag req = (rq_id req, rq_cb req, rq_evcon req, rq_response_code req)"

text \<open>
  No device has a session, and its number and its address are its own. Where the devices are at is their \<open>labels\<close>.
\<close>

definition devices_ok :: "output_device list \<Rightarrow> bool" where
  "devices_ok devs \<longleftrightarrow> (\<forall>d \<in> set devs. dv_session d = None \<and> dv_addr d \<noteq> 0)
     \<and> distinct (map dv_id devs) \<and> distinct (map dv_addr devs)"

definition labels :: "output_device list \<Rightarrow> (u64 \<times> nat) list" where
  "labels devs = map (\<lambda>d. (dv_id d, dv_addr d)) devs"

lemma shape_simps [simp]:
  "shape (rs\<lparr>rs_callback_id := v1\<rparr>) = shape rs" "shape (rs\<lparr>rs_state := v2\<rparr>) = shape rs"
  "shape (rs\<lparr>rs_next_seq := v3\<rparr>) = shape rs" "shape (rs\<lparr>rs_statusflags := v4\<rparr>) = shape rs"
  "shape (rs\<lparr>rs_req_has_auth := v5\<rparr>) = shape rs" "shape (rs\<lparr>rs_deferred := v6\<rparr>) = shape rs"
  "shape (rs\<lparr>rs_cseq := v7\<rparr>) = shape rs" "shape (rs\<lparr>rs_session_id := v8\<rparr>) = shape rs"
  "shape (rs\<lparr>rs_session_url := v9\<rparr>) = shape rs" "shape (rs\<lparr>rs_session_uuid := v10\<rparr>) = shape rs"
  "shape (rs\<lparr>rs_realm := v11\<rparr>) = shape rs" "shape (rs\<lparr>rs_nonce := v12\<rparr>) = shape rs"
  "shape (rs\<lparr>rs_volume := v13\<rparr>) = shape rs" "shape (rs\<lparr>rs_local_address := v14\<rparr>) = shape rs"
  "shape (rs\<lparr>rs_data_port := v15\<rparr>) = shape rs" "shape (rs\<lparr>rs_control_port := v16\<rparr>) = shape rs"
  "shape (rs\<lparr>rs_events_port := v17\<rparr>) = shape rs" "shape (rs\<lparr>rs_timing_port := v18\<rparr>) = shape rs"
  "shape (rs\<lparr>rs_pair_type := v19\<rparr>) = shape rs" "shape (rs\<lparr>rs_pair_verify_ctx := v20\<rparr>) = shape rs"
  "shape (rs\<lparr>rs_pair_setup_ctx := v21\<rparr>) = shape rs" "shape (rs\<lparr>rs_shared_secret := v22\<rparr>) = shape rs"
  "shape (rs\<lparr>rs_shared_secret_len := v23\<rparr>) = shape rs" "shape (rs\<lparr>rs_packet_cipher_hd := v24\<rparr>) = shape rs"
  "shape (rs\<lparr>rs_server_fd := v25\<rparr>) = shape rs"
  by (simp_all add: shape_def)

lemma shape_cipher: "rs_ctrl rs = Some cn \<Longrightarrow> shape (rs\<lparr>rs_ctrl := Some (evrtsp_connection_set_ciphercb k cn)\<rparr>) = shape rs"
  by (simp add: shape_def evrtsp_connection_set_ciphercb_def)

lemma shape_deferred [simp]: "shape (deferred_session_failure rs) = shape rs"
  by (simp add: deferred_session_failure_def)

lemma tag_simps [simp]:
  "tag (req\<lparr>rq_output_headers := hs\<rparr>) = tag req" "tag (req\<lparr>rq_output_buffer := bs\<rparr>) = tag req"
  "tag (header_add key v req) = tag req" "tag (payload_add bs req) = tag req"
  by (simp_all add: tag_def header_add_def payload_add_def)

lemma labels_update [simp]:
  "(\<And>d. dv_id (f d) = dv_id d) \<Longrightarrow> (\<And>d. dv_addr (f d) = dv_addr d) \<Longrightarrow> labels (device_update i f devs) = labels devs"
  by (induction devs) (auto simp: labels_def)

lemma labels_map [simp]:
  "(\<And>d. dv_id (f d) = dv_id d) \<Longrightarrow> (\<And>d. dv_addr (f d) = dv_addr d) \<Longrightarrow> labels (map f devs) = labels devs"
  by (simp add: labels_def)

lemma devices_ok_labels:
  "devices_ok devs \<longleftrightarrow> (\<forall>d \<in> set devs. dv_session d = None) \<and> 0 \<notin> set (map snd (labels devs))
     \<and> distinct (map fst (labels devs)) \<and> distinct (map snd (labels devs))"
  by (auto simp: devices_ok_def labels_def comp_def)

lemma devices_ok_update [simp]:
  assumes "\<And>d. dv_session d = None \<Longrightarrow> dv_session (f d) = None" "\<And>d. dv_id (f d) = dv_id d" "\<And>d. dv_addr (f d) = dv_addr d"
    and "devices_ok devs"
  shows "devices_ok (device_update i f devs)"
proof -
  have "\<forall>d \<in> set devs. dv_session d = None \<Longrightarrow> \<forall>d \<in> set (device_update i f devs). dv_session d = None"
    using assms(1) by (induction devs) auto
  then show ?thesis using assms by (simp add: devices_ok_labels)
qed

lemma devices_ok_get: "devices_ok devs \<Longrightarrow> outputs_device_get devs i = Some d \<Longrightarrow> dv_session d = None"
  by (auto simp: devices_ok_def outputs_device_get_def find_Some_iff)

subsection \<open>Payloads\<close>

text \<open>The outcome of a payload function: no use of freed memory, and the shapes stay.\<close>

definition harmless_payload :: "airplay_session \<Rightarrow> rtsp_request \<Rightarrow> (int \<times> airplay_session \<times> rtsp_request) wres \<Rightarrow> bool" where
  "harmless_payload rs req r \<longleftrightarrow> r \<noteq> Inl Freed
     \<and> (\<forall>ret rs1 req1. r = Inr (ret, rs1, req1) \<longrightarrow> shape rs1 = shape rs \<and> tag req1 = tag req)"

lemma harmless_with_session [shapes]:
  "tag (snd r) = tag req \<Longrightarrow> harmless_payload rs req (with_session rs r)"
  by (cases r) (simp add: harmless_payload_def with_session_def)

lemma harmless_bind_with_session [shapes]:
  assumes "\<And>r. m = Inr r \<Longrightarrow> tag (snd r) = tag req"
  shows "harmless_payload rs req (bind_res (lift_res m) (with_session rs))"
  using assms by (cases m) (auto simp: harmless_payload_def with_session_def)

lemma auth_header_add_tag: "tag (snd (auth_header_add E req password realm nonce method uri)) = tag req"
  by (simp add: auth_header_add_def Let_def split: option.split)

lemma request_headers_add_shape:
  assumes "request_headers_add E m rs req = (ret, rs1, req1)"
  shows "shape rs1 = shape rs \<and> tag req1 = tag req"
proof -
  have t: "tag req4 = tag req3"
    if "auth_header_add E req3 password realm nonce mth uri = (ret', req4)" for req3 req4 ret' password realm nonce mth uri
    using auth_header_add_tag [of E req3 password realm nonce mth uri] that by simp
  show ?thesis using assms
    by (auto simp: request_headers_add_def Let_def split: option.splits prod.splits if_splits dest!: t)
qed

lemma payload_tags [shapes]:
  "tag (snd (payload_make_flush ms req)) = tag req" "tag (snd (payload_make_set_volume E rs req)) = tag req"
  "tag (snd (plist_payload E root req)) = tag req" "tag (snd (payload_make_setup_stream E rs req)) = tag req"
  "tag (snd (payload_make_record ms req)) = tag req" "tag (hkp_header rs req) = tag req"
  "tag (snd (payload_make_pin_start rs req)) = tag req" "tag (snd (rtpinfo_header_add req ms md)) = tag req"
  by (simp_all add: payload_make_flush_def payload_make_set_volume_def plist_payload_def payload_make_setup_stream_def
      payload_make_record_def hkp_header_def payload_make_pin_start_def rtpinfo_header_add_def Let_def split: option.split prod.split)

lemma rtpinfo_tag: "rtpinfo_header_add req ms md = (ret, req1) \<Longrightarrow> tag req1 = tag req"
  using payload_tags(8) [of req ms md] by simp

lemma metadata_tags [shapes]:
  "tag (snd (payload_make_send_progress ms md req)) = tag req" "tag (snd (payload_make_send_text ms md req)) = tag req"
  by (auto simp: payload_make_send_progress_def payload_make_send_text_def shapes split: prod.splits dest: rtpinfo_tag)

lemma payload_make_tags:
  "payload_make_send_artwork ms md req = Inr r \<Longrightarrow> tag (snd r) = tag req"
  "payload_make_setpeers E rs req = Inr r \<Longrightarrow> tag (snd r) = tag req"
  "payload_make_setup_session E mem rs req = Inr r \<Longrightarrow> tag (snd r) = tag req"
  by (auto simp: payload_make_send_artwork_def payload_make_setpeers_def
      payload_make_setup_session_def shapes bind_res_eq_Inr Let_def split: option.splits prod.splits if_splits dest: rtpinfo_tag)

lemma pair_generic_shape:
  "payload_make_pair_generic step E r rs req = Inr (ret, rs1, req1) \<Longrightarrow> shape rs1 = shape rs \<and> tag req1 = tag req"
  unfolding payload_make_pair_generic_def Let_def
  by (auto simp: bind_res_eq_Inr shapes split: if_splits option.splits)

lemma pair_setup1_shape:
  "payload_make_pair_setup1 E r arg rs req = Inr (ret, rs1, req1) \<Longrightarrow> shape rs1 = shape rs \<and> tag req1 = tag req"
  unfolding payload_make_pair_setup1_def Let_def by (auto split: if_splits dest!: pair_generic_shape)

lemma pair_verify1_shape:
  "payload_make_pair_verify1 E r devs rs req = Inr (ret, rs1, req1) \<Longrightarrow> shape rs1 = shape rs \<and> tag req1 = tag req"
  unfolding payload_make_pair_verify1_def Let_def
  by (auto simp: bind_res_eq_Inr split: if_splits option.splits dest!: pair_generic_shape)

lemma harmless_lift:
  assumes "\<And>ret rs1 req1. m = Inr (ret, rs1, req1) \<Longrightarrow> shape rs1 = shape rs \<and> tag req1 = tag req"
  shows "harmless_payload rs req (lift_res m)"
  using assms by (simp add: harmless_payload_def)

lemma harmless_bind:
  assumes "m \<noteq> Inl Freed" and "\<And>x. m = Inr x \<Longrightarrow> harmless_payload rs req (f x)"
  shows "harmless_payload rs req (bind_res m f)"
  using assms by (cases m) (auto simp: harmless_payload_def)

lemma the_arg_not_Freed: "the_metadata arg \<noteq> Inl Freed" "the_pin arg \<noteq> Inl Freed"
  by (simp_all add: the_metadata_def the_pin_def split: payload_arg.split)

lemma payload_make_harmless:
  assumes "master_get (rs_master_session rs) w \<noteq> Inl Freed"
  shows "harmless_payload rs req (payload_make f E A w arg rs req)"
proof (cases f)
  case No_payload
  then show ?thesis by (simp add: harmless_payload_def)
next
  case Teardown_payload
  then show ?thesis by (simp add: harmless_payload_def payload_make_teardown_def)
next
  case Pair_setup1_payload
  then show ?thesis
    by (auto intro!: harmless_bind harmless_lift dest!: pair_setup1_shape simp: the_arg_not_Freed)
qed (use assms in \<open>auto intro!: harmless_bind harmless_lift shapes simp: the_arg_not_Freed shapes
      payload_make_pair_setup2_def payload_make_pair_setup3_def payload_make_pair_verify2_def
      dest: pair_generic_shape pair_verify1_shape payload_make_tags\<close>)

subsection \<open>Response handlers\<close>

definition harmless :: "airplay_session \<Rightarrow> output_device list \<Rightarrow> handled \<Rightarrow> bool" where
  "harmless rs devs r \<longleftrightarrow>
     (\<forall>s rs1 devs1. r = Inr (s, rs1, devs1) \<longrightarrow> shape rs1 = shape rs \<and> (devices_ok devs \<longrightarrow> devices_ok devs1)
        \<and> labels devs1 = labels devs)"

lemma harmless_Inr [shapes]:
  "shape rs1 = shape rs \<Longrightarrow> (devices_ok devs \<Longrightarrow> devices_ok devs1) \<Longrightarrow> labels devs1 = labels devs
    \<Longrightarrow> harmless rs devs (Inr (s, rs1, devs1))"
  by (simp add: harmless_def)

lemma harmless_Inl [simp]: "harmless rs devs (Inl f)" by (simp add: harmless_def)

lemma harmless_bind_res:
  assumes "\<And>x. m = Inr x \<Longrightarrow> harmless rs devs (f x)"
  shows "harmless rs devs (bind_res m f)"
  using assms by (cases m) simp_all

lemma harmless_then:
  assumes "harmless rs devs m"
    and "\<And>s rs1 devs1. shape rs1 = shape rs \<Longrightarrow> (devices_ok devs \<Longrightarrow> devices_ok devs1) \<Longrightarrow> labels devs1 = labels devs
      \<Longrightarrow> harmless rs devs (f (s, rs1, devs1))"
  shows "harmless rs devs (bind_res m f)"
proof (rule harmless_bind_res)
  fix x assume m: "m = Inr x"
  obtain s rs1 devs1 where x: "x = (s, rs1, devs1)" by (cases x)
  have "shape rs1 = shape rs" "devices_ok devs \<Longrightarrow> devices_ok devs1" "labels devs1 = labels devs"
    using assms(1) unfolding harmless_def m x by blast+
  then show "harmless rs devs (f x)" unfolding x by (rule assms(2))
qed

definition shaped :: "airplay_session \<Rightarrow> (int \<times> airplay_session) res \<Rightarrow> bool" where
  "shaped rs r \<longleftrightarrow> (\<forall>ret rs1. r = Inr (ret, rs1) \<longrightarrow> shape rs1 = shape rs)"

lemma shaped_simps [simp]: "shaped rs (Inl f)" "shaped rs (Inr (ret, rs1)) \<longleftrightarrow> shape rs1 = shape rs"
  by (simp_all add: shaped_def)

lemma shaped_bind: "(\<And>x. m = Inr x \<Longrightarrow> shaped rs (f x)) \<Longrightarrow> shaped rs (bind_res m f)"
  by (cases m) simp_all

lemma harmless_shaped:
  assumes "shaped rs m" and "\<And>ret rs1. shape rs1 = shape rs \<Longrightarrow> harmless rs devs (f (ret, rs1))"
  shows "harmless rs devs (bind_res m f)"
proof (rule harmless_bind_res)
  fix x assume "m = Inr x"
  then show "harmless rs devs (f x)" using assms by (cases x) simp
qed

lemma session_ids_set_shaped: "shaped rs (session_ids_set A rs)"
  unfolding session_ids_set_def Let_def by (auto intro!: shaped_bind split: option.split prod.split if_split)

lemma info_generic_harmless: "harmless rs devs (response_handler_info_generic E A req rs devs)"
  unfolding response_handler_info_generic_def Let_def
  by (auto intro!: harmless_shaped session_ids_set_shaped shapes simp del: not_None_eq split: option.split)

lemma info_harmless [shapes]:
  "harmless rs devs (response_handler_info_probe E A req rs devs)"
  "harmless rs devs (response_handler_info_start E A req rs devs)"
  unfolding response_handler_info_probe_def response_handler_info_start_def
  by (rule harmless_then [OF info_generic_harmless], auto intro!: shapes)+

lemma response_pair_generic_shape:
  "response_handler_pair_generic step E A req rs = Inr (s, rs1) \<Longrightarrow> shape rs1 = shape rs"
  unfolding response_handler_pair_generic_def Let_def
  by (auto simp: bind_res_eq_Inr split: if_splits option.splits)

lemma session_cipher_setup_shaped: "shape rs2 = shape rs \<Longrightarrow> shaped rs (session_cipher_setup E key rs2)"
  unfolding session_cipher_setup_def Let_def
  by (auto intro!: shaped_bind simp: shape_cipher split: option.split)

lemma harmless_pair:
  assumes "\<And>s rs1. shape rs1 = shape rs \<Longrightarrow> harmless rs devs (f (s, rs1))"
  shows "harmless rs devs (bind_res (response_handler_pair_generic step E A req rs) f)"
  by (rule harmless_bind_res) (auto dest: response_pair_generic_shape intro: assms)

lemma verify2_error_harmless: "shape rs1 = shape rs \<Longrightarrow> harmless rs devs (verify2_error rs1 devs)"
  by (auto simp: verify2_error_def intro!: shapes split: option.split)

lemma pair_harmless [shapes]:
  "harmless rs devs (response_handler_pair_setup1 E A req rs devs)"
  "harmless rs devs (response_handler_pair_setup2 E A req rs devs)"
  "harmless rs devs (response_handler_pair_setup3 E A req rs devs)"
  "harmless rs devs (response_handler_pair_verify1 E A req rs devs)"
  "harmless rs devs (response_handler_pair_verify2 E A req rs devs)"
  unfolding response_handler_pair_setup1_def response_handler_pair_setup2_def response_handler_pair_setup3_def
    response_handler_pair_verify1_def response_handler_pair_verify2_def Let_def
  by (auto intro!: harmless_pair harmless_shaped session_cipher_setup_shaped verify2_error_harmless shapes split: option.split prod.split if_split)

lemma simply_harmless: "shape (snd (f rs)) = shape rs \<Longrightarrow> harmless rs devs (simply f rs devs)"
  by (cases "f rs") (simp add: simply_def harmless_def)

lemma auth_header_parse_shape: "shape (snd (auth_header_parse rs req)) = shape rs"
  by (simp add: auth_header_parse_def Let_def split: option.split prod.split)

lemma auth_header_parse_shape': "auth_header_parse rs req = (ret, rs1) \<Longrightarrow> shape rs1 = shape rs"
  using auth_header_parse_shape [of rs req] by simp

lemma setup_shape:
  "shape (snd (response_handler_setup_session E req rs)) = shape rs"
  "shape (snd (response_handler_setup_stream E A req rs)) = shape rs"
  by (auto simp: response_handler_setup_session_def response_handler_setup_stream_def Let_def
      dest: auth_header_parse_shape' split: option.split prod.split)

lemma simple_harmless [shapes]:
  "harmless rs devs (simply (response_handler_setup_session E req) rs devs)"
  "harmless rs devs (simply (response_handler_setup_stream E A req) rs devs)"
  "harmless rs devs (simply response_handler_record rs devs)"
  "harmless rs devs (simply response_handler_flush rs devs)"
  "harmless rs devs (simply response_handler_teardown rs devs)"
  "harmless rs devs (simply response_handler_teardown_failure rs devs)"
  "harmless rs devs (simply response_handler_pin_start rs devs)"
  by (auto intro!: simply_harmless simp: setup_shape response_handler_record_def response_handler_flush_def
      response_handler_teardown_def response_handler_teardown_failure_def response_handler_pin_start_def)

end
