(* ===== verification/Airplay_Lifetime.thy ===== *)
theory Airplay_Lifetime
  imports Airplay_Shapes "HOL-Library.Sublist"
begin

text \<open>
  The life of the sessions of \<open>src/airplay.c\<close>: an invariant of the state that every operation keeps,
  and that rules out the use of freed memory as long as connection attempts succeed.
\<close>

subsection \<open>The invariant\<close>

text \<open>A request with the number \<open>i\<close> belongs to session \<open>p\<close> and has a context.\<close>

definition waiting :: "'e world \<Rightarrow> nat \<Rightarrow> nat \<Rightarrow> bool" where
  "waiting w p i \<longleftrightarrow> (\<exists>ctx. map_of (w_ctxs w) i = Some ctx \<and> sc_session ctx = p)"

text \<open>
  What is left of a sequence: the end of one of the tables, with the functions of that table. A context has
  at least its current request.
\<close>

definition left_of :: "seq_ctx \<Rightarrow> seq_request list \<Rightarrow> bool" where
  "left_of ctx reqs \<longleftrightarrow> (\<exists>ty. airplay_seq_definition ty = Some (sc_on_success ctx, sc_on_error ctx)
     \<and> suffix reqs (airplay_seq_request ty))"

definition ctx_ok :: "seq_ctx \<Rightarrow> bool" where
  "ctx_ok ctx \<longleftrightarrow> sc_cur ctx \<noteq> [] \<and> left_of ctx (sc_cur ctx)"

lemma left_of_tl: "left_of ctx (cur # rest) \<Longrightarrow> left_of ctx rest"
  by (auto simp: left_of_def dest: suffix_ConsD)

lemma left_of_cur [simp]: "left_of (ctx\<lparr>sc_cur := l\<rparr>) reqs = left_of ctx reqs"
  by (simp add: left_of_def)

text \<open>
  A session with \<open>k\<close> requests that are counted as in flight but are not in the queue of the connection
  any more: one between the event that ends a request and its callback.
\<close>

definition session_ok :: "'e world \<Rightarrow> int \<Rightarrow> nat \<Rightarrow> airplay_session \<Rightarrow> bool" where
  "session_ok w k p rs \<longleftrightarrow> rs_master_session rs \<in> fst ` set (w_masters w)
     \<and> (case rs_ctrl rs of None \<Rightarrow> False
        | Some cn \<Rightarrow> conn_ok cn \<and> rs_reqs_in_flight rs = int (length (cn_requests cn)) + k
            \<and> (cn_closecb cn \<longrightarrow> cn_requests cn = []) \<and> distinct (map rq_id (cn_requests cn))
            \<and> (\<forall>i \<in> set (map rq_id (cn_requests cn)). waiting w p i))"

definition world_ok :: "(nat \<Rightarrow> int) \<Rightarrow> 'e world \<Rightarrow> bool" where
  "world_ok k w \<longleftrightarrow> distinct (map fst (w_sessions w)) \<and> (\<forall>p \<in> fst ` set (w_sessions w). p < w_next w)
     \<and> (\<forall>(i, ctx) \<in> set (w_ctxs w). i < w_next w \<and> ctx_ok ctx) \<and> w_dangling w = [] \<and> devices_ok (w_devices w)
     \<and> (\<forall>(p, rs) \<in> set (w_sessions w). session_ok w (k p) p rs)"

abbreviation settled :: "'e world \<Rightarrow> bool" where
  "settled \<equiv> world_ok (\<lambda>p. 0)"

definition alive :: "'e world \<Rightarrow> nat \<Rightarrow> bool" where
  "alive w p \<longleftrightarrow> p \<in> fst ` set (w_sessions w)"

lemma alive_simps [simp]:
  "alive (w\<lparr>w_devices := v1\<rparr>) p = alive w p" "alive (w\<lparr>w_next := v2\<rparr>) p = alive w p" "alive (w\<lparr>w_ctxs := v3\<rparr>) p = alive w p"
  "alive (w\<lparr>w_metadata := v4\<rparr>) p = alive w p" "alive (w\<lparr>w_dangling := v5\<rparr>) p = alive w p"
  "alive (w\<lparr>w_status := v6\<rparr>) p = alive w p"
  by (simp_all add: alive_def)

text \<open>A result that does not use freed memory.\<close>

definition safe :: "('a \<Rightarrow> bool) \<Rightarrow> 'a wres \<Rightarrow> bool" where
  "safe P r \<longleftrightarrow> (case r of Inl f \<Rightarrow> f \<noteq> Freed | Inr x \<Rightarrow> P x)"

lemma safe_simps [simp]: "safe P (Inr x) = P x" "safe P (Inl f) \<longleftrightarrow> f \<noteq> Freed"
  by (simp_all add: safe_def)

lemma safe_bind: "safe P m \<Longrightarrow> (\<And>x. P x \<Longrightarrow> safe Q (f x)) \<Longrightarrow> safe Q (bind_res m f)"
  by (cases m) simp_all

lemma safe_mono: "safe P m \<Longrightarrow> (\<And>x. P x \<Longrightarrow> Q x) \<Longrightarrow> safe Q m"
  by (cases m) simp_all

lemma safe_lift: "(\<And>x. m = Inr x \<Longrightarrow> P x) \<Longrightarrow> safe P (lift_res m)"
  by (cases m) simp_all

lemma session_ok_shape:
  assumes "session_ok w k p rs" and "shape rs' = shape rs"
  shows "session_ok w k p rs'"
proof -
  obtain cn where cn: "rs_ctrl rs = Some cn" using assms(1) by (cases "rs_ctrl rs") (simp_all add: session_ok_def)
  with assms(2) obtain cn' where cn': "rs_ctrl rs' = Some cn'" "cn'\<lparr>cn_ciphercb := None\<rparr> = cn\<lparr>cn_ciphercb := None\<rparr>"
    by (auto simp: shape_def)
  have eq: "cn_requests cn' = cn_requests cn" "cn_closecb cn' = cn_closecb cn" "cn_close_ev cn' = cn_close_ev cn"
      "cn_state cn' = cn_state cn" "cn_fd cn' = cn_fd cn" "cn_ev cn' = cn_ev cn" "cn_input_buffer cn' = cn_input_buffer cn"
      "cn_output_raw cn' = cn_output_raw cn"
    using cn'(2) by (cases cn; cases cn'; simp)+
  have "conn_ok cn' = conn_ok cn" unfolding conn_ok_def state_ok_def waits_def eq ..
  then show ?thesis using assms by (simp add: session_ok_def cn cn' eq shape_def)
qed

lemma session_ok_world:
  assumes "session_ok w k p rs" and "set (w_masters w) \<subseteq> set (w_masters w')" and "\<And>i. waiting w p i \<Longrightarrow> waiting w' p i"
  shows "session_ok w' k p rs"
  using assms unfolding session_ok_def by (auto split: option.splits)

lemma session_ok_cong:
  "w_masters w' = w_masters w \<Longrightarrow> w_ctxs w' = w_ctxs w \<Longrightarrow> session_ok w' k p rs = session_ok w k p rs"
  unfolding session_ok_def waiting_def by metis

lemma session_ok_map_of: "world_ok k w \<Longrightarrow> map_of (w_sessions w) p = Some rs \<Longrightarrow> session_ok w (k p) p rs"
  unfolding world_ok_def by (auto dest: map_of_SomeD)

lemma alive_map_of: "alive w p \<longleftrightarrow> (\<exists>rs. map_of (w_sessions w) p = Some rs)"
  unfolding alive_def by (metis map_of_eq_None_iff not_None_eq)

lemma put_keys [simp]: "map fst (w_sessions (session_put p rs w)) = map fst (w_sessions w)"
  by (auto simp: session_put_def comp_def case_prod_beta)

lemma put_alive [simp]: "alive (session_put p rs w) q = alive w q"
  unfolding alive_def by (metis list.set_map put_keys)

lemma put_fields [simp]:
  "w_masters (session_put p rs w) = w_masters w" "w_ctxs (session_put p rs w) = w_ctxs w"
  "w_devices (session_put p rs w) = w_devices w" "w_next (session_put p rs w) = w_next w"
  "w_dangling (session_put p rs w) = w_dangling w" "w_metadata (session_put p rs w) = w_metadata w"
  by (simp_all add: session_put_def)

lemma put_map_of: "map_of (w_sessions (session_put p rs w)) q =
    (if q = p \<and> alive w p then Some rs else map_of (w_sessions w) q)"
proof -
  have "map_of (map (\<lambda>(q, s). if q = p then (q, rs) else (q, s)) ss) q =
      (if q = p \<and> p \<in> fst ` set ss then Some rs else map_of ss q)" for ss
    by (induction ss) force+
  then show ?thesis by (simp add: session_put_def alive_def)
qed

lemma in_put: "(q, s) \<in> set (w_sessions (session_put p rs w)) \<Longrightarrow> q = p \<and> s = rs \<or> q \<noteq> p \<and> (q, s) \<in> set (w_sessions w)"
  by (auto simp: session_put_def split: if_splits)

text \<open>A session may be replaced by one that is all right.\<close>

lemma world_ok_replace:
  assumes "distinct (map fst (w_sessions w))" and "\<forall>p \<in> fst ` set (w_sessions w). p < w_next w"
    and "\<forall>(i, ctx) \<in> set (w_ctxs w). i < w_next w \<and> ctx_ok ctx" and "w_dangling w = []" and "devices_ok (w_devices w)"
    and "\<And>q s. (q, s) \<in> set (w_sessions w) \<Longrightarrow> q \<noteq> p \<Longrightarrow> session_ok w (k q) q s" and "session_ok w (k p) p rs"
  shows "world_ok k (session_put p rs w)"
proof -
  have c: "session_ok (session_put p rs w) j q s = session_ok w j q s" for j q s
    by (rule session_ok_cong) simp_all
  have "\<forall>(q, s) \<in> set (w_sessions (session_put p rs w)). session_ok w (k q) q s"
  proof (clarify)
    fix q s assume "(q, s) \<in> set (w_sessions (session_put p rs w))"
    from in_put [OF this] show "session_ok w (k q) q s" using assms(6,7) by blast
  qed
  moreover have "distinct (map fst (w_sessions (session_put p rs w)))" using assms(1) by simp
  moreover have "\<forall>q \<in> fst ` set (w_sessions (session_put p rs w)). q < w_next w"
    using assms(2) put_alive [of p rs w] unfolding alive_def by metis
  ultimately show ?thesis using assms(3-5) unfolding world_ok_def c put_fields by (intro conjI) simp_all
qed

lemma world_ok_put:
  assumes "world_ok k w" and "session_ok w (k' p) p rs" and "\<And>q. q \<noteq> p \<Longrightarrow> k' q = k q"
  shows "world_ok k' (session_put p rs w)"
  using assms by (intro world_ok_replace) (auto simp: world_ok_def)

lemma world_ok_shape:
  "world_ok k w \<Longrightarrow> map_of (w_sessions w) p = Some rs \<Longrightarrow> shape rs' = shape rs \<Longrightarrow> world_ok k (session_put p rs' w)"
  by (rule world_ok_put) (auto intro: session_ok_shape session_ok_map_of)

lemma world_ok_cong:
  "w_sessions w' = w_sessions w \<Longrightarrow> w_masters w' = w_masters w \<Longrightarrow> w_ctxs w' = w_ctxs w \<Longrightarrow> w_dangling w' = w_dangling w
    \<Longrightarrow> w_next w \<le> w_next w' \<Longrightarrow> devices_ok (w_devices w') \<Longrightarrow> world_ok k w \<Longrightarrow> world_ok k w'"
  using session_ok_cong [of w' w] unfolding world_ok_def by fastforce

subsection \<open>Operations on one session\<close>

definition started :: "answers \<Rightarrow> bool" where
  "started A \<longleftrightarrow> (\<forall>i. an_dial A i = Connect_started)"

text \<open>The same sessions are there afterwards.\<close>

definition kept :: "'e world \<Rightarrow> 'e world \<Rightarrow> bool" where
  "kept w w' \<longleftrightarrow> settled w' \<and> map fst (w_sessions w') = map fst (w_sessions w)
     \<and> labels (w_devices w') = labels (w_devices w)"

lemma kept_alive: "kept w w' \<Longrightarrow> alive w' p = alive w p"
  unfolding kept_def alive_def by (metis list.set_map)

lemma kept_next [simp]: "kept (w\<lparr>w_next := n\<rparr>) = kept w"
  by (simp add: kept_def fun_eq_iff)

lemma kept_trans: "kept w w1 \<Longrightarrow> kept w1 w2 \<Longrightarrow> kept w w2"
  by (simp add: kept_def)

lemma kept_refl: "settled w \<Longrightarrow> kept w w" by (simp add: kept_def)

lemma kept_bind: "safe (kept w) m \<Longrightarrow> (\<And>w1. kept w w1 \<Longrightarrow> safe Q (f w1)) \<Longrightarrow> safe Q (bind_res m f)"
  by (rule safe_bind)

lemma get_alive:
  assumes "alive w p"
  obtains rs where "map_of (w_sessions w) p = Some rs" "session_get p w = Inr rs"
  using assms that by (auto simp: alive_map_of session_get_def)

lemma put_kept: "settled w \<Longrightarrow> map_of (w_sessions w) p = Some rs \<Longrightarrow> shape rs' = shape rs \<Longrightarrow> kept w (session_put p rs' w)"
proof -
  assume "settled w" "map_of (w_sessions w) p = Some rs" "shape rs' = shape rs"
  then have "settled (session_put p rs' w)" by (rule world_ok_shape)
  moreover have "w_devices (session_put p rs' w) = w_devices w" by (simp add: session_put_def)
  ultimately show "kept w (session_put p rs' w)" by (simp add: kept_def put_keys)
qed

lemma modify_safe:
  assumes "settled w" and "alive w p" and "\<And>rs. shape (f rs) = shape rs"
  shows "safe (kept w) (session_modify p f w)"
proof -
  obtain rs where "map_of (w_sessions w) p = Some rs" "session_get p w = Inr rs" by (rule get_alive [OF assms(2)])
  then show ?thesis using put_kept [OF assms(1) _ assms(3)] by (simp add: session_modify_def)
qed

lemma status_safe:
  assumes "settled w" and "alive w p"
  shows "safe (kept w) (session_status p w)"
proof -
  obtain rs where rs: "map_of (w_sessions w) p = Some rs" "session_get p w = Inr rs" by (rule get_alive [OF assms(2)])
  let ?w1 = "w\<lparr>w_status := w_status w @ [(rs_callback_id rs, rs_device_id rs, output_state (rs_state rs))]\<rparr>"
  have "settled ?w1" using assms(1) by (rule world_ok_cong [rotated -1]) (use assms(1) in \<open>simp_all add: world_ok_def\<close>)
  then have "kept ?w1 (session_put p (rs\<lparr>rs_callback_id := -1\<rparr>) ?w1)" by (rule put_kept) (simp_all add: rs)
  then show ?thesis by (simp add: session_status_def rs kept_def)
qed

definition removed :: "nat \<Rightarrow> 'e world \<Rightarrow> 'e world \<Rightarrow> bool" where
  "removed p w w' \<longleftrightarrow> settled w' \<and> map fst (w_sessions w') = filter (\<lambda>q. q \<noteq> p) (map fst (w_sessions w))
     \<and> map dv_id (w_devices w') = map dv_id (w_devices w)"

lemma update_ids [simp]: "(\<And>d. dv_id (f d) = dv_id d) \<Longrightarrow> map dv_id (device_update i f devs) = map dv_id devs"
  by (induction devs) simp_all

lemma cleanup_safe:
  assumes "settled w" and "alive w p"
  shows "safe (removed p w) (session_cleanup p w)"
proof -
  obtain rs where rs: "map_of (w_sessions w) p = Some rs" "session_get p w = Inr rs" by (rule get_alive [OF assms(2)])
  obtain cn where cn: "rs_ctrl rs = Some cn"
    using session_ok_map_of [OF assms(1) rs(1)] by (auto simp: session_ok_def split: option.splits)
  let ?ss = "filter (\<lambda>(q, s). q \<noteq> p) (w_sessions w)"
  let ?ms = "master_session_cleanup (map snd ?ss) (rs_master_session rs) (w_masters w)"
  let ?w = "w\<lparr>w_sessions := ?ss, w_devices := outputs_device_session_remove (rs_device_id rs) (w_devices w), w_masters := ?ms\<rparr>"
  have r: "session_cleanup p w = Inr ?w"
    using assms(1) by (simp add: session_cleanup_def session_free_def rs cn dangles_def world_ok_def Let_def)
  have "session_ok ?w 0 q s" if "(q, s) \<in> set ?ss" for q s
  proof -
    have "session_ok w 0 q s" using assms(1) that by (auto simp: world_ok_def)
    moreover have "rs_master_session s \<in> fst ` set ?ms" if "rs_master_session s \<in> fst ` set (w_masters w)"
      using that \<open>(q, s) \<in> set ?ss\<close> by (force simp: master_session_cleanup_def)
    ultimately show ?thesis by (simp add: session_ok_def waiting_def split: option.splits)
  qed
  moreover have "map fst ?ss = filter (\<lambda>q. q \<noteq> p) (map fst (w_sessions w))"
    by (simp add: filter_map comp_def case_prod_unfold)
  moreover have "devices_ok (outputs_device_session_remove (rs_device_id rs) (w_devices w))"
    using assms(1) by (simp add: world_ok_def outputs_device_session_remove_def)
  moreover have "map dv_id (outputs_device_session_remove (rs_device_id rs) (w_devices w)) = map dv_id (w_devices w)"
    by (simp add: outputs_device_session_remove_def)
  ultimately show ?thesis
    using assms(1) unfolding r by (auto simp: removed_def world_ok_def)
qed

lemma kept_settled: "kept w w1 \<Longrightarrow> settled w1" by (simp add: kept_def)

lemma removed_settled: "safe (removed p w) r \<Longrightarrow> safe settled r" by (erule safe_mono) (simp add: removed_def)

lemma success_safe:
  assumes "settled w" and "alive w p"
  shows "safe settled (session_success p w)"
  unfolding session_success_def
proof (rule kept_bind [OF status_safe [OF assms]])
  fix w1 assume "kept w w1"
  then show "safe settled (session_cleanup p w1)"
    using assms(2) by (intro removed_settled [OF cleanup_safe]) (simp_all add: kept_alive kept_settled)
qed

lemma failure_safe:
  assumes "settled w" and "alive w p"
  shows "safe settled (session_failure p w)"
proof -
  have "safe settled (session_success p w1)" if "kept w w1" for w1
    using that assms(2) by (intro success_safe) (simp_all add: kept_alive kept_settled)
  then show ?thesis
    unfolding session_failure_def session_success_def using modify_safe [OF assms]
    by (rule_tac kept_bind) auto
qed

lemma connected_safe:
  assumes "settled w" and "alive w p"
  shows "safe (kept w) (session_connected p w)"
  unfolding session_connected_def
proof (rule kept_bind [OF modify_safe [OF assms]])
  fix w1 assume "kept w w1"
  then show "safe (kept w) (session_status p w1)"
    using assms(2) by (intro safe_mono [OF status_safe]) (auto simp: kept_alive kept_settled intro: kept_trans)
qed simp

lemma world_ok_devices: "world_ok k w \<Longrightarrow> devices_ok devs \<Longrightarrow> world_ok k (w\<lparr>w_devices := devs\<rparr>)"
  by (rule world_ok_cong) simp_all

lemma start_failure_safe:
  assumes "settled w" and "alive w p"
  shows "safe settled (start_failure p w)"
proof -
  obtain rs where rs: "map_of (w_sessions w) p = Some rs" "session_get p w = Inr rs" by (rule get_alive [OF assms(2)])
  have "devices_ok (w_devices w)" using assms(1) by (simp add: world_ok_def)
  then show ?thesis unfolding start_failure_def rs(2) bind_res.simps using assms
    by (intro failure_safe world_ok_devices devices_ok_update) simp_all
qed

subsection \<open>Sequences\<close>

lemma master_alive:
  assumes "session_ok w k p rs"
  shows "master_get (rs_master_session rs) w \<noteq> Inl Freed"
proof -
  have "rs_master_session rs \<in> dom (map_of (w_masters w))" using assms by (simp add: session_ok_def dom_map_of_conv_image_fst)
  then show ?thesis by (auto simp: master_get_def)
qed

lemma sequence_send_safe:
  assumes "settled w" and "started A" and "sc_session ctx = p" and "map_of (w_sessions w) p = Some rs0"
    and "shape rs = shape rs0" and "tag req = (w_next w, True, False, 0)" and "ctx_ok ctx"
  shows "safe (kept w) (sequence_send E A ctx (w_next w) rs req ty uri (w\<lparr>w_next := w_next w + 1\<rparr>))"
proof -
  let ?i = "w_next w"
  let ?w1 = "w\<lparr>w_next := ?i + 1, w_ctxs := (?i, ctx) # w_ctxs w\<rparr>"
  have ok: "session_ok w 0 p rs" using session_ok_shape [OF session_ok_map_of [OF assms(1,4)] assms(5)] by simp
  obtain cn where cn: "rs_ctrl rs = Some cn" using ok by (auto simp: session_ok_def split: option.splits)
  have fresh: "waiting w q j \<Longrightarrow> j < ?i" for q j
    using assms(1) by (force simp: waiting_def world_ok_def dest: map_of_SomeD)
  have waits: "waiting w q j \<Longrightarrow> waiting ?w1 q j" for q j using fresh [of q j] by (auto simp: waiting_def)
  have nd: "\<not> dangles (w\<lparr>w_next := ?i + 1\<rparr>) cn" using assms(1) by (simp add: dangles_def world_ok_def)
  have w1: "settled ?w1"
    using assms(1,7) waits unfolding world_ok_def by (auto intro: session_ok_world)
  show ?thesis
  proof (cases "evrtsp_make_request (rtsp_ciph E) (an_dial A ?i) cn req ty uri")
    case (Inr r)
    obtain ret cn1 where r: "r = (ret, cn1)" by (cases r)
    have "conn_ok cn" using ok by (simp add: session_ok_def cn)
    note q = make_request_Inr [OF this _ _ Inr [unfolded r]]
    have q: "conn_ok cn1" "map rq_id (cn_requests cn1) = map rq_id (cn_requests cn) @ [?i]" "ret = 0"
      using q assms(2,6) by (simp_all add: tag_def started_def)
    let ?rs = "rs\<lparr>rs_ctrl := Some (evrtsp_connection_set_closecb False cn1), rs_reqs_in_flight := rs_reqs_in_flight rs + 1\<rparr>"
    have "conn_ok (evrtsp_connection_set_closecb False cn1) = conn_ok cn1"
      by (simp add: conn_ok_def state_ok_def waits_def evrtsp_connection_set_closecb_def cong: evrtsp_connection_state.case_cong)
    moreover have "?i \<notin> set (map rq_id (cn_requests cn))" using ok fresh by (auto simp: session_ok_def cn dest!: bspec) blast
    moreover have "length (cn_requests cn1) = length (cn_requests cn) + 1" using arg_cong [OF q(2), of length] by simp
    moreover have "waiting ?w1 p ?i" using assms(3) by (simp add: waiting_def)
    ultimately have "session_ok ?w1 0 p ?rs"
      using ok q waits unfolding session_ok_def by (simp add: cn evrtsp_connection_set_closecb_def)
    then have "kept w (session_put p ?rs ?w1)"
      using world_ok_put [OF w1, of "\<lambda>q. 0" p ?rs] by (simp add: kept_def)
    then show ?thesis using nd by (simp add: sequence_send_def cn Inr r q(3) assms(3))
  qed (simp add: sequence_send_def cn nd [simplified])
qed

lemma request_new_tag: "tag (evrtsp_request_new i True) = (i, True, False, 0)"
  by (simp add: tag_def evrtsp_request_new_def)

lemma sequence_error_safe:
  assumes "settled w" and "map_of (w_sessions w) p = Some rs0" and "shape rs = shape rs0"
  shows "safe (kept w) (sequence_error p rs w)"
  unfolding sequence_error_def using put_kept [OF assms(1,2), of "deferred_session_failure rs"] assms(3) by simp

lemma sequence_requests_safe:
  assumes "settled w" and "started A" and "sc_session ctx = p" and "alive w p" and "left_of ctx reqs"
  shows "safe (kept w) (sequence_requests E A ctx reqs w)"
  using assms
proof (induction reqs arbitrary: ctx w)
  case (Cons cur rest)
  note settled = Cons.prems(1) and started = Cons.prems(2) and p = Cons.prems(3)
  obtain rs where rs: "map_of (w_sessions w) p = Some rs" "session_get p w = Inr rs" by (rule get_alive [OF Cons.prems(4)])
  let ?w0 = "w\<lparr>w_next := w_next w + 1\<rparr>" and ?req0 = "evrtsp_request_new (w_next w) True"
  have w0: "settled ?w0" by (rule world_ok_cong [OF _ _ _ _ _ _ settled]) (use settled in \<open>simp_all add: world_ok_def\<close>)
  have err: "safe (kept w) (sequence_error p rs' ?w0)" if "shape rs' = shape rs" for rs'
    using sequence_error_safe [OF w0 _ that] rs(1) by simp
  obtain ret rs1 req1 where h: "request_headers_add E (sq_rtsp_type cur) rs ?req0 = (ret, rs1, req1)" by (cases "request_headers_add E (sq_rtsp_type cur) rs ?req0")
  note s1 = request_headers_add_shape [OF h, unfolded request_new_tag]
  define req2 where "req2 = (case sq_content_type cur of None \<Rightarrow> req1 | Some t \<Rightarrow> header_add (str ''Content-Type'') t req1)"
  have t2: "tag req2 = (w_next w, True, False, 0)" using s1 by (simp add: req2_def split: option.split)
  have "master_get (rs_master_session rs1) ?w0 \<noteq> Inl Freed"
    using master_alive [OF session_ok_shape [OF session_ok_map_of [OF w0]]] rs(1) s1 by simp
  note harm = payload_make_harmless [OF this, of req2 "sq_payload_make cur" E A "sc_arg ctx"]
  let ?rest = "\<lambda>(ret, rs2, req3). if ret > 0
      then (if rest = [] then sequence_error (sc_session ctx) rs2 ?w0
            else sequence_requests E A (ctx\<lparr>sc_cur := rest\<rparr>) rest (session_put (sc_session ctx) rs2 ?w0))
      else if ret < 0 then sequence_error (sc_session ctx) rs2 ?w0
      else sequence_send E A (ctx\<lparr>sc_cur := cur # rest\<rparr>) (w_next w) rs2 req3 (sq_rtsp_type cur)
             (case sq_uri cur of None \<Rightarrow> rs_session_url rs2 | Some u \<Rightarrow> u) ?w0"
  have eq: "sequence_requests E A ctx (cur # rest) w = (if ret < 0 then sequence_error (sc_session ctx) rs1 ?w0
      else bind_res (payload_make (sq_payload_make cur) E A ?w0 (sc_arg ctx) rs1 req2) ?rest)"
    by (simp only: sequence_requests.simps p rs(2) bind_res.simps Let_def h prod.case req2_def)
  show ?case
  proof (cases "ret < 0")
    case True
    then show ?thesis using err s1 p unfolding eq by simp
  next
    case False
    show ?thesis
    proof (cases "payload_make (sq_payload_make cur) E A ?w0 (sc_arg ctx) rs1 req2")
      case (Inl f)
      then show ?thesis using False harm unfolding eq harmless_payload_def by simp
    next
      case (Inr r)
      obtain ret2 rs2 req3 where r: "r = (ret2, rs2, req3)" by (cases r)
      have s2: "shape rs2 = shape rs" "tag req3 = (w_next w, True, False, 0)"
        using harm Inr r s1 t2 unfolding harmless_payload_def by auto
      have put: "kept ?w0 (session_put p rs2 ?w0)" using put_kept [OF w0] rs(1) s2 by simp
      consider "ret2 > 0" "rest \<noteq> []" | "ret2 > 0" "rest = []" | "ret2 < 0" | "ret2 = 0" by linarith
      then have "safe (kept w) (?rest (ret2, rs2, req3))"
      proof cases
        case 1
        have "safe (kept (session_put p rs2 ?w0)) (sequence_requests E A (ctx\<lparr>sc_cur := rest\<rparr>) rest (session_put p rs2 ?w0))"
          using kept_settled [OF put] Cons.prems by (intro Cons.IH) (simp_all add: left_of_tl)
        then show ?thesis using 1 put p by (auto elim!: safe_mono simp: kept_def)
      next
        case 4
        then show ?thesis using sequence_send_safe [OF settled started, of "ctx\<lparr>sc_cur := cur # rest\<rparr>" p rs rs2 req3] rs(1) s2 p Cons.prems(5)
          by (simp add: ctx_ok_def)
      qed (use err s2 in \<open>simp_all add: p\<close>)
      then show ?thesis using False unfolding eq Inr r bind_res.simps by simp
    qed
  qed
qed simp

lemma sequence_continue_safe:
  "settled w \<Longrightarrow> started A \<Longrightarrow> sc_session ctx = p \<Longrightarrow> alive w p \<Longrightarrow> left_of ctx (sc_cur ctx) \<Longrightarrow> safe (kept w) (sequence_continue E A ctx w)"
  unfolding sequence_continue_def by (rule sequence_requests_safe)

lemma sequence_start_safe:
  assumes "settled w" and "started A" and "alive w p"
  shows "safe (kept w) (sequence_start E A ty p arg w)"
  using assms by (auto simp: sequence_start_def left_of_def intro!: sequence_continue_safe split: option.split)

subsection \<open>Beginning and end\<close>

lemma connection_setup_result:
  assumes "session_connection_setup A rs dev fam = (ret, rs1)"
  shows "if ret < 0 then rs1 = rs else rs_ctrl rs1 = Some evrtsp_connection_new \<and> rs_reqs_in_flight rs1 = rs_reqs_in_flight rs"
  using assms unfolding session_connection_setup_def Let_def
  by (auto split: address_family.splits option.splits prod.splits if_splits)

lemma master_make: "master_session_make masters rtp n raw q = (m, masters') \<Longrightarrow> m \<in> fst ` set masters' \<and> set masters \<subseteq> set masters'"
proof (cases "find (\<lambda>(i, ms). quality_is_equal q (quality (ms_rtp_session ms))) masters")
  case (Some x)
  obtain i ms where x: "x = (i, ms)" by (cases x)
  assume "master_session_make masters rtp n raw q = (m, masters')"
  then have "m = i" "masters' = masters" unfolding master_session_make_def Some x by simp_all
  moreover have "(i, ms) \<in> set masters" using Some unfolding find_Some_iff x using nth_mem by metis
  ultimately show ?thesis by force
qed (auto simp: master_session_make_def)

lemma new_conn_ok: "conn_ok evrtsp_connection_new" "cn_requests evrtsp_connection_new = []"
  by (simp_all add: evrtsp_connection_new_def conn_ok_def state_ok_def)

lemma session_make_safe:
  assumes "settled w" and "session_make A dev cb w = (p, w1)"
  shows "settled w1 \<and> w_devices w1 = w_devices w \<and> (\<forall>i. p = Some i \<longrightarrow> i = w_next w \<and> alive w1 i)"
proof -
  obtain ret6 rs6 where 6: "session_connection_setup A (session_new dev cb) dev AF_INET6 = (ret6, rs6)" by fastforce
  obtain ret rs where 4: "(if ret6 < 0 then session_connection_setup A rs6 dev AF_INET else (ret6, rs6)) = (ret, rs)" by fastforce
  obtain ssrc rtptime seq where rtp: "an_rtp A = (ssrc, rtptime, seq)" by (cases "an_rtp A")
  obtain m masters where m: "master_session_make (w_masters w)
      (rtp_session_new ssrc rtptime seq (Some (dv_quality dev)) AIRPLAY_PACKET_BUFFER_SIZE 0) (w_next w + 1) (an_rawbuf A) (dv_quality dev) = (m, masters)"
    by fastforce
  note mm = master_make [OF m]
  let ?p = "w_next w" and ?rs = "rs\<lparr>rs_master_session := m\<rparr>"
  have r: "session_make A dev cb w = (if ret < 0 then (None, w)
      else (Some ?p, w\<lparr>w_sessions := (?p, ?rs) # w_sessions w, w_masters := masters, w_next := ?p + 2\<rparr>))"
    unfolding session_make_def Let_def 6 prod.case 4 rtp m ..
  show ?thesis
  proof (cases "ret < 0")
    case True
    then show ?thesis using assms r by simp
  next
    case False
    let ?w = "w\<lparr>w_sessions := (?p, ?rs) # w_sessions w, w_masters := masters, w_next := ?p + 2\<rparr>"
    have c: "rs_ctrl rs = Some evrtsp_connection_new \<and> rs_reqs_in_flight rs = 0"
      using connection_setup_result [OF 6] connection_setup_result [of A rs6 dev AF_INET ret rs] 4 False
      by (auto simp: session_new_def split: if_splits)
    have new: "session_ok ?w 0 ?p ?rs"
      using c mm by (simp add: session_ok_def new_conn_ok)
    have old: "session_ok ?w 0 q s" if "(q, s) \<in> set (w_sessions w)" for q s
      by (rule session_ok_world [of w]) (use assms(1) that mm in \<open>auto simp: world_ok_def waiting_def\<close>)
    have "?p \<notin> fst ` set (w_sessions w)" using assms(1) by (auto simp: world_ok_def)
    then have "settled ?w" using assms(1) new old by (fastforce simp: world_ok_def)
    then show ?thesis using assms(2) False r by (auto simp: alive_def)
  qed
qed

lemma device_operation_safe:
  assumes "settled w" and "started A"
  shows "safe settled (case session_make A dev cb w of (None, w1) \<Rightarrow> Inr w1
      | (Some p, w1) \<Rightarrow> bind_res (sequence_start E A ty p arg w1) (\<lambda>w2. Inr w2))"
proof (cases "session_make A dev cb w")
  case (Pair p w1)
  note m = session_make_safe [OF assms(1) Pair]
  show ?thesis
  proof (cases p)
    case (Some i)
    then show ?thesis using m assms(2) unfolding Pair
      by (auto intro!: kept_bind [OF sequence_start_safe] simp: kept_settled)
  qed (use Pair m in simp)
qed

end
