(* ===== verification/Airplay_Safety.thy ===== *)
theory Airplay_Safety
  imports Airplay_Lifetime
begin

text \<open>
  The steps of \<open>src/airplay.c\<close> keep the invariant of its sessions, and none of them uses a session, a
  master session, a request or a context that has been freed, as long as connection attempts succeed.
\<close>

subsection \<open>The end of a sequence\<close>

lemma device_start_safe:
  assumes "settled w" and "started A"
  shows "safe (\<lambda>(ret, w1). settled w1 \<and> labels (w_devices w1) = labels (w_devices w)) (airplay_device_start E A dev cb w)"
    and "safe (\<lambda>(ret, w1). settled w1 \<and> labels (w_devices w1) = labels (w_devices w)) (airplay_device_probe E A dev cb w)"
    and "safe (\<lambda>(ret, w1). settled w1 \<and> labels (w_devices w1) = labels (w_devices w)) (airplay_device_authorize E A dev pin cb w)"
proof -
  have "safe (\<lambda>(ret, w1). settled w1 \<and> labels (w_devices w1) = labels (w_devices w)) (case session_make A dev cb w of (None, w1) \<Rightarrow> Inr (-1 :: int, w1)
      | (Some p, w1) \<Rightarrow> bind_res (sequence_start E A ty p arg w1) (\<lambda>w2. Inr (1, w2)))" for ty arg
  proof (cases "session_make A dev cb w")
    case (Pair p w1)
    note m = session_make_safe [OF assms(1) Pair]
    show ?thesis
    proof (cases p)
      case (Some i)
      then have "safe (kept w1) (sequence_start E A ty i arg w1)" using m assms(2) by (intro sequence_start_safe) blast+
      then show ?thesis unfolding Pair Some using m by (auto elim!: safe_bind simp: kept_def)
    qed (use Pair m in simp)
  qed
  then show "safe (\<lambda>(ret, w1). settled w1 \<and> labels (w_devices w1) = labels (w_devices w)) (airplay_device_start E A dev cb w)"
    "safe (\<lambda>(ret, w1). settled w1 \<and> labels (w_devices w1) = labels (w_devices w)) (airplay_device_probe E A dev cb w)"
    "safe (\<lambda>(ret, w1). settled w1 \<and> labels (w_devices w1) = labels (w_devices w)) (airplay_device_authorize E A dev pin cb w)"
    unfolding airplay_device_start_def airplay_device_probe_def airplay_device_authorize_def by blast+
qed

lemma device_start_settled:
  assumes "settled w" and "started A"
  shows "safe (\<lambda>(ret, w1). settled w1) (airplay_device_start E A dev cb w)"
    and "safe (\<lambda>(ret, w1). settled w1) (airplay_device_probe E A dev cb w)"
    and "safe (\<lambda>(ret, w1). settled w1) (airplay_device_authorize E A dev pin cb w)"
  by (rule safe_mono, rule device_start_safe [OF assms], simp add: case_prod_unfold)+

lemma pair_success_safe:
  assumes "settled w" and "started A" and "alive w p"
  shows "safe settled (session_pair_success E A p w)"
proof -
  obtain rs where rs: "map_of (w_sessions w) p = Some rs" "session_get p w = Inr rs" by (rule get_alive [OF assms(3)])
  show ?thesis
  proof (cases "rs_next_seq rs = AIRPLAY_SEQ_CONTINUE")
    case True
    then show ?thesis using success_safe [OF assms(1,3)] by (simp add: session_pair_success_def rs)
  next
    case False
    have "safe settled (bind_res (sequence_start E A (rs_next_seq rs) p Arg_null w)
        (session_modify p (\<lambda>rs. rs\<lparr>rs_next_seq := AIRPLAY_SEQ_CONTINUE\<rparr>)))"
    proof (rule kept_bind [OF sequence_start_safe [OF assms]])
      fix w1 assume "kept w w1"
      then show "safe settled (session_modify p (\<lambda>rs. rs\<lparr>rs_next_seq := AIRPLAY_SEQ_CONTINUE\<rparr>) w1)"
        using assms(3) by (intro safe_mono [OF modify_safe]) (auto simp: kept_settled kept_alive)
    qed
    then show ?thesis using False by (simp add: session_pair_success_def rs)
  qed
qed

lemma device_get_ids: "map dv_id devs' = map dv_id devs \<Longrightarrow> outputs_device_get devs i \<noteq> None \<Longrightarrow> outputs_device_get devs' i \<noteq> None"
proof -
  have "outputs_device_get ds i \<noteq> None \<longleftrightarrow> i \<in> set (map dv_id ds)" for ds by (induction ds) auto
  then show "map dv_id devs' = map dv_id devs \<Longrightarrow> outputs_device_get devs i \<noteq> None \<Longrightarrow> outputs_device_get devs' i \<noteq> None" by metis
qed

lemma start_retry_safe:
  assumes "settled w" and "started A" and "alive w p"
  shows "safe settled (start_retry E A p w)"
proof -
  obtain rs where rs: "map_of (w_sessions w) p = Some rs" "session_get p w = Inr rs" by (rule get_alive [OF assms(3)])
  note fail = failure_safe [OF assms(1,3)]
  show ?thesis
  proof (cases "outputs_device_get (w_devices w) (rs_device_id rs)")
    case (Some d)
    let ?w = "w\<lparr>w_devices := device_update (rs_device_id rs) (\<lambda>d. d\<lparr>dv_v6_disabled := True\<rparr>) (w_devices w)\<rparr>"
    have "devices_ok (w_devices w)" using assms(1) by (simp add: world_ok_def)
    then have w: "settled ?w" using assms(1) by (intro world_ok_devices) simp_all
    have "safe settled (bind_res (session_cleanup p ?w) (\<lambda>w1.
        case outputs_device_get (w_devices w1) (rs_device_id rs) of None \<Rightarrow> Inl Freed
        | Some device1 \<Rightarrow> bind_res (airplay_device_start E A device1 (rs_callback_id rs) w1) (\<lambda>(ret, w2). Inr w2)))"
    proof (rule safe_bind [OF cleanup_safe [OF w]])
      fix w1 assume w1: "removed p ?w w1"
      then have "map dv_id (w_devices w1) = map dv_id (w_devices w)" by (simp add: removed_def)
      with Some obtain d1 where "outputs_device_get (w_devices w1) (rs_device_id rs) = Some d1" using device_get_ids by blast
      moreover have "settled w1" using w1 by (simp add: removed_def)
      ultimately show "safe settled (case outputs_device_get (w_devices w1) (rs_device_id rs) of None \<Rightarrow> Inl Freed
        | Some device1 \<Rightarrow> bind_res (airplay_device_start E A device1 (rs_callback_id rs) w1) (\<lambda>(ret, w2). Inr w2))"
        using device_start_safe(1) [OF _ assms(2), of w1] by (auto intro!: safe_bind)
    qed (use assms(3) in simp)
    then show ?thesis using fail by (simp add: start_retry_def rs Some)
  qed (use fail in \<open>simp add: start_retry_def rs\<close>)
qed

lemma session_call_safe:
  assumes "settled w" and "started A" and "alive w p"
  shows "safe settled (session_call f E A p w)"
proof -
  have k: "safe (kept w) m \<Longrightarrow> safe settled m" for m by (erule safe_mono) (rule kept_settled)
  show ?thesis
    using assms(1) k [OF connected_safe [OF assms(1,3)]] success_safe [OF assms(1,3)] k [OF status_safe [OF assms(1,3)]]
      pair_success_safe [OF assms, of E] failure_safe [OF assms(1,3)] start_failure_safe [OF assms(1,3)] start_retry_safe [OF assms, of E]
    by (simp add: session_call_def split: session_fn.split)
qed

subsection \<open>Response handlers\<close>

lemma on_session_safe:
  assumes "settled w" and "alive w p" and "\<And>rs devs. harmless rs devs (f rs devs)"
  shows "safe (\<lambda>(seq_type, w1). kept w w1) (on_session p w f)"
proof -
  obtain rs where rs: "map_of (w_sessions w) p = Some rs" "session_get p w = Inr rs" by (rule get_alive [OF assms(2)])
  show ?thesis
  proof (cases "f rs (w_devices w)")
    case (Inr r)
    obtain s rs1 devs where r: "r = (s, rs1, devs)" by (cases r)
    have sh: "shape rs1 = shape rs" "devices_ok devs" "labels devs = labels (w_devices w)"
      using assms(3) [of rs "w_devices w"] assms(1) by (simp_all add: harmless_def Inr r world_ok_def)
    have "settled (w\<lparr>w_devices := devs\<rparr>)" using assms(1) sh(2) by (rule world_ok_devices)
    then have "kept (w\<lparr>w_devices := devs\<rparr>) (session_put p rs1 (w\<lparr>w_devices := devs\<rparr>))" by (rule put_kept) (simp_all add: rs sh)
    then show ?thesis using sh(3) by (simp add: on_session_def rs Inr r kept_def)
  qed (simp add: on_session_def rs)
qed

lemma metadata_safe:
  fixes w :: "'e world"
  assumes "settled w" and "started A" and "alive w p"
  shows "safe (\<lambda>(ret, w1). ret = 0 \<and> kept w w1) (airplay_metadata_send_generic E A p md only w)"
proof -
  define send where "send = (\<lambda>bit wanted seq_type (w :: 'e world). bind_res (session_get p w) (\<lambda>rs.
      if wanted \<and> rs_wanted_metadata rs AND bit \<noteq> 0 then sequence_start E A seq_type p (Arg_metadata md) w else Inr w))"
  have s: "safe (kept w) (send bit wanted ty w1)" if "kept w w1" for bit wanted ty w1
  proof -
    have w1: "settled w1" "alive w1 p" using that assms(3) by (simp_all add: kept_settled kept_alive)
    obtain rs where "session_get p w1 = Inr rs" by (rule get_alive [OF w1(2)])
    moreover have "safe (kept w) (sequence_start E A ty p (Arg_metadata md) w1)"
      using sequence_start_safe [OF w1(1) assms(2) w1(2)] by (rule safe_mono) (rule kept_trans [OF that])
    ultimately show ?thesis using that by (simp add: send_def)
  qed
  show ?thesis
    unfolding airplay_metadata_send_generic_def Let_def send_def [symmetric]
    by (intro kept_bind [where w = w] s kept_refl assms(1)) simp_all
qed

lemma volume_start_safe:
  assumes "settled w" and "started A" and "alive w p"
  shows "safe (\<lambda>(s, w1). kept w w1) (response_handler_volume_start E A p w)"
proof -
  obtain rs where rs: "session_get p w = Inr rs" by (rule get_alive [OF assms(3)])
  have "safe (\<lambda>(ret, w1). kept w w1) (airplay_metadata_startup_send E A p w)"
  proof (cases "w_metadata w = None \<or> rs_wanted_metadata rs = 0")
    case True
    then show ?thesis using assms(1) by (auto simp: airplay_metadata_startup_send_def rs kept_refl split: option.split)
  next
    case False
    then obtain md where md: "w_metadata w = Some md" by auto
    let ?w = "w\<lparr>w_metadata := Some (md\<lparr>md_startup := True\<rparr>)\<rparr>"
    have "settled ?w" by (rule world_ok_cong [OF _ _ _ _ _ _ assms(1)]) (use assms(1) in \<open>simp_all add: world_ok_def\<close>)
    then show ?thesis
      using False metadata_safe [OF _ assms(2), of ?w p E "md\<lparr>md_startup := True\<rparr>" False] assms(3)
      by (auto simp: airplay_metadata_startup_send_def rs md kept_def elim!: safe_mono)
  qed
  then show ?thesis by (auto simp: response_handler_volume_start_def elim!: safe_bind)
qed

lemma response_handler_safe:
  assumes "settled w" and "started A" and "alive w p"
  shows "safe (\<lambda>(seq_type, w1). kept w w1) (response_handler f E A req p w)"
  using assms by (cases f) (simp_all add: kept_refl volume_start_safe on_session_safe shapes)

subsection \<open>The callback of a request\<close>

text \<open>The request \<open>i\<close> of session \<open>p\<close> has ended, its callback is still to come.\<close>

definition pending :: "nat \<Rightarrow> nat \<Rightarrow> 'e world \<Rightarrow> bool" where
  "pending p i w \<longleftrightarrow> world_ok (\<lambda>q. if q = p then 1 else 0) w \<and> waiting w p i
     \<and> (\<exists>rs cn. map_of (w_sessions w) p = Some rs \<and> rs_ctrl rs = Some cn \<and> i \<notin> set (map rq_id (cn_requests cn)))"

lemma callback_settles:
  assumes "pending p i w" and "map_of (w_sessions w) p = Some rs" and "rs_ctrl rs = Some cn"
  shows "settled (session_put p (rs\<lparr>rs_reqs_in_flight := rs_reqs_in_flight rs - 1,
      rs_ctrl := Some (if rs_reqs_in_flight rs - 1 = 0 then evrtsp_connection_set_closecb True cn else cn)\<rparr>)
      (w\<lparr>w_ctxs := filter (\<lambda>(j, c). j \<noteq> i) (w_ctxs w)\<rparr>))" (is "settled (session_put p ?rs ?w)")
proof -
  have w: "world_ok (\<lambda>q. if q = p then 1 else 0) w" and i: "waiting w p i" "i \<notin> set (map rq_id (cn_requests cn))"
    using assms by (auto simp: pending_def)
  have ctxs: "map_of (filter (\<lambda>(j, c). j \<noteq> i) l) k = (if k = i then None else map_of l k)" for l :: "(nat \<times> seq_ctx) list" and k
    by (induction l) auto
  have waits: "waiting w q j \<Longrightarrow> j \<noteq> i \<or> q \<noteq> p \<Longrightarrow> waiting ?w q j" for q j
    using i(1) by (auto simp: waiting_def ctxs)
  have "session_ok ?w 0 q s" if "(q, s) \<in> set (w_sessions w)" "q \<noteq> p" for q s
    by (rule session_ok_world [of w]) (use w that waits in \<open>auto simp: world_ok_def\<close>)
  note others = this
  have okp: "session_ok w 1 p rs" using session_ok_map_of [OF w assms(2)] by simp
  have "conn_ok (evrtsp_connection_set_closecb True cn) = conn_ok cn"
    by (simp add: conn_ok_def state_ok_def waits_def evrtsp_connection_set_closecb_def cong: evrtsp_connection_state.case_cong)
  moreover have "\<forall>j \<in> set (map rq_id (cn_requests cn)). waiting ?w p j"
  proof
    fix j assume j: "j \<in> set (map rq_id (cn_requests cn))"
    then have "waiting w p j" using okp unfolding session_ok_def assms(3) by auto
    then show "waiting ?w p j" using waits i(2) j by metis
  qed
  ultimately have "session_ok ?w 0 p ?rs"
    using okp unfolding session_ok_def assms(3) by (simp add: evrtsp_connection_set_closecb_def)
  then show ?thesis
    using w others by (intro world_ok_replace) (auto simp: world_ok_def)
qed

lemma sequence_continue_cb_safe:
  assumes "pending p i w" and "started A"
  shows "safe settled (sequence_continue_cb E A i resp w)"
proof -
  obtain ctx where ctx: "map_of (w_ctxs w) i = Some ctx" "sc_session ctx = p" using assms(1) by (auto simp: pending_def waiting_def)
  then have "(i, ctx) \<in> set (w_ctxs w)" by (simp add: map_of_SomeD)
  then have cur: "left_of ctx (sc_cur ctx)" using assms(1) by (auto simp: pending_def world_ok_def ctx_ok_def)
  obtain rs cn where rs: "map_of (w_sessions w) p = Some rs" "rs_ctrl rs = Some cn" using assms(1) by (auto simp: pending_def)
  let ?w0 = "w\<lparr>w_ctxs := filter (\<lambda>(j, c). j \<noteq> i) (w_ctxs w)\<rparr>"
  define w1 where "w1 = session_put p (rs\<lparr>rs_reqs_in_flight := rs_reqs_in_flight rs - 1,
      rs_ctrl := Some (if rs_reqs_in_flight rs - 1 = 0 then evrtsp_connection_set_closecb True cn else cn)\<rparr>) ?w0"
  have w1: "settled w1" unfolding w1_def by (rule callback_settles [OF assms(1) rs])
  have "alive w p" using rs(1) by (auto simp: alive_map_of)
  then have a1: "alive w1 p" by (simp add: w1_def)
  have get: "session_get p ?w0 = Inr rs" by (simp add: session_get_def rs)
  have finish: "safe settled (sequence_done f E A p w2)" if "kept w1 w2" for f w2
    unfolding sequence_done_def by (rule session_call_safe) (use that assms(2) a1 in \<open>simp_all add: kept_settled kept_alive\<close>)
  have go_on: "safe settled (if s = AIRPLAY_SEQ_ABORT then sequence_done f E A p w2
        else if s \<noteq> AIRPLAY_SEQ_CONTINUE then sequence_start E A s p (sc_arg ctx) w2
        else if rest \<noteq> [] then sequence_continue E A (ctx\<lparr>sc_cur := rest\<rparr>) w2
        else sequence_done g E A p w2)" if "kept w1 w2" "left_of ctx rest" for s f g rest w2
  proof -
    have w2: "settled w2" "alive w2 p" using that a1 by (simp_all add: kept_settled kept_alive)
    have k: "safe (kept w2) m \<Longrightarrow> safe settled m" for m by (erule safe_mono) (rule kept_settled)
    have "safe settled (sequence_start E A s p (sc_arg ctx) w2)" by (rule k [OF sequence_start_safe [OF w2(1) assms(2) w2(2)]])
    moreover have "safe settled (sequence_continue E A (ctx\<lparr>sc_cur := rest\<rparr>) w2)"
      by (rule k [OF sequence_continue_safe [OF w2(1) assms(2) _ w2(2)]]) (simp_all add: ctx that)
    ultimately show ?thesis using finish [OF that(1)] by simp
  qed
  have handled: "safe settled (bind_res (response_handler h E A req p w1) (\<lambda>(s, w2).
        if s = AIRPLAY_SEQ_ABORT then sequence_done f E A p w2
        else if s \<noteq> AIRPLAY_SEQ_CONTINUE then sequence_start E A s p (sc_arg ctx) w2
        else if rest \<noteq> [] then sequence_continue E A (ctx\<lparr>sc_cur := rest\<rparr>) w2
        else sequence_done g E A p w2))" if "left_of ctx rest" for h req f g rest
    by (rule safe_bind [OF response_handler_safe [OF w1 assms(2) a1]]) (use go_on that in \<open>auto simp only: prod.case split: prod.splits\<close>)
  show ?thesis
  proof (cases "sc_cur ctx")
    case Nil
    then show ?thesis
      by (simp add: sequence_continue_cb_def ctx get rs(2) Let_def split: option.split)
  next
    case (Cons cur rest)
    then have "left_of ctx rest" using cur left_of_tl by metis
    note h = handled [OF this]
    show ?thesis
      unfolding sequence_continue_cb_def Let_def ctx option.case get bind_res.simps rs(2) w1_def [symmetric] Cons
      using finish [OF kept_refl [OF w1]] h
      by (simp only: prod.case list.case split: option.split if_split) simp
  qed
qed

subsection \<open>Events\<close>

text \<open>What precedes the callback of a request in the history: data sent, and perhaps the close callback.\<close>

lemma run_quiet_safe:
  "called l = [] \<Longrightarrow> settled w \<Longrightarrow> alive w p \<Longrightarrow> safe (kept w) (run_callbacks E A p l w)"
proof (induction l arbitrary: w)
  case Nil
  then show ?case by (simp add: kept_refl)
next
  case (Cons h l)
  show ?case
  proof (cases h)
    case Close_called
    have "safe (kept w) (rtsp_close_cb p w)" unfolding rtsp_close_cb_def by (rule modify_safe) (use Cons in simp_all)
    then have "safe (kept w) (bind_res (rtsp_close_cb p w) (run_callbacks E A p l))"
    proof (rule kept_bind)
      fix w1 assume w1: "kept w w1"
      have "safe (kept w1) (run_callbacks E A p l w1)"
        using Cons w1 by (simp add: Close_called called_def kept_settled kept_alive)
      then show "safe (kept w) (run_callbacks E A p l w1)" by (rule safe_mono) (rule kept_trans [OF w1])
    qed
    then show ?thesis by (simp add: Close_called)
  qed (use Cons in \<open>simp_all add: called_def\<close>)
qed

lemma run_sent: "called l = [] \<Longrightarrow> Close_called \<notin> set l \<Longrightarrow> run_callbacks E A p (l @ l') w = run_callbacks E A p l' w"
proof (induction l)
  case (Cons h l)
  then show ?case by (cases h) (simp_all add: called_def)
qed simp

definition attempt_fails :: "cipher_ctx rtsp_event \<Rightarrow> bool" where
  "attempt_fails ev \<longleftrightarrow> ev = Connection Connect_timeout \<or> ev = Connection Connect_refused"

lemma connection_event_safe:
  assumes "settled w" and "started A" and "readln_ok readln" and "possible (Connection_event p ev) w" and "\<not> attempt_fails ev"
  shows "safe settled (connection_event readln E A p ev w)"
proof -
  obtain rs cn where rs: "map_of (w_sessions w) p = Some rs" "rs_ctrl rs = Some cn" and en: "enabled ev cn"
      and nr: "made ev = []" "\<And>b. ev \<noteq> Set_closecb b"
    using assms(4) by (cases ev) auto
  have ok: "session_ok w 0 p rs" using session_ok_map_of [OF assms(1) rs(1)] by simp
  then have c: "conn_ok cn" "cn_closecb cn \<Longrightarrow> cn_requests cn = []" by (simp_all add: session_ok_def rs(2))
  have nd: "\<not> dangles w cn" using assms(1) by (simp add: dangles_def world_ok_def)
  have get: "session_get p w = Inr rs" by (simp add: session_get_def rs)
  have eq: "connection_event readln E A p ev w = bind_res (lift_res (rtsp_do readln (rtsp_ciph E) (an_dial A 0) ev cn)) (\<lambda>cn1.
      run_callbacks E A p (drop (length (cn_log cn)) (cn_log cn1)) (session_put p (rs\<lparr>rs_ctrl := Some cn1\<rparr>) w))"
    using assms(5) nd by (simp add: connection_event_def get rs(2) attempt_fails_def)
  show ?thesis
  proof (cases "rtsp_do readln (rtsp_ciph E) (an_dial A 0) ev cn")
    case (Inr cn1)
    have nf: "ev \<notin> {Connection Connect_timeout, Connection Connect_refused}" using assms(5) by (simp add: attempt_fails_def)
    obtain l c' where o: "conn_ok cn1" "cn_closecb cn1 = cn_closecb cn" "cn_log cn1 = cn_log cn @ l @ c'" "called l = []"
        "cn_closecb cn \<or> Close_called \<notin> set l"
        "c' = [] \<and> map rq_id (cn_requests cn1) = map rq_id (cn_requests cn)
         \<or> (\<exists>i r. c' = [Called i r] \<and> map rq_id (cn_requests cn) = i # map rq_id (cn_requests cn1))"
      by (rule rtsp_event_outcome [OF assms(3) c(1) en nr(1) nf nr(2) Inr])
    let ?rs = "rs\<lparr>rs_ctrl := Some cn1\<rparr>"
    let ?w = "session_put p ?rs w"
    have "alive w p" using rs(1) by (auto simp: alive_map_of)
    then have a: "alive ?w p" by simp
    from o(6) show ?thesis
    proof (elim disjE exE conjE)
      assume none: "c' = []" "map rq_id (cn_requests cn1) = map rq_id (cn_requests cn)"
      then have "length (cn_requests cn1) = length (cn_requests cn)" by (metis length_map)
      then have "session_ok w 0 p ?rs" using ok o(1,2) none(2) by (auto simp: session_ok_def rs(2) simp del: set_map)
      then have "settled ?w" by (intro world_ok_put [OF assms(1)]) simp_all
      then have "safe settled (run_callbacks E A p l ?w)"
        using run_quiet_safe [OF o(4) _ a, of E A] by (auto elim!: safe_mono simp: kept_settled)
      then show ?thesis by (simp add: eq Inr o(3) none)
    next
      fix i r assume one: "c' = [Called i r]" "map rq_id (cn_requests cn) = i # map rq_id (cn_requests cn1)"
      then have "length (cn_requests cn) = length (cn_requests cn1) + 1" by (metis length_map length_Cons Suc_eq_plus1)
      moreover have "cn_requests cn \<noteq> []" using one(2) by auto
      then have nc: "\<not> cn_closecb cn" using c(2) by blast
      moreover have ids: "distinct (i # map rq_id (cn_requests cn1))" "\<forall>j \<in> set (i # map rq_id (cn_requests cn1)). waiting w p j"
        using ok unfolding session_ok_def rs(2) one(2) [symmetric] by simp_all
      ultimately have "session_ok w 1 p ?rs" using ok o(1,2) by (simp add: session_ok_def rs(2))
      then have "world_ok (\<lambda>q. if q = p then 1 else 0) ?w" by (intro world_ok_put [OF assms(1)]) simp_all
      then have "pending p i ?w"
        using ids rs(1) by (auto simp: pending_def waiting_def put_map_of alive_map_of)
      then have "safe settled (bind_res (sequence_continue_cb E A i r ?w) (run_callbacks E A p []))"
        by (intro safe_bind [OF sequence_continue_cb_safe [OF _ assms(2)]]) simp_all
      moreover have "Close_called \<notin> set l" using nc o(5) by blast
      ultimately show ?thesis by (simp add: eq Inr o(3) one(1) run_sent [OF o(4)])
    qed
  qed (simp add: eq)
qed

text \<open>The two loops over all sessions.\<close>

lemma loop_step:
  assumes "settled w" and "\<forall>q \<in> set (p # ps). alive w q" and "safe (kept w) m"
    and "\<And>w1. settled w1 \<Longrightarrow> \<forall>q \<in> set ps. alive w1 q \<Longrightarrow> safe settled (f w1)"
  shows "safe settled (bind_res m f)"
  using assms by (intro kept_bind [OF assms(3)]) (simp_all add: kept_settled kept_alive)

lemma metadata_send_loop_safe:
  "settled w \<Longrightarrow> started A \<Longrightarrow> \<forall>p \<in> set ps. alive w p \<Longrightarrow> safe settled (metadata_send_loop E A md ps w)"
proof (induction ps arbitrary: w)
  case (Cons p ps)
  obtain rs where rs: "session_get p w = Inr rs" using Cons.prems(3) by (auto elim: get_alive)
  have "safe settled (bind_res (airplay_metadata_send_generic E A p md False w) (\<lambda>(ret, w1).
      if ret < 0 then bind_res (session_failure p w1) (metadata_send_loop E A md ps) else metadata_send_loop E A md ps w1))"
    using Cons.prems Cons.IH
    by (intro safe_bind [OF metadata_safe]) (auto simp: kept_settled kept_alive)
  then show ?case using Cons by (simp add: rs)
qed simp

lemma keep_alive_loop_safe:
  "settled w \<Longrightarrow> started A \<Longrightarrow> \<forall>p \<in> set ps. alive w p \<Longrightarrow> safe settled (keep_alive_loop E A ps w)"
proof (induction ps arbitrary: w)
  case (Cons p ps)
  obtain rs where rs: "session_get p w = Inr rs" using Cons.prems(3) by (auto elim: get_alive)
  have "safe settled (bind_res (airplay_metadata_keep_alive_send E A p w) (keep_alive_loop E A ps))"
    unfolding airplay_metadata_keep_alive_send_def
    by (rule loop_step [OF Cons.prems(1,3) sequence_start_safe [OF Cons.prems(1,2)]]) (use Cons in simp_all)
  then show ?case using Cons by (simp add: rs)
qed simp

definition goes_well :: "answers \<times> airplay_event \<Rightarrow> bool" where
  "goes_well x \<longleftrightarrow> started (fst x) \<and> (case snd x of Connection_event p ev \<Rightarrow> \<not> attempt_fails ev | _ \<Rightarrow> True)"

lemma on_device_safe:
  assumes "settled w" and "\<And>d. outputs_device_get (w_devices w) i = Some d \<Longrightarrow> safe (\<lambda>(ret, w1). settled w1) (f d)"
  shows "safe settled (on_device i w f)"
  using assms by (auto simp: on_device_def intro!: safe_bind split: option.split)

lemma settled_metadata: "settled w \<Longrightarrow> settled (w\<lparr>w_metadata := md\<rparr>)"
  by (rule world_ok_cong) (simp_all add: world_ok_def)

lemma airplay_step_safe:
  assumes "readln_ok readln" and "settled w" and "possible e w" and "goes_well (A, e)"
  shows "safe settled (airplay_step readln E A e w)"
proof -
  have st: "started A" using assms(4) by (simp add: goes_well_def)
  have all: "\<forall>p \<in> set (map fst (w_sessions w)). alive w p" by (auto simp: alive_def)
  have none: "outputs_device_get (w_devices w) i = Some d \<Longrightarrow> dv_session d = None" for i d
    using devices_ok_get assms(2) by (auto simp: world_ok_def)
  show ?thesis
  proof (cases e)
    case (Connection_event p ev)
    then show ?thesis using connection_event_safe [OF assms(2) st assms(1), of p ev E] assms(3,4) by (simp add: goes_well_def)
  next
    case (Deferred p)
    then have "alive w p" using assms(3) by (auto simp: alive_map_of)
    then show ?thesis using failure_safe [OF assms(2)] by (simp add: Deferred deferred_session_failure_cb_def)
  next
    case (Metadata_send md)
    then show ?thesis using metadata_send_loop_safe [OF assms(2) st all, of E md]
      by (auto simp: airplay_metadata_send_def settled_metadata intro!: safe_bind)
  next
    case Metadata_purge
    then show ?thesis using assms(2)
      by (simp add: airplay_metadata_purge_def settled_metadata)
  next
    case Keep_alive
    then show ?thesis using keep_alive_loop_safe [OF assms(2) st all] by (simp add: airplay_keep_alive_timer_cb_def)
  qed (use assms(2) device_start_settled [OF assms(2) st] in \<open>auto intro!: on_device_safe dest!: none
        simp: airplay_device_stop_def airplay_device_flush_def airplay_device_cb_set_def airplay_set_volume_one_def device_session_def\<close>)
qed

text \<open>The state before any session.\<close>

definition world_new :: "output_device list \<Rightarrow> 'e world" where
  "world_new devices = \<lparr>w_sessions = [], w_masters = [], w_devices = devices, w_ctxs = [], w_dangling = [], w_status = [],
     w_metadata = None, w_next = 0\<rparr>"

lemma world_new_ok: "devices_ok devices \<Longrightarrow> settled (world_new devices)"
  by (simp add: world_new_def world_ok_def)


end
