(* ===== verification/Airplay_Failures.thy ===== *)
theory Airplay_Failures
  imports Airplay_Safety
begin

text \<open>
  Where the hypotheses of the lifetime theorem fail: a connection attempt that does not come about, and one
  that fails at once; and the second attempt after a failed start, which goes to the same address.
\<close>

subsection \<open>A start by IPv4\<close>

lemma status_Inr:
  "session_get p w = Inr rs \<Longrightarrow> \<exists>w1. session_status p w = Inr w1 \<and> map fst (w_sessions w1) = map fst (w_sessions w)
     \<and> w_dangling w1 = w_dangling w"
  by (simp add: session_status_def)

lemma cleanup_Inr:
  assumes "map_of (w_sessions w) p = Some rs" and "w_dangling w = []"
  shows "\<exists>w1. session_cleanup p w = Inr w1 \<and> w_sessions w1 = filter (\<lambda>(q, s). q \<noteq> p) (w_sessions w) \<and> w_next w1 = w_next w
     \<and> w_devices w1 = outputs_device_session_remove (rs_device_id rs) (w_devices w) \<and> w_dangling w1 = []"
proof -
  have "\<not> dangles w1 cn" if "w_dangling w1 = []" for w1 :: "'a world" and cn :: "cipher_ctx connection"
    using that by (simp add: dangles_def)
  then show ?thesis
    using assms by (auto simp: session_cleanup_def session_free_def session_get_def Let_def split: option.split)
qed

lemma failure_Inr:
  assumes "alive w p" and "w_dangling w = []"
  shows "\<exists>w1. session_failure p w = Inr w1 \<and> \<not> alive w1 p"
proof -
  obtain rs where rs: "session_get p w = Inr rs" by (rule get_alive [OF assms(1)])
  let ?rs = "rs\<lparr>rs_state := (if rs_state rs \<noteq> AIRPLAY_STATE_AUTH then AIRPLAY_STATE_FAILED else rs_state rs)\<rparr>"
  have "alive (session_put p ?rs w) p" using assms(1) by simp
  then obtain rs1 where "session_get p (session_put p ?rs w) = Inr rs1" by (rule get_alive)
  then obtain w1 where w1: "session_status p (session_put p ?rs w) = Inr w1"
      "map fst (w_sessions w1) = map fst (w_sessions w)" "w_dangling w1 = []"
    using status_Inr [of p "session_put p ?rs w"] assms(2) by auto
  moreover have "alive w1 p" using assms(1) arg_cong [OF w1(2), of set] by (simp add: alive_def)
  then obtain rs2 where "map_of (w_sessions w1) p = Some rs2" by (auto simp: alive_map_of)
  ultimately show ?thesis using cleanup_Inr [of w1 p rs2] by (auto simp: session_failure_def session_modify_def rs alive_def)
qed

text \<open>The loop of \<open>evrtsp_connectioncb\<close> over a queue whose first request ends its session.\<close>

lemma failing_callback_uses_freed:
  assumes "alive w p" and "w_dangling w = []" and "map_of (w_sessions w) p = Some rs" and "rs_ctrl rs = Some cn"
    and "cn_requests cn = q # qs" and "map_of (w_ctxs w) (rq_id q) = Some ctx" and "sc_session ctx = p"
    and "sc_cur ctx = cur # rest" and "\<not> sq_proceed_on_rtsp_not_ok cur" and "rq_response_code q \<noteq> RTSP_OK"
    and "sc_on_error ctx = Fn_session_failure \<or> sc_on_error ctx = Fn_start_retry \<and> rs_family rs \<noteq> AF_INET6"
    and "2 \<le> an_rounds A" and "r = Connect_refused \<or> r = Connect_timeout"
  shows "connection_event readln E A p (Connection r) w = Inl Freed"
proof -
  obtain n where n: "an_rounds A = Suc (Suc n)" using assms(12) by (metis Suc_le_D numeral_2_eq_2 Suc_le_mono)
  have get: "session_get p w = Inr rs" by (simp add: session_get_def assms(3))
  have reset: "cn_requests (evrtsp_connection_reset (cn\<lparr>cn_ev := None\<rparr>)) = q # qs"
    by (simp add: evrtsp_connection_reset_def assms(5))
  define cn1 where "cn1 = evrtsp_connection_reset (cn\<lparr>cn_ev := None\<rparr>)"
  define w1 where "w1 = session_put p (rs\<lparr>rs_ctrl := Some cn1\<rparr>) w"
  have get1: "session_get p w1 = Inr (rs\<lparr>rs_ctrl := Some cn1\<rparr>)" using assms(1) by (simp add: w1_def session_get_def put_map_of)
  define rs2 where "rs2 = rs\<lparr>rs_ctrl := Some (cn1\<lparr>cn_requests := qs\<rparr>)\<rparr>"
  define w2 where "w2 = session_put p rs2 w1"
  define w3 where "w3 = w2\<lparr>w_ctxs := filter (\<lambda>(j, c). j \<noteq> rq_id q) (w_ctxs w2)\<rparr>"
  have w3: "session_get p w3 = Inr rs2" "alive w3 p" "w_dangling w3 = []"
    using assms(1,2) by (simp_all add: w3_def w2_def w1_def session_get_def put_map_of)
  define left where "left = rs_reqs_in_flight rs2 - 1"
  define w4 where "w4 = session_put p (rs2\<lparr>rs_reqs_in_flight := left,
      rs_ctrl := Some (if left = 0 then evrtsp_connection_set_closecb True (cn1\<lparr>cn_requests := qs\<rparr>) else cn1\<lparr>cn_requests := qs\<rparr>)\<rparr>) w3"
  have w4: "alive w4 p" "w_dangling w4 = []" using w3 by (simp_all add: w4_def)
  have "\<exists>w5. sequence_done (sc_on_error ctx) E A p w4 = Inr w5 \<and> \<not> alive w5 p"
  proof (cases "sc_on_error ctx = Fn_session_failure")
    case True
    then show ?thesis using failure_Inr [OF w4] by (simp add: sequence_done_def session_call_def)
  next
    case False
    then have f: "sc_on_error ctx = Fn_start_retry" "rs_family rs \<noteq> AF_INET6" using assms(11) by auto
    have g: "\<exists>rs4. session_get p w4 = Inr rs4 \<and> rs_family rs4 = rs_family rs"
      using w3(2) by (simp add: w4_def session_get_def put_map_of rs2_def)
    then show ?thesis using failure_Inr [OF w4] f by (auto simp: sequence_done_def session_call_def start_retry_def split: option.split)
  qed
  then obtain w5 where w5: "sequence_done (sc_on_error ctx) E A p w4 = Inr w5" "\<not> alive w5 p" by blast
  have ctx: "map_of (w_ctxs w2) (rq_id q) = Some ctx" by (simp add: w2_def w1_def assms(6))
  have "sequence_continue_cb E A (rq_id q) (Some (q\<lparr>rq_evcon := False\<rparr>)) w2 = Inr w5"
    using assms(9,10) w3(1) w5(1) unfolding sequence_continue_cb_def ctx option.case Let_def assms(7) w3_def [symmetric]
    by (simp add: assms(8) rs2_def left_def w4_def)
  moreover have "session_get p w5 = Inl Freed" using w5(2) by (auto simp: session_get_def alive_map_of split: option.split)
  ultimately have "bind_res (sequence_continue_cb E A (rq_id q) (Some (q\<lparr>rq_evcon := False\<rparr>)) w2) (signal_all (Suc n) E A p) = Inl Freed"
    by simp
  moreover have "w_dangling w1 = []" "rs_ctrl (rs\<lparr>rs_ctrl := Some cn1\<rparr>) = Some cn1" "cn_requests cn1 = q # qs"
      "session_put p ((rs\<lparr>rs_ctrl := Some cn1\<rparr>)\<lparr>rs_ctrl := Some (cn1\<lparr>cn_requests := qs\<rparr>)\<rparr>) w1 = w2"
    using assms(2) reset by (simp_all add: w1_def cn1_def w2_def rs2_def)
  ultimately have "signal_all (Suc (Suc n)) E A p w1 = Inl Freed"
    by (simp only: signal_all.simps(2) [of "Suc n"] get1 bind_res.simps option.case list.case list.set empty_iff if_False)
  moreover have "\<not> dangles w cn" using assms(2) by (simp add: dangles_def)
  ultimately show ?thesis
    using assms(13) by (auto simp add: connection_event_def get assms(4) n cn1_def [symmetric] w1_def [symmetric] simp del: signal_all.simps)
qed

lemma make_request_new:
  assumes "\<not> rq_evcon req"
  obtains req1 where "rq_id req1 = rq_id req" "rq_response_code req1 = rq_response_code req"
    "evrtsp_make_request ciph d evrtsp_connection_new req ty uri =
       Inr (evrtsp_connection_connect d (evrtsp_connection_new\<lparr>cn_requests := [req1]\<rparr>))"
proof -
  let ?q = "req\<lparr>rq_kind := EVRTSP_REQUEST, rq_type := ty, rq_uri := Some uri\<rparr>"
  define req1 where "req1 = (if rq_major req = 0 \<and> rq_minor req = 0
    then ?q\<lparr>rq_major := 1, rq_minor := 0, rq_evcon := True\<rparr> else ?q\<lparr>rq_evcon := True\<rparr>)"
  show thesis
    by (rule that [of req1]) (use assms in \<open>simp_all add: req1_def evrtsp_make_request_def Let_def evrtsp_connected_def evrtsp_connection_new_def\<close>)
qed

text \<open>The first request of a new session.\<close>

abbreviation start_ctx :: "nat \<Rightarrow> seq_ctx" where
  "start_ctx p \<equiv> \<lparr>sc_cur = airplay_seq_request AIRPLAY_SEQ_START, sc_on_success = No_function, sc_on_error = Fn_start_retry,
     sc_session = p, sc_arg = Arg_null\<rparr>"

lemma start_request:
  fixes w :: "'e world"
  assumes "map_of (w_sessions w) p = Some rs0" and "rs_ctrl rs0 = Some evrtsp_connection_new" and "rs_realm rs0 = None"
    and "w_dangling w = []"
  obtains rs q cn and w2 :: "'e world" where "sequence_start E A AIRPLAY_SEQ_START p Arg_null w = Inr w2"
    "map_of (w_sessions w2) p = Some rs" "rs_family rs = rs_family rs0" "rq_id q = w_next w" "rq_response_code q = 0"
    "rs_ctrl rs = Some cn" "cn_requests cn = [q]" "w_devices w2 = w_devices w"
    "\<forall>j. j \<noteq> p \<longrightarrow> map_of (w_sessions w2) j = map_of (w_sessions w) j"
    "if an_dial A (w_next w) = Connect_started
     then waits Ev_connect cn \<and> w_dangling w2 = [] \<and> w_ctxs w2 = (w_next w, start_ctx p) # w_ctxs w
     else w_dangling w2 = [w_next w] \<and> rs_deferred rs"
proof -
  let ?i = "w_next w" and ?ctx = "start_ctx p" and ?uri = "str ''/info''" and ?c = "evrtsp_connection_new :: cipher_ctx connection"
  let ?w0 = "w\<lparr>w_next := ?i + 1\<rparr>"
  have get: "session_get p w = Inr rs0" by (simp add: session_get_def assms(1))
  obtain ret rs1 req1 where h: "request_headers_add E EVRTSP_REQ_GET rs0 (evrtsp_request_new ?i True) = (ret, rs1, req1)"
    by (metis prod_cases3)
  have h2: "ret = 0" "rs_family rs1 = rs_family rs0" "rs_ctrl rs1 = Some evrtsp_connection_new"
    using h assms(2,3) by (auto simp: request_headers_add_def Let_def)
  have tag: "tag req1 = (?i, True, False, 0)" using request_headers_add_shape [OF h] by (simp add: request_new_tag)
  have seq: "sequence_start E A AIRPLAY_SEQ_START p Arg_null w = sequence_send E A ?ctx ?i rs1 req1 EVRTSP_REQ_GET ?uri ?w0"
    using h h2 by (simp add: sequence_start_def sequence_continue_def get seq_entry_def Let_def)
  obtain q where q: "rq_id q = rq_id req1" "rq_response_code q = rq_response_code req1"
    "evrtsp_make_request (rtsp_ciph E) (an_dial A ?i) ?c req1 EVRTSP_REQ_GET ?uri
       = Inr (evrtsp_connection_connect (an_dial A ?i) (?c\<lparr>cn_requests := [q]\<rparr>))"
    using tag by (rule_tac make_request_new [of req1 "rtsp_ciph E" "an_dial A ?i" EVRTSP_REQ_GET ?uri]) (simp_all add: tag_def)
  have q2: "rq_id q = ?i" "rq_response_code q = 0" using q tag by (simp_all add: tag_def)
  define cn where "cn = snd (evrtsp_connection_connect (an_dial A ?i) (?c\<lparr>cn_requests := [q]\<rparr>))"
  have cn: "cn_requests cn = [q]" "evrtsp_connection_connect (an_dial A ?i) (?c\<lparr>cn_requests := [q]\<rparr>)
      = (if an_dial A ?i = Connect_started then 0 else -1, cn)"
    "an_dial A ?i = Connect_started \<Longrightarrow> waits Ev_connect cn"
    by (cases "an_dial A ?i"; simp add: cn_def evrtsp_connection_connect_def evrtsp_connection_new_def evrtsp_connection_reset_def
        waits_def evrtsp_add_event_def Let_def)+
  have nd: "\<not> dangles ?w0 ?c" using assms(4) by (simp add: dangles_def)
  have alive: "alive w p" using assms(1) by (auto simp: alive_map_of)
  show thesis
  proof (cases "an_dial A ?i = Connect_started")
    case True
    let ?rs2 = "rs1\<lparr>rs_ctrl := Some (evrtsp_connection_set_closecb False cn), rs_reqs_in_flight := rs_reqs_in_flight rs1 + 1\<rparr>"
    have "sequence_send E A ?ctx ?i rs1 req1 EVRTSP_REQ_GET ?uri ?w0 = Inr (session_put p ?rs2 (?w0\<lparr>w_ctxs := (?i, ?ctx) # w_ctxs w\<rparr>))"
      using nd q(3) cn(2) True unfolding sequence_send_def h2 by simp
    then show thesis unfolding seq [symmetric]
      by (rule that [where rs = ?rs2 and cn = "evrtsp_connection_set_closecb False cn" and q = q])
        (use h2 q2 cn True alive assms(4) in \<open>simp_all add: put_map_of evrtsp_connection_set_closecb_def waits_def\<close>)
  next
    case False
    let ?rs2 = "deferred_session_failure (rs1\<lparr>rs_ctrl := Some cn\<rparr>)"
    have "sequence_send E A ?ctx ?i rs1 req1 EVRTSP_REQ_GET ?uri ?w0 = Inr (session_put p ?rs2 (?w0\<lparr>w_dangling := [?i]\<rparr>))"
      using nd q(3) cn(2) False assms(4) unfolding sequence_send_def h2 by (simp add: sequence_error_def)
    then show thesis unfolding seq [symmetric]
      by (rule that [where rs = ?rs2 and cn = cn and q = q])
        (use h2 q2 cn False alive in \<open>simp_all add: put_map_of deferred_session_failure_def\<close>)
  qed
qed

text \<open>A new session: its connection is new, and its family is the first one whose address can be used.\<close>

lemma session_make_new:
  fixes w :: "'e world"
  assumes "session_make A dev cb w = (Some p, w1)"
  obtains rs where "p = w_next w" "w_sessions w1 = (p, rs) # w_sessions w" "w_next w1 = p + 2" "w_devices w1 = w_devices w"
    "w_dangling w1 = w_dangling w" "w_ctxs w1 = w_ctxs w" "rs_ctrl rs = Some evrtsp_connection_new" "rs_realm rs = None"
    "rs_family rs = (if 0 \<le> fst (session_connection_setup A (session_new dev cb) dev AF_INET6) then AF_INET6 else AF_INET)"
proof -
  obtain ret6 rs6 where 6: "session_connection_setup A (session_new dev cb) dev AF_INET6 = (ret6, rs6)" by fastforce
  obtain ret rs where 4: "(if ret6 < 0 then session_connection_setup A rs6 dev AF_INET else (ret6, rs6)) = (ret, rs)" by fastforce
  obtain ssrc rtptime seq where rtp: "an_rtp A = (ssrc, rtptime, seq)" by (cases "an_rtp A")
  obtain m masters where m: "master_session_make (w_masters w)
      (rtp_session_new ssrc rtptime seq (Some (dv_quality dev)) AIRPLAY_PACKET_BUFFER_SIZE 0) (w_next w + 1) (an_rawbuf A) (dv_quality dev) = (m, masters)"
    by fastforce
  have connects: "session_connection_setup A rs' dev fam = (r, rs'') \<Longrightarrow> \<not> r < 0 \<Longrightarrow>
      rs_ctrl rs'' = Some evrtsp_connection_new \<and> rs_realm rs'' = rs_realm rs' \<and> rs_family rs'' = fam" for rs' fam r rs''
    unfolding session_connection_setup_def Let_def
    by (auto split: address_family.splits option.splits prod.splits if_splits)
  have r: "session_make A dev cb w = (if ret < 0 then (None, w) else (Some (w_next w),
      w\<lparr>w_sessions := (w_next w, rs\<lparr>rs_master_session := m\<rparr>) # w_sessions w, w_masters := masters, w_next := w_next w + 2\<rparr>))"
    unfolding session_make_def Let_def 6 prod.case 4 rtp m ..
  then have ret: "\<not> ret < 0" using assms by (auto split: if_splits)
  have "rs6 = session_new dev cb" if "ret6 < 0" using connection_setup_result [OF 6] that by simp
  then have "rs_ctrl rs = Some evrtsp_connection_new \<and> rs_realm rs = None \<and> rs_family rs = (if 0 \<le> ret6 then AF_INET6 else AF_INET)"
    using connects [of _ AF_INET ret rs] connects [OF 6] 4 ret by (cases "ret6 < 0") (auto simp: session_new_def)
  then show thesis
    using assms r ret by (intro that [of "rs\<lparr>rs_master_session := m\<rparr>"]) (auto simp: 6)
qed

lemma session_make_Some:
  assumes "0 \<le> fst (session_connection_setup A (session_new dev cb) dev AF_INET6)
     \<or> 0 \<le> fst (session_connection_setup A (session_new dev cb) dev AF_INET)"
  shows "\<exists>p w1. session_make A dev cb w = (Some p, w1)"
proof -
  obtain ret6 rs6 where 6: "session_connection_setup A (session_new dev cb) dev AF_INET6 = (ret6, rs6)" by fastforce
  obtain ret rs where 4: "(if ret6 < 0 then session_connection_setup A rs6 dev AF_INET else (ret6, rs6)) = (ret, rs)" by fastforce
  have "rs6 = session_new dev cb" if "ret6 < 0" using connection_setup_result [OF 6] that by simp
  then have "\<not> ret < 0" using assms 4 6 by (auto split: if_splits)
  then show ?thesis unfolding session_make_def Let_def 6 prod.case 4 by (simp split: prod.split)
qed

lemma start_by_ipv4:
  fixes devices :: "output_device list"
  assumes "outputs_device_get devices i = Some d" and "dv_v6_address d = None" and "dv_v4_address d = Some a"
    and "an_pton A AF_INET a = Some n"
  obtains rs q cn and w :: "'e world" where "airplay_step readln E A (Device_start i cb) (world_new devices) = Inr w"
    "map_of (w_sessions w) 0 = Some rs" "rs_family rs = AF_INET" "rq_id q = 2" "rq_response_code q = 0"
    "rs_ctrl rs = Some cn" "cn_requests cn = [q]"
    "if an_dial A 2 = Connect_started
     then waits Ev_connect cn \<and> w_dangling w = [] \<and> w_ctxs w = [(2, start_ctx 0)]
     else w_dangling w = [2] \<and> rs_deferred rs"
proof -
  let ?w = "world_new devices :: 'e world"
  have v6: "session_connection_setup A (session_new d cb) d AF_INET6 = (-1, session_new d cb)"
    by (simp add: session_connection_setup_def assms(2) Let_def)
  obtain p w1 where make: "session_make A d cb ?w = (Some p, w1)"
    using session_make_Some [of A d cb ?w] by (auto simp: session_connection_setup_def assms(3,4) Let_def)
  then obtain rs0 where m: "p = w_next ?w" "w_sessions w1 = (p, rs0) # w_sessions ?w" "w_next w1 = p + 2" "w_devices w1 = w_devices ?w"
    "w_dangling w1 = w_dangling ?w" "w_ctxs w1 = w_ctxs ?w" "rs_ctrl rs0 = Some evrtsp_connection_new" "rs_realm rs0 = None"
    "rs_family rs0 = (if 0 \<le> fst (session_connection_setup A (session_new d cb) d AF_INET6) then AF_INET6 else AF_INET)"
    by (rule session_make_new)
  have p: "p = 0" "w_next w1 = 2" using m(1,3) by (simp_all add: world_new_def)
  have f: "map_of (w_sessions w1) p = Some rs0" "w_dangling w1 = []" using m(2,5) by (simp_all add: world_new_def)
  obtain rs q cn w2 where r: "sequence_start E A AIRPLAY_SEQ_START p Arg_null w1 = Inr w2"
    "map_of (w_sessions w2) p = Some rs" "rs_family rs = rs_family rs0" "rq_id q = w_next w1" "rq_response_code q = 0"
    "rs_ctrl rs = Some cn" "cn_requests cn = [q]" "w_devices w2 = w_devices w1"
    "\<forall>j. j \<noteq> p \<longrightarrow> map_of (w_sessions w2) j = map_of (w_sessions w1) j"
    "if an_dial A (w_next w1) = Connect_started
     then waits Ev_connect cn \<and> w_dangling w2 = [] \<and> w_ctxs w2 = (w_next w1, start_ctx p) # w_ctxs w1
     else w_dangling w2 = [w_next w1] \<and> rs_deferred rs"
    by (rule start_request [OF f(1) m(7,8) f(2), of E A])
  have "airplay_step readln E A (Device_start i cb) ?w = Inr w2"
    using assms(1) make r(1) by (simp add: on_device_def airplay_device_start_def world_new_def)
  then show thesis
    by (rule that [where rs = rs and q = q and cn = cn]) (use r(2-7,10) m(6,9) p v6 in \<open>simp_all add: world_new_def\<close>)
qed

text \<open>A device that refuses the connection, or does not answer in time. The session of a device with an IPv4
  address is started; the connection attempt ends with an error. The callback of the waiting request frees the
  session with its connection, and \<open>evrtsp_connectioncb\<close> goes on with the queue of the freed connection.\<close>

lemma refused_start_uses_freed:
  assumes "outputs_device_get devices i = Some d" and "dv_v6_address d = None" and "dv_v4_address d = Some a"
    and "an_pton A AF_INET a = Some n" and "an_dial A 2 = Connect_started"
    and "r = Connect_refused \<or> r = Connect_timeout" and "2 \<le> an_rounds B"
  shows "\<exists>w :: 'e world. airplay_step readln E A (Device_start i cb) (world_new devices) = Inr w
     \<and> possible (Connection_event 0 (Connection r)) w
     \<and> airplay_step readln E B (Connection_event 0 (Connection r)) w = Inl Freed"
proof -
  obtain rs q cn and w :: "'e world" where w: "airplay_step readln E A (Device_start i cb) (world_new devices) = Inr w"
    "map_of (w_sessions w) 0 = Some rs" "rs_family rs = AF_INET" "rq_id q = 2" "rq_response_code q = 0"
    "rs_ctrl rs = Some cn" "cn_requests cn = [q]"
    "if an_dial A 2 = Connect_started
     then waits Ev_connect cn \<and> w_dangling w = [] \<and> w_ctxs w = [(2, start_ctx 0)]
     else w_dangling w = [2] \<and> rs_deferred rs"
    by (rule start_by_ipv4 [OF assms(1-4)])
  have "connection_event readln E B 0 (Connection r) w = Inl Freed"
    by (rule failing_callback_uses_freed [where rs = rs and cn = cn and q = q and qs = "[]" and rest = "[]"])
      (use w assms(5-7) in \<open>auto simp: alive_map_of RTSP_OK_def seq_entry_def\<close>)
  moreover have "possible (Connection_event 0 (Connection r)) w" using w assms(5) by simp
  ultimately show ?thesis using w(1) by auto
qed

text \<open>C17: A connection attempt that fails at once. The request that could not be made has been freed, but stays in the
  queue of the connection; when the timer that cleans up the failed session fires, it is freed again.\<close>

theorem failed_start_uses_freed:
  assumes "outputs_device_get devices i = Some d" and "dv_v6_address d = None" and "dv_v4_address d = Some a"
    and "an_pton A AF_INET a = Some n" and "an_dial A 2 \<noteq> Connect_started"
  shows "\<exists>w :: 'e world. airplay_step readln E A (Device_start i cb) (world_new devices) = Inr w
     \<and> possible (Deferred 0) w \<and> airplay_step readln E B (Deferred 0) w = Inl Freed"
proof -
  obtain rs q cn and w :: "'e world" where w: "airplay_step readln E A (Device_start i cb) (world_new devices) = Inr w"
    "map_of (w_sessions w) 0 = Some rs" "rs_family rs = AF_INET" "rq_id q = 2" "rq_response_code q = 0"
    "rs_ctrl rs = Some cn" "cn_requests cn = [q]"
    "if an_dial A 2 = Connect_started
     then waits Ev_connect cn \<and> w_dangling w = [] \<and> w_ctxs w = [(2, start_ctx 0)]
     else w_dangling w = [2] \<and> rs_deferred rs"
    by (rule start_by_ipv4 [OF assms(1-4)])
  have a: "alive w 0" using w(2) by (auto simp: alive_map_of)
  have get: "session_get 0 (session_put 0 s v) = Inr s" if "alive v 0" for s and v :: "'e world"
    using that by (simp add: session_get_def put_map_of)
  have d: "dangles v c" if "w_dangling v = [2]" "cn_requests c = [q]" for v :: "'e world" and c :: "cipher_ctx connection"
    using that w(4) by (simp add: dangles_def)
  have st: "alive (v\<lparr>w_status := l\<rparr>) 0 = alive v 0" for v :: "'e world" and l by (simp add: alive_def)
  have "session_failure 0 w = Inl Freed"
    using a w(6-8) assms(5) d
    by (simp add: session_failure_def session_modify_def session_status_def session_cleanup_def session_free_def get st Let_def
        session_get_def [of 0 w] w(2) put_map_of)
  then show ?thesis using w assms(5) by (auto simp: deferred_session_failure_cb_def)
qed

text \<open>The second attempt of a failed start. When the start of a session over IPv6 fails, \<open>start_retry\<close> marks the
  device as one to be reached without IPv6 and starts it again; but the new session takes the IPv6 address once more,
  for as long as the device has one that can be used: the mark is not looked at.\<close>

lemma start_retry_uses_ipv6_again:
  assumes "w_dangling w = []" and "map_of (w_sessions w) p = Some rs" and "p < w_next w"
    and "rs_family rs = AF_INET6" and "\<not> is_failed (rs_state rs)"
    and "outputs_device_get (w_devices w) (rs_device_id rs) = Some d"
    and "dv_v6_address d = Some a" and "37 \<notin> set a" and "an_pton A AF_INET6 a = Some n"
  shows "\<exists>w1 rs1 d1. start_retry E A p w = Inr w1 \<and> map_of (w_sessions w1) p = None
     \<and> outputs_device_get (w_devices w1) (rs_device_id rs) = Some d1 \<and> dv_v6_disabled d1
     \<and> map_of (w_sessions w1) (w_next w) = Some rs1 \<and> rs_family rs1 = AF_INET6"
proof -
  let ?w = "w\<lparr>w_devices := device_update (rs_device_id rs) (\<lambda>d. d\<lparr>dv_v6_disabled := True\<rparr>) (w_devices w)\<rparr>"
  obtain w1 where w1: "session_cleanup p ?w = Inr w1" "w_sessions w1 = filter (\<lambda>(q, s). q \<noteq> p) (w_sessions w)" "w_next w1 = w_next w"
    "w_devices w1 = outputs_device_session_remove (rs_device_id rs) (w_devices ?w)" "w_dangling w1 = []"
    using cleanup_Inr [of ?w p rs] assms(1,2) by auto
  let ?d = "d\<lparr>dv_v6_disabled := True, dv_session := None\<rparr>"
  have d: "outputs_device_get (w_devices w1) (rs_device_id rs) = Some ?d"
    using assms(6) by (simp add: w1(4) outputs_device_session_remove_def device_get_update)
  have plain: "dropWhile (\<lambda>c. c \<noteq> 37) a = []" "takeWhile (\<lambda>c. c \<noteq> 37) a = a"
    using assms(8) by (auto simp: takeWhile_eq_all_conv dropWhile_eq_Nil_conv)
  have "split_interface a = (a, None)" unfolding split_interface_def plain list.case ..
  then have v6: "0 \<le> fst (session_connection_setup A (session_new ?d (rs_callback_id rs)) ?d AF_INET6)"
    by (simp add: session_connection_setup_def assms(7,9) Let_def)
  then obtain p' w2 where make: "session_make A ?d (rs_callback_id rs) w1 = (Some p', w2)" using session_make_Some by blast
  then obtain rs0 where m: "p' = w_next w1" "w_sessions w2 = (p', rs0) # w_sessions w1" "w_next w2 = p' + 2"
    "w_devices w2 = w_devices w1" "w_dangling w2 = w_dangling w1" "w_ctxs w2 = w_ctxs w1"
    "rs_ctrl rs0 = Some evrtsp_connection_new" "rs_realm rs0 = None"
    "rs_family rs0 = (if 0 \<le> fst (session_connection_setup A (session_new ?d (rs_callback_id rs)) ?d AF_INET6) then AF_INET6 else AF_INET)"
    by (rule session_make_new)
  have f: "map_of (w_sessions w2) p' = Some rs0" "w_dangling w2 = []" using m(2,5) w1(5) by simp_all
  obtain rs1 q cn w3 where r: "sequence_start E A AIRPLAY_SEQ_START p' Arg_null w2 = Inr w3"
    "map_of (w_sessions w3) p' = Some rs1" "rs_family rs1 = rs_family rs0" "w_devices w3 = w_devices w2"
    "\<forall>j. j \<noteq> p' \<longrightarrow> map_of (w_sessions w3) j = map_of (w_sessions w2) j"
    by (rule start_request [OF f(1) m(7,8) f(2), of E A])
  have "start_retry E A p w = Inr w3"
    using assms(2,4-6) w1(1) d make r(1) by (simp add: start_retry_def session_get_def airplay_device_start_def)
  moreover have "p \<noteq> p'" using assms(3) m(1) w1(3) by simp
  then have "map_of (w_sessions w3) p = None" using r(5) m(2) w1(2) by (auto simp: map_of_eq_None_iff)
  moreover have "map_of (w_sessions w3) (w_next w) = Some rs1" using r(2) m(1) w1(3) by simp
  ultimately show ?thesis using r(3,4) m(4,9) d v6 by auto
qed

end
