(* ===== verification/Misc_Properties.thy ===== *)
theory Misc_Properties
  imports Misc "HOL-Library.Multiset"
begin

text \<open>
  What the functions of \<open>src/misc.c\<close> promise: numbers that are printed are read again (and where the
  reading goes wrong), the ring buffer is a bounded queue of bytes, and sorting the key/value list.
\<close>

subsection \<open>Numbers\<close>

lemma digit_val_dec: "48 \<le> c \<Longrightarrow> c \<le> 57 \<Longrightarrow> digit_val 10 c = Some (uint c - 48)"
  by (simp add: digit_val_def hex_digit_def word_le_def)

lemma uint_digit: "48 \<le> c \<Longrightarrow> uint (c - 48 :: u8) = uint c - 48"
  by (simp add: word_le_def uint_sub_if')

lemma digits_value_dec:
  "(\<And>c. c \<in> set ds \<Longrightarrow> 48 \<le> c \<and> c \<le> 57) \<Longrightarrow> foldl (\<lambda>n c. 10 * n + the (digit_val 10 c)) n ds = scan_digits n ds"
  by (induction ds arbitrary: n) (simp_all add: digit_val_dec uint_digit)

lemma digits_value_dec_digits: "digits_value 10 (dec_digits n) = int n"
  using digits_value_dec [of "dec_digits n" 0] scan_dec_digits [of n] dec_digits_range [of _ n]
  by (simp add: digits_value_def)

lemma takeWhile_dec_digits: "takeWhile (\<lambda>c. digit_val 10 c \<noteq> None) (dec_digits n) = dec_digits n"
  by (subst takeWhile_eq_all_conv) (use dec_digits_range [of _ n] digit_val_dec in fastforce)

lemma number_prefix_10 [simp]: "number_prefix 10 s = s"
  by (simp add: number_prefix_def split: list.split)

lemma scan_number_print:
  "scan_number 10 (print_int v) = Some (v < 0, \<bar>v\<bar>)"
proof (cases "v < 0")
  case True
  have "\<not> is_space 45" by (simp add: is_space_def)
  then show ?thesis using True
    by (simp add: scan_number_def print_int_def number_sign_def takeWhile_dec_digits digits_value_dec_digits Let_def
      del: not_None_eq)
next
  case False
  obtain c cs where d: "dec_digits (nat v) = c # cs" by (cases "dec_digits (nat v)") simp_all
  then have c: "48 \<le> c" "c \<le> 57" using dec_digits_range [of c "nat v"] by simp_all
  then have n: "\<not> is_space c" "c \<noteq> 45" "c \<noteq> 43" by (auto simp: is_space_def word_le_nat_alt)
  then have "number_sign (dropWhile is_space (dec_digits (nat v))) = (False, dec_digits (nat v))"
    by (simp add: d number_sign_def)
  then show ?thesis using False
    by (simp add: scan_number_def print_int_def takeWhile_dec_digits digits_value_dec_digits Let_def
      del: not_None_eq)
qed

lemma strto_print:
  "strto_signed 10 (print_int v) = (if - (2 ^ 63) \<le> v \<and> v < 2 ^ 63 then Some v else None)"
  "strto_unsigned 10 (print_int v) = (if - (2 ^ 64) < v \<and> v < 2 ^ 64 then Some (v mod 2 ^ 64) else None)"
  by (auto simp: strto_signed_def strto_unsigned_def scan_number_print Let_def)

text \<open>Numbers that are printed and read. Each conversion gives back every number of its type. But
  \<open>safe_atoi32\<close> does not test the lower limit: a number below the type's range is read as another
  number; and the unsigned ones read some negative numbers as positive ones.\<close>

lemma numbers_read:
  "safe_atoi32 (Some (print_int v)) =
     (if - (2 ^ 31) \<le> v \<and> v < 2 ^ 31 then Some v
      else if - (2 ^ 63) \<le> v \<and> v < 0 then Some ((v + 2 ^ 31) mod 2 ^ 32 - 2 ^ 31) else None)
   \<and> safe_atoi64 (Some (print_int v)) = (if - (2 ^ 63) \<le> v \<and> v < 2 ^ 63 then Some v else None)
   \<and> safe_atou32 (Some (print_int v)) =
     (if 0 \<le> v \<and> v < 2 ^ 32 then Some (word_of_int v)
      else if - (2 ^ 64) < v \<and> v < - (2 ^ 64) + 2 ^ 32 then Some (word_of_int (v + 2 ^ 64)) else None)
   \<and> safe_atou64 (Some (print_int v)) =
     (if 0 \<le> v \<and> v < 2 ^ 64 then Some (word_of_int v)
      else if - (2 ^ 64) < v \<and> v < 0 then Some (word_of_int (v + 2 ^ 64)) else None)"
proof -
  have wrap: "sint (word_of_int v :: u32) = (v + 2 ^ 31) mod 2 ^ 32 - 2 ^ 31"
    by (simp add: sint_sbintrunc' signed_take_bit_eq_take_bit_shift take_bit_eq_mod)
  have neg: "v mod 2 ^ 64 = (if 0 \<le> v then v else v + 2 ^ 64)" if "- (2 ^ 64) < v" "v < 2 ^ 64"
  proof (cases "0 \<le> v")
    case False
    then have "(v + 2 ^ 64) mod 2 ^ 64 = v + 2 ^ 64" using that by (intro mod_pos_pos_trivial) simp_all
    then show ?thesis using False by simp
  qed (use that in simp)
  have same: "(v + 2 ^ 31) mod 2 ^ 32 - 2 ^ 31 = v" if "- (2 ^ 31) \<le> v" "v < 2 ^ 31"
    using that by (subst mod_pos_pos_trivial) simp_all
  show ?thesis
    unfolding safe_atoi32_def safe_atoi64_def safe_atou32_def safe_atou64_def option.case strto_print
    using wrap neg same by (auto split: if_splits)
qed

subsection \<open>The ring buffer\<close>

definition rb_inv :: "ringbuffer \<Rightarrow> bool" where
  "rb_inv b \<longleftrightarrow> length (rb_buffer b) = rb_size b \<and> rb_write_avail b + rb_read_avail b = rb_size b
     \<and> (rb_size b = 0 \<or> rb_read_pos b < rb_size b) \<and> rb_write_pos b = (rb_read_pos b + rb_read_avail b) mod rb_size b"

text \<open>The bytes that wait to be read, in their order.\<close>

definition rb_queue :: "ringbuffer \<Rightarrow> bytes" where
  "rb_queue b = map (\<lambda>i. rb_buffer b ! ((rb_read_pos b + i) mod rb_size b)) [0..<rb_read_avail b]"

lemma length_rb_queue [simp]: "length (rb_queue b) = rb_read_avail b"
  by (simp add: rb_queue_def)

lemma length_copy_at: "n + length src \<le> length buf \<Longrightarrow> length (copy_at n src buf) = length buf"
  by (simp add: copy_at_def)

lemma nth_copy_at:
  "n + length src \<le> length buf \<Longrightarrow> i < length buf \<Longrightarrow>
     copy_at n src buf ! i = (if n \<le> i \<and> i < n + length src then src ! (i - n) else buf ! i)"
  by (auto simp: copy_at_def nth_append)

lemma mod_once: "x < 2 * S \<Longrightarrow> x mod S = (if x < S then x else x - S)" for x S :: nat
  by (auto simp: mod_if le_mod_geq)

lemma mod_apart:
  fixes r i m S :: nat
  assumes "r < S" and "i < m" and "m < S"
  shows "(r + i) mod S \<noteq> (r + m) mod S"
  using assms by (auto simp: mod_once)

text \<open>What a write of \<open>src\<close> leaves in the buffer: its bytes from the write position on, around the end.\<close>

lemma write_bytes:
  fixes S w :: nat
  assumes "length buf = S" and "w < S" and "length src \<le> S"
    and "buf' = (if length src > S - w then copy_at 0 (drop (S - w) src) (copy_at w (take (S - w) src) buf)
                 else copy_at w src buf)"
  shows "length buf' = S"
    and "j < length src \<Longrightarrow> buf' ! ((w + j) mod S) = src ! j"
    and "k < S \<Longrightarrow> (\<And>j. j < length src \<Longrightarrow> k \<noteq> (w + j) mod S) \<Longrightarrow> buf' ! k = buf ! k"
proof -
  have nth: "buf' ! k = (if w \<le> k \<and> k < w + length src then src ! (k - w)
        else if k + S < w + length src then src ! (k + (S - w)) else buf ! k)" if "k < S" for k
    using assms that by (auto simp: nth_copy_at length_copy_at add.commute)
  show "length buf' = S" using assms by (auto simp: length_copy_at)
  show "buf' ! ((w + j) mod S) = src ! j" if "j < length src"
    using assms that by (subst nth) (auto simp: mod_once)
  show "buf' ! k = buf ! k" if k: "k < S" "\<And>j. j < length src \<Longrightarrow> k \<noteq> (w + j) mod S"
  proof -
    have "\<not> (w \<le> k \<and> k < w + length src)"
    proof
      assume "w \<le> k \<and> k < w + length src"
      then have "k - w < length src" "w + (k - w) = k" by linarith+
      then show False using k(2) [of "k - w"] k(1) by simp
    qed
    moreover have "\<not> k + S < w + length src"
    proof
      assume "k + S < w + length src"
      then have "k + S - w < length src" "w + (k + S - w) = k + S" using assms(2) by linarith+
      then show False using k(2) [of "k + S - w"] k(1) by simp
    qed
    ultimately show ?thesis using nth [OF k(1)] by (auto split: if_splits)
  qed
qed

lemma rb_write_ok:
  assumes "rb_inv b" and "ringbuffer_write b src0 = (n, b')"
  shows "rb_inv b' \<and> rb_size b' = rb_size b \<and> n = min (length src0) (rb_write_avail b) \<and> rb_queue b' = rb_queue b @ take n src0"
proof (cases "rb_write_avail b = 0 \<or> src0 = []")
  case True
  then show ?thesis using assms by (auto simp: ringbuffer_write_def)
next
  case False
  let ?S = "rb_size b" and ?w = "rb_write_pos b" and ?r = "rb_read_pos b" and ?a = "rb_read_avail b"
  let ?src = "take (rb_write_avail b) src0"
  let ?buf = "if length ?src > ?S - ?w
              then copy_at 0 (drop (?S - ?w) ?src) (copy_at ?w (take (?S - ?w) ?src) (rb_buffer b))
              else copy_at ?w ?src (rb_buffer b)"
  have inv: "length (rb_buffer b) = ?S" "rb_write_avail b + ?a = ?S" "?r < ?S" "?w = (?r + ?a) mod ?S" "0 < ?S"
    using assms(1) False by (auto simp: rb_inv_def)
  then have w: "?w < ?S" "length ?src \<le> ?S" by simp_all
  note bytes = write_bytes [OF inv(1) w, of ?buf, OF refl]
  have b': "b' = b\<lparr>rb_buffer := ?buf, rb_write_pos := (?w + length ?src) mod ?S,
      rb_write_avail := rb_write_avail b - length ?src, rb_read_avail := ?a + length ?src\<rparr>" "n = length ?src"
    using assms(2) False by (auto simp: ringbuffer_write_def Let_def)
  have old: "?buf ! ((?r + i) mod ?S) = rb_buffer b ! ((?r + i) mod ?S)" if "i < ?a" for i
  proof (rule bytes(3))
    show "(?r + i) mod ?S \<noteq> (?w + j) mod ?S" if j: "j < length ?src" for j
      using mod_apart [of ?r ?S i "?a + j"] that \<open>i < ?a\<close> inv by (simp add: mod_add_left_eq add.assoc)
  qed (use inv in simp)
  have new: "?buf ! ((?r + (?a + j)) mod ?S) = ?src ! j" if "j < length ?src" for j
    using bytes(2) [OF that] inv(4) by (simp add: mod_add_left_eq add.assoc)
  define buf src where "buf = ?buf" and "src = ?src"
  have q: "rb_queue b' = map (\<lambda>i. buf ! ((?r + i) mod ?S)) [0..<?a + length src]"
    by (simp add: b' rb_queue_def buf_def src_def)
  have "rb_queue b' = rb_queue b @ src"
    unfolding q
  proof (rule nth_equalityI)
    fix i assume i: "i < length (map (\<lambda>i. buf ! ((?r + i) mod ?S)) [0..<?a + length src])"
    show "map (\<lambda>i. buf ! ((?r + i) mod ?S)) [0..<?a + length src] ! i = (rb_queue b @ src) ! i"
    proof (cases "i < ?a")
      case True
      then show ?thesis using old [of i, folded buf_def] by (simp add: nth_append rb_queue_def)
    next
      case False
      then show ?thesis using i new [of "i - ?a", folded buf_def src_def] by (simp add: nth_append)
    qed
  qed simp
  moreover have "rb_inv b'"
    using inv bytes(1) by (auto simp: b' rb_inv_def mod_add_left_eq add.assoc)
  moreover have "take n src0 = src" by (simp add: b'(2) src_def min_def)
  ultimately show ?thesis by (simp add: b')
qed

lemma rb_read_ok:
  assumes "rb_inv b" and "ringbuffer_read k b = (out, b')"
  shows "rb_inv b' \<and> rb_size b' = rb_size b \<and> rb_queue b = out @ rb_queue b' \<and> length out \<le> k
    \<and> (out = [] \<longrightarrow> k = 0 \<or> rb_queue b = [])"
proof (cases "rb_read_avail b = 0 \<or> k = 0")
  case True
  then show ?thesis using assms by (auto simp: ringbuffer_read_def rb_queue_def)
next
  case False
  let ?S = "rb_size b" and ?r = "rb_read_pos b" and ?a = "rb_read_avail b"
  define n where "n = min (min k (?S - ?r)) ?a"
  have inv: "length (rb_buffer b) = ?S" "rb_write_avail b + ?a = ?S" "?r < ?S" "rb_write_pos b = (?r + ?a) mod ?S"
    using assms(1) False by (auto simp: rb_inv_def)
  have n: "n \<le> ?S - ?r" "n \<le> ?a" "n \<le> k" "n \<noteq> 0" using False inv(3) by (auto simp: n_def)
  have b': "out = take n (drop ?r (rb_buffer b))" "b' = b\<lparr>rb_read_pos := (?r + n) mod ?S,
      rb_write_avail := rb_write_avail b + n, rb_read_avail := ?a - n\<rparr>"
    using assms(2) False by (auto simp: ringbuffer_read_def Let_def n_def)
  have len: "length out = n" using inv n by (simp add: b')
  have "rb_queue b = out @ rb_queue b'"
  proof (rule nth_equalityI)
    fix i assume i: "i < length (rb_queue b)"
    show "rb_queue b ! i = (out @ rb_queue b') ! i"
    proof (cases "i < n")
      case True
      then have "?r + i < ?S" using inv n by linarith
      then show ?thesis using True inv len i by (simp add: nth_append b' rb_queue_def)
    next
      case False
      then obtain m where m: "i = n + m" by (metis le_Suc_ex not_less)
      then have "m < ?a - n" using i by simp
      then have "rb_queue b' ! m = rb_buffer b ! (((?r + n) mod ?S + m) mod ?S)"
        unfolding rb_queue_def by (subst nth_map_upt) (simp_all add: b')
      then show ?thesis using i m by (simp add: nth_append len rb_queue_def [of b] mod_add_left_eq add.assoc)
    qed
  qed (use n in \<open>simp add: len\<close>, simp add: b')
  moreover have "((?r + n) mod ?S + (?a - n)) mod ?S = (?r + ?a) mod ?S"
    unfolding mod_add_left_eq using n by simp
  then have "rb_inv b'"
    using inv n by (auto simp: b' rb_inv_def)
  moreover have "out \<noteq> []" using len n by auto
  ultimately show ?thesis using len n by (simp add: b')
qed

text \<open>A sequence of writes and reads: the bytes that were taken, those that were given, and the buffer.\<close>

datatype rb_op = Write bytes | Read nat

fun rb_run :: "ringbuffer \<Rightarrow> rb_op list \<Rightarrow> bytes \<times> bytes \<times> ringbuffer" where
  "rb_run b [] = ([], [], b)"
| "rb_run b (Write src # ops) =
     (case ringbuffer_write b src of (n, b1) \<Rightarrow> case rb_run b1 ops of (i, out, b2) \<Rightarrow> (take n src @ i, out, b2))"
| "rb_run b (Read k # ops) =
     (case ringbuffer_read k b of (bs, b1) \<Rightarrow> case rb_run b1 ops of (i, out, b2) \<Rightarrow> (i, bs @ out, b2))"

lemma rb_run_ok:
  "rb_inv b \<Longrightarrow> rb_run b ops = (i, out, b') \<Longrightarrow> rb_inv b' \<and> rb_size b' = rb_size b \<and> rb_queue b @ i = out @ rb_queue b'"
proof (induction ops arbitrary: b i out)
  case (Cons op ops)
  show ?case
  proof (cases op)
    case (Write src)
    obtain n b1 where w: "ringbuffer_write b src = (n, b1)" by fastforce
    obtain i1 where r: "rb_run b1 ops = (i1, out, b')" "i = take n src @ i1"
      using Cons.prems(2) Write w by (auto split: prod.splits)
    show ?thesis using rb_write_ok [OF Cons.prems(1) w] Cons.IH [OF _ r(1)] r(2) by simp
  next
    case (Read k)
    obtain bs b1 where w: "ringbuffer_read k b = (bs, b1)" by fastforce
    obtain o1 where r: "rb_run b1 ops = (i, o1, b')" "out = bs @ o1"
      using Cons.prems(2) Read w by (auto split: prod.splits)
    show ?thesis using rb_read_ok [OF Cons.prems(1) w] Cons.IH [OF _ r(1)] r(2) by simp
  qed
qed simp

text \<open>C18: The ring buffer is a bounded queue. In every sequence of writes and reads of a new buffer the
  bytes that were taken are those that were given, in their order, followed by those that wait; a write
  takes as many bytes as fit, and a read that asks for bytes gets some as long as there are any.\<close>

theorem ringbuffer_is_queue:
  assumes "rb_run (ringbuffer_init mem) ops = (taken, given, b)"
  shows "taken = given @ rb_queue b \<and> length (rb_queue b) \<le> length mem
     \<and> fst (ringbuffer_write b src) = min (length src) (length mem - length (rb_queue b))
     \<and> (fst (ringbuffer_read k b) = [] \<longleftrightarrow> k = 0 \<or> rb_queue b = [])"
proof -
  have "rb_inv (ringbuffer_init mem)" "rb_queue (ringbuffer_init mem) = []" "rb_size (ringbuffer_init mem) = length mem"
    by (auto simp: ringbuffer_init_def rb_inv_def rb_queue_def)
  with rb_run_ok [OF _ assms] have b: "rb_inv b" "taken = given @ rb_queue b" "rb_size b = length mem" by simp_all
  obtain n b1 where w: "ringbuffer_write b src = (n, b1)" by fastforce
  obtain out b2 where r: "ringbuffer_read k b = (out, b2)" by fastforce
  have "out = []" if "k = 0 \<or> rb_queue b = []"
    using that r by (auto simp: ringbuffer_read_def rb_queue_def)
  moreover have "k = 0 \<or> rb_queue b = []" if "out = []"
    using that rb_read_ok [OF b(1) r] by blast
  moreover have "rb_write_avail b = length mem - length (rb_queue b)" "length (rb_queue b) \<le> length mem"
    using b unfolding rb_inv_def length_rb_queue by linarith+
  moreover have "n = min (length src) (rb_write_avail b)" using rb_write_ok [OF b(1) w] by simp
  ultimately show ?thesis using b(2) w r by auto
qed

subsection \<open>Keys and values\<close>

text \<open>Names are compared without case, and each is there once.\<close>

definition kv_inv :: "keyval \<Rightarrow> bool" where
  "kv_inv kv \<longleftrightarrow> distinct (map (\<lambda>(n, v). map to_lower n) kv)"

lemma kv_inv_names: "kv_inv kv \<Longrightarrow> distinct (map fst kv)"
  by (induction kv) (force simp: kv_inv_def)+

lemma keyval_get_None: "keyval_get kv name = None \<longleftrightarrow> map to_lower name \<notin> set (map (\<lambda>(n, v). map to_lower n) kv)"
  by (induction kv name rule: keyval_get.induct) (auto simp: strcasecmp_eq_def)

lemma keyval_get_Some:
  "kv_inv kv \<Longrightarrow> keyval_get kv name = Some v \<longleftrightarrow> (\<exists>n. (n, v) \<in> set kv \<and> strcasecmp_eq n name)"
proof (induction kv name rule: keyval_get.induct)
  case (2 n w kv name)
  have notin: "map to_lower m \<noteq> map to_lower n" if "(m, u) \<in> set kv" for m u
  proof
    assume "map to_lower m = map to_lower n"
    then have "map to_lower n \<in> set (map (\<lambda>(n, v). map to_lower n) kv)"
      using imageI [OF that, of "\<lambda>(n, v). map to_lower n"] by simp
    then show False using 2(2) by (simp add: kv_inv_def)
  qed
  have inv: "kv_inv kv" using 2(2) by (simp add: kv_inv_def)
  show ?case
  proof (cases "strcasecmp_eq n name")
    case True
    then show ?thesis using notin [of _ v] by (auto simp: strcasecmp_eq_def)
  next
    case False
    then show ?thesis using 2(1) [OF False inv] by auto
  qed
qed simp

lemma keyval_get_same:
  assumes "kv_inv kv" and "mset kv' = mset kv"
  shows "keyval_get kv' name = keyval_get kv name"
proof -
  have s: "set kv' = set kv" using assms(2) by (metis set_mset_mset)
  let ?f = "\<lambda>(n, v). map to_lower n"
  have "mset (map ?f kv') = mset (map ?f kv)" using assms(2) by simp
  then have inv: "kv_inv kv'"
    using assms(1) mset_eq_imp_distinct_iff unfolding kv_inv_def by blast
  have "keyval_get kv' name = Some v \<longleftrightarrow> keyval_get kv name = Some v" for v
    unfolding keyval_get_Some [OF assms(1)] keyval_get_Some [OF inv] s by simp
  then show ?thesis by (metis not_None_eq)
qed

lemma sort_next_None: "sort_next kv name = None \<Longrightarrow> t \<in> set kv \<Longrightarrow> \<not> name < fst t"
proof -
  let ?f = "\<lambda>s best. if strcmp (fst s) name > 0
        \<and> (case best of None \<Rightarrow> True | Some t \<Rightarrow> strcmp (fst s) (fst t) < 0) then Some s else best"
  have keep: "fold ?f kv best \<noteq> None" if "best \<noteq> None" for best :: "(bytes \<times> bytes) option" and kv :: keyval
    using that by (induction kv arbitrary: best) auto
  show "sort_next kv name = None \<Longrightarrow> t \<in> set kv \<Longrightarrow> \<not> name < fst t"
    unfolding sort_next_def
  proof (induction kv)
    case (Cons s kv)
    show ?case
    proof (cases "strcmp (fst s) name > 0")
      case True
      then show ?thesis using Cons.prems(1) keep [of "Some s" kv] by simp
    next
      case False
      then show ?thesis using Cons by (auto simp: strcmp_greater)
    qed
  qed simp
qed

lemma sort_chain_ok:
  assumes "distinct (map fst kv)" and "okv \<in> set kv"
  shows "set (sort_chain kv okv) = {t \<in> set kv. fst okv \<le> fst t} \<and> sorted_wrt (<) (map fst (sort_chain kv okv))"
  using assms
proof (induction kv okv rule: sort_chain.induct)
  case (1 kv okv)
  have same: "t = okv" if "t \<in> set kv" "fst t = fst okv" for t
    using 1(2,3) that by (metis distinct_map inj_onD)
  show ?case
  proof (cases "sort_next kv (fst okv)")
    case None
    have "t = okv" if "t \<in> set kv" "fst okv \<le> fst t" for t
      using that sort_next_None [OF None that(1)] same [OF that(1)] by (metis less_le)
    then have "{t \<in> set kv. fst okv \<le> fst t} = {okv}" using 1(3) by blast
    then show ?thesis by (simp add: sort_chain.simps [of kv okv] None)
  next
    case (Some s)
    note s = sort_next_Some [OF Some]
    with 1(1) [OF Some 1(2)] have IH: "set (sort_chain kv s) = {t \<in> set kv. fst s \<le> fst t}"
      "sorted_wrt (<) (map fst (sort_chain kv s))" by simp_all
    have later: "t \<in> insert okv {t \<in> set kv. fst s \<le> fst t}" if "t \<in> set kv" "fst okv \<le> fst t" for t
      using that s same [OF that(1)] by (metis (mono_tags, lifting) insertCI less_le mem_Collect_eq)
    have le: "fst okv \<le> fst t" if "fst s \<le> fst t" for t
      using that s by (metis less_imp_le order_trans)
    have "{t \<in> set kv. fst okv \<le> fst t} = insert okv {t \<in> set kv. fst s \<le> fst t}"
      using later le 1(3) by blast
    moreover have "fst okv < n" if "n \<in> fst ` set (sort_chain kv s)" for n
      using that s IH(1) by (metis (no_types, lifting) imageE less_le_trans mem_Collect_eq)
    ultimately show ?thesis
      using IH by (simp add: sort_chain.simps [of kv okv] Some)
  qed
qed

lemma sort_head:
  "fold (\<lambda>okv head. if strcmp (fst okv) (fst head) < 0 then okv else head) kv h = m \<Longrightarrow>
     (m \<in> set kv \<or> m = h) \<and> fst m \<le> fst h \<and> (\<forall>t \<in> set kv. fst m \<le> fst t)"
proof (induction kv arbitrary: h)
  case (Cons s kv)
  let ?h = "if strcmp (fst s) (fst h) < 0 then s else h"
  have h: "fst ?h \<le> fst s" "fst ?h \<le> fst h"
    using strcmp_less [of "fst s" "fst h"] by (cases "fst s < fst h"; simp add: less_imp_le)+
  have "fold (\<lambda>okv head. if strcmp (fst okv) (fst head) < 0 then okv else head) kv ?h = m"
    using Cons.prems by simp
  note m = Cons.IH [OF this]
  then have "fst m \<le> fst s" "fst m \<le> fst h" using h by (metis order_trans)+
  moreover have "m \<in> set (s # kv) \<or> m = h" using m by (metis list.set_intros)
  ultimately show ?case using m by simp
qed simp

text \<open>The key/value list. Adding keeps names unique without regard to case: a name that is there
  keeps its value, and adding it again succeeds only with the same value. Sorting then only reorders
  the list: it is sorted by name, no pair is lost, and every lookup finds what it found before.\<close>

lemma keyval_add_sort:
  assumes "kv_inv kv" and "0 \<notin> set value"
  shows "\<exists>ret kv'. keyval_add kv name value = Inr (ret, kv') \<and> kv_inv kv'
     \<and> keyval_get kv' key = (if strcasecmp_eq name key \<and> keyval_get kv name = None then Some value else keyval_get kv key)
     \<and> (ret = 0 \<longleftrightarrow> keyval_get kv' name = Some value)
     \<and> mset (keyval_sort kv') = mset kv' \<and> sorted_wrt (<) (map fst (keyval_sort kv'))
     \<and> keyval_get (keyval_sort kv') key = keyval_get kv' key"
proof -
  define kv' where "kv' = (if keyval_get kv name = None then kv @ [(name, value)] else kv)"
  define ret :: int where "ret = (if keyval_get kv name = None \<or> keyval_get kv name = Some value then 0 else -1)"
  have add: "keyval_add kv name value = Inr (ret, kv')"
    using assms(2) by (auto simp: keyval_add_def keyval_add_size_def kv'_def ret_def c_string_no_zero split: option.split)
  have inv: "kv_inv kv'"
    using assms(1) keyval_get_None [of kv name] by (auto simp: kv'_def kv_inv_def)
  have app: "keyval_get (kv @ [(name, value)]) k = (case keyval_get kv k of None \<Rightarrow>
      if strcasecmp_eq name k then Some value else None | Some v \<Rightarrow> Some v)" for k
    by (induction kv k rule: keyval_get.induct) (auto simp: strcasecmp_eq_def)
  have eq: "keyval_get kv k = keyval_get kv name" if "strcasecmp_eq name k" for k
    using that by (induction kv k rule: keyval_get.induct) (auto simp: strcasecmp_eq_def)
  have get: "keyval_get kv' k = (if strcasecmp_eq name k \<and> keyval_get kv name = None then Some value else keyval_get kv k)" for k
    using eq [of k] by (auto simp: kv'_def app split: option.split)
  have sort: "mset (keyval_sort kv') = mset kv' \<and> sorted_wrt (<) (map fst (keyval_sort kv'))"
  proof (cases kv')
    case (Cons h r)
    obtain m where m: "fold (\<lambda>okv head. if strcmp (fst okv) (fst head) < 0 then okv else head) kv' h = m" by simp
    note head = sort_head [OF m]
    have ks: "keyval_sort kv' = sort_chain kv' m" using m by (simp add: keyval_sort_def Cons)
    have "m \<in> set kv'" using head by (auto simp: Cons)
    note chain = sort_chain_ok [OF kv_inv_names [OF inv] this]
    have "distinct (keyval_sort kv')" "distinct kv'"
      using chain inv kv_inv_names [OF inv] by (auto simp: ks distinct_map strict_sorted_iff)
    moreover have "set (keyval_sort kv') = set kv'" using chain head by (auto simp: ks)
    ultimately show ?thesis using chain by (simp add: ks set_eq_iff_mset_eq_distinct)
  qed (simp add: keyval_sort_def)
  show ?thesis
  proof (intro exI conjI)
    show "ret = 0 \<longleftrightarrow> keyval_get kv' name = Some value"
      by (auto simp: ret_def get strcasecmp_eq_def)
    show "keyval_get (keyval_sort kv') key = keyval_get kv' key"
      by (rule keyval_get_same [OF inv]) (use sort in simp)
  qed (use add inv get sort in simp_all)
qed

end
