(* ===== verification/Airplay_World_Samples.thy ===== *)
theory Airplay_World_Samples
  imports Airplay_Failures Misc_Properties Rtsp_Samples Airplay_Samples
begin

text \<open>
  The theorems on the sessions of the AirPlay output and on the helpers of \<open>misc.c\<close> that have hypotheses,
  each applied to a concrete input at which they hold.
\<close>

text \<open>Property lists that are numbers.\<close>

definition sample_plist :: "u64 plist_lib" where
  "sample_plist = \<lparr>pl_uint = (\<lambda>n. n), pl_string = (\<lambda>s. 0), pl_bool = (\<lambda>b. 0), pl_data = (\<lambda>s. 0), pl_dict = (\<lambda>d. 0),
     pl_array = (\<lambda>a. 0), pl_to_bin = (\<lambda>p. Some [7]), pl_from_bin = (\<lambda>bs. Some 0), pl_dict_get_item = (\<lambda>p k. None),
     pl_array_get_item = (\<lambda>p n. None), pl_get_uint_val = (\<lambda>p. p)\<rparr>"

definition sample_env :: "u64 airplay_env" where
  "sample_env = \<lparr>ae_table = sample_table, ae_crypto = sample_crypto, ae_md5 = (\<lambda>s. Some (replicate 16 0)),
     ae_plist = sample_plist, ae_user_agent = None, ae_client_name = str ''player'', ae_libhash = 5, ae_device_id = 6,
     ae_timing_port = 7, ae_control_port = 8, ae_volume = (\<lambda>v name. str ''-15.0'')\<rparr>"

definition sample_answers :: "dial \<Rightarrow> answers" where
  "sample_answers d = \<lparr>an_dial = (\<lambda>i. d), an_local = Some (str ''10.0.0.2'', 5000, AF_INET), an_uuid = replicate 36 65,
     an_session_id = 77, an_udp = 9, an_rand = sample_rand 3, an_mem = replicate 24 0, an_pton = (\<lambda>f a. Some (replicate 4 1)),
     an_interface = (\<lambda>i. True), an_rtp = (1, 2, 3), an_rawbuf = [], an_rounds = 2\<rparr>"

definition sample_device :: "bytes option \<Rightarrow> output_device" where
  "sample_device v6 = \<lparr>dv_addr = 100, dv_id = 1, dv_name = str ''kitchen'', dv_state = OUTPUT_STATE_STOPPED, dv_selected = True,
     dv_advertised = True, dv_has_password = False, dv_requires_auth = False, dv_v6_disabled = False,
     dv_prevent_playback = False, dv_busy = False, dv_resurrect = False, dv_password = None, dv_auth_key = None,
     dv_volume = 50, dv_relvol = 0, dv_quality = sample_quality, dv_v4_address = Some (str ''10.0.0.9''), dv_v6_address = v6,
     dv_v4_port = 7000, dv_v6_port = 7000, dv_stop_timer = False,
     dv_extra = \<lparr>ex_devtype = AIRPLAY_DEV_OTHER, ex_mdns_name = str ''kitchen'', ex_wanted_metadata = 0,
       ex_supports_auth_setup = False, ex_supports_pairing_transient = True\<rparr>, dv_session = None\<rparr>"

text \<open>Running events that are possible.\<close>

fun can_happen :: "airplay_event \<Rightarrow> 'e world \<Rightarrow> bool" where
  "can_happen (Device_start i cb) w = True"
| "can_happen (Connection_event p ev) w =
     (case map_of (w_sessions w) p of
        None \<Rightarrow> False
      | Some rs \<Rightarrow> (case rs_ctrl rs of
          None \<Rightarrow> False
        | Some cn \<Rightarrow> enabled ev cn \<and> (case ev of Request r ty u \<Rightarrow> False | Set_closecb b \<Rightarrow> False | Set_ciphercb k \<Rightarrow> False | _ \<Rightarrow> True)))"
| "can_happen _ w = False"

lemma can_happen_possible: "can_happen e w \<Longrightarrow> possible e w"
  by (cases e) (auto split: option.splits)

fun run_events :: "readln \<Rightarrow> 'p airplay_env \<Rightarrow> 'e world \<Rightarrow> (answers \<times> airplay_event) list \<Rightarrow> 'e world option" where
  "run_events readln E w [] = Some w"
| "run_events readln E w ((A, e) # es) =
     (if can_happen e w then (case airplay_step readln E A e w of Inl f \<Rightarrow> None | Inr w1 \<Rightarrow> run_events readln E w1 es) else None)"

lemma run_events_run: "run_events readln E w es = Some w' \<Longrightarrow> airplay_run readln E w es w'"
  by (induction readln E w es arbitrary: w' rule: run_events.induct)
    (auto intro: airplay_run.intros can_happen_possible split: if_splits sum.splits)

text \<open>The device is started, the connection comes about, and the first request is sent.\<close>

definition sample_events :: "(answers \<times> airplay_event) list" where
  "sample_events = map (\<lambda>e. (sample_answers Connect_started, e))
     [Device_start 1 7, Connection_event 0 (Connection Connected), Connection_event 0 (Writable (Some 1000))]"

definition sample_shape :: "'e world \<Rightarrow> (nat \<times> (evrtsp_connection_state \<times> nat list) option) list" where
  "sample_shape w = map (\<lambda>(p, rs). (p, map_option (\<lambda>cn. (cn_state cn, map rq_id (cn_requests cn))) (rs_ctrl rs))) (w_sessions w)"

lemma sample_events_run:
  "map_option sample_shape (run_events sample_readln sample_env (world_new [sample_device None] :: unit world) sample_events)
     = Some [(0, Some (EVCON_READING_FIRSTLINE, [2]))]"
  by code_simp

lemma sample_devices: "devices_ok [sample_device a]"
  by (simp add: devices_ok_def sample_device_def)

lemma sample_get: "outputs_device_get [sample_device a] 1 = Some (sample_device a)"
  by (simp add: sample_device_def)


theorem refused_start_uses_freed_witness:
  "\<exists>w :: unit world. airplay_step sample_readln sample_env (sample_answers Connect_started) (Device_start 1 7) (world_new [sample_device None]) = Inr w
     \<and> possible (Connection_event 0 (Connection Connect_refused)) w
     \<and> airplay_step sample_readln sample_env (sample_answers Connect_started) (Connection_event 0 (Connection Connect_refused)) w = Inl Freed"
  by (rule refused_start_uses_freed [OF sample_get]) (simp_all add: sample_device_def sample_answers_def)

theorem failed_start_uses_freed_witness:
  "\<exists>w :: unit world. airplay_step sample_readln sample_env (sample_answers Connect_failed) (Device_start 1 7) (world_new [sample_device None]) = Inr w
     \<and> possible (Deferred 0) w
     \<and> airplay_step sample_readln sample_env (sample_answers Connect_failed) (Deferred 0) w = Inl Freed"
  by (rule failed_start_uses_freed [OF sample_get]) (simp_all add: sample_device_def sample_answers_def)

text \<open>A session over IPv6.\<close>

definition sample_v6_world :: "unit world" where
  "sample_v6_world = (case session_make (sample_answers Connect_started) (sample_device (Some (str ''fe80::1''))) 7
     (world_new [sample_device (Some (str ''fe80::1''))]) of (p, w) \<Rightarrow> w)"

theorem start_retry_uses_ipv6_again_witness:
  "\<exists>w1 rs1. start_retry sample_env (sample_answers Connect_started) 0 sample_v6_world = Inr w1
     \<and> map_of (w_sessions w1) 2 = Some rs1 \<and> rs_family rs1 = AF_INET6"
proof -
  let ?d = "sample_device (Some (str ''fe80::1''))"
  have "(37 :: u8) \<notin> set (str ''fe80::1'')" by code_simp
  moreover have "map_option (\<lambda>rs. (rs_family rs = AF_INET6, is_failed (rs_state rs), rs_device_id rs = 1)) (map_of (w_sessions sample_v6_world) 0)
      = Some (True, False, True)" "w_dangling sample_v6_world = []" "w_next sample_v6_world = 2"
    by code_simp+
  moreover have "w_devices sample_v6_world = [?d]" by (simp add: sample_v6_world_def session_make_def world_new_def Let_def split: prod.split)
  ultimately show ?thesis
    using start_retry_uses_ipv6_again [of sample_v6_world 0 _ ?d "str ''fe80::1''" "sample_answers Connect_started" "replicate 4 1" sample_env]
    by (auto simp: sample_device_def sample_answers_def)
qed

subsection \<open>Helpers\<close>

definition sample_ops :: "rb_op list" where
  "sample_ops = [Write [1, 2], Read 1, Write [3, 4, 5], Read 1]"

theorem ringbuffer_is_queue_witness:
  "\<exists>b. rb_run (ringbuffer_init [0, 0, 0]) sample_ops = ([1, 2, 3, 4], [1, 2], b) \<and> rb_queue b = [3, 4]"
proof -
  obtain b where b: "rb_run (ringbuffer_init [0, 0, 0]) sample_ops = ([1, 2, 3, 4], [1, 2], b)"
  proof -
    have "fst (rb_run (ringbuffer_init [0, 0, 0]) sample_ops) = [1, 2, 3, 4]"
      "fst (snd (rb_run (ringbuffer_init [0, 0, 0]) sample_ops)) = [1, 2]"
      by code_simp+
    then show thesis using that by (metis prod.collapse)
  qed
  then show ?thesis using ringbuffer_is_queue [OF b] by simp
qed

theorem keyval_add_sort_witness:
  "\<exists>ret kv'. keyval_add [(str ''b'', str ''1'')] (str ''a'') (str ''2'') = Inr (ret, kv')
     \<and> keyval_get kv' (str ''a'') = Some (str ''2'') \<and> sorted_wrt (<) (map fst (keyval_sort kv'))"
proof -
  have "kv_inv [(str ''b'', str ''1'')]" by (simp add: kv_inv_def)
  moreover have "(0 :: u8) \<notin> set (str ''2'')" by code_simp
  moreover have "strcasecmp_eq (str ''a'') (str ''a'')" "keyval_get [(str ''b'', str ''1'')] (str ''a'') = None" by code_simp+
  ultimately show ?thesis
    using keyval_add_sort [of "[(str ''b'', str ''1'')]" "str ''2''" "str ''a''" "str ''a''"] by auto
qed

end
