(* ===== verification/Outputs_Register.thy ===== *)
theory Outputs_Register
  imports Device
begin

text \<open>
  The register of callbacks of \<open>src/outputs.c\<close>: a fixed array of slots, whose index the backends get as the
  number of their callback. A device is compared by its address (0 is the null pointer), a callback of the player
  is a value of any type, and an empty slot is one that is all zero.
\<close>

definition OUTPUTS_MAX_CALLBACKS :: nat where "OUTPUTS_MAX_CALLBACKS = 64"

record 'c slot =
  sl_cb :: "'c option"
  sl_device :: nat
  sl_ready :: bool
  sl_device_id :: u64
  sl_state :: output_device_state

definition slot_zero :: "'c slot" where
  "slot_zero = \<lparr>sl_cb = None, sl_device = 0, sl_ready = False, sl_device_id = 0, sl_state = OUTPUT_STATE_STOPPED\<rparr>"

definition register_new :: "'c slot list" where
  "register_new = replicate OUTPUTS_MAX_CALLBACKS slot_zero"

definition callback_get :: "nat \<Rightarrow> 'c slot list \<Rightarrow> 'c option" where
  "callback_get device register =
     (case find (\<lambda>s. sl_device s = device) register of None \<Rightarrow> None | Some s \<Rightarrow> sl_cb s)"

definition callback_remove :: "nat \<Rightarrow> 'c slot list \<Rightarrow> 'c slot list" where
  "callback_remove device register =
     (if device = 0 then register
      else map (\<lambda>s. if sl_device s = device then slot_zero else s) register)"

text \<open>The index of the first slot without a callback, the number of slots when there is none.\<close>

definition free_slot :: "'c slot list \<Rightarrow> nat" where
  "free_slot register = length (takeWhile (\<lambda>s. sl_cb s \<noteq> None) register)"

definition callback_add :: "nat \<Rightarrow> 'c option \<Rightarrow> 'c slot list \<Rightarrow> int \<times> 'c slot list" where
  "callback_add device cb register =
     (case cb of None \<Rightarrow> (-1, register)
      | Some f \<Rightarrow>
          let register1 = callback_remove device register; i = free_slot register1 in
          if i = length register1 then (-1, register1)
          else (int i, register1[i := (register1 ! i)\<lparr>sl_cb := Some f, sl_device := device\<rparr>]))"

text \<open>
  \<open>outputs_cb\<close>: the answer of a backend is kept until the event of \<open>deferred_cb\<close>, which it makes active.
\<close>

definition outputs_cb ::
  "int \<times> u64 \<times> output_device_state \<Rightarrow> 'c slot list \<times> bool \<Rightarrow> 'c slot list \<times> bool" where
  "outputs_cb answer r =
     (case (answer, r) of ((callback_id, device_id, state), (register, active)) \<Rightarrow>
        if callback_id < 0 then r
        else let i = nat callback_id in
          if \<not> i < length register \<or> sl_cb (register ! i) = None then r
          else (register[i := (register ! i)\<lparr>sl_ready := True, sl_device_id := device_id, sl_state := state\<rparr>], True))"

subsection \<open>The invariant\<close>

text \<open>
  A slot without a callback is empty, and no two slots belong to one device.
\<close>

definition register_ok :: "'c slot list \<Rightarrow> bool" where
  "register_ok register \<longleftrightarrow> length register = OUTPUTS_MAX_CALLBACKS
     \<and> (\<forall>s \<in> set register. if sl_cb s = None then s = slot_zero else sl_device s \<noteq> 0)
     \<and> (\<forall>i < length register. \<forall>j < length register. i \<noteq> j \<longrightarrow> sl_device (register ! i) \<noteq> 0
          \<longrightarrow> sl_device (register ! i) \<noteq> sl_device (register ! j))"

lemma slot_zero_simps [simp]:
  "sl_cb slot_zero = None" "sl_device slot_zero = 0" "sl_ready slot_zero = False" "sl_device_id slot_zero = 0"
  "sl_state slot_zero = OUTPUT_STATE_STOPPED"
  by (simp_all add: slot_zero_def)

lemma register_new_ok: "register_ok register_new"
  by (simp add: register_ok_def register_new_def)

lemma register_length: "register_ok register \<Longrightarrow> length register = OUTPUTS_MAX_CALLBACKS"
  by (simp add: register_ok_def)

lemma register_slot: "register_ok register \<Longrightarrow> i < length register
    \<Longrightarrow> (if sl_cb (register ! i) = None then register ! i = slot_zero else sl_device (register ! i) \<noteq> 0)"
  by (simp add: register_ok_def)

lemma register_same: "register_ok register \<Longrightarrow> i < length register \<Longrightarrow> j < length register
    \<Longrightarrow> sl_device (register ! i) = sl_device (register ! j) \<Longrightarrow> sl_device (register ! i) \<noteq> 0 \<Longrightarrow> i = j"
  unfolding register_ok_def by metis

lemma register_okI:
  assumes "length register = OUTPUTS_MAX_CALLBACKS"
    and "\<And>i. i < length register \<Longrightarrow> if sl_cb (register ! i) = None then register ! i = slot_zero else sl_device (register ! i) \<noteq> 0"
    and "\<And>i j. i < length register \<Longrightarrow> j < length register \<Longrightarrow> sl_device (register ! i) = sl_device (register ! j)
      \<Longrightarrow> sl_device (register ! i) \<noteq> 0 \<Longrightarrow> i = j"
  shows "register_ok register"
proof -
  have "\<forall>s \<in> set register. if sl_cb s = None then s = slot_zero else sl_device s \<noteq> 0"
    using assms(2) by (metis in_set_conv_nth)
  then show ?thesis using assms(1,3) unfolding register_ok_def by blast
qed

text \<open>Clearing slots keeps the invariant, and so does an answer and an own slot for a new device.\<close>

lemma register_clear:
  assumes "register_ok register"
  shows "register_ok (map (\<lambda>s. if P s then slot_zero else s) register)"
proof (rule register_okI)
  fix i j
  assume a: "i < length (map (\<lambda>s. if P s then slot_zero else s) register)" "j < length (map (\<lambda>s. if P s then slot_zero else s) register)"
    "sl_device (map (\<lambda>s. if P s then slot_zero else s) register ! i) = sl_device (map (\<lambda>s. if P s then slot_zero else s) register ! j)"
    "sl_device (map (\<lambda>s. if P s then slot_zero else s) register ! i) \<noteq> 0"
  then have "sl_device (register ! i) = sl_device (register ! j)" "sl_device (register ! i) \<noteq> 0" by (simp_all split: if_splits)
  then show "i = j" using register_same [OF assms, of i j] a(1,2) by simp
next
  fix i
  assume "i < length (map (\<lambda>s. if P s then slot_zero else s) register)"
  then show "if sl_cb (map (\<lambda>s. if P s then slot_zero else s) register ! i) = None
      then map (\<lambda>s. if P s then slot_zero else s) register ! i = slot_zero
      else sl_device (map (\<lambda>s. if P s then slot_zero else s) register ! i) \<noteq> 0"
    using register_slot [OF assms, of i] by (simp split: if_splits)
qed (simp add: register_length [OF assms])

lemma callback_remove_ok: "register_ok register \<Longrightarrow> register_ok (callback_remove device register)"
  by (simp add: callback_remove_def register_clear)

lemma callback_remove_length [simp]: "length (callback_remove device register) = length register"
  by (simp add: callback_remove_def)

lemma callback_remove_nth:
  "register_ok register \<Longrightarrow> i < length register
     \<Longrightarrow> callback_remove device register ! i = (if sl_device (register ! i) = device then slot_zero else register ! i)"
  using register_slot [of register i] by (auto simp: callback_remove_def split: if_splits)

lemma register_update:
  assumes "register_ok register" and "i < length register" and "sl_cb s \<noteq> None" and "sl_device s \<noteq> 0"
    and "\<And>j. j < length register \<Longrightarrow> j \<noteq> i \<Longrightarrow> sl_device (register ! j) \<noteq> sl_device s"
  shows "register_ok (register[i := s])"
proof (rule register_okI)
  fix j k
  assume jk: "j < length (register[i := s])" "k < length (register[i := s])"
    and same: "sl_device (register[i := s] ! j) = sl_device (register[i := s] ! k)" "sl_device (register[i := s] ! j) \<noteq> 0"
  show "j = k"
  proof (rule ccontr)
    assume ne: "j \<noteq> k"
    consider "j = i" | "k = i" | "j \<noteq> i" "k \<noteq> i" by blast
    then show False
    proof cases
      case 1
      then show ?thesis using ne same(1) jk assms(2) assms(5) [of k] by (metis length_list_update nth_list_update_eq nth_list_update_neq)
    next
      case 2
      then show ?thesis using ne same(1) jk assms(2) assms(5) [of j] by (metis length_list_update nth_list_update_eq nth_list_update_neq)
    next
      case 3
      then have "sl_device (register ! j) = sl_device (register ! k)" "sl_device (register ! j) \<noteq> 0" using same by simp_all
      then show ?thesis using register_same [OF assms(1)] jk ne by simp
    qed
  qed
next
  fix j
  assume "j < length (register[i := s])"
  then show "if sl_cb (register[i := s] ! j) = None then register[i := s] ! j = slot_zero else sl_device (register[i := s] ! j) \<noteq> 0"
    using assms(2-4) register_slot [OF assms(1), of j] by (cases "i = j") auto
qed (simp add: register_length [OF assms(1)])

lemma register_update_same:
  assumes "register_ok register" and "i < length register" and "sl_cb (register ! i) \<noteq> None" and "sl_cb s \<noteq> None"
    and "sl_device s = sl_device (register ! i)"
  shows "register_ok (register[i := s])"
proof (rule register_update [OF assms(1,2,4)])
  show dev: "sl_device s \<noteq> 0" using register_slot [OF assms(1,2)] assms(3,5) by simp
  show "sl_device (register ! j) \<noteq> sl_device s" if "j < length register" "j \<noteq> i" for j
  proof
    assume e: "sl_device (register ! j) = sl_device s"
    then have "j = i" using register_same [OF assms(1) that(1) assms(2)] dev assms(5) by simp
    then show False using that(2) by simp
  qed
qed

lemma outputs_cb_ok: "register_ok register \<Longrightarrow> register_ok (fst (outputs_cb answer (register, active)))"
  by (cases answer) (simp add: outputs_cb_def Let_def register_update_same)

lemma register_zero:
  assumes "register_ok register"
  shows "register_ok (register[i := slot_zero])"
proof (rule register_okI)
  fix j k
  assume a: "j < length (register[i := slot_zero])" "k < length (register[i := slot_zero])"
    "sl_device (register[i := slot_zero] ! j) = sl_device (register[i := slot_zero] ! k)" "sl_device (register[i := slot_zero] ! j) \<noteq> 0"
  then have "j \<noteq> i" "k \<noteq> i" by auto
  then show "j = k" using a register_same [OF assms, of j k] by simp
next
  fix j
  assume "j < length (register[i := slot_zero])"
  then show "if sl_cb (register[i := slot_zero] ! j) = None then register[i := slot_zero] ! j = slot_zero
      else sl_device (register[i := slot_zero] ! j) \<noteq> 0"
    using register_slot [OF assms, of j] by (cases "i = j") auto
qed (simp add: register_length [OF assms])

subsection \<open>Registering\<close>

lemma free_slot_le: "free_slot register \<le> length register"
  by (simp add: free_slot_def length_takeWhile_le)

lemma free_slot_nth: "free_slot register < length register \<Longrightarrow> sl_cb (register ! free_slot register) = None"
  using nth_length_takeWhile [of "\<lambda>s. sl_cb s \<noteq> None" register] by (simp add: free_slot_def)

lemma free_slot_full: "free_slot register = length register \<longleftrightarrow> (\<forall>s \<in> set register. sl_cb s \<noteq> None)"
proof -
  have "length (takeWhile P xs) = length xs \<longleftrightarrow> (\<forall>x \<in> set xs. P x)" for P and xs :: "'a slot list"
    by (induction xs) auto
  then show ?thesis by (simp add: free_slot_def)
qed

text \<open>
  What a registration is: the slot of the device, waiting for its answer; every slot of another device is as before.
\<close>

lemma callback_add_registers:
  assumes "register_ok register" and "device \<noteq> 0" and "callback_add device (Some f) register = (k, register1)"
  shows "register_ok register1"
    and "\<forall>j < length register. sl_device (register ! j) \<noteq> device \<longrightarrow> sl_cb (register ! j) \<noteq> None \<longrightarrow> register1 ! j = register ! j"
    and "if k < 0 then \<forall>s \<in> set register. sl_cb s \<noteq> None \<and> sl_device s \<noteq> device
         else nat k < length register1 \<and> register1 ! nat k = slot_zero\<lparr>sl_cb := Some f, sl_device := device\<rparr>"
proof -
  let ?r = "callback_remove device register" and ?i = "free_slot (callback_remove device register)"
  let ?s = "slot_zero\<lparr>sl_cb := Some f, sl_device := device\<rparr> :: 'a slot"
  have ok: "register_ok ?r" and len: "length ?r = length register" using assms(1) by (simp_all add: callback_remove_ok)
  note nth = callback_remove_nth [OF assms(1), of _ device]
  have *: "register_ok register1 \<and> (\<forall>j < length register. sl_device (register ! j) \<noteq> device \<longrightarrow> sl_cb (register ! j) \<noteq> None
        \<longrightarrow> register1 ! j = register ! j)
      \<and> (if k < 0 then \<forall>s \<in> set register. sl_cb s \<noteq> None \<and> sl_device s \<noteq> device
         else nat k < length register1 \<and> register1 ! nat k = ?s)"
  proof (cases "?i = length ?r")
    case True
    then have r: "register1 = ?r" "k = -1" using assms(3) by (simp_all add: callback_add_def)
    have "sl_cb (register ! j) \<noteq> None \<and> sl_device (register ! j) \<noteq> device" if "j < length register" for j
      using True [unfolded free_slot_full] nth_mem [of j ?r] that nth [OF that] by (auto split: if_splits)
    then have "\<forall>s \<in> set register. sl_cb s \<noteq> None \<and> sl_device s \<noteq> device" by (metis in_set_conv_nth)
    then show ?thesis using r ok nth by auto
  next
    case False
    then have i: "?i < length ?r" using free_slot_le [of ?r] by simp
    have free: "?r ! ?i = slot_zero" using register_slot [OF ok i] free_slot_nth [OF i] by simp
    have r: "register1 = ?r[?i := ?s]" "k = int ?i" using False assms(3) free by (simp_all add: callback_add_def Let_def)
    have "register_ok register1"
      unfolding r(1) using assms(2) nth by (intro register_update [OF ok i]) auto
    moreover have "register1 ! j = register ! j"
      if j: "j < length register" "sl_device (register ! j) \<noteq> device" "sl_cb (register ! j) \<noteq> None" for j
    proof -
      have "?r ! j = register ! j" using nth j by simp
      then show ?thesis using free j(3) i r(1) by (cases "j = ?i") (auto simp: nth_list_update)
    qed
    ultimately show ?thesis using r i by simp
  qed
  show "register_ok register1" using * by blast
  show "\<forall>j < length register. sl_device (register ! j) \<noteq> device \<longrightarrow> sl_cb (register ! j) \<noteq> None \<longrightarrow> register1 ! j = register ! j"
    using * by blast
  show "if k < 0 then \<forall>s \<in> set register. sl_cb s \<noteq> None \<and> sl_device s \<noteq> device
         else nat k < length register1 \<and> register1 ! nat k = ?s" using * by blast
qed

lemma free_slot_eq:
  assumes "i < length register" and "sl_cb (register ! i) = None" and "\<And>j. j < i \<Longrightarrow> sl_cb (register ! j) \<noteq> None"
  shows "free_slot register = i"
proof -
  have "takeWhile (\<lambda>s. sl_cb s \<noteq> None) register = take i register"
    using assms by (intro takeWhile_eq_take_P_nth) auto
  then show ?thesis using assms(1) by (simp add: free_slot_def)
qed

lemma before_free_slot:
  assumes "j < free_slot register"
  shows "sl_cb (register ! j) \<noteq> None"
proof -
  let ?t = "takeWhile (\<lambda>s. sl_cb s \<noteq> None) register"
  have "?t ! j \<in> set ?t" using assms by (simp add: free_slot_def)
  then have "sl_cb (?t ! j) \<noteq> None" by (blast dest: set_takeWhileD)
  then show ?thesis using assms takeWhile_nth [of j "\<lambda>s. sl_cb s \<noteq> None" register] by (simp add: free_slot_def)
qed

text \<open>A registration that finds a free slot.\<close>

lemma callback_add_eq:
  assumes "register_ok register" and "free_slot (callback_remove device register) = i" and "i < length register"
  shows "callback_add device (Some f) register
    = (int i, (callback_remove device register)[i := slot_zero\<lparr>sl_cb := Some f, sl_device := device\<rparr>])"
proof -
  let ?r = "callback_remove device register"
  have "sl_cb (?r ! i) = None" using assms(2,3) free_slot_nth [of ?r] by simp
  then have "?r ! i = slot_zero" using register_slot [OF callback_remove_ok [OF assms(1)], of i device] assms(3) by simp
  then show ?thesis using assms(2,3) by (simp add: callback_add_def Let_def)
qed

text \<open>Callbacks can cross. A device registers a callback and gets the number \<open>k\<close>, which its session keeps. When it
  registers again after a slot before that one has been emptied, it gets that slot, and another device that
  registers next gets \<open>k\<close>: the answer of the first session is then taken for the answer of the other device.\<close>

lemma callbacks_cross:
  assumes "register_ok register" and "a \<noteq> 0" "b \<noteq> 0" "a \<noteq> b" and "\<forall>s \<in> set register. sl_device s \<noteq> b"
    and "callback_add a (Some f) register = (k, r1)" "0 \<le> k" and "j < nat k"
    and "callback_add a (Some f') (r1[j := slot_zero]) = (k2, r2)" and "callback_add b (Some g) r2 = (k3, r3)"
  shows "k2 = int j \<and> k3 = k \<and> sl_cb (r3 ! nat k) = Some g \<and> sl_device (r3 ! nat k) = b
    \<and> outputs_cb (k, device_id, state) (r3, active)
      = (r3[nat k := (r3 ! nat k)\<lparr>sl_ready := True, sl_device_id := device_id, sl_state := state\<rparr>], True)"
proof -
  let ?r = "callback_remove a register" and ?n = "free_slot (callback_remove a register)"
  let ?s = "\<lambda>f d. slot_zero\<lparr>sl_cb := Some f, sl_device := d\<rparr> :: 'a slot"
  have ok: "register_ok ?r" using assms(1) by (rule callback_remove_ok)
  have "?n \<noteq> length ?r" using assms(6,7) by (auto simp: callback_add_def Let_def split: if_splits)
  then have n: "?n < length register" using free_slot_le [of ?r] by simp
  have r1: "k = int ?n" "r1 = ?r[?n := ?s f a]" using callback_add_eq [OF assms(1) refl n, of f] assms(6) by simp_all
  have j: "j < ?n" using assms(8) r1(1) by simp
  have dev: "sl_device (?r ! i) \<noteq> a" if "i < length register" for i
    using callback_remove_nth [OF assms(1) that, of a] assms(2) by (simp split: if_splits)
  let ?r2 = "r1[j := slot_zero]"
  have ok2: "register_ok ?r2"
    using callback_add_registers(1) [OF assms(1,2,6)] by (rule register_zero)
  have nth2: "callback_remove a ?r2 ! i = (if i = ?n \<or> i = j then slot_zero else ?r ! i)" if "i < length register" for i
    using callback_remove_nth [OF ok2, of i a] that dev [OF that] n j by (auto simp: r1(2) nth_list_update)
  have len2: "length r1 = length register" by (simp add: r1(2))
  have filled: "sl_cb (?r ! i) \<noteq> None" if "i < ?n" for i using that by (rule before_free_slot)
  have "free_slot (callback_remove a ?r2) = j"
  proof (rule free_slot_eq)
    show "sl_cb (callback_remove a ?r2 ! i) \<noteq> None" if "i < j" for i
      using nth2 [of i] filled [of i] that n j by simp
  qed (use nth2 [of j] n j len2 in simp_all)
  then have c2: "k2 = int j" "r2 = (callback_remove a ?r2)[j := ?s f' a]"
    using callback_add_eq [OF ok2, of a j f'] assms(9) n j by (simp_all add: r1(2))
  have ok3: "register_ok r2" by (rule callback_add_registers(1) [OF ok2 assms(2,9)])
  have len: "length r2 = length register" by (simp add: c2(2) r1(2))
  have nth3: "r2 ! i = (if i = j then ?s f' a else if i = ?n then slot_zero else ?r ! i)" if "i < length register" for i
    using nth2 [OF that] that n j by (auto simp: c2(2) r1(2) nth_list_update)
  have "sl_device (r2 ! i) \<noteq> b" if "i < length register" for i
    using nth3 [OF that] assms(3-5) callback_remove_nth [OF assms(1) that, of a] nth_mem [OF that] by auto
  then have same: "callback_remove b r2 = r2"
    using callback_remove_nth [OF ok3, of _ b] len by (intro nth_equalityI) simp_all
  have "free_slot r2 = ?n"
  proof (rule free_slot_eq)
    show "sl_cb (r2 ! i) \<noteq> None" if "i < ?n" for i
      using nth3 [of i] filled [OF that] that n by simp
  qed (use nth3 [of ?n] n j len in simp_all)
  then have c3: "k3 = int ?n" "r3 = r2[?n := ?s g b]"
    using callback_add_eq [OF ok3, of b ?n g] assms(10) n len by (simp_all add: same)
  then show ?thesis using c2(1) r1(1) n len by (simp add: outputs_cb_def Let_def)
qed

text \<open>C16: The register is well formed at all times: an empty slot is all zero, a used one belongs to a device, and no two to the
  same one. Removing a device, registering a callback for it, taking an answer with any number from an output, and
  emptying a slot for a deferred callback all keep it so.\<close>

theorem register_well_formed:
  assumes "register_ok register" and "device \<noteq> 0"
  shows "register_ok (callback_remove device register) \<and> register_ok (snd (callback_add device cb register))
    \<and> register_ok (fst (outputs_cb answer (register, active))) \<and> register_ok (register[i := slot_zero])"
proof -
  obtain k r where r: "callback_add device cb register = (k, r)" by fastforce
  then have "register_ok r"
    using callback_add_registers(1) [OF assms] assms(1) by (cases cb) (auto simp: callback_add_def)
  then show ?thesis using assms(1) by (simp add: r callback_remove_ok outputs_cb_ok register_zero)
qed

end
