(* ===== verification/Outputs_Volume.thy ===== *)
theory Outputs_Volume
  imports Device "HOL-Library.Log_Nat"
begin

text \<open>
  The volumes of \<open>src/outputs.c\<close>: the conversions between the volume of a device and its share of the master
  volume, which compute with \<open>float\<close> and \<open>double\<close> numbers, and the choice of the master volume. A finite
  floating-point number is the rational number it stands for; an operation is the exact one followed by rounding to
  the nearest number with 24 or 53 binary digits (IEEE 754, ties to even). The numbers here are far from the
  largest and the smallest ones. \<open>None\<close> is a conversion to \<open>int\<close> of a value that no \<open>int\<close> has.
\<close>

subsection \<open>Rounding\<close>

definition pow2 :: "int \<Rightarrow> rat" where "pow2 e = 2 powi e"

text \<open>The exponent of a positive number: \<open>2 ^ e \<le> x < 2 ^ (e + 1)\<close>.\<close>

definition fl_exp :: "rat \<Rightarrow> int" where
  "fl_exp x = (case quotient_of x of (n, d) \<Rightarrow>
     let k = bitlen n - bitlen d in if pow2 k \<le> x then k else k - 1)"

definition round_even :: "rat \<Rightarrow> int" where
  "round_even x =
     (let q = \<lfloor>x\<rfloor>; r = x - of_int q in if r < 1 / 2 \<or> r = 1 / 2 \<and> even q then q else q + 1)"

definition fl_pos :: "int \<Rightarrow> rat \<Rightarrow> rat" where
  "fl_pos p x = (let u = pow2 (fl_exp x - (p - 1)) in of_int (round_even (x / u)) * u)"

definition fl :: "int \<Rightarrow> rat \<Rightarrow> rat" where
  "fl p x = (if x = 0 then 0 else if x < 0 then - fl_pos p (- x) else fl_pos p x)"

definition to_int :: "rat \<Rightarrow> int option" where
  "to_int x =
     (let n = (if x < 0 then - \<lfloor>- x\<rfloor> else \<lfloor>x\<rfloor>) in if - (2 ^ 31) \<le> n \<and> n < 2 ^ 31 then Some n else None)"

subsection \<open>The conversions\<close>

definition rel_to_vol :: "int \<Rightarrow> int \<Rightarrow> int option" where
  "rel_to_vol relvol master_volume =
     (if relvol = 100 then Some master_volume
      else to_int (fl 24 (fl 53 (fl 24 (fl 24 (of_int relvol) * fl 24 (of_int master_volume)) / 100))))"

definition vol_to_rel :: "int \<Rightarrow> int \<Rightarrow> int option" where
  "vol_to_rel volume master_volume =
     (if volume = master_volume then Some 100
      else if master_volume = 0 then None
      else to_int (fl 24 (fl 53 (fl 24 (fl 24 (of_int volume) / fl 24 (of_int master_volume)) * 100))))"

text \<open>\<open>OUTPUTS_DEVICE_DISPLAY_SELECTED\<close>: the states below \<open>OUTPUT_STATE_STOPPED\<close> are the failures.\<close>

definition display_selected :: "output_device \<Rightarrow> bool" where
  "display_selected d \<longleftrightarrow> dv_selected d \<and> dv_state d \<notin> {OUTPUT_STATE_FAILED, OUTPUT_STATE_PASSWORD}
     \<and> \<not> dv_busy d \<and> \<not> dv_prevent_playback d"

definition highest :: "(output_device \<Rightarrow> bool) \<Rightarrow> output_device list \<Rightarrow> int" where
  "highest P devices = foldl (\<lambda>h d. if P d \<and> dv_volume d > h then dv_volume d else h) (-1) devices"

fun relvols :: "int \<Rightarrow> output_device list \<Rightarrow> output_device list option" where
  "relvols master [] = Some []"
| "relvols master (d # ds) =
     (case vol_to_rel (dv_volume d) master of
        None \<Rightarrow> None
      | Some r \<Rightarrow> map_option (\<lambda>ds'. d\<lparr>dv_relvol := r\<rparr> # ds') (relvols master ds))"

definition vol_master :: "output_device list \<Rightarrow> int" where
  "vol_master devices =
     (let selected_highest = highest display_selected devices in
      if selected_highest \<ge> 0 then selected_highest else highest (\<lambda>d. True) devices)"

definition vol_adjust :: "output_device list \<Rightarrow> (int \<times> output_device list) option" where
  "vol_adjust devices =
     (let m = vol_master devices in case relvols m devices of None \<Rightarrow> None | Some ds \<Rightarrow> Some (m, ds))"

subsection \<open>The error of rounding\<close>

lemma pow2_pos [simp]: "0 < pow2 e" "pow2 e \<noteq> 0" "0 \<le> pow2 e"
  by (simp_all add: pow2_def)

lemma pow2_add: "pow2 (a + b) = pow2 a * pow2 b"
  by (simp add: pow2_def power_int_add)

lemma pow2_mono: "a \<le> b \<Longrightarrow> pow2 a \<le> pow2 b"
  by (simp add: pow2_def power_int_increasing)

lemma pow2_nat: "0 \<le> e \<Longrightarrow> pow2 e = 2 ^ nat e"
  by (simp add: pow2_def power_int_nonneg_exp)

lemma fl_exp_le:
  assumes "0 < x"
  shows "pow2 (fl_exp x) \<le> x"
proof -
  obtain n d where q: "quotient_of x = (n, d)" by fastforce
  then have x: "x = of_int n / of_int d" and d: "0 < d"
    using quotient_of_div quotient_of_denom_pos by blast+
  have n: "0 < n" using assms d by (simp add: x zero_less_divide_iff)
  let ?k = "bitlen n - bitlen d"
  have bn: "1 \<le> bitlen n" and bd: "0 \<le> bitlen d" using n by (simp_all add: bitlen_ge_iff_power bitlen_nonneg)
  have "(2 :: int) ^ nat (bitlen n - 1) \<le> n" "d \<le> 2 ^ nat (bitlen d)"
    using bitlen_bounds [OF n] bitlen_bounds [OF d] by simp_all
  then have "(2 :: rat) ^ nat (bitlen n - 1) \<le> of_int n" "of_int d \<le> (2 :: rat) ^ nat (bitlen d)"
    by (metis of_int_le_iff of_int_numeral of_int_power)+
  then have lo: "pow2 (bitlen n - 1) \<le> of_int n" and hi: "of_int d \<le> pow2 (bitlen d)"
    using bn bd by (simp_all add: pow2_nat)
  have "pow2 (?k - 1) * of_int d \<le> pow2 (?k - 1) * pow2 (bitlen d)" using hi by simp
  also have "\<dots> = pow2 (bitlen n - 1)" by (simp flip: pow2_add)
  also have "\<dots> \<le> of_int n" by (rule lo)
  finally have "pow2 (?k - 1) \<le> x" using d by (simp add: x field_simps)
  then show ?thesis by (simp add: fl_exp_def q Let_def)
qed

lemma fl_exp_less: "0 < x \<Longrightarrow> x < pow2 t \<Longrightarrow> fl_exp x < t"
  using fl_exp_le [of x] pow2_mono [of t "fl_exp x"] by linarith

lemma round_even_error: "\<bar>of_int (round_even x) - x\<bar> \<le> 1 / 2"
proof -
  have "of_int \<lfloor>x\<rfloor> \<le> x" "x < of_int \<lfloor>x\<rfloor> + 1" by linarith+
  then show ?thesis by (auto simp: round_even_def Let_def abs_le_iff)
qed

lemma round_even_int [simp]: "round_even (of_int n) = n"
  by (simp add: round_even_def)

lemma fl_error:
  assumes "0 \<le> x" and "x < pow2 t"
  shows "\<bar>fl p x - x\<bar> \<le> pow2 (t - p - 1)"
proof (cases "x = 0")
  case False
  let ?u = "pow2 (fl_exp x - (p - 1))"
  have "\<bar>fl_pos p x - x\<bar> = \<bar>of_int (round_even (x / ?u)) - x / ?u\<bar> * ?u"
    by (simp add: fl_pos_def Let_def field_simps flip: abs_mult)
  also have "\<dots> \<le> 1 / 2 * ?u" by (rule mult_right_mono [OF round_even_error]) simp
  also have "\<dots> = pow2 (fl_exp x - p)" using pow2_add [of 1 "fl_exp x - p"] by (simp add: pow2_def algebra_simps)
  also have "\<dots> \<le> pow2 (t - p - 1)" using fl_exp_less [of x t] assms False by (intro pow2_mono) simp
  finally show ?thesis using assms(1) False by (simp add: fl_def)
qed (simp add: fl_def)

lemma fl_int:
  assumes "\<bar>n\<bar> < 2 ^ nat p" and "0 \<le> p"
  shows "fl p (of_int n) = of_int n"
proof -
  have pos: "fl_pos p (of_int m) = of_int m" if m: "0 < m" "m < 2 ^ nat p" for m
  proof -
    have "of_int m < pow2 p" using m assms(2) by (metis of_int_less_iff of_int_numeral of_int_power pow2_nat)
    then have e: "fl_exp (of_int m) < p" using m by (intro fl_exp_less) simp_all
    then have "\<exists>j. fl_exp (of_int m) - (p - 1) = - int j" by (intro exI [of _ "nat (p - 1 - fl_exp (of_int m))"]) simp
    then obtain j where j: "fl_exp (of_int m) - (p - 1) = - int j" ..
    have u: "pow2 (- int j) = 1 / 2 ^ j" by (simp add: pow2_def power_int_minus divide_inverse)
    have "of_int m / pow2 (- int j) = of_int (m * 2 ^ j)" by (simp add: u)
    then have "round_even (of_int m / pow2 (- int j)) = m * 2 ^ j" by (simp only: round_even_int)
    then show ?thesis by (simp add: fl_pos_def Let_def j u)
  qed
  show ?thesis using assms pos [of n] pos [of "- n"] by (auto simp: fl_def)
qed

text \<open>Whole and not so whole hundredths.\<close>

lemma floor_near:
  assumes "\<bar>y - of_int n / of_int m\<bar> < 1 / 100" and "n mod m \<noteq> 0" and "0 < m" "m \<le> 100"
  shows "\<lfloor>y :: rat\<rfloor> = n div m"
proof -
  have "1 \<le> n mod m" "n mod m \<le> m - 1" using assms(2,3) pos_mod_bound [of m n] pos_mod_sign [of m n] by linarith+
  then have "m * (n div m) + 1 \<le> n" "n + 1 \<le> m * (n div m) + m" using mult_div_mod_eq [of m n] by linarith+
  then have "of_int (m * (n div m) + 1) \<le> (of_int n :: rat)" "of_int (n + 1) \<le> (of_int (m * (n div m) + m) :: rat)"
    by (simp_all only: of_int_le_iff)
  then have lo: "of_int (n div m) + 1 / of_int m \<le> (of_int n / of_int m :: rat)"
    and hi: "of_int n / of_int m + 1 / of_int m \<le> (of_int (n div m) + 1 :: rat)"
    using assms(3) divide_right_mono [of "of_int (m * (n div m) + 1)" "of_int n :: rat" "of_int m"]
      divide_right_mono [of "of_int (n + 1)" "of_int (m * (n div m) + m) :: rat" "of_int m"]
    by (simp_all add: add_divide_distrib)
  have "1 / 100 \<le> (1 / of_int m :: rat)" using assms(3,4) by (simp add: frac_le)
  then show ?thesis using assms(1) lo hi unfolding abs_less_iff by (intro floor_unique) linarith+
qed

lemma hundredths: "\<bar>y - of_int n / 100\<bar> < 1 / 100 \<Longrightarrow> n mod 100 \<noteq> 0 \<Longrightarrow> \<lfloor>y :: rat\<rfloor> = n div 100"
  using floor_near [of y n 100] by simp

lemma to_int_small: "0 \<le> \<lfloor>y\<rfloor> \<Longrightarrow> \<lfloor>y\<rfloor> < 2 ^ 31 \<Longrightarrow> to_int y = Some \<lfloor>y\<rfloor>"
  using of_int_floor_le [of y] by (auto simp: to_int_def Let_def)

lemma fl_small:
  assumes "\<bar>n\<bar> \<le> 10000" and "24 \<le> p"
  shows "fl p (of_int n) = of_int n"
proof (rule fl_int)
  have "(2 :: int) ^ 24 \<le> 2 ^ nat p" using assms(2) by (intro power_increasing) simp_all
  then show "\<bar>n\<bar> < 2 ^ nat p" using assms(1) by simp
qed (use assms(2) in simp)

lemma rat_bounds: "a \<le> n \<Longrightarrow> n \<le> b \<Longrightarrow> of_int a \<le> (of_int n :: rat) \<and> of_int n \<le> (of_int b :: rat)"
  by simp

lemma pow2_small: "pow2 (- 18) \<le> 1 / 100000"
  by (simp add: pow2_def power_int_def power_one_over)

lemma fl_near:
  assumes "0 \<le> x" and "x < 128" and "24 \<le> p"
  shows "\<bar>fl p x - x\<bar> \<le> 1 / 100000"
proof -
  have "\<bar>fl p x - x\<bar> \<le> pow2 (7 - p - 1)" using assms by (intro fl_error) (simp_all add: pow2_def)
  also have "\<dots> \<le> pow2 (- 18)" using assms(3) by (intro pow2_mono) simp
  finally show ?thesis using pow2_small by linarith
qed

lemma fl_hundredths:
  assumes "0 \<le> n" "n \<le> 10000"
  shows "to_int (fl 24 (fl 53 (of_int n / 100))) = Some (n div 100)"
proof (cases "n mod 100 = 0")
  case True
  then have n: "n = 100 * (n div 100)" using mult_div_mod_eq [of 100 n] by simp
  have "(of_int n :: rat) = of_int (100 * (n div 100))" using n by (rule arg_cong)
  then have z: "of_int n / 100 = (of_int (n div 100) :: rat)" unfolding of_int_mult by simp
  have "fl p (of_int (n div 100)) = of_int (n div 100)" if "24 \<le> p" for p
    using assms n that by (intro fl_small) linarith+
  then show ?thesis using assms to_int_small [of "of_int (n div 100)"] by (simp add: z)
next
  case False
  let ?z = "of_int n / 100 :: rat"
  have n: "1 \<le> n" using False assms by (cases "n = 0") simp_all
  have z: "1 / 100 \<le> ?z" "?z \<le> 100" using rat_bounds [OF n assms(2)] by simp_all
  have e1: "\<bar>fl 53 ?z - ?z\<bar> \<le> 1 / 100000" using z by (intro fl_near) simp_all
  then have "0 \<le> fl 53 ?z" "fl 53 ?z < 128" using z unfolding abs_le_iff by linarith+
  then have e2: "\<bar>fl 24 (fl 53 ?z) - fl 53 ?z\<bar> \<le> 1 / 100000" by (intro fl_near) simp_all
  have "\<bar>fl 24 (fl 53 ?z) - ?z\<bar> < 1 / 100" using e1 e2 by linarith
  then have f: "\<lfloor>fl 24 (fl 53 ?z)\<rfloor> = n div 100" using False by (rule hundredths)
  have "0 \<le> n div 100" "n div 100 \<le> 100" using assms by simp_all
  then show ?thesis using to_int_small [of "fl 24 (fl 53 ?z)"] by (simp add: f)
qed

lemma rel_to_vol_exact:
  assumes "0 \<le> r" "r \<le> 100" "0 \<le> m" "m \<le> 100"
  shows "rel_to_vol r m = Some (r * m div 100)"
proof (cases "r = 100")
  case False
  have prod: "0 \<le> r * m" "r * m \<le> 10000" using assms mult_mono [of r 100 m 100] by simp_all
  have "fl 24 (fl 24 (of_int r) * fl 24 (of_int m)) = of_int (r * m)"
    using assms prod fl_small [of r 24] fl_small [of m 24] fl_small [of "r * m" 24] by simp
  then show ?thesis using False fl_hundredths [OF prod] by (simp only: rel_to_vol_def if_False)
qed (simp add: rel_to_vol_def)

text \<open>The whole hundredths: the same in integers, where it can be calculated.\<close>

definition round_div :: "int \<Rightarrow> int \<Rightarrow> int" where
  "round_div n d = (let q = n div d; r = n mod d in if 2 * r < d \<or> 2 * r = d \<and> even q then q else q + 1)"

lemma round_even_div:
  assumes "0 < d"
  shows "round_even (of_int n / of_int d) = round_div n d"
proof -
  have fl: "\<lfloor>of_int n / of_int d :: rat\<rfloor> = n div d" by (rule floor_divide_of_int_eq)
  have "of_int n = (of_int d * of_int (n div d) + of_int (n mod d) :: rat)"
    by (metis mult_div_mod_eq of_int_add of_int_mult)
  then have r: "of_int n / of_int d - of_int (n div d) = (of_int (n mod d) / of_int d :: rat)"
    using assms by (simp add: field_simps)
  have "of_int (n mod d) / of_int d < (1 / 2 :: rat) \<longleftrightarrow> of_int (2 * (n mod d)) < (of_int d :: rat)"
    "of_int (n mod d) / of_int d = (1 / 2 :: rat) \<longleftrightarrow> of_int (2 * (n mod d)) = (of_int d :: rat)"
    using assms by (auto simp: field_simps)
  then show ?thesis by (simp only: round_even_def round_div_def Let_def fl r of_int_less_iff of_int_eq_iff)
qed

lemma fl_exp_greater:
  assumes "0 < x"
  shows "x < pow2 (fl_exp x + 1)"
proof -
  obtain n d where q: "quotient_of x = (n, d)" by fastforce
  then have x: "x = of_int n / of_int d" and d: "0 < d"
    using quotient_of_div quotient_of_denom_pos by blast+
  have n: "0 < n" using assms d by (simp add: x zero_less_divide_iff)
  let ?k = "bitlen n - bitlen d"
  have bn: "0 \<le> bitlen n" and bd: "1 \<le> bitlen d" using d by (simp_all add: bitlen_ge_iff_power bitlen_nonneg)
  have "n < (2 :: int) ^ nat (bitlen n)" "2 ^ nat (bitlen d - 1) \<le> d"
    using bitlen_bounds [OF n] bitlen_bounds [OF d] by simp_all
  then have "of_int n < (2 :: rat) ^ nat (bitlen n)" "(2 :: rat) ^ nat (bitlen d - 1) \<le> of_int d"
    by (metis of_int_le_iff of_int_less_iff of_int_numeral of_int_power)+
  then have hi: "of_int n < pow2 (bitlen n)" and lo: "pow2 (bitlen d - 1) \<le> of_int d"
    using bn bd by (simp_all add: pow2_nat)
  have "of_int n < pow2 (bitlen n)" by (rule hi)
  also have "\<dots> = pow2 (?k + 1) * pow2 (bitlen d - 1)" by (simp flip: pow2_add)
  also have "\<dots> \<le> pow2 (?k + 1) * of_int d" using lo by simp
  finally have "x < pow2 (?k + 1)" using d by (simp add: x field_simps)
  then show ?thesis by (simp add: fl_exp_def q Let_def)
qed

lemma fl_exp_eq:
  assumes "pow2 e \<le> x" and "x < pow2 (e + 1)"
  shows "fl_exp x = e"
proof -
  have x: "0 < x" using assms(1) pow2_pos(1) [of e] by linarith
  have "pow2 (fl_exp x) < pow2 (e + 1)" "pow2 e < pow2 (fl_exp x + 1)"
    using fl_exp_le [OF x] fl_exp_greater [OF x] assms by linarith+
  then show ?thesis using pow2_mono [of "e + 1" "fl_exp x"] pow2_mono [of "fl_exp x + 1" e] by linarith
qed

lemma fl_pos_val:
  assumes "pow2 e \<le> x" and "x < pow2 (e + 1)"
  shows "fl_pos p x = of_int (round_even (x / pow2 (e - (p - 1)))) * pow2 (e - (p - 1))"
  by (simp add: fl_pos_def fl_exp_eq [OF assms] Let_def)

lemma fl_scale:
  assumes "0 < x"
  shows "fl p (x * pow2 j) = fl p x * pow2 j"
proof -
  have "fl_exp (x * pow2 j) = fl_exp x + j"
    using fl_exp_le [OF assms] fl_exp_greater [OF assms] pow2_add [of "fl_exp x + 1" j]
    by (intro fl_exp_eq) (simp_all add: pow2_add ac_simps)
  then have "fl_exp (x * pow2 j) - (p - 1) = (fl_exp x - (p - 1)) + j" by simp
  then have "pow2 (fl_exp (x * pow2 j) - (p - 1)) = pow2 (fl_exp x - (p - 1)) * pow2 j" by (simp only: pow2_add)
  then have "fl_pos p (x * pow2 j) = fl_pos p x * pow2 j" by (simp add: fl_pos_def Let_def)
  moreover have "fl p y = fl_pos p y" if "0 < y" for y using that by (simp add: fl_def)
  ultimately show ?thesis using assms by simp
qed

definition pct_shift :: "int \<Rightarrow> nat" where
  "pct_shift k = (if k \<ge> 100 then 0 else if k \<ge> 50 then 1 else if k \<ge> 25 then 2 else if k \<ge> 13 then 3
     else if k \<ge> 7 then 4 else if k \<ge> 4 then 5 else if k \<ge> 2 then 6 else 7)"

definition pct_ok :: "int \<Rightarrow> bool" where
  "pct_ok k \<longleftrightarrow>
     (let j = pct_shift k; n = 100 * round_div (k * 2 ^ (23 + j)) 100; t = (if n \<ge> 2 ^ 30 then 7 else 6) in
      100 \<le> k * 2 ^ j \<and> k * 2 ^ j < 200 \<and> 2 ^ (t + 23) \<le> n \<and> n < 2 ^ (t + 24)
        \<and> (round_div n (2 ^ t) * 2 ^ t) div 2 ^ (23 + j) = (if k \<in> {53, 59} then k - 1 else k))"

lemma pct_all: "list_all pct_ok [1..100]"
  by code_simp

lemma pct_okE:
  assumes "pct_ok k"
  obtains j n and t :: nat where "n = 100 * round_div (k * 2 ^ (23 + j)) 100" "100 \<le> k * 2 ^ j" "k * 2 ^ j < 200"
    "2 ^ (t + 23) \<le> n" "n < 2 ^ (t + 24)" "t \<le> 7"
      "(round_div n (2 ^ t) * 2 ^ t) div 2 ^ (23 + j) = (if k \<in> {53, 59} then k - 1 else k)"
proof -
  define j n and t :: nat where "j = pct_shift k" and "n = 100 * round_div (k * 2 ^ (23 + j)) 100"
    and "t = (if n \<ge> 2 ^ 30 then 7 else 6)"
  note defs = this
  have "t \<le> 7" by (simp add: defs(3))
  then show thesis using that [of n j t] assms [unfolded pct_ok_def Let_def, folded defs(1), folded defs(2), folded defs(3)] defs(2)
    by blast
qed

lemma whole_hundredths:
  assumes "0 \<le> k" and "k \<le> 100"
  shows "to_int (fl 24 (fl 53 (fl 24 (of_int k / 100) * 100))) = Some (if k \<in> {53, 59} then k - 1 else k)"
    (is "_ = Some ?r")
proof (cases "k = 0")
  case False
  then have "pct_ok k" using pct_all assms by (simp add: list_all_iff)
  then obtain j n and t :: nat where ok: "n = 100 * round_div (k * 2 ^ (23 + j)) 100" "100 \<le> k * 2 ^ j" "k * 2 ^ j < 200"
      "2 ^ (t + 23) \<le> n" "n < 2 ^ (t + 24)" "t \<le> 7"
      "(round_div n (2 ^ t) * 2 ^ t) div 2 ^ (23 + j) = (if k \<in> {53, 59} then k - 1 else k)"
    by (rule pct_okE)
  let ?z = "of_int k / 100 :: rat" and ?u = "pow2 (- int j - 23)"
  have j: "pow2 (- int i) = 1 / 2 ^ i" for i by (simp add: pow2_def power_int_minus divide_inverse)
  have "- int j - 23 = - int (23 + j)" by simp
  then have u: "?u = 1 / 2 ^ (23 + j)" by (simp only: j)
  have "(100 :: rat) \<le> of_int k * 2 ^ j" "of_int k * 2 ^ j < (200 :: rat)"
    using rat_bounds [OF ok(2) order_refl] ok(3) by (simp_all flip: of_int_less_iff [where 'a = rat])
  then have "pow2 (- int j) \<le> ?z" "?z < pow2 (- int j + 1)"
    unfolding pow2_add j by (simp_all add: pow2_def field_simps)
  then have "fl_pos 24 ?z = of_int (round_even (?z / ?u)) * ?u"
    using fl_pos_val [of "- int j" ?z 24] by simp
  moreover have "?z / ?u = of_int (k * 2 ^ (23 + j)) / of_int 100" by (simp add: u)
  moreover have "round_even (of_int (k * 2 ^ (23 + j)) / of_int 100) = round_div (k * 2 ^ (23 + j)) 100"
    by (rule round_even_div) simp
  moreover have "fl 24 ?z = fl_pos 24 ?z" using False assms(1) by (simp add: fl_def)
  ultimately have w: "fl 24 ?z = of_int (round_div (k * 2 ^ (23 + j)) 100) * ?u" by (simp only:)
  then have w100: "fl 24 ?z * 100 = of_int n * ?u" by (simp add: ok(1))
  have n: "0 < n" "n < 2 ^ 31" using ok(4-6) power_increasing [of "t + 24" 31 "2 :: int"]
      zero_less_power [of "2 :: int" "t + 23"] by linarith+
  have y: "fl 53 (of_int n * ?u) = of_int n * ?u" using n by (simp add: fl_scale fl_int)
  have "(2 :: rat) ^ (t + 23) \<le> of_int n" "of_int n < (2 :: rat) ^ (t + 24)"
    using ok(4,5) by (metis of_int_le_iff of_int_less_iff of_int_numeral of_int_power)+
  then have "fl_pos 24 (of_int n) = of_int (round_even (of_int n / pow2 (int t))) * pow2 (int t)"
    using fl_pos_val [of "int t + 23" "of_int n" 24] by (simp add: pow2_def power_int_add power_add)
  then have "fl 24 (of_int n) = of_int (round_div n (2 ^ t) * 2 ^ t)"
    using n round_even_div [of "2 ^ t" n] by (simp add: fl_def pow2_def)
  then have v: "fl 24 (of_int n * ?u) = of_int (round_div n (2 ^ t) * 2 ^ t) * ?u" using n by (simp only: fl_scale of_int_0_less_iff)
  have "of_int (round_div n (2 ^ t) * 2 ^ t) * ?u = of_int (round_div n (2 ^ t) * 2 ^ t) / of_int (2 ^ (23 + j))"
    unfolding u by simp
  then have "\<lfloor>of_int (round_div n (2 ^ t) * 2 ^ t) * ?u\<rfloor> = ?r" using ok(7) by (simp only: floor_divide_of_int_eq)
  moreover have "0 \<le> ?r" "?r < 2 ^ 31" using assms by (simp_all split: if_split)
  ultimately show ?thesis using to_int_small [of "of_int (round_div n (2 ^ t) * 2 ^ t) * ?u"] by (simp only: w100 y v)
qed (simp add: fl_def to_int_def)

lemma odd_hundredths:
  assumes "m * k = 100 * v" and "k \<in> {53, 59 :: int}" and "0 < m" "m \<le> 100"
  shows "m = 100 \<and> v = k"
proof -
  define q where "q = (if k = 53 then 17 * v - 9 * m else 39 * v - 23 * m)"
  have m: "m = 100 * q" using assms(1,2) by (auto simp: q_def)
  then have "0 < q" "q \<le> 1" using assms(3,4) by linarith+
  then have "q = 1" by linarith
  then show ?thesis using m assms(1) by simp
qed

lemma vol_to_rel_exact:
  assumes "0 \<le> v" "v \<le> m" "0 < m" "m \<le> 100"
  shows "vol_to_rel v m = Some (if m = 100 \<and> v \<in> {53, 59} then v - 1 else 100 * v div m)"
proof (cases "v = m")
  case False
  have z: "fl 24 (of_int v) / fl 24 (of_int m) = (of_int v / of_int m :: rat)"
    using assms fl_small [of v 24] fl_small [of m 24] by simp
  let ?z = "of_int v / of_int m :: rat" and ?k = "100 * v div m"
  have k: "0 \<le> ?k" "?k \<le> 100"
    using assms zdiv_mono1 [of "100 * v" "100 * m" m] by (simp_all add: pos_imp_zdiv_nonneg_iff)
  have "to_int (fl 24 (fl 53 (fl 24 ?z * 100))) = Some (if m = 100 \<and> v \<in> {53, 59} then v - 1 else ?k)"
  proof (cases "100 * v mod m = 0")
    case True
    then have mk: "m * ?k = 100 * v" using mult_div_mod_eq [of m "100 * v"] by simp
    then have "(if m = 100 \<and> v \<in> {53, 59} then v - 1 else ?k) = (if ?k \<in> {53, 59} then ?k - 1 else ?k)"
      using odd_hundredths [OF mk] assms(3,4) by auto
    moreover have "of_int (m * ?k) = (of_int (100 * v) :: rat)" using mk by (rule arg_cong)
    then have "?z = of_int ?k / 100" using assms(3) by (simp add: field_simps)
    ultimately show ?thesis using whole_hundredths [OF k] by (simp only:)
  next
    case ne: False
    have le: "0 \<le> ?z" "?z \<le> 1" using assms by simp_all
    then have e1: "\<bar>fl 24 ?z - ?z\<bar> \<le> 1 / 100000" by (intro fl_near) simp_all
    have "1 \<le> v" using ne assms(1) by (cases "v = 0") simp_all
    then have z1: "1 / 100 \<le> ?z" using assms(3,4) frac_le [of 1 "of_int v" "of_int m" "100 :: rat"] by simp
    let ?x = "fl 24 ?z * 100"
    have x: "0 \<le> ?x" "?x \<le> 101" "\<bar>?x - 100 * ?z\<bar> \<le> 1 / 1000" using e1 le z1 unfolding abs_le_iff by linarith+
    then have e2: "\<bar>fl 53 ?x - ?x\<bar> \<le> 1 / 100000" by (intro fl_near) simp_all
    then have "0 \<le> fl 53 ?x" "fl 53 ?x < 128" using x z1 unfolding abs_le_iff by linarith+
    then have e3: "\<bar>fl 24 (fl 53 ?x) - fl 53 ?x\<bar> \<le> 1 / 100000" by (intro fl_near) simp_all
    have "\<bar>fl 24 (fl 53 ?x) - 100 * ?z\<bar> < 1 / 100" using e2 e3 x(3) by linarith
    then have "\<lfloor>fl 24 (fl 53 (fl 24 ?z * 100))\<rfloor> = ?k"
      using floor_near [of "fl 24 (fl 53 (fl 24 ?z * 100))" "100 * v" m] ne assms by simp
    moreover have "m \<noteq> 100" using ne by auto
    ultimately show ?thesis using k to_int_small [of "fl 24 (fl 53 (fl 24 ?z * 100))"] by simp
  qed
  then show ?thesis using False assms(3) z by (simp only: vol_to_rel_def if_False) simp
qed (use assms in \<open>simp add: vol_to_rel_def\<close>)

lemma vol_to_rel_zero: "vol_to_rel v 0 = (if v = 0 then Some 100 else None)"
  by (simp add: vol_to_rel_def)

text \<open>A share above 100, of a device that is louder than the master volume, is an \<open>int\<close> as well.\<close>

lemma fl_below:
  assumes "0 \<le> x" and "x < pow2 14" and "24 \<le> p"
  shows "0 \<le> fl p x + 1" and "fl p x \<le> x + 1"
proof -
  have "\<bar>fl p x - x\<bar> \<le> pow2 (14 - p - 1)" using assms by (intro fl_error)
  also have "\<dots> \<le> pow2 0" using assms(3) by (intro pow2_mono) simp
  finally have "\<bar>fl p x - x\<bar> \<le> 1" by (simp add: pow2_def)
  then show "0 \<le> fl p x + 1" "fl p x \<le> x + 1" using assms(1) unfolding abs_le_iff by linarith+
qed

lemma round_even_nonneg: "0 \<le> x \<Longrightarrow> 0 \<le> round_even x"
  by (simp add: round_even_def Let_def)

lemma fl_nonneg: "0 \<le> x \<Longrightarrow> 0 \<le> fl p x"
  by (simp add: fl_def fl_pos_def Let_def round_even_nonneg)

lemma vol_to_rel_some:
  assumes "0 \<le> v" "v \<le> 100" "0 < m" "m \<le> 100"
  shows "\<exists>r. vol_to_rel v m = Some r"
proof -
  let ?z = "of_int v / of_int m :: rat" and ?x = "fl 24 (of_int v / of_int m) * 100 :: rat"
  have z: "fl 24 (of_int v) / fl 24 (of_int m) = ?z" using assms fl_small [of v 24] fl_small [of m 24] by simp
  have p: "pow2 14 = 16384" by (simp add: pow2_def)
  have "(1 :: rat) \<le> of_int m" "of_int v \<le> (100 :: rat)" using assms by simp_all
  then have "?z \<le> 100 / 1" using assms(1) by (intro frac_le) simp_all
  then have le: "0 \<le> ?z" "?z < pow2 14" "?z \<le> 100" using assms(1,3) by (simp_all add: p)
  have x: "0 \<le> ?x" "?x \<le> 10100" using fl_below(2) [OF le(1,2), of 24] fl_nonneg [OF le(1), of 24] le(3) by simp_all
  then have y: "0 \<le> fl 53 ?x" "fl 53 ?x \<le> 10101" using fl_below(2) [of ?x 53] fl_nonneg [of ?x 53] by (simp_all add: p)
  then have "0 \<le> fl 24 (fl 53 ?x)" "fl 24 (fl 53 ?x) \<le> 10102"
    using fl_below(2) [of "fl 53 ?x" 24] fl_nonneg [of "fl 53 ?x" 24] by (simp_all add: p)
  then have "0 \<le> \<lfloor>fl 24 (fl 53 ?x)\<rfloor>" "\<lfloor>fl 24 (fl 53 ?x)\<rfloor> < 2 ^ 31" by (simp_all add: floor_less_iff)
  then have "to_int (fl 24 (fl 53 ?x)) = Some \<lfloor>fl 24 (fl 53 ?x)\<rfloor>" by (rule to_int_small)
  then show ?thesis using assms(3) z by (simp add: vol_to_rel_def)
qed

text \<open>The highest volume, and the shares of it.\<close>

lemma highest_Nil: "highest P [] = -1"
  by (simp add: highest_def)

lemma highest_fold:
  "h \<le> foldl (\<lambda>h d. if P d \<and> dv_volume d > h then dv_volume d else h) h ds
     \<and> (\<forall>d \<in> set ds. P d \<longrightarrow> dv_volume d \<le> foldl (\<lambda>h d. if P d \<and> dv_volume d > h then dv_volume d else h) h ds)
     \<and> (foldl (\<lambda>h d. if P d \<and> dv_volume d > h then dv_volume d else h) h ds = h
        \<or> (\<exists>d \<in> set ds. P d \<and> dv_volume d = foldl (\<lambda>h d. if P d \<and> dv_volume d > h then dv_volume d else h) h ds))"
proof (induction ds arbitrary: h)
  case (Cons d ds)
  show ?case using Cons.IH [of "if P d \<and> dv_volume d > h then dv_volume d else h"] by (auto split: if_splits)
qed simp

lemma highest_ge: "d \<in> set ds \<Longrightarrow> P d \<Longrightarrow> dv_volume d \<le> highest P ds"
  using highest_fold [of "-1" P ds] by (simp add: highest_def)

lemma highest_cases: "highest P ds = -1 \<or> (\<exists>d \<in> set ds. P d \<and> dv_volume d = highest P ds)"
  using highest_fold [of "-1" P ds] by (auto simp: highest_def)

lemma vol_master_is:
  assumes "\<forall>d \<in> set ds. 0 \<le> dv_volume d" and "ds \<noteq> []"
  shows "(\<exists>d \<in> set ds. dv_volume d = vol_master ds)
    \<and> (\<forall>d \<in> set ds. display_selected d \<or> (\<forall>d \<in> set ds. \<not> display_selected d) \<longrightarrow> dv_volume d \<le> vol_master ds)"
proof (cases "\<exists>d \<in> set ds. display_selected d")
  case True
  then obtain d where d: "d \<in> set ds" "display_selected d" by blast
  then have h: "0 \<le> highest display_selected ds" using highest_ge [of d ds display_selected] assms(1) by fastforce
  then have "\<exists>d \<in> set ds. dv_volume d = highest display_selected ds" using highest_cases [of display_selected ds] by auto
  then show ?thesis using h d highest_ge [of _ ds display_selected] by (auto simp: vol_master_def)
next
  case False
  then have "highest display_selected ds = -1" using highest_cases [of display_selected ds] by auto
  moreover obtain d where "d \<in> set ds" using assms(2) by (cases ds) auto
  then have "0 \<le> highest (\<lambda>d. True) ds" using highest_ge [of d ds "\<lambda>d. True"] assms(1) by fastforce
  then have "\<exists>d \<in> set ds. dv_volume d = highest (\<lambda>d. True) ds" using highest_cases [of "\<lambda>d. True" ds] by auto
  ultimately show ?thesis using False highest_ge [of _ ds "\<lambda>d. True"] by (auto simp: vol_master_def)
qed

lemma relvols_None: "relvols m ds = None \<longleftrightarrow> (\<exists>d \<in> set ds. vol_to_rel (dv_volume d) m = None)"
  by (induction ds) (auto split: option.split)

lemma relvols_Some:
  "relvols m ds = Some ds' \<Longrightarrow> list_all2 (\<lambda>d d'. \<exists>r. vol_to_rel (dv_volume d) m = Some r \<and> d' = d\<lparr>dv_relvol := r\<rparr>) ds ds'"
  by (induction ds arbitrary: ds') (auto split: option.splits)

subsection \<open>What the volumes are\<close>

text \<open>C15: The conversions of volumes compute what the integers give, although they go through \<open>float\<close> numbers: the
  volume of a share is the share of the master volume in whole percents, rounded down, and the share of a volume that is
  not above the master volume is its quotient in percent, rounded down, except that the shares of 53 and 59 in 100
  come out as 52 and 58. The share of a volume above 0 in the master volume 0 is no number.\<close>

theorem volume_conversions:
  assumes "0 \<le> r" "r \<le> 100" "0 \<le> m" "m \<le> 100" "0 \<le> v" "v \<le> 100"
  shows "rel_to_vol r m = Some (r * m div 100)
    \<and> (v \<le> m \<and> 0 < m \<longrightarrow> vol_to_rel v m = Some (if m = 100 \<and> v \<in> {53, 59} then v - 1 else 100 * v div m))
    \<and> vol_to_rel v 0 = (if v = 0 then Some 100 else None)"
  using rel_to_vol_exact [OF assms(1-4)] vol_to_rel_exact [OF assms(5) _ _ assms(4)] vol_to_rel_zero [of v] by simp

text \<open>The master volume is the highest volume of the devices that are shown as selected, or of all devices when none is,
  and every device gets its share; only when the master volume is 0 and a device that does not count for it has another
  volume does the computation leave what \<open>int\<close> can hold.\<close>

lemma vol_adjust_outcome:
  assumes "\<forall>d \<in> set devices. 0 \<le> dv_volume d \<and> dv_volume d \<le> 100" and "devices \<noteq> []"
  shows "(\<exists>d \<in> set devices. dv_volume d = vol_master devices)
    \<and> (\<forall>d \<in> set devices. display_selected d \<or> (\<forall>d \<in> set devices. \<not> display_selected d) \<longrightarrow> dv_volume d \<le> vol_master devices)
    \<and> (if vol_master devices = 0 \<and> (\<exists>d \<in> set devices. dv_volume d \<noteq> 0) then vol_adjust devices = None
       else \<exists>devices'. vol_adjust devices = Some (vol_master devices, devices')
         \<and> list_all2 (\<lambda>d d'. \<exists>r. vol_to_rel (dv_volume d) (vol_master devices) = Some r \<and> d' = d\<lparr>dv_relvol := r\<rparr>) devices devices')"
proof -
  let ?m = "vol_master devices"
  have m: "(\<exists>d \<in> set devices. dv_volume d = ?m)
    \<and> (\<forall>d \<in> set devices. display_selected d \<or> (\<forall>d \<in> set devices. \<not> display_selected d) \<longrightarrow> dv_volume d \<le> ?m)"
    using assms by (intro vol_master_is) auto
  then have range: "0 \<le> ?m" "?m \<le> 100" using assms(1) by auto
  have "vol_to_rel (dv_volume d) ?m = None \<longleftrightarrow> ?m = 0 \<and> dv_volume d \<noteq> 0" if "d \<in> set devices" for d
    using vol_to_rel_some [of "dv_volume d" ?m] assms(1) that range by (cases "?m = 0") (auto simp: vol_to_rel_zero)
  then have none: "relvols ?m devices = None \<longleftrightarrow> ?m = 0 \<and> (\<exists>d \<in> set devices. dv_volume d \<noteq> 0)"
    by (auto simp: relvols_None)
  show ?thesis
  proof (cases "relvols ?m devices")
    case None
    then show ?thesis using m none by (simp add: vol_adjust_def)
  next
    case (Some ds)
    then show ?thesis using m none relvols_Some [OF Some] by (auto simp: vol_adjust_def)
  qed
qed

end
