(* ===== verification/Outputs_Devices.thy ===== *)
theory Outputs_Devices
  imports Misc Outputs_Volume "HOL-Library.Multiset" "HOL-Library.Product_Lexorder"
begin

text \<open>
  The list of devices of \<open>src/outputs.c\<close>: its order, which a sort by swapping neighbours establishes, and the
  access to a device by its address. The sort is the stable sort by priority and name.
\<close>

subsection \<open>Sorting by swaps\<close>

text \<open>The value that the output definition of AirPlay has when \<open>PREFER_AIRPLAY2\<close> is not defined.\<close>

definition outputs_priority :: "output_device \<Rightarrow> int" where "outputs_priority d = 2"

definition strcasecmp :: "bytes \<Rightarrow> bytes \<Rightarrow> int" where
  "strcasecmp a b = strcmp (map to_lower a) (map to_lower b)"

definition comes_after :: "output_device \<Rightarrow> output_device \<Rightarrow> bool" where
  "comes_after d e \<longleftrightarrow> outputs_priority d > outputs_priority e
     \<or> outputs_priority d = outputs_priority e \<and> strcasecmp (dv_name d) (dv_name e) > 0"

text \<open>One pass. After a swap it goes on behind the two devices.\<close>

fun swap_pass :: "('a \<Rightarrow> 'a \<Rightarrow> bool) \<Rightarrow> 'a list \<Rightarrow> 'a list \<times> nat" where
  "swap_pass after (a # b # r) =
     (if after a b then (case swap_pass after r of (r', swaps) \<Rightarrow> (b # a # r', Suc swaps))
      else (case swap_pass after (b # r) of (r', swaps) \<Rightarrow> (a # r', swaps)))"
| "swap_pass after r = (r, 0)"

text \<open>The pairs in the wrong order: every swap removes one of them.\<close>

fun inversions :: "('a \<Rightarrow> 'a \<Rightarrow> bool) \<Rightarrow> 'a list \<Rightarrow> nat" where
  "inversions after [] = 0"
| "inversions after (a # r) = length (filter (after a) r) + inversions after r"

lemma swap_pass_mset: "swap_pass after r = (r', swaps) \<Longrightarrow> mset r' = mset r"
  by (induction after r arbitrary: r' swaps rule: swap_pass.induct) (auto split: if_splits prod.splits)

lemma length_filter_mset: "mset r' = mset r \<Longrightarrow> length (filter P r') = length (filter P r)"
  by (metis mset_filter size_mset)

lemma swap_pass_inversions:
  "\<forall>a b. after a b \<longrightarrow> \<not> after b a \<Longrightarrow> swap_pass after r = (r', swaps) \<Longrightarrow> inversions after r' + swaps = inversions after r"
proof (induction after r arbitrary: r' swaps rule: swap_pass.induct)
  case (1 after a b r)
  show ?case
  proof (cases "after a b")
    case True
    obtain s n where s: "swap_pass after r = (s, n)" by fastforce
    then show ?thesis
      using "1.IH"(1) [OF True "1.prems"(1) s] "1.prems" True length_filter_mset [OF swap_pass_mset [OF s]] by auto
  next
    case False
    obtain s n where s: "swap_pass after (b # r) = (s, n)" by fastforce
    then show ?thesis
      using "1.IH"(2) [OF False "1.prems"(1) s] "1.prems" False length_filter_mset [OF swap_pass_mset [OF s], of "after a"] by auto
  qed
qed auto

lemma comes_after_asym: "comes_after a b \<Longrightarrow> \<not> comes_after b a"
  by (auto simp: comes_after_def strcasecmp_def strcmp_greater)

function device_list_sort :: "output_device list \<Rightarrow> output_device list" where
  "device_list_sort devices =
     (case swap_pass comes_after devices of (devices', swaps) \<Rightarrow>
        if swaps > 0 then device_list_sort devices' else devices')"
  by pat_completeness auto
termination
  by (relation "measure (inversions comes_after)")
    (auto simp: comes_after_asym dest: swap_pass_inversions [rotated, OF sym])

declare device_list_sort.simps [simp del]

definition sort_name :: "output_device \<Rightarrow> int \<times> bytes" where
  "sort_name d = (outputs_priority d, map to_lower (dv_name d))"

lemma comes_after_less: "comes_after d e \<longleftrightarrow> sort_name e < sort_name d"
  by (auto simp: comes_after_def sort_name_def strcasecmp_def strcmp_greater)

lemma swap_pass_stable:
  "swap_pass comes_after r = (r', swaps) \<Longrightarrow> filter (\<lambda>d. k = sort_name d) r' = filter (\<lambda>d. k = sort_name d) r"
  by (induction comes_after r arbitrary: r' swaps rule: swap_pass.induct)
    (auto simp: comes_after_less split: if_splits prod.splits)

lemma swap_pass_done:
  "swap_pass comes_after r = (r', 0) \<Longrightarrow> r' = r \<and> sorted (map sort_name r)"
proof (induction comes_after r arbitrary: r' rule: swap_pass.induct)
  case (1 a b r)
  then show ?case by (fastforce simp: comes_after_less split: if_splits prod.splits)
qed auto

lemma device_list_sort_props:
  "mset (device_list_sort devices) = mset devices
     \<and> (\<forall>k. filter (\<lambda>d. k = sort_name d) (device_list_sort devices) = filter (\<lambda>d. k = sort_name d) devices)
     \<and> sorted (map sort_name (device_list_sort devices))"
proof (induction devices rule: device_list_sort.induct)
  case (1 devices)
  obtain s n where s: "swap_pass comes_after devices = (s, n)" by fastforce
  have sort: "device_list_sort devices = (if n > 0 then device_list_sort s else s)"
    by (simp add: device_list_sort.simps [of devices] s)
  show ?case
  proof (cases "n = 0")
    case True
    then show ?thesis using swap_pass_done [of devices s] s by (simp add: sort)
  next
    case False
    then show ?thesis using "1.IH" [OF s [symmetric]] swap_pass_mset [OF s] swap_pass_stable [OF s] by (simp add: sort)
  qed
qed

text \<open>C14: The sort by swaps ends, whatever the list, and it is the stable sort by priority and then by name without
  regard to case: equal devices keep their order.\<close>

theorem device_list_sort_sorts: "device_list_sort devices = sort_key sort_name devices"
  by (rule sym [OF properties_for_sort_key]) (use device_list_sort_props [of devices] in blast)+

lemma device_list_sort_set [simp]: "set (device_list_sort ds) = set ds"
  by (metis device_list_sort_props set_mset_mset)

end
