(* ===== verification/Outputs.thy ===== *)
theory Outputs
  imports Outputs_Register Outputs_Devices Airplay_Events
begin

text \<open>
  The interface between the player and the outputs, \<open>src/outputs.c\<close>, over the AirPlay output: adding and
  removing devices, selecting them, starting and stopping them, and the callbacks to the player, which are made
  later from an event of their own. A device is given by its address; an address that no device of the list has is
  one of freed memory. What the player does in a callback is a parameter.
\<close>

subsection \<open>The state\<close>

text \<open>
  \<open>device_stop_cb\<close> is the callback that \<open>outputs.c\<close> itself registers. \<open>ou_calls\<close> is the history of the callbacks made:
  the callback, the address of the device or 0, and the state.
\<close>

datatype 'c output_cb = Device_stop_cb | Player_cb 'c

record ('c, 'e) outputs =
  ou_world :: "'e world"
  ou_master_volume :: int
  ou_register :: "'c output_cb slot list"
  ou_deferred :: bool
  ou_disabled :: bool
  ou_calls :: "('c output_cb \<times> nat \<times> output_device_state) list"

type_synonym ('c, 'e) player = "'c \<Rightarrow> nat \<Rightarrow> output_device_state \<Rightarrow> ('c, 'e) outputs \<Rightarrow> ('c, 'e) outputs wres"

abbreviation ou_devices :: "('c, 'e) outputs \<Rightarrow> output_device list" where
  "ou_devices st \<equiv> w_devices (ou_world st)"

definition put_devices :: "output_device list \<Rightarrow> ('c, 'e) outputs \<Rightarrow> ('c, 'e) outputs" where
  "put_devices ds st = st\<lparr>ou_world := (ou_world st)\<lparr>w_devices := ds\<rparr>\<rparr>"

definition device_at :: "nat \<Rightarrow> ('c, 'e) outputs \<Rightarrow> output_device wres" where
  "device_at a st = (case find (\<lambda>d. dv_addr d = a) (ou_devices st) of None \<Rightarrow> Inl Freed | Some d \<Rightarrow> Inr d)"

definition device_set :: "nat \<Rightarrow> (output_device \<Rightarrow> output_device) \<Rightarrow> ('c, 'e) outputs \<Rightarrow> ('c, 'e) outputs wres" where
  "device_set a f st =
     bind_res (device_at a st) (\<lambda>d. Inr (put_devices (map (\<lambda>d. if dv_addr d = a then f d else d) (ou_devices st)) st))"

definition adjust_volumes :: "('c, 'e) outputs \<Rightarrow> ('c, 'e) outputs wres" where
  "adjust_volumes st =
     (case vol_adjust (ou_devices st) of
        None \<Rightarrow> Inl (Inner Div_by_zero)
      | Some (m, ds) \<Rightarrow> Inr ((put_devices ds st)\<lparr>ou_master_volume := m\<rparr>))"

subsection \<open>Calls of the output\<close>

text \<open>The answers that the output gives while it runs go into the register.\<close>

definition deliver :: "'e world \<Rightarrow> ('c, 'e) outputs \<Rightarrow> ('c, 'e) outputs" where
  "deliver w st =
     (case fold outputs_cb (drop (length (w_status (ou_world st))) (w_status w)) (ou_register st, ou_deferred st) of
        (register, deferred) \<Rightarrow> st\<lparr>ou_world := w, ou_register := register, ou_deferred := deferred\<rparr>)"

definition register_cb :: "nat \<Rightarrow> 'c output_cb option \<Rightarrow> ('c, 'e) outputs \<Rightarrow> int \<times> ('c, 'e) outputs" where
  "register_cb a cb st = (case callback_add a cb (ou_register st) of (k, register) \<Rightarrow> (k, st\<lparr>ou_register := register\<rparr>))"

text \<open>An operation of the output on the device, with the number of the callback.\<close>

definition call_output ::
  "nat \<Rightarrow> 'c output_cb option \<Rightarrow> (int \<Rightarrow> 'e world \<Rightarrow> (int \<times> 'e world) wres) \<Rightarrow> ('c, 'e) outputs \<Rightarrow> (int \<times> ('c, 'e) outputs) wres" where
  "call_output a cb f st =
     (case register_cb a cb st of (k, st1) \<Rightarrow>
        bind_res (f k (ou_world st1)) (\<lambda>(ret, w). Inr (ret, deliver w st1)))"

definition device_state_update :: "nat \<Rightarrow> int \<times> ('c, 'e) outputs \<Rightarrow> (int \<times> ('c, 'e) outputs) wres" where
  "device_state_update a r =
     (case r of (ret, st) \<Rightarrow>
        if ret < 0 then bind_res (device_set a (\<lambda>d. d\<lparr>dv_state := OUTPUT_STATE_FAILED\<rparr>) st) (\<lambda>st1. Inr (ret, st1))
        else Inr (ret, st))"

subsection \<open>Devices\<close>

definition outputs_device_start ::
  "'p airplay_env \<Rightarrow> answers \<Rightarrow> nat \<Rightarrow> 'c output_cb option \<Rightarrow> bool \<Rightarrow> ('c, 'e) outputs \<Rightarrow> (int \<times> ('c, 'e) outputs) wres" where
  "outputs_device_start E A a cb only_probe st =
     (if ou_disabled st then Inr (-1, st)
      else bind_res (device_at a st) (\<lambda>d.
        if dv_session d \<noteq> None then Inr (0, st)
        else bind_res (call_output a cb
                (if only_probe then airplay_device_probe E A d else airplay_device_start E A d) st) (device_state_update a)))"

definition outputs_device_stop ::
  "'p airplay_env \<Rightarrow> answers \<Rightarrow> nat \<Rightarrow> 'c output_cb option \<Rightarrow> ('c, 'e) outputs \<Rightarrow> (int \<times> ('c, 'e) outputs) wres" where
  "outputs_device_stop E A a cb st =
     (if ou_disabled st then Inr (-1, st)
      else bind_res (device_at a st) (\<lambda>d.
        if dv_session d = None then Inr (0, st)
        else bind_res (call_output a cb (airplay_device_stop E A d) st) (device_state_update a)))"

text \<open>The delayed stop: the session gets the callback, and the timer stops the device later.\<close>

definition outputs_device_cb_set :: "nat \<Rightarrow> 'c output_cb option \<Rightarrow> ('c, 'e) outputs \<Rightarrow> ('c, 'e) outputs wres" where
  "outputs_device_cb_set a cb st =
     (if ou_disabled st then Inr st
      else bind_res (device_at a st) (\<lambda>d.
        if dv_session d = None then Inr st
        else bind_res (call_output a cb (\<lambda>k w. bind_res (airplay_device_cb_set d k w) (\<lambda>w1. Inr (0, w1))) st) (\<lambda>(ret, st1). Inr st1)))"

definition outputs_device_stop_delayed :: "nat \<Rightarrow> 'c output_cb option \<Rightarrow> ('c, 'e) outputs \<Rightarrow> (int \<times> ('c, 'e) outputs) wres" where
  "outputs_device_stop_delayed a cb st =
     (if ou_disabled st then Inr (-1, st)
      else bind_res (device_at a st) (\<lambda>d.
        if dv_session d = None then Inr (0, st)
        else bind_res (call_output a cb (\<lambda>k w. bind_res (airplay_device_cb_set d k w) (\<lambda>w1. Inr (0, w1))) st) (\<lambda>(ret, st1).
             bind_res (device_set a (\<lambda>d. d\<lparr>dv_stop_timer := True\<rparr>) st1) (\<lambda>st2. Inr (1, st2)))))"

definition stop_timer_cb :: "'p airplay_env \<Rightarrow> answers \<Rightarrow> nat \<Rightarrow> ('c, 'e) outputs \<Rightarrow> ('c, 'e) outputs wres" where
  "stop_timer_cb E A a st =
     bind_res (device_set a (\<lambda>d. d\<lparr>dv_stop_timer := False\<rparr>) st) (\<lambda>st1.
     bind_res (outputs_device_stop E A a (callback_get a (ou_register st1)) st1) (\<lambda>(ret, st2). Inr st2))"

definition outputs_device_flush ::
  "'p airplay_env \<Rightarrow> answers \<Rightarrow> nat \<Rightarrow> 'c output_cb option \<Rightarrow> ('c, 'e) outputs \<Rightarrow> (int \<times> ('c, 'e) outputs) wres" where
  "outputs_device_flush E A a cb st =
     (if ou_disabled st then Inr (-1, st)
      else bind_res (device_at a st) (\<lambda>d.
        if dv_session d = None then Inr (0, st) else call_output a cb (airplay_device_flush E A d) st))"

definition outputs_device_volume_set ::
  "'p airplay_env \<Rightarrow> answers \<Rightarrow> nat \<Rightarrow> 'c output_cb option \<Rightarrow> ('c, 'e) outputs \<Rightarrow> (int \<times> ('c, 'e) outputs) wres" where
  "outputs_device_volume_set E A a cb st =
     (if ou_disabled st then Inr (-1, st)
      else bind_res (device_at a st) (\<lambda>d.
        if dv_session d = None then Inr (0, st) else call_output a cb (airplay_set_volume_one E A d) st))"

text \<open>The AirPlay output has no \<open>device_quality_set\<close>.\<close>

definition outputs_device_quality_set :: "nat \<Rightarrow> media_quality \<Rightarrow> 'c output_cb option \<Rightarrow> ('c, 'e) outputs \<Rightarrow> int \<times> ('c, 'e) outputs" where
  "outputs_device_quality_set a q cb st = (-1, st)"

definition outputs_device_authorize ::
  "'p airplay_env \<Rightarrow> answers \<Rightarrow> nat \<Rightarrow> bytes \<Rightarrow> 'c output_cb option \<Rightarrow> ('c, 'e) outputs \<Rightarrow> (int \<times> ('c, 'e) outputs) wres" where
  "outputs_device_authorize E A a pin cb st =
     (if ou_disabled st then Inr (-1, st)
      else bind_res (device_at a st) (\<lambda>d.
        if dv_session d \<noteq> None then Inr (0, st)
        else bind_res (call_output a cb (airplay_device_authorize E A d pin) st) (device_state_update a)))"

text \<open>A session of the device is stopped first; the list is searched for the device only afterwards.\<close>

definition outputs_device_remove :: "'p airplay_env \<Rightarrow> answers \<Rightarrow> nat \<Rightarrow> ('c, 'e) outputs \<Rightarrow> ('c, 'e) outputs wres" where
  "outputs_device_remove E A a st =
     bind_res (device_at a st) (\<lambda>d.
     bind_res (if dv_session d \<noteq> None
               then bind_res (outputs_device_stop E A a (Some Device_stop_cb) st) (\<lambda>(ret, st1). Inr st1) else Inr st) (\<lambda>st1.
       adjust_volumes (put_devices (filter (\<lambda>d. dv_addr d \<noteq> a) (ou_devices st1)) st1)))"

text \<open>
  A new device gets its place in the list; one with the number of a listed device updates that device and is freed.
  \<open>db_speaker_get\<close> of \<open>src/owntones_dummy.c\<close> succeeds and changes nothing. The result is the address of the device in
  the list.
\<close>

definition device_refresh :: "output_device \<Rightarrow> output_device \<Rightarrow> output_device" where
  "device_refresh add d =
     (let d4 = (if dv_v4_address add \<noteq> None
                then d\<lparr>dv_v4_address := dv_v4_address add, dv_v4_port := dv_v4_port add\<rparr> else d);
          d6 = (if dv_v6_address add \<noteq> None
                then d4\<lparr>dv_v6_address := dv_v6_address add, dv_v6_port := dv_v6_port add\<rparr> else d4)
      in d6\<lparr>dv_name := dv_name add, dv_has_password := dv_has_password add, dv_password := dv_password add\<rparr>)"

definition outputs_device_add :: "output_device \<Rightarrow> bool \<Rightarrow> ('c, 'e) outputs \<Rightarrow> (nat \<times> ('c, 'e) outputs) wres" where
  "outputs_device_add add new_deselect st =
     (let (a, ds) = (case outputs_device_get (ou_devices st) (dv_id add) of
            None \<Rightarrow> (dv_addr add,
              add\<lparr>dv_selected := (if new_deselect then False else dv_selected add), dv_stop_timer := False\<rparr> # ou_devices st)
          | Some d \<Rightarrow> (dv_addr d, map (\<lambda>e. if dv_addr e = dv_addr d then device_refresh add e else e) (ou_devices st)))
      in bind_res (adjust_volumes (put_devices (device_list_sort ds) st)) (\<lambda>st1.
         bind_res (device_set a (\<lambda>d. d\<lparr>dv_advertised := True\<rparr>) st1) (\<lambda>st2. Inr (a, st2))))"

definition outputs_device_select :: "nat \<Rightarrow> int \<Rightarrow> ('c, 'e) outputs \<Rightarrow> ('c, 'e) outputs wres" where
  "outputs_device_select a max_volume st =
     bind_res (device_set a (\<lambda>d. d\<lparr>dv_selected := True, dv_prevent_playback := False, dv_busy := False,
         dv_volume := (if max_volume \<ge> 0 \<and> dv_volume d > max_volume then max_volume else dv_volume d)\<rparr>) st) adjust_volumes"

definition outputs_device_deselect :: "nat \<Rightarrow> ('c, 'e) outputs \<Rightarrow> ('c, 'e) outputs wres" where
  "outputs_device_deselect a st = bind_res (device_set a (\<lambda>d. d\<lparr>dv_selected := False\<rparr>) st) adjust_volumes"

definition outputs_device_volume_register :: "nat \<Rightarrow> int \<Rightarrow> int \<Rightarrow> ('c, 'e) outputs \<Rightarrow> ('c, 'e) outputs wres" where
  "outputs_device_volume_register a absvol relvol st =
     bind_res
       (if absvol > -1 then device_set a (\<lambda>d. d\<lparr>dv_volume := absvol\<rparr>) st
        else if relvol > -1 then
          (case rel_to_vol relvol (ou_master_volume st) of
             None \<Rightarrow> Inl (Inner Div_by_zero)
           | Some v \<Rightarrow> device_set a (\<lambda>d. d\<lparr>dv_volume := v\<rparr>) st)
        else Inr st) adjust_volumes"

subsection \<open>All devices\<close>

text \<open>The loops go over the devices as the list has them; the operations in them do not change it.\<close>

definition addresses :: "('c, 'e) outputs \<Rightarrow> nat list" where
  "addresses st = map dv_addr (ou_devices st)"

fun stop_unselected ::
  "'p airplay_env \<Rightarrow> answers \<Rightarrow> 'c output_cb option \<Rightarrow> nat list \<Rightarrow> int \<Rightarrow> ('c, 'e) outputs \<Rightarrow> (int \<times> ('c, 'e) outputs) wres" where
  "stop_unselected E A cb [] pending st = Inr (pending, st)"
| "stop_unselected E A cb (a # as) pending st =
     bind_res (device_at a st) (\<lambda>d.
       if dv_selected d then stop_unselected E A cb as pending st
       else bind_res (outputs_device_stop E A a cb st) (\<lambda>(ret, st1).
              stop_unselected E A cb as (if ret > 0 then pending + ret else pending) st1))"

fun start_selected ::
  "'p airplay_env \<Rightarrow> answers \<Rightarrow> 'c output_cb option \<Rightarrow> bool \<Rightarrow> nat list \<Rightarrow> int \<Rightarrow> int \<Rightarrow> ('c, 'e) outputs
    \<Rightarrow> (int \<times> int \<times> ('c, 'e) outputs) wres" where
  "start_selected E A cb only_probe [] ret pending st = Inr (ret, pending, st)"
| "start_selected E A cb only_probe (a # as) ret pending st =
     bind_res (device_at a st) (\<lambda>d.
       if \<not> dv_selected d then start_selected E A cb only_probe as ret pending st
       else bind_res (outputs_device_start E A a cb only_probe st) (\<lambda>(ret1, st1).
              start_selected E A cb only_probe as ret1 (if ret1 > 0 then pending + ret1 else pending) st1))"

definition outputs_start ::
  "'p airplay_env \<Rightarrow> answers \<Rightarrow> 'c output_cb option \<Rightarrow> 'c output_cb option \<Rightarrow> bool \<Rightarrow> ('c, 'e) outputs
    \<Rightarrow> (int \<times> ('c, 'e) outputs) wres" where
  "outputs_start E A started_cb stopped_cb only_probe st =
     bind_res (stop_unselected E A stopped_cb (addresses st) 0 st) (\<lambda>(stopping, st1).
     bind_res (start_selected E A started_cb only_probe (addresses st1) 0 stopping st1) (\<lambda>(ret, pending, st2).
       Inr (if pending > 0 then pending else ret, st2)))"

fun all_devices ::
  "(nat \<Rightarrow> ('c, 'e) outputs \<Rightarrow> (int \<times> ('c, 'e) outputs) wres) \<Rightarrow> nat list \<Rightarrow> int \<Rightarrow> ('c, 'e) outputs
    \<Rightarrow> (int \<times> ('c, 'e) outputs) wres" where
  "all_devices f [] pending st = Inr (pending, st)"
| "all_devices f (a # as) pending st =
     bind_res (f a st) (\<lambda>(ret, st1). all_devices f as (if ret < 0 then pending else pending + ret) st1)"

definition outputs_stop :: "'p airplay_env \<Rightarrow> answers \<Rightarrow> 'c output_cb option \<Rightarrow> ('c, 'e) outputs \<Rightarrow> (int \<times> ('c, 'e) outputs) wres" where
  "outputs_stop E A cb st = all_devices (\<lambda>a. outputs_device_stop E A a cb) (addresses st) 0 st"

definition outputs_stop_delayed_cancel :: "('c, 'e) outputs \<Rightarrow> int \<times> ('c, 'e) outputs" where
  "outputs_stop_delayed_cancel st = (0, put_devices (map (\<lambda>d. d\<lparr>dv_stop_timer := False\<rparr>) (ou_devices st)) st)"

definition outputs_flush :: "'p airplay_env \<Rightarrow> answers \<Rightarrow> 'c output_cb option \<Rightarrow> ('c, 'e) outputs \<Rightarrow> (int \<times> ('c, 'e) outputs) wres" where
  "outputs_flush E A cb st = all_devices (\<lambda>a. outputs_device_flush E A a cb) (addresses st) 0 st"

definition outputs_volume_get :: "('c, 'e) outputs \<Rightarrow> int" where
  "outputs_volume_get st = ou_master_volume st"

definition set_volume_one ::
  "'p airplay_env \<Rightarrow> answers \<Rightarrow> 'c output_cb option \<Rightarrow> nat \<Rightarrow> ('c, 'e) outputs \<Rightarrow> (int \<times> ('c, 'e) outputs) wres" where
  "set_volume_one E A cb a st =
     bind_res (device_at a st) (\<lambda>d.
       if \<not> dv_selected d then Inr (0, st)
       else (case rel_to_vol (dv_relvol d) (ou_master_volume st) of
               None \<Rightarrow> Inl (Inner Div_by_zero)
             | Some v \<Rightarrow> bind_res (device_set a (\<lambda>d. d\<lparr>dv_volume := v\<rparr>) st) (outputs_device_volume_set E A a cb)))"

definition outputs_volume_set ::
  "'p airplay_env \<Rightarrow> answers \<Rightarrow> int \<Rightarrow> 'c output_cb option \<Rightarrow> ('c, 'e) outputs \<Rightarrow> (int \<times> ('c, 'e) outputs) wres" where
  "outputs_volume_set E A volume cb st =
     (if ou_master_volume st = volume then Inr (0, st)
      else let st1 = st\<lparr>ou_master_volume := volume\<rparr> in all_devices (set_volume_one E A cb) (addresses st1) 0 st1)"

definition outputs_sessions_count :: "('c, 'e) outputs \<Rightarrow> nat" where
  "outputs_sessions_count st = length (filter (\<lambda>d. dv_session d \<noteq> None) (ou_devices st))"

text \<open>
  Metadata that has been prepared is completed by the player and sent, in an event of its own. \<open>finalize\<close> is the
  player's function.
\<close>

definition metadata_cb_send ::
  "'p airplay_env \<Rightarrow> answers \<Rightarrow> (output_metadata \<Rightarrow> int \<times> output_metadata) \<Rightarrow> output_metadata \<Rightarrow> ('c, 'e) outputs
    \<Rightarrow> ('c, 'e) outputs wres" where
  "metadata_cb_send E A finalize md st =
     (case finalize md of (ret, md1) \<Rightarrow>
        if ret < 0 then Inr st
        else bind_res (airplay_metadata_send E A md1 (ou_world st)) (\<lambda>w. Inr (deliver w st)))"

definition outputs_metadata_purge :: "('c, 'e) outputs \<Rightarrow> ('c, 'e) outputs" where
  "outputs_metadata_purge st = (if ou_disabled st then st else st\<lparr>ou_world := airplay_metadata_purge (ou_world st)\<rparr>)"

text \<open>\<open>init_ret\<close> is the result of \<open>airplay_init\<close>, without which there is no output.\<close>

definition outputs_init :: "int \<Rightarrow> ('c, 'e) outputs \<Rightarrow> int \<times> ('c, 'e) outputs" where
  "outputs_init init_ret st =
     (let st1 = st\<lparr>ou_master_volume := -1\<rparr> in
      if ou_disabled st1 then (-1, st1)
      else if init_ret < 0 then (-1, st1\<lparr>ou_disabled := True\<rparr>) else (0, st1))"

subsection \<open>The deferred callbacks\<close>

definition device_stop_cb :: "nat \<Rightarrow> output_device_state \<Rightarrow> ('c, 'e) outputs \<Rightarrow> ('c, 'e) outputs wres" where
  "device_stop_cb a state st = (if a = 0 then Inr st else device_set a (\<lambda>d. d\<lparr>dv_state := state\<rparr>) st)"

definition make_callback ::
  "('c, 'e) player \<Rightarrow> 'c output_cb option \<Rightarrow> nat \<Rightarrow> output_device_state \<Rightarrow> ('c, 'e) outputs \<Rightarrow> ('c, 'e) outputs wres" where
  "make_callback player cb a state st =
     (case cb of None \<Rightarrow> Inl (Inner Null_deref)
      | Some c \<Rightarrow>
          let st1 = st\<lparr>ou_calls := ou_calls st @ [(c, a, state)]\<rparr> in
          (case c of Device_stop_cb \<Rightarrow> device_stop_cb a state st1 | Player_cb p \<Rightarrow> player p a state st1))"

text \<open>One slot: what is in it is copied and the slot emptied before the callback.\<close>

definition deferred_slot ::
  "('c, 'e) player \<Rightarrow> 'p airplay_env \<Rightarrow> answers \<Rightarrow> nat \<Rightarrow> ('c, 'e) outputs \<Rightarrow> ('c, 'e) outputs wres" where
  "deferred_slot player E A i st =
     (let s = ou_register st ! i in
      if \<not> sl_ready s then Inr st
      else
        let st1 = st\<lparr>ou_register := (ou_register st)[i := slot_zero]\<rparr> in
        (case outputs_device_get (ou_devices st) (sl_device_id s) of
           None \<Rightarrow> make_callback player (sl_cb s) 0 (sl_state s) st1
         | Some d \<Rightarrow>
             if \<not> dv_advertised d \<and> dv_session d = None
             then bind_res (outputs_device_remove E A (dv_addr d) st1) (make_callback player (sl_cb s) 0 (sl_state s))
             else bind_res (device_set (dv_addr d) (\<lambda>d. d\<lparr>dv_state := sl_state s\<rparr>) st1)
                    (make_callback player (sl_cb s) (dv_addr d) (sl_state s))))"

fun deferred_slots ::
  "('c, 'e) player \<Rightarrow> 'p airplay_env \<Rightarrow> answers \<Rightarrow> nat list \<Rightarrow> ('c, 'e) outputs \<Rightarrow> ('c, 'e) outputs wres" where
  "deferred_slots player E A [] st = Inr st"
| "deferred_slots player E A (i # is) st = bind_res (deferred_slot player E A i st) (deferred_slots player E A is)"

definition deferred_cb :: "('c, 'e) player \<Rightarrow> 'p airplay_env \<Rightarrow> answers \<Rightarrow> ('c, 'e) outputs \<Rightarrow> ('c, 'e) outputs wres" where
  "deferred_cb player E A st =
     deferred_slots player E A [0..<length (ou_register st)] (st\<lparr>ou_deferred := False\<rparr>)"

end
