(* ===== verification/Outputs_Safety.thy ===== *)
theory Outputs_Safety
  imports Outputs Airplay_Safety
begin

text \<open>
  The invariant of the interface between player and output: that of the AirPlay sessions, and that of the register
  of callbacks. Every operation keeps it and uses no device that has been freed.
\<close>

subsection \<open>The invariant\<close>

definition outputs_ok :: "('c, 'e) outputs \<Rightarrow> bool" where
  "outputs_ok st \<longleftrightarrow> settled (ou_world st) \<and> register_ok (ou_register st)"

text \<open>The same devices are listed afterwards.\<close>

definition held :: "('c, 'e) outputs \<Rightarrow> ('c, 'e) outputs \<Rightarrow> bool" where
  "held st st' \<longleftrightarrow> outputs_ok st' \<and> labels (ou_devices st') = labels (ou_devices st)"

lemma held_refl: "outputs_ok st \<Longrightarrow> held st st" by (simp add: held_def)

lemma held_trans: "held st st1 \<Longrightarrow> held st1 st2 \<Longrightarrow> held st st2" by (simp add: held_def)

lemma held_ok: "held st st1 \<Longrightarrow> outputs_ok st1" by (simp add: held_def)

lemma addresses_labels: "addresses st = map snd (labels (ou_devices st))"
  by (simp add: addresses_def labels_def)

lemma held_addresses: "held st st1 \<Longrightarrow> addresses st1 = addresses st"
  by (simp add: held_def addresses_labels)

lemma outputs_ok_devices: "outputs_ok st \<Longrightarrow> devices_ok (ou_devices st)"
  by (simp add: outputs_ok_def world_ok_def)

lemma outputs_ok_put: "outputs_ok st \<Longrightarrow> devices_ok ds \<Longrightarrow> outputs_ok (put_devices ds st)"
  by (simp add: outputs_ok_def put_devices_def world_ok_devices)

lemma put_devices_simps [simp]:
  "ou_devices (put_devices ds st) = ds" "ou_register (put_devices ds st) = ou_register st"
  "ou_disabled (put_devices ds st) = ou_disabled st" "ou_master_volume (put_devices ds st) = ou_master_volume st"
  by (simp_all add: put_devices_def)

lemma outputs_ok_simps [simp]:
  "outputs_ok (st\<lparr>ou_master_volume := m\<rparr>) = outputs_ok st" "outputs_ok (st\<lparr>ou_deferred := b\<rparr>) = outputs_ok st"
  "outputs_ok (st\<lparr>ou_disabled := b\<rparr>) = outputs_ok st" "outputs_ok (st\<lparr>ou_calls := l\<rparr>) = outputs_ok st"
  by (simp_all add: outputs_ok_def)

lemma held_simps [simp]:
  "held st (st1\<lparr>ou_master_volume := m\<rparr>) = held st st1" "held st (st1\<lparr>ou_calls := l\<rparr>) = held st st1"
  "held (st\<lparr>ou_master_volume := m\<rparr>) st1 = held st st1"
  by (simp_all add: held_def)

subsection \<open>Devices\<close>

lemma device_at_listed:
  assumes "a \<in> set (addresses st)"
  obtains d where "device_at a st = Inr d" "d \<in> set (ou_devices st)" "dv_addr d = a"
proof -
  have "find (\<lambda>d. dv_addr d = a) (ou_devices st) \<noteq> None" using assms by (auto simp: addresses_def find_None_iff)
  then obtain d where d: "find (\<lambda>d. dv_addr d = a) (ou_devices st) = Some d" by blast
  then have "d \<in> set (ou_devices st)" "dv_addr d = a" by (auto simp: find_Some_iff)
  then show thesis using that d by (simp add: device_at_def)
qed

lemma device_at_no_session: "outputs_ok st \<Longrightarrow> device_at a st = Inr d \<Longrightarrow> dv_session d = None"
  using outputs_ok_devices [of st] by (auto simp: device_at_def devices_ok_def find_Some_iff split: option.splits)

lemma device_set_safe:
  assumes "outputs_ok st" and "a \<in> set (addresses st)"
    and "\<And>d. dv_id (f d) = dv_id d" "\<And>d. dv_addr (f d) = dv_addr d" "\<And>d. dv_session (f d) = dv_session d"
  shows "safe (held st) (device_set a f st)"
proof -
  obtain d where d: "device_at a st = Inr d" using assms(2) by (rule device_at_listed)
  let ?ds = "map (\<lambda>d. if dv_addr d = a then f d else d) (ou_devices st)"
  have l: "labels ?ds = labels (ou_devices st)" using assms(3,4) by (intro labels_map) simp_all
  have "devices_ok ?ds" using outputs_ok_devices [OF assms(1)] assms(5) by (auto simp: devices_ok_labels l)
  then show ?thesis using assms(1) l by (simp add: device_set_def d held_def outputs_ok_put)
qed

lemma relvols_labels:
  assumes "relvols m ds = Some ds'"
  shows "labels ds' = labels ds \<and> (\<forall>d' \<in> set ds'. \<exists>d \<in> set ds. dv_session d' = dv_session d)"
  using relvols_Some [OF assms] by (induction rule: list_all2_induct) (auto simp: labels_def)

lemma adjust_volumes_safe:
  assumes "outputs_ok st"
  shows "safe (held st) (adjust_volumes st)"
proof (cases "vol_adjust (ou_devices st)")
  case (Some r)
  obtain m ds where r: "r = (m, ds)" by (cases r)
  then have "relvols (vol_master (ou_devices st)) (ou_devices st) = Some ds"
    using Some by (auto simp: vol_adjust_def Let_def split: option.splits)
  note l = relvols_labels [OF this]
  have "devices_ok ds" using outputs_ok_devices [OF assms] l by (fastforce simp: devices_ok_labels)
  then show ?thesis using assms l by (simp add: adjust_volumes_def Some r held_def outputs_ok_put)
qed (simp add: adjust_volumes_def)

subsection \<open>Calls of the output\<close>

lemma fold_outputs_cb_ok: "register_ok reg \<Longrightarrow> register_ok (fst (fold outputs_cb answers (reg, active)))"
proof (induction answers arbitrary: reg active)
  case (Cons x answers)
  obtain reg1 active1 where r: "outputs_cb x (reg, active) = (reg1, active1)" by fastforce
  then have "register_ok reg1" using outputs_cb_ok [OF Cons.prems, of x active] by simp
  then show ?case using Cons.IH [of reg1 active1] by (simp add: r)
qed simp

lemma deliver_ok: "settled w \<Longrightarrow> register_ok (ou_register st) \<Longrightarrow> outputs_ok (deliver w st)"
  using fold_outputs_cb_ok [of "ou_register st" "drop (length (w_status (ou_world st))) (w_status w)" "ou_deferred st"]
  by (simp add: deliver_def outputs_ok_def case_prod_unfold)

lemma deliver_devices [simp]: "ou_devices (deliver w st) = w_devices w"
  by (simp add: deliver_def case_prod_unfold)

lemma register_cb_ok:
  assumes "outputs_ok st" and "a \<noteq> 0" and "register_cb a cb st = (k, st1)"
  shows "held st st1 \<and> ou_world st1 = ou_world st"
proof -
  obtain register where r: "callback_add a cb (ou_register st) = (k, register)" "st1 = st\<lparr>ou_register := register\<rparr>"
    using assms(3) by (auto simp: register_cb_def split: prod.splits)
  have "register_ok register"
    using assms(1,2) r(1) callback_add_registers(1) [of "ou_register st" a] by (cases cb) (auto simp: outputs_ok_def callback_add_def)
  then show ?thesis using assms(1) by (simp add: r(2) held_def outputs_ok_def)
qed

lemma listed_nonzero: "outputs_ok st \<Longrightarrow> a \<in> set (addresses st) \<Longrightarrow> a \<noteq> 0"
  using outputs_ok_devices [of st] by (auto simp: devices_ok_def addresses_def)

lemma call_output_safe:
  assumes "outputs_ok st" and "a \<in> set (addresses st)"
    and "\<And>k w. settled w \<Longrightarrow> safe (\<lambda>(ret, w1). settled w1 \<and> labels (w_devices w1) = labels (w_devices w)) (f k w)"
  shows "safe (\<lambda>(ret, st1). held st st1) (call_output a cb f st)"
proof -
  obtain k st1 where r: "register_cb a cb st = (k, st1)" by fastforce
  note k = register_cb_ok [OF assms(1) listed_nonzero [OF assms(1,2)] r]
  then have "settled (ou_world st1)" "register_ok (ou_register st1)" unfolding held_def outputs_ok_def by blast+
  moreover have "safe (\<lambda>(ret, w1). settled w1 \<and> labels (w_devices w1) = labels (ou_devices st1)) (f k (ou_world st1))"
    using assms(3) calculation(1) .
  ultimately show ?thesis using k by (auto simp: call_output_def r held_def deliver_ok elim!: safe_bind)
qed

lemma state_update_safe:
  assumes "case r of (ret, st1) \<Rightarrow> held st st1" and "a \<in> set (addresses st)"
  shows "safe (\<lambda>(ret, st1). held st st1) (device_state_update a r)"
proof -
  obtain ret st1 where r: "r = (ret, st1)" by (cases r)
  then have st1: "held st st1" using assms(1) by simp
  have "safe (held st1) (device_set a (\<lambda>d. d\<lparr>dv_state := OUTPUT_STATE_FAILED\<rparr>) st1)"
    using assms(2) held_addresses [OF st1] by (intro device_set_safe held_ok [OF st1]) simp_all
  then show ?thesis using st1 by (auto simp: device_state_update_def r elim!: safe_bind intro: held_trans)
qed

subsection \<open>Operations on one device\<close>

lemma start_safe:
  assumes "outputs_ok st" and "started A" and "a \<in> set (addresses st)"
  shows "safe (\<lambda>(ret, st1). held st st1) (outputs_device_start E A a cb only_probe st)"
proof -
  obtain d where d: "device_at a st = Inr d" using assms(3) by (rule device_at_listed)
  have "safe (\<lambda>(ret, st1). held st st1) (call_output a cb
      (if only_probe then airplay_device_probe E A d else airplay_device_start E A d) st)"
    using assms(1,3) device_start_safe [OF _ assms(2)] by (intro call_output_safe) auto
  then have "safe (\<lambda>(ret, st1). held st st1) (bind_res (call_output a cb
      (if only_probe then airplay_device_probe E A d else airplay_device_start E A d) st) (device_state_update a))"
    by (rule safe_bind) (rule state_update_safe, simp_all add: assms(3))
  then show ?thesis using assms(1) device_at_no_session [OF assms(1) d] by (simp add: outputs_device_start_def d held_refl)
qed

lemma authorize_safe:
  assumes "outputs_ok st" and "started A" and "a \<in> set (addresses st)"
  shows "safe (\<lambda>(ret, st1). held st st1) (outputs_device_authorize E A a pin cb st)"
proof -
  obtain d where d: "device_at a st = Inr d" using assms(3) by (rule device_at_listed)
  have "safe (\<lambda>(ret, st1). held st st1) (call_output a cb (airplay_device_authorize E A d pin) st)"
    using assms(1,3) device_start_safe [OF _ assms(2)] by (intro call_output_safe) auto
  then have "safe (\<lambda>(ret, st1). held st st1) (bind_res (call_output a cb (airplay_device_authorize E A d pin) st) (device_state_update a))"
    by (rule safe_bind) (rule state_update_safe, simp_all add: assms(3))
  then show ?thesis using assms(1) device_at_no_session [OF assms(1) d] by (simp add: outputs_device_authorize_def d held_refl)
qed

text \<open>The operations on a session: no device has one, so they do nothing.\<close>

lemma session_operations:
  assumes "outputs_ok st" and "a \<in> set (addresses st)"
  shows "outputs_device_stop E A a cb st = Inr (if ou_disabled st then -1 else 0, st)"
    and "outputs_device_flush E A a cb st = Inr (if ou_disabled st then -1 else 0, st)"
    and "outputs_device_volume_set E A a cb st = Inr (if ou_disabled st then -1 else 0, st)"
    and "outputs_device_stop_delayed a cb st = Inr (if ou_disabled st then -1 else 0, st)"
    and "outputs_device_cb_set a cb st = Inr st"
proof -
  obtain d where d: "device_at a st = Inr d" using assms(2) by (rule device_at_listed)
  note none = device_at_no_session [OF assms(1) d]
  show "outputs_device_stop E A a cb st = Inr (if ou_disabled st then -1 else 0, st)"
    "outputs_device_flush E A a cb st = Inr (if ou_disabled st then -1 else 0, st)"
    "outputs_device_volume_set E A a cb st = Inr (if ou_disabled st then -1 else 0, st)"
    "outputs_device_stop_delayed a cb st = Inr (if ou_disabled st then -1 else 0, st)"
    "outputs_device_cb_set a cb st = Inr st"
    by (simp_all add: outputs_device_stop_def outputs_device_flush_def outputs_device_volume_set_def
        outputs_device_stop_delayed_def outputs_device_cb_set_def d none)
qed

subsection \<open>Operations on the list\<close>

lemma held_bind: "safe (held st) m \<Longrightarrow> (\<And>st1. held st st1 \<Longrightarrow> safe Q (f st1)) \<Longrightarrow> safe Q (bind_res m f)"
  by (rule safe_bind)

lemma adjust_after:
  "safe (held st) m \<Longrightarrow> safe (held st) (bind_res m adjust_volumes)"
  by (rule held_bind) (auto intro: safe_mono [OF adjust_volumes_safe] held_trans held_ok)

lemma select_safe:
  assumes "outputs_ok st" and "a \<in> set (addresses st)"
  shows "safe (held st) (outputs_device_select a max_volume st)"
    and "safe (held st) (outputs_device_deselect a st)"
    and "safe (held st) (outputs_device_volume_register a absvol relvol st)"
proof -
  have set: "safe (held st) (device_set a f st)"
    if "\<And>d. dv_id (f d) = dv_id d" "\<And>d. dv_addr (f d) = dv_addr d" "\<And>d. dv_session (f d) = dv_session d" for f
    using that by (rule device_set_safe [OF assms])
  show "safe (held st) (outputs_device_select a max_volume st)" "safe (held st) (outputs_device_deselect a st)"
    unfolding outputs_device_select_def outputs_device_deselect_def by (rule adjust_after, rule set, simp_all)+
  show "safe (held st) (outputs_device_volume_register a absvol relvol st)"
    unfolding outputs_device_volume_register_def
    by (rule adjust_after) (simp add: set held_refl [OF assms(1)] split: option.split)
qed

lemma find_label:
  "outputs_device_get ds i = Some d \<Longrightarrow> d \<in> set ds \<and> dv_id d = i"
  by (auto simp: outputs_device_get_def find_Some_iff)

lemma remove_safe:
  assumes "outputs_ok st" and "a \<in> set (addresses st)"
  shows "safe (\<lambda>st1. outputs_ok st1 \<and> addresses st1 = filter (\<lambda>b. b \<noteq> a) (addresses st)) (outputs_device_remove E A a st)"
proof -
  obtain d where d: "device_at a st = Inr d" using assms(2) by (rule device_at_listed)
  let ?ds = "filter (\<lambda>d. dv_addr d \<noteq> a) (ou_devices st)"
  have l: "labels ?ds = filter (\<lambda>(i, b). b \<noteq> a) (labels (ou_devices st))"
    by (simp add: labels_def filter_map comp_def)
  have "devices_ok ?ds" using outputs_ok_devices [OF assms(1)] by (auto simp: devices_ok_def distinct_map_filter)
  then have "outputs_ok (put_devices ?ds st)" using assms(1) by (rule outputs_ok_put [rotated])
  then have "safe (held (put_devices ?ds st)) (adjust_volumes (put_devices ?ds st))" by (rule adjust_volumes_safe)
  then have "safe (\<lambda>st1. outputs_ok st1 \<and> addresses st1 = filter (\<lambda>b. b \<noteq> a) (addresses st)) (adjust_volumes (put_devices ?ds st))"
    by (rule safe_mono) (auto simp: held_def addresses_labels l filter_map comp_def case_prod_unfold)
  then show ?thesis using device_at_no_session [OF assms(1) d] by (simp add: outputs_device_remove_def d)
qed

lemma refresh_label [simp]:
  "dv_id (device_refresh add d) = dv_id d" "dv_addr (device_refresh add d) = dv_addr d"
  "dv_session (device_refresh add d) = dv_session d"
  by (simp_all add: device_refresh_def Let_def)

lemma sort_devices_ok: "devices_ok ds \<Longrightarrow> devices_ok (device_list_sort ds)"
proof -
  have "mset (map f (device_list_sort ds)) = mset (map f ds)" for f :: "output_device \<Rightarrow> 'a"
    using device_list_sort_props [of ds] by (simp add: mset_map)
  then have "distinct (map dv_id (device_list_sort ds)) = distinct (map dv_id ds)"
    "distinct (map dv_addr (device_list_sort ds)) = distinct (map dv_addr ds)"
    by (metis mset_eq_imp_distinct_iff)+
  then show "devices_ok ds \<Longrightarrow> devices_ok (device_list_sort ds)" by (simp add: devices_ok_def)
qed

text \<open>A device to add has an address of its own and no session.\<close>

definition addable :: "output_device \<Rightarrow> ('c, 'e) outputs \<Rightarrow> bool" where
  "addable d st \<longleftrightarrow> dv_session d = None \<and> dv_addr d \<noteq> 0 \<and> dv_addr d \<notin> set (addresses st)"

lemma add_safe:
  assumes "outputs_ok st" and "addable add st"
  shows "safe (\<lambda>(a, st1). outputs_ok st1 \<and> a \<in> set (addresses st1) \<and> set (addresses st) \<subseteq> set (addresses st1))
    (outputs_device_add add new_deselect st)"
proof -
  define r where "r = (case outputs_device_get (ou_devices st) (dv_id add) of
      None \<Rightarrow> (dv_addr add,
        add\<lparr>dv_selected := (if new_deselect then False else dv_selected add), dv_stop_timer := False\<rparr> # ou_devices st)
    | Some d \<Rightarrow> (dv_addr d, map (\<lambda>e. if dv_addr e = dv_addr d then device_refresh add e else e) (ou_devices st)))"
  obtain a ds where ds: "r = (a, ds)" by (cases r)
  have "devices_ok ds \<and> a \<in> dv_addr ` set ds \<and> set (addresses st) \<subseteq> dv_addr ` set ds"
  proof (cases "outputs_device_get (ou_devices st) (dv_id add)")
    case None
    then have "dv_id add \<notin> set (map dv_id (ou_devices st))" by (auto simp: outputs_device_get_def find_None_iff)
    then show ?thesis using ds outputs_ok_devices [OF assms(1)] assms(2)
      by (auto simp: r_def None devices_ok_def addable_def addresses_def)
  next
    case (Some d)
    let ?f = "\<lambda>e. if dv_addr e = dv_addr d then device_refresh add e else e"
    have r: "a = dv_addr d" "ds = map ?f (ou_devices st)" using ds by (auto simp: r_def Some)
    have l: "labels ds = labels (ou_devices st)" unfolding r by (intro labels_map) simp_all
    have "devices_ok ds" using outputs_ok_devices [OF assms(1)] by (auto simp: devices_ok_labels l) (auto simp: r split: if_splits)
    moreover have "dv_addr ` set ds = set (addresses st)" using arg_cong [OF l, of "\<lambda>l. set (map snd l)"]
      by (simp add: labels_def addresses_def image_image)
    ultimately show ?thesis using find_label [OF Some] by (auto simp: r addresses_def)
  qed
  then have ok: "outputs_ok (put_devices (device_list_sort ds) st)" and a: "a \<in> dv_addr ` set ds"
    and sub: "set (addresses st) \<subseteq> dv_addr ` set ds"
    using assms(1) by (auto intro: outputs_ok_put sort_devices_ok)
  let ?st = "put_devices (device_list_sort ds) st"
  have as: "set (addresses ?st) = dv_addr ` set ds" by (simp add: addresses_def)
  have "safe (\<lambda>(a, st1). outputs_ok st1 \<and> a \<in> set (addresses st1) \<and> set (addresses st) \<subseteq> set (addresses st1))
      (bind_res (adjust_volumes ?st) (\<lambda>st1. bind_res (device_set a (\<lambda>d. d\<lparr>dv_advertised := True\<rparr>) st1) (\<lambda>st2. Inr (a, st2))))"
  proof (rule held_bind [OF adjust_volumes_safe [OF ok]])
    fix st1 assume h: "held ?st st1"
    then have "safe (held st1) (device_set a (\<lambda>d. d\<lparr>dv_advertised := True\<rparr>) st1)"
      using a as by (intro device_set_safe) (simp_all add: held_ok held_addresses)
    then show "safe (\<lambda>(a, st1). outputs_ok st1 \<and> a \<in> set (addresses st1) \<and> set (addresses st) \<subseteq> set (addresses st1))
        (bind_res (device_set a (\<lambda>d. d\<lparr>dv_advertised := True\<rparr>) st1) (\<lambda>st2. Inr (a, st2)))"
      using a as sub held_addresses [OF h] by (auto elim!: safe_bind simp: held_ok held_addresses)
  qed
  then show ?thesis unfolding outputs_device_add_def r_def [symmetric] ds Let_def by simp
qed

end
