(* ===== verification/Outputs_Runs.thy ===== *)
theory Outputs_Runs
  imports Outputs_Safety
begin

text \<open>
  Runs of the interface between the player and the AirPlay output: the loops over all devices, the deferred
  callbacks, and sequences of calls and events.
\<close>

subsection \<open>The loops\<close>

lemma stop_unselected_nothing:
  "outputs_ok st \<Longrightarrow> set as \<subseteq> set (addresses st) \<Longrightarrow> stop_unselected E A cb as n st = Inr (n, st)"
proof (induction as arbitrary: n)
  case (Cons a as)
  then have a: "a \<in> set (addresses st)" by simp
  then obtain d where "device_at a st = Inr d" by (rule device_at_listed)
  then show ?case using Cons session_operations(1) [OF Cons.prems(1) a, of E A cb] by simp
qed simp

lemma all_devices_nothing:
  assumes "\<And>a. a \<in> set as \<Longrightarrow> f a st = Inr (ret, st)" and "ret \<le> 0"
  shows "all_devices f as n st = Inr (n, st)"
  using assms(1) by (induction as arbitrary: n) (use assms(2) in auto)

lemma outputs_stop_nothing:
  assumes "outputs_ok st"
  shows "outputs_stop E A cb st = Inr (0, st)" "outputs_flush E A cb st = Inr (0, st)"
  unfolding outputs_stop_def outputs_flush_def
  by (rule all_devices_nothing [where ret = "if ou_disabled st then -1 else 0"], simp_all add: session_operations [OF assms])+

lemma start_selected_safe:
  "outputs_ok st \<Longrightarrow> started A \<Longrightarrow> set as \<subseteq> set (addresses st)
    \<Longrightarrow> safe (\<lambda>(ret, n, st1). held st st1) (start_selected E A cb only_probe as ret n st)"
proof (induction as arbitrary: ret n st)
  case (Cons a as)
  then have a: "a \<in> set (addresses st)" by simp
  then obtain d where d: "device_at a st = Inr d" by (rule device_at_listed)
  have next_one: "safe (\<lambda>(ret, n, st1). held st st1) (start_selected E A cb only_probe as ret1 n1 st1)"
    if "held st st1" for ret1 n1 st1
  proof -
    have "safe (\<lambda>(ret, n, st2). held st1 st2) (start_selected E A cb only_probe as ret1 n1 st1)"
      using Cons that by (intro Cons.IH) (simp_all add: held_ok held_addresses)
    then show ?thesis using that by (auto elim!: safe_mono intro: held_trans)
  qed
  show ?case
  proof (cases "dv_selected d")
    case True
    have "safe (\<lambda>(ret, n, st1). held st st1) (bind_res (outputs_device_start E A a cb only_probe st) (\<lambda>(ret1, st1).
        start_selected E A cb only_probe as ret1 (if ret1 > 0 then n + ret1 else n) st1))"
      by (rule safe_bind [OF start_safe [OF Cons.prems(1,2) a]]) (use next_one in auto)
    then show ?thesis using True by (simp add: d)
  qed (use next_one [OF held_refl [OF Cons.prems(1)]] in \<open>simp add: d\<close>)
qed (simp add: held_refl)

lemma outputs_start_safe:
  assumes "outputs_ok st" and "started A"
  shows "safe (\<lambda>(ret, st1). held st st1) (outputs_start E A started_cb stopped_cb only_probe st)"
proof -
  have "safe (\<lambda>(ret, n, st1). held st st1) (start_selected E A started_cb only_probe (addresses st) 0 0 st)"
    using assms by (intro start_selected_safe) simp_all
  then have "safe (\<lambda>(ret, st1). held st st1) (bind_res (start_selected E A started_cb only_probe (addresses st) 0 0 st)
      (\<lambda>(ret, n, st2). Inr (if n > 0 then n else ret, st2)))"
    by (rule safe_bind) auto
  then show ?thesis by (simp add: outputs_start_def stop_unselected_nothing [OF assms(1)])
qed

lemma set_volume_one_safe:
  assumes "outputs_ok st" and "a \<in> set (addresses st)"
  shows "safe (\<lambda>(ret, st1). held st st1) (set_volume_one E A cb a st)"
proof -
  obtain d where d: "device_at a st = Inr d" using assms(2) by (rule device_at_listed)
  have "safe (\<lambda>(ret, st1). held st st1) (bind_res (device_set a (\<lambda>d. d\<lparr>dv_volume := v\<rparr>) st) (outputs_device_volume_set E A a cb))" for v
  proof (rule held_bind)
    show "safe (held st) (device_set a (\<lambda>d. d\<lparr>dv_volume := v\<rparr>) st)" using assms by (intro device_set_safe) simp_all
    fix st1 assume h: "held st st1"
    then have "outputs_device_volume_set E A a cb st1 = Inr (if ou_disabled st1 then -1 else 0, st1)"
      using assms(2) by (intro session_operations(3)) (simp_all add: held_ok held_addresses)
    then show "safe (\<lambda>(ret, st1). held st st1) (outputs_device_volume_set E A a cb st1)" using h by simp
  qed
  then show ?thesis using assms(1) by (simp add: set_volume_one_def d held_refl split: option.split)
qed

lemma all_devices_safe:
  fixes f :: "nat \<Rightarrow> ('c, 'e) outputs \<Rightarrow> (int \<times> ('c, 'e) outputs) wres"
  assumes "\<And>a st. outputs_ok st \<Longrightarrow> a \<in> set (addresses st) \<Longrightarrow> safe (\<lambda>(ret, st1). held st st1) (f a st)"
  shows "outputs_ok st \<Longrightarrow> set as \<subseteq> set (addresses st) \<Longrightarrow> safe (\<lambda>(ret, st1). held st st1) (all_devices f as n st)"
proof (induction as arbitrary: n st)
  case (Cons a as)
  have "safe (\<lambda>(ret, st1). held st st1) (bind_res (f a st) (\<lambda>(ret, st1). all_devices f as (if ret < 0 then n else n + ret) st1))"
  proof (rule safe_bind [OF assms [of st a]])
    fix x :: "int \<times> ('c, 'e) outputs"
    assume x: "case x of (ret, st1) \<Rightarrow> held st st1"
    obtain ret st1 where x_def: "x = (ret, st1)" by (cases x)
    then have h: "held st st1" using x by simp
    have "safe (\<lambda>(ret, st2). held st1 st2) (all_devices f as (if ret < 0 then n else n + ret) st1)"
      using Cons h by (intro Cons.IH) (simp_all add: held_ok held_addresses)
    then show "safe (\<lambda>(ret, st1). held st st1) (case x of (ret, st1) \<Rightarrow> all_devices f as (if ret < 0 then n else n + ret) st1)"
      using h by (auto simp: x_def elim!: safe_mono intro: held_trans)
  qed (use Cons in simp_all)
  then show ?case by simp
qed (simp add: held_refl)

lemma outputs_volume_set_safe:
  assumes "outputs_ok st"
  shows "safe (\<lambda>(ret, st1). outputs_ok st1) (outputs_volume_set E A volume cb st)"
proof -
  let ?st = "st\<lparr>ou_master_volume := volume\<rparr>"
  have "safe (\<lambda>(ret, st1). held ?st st1) (all_devices (set_volume_one E A cb) (addresses ?st) 0 ?st)"
    using assms by (intro all_devices_safe set_volume_one_safe) simp_all
  then have "safe (\<lambda>(ret, st1). outputs_ok st1) (all_devices (set_volume_one E A cb) (addresses ?st) 0 ?st)"
    by (rule safe_mono) (auto simp: held_def)
  then show ?thesis using assms by (simp add: outputs_volume_set_def Let_def)
qed

subsection \<open>Deferred callbacks\<close>

text \<open>What the player may do in a callback: anything that keeps the invariant.\<close>

definition player_ok :: "('c, 'e) player \<Rightarrow> bool" where
  "player_ok player \<longleftrightarrow> (\<forall>c a state st. outputs_ok st \<longrightarrow> (a \<noteq> 0 \<longrightarrow> a \<in> set (addresses st)) \<longrightarrow> safe outputs_ok (player c a state st))"

lemma make_callback_safe:
  assumes "player_ok player" and "outputs_ok st" and "a \<noteq> 0 \<longrightarrow> a \<in> set (addresses st)"
  shows "safe outputs_ok (make_callback player cb a state st)"
proof (cases cb)
  case (Some c)
  let ?st = "st\<lparr>ou_calls := ou_calls st @ [(c, a, state)]\<rparr>"
  have st: "outputs_ok ?st" "a \<noteq> 0 \<longrightarrow> a \<in> set (addresses ?st)" using assms(2,3) by (simp_all add: addresses_def)
  show ?thesis
  proof (cases c)
    case Device_stop_cb
    have "safe (held ?st) (device_set a (\<lambda>d. d\<lparr>dv_state := state\<rparr>) ?st)" if "a \<noteq> 0"
      using st that by (intro device_set_safe) simp_all
    then have "safe outputs_ok (device_stop_cb a state ?st)"
      using st(1) by (cases "a = 0") (auto simp: device_stop_cb_def elim!: safe_mono intro: held_ok)
    then show ?thesis by (simp add: make_callback_def Some Device_stop_cb Let_def)
  next
    case (Player_cb p)
    then show ?thesis using assms(1) st by (simp add: make_callback_def Some player_ok_def)
  qed
qed (simp add: make_callback_def)

lemma deferred_slot_safe:
  assumes "player_ok player" and "outputs_ok st"
  shows "safe outputs_ok (deferred_slot player E A i st)"
proof -
  let ?s = "ou_register st ! i" and ?st = "st\<lparr>ou_register := (ou_register st)[i := slot_zero]\<rparr>"
  have st: "outputs_ok ?st" and as: "addresses ?st = addresses st"
    using assms(2) by (simp_all add: outputs_ok_def register_zero addresses_def)
  have listed: "dv_addr d \<in> set (addresses ?st)" if "outputs_device_get (ou_devices st) (sl_device_id ?s) = Some d" for d
    using find_label [OF that] by (simp add: addresses_def)
  have remove: "safe outputs_ok (bind_res (outputs_device_remove E A (dv_addr d) ?st) (make_callback player (sl_cb ?s) 0 (sl_state ?s)))"
    if "outputs_device_get (ou_devices st) (sl_device_id ?s) = Some d" for d
    by (rule safe_bind [OF remove_safe [OF st listed [OF that]]]) (auto intro: make_callback_safe assms(1))
  have call: "safe outputs_ok (bind_res (device_set (dv_addr d) (\<lambda>d. d\<lparr>dv_state := sl_state ?s\<rparr>) ?st)
      (make_callback player (sl_cb ?s) (dv_addr d) (sl_state ?s)))"
    if "outputs_device_get (ou_devices st) (sl_device_id ?s) = Some d" for d
  proof (rule held_bind)
    show "safe (held ?st) (device_set (dv_addr d) (\<lambda>d. d\<lparr>dv_state := sl_state ?s\<rparr>) ?st)"
      using listed [OF that] by (intro device_set_safe [OF st]) simp_all
    fix st1 assume "held ?st st1"
    then show "safe outputs_ok (make_callback player (sl_cb ?s) (dv_addr d) (sl_state ?s) st1)"
      using listed [OF that] by (intro make_callback_safe assms(1)) (simp_all add: held_ok held_addresses)
  qed
  have gone: "safe outputs_ok (make_callback player (sl_cb ?s) 0 (sl_state ?s) ?st)"
    by (rule make_callback_safe [OF assms(1) st]) simp
  show ?thesis using assms(2) remove call gone unfolding deferred_slot_def Let_def
    by (simp split: option.split)
qed

lemma deferred_cb_safe:
  assumes "player_ok player" and "outputs_ok st"
  shows "safe outputs_ok (deferred_cb player E A st)"
proof -
  have "outputs_ok st \<Longrightarrow> safe outputs_ok (deferred_slots player E A is st)" for "is" st
  proof (induction "is" arbitrary: st)
    case (Cons i js)
    show ?case unfolding deferred_slots.simps
      by (rule safe_bind [OF deferred_slot_safe [OF assms(1) Cons.prems]]) (rule Cons.IH)
  qed simp
  then show ?thesis using assms(2) by (simp add: deferred_cb_def)
qed

subsection \<open>Runs\<close>

datatype 'c outputs_event =
  Do_add output_device bool | Do_remove nat | Do_select nat int | Do_deselect nat | Do_volume_register nat int int
| Do_start nat 'c bool | Do_authorize nat bytes 'c | Do_stop nat 'c | Do_stop_delayed nat 'c | Do_flush nat 'c
| Do_volume nat 'c | Do_cb_set nat 'c | Do_start_all 'c 'c bool | Do_stop_all 'c | Do_cancel_stop | Do_flush_all 'c
| Do_volume_all int 'c | Stop_timer nat | Deferred_callbacks | Output airplay_event

definition only_state :: "('a \<times> ('c, 'e) outputs) wres \<Rightarrow> ('c, 'e) outputs wres" where
  "only_state r = bind_res r (\<lambda>(x, st). Inr st)"

fun outputs_step ::
  "readln \<Rightarrow> ('c, 'e) player \<Rightarrow> 'p airplay_env \<Rightarrow> answers \<Rightarrow> 'c outputs_event \<Rightarrow> ('c, 'e) outputs \<Rightarrow> ('c, 'e) outputs wres" where
  "outputs_step readln player E A (Do_add d b) st = only_state (outputs_device_add d b st)"
| "outputs_step readln player E A (Do_remove a) st = outputs_device_remove E A a st"
| "outputs_step readln player E A (Do_select a v) st = outputs_device_select a v st"
| "outputs_step readln player E A (Do_deselect a) st = outputs_device_deselect a st"
| "outputs_step readln player E A (Do_volume_register a absvol relvol) st = outputs_device_volume_register a absvol relvol st"
| "outputs_step readln player E A (Do_start a c only_probe) st = only_state (outputs_device_start E A a (Some (Player_cb c)) only_probe st)"
| "outputs_step readln player E A (Do_authorize a pin c) st = only_state (outputs_device_authorize E A a pin (Some (Player_cb c)) st)"
| "outputs_step readln player E A (Do_stop a c) st = only_state (outputs_device_stop E A a (Some (Player_cb c)) st)"
| "outputs_step readln player E A (Do_stop_delayed a c) st = only_state (outputs_device_stop_delayed a (Some (Player_cb c)) st)"
| "outputs_step readln player E A (Do_flush a c) st = only_state (outputs_device_flush E A a (Some (Player_cb c)) st)"
| "outputs_step readln player E A (Do_volume a c) st = only_state (outputs_device_volume_set E A a (Some (Player_cb c)) st)"
| "outputs_step readln player E A (Do_cb_set a c) st = outputs_device_cb_set a (Some (Player_cb c)) st"
| "outputs_step readln player E A (Do_start_all c c' only_probe) st =
     only_state (outputs_start E A (Some (Player_cb c)) (Some (Player_cb c')) only_probe st)"
| "outputs_step readln player E A (Do_stop_all c) st = only_state (outputs_stop E A (Some (Player_cb c)) st)"
| "outputs_step readln player E A Do_cancel_stop st = Inr (snd (outputs_stop_delayed_cancel st))"
| "outputs_step readln player E A (Do_flush_all c) st = only_state (outputs_flush E A (Some (Player_cb c)) st)"
| "outputs_step readln player E A (Do_volume_all v c) st = only_state (outputs_volume_set E A v (Some (Player_cb c)) st)"
| "outputs_step readln player E A (Stop_timer a) st = stop_timer_cb E A a st"
| "outputs_step readln player E A Deferred_callbacks st = deferred_cb player E A st"
| "outputs_step readln player E A (Output e) st = bind_res (airplay_step readln E A e (ou_world st)) (\<lambda>w. Inr (deliver w st))"

text \<open>A call names a listed device; an event of the output is one that can happen, and not a call.\<close>

fun outputs_possible :: "'c outputs_event \<Rightarrow> ('c, 'e) outputs \<Rightarrow> bool" where
  "outputs_possible (Do_add d b) st = addable d st"
| "outputs_possible (Do_remove a) st = (a \<in> set (addresses st))"
| "outputs_possible (Do_select a v) st = (a \<in> set (addresses st))"
| "outputs_possible (Do_deselect a) st = (a \<in> set (addresses st))"
| "outputs_possible (Do_volume_register a absvol relvol) st = (a \<in> set (addresses st))"
| "outputs_possible (Do_start a c only_probe) st = (a \<in> set (addresses st))"
| "outputs_possible (Do_authorize a pin c) st = (a \<in> set (addresses st))"
| "outputs_possible (Do_stop a c) st = (a \<in> set (addresses st))"
| "outputs_possible (Do_stop_delayed a c) st = (a \<in> set (addresses st))"
| "outputs_possible (Do_flush a c) st = (a \<in> set (addresses st))"
| "outputs_possible (Do_volume a c) st = (a \<in> set (addresses st))"
| "outputs_possible (Do_cb_set a c) st = (a \<in> set (addresses st))"
| "outputs_possible (Stop_timer a) st = (\<exists>d \<in> set (ou_devices st). dv_addr d = a \<and> dv_stop_timer d)"
| "outputs_possible Deferred_callbacks st = ou_deferred st"
| "outputs_possible (Output e) st =
     (possible e (ou_world st) \<and> (case e of Deferred p \<Rightarrow> True | Connection_event p ev \<Rightarrow> True | Keep_alive \<Rightarrow> True
        | Metadata_send md \<Rightarrow> True | Metadata_purge \<Rightarrow> True | _ \<Rightarrow> False))"
| "outputs_possible _ st = True"

inductive outputs_run ::
  "readln \<Rightarrow> ('c, 'e) player \<Rightarrow> 'p airplay_env \<Rightarrow> ('c, 'e) outputs \<Rightarrow> (answers \<times> 'c outputs_event) list \<Rightarrow> ('c, 'e) outputs \<Rightarrow> bool"
  for readln :: readln and player :: "('c, 'e) player" and E :: "'p airplay_env" where
  outputs_Nil: "outputs_run readln player E st [] st"
| outputs_Cons: "outputs_possible e st \<Longrightarrow> outputs_step readln player E A e st = Inr st1 \<Longrightarrow> outputs_run readln player E st1 es st2
     \<Longrightarrow> outputs_run readln player E st ((A, e) # es) st2"

inductive_cases outputs_run_ConsE: "outputs_run readln player E st (x # es) st'"

definition outputs_new :: "('c, 'e) outputs" where
  "outputs_new = \<lparr>ou_world = world_new [], ou_master_volume = -1, ou_register = register_new, ou_deferred = False,
     ou_disabled = False, ou_calls = []\<rparr>"

lemma outputs_new_ok: "outputs_ok (outputs_new :: ('c, 'e) outputs)"
  by (simp add: outputs_ok_def outputs_new_def world_new_ok devices_ok_def register_new_ok)

text \<open>The connections come about, as in \<open>session_lifetime\<close>.\<close>

definition connects :: "answers \<times> 'c outputs_event \<Rightarrow> bool" where
  "connects x \<longleftrightarrow> started (fst x) \<and> (case snd x of Output e \<Rightarrow> goes_well (fst x, e) | _ \<Rightarrow> True)"

lemma only_state_safe: "safe (\<lambda>(x, st). P st) r \<Longrightarrow> safe P (only_state r)"
  by (auto simp: only_state_def elim!: safe_bind)

lemma held_state: "safe (\<lambda>(x, st1). held st st1) r \<Longrightarrow> safe outputs_ok (only_state r)"
  by (rule only_state_safe) (auto elim!: safe_mono intro: held_ok)

lemma outputs_step_safe:
  assumes "readln_ok readln" and "player_ok player" and "outputs_ok st" and "outputs_possible e st" and "connects (A, e)"
  shows "safe outputs_ok (outputs_step readln player E A e st)"
proof -
  have st: "started A" using assms(5) by (simp add: connects_def)
  have held: "safe (held st) m \<Longrightarrow> safe outputs_ok m" for m by (erule safe_mono) (rule held_ok)
  show ?thesis
  proof (cases e)
    case (Do_add d b)
    then show ?thesis using add_safe [OF assms(3), of d b] assms(4) by (auto intro!: only_state_safe elim!: safe_mono)
  next
    case (Do_remove a)
    then show ?thesis using remove_safe [OF assms(3), of a E A] assms(4) by (auto elim!: safe_mono)
  next
    case (Stop_timer a)
    then have a: "a \<in> set (addresses st)" using assms(4) by (auto simp: addresses_def)
    have "safe outputs_ok (bind_res (device_set a (\<lambda>d. d\<lparr>dv_stop_timer := False\<rparr>) st)
        (\<lambda>st1. bind_res (outputs_device_stop E A a (callback_get a (ou_register st1)) st1) (\<lambda>(ret, st2). Inr st2)))"
    proof (rule held_bind [of st])
      show "safe (held st) (device_set a (\<lambda>d. d\<lparr>dv_stop_timer := False\<rparr>) st)" using a by (intro device_set_safe assms(3)) simp_all
      fix st1 assume h: "held st st1"
      then have "a \<in> set (addresses st1)" using a by (simp add: held_addresses)
      note stop = session_operations(1) [OF held_ok [OF h] this]
      show "safe outputs_ok (bind_res (outputs_device_stop E A a (callback_get a (ou_register st1)) st1) (\<lambda>(ret, st2). Inr st2))"
        by (simp add: stop held_ok [OF h])
    qed
    then show ?thesis by (simp add: Stop_timer stop_timer_cb_def)
  next
    case (Output ev)
    have "settled (ou_world st)" using assms(3) by (simp add: outputs_ok_def)
    then have "safe settled (airplay_step readln E A ev (ou_world st))"
      using assms(4,5) by (intro airplay_step_safe [OF assms(1)]) (simp_all add: Output connects_def)
    moreover have "outputs_ok (deliver w st)" if "settled w" for w
      using assms(3) that by (intro deliver_ok) (simp_all add: outputs_ok_def)
    ultimately show ?thesis by (auto simp: Output elim!: safe_bind)
  next
    case Deferred_callbacks
    then show ?thesis using deferred_cb_safe [OF assms(2,3)] by simp
  next
    case (Do_volume_all v c)
    then show ?thesis using outputs_volume_set_safe [OF assms(3)] by (auto intro!: only_state_safe)
  next
    case Do_cancel_stop
    have l: "labels (map (\<lambda>d. d\<lparr>dv_stop_timer := False\<rparr>) (ou_devices st)) = labels (ou_devices st)" by (rule labels_map) simp_all
    have "devices_ok (map (\<lambda>d. d\<lparr>dv_stop_timer := False\<rparr>) (ou_devices st))"
      using outputs_ok_devices [OF assms(3)] by (auto simp: devices_ok_labels l)
    then show ?thesis using assms(3) by (simp add: Do_cancel_stop outputs_stop_delayed_cancel_def outputs_ok_put)
  qed (use assms(3,4) st in \<open>auto simp: outputs_stop_nothing session_operations only_state_def [of "Inr x" for x]
      intro!: held_state start_safe authorize_safe outputs_start_safe intro: held select_safe\<close>)
qed


end
