(* ===== verification/Outputs_Deferred.thy ===== *)
theory Outputs_Deferred
  imports Outputs_Safety
begin

text \<open>
  What the deferred callbacks of \<open>src/outputs.c\<close> do: every answer that has come in is passed on once.
\<close>

text \<open>The devices are where they were, and all are advertised.\<close>

definition stays :: "('c, 'e) outputs \<Rightarrow> ('c, 'e) outputs \<Rightarrow> bool" where
  "stays st st' \<longleftrightarrow> labels (ou_devices st') = labels (ou_devices st) \<and> (\<forall>d \<in> set (ou_devices st'). dv_advertised d)"

definition address_of :: "('c, 'e) outputs \<Rightarrow> u64 \<Rightarrow> nat" where
  "address_of st i = (case outputs_device_get (ou_devices st) i of None \<Rightarrow> 0 | Some d \<Rightarrow> dv_addr d)"

text \<open>The call that a slot is for.\<close>

definition slot_call :: "('c, 'e) outputs \<Rightarrow> 'c output_cb slot \<Rightarrow> 'c output_cb \<times> nat \<times> output_device_state" where
  "slot_call st s = (the (sl_cb s), address_of st (sl_device_id s), sl_state s)"

definition emptied :: "'c slot \<Rightarrow> 'c slot" where
  "emptied s = (if sl_ready s then slot_zero else s)"

lemma address_of_labels: "labels (ou_devices st') = labels (ou_devices st) \<Longrightarrow> address_of st' = address_of st"
proof -
  have "(case outputs_device_get ds i of None \<Rightarrow> 0 | Some d \<Rightarrow> dv_addr d)
      = (case find (\<lambda>(j, a). i = j) (labels ds) of None \<Rightarrow> 0 | Some (j, a) \<Rightarrow> a)" for ds i
    by (induction ds) (auto simp: labels_def)
  then show "labels (ou_devices st') = labels (ou_devices st) \<Longrightarrow> address_of st' = address_of st"
    by (simp add: address_of_def fun_eq_iff)
qed

lemma device_set_stays:
  assumes "a \<in> set (addresses st)" and "\<forall>d \<in> set (ou_devices st). dv_advertised d"
  obtains st1 where "device_set a (\<lambda>d. d\<lparr>dv_state := s\<rparr>) st = Inr st1" "stays st st1" "ou_register st1 = ou_register st"
    "ou_calls st1 = ou_calls st"
proof -
  obtain d where d: "device_at a st = Inr d" using assms(1) by (rule device_at_listed)
  let ?ds = "map (\<lambda>d. if dv_addr d = a then d\<lparr>dv_state := s\<rparr> else d) (ou_devices st)"
  have "labels ?ds = labels (ou_devices st)" by (rule labels_map) simp_all
  then have "stays st (put_devices ?ds st)" using assms(2) by (auto simp: stays_def)
  then show thesis using that [of "put_devices ?ds st"] d by (simp add: device_set_def put_devices_def)
qed

lemma make_callback_stays:
  assumes "\<forall>c a s st. player c a s st = Inr st" and "a \<noteq> 0 \<longrightarrow> a \<in> set (addresses st)" and "\<forall>d \<in> set (ou_devices st). dv_advertised d"
  obtains st1 where "make_callback player (Some c) a s st = Inr st1" "stays st st1" "ou_register st1 = ou_register st"
    "ou_calls st1 = ou_calls st @ [(c, a, s)]"
proof -
  let ?st = "st\<lparr>ou_calls := ou_calls st @ [(c, a, s)]\<rparr>"
  show thesis
  proof (cases "c = Device_stop_cb \<and> a \<noteq> 0")
    case True
    have "a \<in> set (addresses ?st)" "\<forall>d \<in> set (ou_devices ?st). dv_advertised d"
      using True assms(2,3) by (simp_all add: addresses_def)
    then obtain st1 where "device_set a (\<lambda>d. d\<lparr>dv_state := s\<rparr>) ?st = Inr st1" "stays ?st st1" "ou_register st1 = ou_register ?st"
      "ou_calls st1 = ou_calls ?st" by (rule device_set_stays [where s = s])
    then show thesis using that [of st1] True by (simp add: make_callback_def device_stop_cb_def stays_def)
  next
    case False
    then have "make_callback player (Some c) a s st = Inr ?st"
      using assms(1) by (cases c) (simp_all add: make_callback_def device_stop_cb_def)
    then show thesis using that [of ?st] assms(3) by (simp add: stays_def)
  qed
qed

lemma deferred_slot_stays:
  assumes "\<forall>c a s st. player c a s st = Inr st" and "register_ok (ou_register st)" and "\<forall>d \<in> set (ou_devices st). dv_advertised d"
    and "i < length (ou_register st)"
  obtains st1 where "deferred_slot player E A i st = Inr st1" "stays st st1"
    "ou_register st1 = (ou_register st)[i := emptied (ou_register st ! i)]"
    "ou_calls st1 = ou_calls st @ (if sl_ready (ou_register st ! i) then [slot_call st (ou_register st ! i)] else [])"
proof (cases "sl_ready (ou_register st ! i)")
  case False
  then show thesis using that [of st] assms(3) by (simp add: deferred_slot_def stays_def emptied_def)
next
  case True
  let ?s = "ou_register st ! i" and ?st = "st\<lparr>ou_register := (ou_register st)[i := slot_zero]\<rparr>"
  have "sl_cb ?s \<noteq> None" using register_slot [OF assms(2,4)] True by (auto split: if_splits)
  then obtain c where c: "sl_cb ?s = Some c" by blast
  have adv: "\<forall>d \<in> set (ou_devices ?st). dv_advertised d" using assms(3) by simp
  note result = that
  have finish: thesis
    if a: "a = address_of st (sl_device_id ?s)" and r: "deferred_slot player E A i st = make_callback player (Some c) a (sl_state ?s) st2"
      and st2: "stays ?st st2" "ou_register st2 = ou_register ?st" "ou_calls st2 = ou_calls ?st" "a \<noteq> 0 \<longrightarrow> a \<in> set (addresses st2)"
    for a st2
  proof -
    have "\<forall>d \<in> set (ou_devices st2). dv_advertised d" using st2(1) by (simp add: stays_def)
    with assms(1) st2(4) obtain st1 where "make_callback player (Some c) a (sl_state ?s) st2 = Inr st1" "stays st2 st1"
      "ou_register st1 = ou_register st2" "ou_calls st1 = ou_calls st2 @ [(c, a, sl_state ?s)]"
      by (rule make_callback_stays)
    then show thesis using result [of st1] r st2 True a c by (simp add: stays_def emptied_def slot_call_def)
  qed
  show thesis
  proof (cases "outputs_device_get (ou_devices st) (sl_device_id ?s)")
    case None
    then show thesis using adv True c
      by (intro finish [of 0 ?st]) (simp_all add: address_of_def deferred_slot_def Let_def stays_def)
  next
    case (Some d)
    have listed: "dv_addr d \<in> set (addresses ?st)" and d: "dv_advertised d"
      using find_label [OF Some] assms(3) by (simp_all add: addresses_def)
    obtain st2 where st2: "device_set (dv_addr d) (\<lambda>d. d\<lparr>dv_state := sl_state ?s\<rparr>) ?st = Inr st2" "stays ?st st2"
      "ou_register st2 = ou_register ?st" "ou_calls st2 = ou_calls ?st" by (rule device_set_stays [OF listed adv])
    have "addresses st2 = addresses ?st" using st2(2) by (simp add: stays_def addresses_labels)
    then show thesis using st2 True c d listed
      by (intro finish [of "dv_addr d" st2]) (simp_all add: address_of_def deferred_slot_def Let_def Some)
  qed
qed

lemma deferred_slots_stay:
  assumes "\<forall>c a s st. player c a s st = Inr st" and "k \<le> n"
  shows "n = length (ou_register st) \<Longrightarrow> register_ok (ou_register st) \<Longrightarrow> \<forall>d \<in> set (ou_devices st). dv_advertised d \<Longrightarrow>
    \<exists>st1. deferred_slots player E A [k..<n] st = Inr st1 \<and> stays st st1
      \<and> ou_register st1 = take k (ou_register st) @ map emptied (drop k (ou_register st))
      \<and> ou_calls st1 = ou_calls st @ map (slot_call st) (filter sl_ready (drop k (ou_register st)))"
  using assms(2)
proof (induction k arbitrary: st rule: inc_induct)
  case base
  then show ?case by (simp add: stays_def)
next
  case (step k)
  let ?r = "ou_register st"
  have k: "k < length ?r" using step by simp
  obtain st1 where st1: "deferred_slot player E A k st = Inr st1" "stays st st1" "ou_register st1 = ?r[k := emptied (?r ! k)]"
    "ou_calls st1 = ou_calls st @ (if sl_ready (?r ! k) then [slot_call st (?r ! k)] else [])"
    by (rule deferred_slot_stays [OF assms(1) step.prems(2,3) k])
  have "register_ok (ou_register st1)"
    using step.prems(2) by (simp add: st1(3) emptied_def register_zero)
  then obtain st2 where st2: "deferred_slots player E A [Suc k..<n] st1 = Inr st2" "stays st1 st2"
    "ou_register st2 = take (Suc k) (ou_register st1) @ map emptied (drop (Suc k) (ou_register st1))"
    "ou_calls st2 = ou_calls st1 @ map (slot_call st1) (filter sl_ready (drop (Suc k) (ou_register st1)))"
    using step.IH [of st1] step.prems(1) st1(2,3) by (auto simp: stays_def)
  have "slot_call st1 = slot_call st" using address_of_labels [of st1 st] st1(2) by (simp add: stays_def slot_call_def fun_eq_iff)
  moreover have "[k..<n] = k # [Suc k..<n]" using step.hyps by (simp add: upt_conv_Cons)
  moreover have "drop k ?r = ?r ! k # drop (Suc k) ?r" using k by (simp add: Cons_nth_drop_Suc)
  moreover have "take (Suc k) (?r[k := emptied (?r ! k)]) = take k ?r @ [emptied (?r ! k)]"
    using k by (simp add: take_Suc_conv_app_nth)
  ultimately show ?case using st1 st2 by (auto simp: stays_def)
qed


end
