(* ===== verification/Outputs_Quality.thy ===== *)
theory Outputs_Quality
  imports Airplay_Audio "HOL-Library.Multiset"
begin

text \<open>
  The qualities of audio that the outputs ask for, and the buffer that carries the audio in them, in
  \<open>src/outputs.c\<close>. The subscriptions are an array with a zero terminator; what they promise is a multiset of
  qualities. The transcoding library is a parameter.
\<close>

subsection \<open>Subscriptions\<close>

definition OUTPUTS_MAX_QUALITY_SUBSCRIPTIONS :: nat where "OUTPUTS_MAX_QUALITY_SUBSCRIPTIONS = 5"

record 'x subscription =
  su_count :: int
  su_quality :: media_quality
  su_encode :: "'x option"

definition quality_zero :: media_quality where
  "quality_zero = \<lparr>sample_rate = 0, bits_per_sample = 0, channels = 0, bit_rate = 0\<rparr>"

definition sub_zero :: "'x subscription" where
  "sub_zero = \<lparr>su_count = 0, su_quality = quality_zero, su_encode = None\<rparr>"

definition subscriptions_new :: "'x subscription list" where
  "subscriptions_new = replicate (OUTPUTS_MAX_QUALITY_SUBSCRIPTIONS + 1) sub_zero"

text \<open>
  The index at which the loops over the subscriptions of a quality end: its subscription, or the first one
  that is not in use. The terminator ends them.
\<close>

definition sub_index :: "media_quality \<Rightarrow> 'x subscription list \<Rightarrow> nat" where
  "sub_index q subs = length (takeWhile (\<lambda>s. su_count s > 0 \<and> \<not> quality_is_equal q (su_quality s)) subs)"

definition outputs_quality_subscribe ::
  "media_quality \<Rightarrow> 'x subscription list \<times> bool \<Rightarrow> (int \<times> 'x subscription list \<times> bool) res" where
  "outputs_quality_subscribe q st =
     (case st of (subs, got_new) \<Rightarrow>
        let i = sub_index q subs in
        if \<not> i < length subs then Inl Out_of_bounds
        else if su_count (subs ! i) > 0
        then Inr (0, subs[i := (subs ! i)\<lparr>su_count := su_count (subs ! i) + 1\<rparr>], got_new)
        else if i \<ge> length subs - 1 then Inr (-1, subs, got_new)
        else Inr (0, subs[i := (subs ! i)\<lparr>su_quality := q, su_count := su_count (subs ! i) + 1\<rparr>], True))"

definition outputs_quality_unsubscribe :: "media_quality \<Rightarrow> 'x subscription list \<Rightarrow> 'x subscription list res" where
  "outputs_quality_unsubscribe q subs =
     (let i = sub_index q subs in
      if \<not> i < length subs then Inl Out_of_bounds
      else if su_count (subs ! i) = 0 then Inr subs
      else
        let s = (subs ! i)\<lparr>su_count := su_count (subs ! i) - 1\<rparr> in
        if su_count s > 0 then Inr (subs[i := s])
        else Inr (take i subs @ drop (i + 1) subs @ [last subs]))"

subsection \<open>The buffer\<close>

datatype transcode_profile = XCODE_UNKNOWN | XCODE_PCM16 | XCODE_PCM24 | XCODE_PCM32

definition quality_to_xcode :: "media_quality \<Rightarrow> transcode_profile" where
  "quality_to_xcode q =
     (if bits_per_sample q = 16 then XCODE_PCM16 else if bits_per_sample q = 24 then XCODE_PCM24
      else if bits_per_sample q = 32 then XCODE_PCM32 else XCODE_UNKNOWN)"

text \<open>
  \<open>xc_setup_raw\<close>: whether a decoder for the input can be set up, \<open>xc_setup\<close> an encoder from the input to a quality,
  \<open>xc_frame\<close> whether a frame can be made, \<open>xc_encode\<close> what encoding a frame adds to the output, or its failure.
\<close>

record 'x transcoder =
  xc_setup_raw :: "transcode_profile \<Rightarrow> media_quality \<Rightarrow> bool"
  xc_setup :: "transcode_profile \<Rightarrow> media_quality \<Rightarrow> media_quality \<Rightarrow> 'x option"
  xc_frame :: "bytes \<Rightarrow> int \<Rightarrow> media_quality \<Rightarrow> bool"
  xc_encode :: "'x encoder"

fun encoding_loop :: "'x transcoder \<Rightarrow> media_quality \<Rightarrow> 'x subscription list \<Rightarrow> 'x subscription list" where
  "encoding_loop X q [] = []"
| "encoding_loop X q (s # ss) =
     (if su_count s > 0 then
        (if quality_is_equal q (su_quality s) then s\<lparr>su_encode := None\<rparr>
         else s\<lparr>su_encode := (if quality_to_xcode (su_quality s) \<noteq> XCODE_UNKNOWN
                  then xc_setup X (quality_to_xcode (su_quality s)) q (su_quality s) else None)\<rparr>) # encoding_loop X q ss
      else s # ss)"

definition encoding_reset :: "'x transcoder \<Rightarrow> media_quality \<Rightarrow> 'x subscription list \<Rightarrow> int \<times> 'x subscription list" where
  "encoding_reset X q subs =
     (let profile = quality_to_xcode q in
      if profile = XCODE_UNKNOWN then (-1, subs)
      else if \<not> xc_setup_raw X profile q then (-1, subs)
      else (0, encoding_loop X q subs))"

text \<open>\<open>bd_buffer\<close> is what the pointer points to, \<open>None\<close> for a null pointer, which ends the array.\<close>

record buffer_data =
  bd_quality :: media_quality
  bd_evbuf :: bytes
  bd_buffer :: "bytes option"
  bd_bufsize :: nat
  bd_samples :: int

definition data_zero :: buffer_data where
  "data_zero = \<lparr>bd_quality = quality_zero, bd_evbuf = [], bd_buffer = None, bd_bufsize = 0, bd_samples = 0\<rparr>"

record 'x quality_state =
  qs_subs :: "'x subscription list"
  qs_got_new :: bool
  qs_data :: "buffer_data list"
  qs_pts :: timespec

definition BTOS :: "nat \<Rightarrow> int \<Rightarrow> int \<Rightarrow> int res" where
  "BTOS b bits c = (let d = (c * bits) div 8 in if d = 0 then Inl Div_by_zero else Inr (int b div d))"

text \<open>\<open>evbuffer_pullup\<close> of the whole buffer: a null pointer when it is empty.\<close>

definition pullup :: "bytes \<Rightarrow> bytes option" where
  "pullup b = (if b = [] then None else Some b)"

fun fill_subscriptions ::
  "'x transcoder \<Rightarrow> bytes \<Rightarrow> int \<Rightarrow> media_quality \<Rightarrow> 'x subscription list \<Rightarrow> nat \<Rightarrow> buffer_data list
     \<Rightarrow> ('x subscription list \<times> buffer_data list) res" where
  "fill_subscriptions X buf nsamples q [] n data = Inl Out_of_bounds"
| "fill_subscriptions X buf nsamples q (s # ss) n data =
     (let skip = (\<lambda>s1. bind_res (fill_subscriptions X buf nsamples q ss n data) (\<lambda>(ss1, data1). Inr (s1 # ss1, data1))) in
      if \<not> su_count s > 0 then Inr (s # ss, data)
      else if quality_is_equal (su_quality s) q then skip s
      else (case su_encode s of
          None \<Rightarrow> skip s
        | Some x \<Rightarrow>
            if \<not> xc_frame X buf nsamples q then skip s
            else (case xc_encode X x buf nsamples q of
                (None, x1) \<Rightarrow> skip (s\<lparr>su_encode := Some x1\<rparr>)
              | (Some out, x1) \<Rightarrow>
                  if \<not> n < length data then Inl Out_of_bounds
                  else
                    let evbuf = bd_evbuf (data ! n) @ out; bufsize = length evbuf in
                    bind_res (BTOS bufsize (bits_per_sample (su_quality s)) (channels (su_quality s))) (\<lambda>samples.
                    bind_res (fill_subscriptions X buf nsamples q ss (n + 1)
                        (data[n := \<lparr>bd_quality = su_quality s, bd_evbuf = evbuf, bd_buffer = pullup evbuf,
                                    bd_bufsize = bufsize, bd_samples = samples\<rparr>])) (\<lambda>(ss1, data1).
                      Inr (s\<lparr>su_encode := Some x1\<rparr> # ss1, data1))))))"

definition buffer_fill ::
  "'x transcoder \<Rightarrow> bytes \<Rightarrow> media_quality \<Rightarrow> int \<Rightarrow> timespec \<Rightarrow> 'x quality_state \<Rightarrow> 'x quality_state res" where
  "buffer_fill X buf q nsamples pts st =
     (if qs_data st = [] then Inl Out_of_bounds
      else
        let d0 = hd (qs_data st);
            reset = \<not> quality_is_equal q (bd_quality d0) \<or> qs_got_new st;
            subs = (if reset then snd (encoding_reset X q (qs_subs st)) else qs_subs st);
            d = d0\<lparr>bd_evbuf := bd_evbuf d0 @ buf, bd_buffer := Some buf, bd_bufsize := length buf, bd_quality := q,
                   bd_samples := nsamples\<rparr>
        in bind_res (fill_subscriptions X buf nsamples q subs 1 (d # tl (qs_data st))) (\<lambda>(subs1, data1).
             Inr (st\<lparr>qs_subs := subs1, qs_got_new := (if reset then False else qs_got_new st), qs_data := data1, qs_pts := pts\<rparr>)))"

text \<open>What the outputs see of the buffer: the elements before the null pointer.\<close>

fun buffer_list :: "buffer_data list \<Rightarrow> output_data list res" where
  "buffer_list [] = Inl Out_of_bounds"
| "buffer_list (d # ds) =
     (case bd_buffer d of
        None \<Rightarrow> Inr []
      | Some b \<Rightarrow> bind_res (buffer_list ds) (\<lambda>l.
          Inr (\<lparr>od_quality = bd_quality d, od_buffer = b, od_samples = bd_samples d\<rparr> # l)))"

fun buffer_drain :: "buffer_data list \<Rightarrow> buffer_data list res" where
  "buffer_drain [] = Inl Out_of_bounds"
| "buffer_drain (d # ds) =
     (case bd_buffer d of
        None \<Rightarrow> Inr (d # ds)
      | Some b \<Rightarrow> bind_res (buffer_drain ds) (\<lambda>ds1.
          Inr (d\<lparr>bd_evbuf := drop (bd_bufsize d) (bd_evbuf d), bd_buffer := None, bd_bufsize := 0\<rparr> # ds1)))"

text \<open>\<open>outputs_write\<close>; \<open>write\<close> is the write function of the output, over its own state.\<close>

definition outputs_write ::
  "'x transcoder \<Rightarrow> (timespec \<Rightarrow> output_data list \<Rightarrow> 's \<Rightarrow> 's res) \<Rightarrow> bool \<Rightarrow> bytes \<Rightarrow> int \<Rightarrow> media_quality \<Rightarrow> timespec
     \<Rightarrow> 'x quality_state \<times> 's \<Rightarrow> ('x quality_state \<times> 's) res" where
  "outputs_write X write disabled buf nsamples q pts r =
     (case r of (st, s) \<Rightarrow>
        bind_res (buffer_fill X buf q nsamples pts st) (\<lambda>st1.
        bind_res (if disabled then Inr s else bind_res (buffer_list (qs_data st1)) (\<lambda>l. write (qs_pts st1) l s)) (\<lambda>s1.
        bind_res (buffer_drain (qs_data st1)) (\<lambda>data. Inr (st1\<lparr>qs_data := data\<rparr>, s1)))))"

text \<open>\<open>buffer_copy\<close>: each element gets an evbuffer of its own with just what the pointer points to.\<close>

fun buffer_copy :: "buffer_data list \<Rightarrow> buffer_data list" where
  "buffer_copy [] = []"
| "buffer_copy (d # ds) =
     (case bd_buffer d of
        None \<Rightarrow> d # ds
      | Some b \<Rightarrow> d\<lparr>bd_evbuf := take (bd_bufsize d) b, bd_buffer := pullup (take (bd_bufsize d) b)\<rparr> # buffer_copy ds)"

subsection \<open>What the subscriptions promise\<close>

definition in_use :: "'x subscription list \<Rightarrow> 'x subscription list" where
  "in_use subs = takeWhile (\<lambda>s. su_count s > 0) subs"

definition subscriptions_ok :: "'x subscription list \<Rightarrow> bool" where
  "subscriptions_ok subs \<longleftrightarrow> (\<exists>act k. subs = act @ replicate (Suc k) sub_zero
     \<and> length act + k = OUTPUTS_MAX_QUALITY_SUBSCRIPTIONS \<and> (\<forall>s \<in> set act. su_count s > 0) \<and> distinct (map su_quality act))"

definition subscribed :: "'x subscription list \<Rightarrow> media_quality multiset" where
  "subscribed subs = (\<Sum>s \<leftarrow> in_use subs. replicate_mset (nat (su_count s)) (su_quality s))"

lemma subscriptions_new_ok: "subscriptions_ok subscriptions_new" "subscribed subscriptions_new = {#}"
proof -
  show "subscriptions_ok subscriptions_new"
    unfolding subscriptions_ok_def subscriptions_new_def
    by (intro exI [of _ "[]"] exI [of _ OUTPUTS_MAX_QUALITY_SUBSCRIPTIONS]) simp
  show "subscribed subscriptions_new = {#}"
    by (simp add: subscribed_def in_use_def subscriptions_new_def sub_zero_def OUTPUTS_MAX_QUALITY_SUBSCRIPTIONS_def)
qed

lemma sub_zero_count [simp]: "su_count sub_zero = 0" by (simp add: sub_zero_def)

lemma in_use_eq: "\<forall>s \<in> set act. su_count s > 0 \<Longrightarrow> in_use (act @ replicate (Suc k) sub_zero) = act"
  by (induction act) (simp_all add: in_use_def)

lemma subscribed_eq:
  "\<forall>s \<in> set act. su_count s > 0 \<Longrightarrow>
    subscribed (act @ replicate (Suc k) sub_zero) = (\<Sum>s \<leftarrow> act. replicate_mset (nat (su_count s)) (su_quality s))"
  by (simp only: subscribed_def in_use_eq)

text \<open>A quality is in the list once, or not at all.\<close>

lemma sub_index_cases:
  assumes "\<forall>s \<in> set act. su_count s > 0" and "distinct (map su_quality act)"
  obtains (found) xs s ys where "act = xs @ s # ys" "su_quality s = q" "q \<notin> su_quality ` set xs" "q \<notin> su_quality ` set ys"
      "sub_index q (act @ replicate (Suc k) sub_zero) = length xs"
  | (missing) "q \<notin> su_quality ` set act" "sub_index q (act @ replicate (Suc k) sub_zero) = length act"
proof (cases "q \<in> su_quality ` set act")
  case True
  then obtain s where "s \<in> set act" "su_quality s = q" by blast
  then obtain xs ys where a: "act = xs @ s # ys" "su_quality s = q" by (auto simp: in_set_conv_decomp)
  then have n: "q \<notin> su_quality ` set xs" "q \<notin> su_quality ` set ys" using assms(2) by auto
  have "takeWhile (\<lambda>s. su_count s > 0 \<and> \<not> quality_is_equal q (su_quality s)) (xs @ s # ys @ replicate (Suc k) sub_zero) = xs"
    using assms(1) a n by (subst takeWhile_append2) auto
  then show thesis using found [of xs s ys] a n by (simp add: sub_index_def)
next
  case False
  have "takeWhile (\<lambda>s. su_count s > 0 \<and> \<not> quality_is_equal q (su_quality s)) (act @ replicate (Suc k) sub_zero) = act"
    using assms(1) False by (subst takeWhile_append2) auto
  then show thesis using missing False by (simp add: sub_index_def)
qed

lemma count_sum_list: "q \<in># (\<Sum>s \<leftarrow> act. replicate_mset (nat (su_count s)) (su_quality s)) \<longleftrightarrow>
    (\<exists>s \<in> set act. su_quality s = q \<and> su_count s > 0)"
  by (induction act) (auto simp: in_replicate_mset)

lemma replicate_mset_succ: "0 \<le> c \<Longrightarrow> replicate_mset (nat (c + 1)) q = add_mset q (replicate_mset (nat c) q)"
  by (simp add: nat_add_distrib)

lemma subscriptions_okI:
  "length act + k = OUTPUTS_MAX_QUALITY_SUBSCRIPTIONS \<Longrightarrow> \<forall>s \<in> set act. su_count s > 0 \<Longrightarrow> distinct (map su_quality act)
    \<Longrightarrow> subs = act @ replicate (Suc k) sub_zero \<Longrightarrow> subscriptions_ok subs"
  unfolding subscriptions_ok_def by blast

lemma subscribe_refines:
  assumes "subscriptions_ok subs"
  obtains ret subs1 got1 where "outputs_quality_subscribe q (subs, got) = Inr (ret, subs1, got1)" "subscriptions_ok subs1"
    "if ret = 0 then subscribed subs1 = add_mset q (subscribed subs)
     else ret = -1 \<and> subs1 = subs \<and> q \<notin># subscribed subs \<and> card (set_mset (subscribed subs)) = OUTPUTS_MAX_QUALITY_SUBSCRIPTIONS"
proof -
  obtain act k where s: "subs = act @ replicate (Suc k) sub_zero" "length act + k = OUTPUTS_MAX_QUALITY_SUBSCRIPTIONS"
    "\<forall>s \<in> set act. su_count s > 0" "distinct (map su_quality act)"
    using assms by (auto simp: subscriptions_ok_def)
  from s(3,4) show thesis
  proof (cases rule: sub_index_cases [where q = q and k = k])
    case (found xs t ys)
    let ?t = "t\<lparr>su_count := su_count t + 1\<rparr>"
    let ?subs = "(xs @ ?t # ys) @ replicate (Suc k) sub_zero"
    have r: "outputs_quality_subscribe q (subs, got) = Inr (0, ?subs, got)"
      using found s(3) by (simp add: outputs_quality_subscribe_def s(1) list_update_append)
    moreover have "subscriptions_ok ?subs"
      using found s by (intro subscriptions_okI [of "xs @ ?t # ys" k]) auto
    moreover have "subscribed ?subs = add_mset q (subscribed subs)"
      using found s(3) unfolding s(1) by (subst (1 2) subscribed_eq) (auto simp: replicate_mset_succ)
    ultimately show thesis using that by simp
  next
    case missing
    show thesis
    proof (cases k)
      case 0
      have "q \<notin># subscribed subs" using missing(1) s(3) unfolding s(1) by (subst subscribed_eq) (auto simp: count_sum_list)
      moreover have "set_mset (subscribed subs) = su_quality ` set act"
      proof -
        have "x \<in># subscribed subs \<longleftrightarrow> x \<in> su_quality ` set act" for x
          unfolding s(1) subscribed_eq [OF s(3)] count_sum_list using s(3) by blast
        then show ?thesis by blast
      qed
      moreover have "card (su_quality ` set act) = length act" using s(4) distinct_card [OF s(4)] by simp
      moreover have "outputs_quality_subscribe q (subs, got) = Inr (-1, subs, got)"
        using missing 0 by (simp add: outputs_quality_subscribe_def s(1))
      ultimately show thesis using s(2) 0 by (intro that [of "-1" subs got] assms) simp_all
    next
      case (Suc j)
      let ?t = "sub_zero\<lparr>su_quality := q, su_count := 1\<rparr> :: 'a subscription"
      let ?subs = "(act @ [?t]) @ replicate (Suc j) sub_zero"
      have "outputs_quality_subscribe q (subs, got) = Inr (0, ?subs, True)"
        using missing by (simp add: outputs_quality_subscribe_def s(1) Suc list_update_append)
      moreover have "subscriptions_ok ?subs"
        using missing s Suc by (intro subscriptions_okI [of "act @ [?t]" j]) auto
      moreover have "subscribed ?subs = add_mset q (subscribed subs)"
        using s(3) unfolding s(1) by (subst (1 2) subscribed_eq) auto
      ultimately show thesis using that by simp
    qed
  qed
qed

lemma unsubscribe_refines:
  assumes "subscriptions_ok subs"
  obtains subs1 where "outputs_quality_unsubscribe q subs = Inr subs1" "subscriptions_ok subs1"
    "subscribed subs1 = subscribed subs - {#q#}"
proof -
  obtain act k where s: "subs = act @ replicate (Suc k) sub_zero" "length act + k = OUTPUTS_MAX_QUALITY_SUBSCRIPTIONS"
    "\<forall>s \<in> set act. su_count s > 0" "distinct (map su_quality act)"
    using assms by (auto simp: subscriptions_ok_def)
  have abs: "subscribed subs = (\<Sum>s \<leftarrow> act. replicate_mset (nat (su_count s)) (su_quality s))"
    using s(3) unfolding s(1) by (rule subscribed_eq)
  from s(3,4) show thesis
  proof (cases rule: sub_index_cases [where q = q and k = k])
    case (found xs t ys)
    have t: "su_count t > 0" using s(3) found(1) by simp
    show thesis
    proof (cases "su_count t = 1")
      case True
      let ?subs = "(xs @ ys) @ replicate (Suc (Suc k)) sub_zero"
      have "outputs_quality_unsubscribe q subs = Inr ?subs"
        using found True by (simp add: outputs_quality_unsubscribe_def s(1) replicate_append_same)
      moreover have "subscriptions_ok ?subs"
        using found s by (intro subscriptions_okI [of "xs @ ys" "Suc k"]) auto
      moreover have "subscribed ?subs = subscribed subs - {#q#}"
        using found s(3) True unfolding abs by (subst subscribed_eq) auto
      ultimately show thesis using that by blast
    next
      case False
      let ?t = "t\<lparr>su_count := su_count t - 1\<rparr>"
      let ?subs = "(xs @ ?t # ys) @ replicate (Suc k) sub_zero"
      have "outputs_quality_unsubscribe q subs = Inr ?subs"
        using found False t by (simp add: outputs_quality_unsubscribe_def s(1) list_update_append Let_def)
      moreover have "subscriptions_ok ?subs"
        using found s False t by (intro subscriptions_okI [of "xs @ ?t # ys" k]) auto
      moreover have "replicate_mset (nat (su_count t)) q = add_mset q (replicate_mset (nat (su_count t - 1)) q)"
        using replicate_mset_succ [of "su_count t - 1" q] t by simp
      then have "subscribed ?subs = subscribed subs - {#q#}"
        using found s(3) False t unfolding abs by (subst subscribed_eq) auto
      ultimately show thesis using that by blast
    qed
  next
    case missing
    have "q \<notin># subscribed subs" using missing(1) unfolding abs by (auto simp: count_sum_list)
    moreover have "outputs_quality_unsubscribe q subs = Inr subs"
      using missing by (simp add: outputs_quality_unsubscribe_def s(1) nth_append)
    ultimately show thesis using that assms by simp
  qed
qed


end
