(* ===== verification/Outputs_Samples.thy ===== *)
theory Outputs_Samples
  imports Outputs_Runs Outputs_Deferred Outputs_Quality Airplay_World_Samples
begin

text \<open>
  The theorems on the interface between player and outputs that have hypotheses, each applied to a concrete input at
  which they hold.
\<close>

subsection \<open>The register\<close>

definition sample_register :: "nat slot list" where
  "sample_register = snd (callback_add 50 (Some 1) register_new)"

lemma sample_register_ok: "register_ok sample_register"
proof -
  obtain k where "callback_add 50 (Some 1) register_new = (k, sample_register)"
    unfolding sample_register_def by (metis prod.collapse)
  then show ?thesis by (rule callback_add_registers(1) [OF register_new_ok, rotated]) simp
qed

theorem register_well_formed_witness:
  "register_ok (callback_remove 50 sample_register) \<and> register_ok (snd (callback_add 60 (Some 2) sample_register))
    \<and> register_ok (fst (outputs_cb (0, 7, OUTPUT_STATE_CONNECTED) (sample_register, False)))"
  using register_well_formed [OF sample_register_ok, of 50] register_well_formed [OF sample_register_ok, of 60 "Some 2"] by simp

text \<open>Device 50 has slot 0; device 100 gets slot 1, then slot 0, and device 200 gets slot 1.\<close>

definition sample_r1 :: "nat slot list" where "sample_r1 = snd (callback_add 100 (Some 2) sample_register)"
definition sample_r2 :: "nat slot list" where "sample_r2 = snd (callback_add 100 (Some 3) (sample_r1[0 := slot_zero]))"
definition sample_r3 :: "nat slot list" where "sample_r3 = snd (callback_add 200 (Some 4) sample_r2)"

theorem callbacks_cross_witness:
  "callback_add 100 (Some 2) sample_register = (1, sample_r1) \<and> callback_add 200 (Some 4) sample_r2 = (1, sample_r3)
     \<and> sl_device (sample_r3 ! 1) = 200
     \<and> snd (outputs_cb (1, 7, OUTPUT_STATE_CONNECTED) (sample_r3, False))"
proof -
  have k: "fst (callback_add 100 (Some 2) sample_register) = 1" by code_simp
  have free: "list_all (\<lambda>s. sl_device s \<noteq> 200) sample_register" by code_simp
  obtain k2 where 2: "callback_add 100 (Some 3) (sample_r1[0 := slot_zero]) = (k2, sample_r2)"
    unfolding sample_r2_def by (metis prod.collapse)
  obtain k3 where 3: "callback_add 200 (Some 4) sample_r2 = (k3, sample_r3)"
    unfolding sample_r3_def by (metis prod.collapse)
  have 1: "callback_add 100 (Some 2) sample_register = (1, sample_r1)" using k by (simp add: sample_r1_def prod_eq_iff)
  have "\<forall>s \<in> set sample_register. sl_device s \<noteq> 200" using free by (simp add: list_all_iff)
  from callbacks_cross [OF sample_register_ok _ _ _ this 1 _ _ 2 3, of 7 OUTPUT_STATE_CONNECTED False] show ?thesis
    using 1 3 by simp
qed

subsection \<open>Volumes\<close>

theorem volume_conversions_witness:
  "rel_to_vol 50 100 = Some 50 \<and> vol_to_rel 53 100 = Some 52 \<and> vol_to_rel 53 0 = None"
  using volume_conversions [of 50 100 53] by simp

definition sample_quiet :: output_device where
  "sample_quiet = (sample_device None)\<lparr>dv_addr := 200, dv_id := 2, dv_volume := 0\<rparr>"

definition sample_loud :: output_device where
  "sample_loud = (sample_device None)\<lparr>dv_selected := False\<rparr>"

text \<open>A selected device with the volume 0 and another one that is not selected.\<close>

theorem vol_adjust_outcome_witness:
  "vol_master [sample_quiet, sample_loud] = 0 \<and> vol_adjust [sample_quiet, sample_loud] = None"
proof -
  have "vol_master [sample_quiet, sample_loud] = 0" by code_simp
  then show ?thesis using vol_adjust_outcome [of "[sample_quiet, sample_loud]"]
    by (simp add: sample_quiet_def sample_loud_def sample_device_def)
qed

subsection \<open>Subscriptions\<close>


subsection \<open>Runs\<close>

definition sample_player :: "(nat, unit) player" where "sample_player c a state st = Inr st"

lemma sample_player_ok: "player_ok sample_player"
  by (simp add: player_ok_def sample_player_def)

text \<open>A device is added and started, and the connection comes about.\<close>

fun can_do :: "'c outputs_event \<Rightarrow> ('c, 'e) outputs \<Rightarrow> bool" where
  "can_do (Do_add d b) st = addable d st"
| "can_do (Do_start a c only_probe) st = (a \<in> set (addresses st))"
| "can_do (Output (Connection_event p ev)) st = can_happen (Connection_event p ev) (ou_world st)"
| "can_do (Do_stop_all c) st = True"
| "can_do _ st = False"

lemma can_do_possible: "can_do e st \<Longrightarrow> outputs_possible e st"
  by (induction e st rule: can_do.induct) (auto intro: can_happen_possible simp del: possible.simps can_happen.simps)

fun run_outputs ::
  "readln \<Rightarrow> ('c, 'e) player \<Rightarrow> 'p airplay_env \<Rightarrow> ('c, 'e) outputs \<Rightarrow> (answers \<times> 'c outputs_event) list \<Rightarrow> ('c, 'e) outputs option" where
  "run_outputs readln player E st [] = Some st"
| "run_outputs readln player E st ((A, e) # es) =
     (if can_do e st then (case outputs_step readln player E A e st of Inl f \<Rightarrow> None | Inr st1 \<Rightarrow> run_outputs readln player E st1 es)
      else None)"

lemma run_outputs_run: "run_outputs readln player E st es = Some st' \<Longrightarrow> outputs_run readln player E st es st'"
  by (induction readln player E st es arbitrary: st' rule: run_outputs.induct)
    (auto intro: outputs_run.intros can_do_possible split: if_splits sum.splits)

definition sample_calls :: "(answers \<times> nat outputs_event) list" where
  "sample_calls = map (\<lambda>e. (sample_answers Connect_started, e))
     [Do_add (sample_device None) False, Do_start 100 1 False, Output (Connection_event 0 (Connection Connected)), Do_stop_all 2]"

lemma sample_calls_run:
  "map_option (\<lambda>st. (addresses st, map fst (w_sessions (ou_world st)), sl_device (ou_register st ! 0)))
     (run_outputs sample_readln sample_player sample_env outputs_new sample_calls) = Some ([100], [0], 100)"
  by code_simp


text \<open>The device has answered.\<close>

definition sample_answered :: "(nat, unit) outputs" where
  "sample_answered = deliver ((world_new [sample_device None])\<lparr>w_status := [(0, 1, OUTPUT_STATE_CONNECTED)]\<rparr>)
     (put_devices [sample_device None] (snd (register_cb 100 (Some (Player_cb 1)) outputs_new)))"

lemma sample_answered_ok: "outputs_ok sample_answered"
proof -
  have "settled (world_new [sample_device None] :: unit world)" by (rule world_new_ok [OF sample_devices])
  then have w: "settled ((world_new [sample_device None])\<lparr>w_status := [(0, 1, OUTPUT_STATE_CONNECTED)]\<rparr> :: unit world)"
    by (rule world_ok_cong [rotated -1]) (simp_all add: world_new_def sample_devices)
  have "held outputs_new (snd (register_cb 100 (Some (Player_cb 1)) (outputs_new :: (nat, unit) outputs)))"
    using register_cb_ok [OF outputs_new_ok, of 100 "Some (Player_cb 1)"] by (metis prod.collapse zero_neq_numeral)
  then show ?thesis unfolding sample_answered_def using w
    by (intro deliver_ok) (simp_all add: held_def outputs_ok_def)
qed


end
