(* ===== verification/Airplay_Discovery.thy ===== *)
theory Airplay_Discovery
  imports Airplay_Requests
begin

text \<open>
  The discovery of devices in \<open>src/airplay.c\<close>: what the callback of the browser for \<open>_airplay._tcp\<close> does with the
  name, the address and the TXT record of a device. The settings of a device come from libconfuse and are a
  parameter. The result is the device that is handed to the player, to be added or removed.
\<close>

subsection \<open>Features\<close>

definition features_list :: "(nat \<times> string) list" where
  "features_list =
    [(0, ''SupportsAirPlayVideoV1''), (1, ''SupportsAirPlayPhoto''), (5, ''SupportsAirPlaySlideshow''),
     (7, ''SupportsAirPlayScreen''), (9, ''SupportsAirPlayAudio''), (11, ''AudioRedunant''),
     (14, ''Authentication_4''), (15, ''MetadataFeatures_0''), (16, ''MetadataFeatures_1''),
     (17, ''MetadataFeatures_2''), (18, ''AudioFormats_0''), (19, ''AudioFormats_1''), (20, ''AudioFormats_2''),
     (21, ''AudioFormats_3''), (23, ''Authentication_1''), (26, ''Authentication_8''), (27, ''SupportsLegacyPairing''),
     (30, ''HasUnifiedAdvertiserInfo''), (32, ''IsCarPlay''), (32, ''SupportsVolume''),
     (33, ''SupportsAirPlayVideoPlayQueue''), (34, ''SupportsAirPlayFromCloud''), (35, ''SupportsTLS_PSK''),
     (38, ''SupportsUnifiedMediaControl''), (40, ''SupportsBufferedAudio''), (41, ''SupportsPTP''),
     (42, ''SupportsScreenMultiCodec''), (43, ''SupportsSystemPairing''), (44, ''IsAPValeriaScreenSender''),
     (46, ''SupportsHKPairingAndAccessControl''), (48, ''SupportsCoreUtilsPairingAndEncryption''),
     (49, ''SupportsAirPlayVideoV2''), (50, ''MetadataFeatures_3''), (51, ''SupportsUnifiedPairSetupAndMFi''),
     (52, ''SupportsSetPeersExtendedMessage''), (54, ''SupportsAPSync''), (55, ''SupportsWoL''), (56, ''SupportsWoL''),
     (58, ''SupportsHangdogRemoteControl''), (59, ''SupportsAudioStreamConnectionSetup''),
     (60, ''SupportsAudioMediaDataControl''), (61, ''SupportsRFC2198Redundancy'')]"

definition features_map :: "(nat \<times> bytes) list" where
  "features_map = map (\<lambda>(b, n). (b, str n)) features_list"

text \<open>The two numbers of the text, the lower half first; only the first need be there.\<close>

definition features_read :: "bytes \<Rightarrow> u64 option" where
  "features_read txt =
     (case safe_hextou32 (Some txt) of None \<Rightarrow> None
      | Some lo \<Rightarrow>
          (case dropWhile (\<lambda>c. c \<noteq> 44) txt of
             [] \<Rightarrow> Some (ucast lo)
           | _ # r \<Rightarrow> (case safe_hextou32 (Some r) of None \<Rightarrow> None
               | Some hi \<Rightarrow> Some (push_bit 32 (ucast hi) OR ucast lo))))"

fun features_walk :: "u64 \<Rightarrow> nat list \<Rightarrow> keyval \<Rightarrow> keyval res" where
  "features_walk features [] kv = Inr kv"
| "features_walk features (i # is) kv =
     (if \<not> bit features i then features_walk features is kv
      else (case map_of features_map i of
              None \<Rightarrow> features_walk features is kv
            | Some name \<Rightarrow> bind_res (keyval_add kv name (str ''1'')) (\<lambda>(ret, kv1). features_walk features is kv1)))"

definition features_parse :: "keyval \<Rightarrow> bytes \<Rightarrow> (int \<times> keyval) res" where
  "features_parse features_kv features_txt =
     (case features_read features_txt of
        None \<Rightarrow> Inr (-1, features_kv)
      | Some f \<Rightarrow> bind_res (features_walk f [0..<64] features_kv) (\<lambda>kv. Inr (0, kv)))"

subsection \<open>The callback\<close>

text \<open>
  The section of a device in the settings; \<open>dc_reconnect\<close> is \<open>None\<close> when the option has not exactly one value.
\<close>

record device_config =
  dc_exclude :: bool
  dc_permanent :: bool
  dc_nickname :: "bytes option"
  dc_password :: "bytes option"
  dc_reconnect :: "bool option"

datatype discovery = Ignored | Device_added output_device | Device_removed output_device

definition extra_zero :: airplay_extra where
  "extra_zero = \<lparr>ex_devtype = AIRPLAY_DEV_APEX2_80211N, ex_mdns_name = [], ex_wanted_metadata = 0,
     ex_supports_auth_setup = False, ex_supports_pairing_transient = False\<rparr>"

text \<open>A device as \<open>calloc\<close> gives it at an address.\<close>

definition device_zero :: "nat \<Rightarrow> output_device" where
  "device_zero a = \<lparr>dv_addr = a, dv_id = 0, dv_name = [], dv_state = OUTPUT_STATE_STOPPED, dv_selected = False,
     dv_advertised = False, dv_has_password = False, dv_requires_auth = False, dv_v6_disabled = False,
     dv_prevent_playback = False, dv_busy = False, dv_resurrect = False, dv_password = None, dv_auth_key = None,
     dv_volume = 0, dv_relvol = 0, dv_quality = \<lparr>sample_rate = 0, bits_per_sample = 0, channels = 0, bit_rate = 0\<rparr>,
     dv_v4_address = None, dv_v6_address = None, dv_v4_port = 0, dv_v6_port = 0, dv_stop_timer = False,
     dv_extra = extra_zero, dv_session = None\<rparr>"

definition starts_with :: "string \<Rightarrow> bytes \<Rightarrow> bool" where
  "starts_with pre s \<longleftrightarrow> take (length pre) s = str pre"

definition device_type :: "bytes option \<Rightarrow> airplay_devtype" where
  "device_type model =
     (case model of None \<Rightarrow> AIRPLAY_DEV_OTHER
      | Some p \<Rightarrow>
          if starts_with ''AirPort4'' p then AIRPLAY_DEV_APEX2_80211N
          else if starts_with ''AirPort'' p then AIRPLAY_DEV_APEX3_80211N
          else if starts_with ''AppleTV5,3'' p then AIRPLAY_DEV_APPLETV4
          else if starts_with ''AppleTV'' p then AIRPLAY_DEV_APPLETV
          else if starts_with ''AudioAccessory'' p then AIRPLAY_DEV_HOMEPOD
          else AIRPLAY_DEV_OTHER)"

definition has_feature :: "keyval \<Rightarrow> string \<Rightarrow> bool" where
  "has_feature kv n \<longleftrightarrow> keyval_get kv (str n) \<noteq> None"

definition wanted_by :: "keyval \<Rightarrow> u16" where
  "wanted_by kv = (if has_feature kv ''MetadataFeatures_0'' then AIRPLAY_MD_WANTS_ARTWORK else 0)
     OR (if has_feature kv ''MetadataFeatures_1'' then AIRPLAY_MD_WANTS_PROGRESS else 0)
     OR (if has_feature kv ''MetadataFeatures_2'' then AIRPLAY_MD_WANTS_TEXT else 0)"

text \<open>What the callback fills in once the features are known.\<close>

definition device_fill :: "keyval \<Rightarrow> device_config option \<Rightarrow> bytes option \<Rightarrow> output_device \<Rightarrow> output_device" where
  "device_fill kv devcfg model dev =
     (let transient = has_feature kv ''SupportsSystemPairing'' \<or> has_feature kv ''SupportsCoreUtilsPairingAndEncryption'';
          devtype = device_type model
      in dev\<lparr>dv_requires_auth := (\<not> transient \<and> has_feature kv ''SupportsHKPairingAndAccessControl''),
            dv_quality := \<lparr>sample_rate = 44100, bits_per_sample = 16, channels = 2, bit_rate = 0\<rparr>,
            dv_resurrect := (case Option.bind devcfg dc_reconnect of Some b \<Rightarrow> b
              | None \<Rightarrow> devtype = AIRPLAY_DEV_APPLETV4 \<or> devtype = AIRPLAY_DEV_HOMEPOD),
            dv_extra := (dv_extra dev)\<lparr>ex_devtype := devtype, ex_wanted_metadata := wanted_by kv,
                ex_supports_auth_setup := has_feature kv ''Authentication_8'',
                ex_supports_pairing_transient := transient\<rparr>\<rparr>)"

definition device_found_id :: "output_device list \<Rightarrow> bytes \<Rightarrow> int \<Rightarrow> keyval \<Rightarrow> u64 option" where
  "device_found_id devices name port txt =
     (if port > 0 then (case keyval_get txt (str ''deviceid'') of None \<Rightarrow> None | Some p \<Rightarrow> device_id_colon_parse p)
      else device_id_find_byname devices name)"

definition airplay_device_cb ::
  "(bytes \<Rightarrow> device_config option) \<Rightarrow> output_device list \<Rightarrow> nat \<Rightarrow> bytes \<Rightarrow> address_family \<Rightarrow> bytes \<Rightarrow> int \<Rightarrow> keyval
    \<Rightarrow> discovery res" where
  "airplay_device_cb cfg devices a name family address port txt =
     (case device_found_id devices name port txt of
        None \<Rightarrow> Inr Ignored
      | Some i \<Rightarrow>
          let devcfg = cfg name in
          if (case devcfg of None \<Rightarrow> False | Some c \<Rightarrow> dc_exclude c) then Inr Ignored
          else if (case devcfg of None \<Rightarrow> False | Some c \<Rightarrow> dc_permanent c) \<and> port < 0 then Inr Ignored
          else
            let nickname = Option.bind devcfg dc_nickname;
                dev = (device_zero a)\<lparr>dv_id := i, dv_name := (case nickname of Some n \<Rightarrow> n | None \<Rightarrow> name),
                        dv_password := Option.bind devcfg dc_password, dv_extra := extra_zero\<lparr>ex_mdns_name := name\<rparr>\<rparr>
            in if port < 0
               then Inr (Device_removed (case family of AF_INET \<Rightarrow> dev\<lparr>dv_v4_port := 1\<rparr> | AF_INET6 \<Rightarrow> dev\<lparr>dv_v6_port := 1\<rparr>
                                         | AF_OTHER \<Rightarrow> dev))
               else
                 (case keyval_get txt (str ''features'') of
                    None \<Rightarrow> Inr Ignored
                  | Some features \<Rightarrow>
                      bind_res (features_parse [] features) (\<lambda>(ret, kv).
                        if ret < 0 then Inr Ignored
                        else if \<not> has_feature kv ''SupportsAirPlayAudio'' then Inr Ignored
                        else
                          let dev1 = device_fill kv devcfg (keyval_get txt (str ''model'')) dev in
                          Inr (case family of
                              AF_INET \<Rightarrow> Device_added (dev1\<lparr>dv_v4_address := Some address, dv_v4_port := word_of_int port\<rparr>)
                            | AF_INET6 \<Rightarrow> Device_added (dev1\<lparr>dv_v6_address := Some address, dv_v6_port := word_of_int port\<rparr>)
                            | AF_OTHER \<Rightarrow> Ignored))))"

subsection \<open>Reading what is announced\<close>

lemma digits_value_snoc: "digits_value base (ds @ [d]) = base * digits_value base ds + the (digit_val base d)"
  by (simp add: digits_value_def)

lemma hex_upper_digit:
  assumes "d < 16"
  shows "digit_val 16 (hex_upper d) = Some (uint d) \<and> \<not> is_space (hex_upper d) \<and> hex_upper d \<noteq> 45 \<and> hex_upper d \<noteq> 43"
proof -
  have all: "\<forall>n \<in> set [0..<16]. digit_val 16 (hex_upper (of_nat n)) = Some (int n) \<and> \<not> is_space (hex_upper (of_nat n))
      \<and> hex_upper (of_nat n) \<noteq> 45 \<and> hex_upper (of_nat n) \<noteq> 43"
    by code_simp
  have "unat d \<in> set [0..<16]" using assms by (simp add: word_less_nat_alt)
  from bspec [OF all this] show ?thesis by simp
qed

definition nibble :: "u64 \<Rightarrow> nat \<Rightarrow> u8" where
  "nibble w i = ucast (drop_bit (60 - 4 * i) w AND 15)"

lemma nibble_take_bit: "nibble w i = ucast (take_bit 4 (drop_bit (60 - 4 * i) w))"
  by (simp add: nibble_def take_bit_eq_mask mask_eq_decr_exp)

lemma uint_drop_bit: "uint (drop_bit n w) = uint w div 2 ^ n"
proof -
  have "unat (drop_bit n w) = unat w div 2 ^ n" unfolding unat_drop_bit_eq by (simp add: drop_bit_eq_div)
  then show ?thesis by (simp only: uint_nat zdiv_int of_nat_power of_nat_numeral)
qed

lemma uint_nibble: "uint (nibble w i) = uint (drop_bit (60 - 4 * i) w) mod 16"
proof -
  have "uint (take_bit 4 (drop_bit (60 - 4 * i) w)) = uint (drop_bit (60 - 4 * i) w) mod 16"
    unfolding unsigned_take_bit_eq by (simp add: take_bit_eq_mod)
  then show ?thesis by (simp add: nibble_take_bit unsigned_ucast_eq take_bit_eq_mod)
qed

lemma nibble_less: "nibble w i < 16"
  by (simp add: word_less_def uint_nibble)

lemma print_hex16_nibbles: "print_hex16 w = map (\<lambda>i. hex_upper (nibble w i)) [0..<16]"
  by (simp add: print_hex16_def nibble_def)

lemma digits_value_nibbles:
  "k \<le> 16 \<Longrightarrow> digits_value 16 (map (\<lambda>i. hex_upper (nibble w i)) [0..<k]) = uint w div 2 ^ (64 - 4 * k)"
proof (induction k)
  case 0
  have "uint w < 2 ^ 64" using uint_lt2p [of w] by simp
  then show ?case by (simp add: digits_value_def)
next
  case (Suc k)
  have e: "64 - 4 * k = (60 - 4 * k) + 4" "64 - 4 * Suc k = 60 - 4 * k" using Suc.prems by simp_all
  have "16 * (uint w div 2 ^ (64 - 4 * k)) + uint w div 2 ^ (60 - 4 * k) mod 16 = uint w div 2 ^ (60 - 4 * k)"
    unfolding e(1) power_add by (simp add: zdiv_zmult2_eq)
  then show ?case
    using Suc by (simp add: digits_value_snoc hex_upper_digit nibble_less uint_nibble uint_drop_bit e(2))
qed

lemma print_hex16_value: "digits_value 16 (print_hex16 w) = uint w"
  by (simp add: print_hex16_nibbles digits_value_nibbles)

lemma digits_value_zeros: "digits_value 16 (dropWhile (\<lambda>c. c = 48) ds) = digits_value 16 ds"
proof (induction ds)
  case (Cons d ds)
  have "the (digit_val 16 48) = 0" by code_simp
  then show ?case using Cons by (simp add: digits_value_def)
qed simp

lemma print_hex_digits:
  "set (print_hex w) \<subseteq> {c. digit_val 16 c \<noteq> None}" "print_hex w \<noteq> []" "digits_value 16 (print_hex w) = uint w"
proof -
  have d: "set (print_hex16 w) \<subseteq> {c. digit_val 16 c \<noteq> None}"
    by (auto simp: print_hex16_nibbles hex_upper_digit nibble_less)
  have z: "digit_val 16 48 \<noteq> None" "digits_value 16 [48] = 0" by code_simp+
  have p: "print_hex w = [48] \<or> print_hex w = dropWhile (\<lambda>c. c = 48) (print_hex16 w)"
    by (simp add: print_hex_def split: list.split)
  then show "set (print_hex w) \<subseteq> {c. digit_val 16 c \<noteq> None}"
  proof
    assume "print_hex w = dropWhile (\<lambda>c. c = 48) (print_hex16 w)"
    then have "set (print_hex w) \<subseteq> set (print_hex16 w)" by (auto dest: set_dropWhileD)
    with d show ?thesis by (rule order_trans [rotated])
  qed (use z(1) in simp)
  show "print_hex w \<noteq> []" by (simp add: print_hex_def split: list.split)
  have v: "digits_value 16 (dropWhile (\<lambda>c. c = 48) (print_hex16 w)) = uint w"
    by (simp only: digits_value_zeros print_hex16_value)
  show "digits_value 16 (print_hex w) = uint w"
  proof (cases "dropWhile (\<lambda>c. c = 48) (print_hex16 w)")
    case Nil
    have "digits_value 16 [] = 0" by (simp add: digits_value_def)
    then show ?thesis using v z(2) by (simp only: print_hex_def Nil list.case)
  next
    case (Cons d ds)
    then show ?thesis using v by (simp only: print_hex_def list.case)
  qed
qed

text \<open>A number as it is announced is read up to the first character that is not a digit.\<close>

lemma scan_hex_text:
  assumes "rest = [] \<or> digit_val 16 (hd rest) = None"
  shows "scan_number 16 (str ''0x'' @ print_hex w @ rest) = Some (False, uint w)"
proof -
  obtain c ds where h: "print_hex w = c # ds" using print_hex_digits(2) [of w] by (cases "print_hex w") auto
  have c: "digit_val 16 c \<noteq> None" using print_hex_digits(1) [of w] h by auto
  have all: "digit_val 16 x \<noteq> None" if "x \<in> set (print_hex w)" for x using print_hex_digits(1) [of w] that by blast
  have "takeWhile (\<lambda>c. digit_val 16 c \<noteq> None) rest = []" using assms by (cases rest) auto
  then have t: "takeWhile (\<lambda>c. digit_val 16 c \<noteq> None) (c # ds @ rest) = c # ds"
    using takeWhile_append2 [of "print_hex w" "\<lambda>c. digit_val 16 c \<noteq> None" rest, OF all] h by simp
  have p: "number_prefix 16 (48 # 120 # c # ds @ rest) = c # ds @ rest" using c by (simp add: number_prefix_def)
  have s: "number_sign (dropWhile is_space (48 # 120 # c # ds @ rest)) = (False, 48 # 120 # c # ds @ rest)"
    by (simp add: is_space_def number_sign_def)
  have "str ''0x'' = [48, 120]" by code_simp
  moreover have "digits_value 16 (c # ds) = uint w" using print_hex_digits(3) [of w] h by (simp only:)
  ultimately show ?thesis by (simp only: h append_Cons append_Nil scan_number_def s p t case_prod_conv Let_def) simp
qed

lemma hextou32_text:
  assumes "rest = [] \<or> digit_val 16 (hd rest) = None" and "uint w < 2 ^ 32"
  shows "safe_hextou32 (Some (str ''0x'' @ print_hex w @ rest)) = Some (ucast w)"
proof -
  have w: "\<not> uint w > 2 ^ 64 - 1" "\<not> uint w > 2 ^ 32 - 1" using assms(2) by simp_all
  have "(word_of_int (uint w) :: u32) = ucast w" by (simp only: ucast_eq)
  then show ?thesis
    unfolding safe_hextou32_def strto_unsigned_def option.case scan_hex_text [OF assms(1)] prod.case if_False Let_def
    by (simp only: w if_False if_True option.case)
qed

definition features_text :: "u64 \<Rightarrow> bytes" where
  "features_text f = str ''0x'' @ print_hex (take_bit 32 f) @ str '','' @ str ''0x'' @ print_hex (drop_bit 32 f)"

lemma features_read_text: "features_read (features_text f) = Some f"
proof -
  let ?hi = "str ''0x'' @ print_hex (drop_bit 32 f)"
  have comma: "str '','' = [44]" "digit_val 16 44 = None" by code_simp+
  have lo: "uint (take_bit 32 f) < 2 ^ 32" using take_bit_int_less_exp [of 32 "uint f"] by (simp add: unsigned_take_bit_eq)
  have hi: "uint (drop_bit 32 f) < 2 ^ 32"
    using uint_lt2p [of f] by (simp add: uint_drop_bit)
  have t: "features_text f = str ''0x'' @ print_hex (take_bit 32 f) @ 44 # ?hi"
    by (simp only: features_text_def comma append_Cons append_Nil)
  have no: "44 \<notin> set (str ''0x'' @ print_hex (take_bit 32 f))"
  proof -
    have "44 \<notin> set (str ''0x'')" by code_simp
    then show ?thesis using print_hex_digits(1) [of "take_bit 32 f"] comma by auto
  qed
  have "dropWhile (\<lambda>c. c \<noteq> 44) ((str ''0x'' @ print_hex (take_bit 32 f)) @ 44 # ?hi) = dropWhile (\<lambda>c. c \<noteq> 44) (44 # ?hi)"
    by (rule dropWhile_append2) (use no in blast)
  then have split: "dropWhile (\<lambda>c. c \<noteq> 44) (features_text f) = 44 # ?hi"
    by (simp only: t append_assoc dropWhile.simps simp_thms if_False)
  have "safe_hextou32 (Some (features_text f)) = Some (ucast (take_bit 32 f))"
    unfolding t by (rule hextou32_text [OF _ lo]) (simp only: list.sel comma, simp)
  moreover have "safe_hextou32 (Some ?hi) = Some (ucast (drop_bit 32 f))"
    using hextou32_text [OF disjI1 [OF refl] hi] by (simp only: append_Nil2)
  moreover have "push_bit 32 (ucast (ucast (drop_bit 32 f) :: u32)) OR ucast (ucast (take_bit 32 f) :: u32) = f"
    by (rule bit_eqI) (auto simp: bit_simps)
  ultimately show ?thesis unfolding features_read_def split by (simp only: option.case list.case)
qed

lemma keyval_get_append:
  "keyval_get (kv @ [(name, v)]) n =
     (case keyval_get kv n of Some x \<Rightarrow> Some x | None \<Rightarrow> if strcasecmp_eq name n then Some v else None)"
  by (induction kv n rule: keyval_get.induct) auto

lemma keyval_get_caseless: "strcasecmp_eq m n \<Longrightarrow> keyval_get kv m = keyval_get kv n"
  by (induction kv) (auto simp: strcasecmp_eq_def)

definition all_ones :: "keyval \<Rightarrow> bool" where
  "all_ones kv \<longleftrightarrow> (\<forall>n v. keyval_get kv n = Some v \<longrightarrow> v = str ''1'')"

lemma keyval_add_one:
  assumes "all_ones kv"
  shows "\<exists>ret kv1. keyval_add kv name (str ''1'') = Inr (ret, kv1) \<and> all_ones kv1
     \<and> (\<forall>n. keyval_get kv1 n \<noteq> None \<longleftrightarrow> keyval_get kv n \<noteq> None \<or> strcasecmp_eq name n)"
proof (cases "keyval_get kv name")
  case None
  let ?kv = "kv @ [(name, str ''1'')]"
  have "c_string (take (length (str ''1'')) (str ''1'' @ [0])) = str ''1''" by code_simp
  then have "keyval_add kv name (str ''1'') = Inr (0, ?kv)" using None by (simp add: keyval_add_def keyval_add_size_def)
  moreover have "all_ones ?kv" using assms by (auto simp: all_ones_def keyval_get_append split: option.splits if_splits)
  ultimately show ?thesis by (auto simp: keyval_get_append split: option.splits)
next
  case (Some v)
  then have "keyval_add kv name (str ''1'') = Inr (0, kv)"
    using assms by (auto simp: keyval_add_def keyval_add_size_def all_ones_def)
  moreover have "keyval_get kv n \<noteq> None" if "strcasecmp_eq name n" for n
    using keyval_get_caseless [OF that, of kv] Some by (metis option.distinct(1))
  ultimately show ?thesis using assms by blast
qed

definition announces :: "bytes \<Rightarrow> nat \<Rightarrow> bool" where
  "announces n i = (case map_of features_map i of None \<Rightarrow> False | Some m \<Rightarrow> strcasecmp_eq m n)"

lemma features_walk_gets:
  "all_ones kv \<Longrightarrow> \<exists>kv1. features_walk f is kv = Inr kv1
     \<and> (\<forall>n. keyval_get kv1 n \<noteq> None \<longleftrightarrow> keyval_get kv n \<noteq> None \<or> (\<exists>i \<in> set is. bit f i \<and> announces n i))"
proof (induction "is" arbitrary: kv)
  case (Cons i "is")
  show ?case
  proof (cases "bit f i \<and> map_of features_map i \<noteq> None")
    case True
    then obtain m where m: "bit f i" "map_of features_map i = Some m" by auto
    obtain ret kv1 where add: "keyval_add kv m (str ''1'') = Inr (ret, kv1)" "all_ones kv1"
      "\<forall>n. keyval_get kv1 n \<noteq> None \<longleftrightarrow> keyval_get kv n \<noteq> None \<or> strcasecmp_eq m n"
      using keyval_add_one [OF Cons.prems, of m] by blast
    then show ?thesis using Cons.IH [OF add(2)] m by (auto simp: announces_def)
  next
    case False
    then show ?thesis using Cons.IH [OF Cons.prems] by (auto simp: announces_def)
  qed
qed simp

text \<open>A name that stands for one bit alone. Names of different lengths need not be compared.\<close>

definition same_name :: "string \<Rightarrow> string \<Rightarrow> bool" where
  "same_name m n = (if length m = length n then strcasecmp_eq (str m) (str n) else False)"

definition only_bit :: "string \<Rightarrow> nat \<Rightarrow> bool" where
  "only_bit n b \<longleftrightarrow> list_all (\<lambda>(c, m). same_name m n \<longleftrightarrow> c = b) features_list \<and> b \<in> set (map fst features_list) \<and> b < 64"

lemma same_name_eq: "same_name m n \<longleftrightarrow> strcasecmp_eq (str m) (str n)"
  by (auto simp: same_name_def strcasecmp_eq_def str_def dest: map_eq_imp_length_eq)

lemma announces_only:
  assumes "only_bit n b"
  shows "announces (str n) i \<longleftrightarrow> i = b"
proof -
  have m: "map_of features_map i = map_option str (map_of features_list i)" for i
    by (simp add: features_map_def map_of_map)
  have s: "same_name m n \<longleftrightarrow> i = b" if "map_of features_list i = Some m" for i m
    using assms map_of_SomeD [OF that] by (auto simp: only_bit_def list_all_iff)
  obtain m where "map_of features_list b = Some m"
    using assms by (metis map_of_eq_None_iff not_None_eq only_bit_def set_map)
  then show ?thesis using s by (cases "map_of features_list i") (auto simp: announces_def m same_name_eq)
qed

lemma features_parse_text:
  "\<exists>kv. features_parse [] (features_text f) = Inr (0, kv) \<and> (\<forall>n b. only_bit n b \<longrightarrow> has_feature kv n = bit f b)"
proof -
  have "all_ones []" by (simp add: all_ones_def)
  from features_walk_gets [OF this, of f "[0..<64]"] obtain kv where
    kv: "features_walk f [0..<64] [] = Inr kv" "\<forall>n. keyval_get kv n \<noteq> None \<longleftrightarrow> (\<exists>i \<in> {0..<64}. bit f i \<and> announces n i)"
    by auto
  have "has_feature kv n = bit f b" if "only_bit n b" for n b
    using kv(2) announces_only [OF that] that by (auto simp: has_feature_def only_bit_def)
  then show ?thesis using kv(1) by (simp add: features_parse_def features_read_text)
qed

lemma announced_bits:
  "only_bit ''SupportsAirPlayAudio'' 9" "only_bit ''MetadataFeatures_0'' 15" "only_bit ''MetadataFeatures_1'' 16"
  "only_bit ''MetadataFeatures_2'' 17" "only_bit ''Authentication_8'' 26" "only_bit ''SupportsSystemPairing'' 43"
  "only_bit ''SupportsHKPairingAndAccessControl'' 46" "only_bit ''SupportsCoreUtilsPairingAndEncryption'' 48"
  by code_simp+

subsection \<open>Device numbers with colons\<close>

fun colons :: "bytes \<Rightarrow> bytes" where
  "colons (a # b # c # ds) = a # b # 58 # colons (c # ds)"
| "colons ds = ds"

lemma colons_filter: "58 \<notin> set ds \<Longrightarrow> filter (\<lambda>c. c \<noteq> 58) (colons ds) = ds"
  by (induction ds rule: colons.induct) auto

lemma list_of_16:
  assumes "length ds = 16"
  obtains d0 d1 d2 d3 d4 d5 d6 d7 d8 d9 d10 d11 d12 d13 d14 d15
  where "ds = [d0, d1, d2, d3, d4, d5, d6, d7, d8, d9, d10, d11, d12, d13, d14, d15]"
  using assms by (auto simp: numeral_eq_Suc length_Suc_conv)

lemma list_of_7: "length xs = 7 \<Longrightarrow> \<exists>a b c d e f g. xs = [a, b, c, d, e, f, g]"
  by (auto simp: numeral_eq_Suc length_Suc_conv)

lemma colon_loop_text:
  assumes "length mem = 24" and "length ds = 16" and "0 \<notin> set ds"
  shows "\<exists>s. colon_loop 15 22 (overlay mem (ds @ [0])) = Inr s \<and> length s = 24
    \<and> c_string (s[23 := 0]) = colons ds"
proof -
  obtain d0 d1 d2 d3 d4 d5 d6 d7 d8 d9 d10 d11 d12 d13 d14 d15
    where d: "ds = [d0, d1, d2, d3, d4, d5, d6, d7, d8, d9, d10, d11, d12, d13, d14, d15]"
    using assms(2) by (rule list_of_16)
  have "length (drop 17 mem) = 7" using assms(1) by simp
  then obtain m0 m1 m2 m3 m4 m5 m6 where m: "drop 17 mem = [m0, m1, m2, m3, m4, m5, m6]"
    using list_of_7 by blast
  have o: "overlay mem (ds @ [0]) = ds @ 0 # [m0, m1, m2, m3, m4, m5, m6]" using m by (simp add: overlay_def assms(2))
  show ?thesis
    unfolding o unfolding d using assms(3) by (simp add: colon_loop.simps d c_string_def)
qed

lemma hextou64_digits:
  assumes "set ds \<subseteq> {c. digit_val 16 c \<noteq> None}" and "ds \<noteq> []" and "digits_value 16 ds < 2 ^ 64" and "0 \<le> digits_value 16 ds"
  shows "safe_hextou64 (Some ds) = Some (word_of_int (digits_value 16 ds))"
proof -
  obtain c cs where ds: "ds = c # cs" using assms(2) by (cases ds) auto
  have no: "digit_val 16 c = None" if "is_space c \<or> c = 45 \<or> c = 43 \<or> c = 120 \<or> c = 88" for c
    using that by (auto simp: digit_val_def hex_digit_def is_space_def word_le_def word_less_def split: option.split)
  have c: "\<not> is_space c" "c \<noteq> 45" "c \<noteq> 43" using assms(1) ds no by force+
  have p: "number_prefix 16 ds = ds"
    using assms(1) no by (auto simp: number_prefix_def split: list.split)
  have t: "takeWhile (\<lambda>c. digit_val 16 c \<noteq> None) ds = ds" using assms(1) by (auto intro: takeWhile_eq_all_conv [THEN iffD2])
  have "scan_number 16 ds = Some (False, digits_value 16 ds)"
    using c p t by (simp add: scan_number_def ds number_sign_def Let_def)
  then show ?thesis using assms(3,4) by (simp add: safe_hextou64_def strto_unsigned_def)
qed

lemma print_hex16_digits: "set (print_hex16 w) \<subseteq> {c. digit_val 16 c \<noteq> None}" "length (print_hex16 w) = 16"
  by (auto simp: print_hex16_nibbles hex_upper_digit nibble_less)

text \<open>The number of a device survives its text. In the array of 24 bytes that the caller has, \<open>device_id_colon_make\<close>
  writes the 16 digits with a colon between every two, within the array, and \<open>device_id_colon_parse\<close> reads the number
  back from the text.\<close>

lemma device_id_roundtrip:
  assumes "length mem = 24"
  shows "\<exists>s. device_id_colon_make mem i = Inr s \<and> length s = 24 \<and> c_string s = colons (print_hex16 i)
    \<and> device_id_colon_parse (c_string s) = Some i"
proof -
  have no: "0 \<notin> set (print_hex16 i)" "58 \<notin> set (print_hex16 i)"
  proof -
    have "digit_val 16 0 = None" "digit_val 16 58 = None" by code_simp+
    then show "0 \<notin> set (print_hex16 i)" "58 \<notin> set (print_hex16 i)" using print_hex16_digits(1) [of i] by auto
  qed
  obtain s where s: "colon_loop 15 22 (overlay mem (print_hex16 i @ [0])) = Inr s" "length s = 24"
    "c_string (s[23 := 0]) = colons (print_hex16 i)"
    using colon_loop_text [OF assms print_hex16_digits(2) no(1)] by blast
  have "print_hex16 i \<noteq> []" using print_hex16_digits(2) [of i] by force
  moreover have "digits_value 16 (print_hex16 i) < 2 ^ 64" using uint_lt2p [of i] by (simp add: print_hex16_value)
  ultimately have "safe_hextou64 (Some (print_hex16 i)) = Some i"
    using hextou64_digits [OF print_hex16_digits(1)] by (simp add: print_hex16_value)
  then have "device_id_colon_parse (colons (print_hex16 i)) = Some i"
    using no(2) by (simp add: device_id_colon_parse_def colons_filter)
  then show ?thesis using s assms by (simp add: device_id_colon_make_def Let_def)
qed

subsection \<open>What is announced is found\<close>


end
