(* ===== verification/Airplay_Event_Channel.thy ===== *)
theory Airplay_Event_Channel
  imports Airplay_Requests
begin

text \<open>
  The reverse connection of \<open>src/airplay_events.c\<close>, on which a device tells the player of its buttons: the
  clients, the parser of messages, the answer, and the thread with its event loop. Property lists are read
  by libplist, a parameter; \<open>plist_get_string_val\<close> gives \<open>None\<close> where it leaves a null pointer. The functions of
  the player (\<open>src/owntones_dummy.c\<close>) do nothing; the calls are recorded.
\<close>

subsection \<open>The state\<close>

datatype airplay_events =
  AIRPLAY_EVENT_UNKNOWN | AIRPLAY_EVENT_PLAY | AIRPLAY_EVENT_PAUSE | AIRPLAY_EVENT_NEXT | AIRPLAY_EVENT_PREV

datatype player_call = Playback_start | Playback_pause | Playback_next | Playback_prev

text \<open>A client is known by a number that stands for its address.\<close>

record airplay_events_client =
  ec_addr :: nat
  ec_name :: bytes
  ec_fd :: int
  ec_cipher_ctx :: cipher_ctx
  ec_incoming :: bytes
  ec_pending :: bytes

datatype events_thread = Thread_created | Thread_in_loop | Thread_ended

text \<open>\<open>es_calls\<close> and \<open>es_sent\<close> are the history: calls of the player, and bytes written to a connection.\<close>

record events_state =
  es_thread :: events_thread
  es_clients :: "airplay_events_client list"
  es_calls :: "player_call list"
  es_sent :: "(int \<times> bytes) list"

subsection \<open>Clients\<close>

fun client_unlink :: "nat \<Rightarrow> airplay_events_client list \<Rightarrow> airplay_events_client list" where
  "client_unlink a [] = []"
| "client_unlink a (c # cs) = (if ec_addr c = a then cs else c # client_unlink a cs)"

definition client_remove :: "nat \<Rightarrow> events_state \<Rightarrow> events_state" where
  "client_remove a st = st\<lparr>es_clients := client_unlink a (es_clients st)\<rparr>"

text \<open>\<open>listener\<close> tells whether \<open>event_new\<close> succeeds, \<open>a\<close> is the address that \<open>calloc\<close> gives.\<close>

definition client_add ::
  "pair_table \<Rightarrow> crypto \<Rightarrow> nat \<Rightarrow> bool \<Rightarrow> bytes \<Rightarrow> int \<Rightarrow> bytes \<Rightarrow> events_state \<Rightarrow> (int \<times> events_state) res" where
  "client_add T C a listener name fd key st =
     (if \<not> listener then Inr (-1, st)
      else bind_res (pair_cipher_new T C PAIR_CLIENT_HOMEKIT_NORMAL 1 key) (\<lambda>cctx.
        case cctx of
          None \<Rightarrow> Inr (-1, st)
        | Some c \<Rightarrow> Inr (0, st\<lparr>es_clients := \<lparr>ec_addr = a, ec_name = name, ec_fd = fd, ec_cipher_ctx = c,
                                  ec_incoming = [], ec_pending = []\<rparr> # es_clients st\<rparr>)))"

text \<open>\<open>fd\<close> is what \<open>net_connect\<close> returns.\<close>

definition airplay_events_listen ::
  "pair_table \<Rightarrow> crypto \<Rightarrow> nat \<Rightarrow> bool \<Rightarrow> bytes \<Rightarrow> int \<Rightarrow> bytes \<Rightarrow> events_state \<Rightarrow> (int \<times> events_state) res" where
  "airplay_events_listen T C a listener name fd key st =
     (if fd < 0 then Inr (-1, st)
      else bind_res (client_add T C a listener name fd key st) (\<lambda>(ret, st1). Inr (if ret < 0 then -1 else fd, st1)))"

subsection \<open>Messages\<close>

definition PACKAGE_NAME :: bytes where "PACKAGE_NAME = str ''owntone''"

definition RTSP_VERSION :: bytes where "RTSP_VERSION = str ''RTSP/1.0''"

definition crlf :: bytes where "crlf = [13, 10]"

definition response_headers_add :: "bytes \<Rightarrow> int \<Rightarrow> nat \<Rightarrow> bytes option \<Rightarrow> bytes" where
  "response_headers_add response cseq content_length content_type =
     response @ RTSP_VERSION @ str '' 200 OK'' @ crlf @ str ''Server: '' @ PACKAGE_NAME @ str ''/1.0'' @ crlf
       @ (if content_length \<noteq> 0 then str ''Content-Length: '' @ dec_digits content_length @ crlf else [])
       @ (case content_type of None \<Rightarrow> [] | Some t \<Rightarrow> str ''Content-Type: '' @ t @ crlf)
       @ (if cseq \<noteq> 0 then str ''CSeq: '' @ print_int cseq @ crlf else []) @ crlf"

definition response_create_from_raw :: "bytes \<Rightarrow> bytes option \<Rightarrow> nat \<Rightarrow> int \<Rightarrow> bytes option \<Rightarrow> bytes" where
  "response_create_from_raw response body body_len cseq content_type =
     response_headers_add response cseq body_len content_type @ (case body of None \<Rightarrow> [] | Some b \<Rightarrow> take body_len b)"

text \<open>The body starts where the header of a binary property list is, with something behind it.\<close>

fun body_find :: "bytes \<Rightarrow> bytes option" where
  "body_find inp =
     (if length inp > 6 then (if take 6 inp = str ''bplist'' then Some inp else body_find (tl inp)) else None)"

declare body_find.simps [simp del]

definition rtsp_parse :: "'p plist_lib \<Rightarrow> ('p \<Rightarrow> bytes option) \<Rightarrow> bytes \<Rightarrow> airplay_events option" where
  "rtsp_parse L string_val inp =
     (case body_find inp of None \<Rightarrow> None
      | Some body \<Rightarrow>
          (case pl_from_bin L body of None \<Rightarrow> None
           | Some request \<Rightarrow>
               let field = (\<lambda>n. Option.bind (pl_dict_get_item L request (str n)) string_val) in
               (case (field ''type'', field ''value'') of
                  (Some ty, Some v) \<Rightarrow>
                    if ty \<noteq> str ''sendMediaRemoteCommand'' then None
                    else Some (if v = str ''paus'' then AIRPLAY_EVENT_PAUSE
                               else if v = str ''play'' then AIRPLAY_EVENT_PLAY
                               else if v = str ''nitm'' then AIRPLAY_EVENT_NEXT
                               else if v = str ''pitm'' then AIRPLAY_EVENT_PREV
                               else AIRPLAY_EVENT_UNKNOWN)
                | _ \<Rightarrow> None)))"

text \<open>\<open>playing\<close>: the status is \<open>PLAY_PLAYING\<close>, as \<open>player_get_status\<close> always says.\<close>

definition handle_event :: "bool \<Rightarrow> airplay_events \<Rightarrow> player_call list" where
  "handle_event playing event =
     (case event of
        AIRPLAY_EVENT_PLAY \<Rightarrow> [if playing then Playback_pause else Playback_start]
      | AIRPLAY_EVENT_PAUSE \<Rightarrow> [if playing then Playback_pause else Playback_start]
      | AIRPLAY_EVENT_NEXT \<Rightarrow> [Playback_next]
      | AIRPLAY_EVENT_PREV \<Rightarrow> [Playback_prev]
      | AIRPLAY_EVENT_UNKNOWN \<Rightarrow> [])"

text \<open>
  The loop of \<open>respond\<close> writes until nothing is left. \<open>writes k\<close> is what the \<open>k\<close>-th call of \<open>evbuffer_write\<close> returns; it
  takes no more than there is. The result is 0 or -1 and what went out.
\<close>

function write_loop_events :: "(nat \<Rightarrow> int) \<Rightarrow> nat \<Rightarrow> bytes \<Rightarrow> int \<times> bytes" where
  "write_loop_events writes k data =
     (if writes k \<le> 0 then (-1, [])
      else
        let n = nat (writes k) in
        if length data \<le> n then (0, data)
        else (case write_loop_events writes (k + 1) (drop n data) of (ret, out) \<Rightarrow> (ret, take n data @ out)))"
  by pat_completeness auto
termination by (relation "measure (\<lambda>(writes, k, data). length data)") auto

declare write_loop_events.simps [simp del]

definition respond ::
  "pair_table \<Rightarrow> crypto \<Rightarrow> (nat \<Rightarrow> int) \<Rightarrow> airplay_events_client \<Rightarrow> int \<times> airplay_events_client \<times> bytes" where
  "respond T C writes c =
     (case buffer_encrypt T C [] (response_create_from_raw [] None 0 0 None) (ec_cipher_ctx c) of
        (ret, encrypted, cctx) \<Rightarrow>
          let c1 = c\<lparr>ec_cipher_ctx := cctx\<rparr> in
          if ret < 0 then (-1, c1, [])
          else (case write_loop_events writes 0 encrypted of (ret, out) \<Rightarrow> (ret, c1, out)))"

subsection \<open>Incoming data\<close>

text \<open>What \<open>evbuffer_read\<close> does: some bytes, the end of the connection, or an error.\<close>

datatype read_result = Read_bytes bytes | Read_closed | Read_error

definition client_put :: "airplay_events_client \<Rightarrow> events_state \<Rightarrow> events_state" where
  "client_put c st = st\<lparr>es_clients := map (\<lambda>d. if ec_addr d = ec_addr c then c else d) (es_clients st)\<rparr>"

definition incoming_cb ::
  "pair_table \<Rightarrow> crypto \<Rightarrow> 'p plist_lib \<Rightarrow> ('p \<Rightarrow> bytes option) \<Rightarrow> bool \<Rightarrow> read_result \<Rightarrow> (nat \<Rightarrow> int)
     \<Rightarrow> airplay_events_client \<Rightarrow> events_state \<Rightarrow> events_state res" where
  "incoming_cb T C L string_val playing r writes c st =
     (case r of
        Read_closed \<Rightarrow> Inr (client_remove (ec_addr c) st)
      | Read_error \<Rightarrow> Inr (client_remove (ec_addr c) st)
      | Read_bytes bs \<Rightarrow>
          bind_res (buffer_decrypt T C (ec_pending c) (ec_incoming c @ bs) (ec_cipher_ctx c)) (\<lambda>(ret, pending, incoming, cctx).
            if ret < 0 then Inr (client_remove (ec_addr c) st)
            else
              let c1 = c\<lparr>ec_incoming := incoming, ec_pending := [], ec_cipher_ctx := cctx\<rparr> in
              (case rtsp_parse L string_val pending of
                 None \<Rightarrow> Inr (client_put c1 st)
               | Some event \<Rightarrow>
                   let st1 = st\<lparr>es_calls := es_calls st @ handle_event playing event\<rparr> in
                   (case respond T C writes c1 of
                      (ret, c2, out) \<Rightarrow>
                        let st2 = st1\<lparr>es_sent := es_sent st1 @ [(ec_fd c, out)]\<rparr> in
                        Inr (if ret < 0 then client_remove (ec_addr c) st2 else client_put c2 st2)))))"

subsection \<open>The thread\<close>

text \<open>
  \<open>airplay_events_init\<close> makes the thread, which runs \<open>event_base_dispatch\<close> once: the loop of libevent returns as soon
  as no event is registered, and the listeners of the clients are the only ones there are.
\<close>

definition airplay_events_init :: events_state where
  "airplay_events_init = \<lparr>es_thread = Thread_created, es_clients = [], es_calls = [], es_sent = []\<rparr>"

datatype events_input =
  Thread_runs
| Listen_called nat bool bytes int bytes
| Data_arrives nat read_result "nat \<Rightarrow> int"

definition dispatch_state :: "airplay_events_client list \<Rightarrow> events_thread" where
  "dispatch_state clients = (if clients = [] then Thread_ended else Thread_in_loop)"

definition events_step ::
  "pair_table \<Rightarrow> crypto \<Rightarrow> 'p plist_lib \<Rightarrow> ('p \<Rightarrow> bytes option) \<Rightarrow> bool \<Rightarrow> events_input \<Rightarrow> events_state \<Rightarrow> events_state res" where
  "events_step T C L string_val playing e st =
     (case e of
        Thread_runs \<Rightarrow> Inr (if es_thread st = Thread_created then st\<lparr>es_thread := dispatch_state (es_clients st)\<rparr> else st)
      | Listen_called a listener name fd key \<Rightarrow>
          bind_res (airplay_events_listen T C a listener name fd key st) (\<lambda>(ret, st1). Inr st1)
      | Data_arrives a r writes \<Rightarrow>
          (if es_thread st \<noteq> Thread_in_loop then Inr st
           else (case find (\<lambda>c. ec_addr c = a) (es_clients st) of
                   None \<Rightarrow> Inr st
                 | Some c \<Rightarrow> bind_res (incoming_cb T C L string_val playing r writes c st) (\<lambda>st1.
                     Inr (st1\<lparr>es_thread := dispatch_state (es_clients st1)\<rparr>)))))"

fun events_run ::
  "pair_table \<Rightarrow> crypto \<Rightarrow> 'p plist_lib \<Rightarrow> ('p \<Rightarrow> bytes option) \<Rightarrow> bool \<Rightarrow> events_input list \<Rightarrow> events_state \<Rightarrow> events_state res" where
  "events_run T C L string_val playing [] st = Inr st"
| "events_run T C L string_val playing (e # es) st =
     bind_res (events_step T C L string_val playing e st) (events_run T C L string_val playing es)"

subsection \<open>A message of one block\<close>

text \<open>The two ends of a connection have the same keys and counters.\<close>

definition in_step :: "cipher_ctx \<Rightarrow> cipher_ctx \<Rightarrow> bool" where
  "in_step a b \<longleftrightarrow> c_decryption_key a = c_encryption_key b \<and> c_decryption_counter a = c_encryption_counter b
     \<and> c_encryption_key a = c_decryption_key b \<and> c_encryption_counter a = c_decryption_counter b
     \<and> c_type a \<noteq> PAIR_CLIENT_FRUIT \<and> c_type b \<noteq> PAIR_CLIENT_FRUIT"

lemma one_block: "m \<noteq> [] \<Longrightarrow> length m \<le> 1024 \<Longrightarrow> blocks m = [m]"
  by (simp add: blocks.simps [of m] ENCRYPTED_LEN_MAX_def)

lemma decrypt_part:
  assumes "aead_ok C" and "length m \<le> 1024" and "2 \<le> length p" and "homekit_cipher T (c_type cctx)"
    and wire: "p @ q = seal_blocks C (c_decryption_key cctx) (c_decryption_counter cctx) [m]"
  shows "buffer_decrypt T C obuf p cctx = Inr (0, obuf @ (if q = [] then m else []), if q = [] then [] else p,
    cctx\<lparr>c_decryption_counter_prev := c_decryption_counter cctx,
         c_decryption_counter := c_decryption_counter cctx + (if q = [] then 1 else 0)\<rparr>)"
proof -
  let ?s = "seal_blocks C (c_decryption_key cctx) (c_decryption_counter cctx)"
  have len: "length p + length q = length (?s [m])" using arg_cong [OF wire, of length] by simp
  have split: "\<forall>k \<le> length [m]. length p \<noteq> length (?s (take k [m])) + 1"
    using assms(3) len by (auto simp: le_Suc_eq)
  have "\<forall>b \<in> set [m]. length b \<le> 1024" using assms(2) by simp
  from decrypt_prefix [OF assms(1) this wire assms(3) split] obtain k r where k: "k \<le> length [m]"
    and p: "p = ?s (take k [m]) @ r" and all: "q = [] \<Longrightarrow> k = length [m] \<and> r = []"
    and dec: "decrypt C p cctx = Inr (int (length p - length r), Some (concat (take k [m])),
      cctx\<lparr>c_decryption_counter_prev := c_decryption_counter cctx,
           c_decryption_counter := c_decryption_counter cctx + of_nat k\<rparr>)"
    by metis
  show ?thesis
  proof (cases "q = []")
    case True
    then show ?thesis using all dec by (simp add: buffer_decrypt_def homekit_cipher_eq(2) [OF assms(4)])
  next
    case False
    have "k = 0"
    proof (rule ccontr)
      assume "k \<noteq> 0"
      then have "k = 1" using k by simp
      then have "length (?s [m]) \<le> length p" using p by simp
      then show False using len False by (cases q) simp_all
    qed
    then show ?thesis using False p dec by (simp add: buffer_decrypt_def homekit_cipher_eq(2) [OF assms(4)])
  qed
qed

lemma write_all: "\<forall>k. 0 < writes k \<Longrightarrow> write_loop_events writes k data = (0, data)"
proof (induction writes k data rule: write_loop_events.induct)
  case (1 writes k data)
  then show ?case
    by (subst write_loop_events.simps) (simp add: Let_def not_le)
qed

definition event_response :: bytes where
  "event_response = response_create_from_raw [] None 0 0 None"

lemma event_response_length: "event_response \<noteq> [] \<and> length event_response \<le> 1024"
  by code_simp

lemma respond_eq:
  assumes "aead_ok C" and "homekit_cipher T (c_type (ec_cipher_ctx c))" and "\<forall>k. 0 < writes k"
  shows "respond T C writes c = (let cctx = ec_cipher_ctx c in
    (0, c\<lparr>ec_cipher_ctx := cctx\<lparr>c_encryption_counter_prev := c_encryption_counter cctx,
                              c_encryption_counter := c_encryption_counter cctx + 1\<rparr>\<rparr>,
     seal_blocks C (c_encryption_key cctx) (c_encryption_counter cctx) [event_response]))"
proof -
  note r = event_response_length
  have b: "blocks event_response = [event_response]" using r by (intro one_block) auto
  show ?thesis
    using encrypt_eq [OF assms(1), of event_response "ec_cipher_ctx c"] r b write_all [OF assms(3)]
    by (simp add: respond_def buffer_encrypt_def homekit_cipher_eq(1) [OF assms(2)] event_response_def [symmetric] Let_def)
qed

lemma rtsp_parse_Nil [simp]: "rtsp_parse L string_val [] = None"
  by (simp add: rtsp_parse_def body_find.simps)

lemma find_distinct:
  "distinct (map ec_addr cs) \<Longrightarrow> c \<in> set cs \<Longrightarrow> find (\<lambda>d. ec_addr d = ec_addr c) cs = Some c"
  by (induction cs) (auto dest: imageI)

lemma map_put_put:
  "ec_addr c1 = a \<Longrightarrow> ec_addr c2 = a \<Longrightarrow>
     map (\<lambda>d. if ec_addr d = a then c2 else d) (map (\<lambda>d. if ec_addr d = a then c1 else d) cs)
       = map (\<lambda>d. if ec_addr d = a then c2 else d) cs"
  by simp

lemma put_clients:
  assumes "ec_addr c1 = ec_addr c" and "c \<in> set (es_clients st)"
  shows "c1 \<in> set (es_clients (client_put c1 st)) \<and> map ec_addr (es_clients (client_put c1 st)) = map ec_addr (es_clients st)"
  using assms by (force simp: client_put_def)

text \<open>One piece of the cipher text of a message, the last one or one before it.\<close>

lemma piece_step:
  assumes "aead_ok C" and "length msg \<le> 1024" and "homekit_cipher T (c_type (ec_cipher_ctx c))"
    and "es_thread st = Thread_in_loop" and "distinct (map ec_addr (es_clients st))" and "c \<in> set (es_clients st)"
    and "ec_pending c = []" and "2 \<le> length (ec_incoming c @ p)" and "\<forall>k. 0 < writes k"
    and wire: "(ec_incoming c @ p) @ q
      = seal_blocks C (c_decryption_key (ec_cipher_ctx c)) (c_decryption_counter (ec_cipher_ctx c)) [msg]"
    and "rtsp_parse L string_val msg = Some event"
  shows "\<exists>c1 st1. events_step T C L string_val playing (Data_arrives (ec_addr c) (Read_bytes p) writes) st = Inr st1
    \<and> ec_addr c1 = ec_addr c \<and> ec_fd c1 = ec_fd c \<and> ec_pending c1 = [] \<and> es_clients st1 = es_clients (client_put c1 st)
    \<and> es_thread st1 = Thread_in_loop
    \<and> (if q = [] then ec_incoming c1 = []
         \<and> ec_cipher_ctx c1 = (ec_cipher_ctx c)\<lparr>c_decryption_counter_prev := c_decryption_counter (ec_cipher_ctx c),
              c_decryption_counter := c_decryption_counter (ec_cipher_ctx c) + 1,
              c_encryption_counter_prev := c_encryption_counter (ec_cipher_ctx c),
              c_encryption_counter := c_encryption_counter (ec_cipher_ctx c) + 1\<rparr>
         \<and> es_calls st1 = es_calls st @ handle_event playing event
         \<and> es_sent st1 = es_sent st @ [(ec_fd c, seal_blocks C (c_encryption_key (ec_cipher_ctx c))
              (c_encryption_counter (ec_cipher_ctx c)) [event_response])]
       else ec_incoming c1 = ec_incoming c @ p
         \<and> ec_cipher_ctx c1 = (ec_cipher_ctx c)\<lparr>c_decryption_counter_prev := c_decryption_counter (ec_cipher_ctx c)\<rparr>
         \<and> es_calls st1 = es_calls st \<and> es_sent st1 = es_sent st)"
proof -
  let ?cctx = "ec_cipher_ctx c"
  note dec = decrypt_part [OF assms(1,2,8,3) wire, of "ec_pending c"]
  let ?cctx1 = "?cctx\<lparr>c_decryption_counter_prev := c_decryption_counter ?cctx,
         c_decryption_counter := c_decryption_counter ?cctx + (if q = [] then 1 else 0)\<rparr>"
  let ?c1 = "c\<lparr>ec_incoming := if q = [] then [] else ec_incoming c @ p, ec_pending := [], ec_cipher_ctx := ?cctx1\<rparr>"
  have ne: "es_clients (client_put d st) \<noteq> []" for d using assms(6) by (auto simp: client_put_def)
  have hc: "homekit_cipher T (c_type (ec_cipher_ctx ?c1))" using assms(3) by simp
  show ?thesis
  proof (cases "q = []")
    case True
    note resp = respond_eq [OF assms(1) hc assms(9)]
    let ?c2 = "?c1\<lparr>ec_cipher_ctx := ?cctx1\<lparr>c_encryption_counter_prev := c_encryption_counter ?cctx,
                              c_encryption_counter := c_encryption_counter ?cctx + 1\<rparr>\<rparr>"
    show ?thesis
      using assms(4,7,11) find_distinct [OF assms(5,6)] dec resp True ne [of ?c2]
      by (intro exI [of _ ?c2])
        (simp add: events_step_def incoming_cb_def Let_def dispatch_state_def client_put_def)
  next
    case False
    show ?thesis
      using assms(4,7) find_distinct [OF assms(5,6)] dec False ne [of ?c1]
      by (intro exI [of _ ?c1])
        (simp add: events_step_def incoming_cb_def Let_def dispatch_state_def client_put_def)
  qed
qed

lemma pieces_run:
  assumes "aead_ok C" and "length msg \<le> 1024" and "\<forall>k. 0 < writes k" and "rtsp_parse L string_val msg = Some event"
  shows "ps \<noteq> [] \<Longrightarrow> [] \<notin> set ps \<Longrightarrow> 2 \<le> length (ec_incoming c @ hd ps) \<Longrightarrow> homekit_cipher T (c_type (ec_cipher_ctx c)) \<Longrightarrow>
    es_thread st = Thread_in_loop \<Longrightarrow> distinct (map ec_addr (es_clients st)) \<Longrightarrow> c \<in> set (es_clients st) \<Longrightarrow> ec_pending c = [] \<Longrightarrow>
    ec_incoming c @ concat ps
      = seal_blocks C (c_decryption_key (ec_cipher_ctx c)) (c_decryption_counter (ec_cipher_ctx c)) [msg] \<Longrightarrow>
    \<exists>c1 st1. events_run T C L string_val playing (map (\<lambda>p. Data_arrives (ec_addr c) (Read_bytes p) writes) ps) st = Inr st1
      \<and> es_thread st1 = Thread_in_loop \<and> es_clients st1 = es_clients (client_put c1 st)
      \<and> ec_addr c1 = ec_addr c \<and> ec_fd c1 = ec_fd c \<and> ec_pending c1 = [] \<and> ec_incoming c1 = []
      \<and> es_calls st1 = es_calls st @ handle_event playing event
      \<and> es_sent st1 = es_sent st @ [(ec_fd c, seal_blocks C (c_encryption_key (ec_cipher_ctx c))
              (c_encryption_counter (ec_cipher_ctx c)) [event_response])]
      \<and> ec_cipher_ctx c1 = (ec_cipher_ctx c)\<lparr>c_decryption_counter_prev := c_decryption_counter (ec_cipher_ctx c),
              c_decryption_counter := c_decryption_counter (ec_cipher_ctx c) + 1,
              c_encryption_counter_prev := c_encryption_counter (ec_cipher_ctx c),
              c_encryption_counter := c_encryption_counter (ec_cipher_ctx c) + 1\<rparr>"
proof (induction ps arbitrary: c st)
  case (Cons p ps)
  have wire: "(ec_incoming c @ p) @ concat ps
      = seal_blocks C (c_decryption_key (ec_cipher_ctx c)) (c_decryption_counter (ec_cipher_ctx c)) [msg]"
    using Cons.prems(9) by simp
  have long: "2 \<le> length (ec_incoming c @ p)" using Cons.prems(3) by simp
  have q: "concat ps = [] \<longleftrightarrow> ps = []" using Cons.prems(2) by (cases ps) auto
  obtain c1 st1 where step: "events_step T C L string_val playing (Data_arrives (ec_addr c) (Read_bytes p) writes) st = Inr st1"
      and c1: "ec_addr c1 = ec_addr c" "ec_fd c1 = ec_fd c" "ec_pending c1 = []"
      and st1: "es_clients st1 = es_clients (client_put c1 st)" "es_thread st1 = Thread_in_loop"
      and out: "if ps = [] then ec_incoming c1 = []
         \<and> ec_cipher_ctx c1 = (ec_cipher_ctx c)\<lparr>c_decryption_counter_prev := c_decryption_counter (ec_cipher_ctx c),
              c_decryption_counter := c_decryption_counter (ec_cipher_ctx c) + 1,
              c_encryption_counter_prev := c_encryption_counter (ec_cipher_ctx c),
              c_encryption_counter := c_encryption_counter (ec_cipher_ctx c) + 1\<rparr>
         \<and> es_calls st1 = es_calls st @ handle_event playing event
         \<and> es_sent st1 = es_sent st @ [(ec_fd c, seal_blocks C (c_encryption_key (ec_cipher_ctx c))
              (c_encryption_counter (ec_cipher_ctx c)) [event_response])]
       else ec_incoming c1 = ec_incoming c @ p
         \<and> ec_cipher_ctx c1 = (ec_cipher_ctx c)\<lparr>c_decryption_counter_prev := c_decryption_counter (ec_cipher_ctx c)\<rparr>
         \<and> es_calls st1 = es_calls st \<and> es_sent st1 = es_sent st"
    using piece_step [OF assms(1,2) Cons.prems(4-8) long assms(3) wire assms(4), of playing] unfolding q by blast
  show ?case
  proof (cases "ps = []")
    case True
    then show ?thesis using step c1 st1 out by auto
  next
    case False
    then have c1': "ec_incoming c1 = ec_incoming c @ p"
        "ec_cipher_ctx c1 = (ec_cipher_ctx c)\<lparr>c_decryption_counter_prev := c_decryption_counter (ec_cipher_ctx c)\<rparr>"
        "es_calls st1 = es_calls st" "es_sent st1 = es_sent st"
      using out by simp_all
    have d: "distinct (map ec_addr (es_clients st1))" "c1 \<in> set (es_clients st1)"
      using put_clients [OF c1(1) Cons.prems(7)] Cons.prems(6) by (simp_all add: st1(1))
    obtain c2 st2 where run: "events_run T C L string_val playing (map (\<lambda>p. Data_arrives (ec_addr c) (Read_bytes p) writes) ps) st1
        = Inr st2" and rest: "es_thread st2 = Thread_in_loop" "es_clients st2 = es_clients (client_put c2 st1)"
        "ec_addr c2 = ec_addr c1" "ec_fd c2 = ec_fd c1" "ec_pending c2 = []" "ec_incoming c2 = []"
        "es_calls st2 = es_calls st1 @ handle_event playing event"
        "es_sent st2 = es_sent st1 @ [(ec_fd c1, seal_blocks C (c_encryption_key (ec_cipher_ctx c1))
              (c_encryption_counter (ec_cipher_ctx c1)) [event_response])]"
        "ec_cipher_ctx c2 = (ec_cipher_ctx c1)\<lparr>c_decryption_counter_prev := c_decryption_counter (ec_cipher_ctx c1),
              c_decryption_counter := c_decryption_counter (ec_cipher_ctx c1) + 1,
              c_encryption_counter_prev := c_encryption_counter (ec_cipher_ctx c1),
              c_encryption_counter := c_encryption_counter (ec_cipher_ctx c1) + 1\<rparr>"
      using Cons.IH [OF False _ _ _ st1(2) d c1(3)] Cons.prems(2,4) long wire c1(1) by (auto simp: c1')
    have "es_clients (client_put c2 st1) = es_clients (client_put c2 st)"
      using st1(1) c1(1) rest(3) by (simp add: client_put_def)
    then show ?thesis
      using step run rest c1 c1' by (intro exI [of _ c2] exI [of _ st2]) simp
  qed
qed simp



end
