(* ===== verification/Pair_Fruit.thy ===== *)
theory Pair_Fruit
  imports Pair
begin

text \<open>
  The older protocol of \<open>src/pair_ap/pair_fruit.c\<close>: pair setup by SRP with SHA-1 and messages that are property lists, pair
  verify with two short binary messages, and its table of operations. There is only a client. Property
  lists (libplist) and AES (OpenSSL) are fields of one record; \<open>fe_data_val\<close> is \<open>None\<close> for a node that is
  not data, for which \<open>plist_get_data_val\<close> leaves its arguments as they are.
\<close>

record 'p fruit_env =
  fe_string :: "bytes \<Rightarrow> 'p"
  fe_data :: "bytes \<Rightarrow> 'p"
  fe_dict :: "(bytes \<times> 'p) list \<Rightarrow> 'p"
  fe_to_bin :: "'p \<Rightarrow> bytes option"
  fe_from_bin :: "bytes \<Rightarrow> 'p option"
  fe_item :: "'p \<Rightarrow> bytes \<Rightarrow> 'p option"
  fe_data_val :: "'p \<Rightarrow> bytes option"
  fe_gcm :: "bytes \<Rightarrow> bytes \<Rightarrow> bytes \<Rightarrow> (bytes \<times> bytes) option"
  fe_ctr :: "bytes \<Rightarrow> bytes \<Rightarrow> bytes \<Rightarrow> bytes option"

definition FRUIT_USERNAME :: bytes where "FRUIT_USERNAME = str ''12:34:56:78:90:AB''"
definition EPK_LENGTH :: nat where "EPK_LENGTH = 32"
definition AES_SETUP_KEY :: bytes where "AES_SETUP_KEY = str ''Pair-Setup-AES-Key''"
definition AES_SETUP_IV :: bytes where "AES_SETUP_IV = str ''Pair-Setup-AES-IV''"
definition AES_VERIFY_KEY :: bytes where "AES_VERIFY_KEY = str ''Pair-Verify-AES-Key''"
definition AES_VERIFY_IV :: bytes where "AES_VERIFY_IV = str ''Pair-Verify-AES-IV''"

subsection \<open>SRP\<close>

text \<open>The groups: here the length of the prime is not in the table but counted.\<close>

definition fruit_new_ng :: "crypto \<Rightarrow> SRP_NGType \<Rightarrow> NGConstant" where
  "fruit_new_ng C ng_type =
     (case (case ng_type of SRP_NG_CUSTOM n g \<Rightarrow> (n, g) | _ \<Rightarrow> (srp_N_2048, 2)) of (n, g) \<Rightarrow>
        \<lparr>ng_N_len = bnum_num_bytes C n, ng_N = n, ng_g = g\<rparr>)"

definition fruit_calculate_x :: "crypto \<Rightarrow> hash_alg \<Rightarrow> int \<Rightarrow> bytes \<Rightarrow> bytes \<Rightarrow> int" where
  "fruit_calculate_x C alg salt username password =
     (let ctx = username @ [58] @ password; ucp_hash = digest C alg ctx in H_ns C alg salt (take (hash_length alg) ucp_hash))"

text \<open>\<open>hash_ab\<close> of \<open>pair.c\<close>.\<close>

definition hash_ab :: "crypto \<Rightarrow> hash_alg \<Rightarrow> bytes \<Rightarrow> bytes \<Rightarrow> bytes" where
  "hash_ab C alg m1 m2 = digest C alg (m1 @ m2)"

definition hash_session_key :: "crypto \<Rightarrow> hash_alg \<Rightarrow> int \<Rightarrow> bytes" where
  "hash_session_key C alg n =
     (let bin = mpi_print C n in hash_ab C alg bin [0, 0, 0, 0] @ hash_ab C alg bin [0, 0, 0, 1])"

definition fruit_calculate_M ::
  "crypto \<Rightarrow> hash_alg \<Rightarrow> NGConstant \<Rightarrow> bytes \<Rightarrow> int \<Rightarrow> int \<Rightarrow> int \<Rightarrow> bytes \<Rightarrow> bytes" where
  "fruit_calculate_M C alg ng I s A B K =
     (let H_N = hash_num C alg (ng_N ng); H_g = hash_num C alg (ng_g ng); H_I = digest C alg I;
          H_xor = map (\<lambda>i. H_N ! i XOR H_g ! i) [0..<hash_length alg];
          ctx0 = H_xor @ take (hash_length alg) H_I;
          ctx1 = update_hash_n C ctx0 s; ctx2 = update_hash_n C ctx1 A; ctx3 = update_hash_n C ctx2 B
      in digest C alg (ctx3 @ K))"

definition fruit_calculate_H_AMK :: "crypto \<Rightarrow> hash_alg \<Rightarrow> int \<Rightarrow> bytes \<Rightarrow> bytes \<Rightarrow> bytes" where
  "fruit_calculate_H_AMK C alg A M K = digest C alg (update_hash_n C [] A @ take (hash_length alg) M @ K)"

text \<open>The same structure as in \<open>pair_homekit.c\<close>, but its session key has room for two digests.\<close>

definition fruit_srp_user_new :: "crypto \<Rightarrow> hash_alg \<Rightarrow> SRP_NGType \<Rightarrow> bytes \<Rightarrow> bytes \<Rightarrow> srp_user" where
  "fruit_srp_user_new C alg ng_type username password =
     \<lparr>u_alg = alg, u_ng = fruit_new_ng C ng_type, u_a = 0, u_A = 0, u_S = 0, u_bytes_A = [], u_authenticated = False,
      u_username = username, u_password = password, u_M = replicate 64 0, u_H_AMK = replicate 64 0,
      u_session_key = replicate 128 0, u_session_key_len = 0\<rparr>"

definition fruit_srp_user_is_authenticated :: "srp_user \<Rightarrow> bool" where
  "fruit_srp_user_is_authenticated usr = u_authenticated usr"

definition fruit_srp_user_get_session_key :: "srp_user \<Rightarrow> bytes" where
  "fruit_srp_user_get_session_key usr = take (u_session_key_len usr) (u_session_key usr)"

definition fruit_srp_user_start_authentication :: "crypto \<Rightarrow> int \<Rightarrow> srp_user \<Rightarrow> srp_user \<times> bytes" where
  "fruit_srp_user_start_authentication C rnd_a usr =
     (let A = mpi_powm C (ng_g (u_ng usr)) rnd_a (ng_N (u_ng usr)); bytes_A = mpi_print C A
      in (usr\<lparr>u_a := rnd_a, u_A := A, u_bytes_A := bytes_A\<rparr>, bytes_A))"

definition fruit_srp_user_process_challenge :: "crypto \<Rightarrow> srp_user \<Rightarrow> bytes \<Rightarrow> bytes \<Rightarrow> (srp_user \<times> bytes) res" where
  "fruit_srp_user_process_challenge C usr bytes_s bytes_B =
     (let s = mpi_scan C bytes_s; B = mpi_scan C bytes_B; alg = u_alg usr; ng = u_ng usr; N = ng_N ng; g = ng_g ng in
      bind_res (H_nn_pad C alg N g (ng_N_len ng)) (\<lambda>k.
      bind_res (H_nn_pad C alg (u_A usr) B (ng_N_len ng)) (\<lambda>u.
        let x = fruit_calculate_x C alg s (u_username usr) (u_password usr) in
        if B \<noteq> 0 \<and> u \<noteq> 0 then
          let tmp2 = mpi_add C (u_a usr) (mpi_mul C u x);
              tmp3 = mpi_mul C k (mpi_powm C g x N);
              S = mpi_powm C (mpi_sub C B tmp3) tmp2 N;
              K = hash_session_key C alg S;
              M = fruit_calculate_M C alg ng (u_username usr) s (u_A usr) B K
          in Inr (usr\<lparr>u_S := S, u_session_key := overlay (u_session_key usr) K, u_session_key_len := 2 * hash_length alg,
                      u_M := overlay (u_M usr) M,
                      u_H_AMK := overlay (u_H_AMK usr) (fruit_calculate_H_AMK C alg (u_A usr) M K)\<rparr>, M)
        else Inr (usr, []))))"

text \<open>\<open>memcmp\<close> reads as many bytes of the answer as a digest has.\<close>

definition fruit_srp_user_verify_session :: "srp_user \<Rightarrow> bytes \<Rightarrow> srp_user res" where
  "fruit_srp_user_verify_session usr bytes_HAMK =
     (let n = hash_length (u_alg usr) in
      if length bytes_HAMK < n then Inl Out_of_bounds
      else if take n (u_H_AMK usr) = take n bytes_HAMK then Inr (usr\<lparr>u_authenticated := True\<rparr>)
      else Inr usr)"

subsection \<open>AES\<close>

text \<open>
  \<open>encrypt_gcm\<close> and \<open>encrypt_ctr\<close> with OpenSSL, into a buffer of \<open>ciphertext_len\<close> bytes. Keys and initial values are the first 16
  bytes. In counter mode both plain texts go through one key stream, and both results to the start of the buffer.
\<close>

definition encrypt_gcm :: "'p fruit_env \<Rightarrow> nat \<Rightarrow> bytes \<Rightarrow> bytes \<Rightarrow> bytes \<Rightarrow> (bytes \<times> bytes) option" where
  "encrypt_gcm F ciphertext_len plaintext key iv =
     (case fe_gcm F (take 16 key) (take 16 iv) plaintext of
        None \<Rightarrow> None
      | Some (c, tag) \<Rightarrow> if length c > ciphertext_len then None else Some (c, take AUTHTAG_LENGTH tag))"

definition encrypt_ctr :: "'p fruit_env \<Rightarrow> bytes \<Rightarrow> bytes \<Rightarrow> bytes \<Rightarrow> bytes \<Rightarrow> bytes option" where
  "encrypt_ctr F plaintext1 plaintext2 key iv =
     (case fe_ctr F (take 16 key) (take 16 iv) (plaintext1 @ plaintext2) of
        None \<Rightarrow> None
      | Some c \<Rightarrow> Some (overlay (take (length plaintext1) c) (drop (length plaintext1) c)))"

subsection \<open>Pair setup\<close>

definition fruit_client_setup_new ::
  "crypto \<Rightarrow> rand \<Rightarrow> setup_ctx \<Rightarrow> bytes option \<Rightarrow> bool \<Rightarrow> bytes option \<Rightarrow> int \<times> setup_ctx" where
  "fruit_client_setup_new C r h pin add_cb device_id =
     (if \<not> initialized C then (-1, h)
      else case pin of
        None \<Rightarrow> (-1, h)
      | Some p \<Rightarrow> (0, h\<lparr>s_client := (s_client h)\<lparr>cs_pin := p\<rparr>\<rparr>))"

definition fruit_client_setup_request1 :: "'p fruit_env \<Rightarrow> crypto \<Rightarrow> rand \<Rightarrow> setup_ctx \<Rightarrow> setup_request" where
  "fruit_client_setup_request1 F C r h =
     (let c = s_client h; user = fruit_srp_user_new C HASH_SHA1 SRP_NG_2048 FRUIT_USERNAME (cs_pin c);
          dict = fe_dict F [(str ''method'', fe_string F (str ''pin'')), (str ''user'', fe_string F FRUIT_USERNAME)]
      in Inr (fe_to_bin F dict, h\<lparr>s_client := c\<lparr>cs_user := Some user\<rparr>\<rparr>))"

definition fruit_client_setup_request2 :: "'p fruit_env \<Rightarrow> crypto \<Rightarrow> rand \<Rightarrow> setup_ctx \<Rightarrow> setup_request" where
  "fruit_client_setup_request2 F C r h =
     (let c = s_client h in
      case cs_user c of
        None \<Rightarrow> Inl Null_deref
      | Some user \<Rightarrow>
          (case fruit_srp_user_start_authentication C (r_exp r) user of
             (user1, pkA) \<Rightarrow>
               bind_res (fruit_srp_user_process_challenge C user1 (cs_salt c) (cs_pkB c)) (\<lambda>(user2, m1).
                 Inr (fe_to_bin F (fe_dict F [(str ''pk'', fe_data F pkA), (str ''proof'', fe_data F m1)]),
                      h\<lparr>s_client := c\<lparr>cs_user := Some user2, cs_pkA := pkA, cs_M1 := m1\<rparr>\<rparr>))))"

definition fruit_client_setup_request3 :: "'p fruit_env \<Rightarrow> crypto \<Rightarrow> rand \<Rightarrow> setup_ctx \<Rightarrow> setup_request" where
  "fruit_client_setup_request3 F C r h =
     (let c = s_client h in
      case cs_user c of
        None \<Rightarrow> Inl Null_deref
      | Some user \<Rightarrow>
          let session_key = fruit_srp_user_get_session_key user;
              key = hash_ab C HASH_SHA512 AES_SETUP_KEY session_key;
              iv0 = hash_ab C HASH_SHA512 AES_SETUP_IV session_key;
              iv = iv0[15 := iv0 ! 15 + 1];
              pk = sign_sk_to_pk C (r_sign_sk r);
              h1 = h\<lparr>s_client := c\<lparr>cs_public_key := pk, cs_private_key := r_sign_sk r\<rparr>\<rparr>
          in (case encrypt_gcm F 128 pk key iv of
                None \<Rightarrow> Inr (None, s_errmsg_set (Setup_request 3) Aes_failed h1)
              | Some (encrypted, tag) \<Rightarrow>
                  Inr (fe_to_bin F (fe_dict F [(str ''epk'', fe_data F (take EPK_LENGTH encrypted)),
                                               (str ''authTag'', fe_data F (take AUTHTAG_LENGTH tag))]), h1)))"

text \<open>An item of the message, and a data value that replaces what the context has.\<close>

definition message_item :: "'p fruit_env \<Rightarrow> bytes \<Rightarrow> string \<Rightarrow> 'p option" where
  "message_item F data name = Option.bind (fe_from_bin F data) (\<lambda>dict. fe_item F dict (str name))"

definition item_data :: "'p fruit_env \<Rightarrow> 'p \<Rightarrow> bytes \<Rightarrow> bytes" where
  "item_data F item old = (case fe_data_val F item of None \<Rightarrow> old | Some v \<Rightarrow> v)"

definition fruit_client_setup_response1 :: "'p fruit_env \<Rightarrow> crypto \<Rightarrow> rand \<Rightarrow> setup_ctx \<Rightarrow> bytes \<Rightarrow> setup_response" where
  "fruit_client_setup_response1 F C r h data =
     (case (message_item F data ''pk'', message_item F data ''salt'') of
        (Some pk, Some salt) \<Rightarrow>
          let c = s_client h in
          Inr (0, h\<lparr>s_client := c\<lparr>cs_pkB := item_data F pk (cs_pkB c), cs_salt := item_data F salt (cs_salt c)\<rparr>\<rparr>)
      | _ \<Rightarrow> Inr (-1, s_errmsg_set (Setup_response 1) Missing_pk_or_salt h))"

definition fruit_client_setup_response2 :: "'p fruit_env \<Rightarrow> crypto \<Rightarrow> rand \<Rightarrow> setup_ctx \<Rightarrow> bytes \<Rightarrow> setup_response" where
  "fruit_client_setup_response2 F C r h data =
     (case message_item F data ''proof'' of
        None \<Rightarrow> Inr (-1, s_errmsg_set (Setup_response 2) Missing_proof h)
      | Some proof \<Rightarrow>
          let c = s_client h; M2 = item_data F proof (cs_M2 c) in
          (case cs_user c of
             None \<Rightarrow> Inl Null_deref
           | Some user \<Rightarrow>
               bind_res (fruit_srp_user_verify_session user M2) (\<lambda>user1.
                 let h1 = h\<lparr>s_client := c\<lparr>cs_user := Some user1, cs_M2 := M2\<rparr>\<rparr> in
                 if \<not> fruit_srp_user_is_authenticated user1
                 then Inr (-1, s_errmsg_set (Setup_response 2) Server_auth_failed h1)
                 else Inr (0, h1))))"

text \<open>What is in \<open>epk\<close> and \<open>authTag\<close> is kept and never used.\<close>

definition fruit_client_setup_response3 :: "'p fruit_env \<Rightarrow> crypto \<Rightarrow> rand \<Rightarrow> setup_ctx \<Rightarrow> bytes \<Rightarrow> setup_response" where
  "fruit_client_setup_response3 F C r h data =
     (if message_item F data ''epk'' = None then Inr (-1, s_errmsg_set (Setup_response 3) Missing_epk h)
      else if message_item F data ''authTag'' = None then Inr (-1, s_errmsg_set (Setup_response 3) Missing_authtag h)
      else Inr (0, h\<lparr>s_result := (s_result h)\<lparr>res_client_private_key := cs_private_key (s_client h),
                       res_client_public_key := cs_public_key (s_client h)\<rparr>,
                     s_status := PAIR_STATUS_COMPLETED\<rparr>))"

definition fruit_client_setup_result :: "setup_ctx \<Rightarrow> int \<times> setup_ctx" where
  "fruit_client_setup_result h =
     (0, h\<lparr>s_result_str := overlay (s_result_str h) (concat (map sprintf_02x (cs_private_key (s_client h))) @ [0])\<rparr>)"

subsection \<open>Pair verify\<close>

definition fruit_client_verify_new ::
  "crypto \<Rightarrow> verify_ctx \<Rightarrow> bytes option \<Rightarrow> (bytes \<Rightarrow> bytes option) option \<Rightarrow> bytes option \<Rightarrow> (int \<times> verify_ctx) res" where
  "fruit_client_verify_new C h client_setup_keys cb device_id =
     (let c = v_client h in
      if \<not> initialized C then Inr (-1, h)
      else case client_setup_keys of
        None \<Rightarrow> Inr (-1, h)
      | Some keys \<Rightarrow>
          if length keys \<noteq> 2 * 64 then Inr (-1, h)
          else if (case device_id of None \<Rightarrow> False | Some d \<Rightarrow> length d \<noteq> 16) then Inr (-1, h)
          else bind_res (hexread 64 keys) (\<lambda>sk.
            Inr (0, h\<lparr>v_client := c\<lparr>cv_device_id := (case device_id of None \<Rightarrow> cv_device_id c | Some d \<Rightarrow> d),
                       cv_client_private_key := sk, cv_client_public_key := sign_sk_to_pk C sk\<rparr>\<rparr>)))"

definition basepoint :: bytes where "basepoint = 9 # replicate 31 0"

definition fruit_client_verify_request1 :: "crypto \<Rightarrow> rand \<Rightarrow> verify_ctx \<Rightarrow> verify_request" where
  "fruit_client_verify_request1 C r h =
     (let c = v_client h in
      case scalarmult C (cv_client_eph_private_key c) basepoint of
        None \<Rightarrow> Inr (None, v_errmsg_set (Verify_request 1) Curve_error h)
      | Some epk \<Rightarrow>
          Inr (Some ([1, 0, 0, 0] @ epk @ cv_client_public_key c), h\<lparr>v_client := c\<lparr>cv_client_eph_public_key := epk\<rparr>\<rparr>))"

definition fruit_client_verify_request2 :: "'p fruit_env \<Rightarrow> crypto \<Rightarrow> rand \<Rightarrow> verify_ctx \<Rightarrow> verify_request" where
  "fruit_client_verify_request2 F C r h =
     (let c = v_client h;
          signature = sign C (cv_client_eph_public_key c @ cv_server_eph_public_key c) (cv_client_private_key c)
      in case scalarmult C (cv_client_eph_private_key c) (cv_server_eph_public_key c) of
           None \<Rightarrow> Inr (None, v_errmsg_set (Verify_request 2) Curve_error h)
         | Some shared_secret \<Rightarrow>
             let key = hash_ab C HASH_SHA512 AES_VERIFY_KEY shared_secret;
                 iv = hash_ab C HASH_SHA512 AES_VERIFY_IV shared_secret
             in (case encrypt_ctr F (cv_server_fruit_public_key c) signature key iv of
                   None \<Rightarrow> Inr (None, v_errmsg_set (Verify_request 2) Aes_failed h)
                 | Some encrypted \<Rightarrow> Inr (Some ([0, 0, 0, 0] @ take 64 encrypted), h)))"

definition fruit_client_verify_response1 :: "crypto \<Rightarrow> rand \<Rightarrow> verify_ctx \<Rightarrow> bytes \<Rightarrow> verify_response" where
  "fruit_client_verify_response1 C r h data =
     (if length data < 32 + 64 then Inr (-1, v_errmsg_set (Verify_response 2) Response_too_short h)
      else Inr (0, h\<lparr>v_client := (v_client h)\<lparr>cv_server_eph_public_key := take 32 data,
                       cv_server_fruit_public_key := take 64 (drop 32 data)\<rparr>\<rparr>))"

definition fruit_client_verify_response2 :: "crypto \<Rightarrow> rand \<Rightarrow> verify_ctx \<Rightarrow> bytes \<Rightarrow> verify_response" where
  "fruit_client_verify_response2 C r h data =
     Inr (0, h\<lparr>v_result := (v_result h)
                 \<lparr>res_shared_secret := overlay (res_shared_secret (v_result h)) (cv_shared_secret (v_client h)),
                  res_shared_secret_len := length (cv_shared_secret (v_client h))\<rparr>,
               v_status := PAIR_STATUS_COMPLETED\<rparr>)"

definition pair_client_fruit :: "'p fruit_env \<Rightarrow> pair_definition" where
  "pair_client_fruit F =
     \<lparr>d_setup_new = Some fruit_client_setup_new, d_setup_result = Some fruit_client_setup_result,
      d_setup_request1 = Some (fruit_client_setup_request1 F), d_setup_request2 = Some (fruit_client_setup_request2 F),
      d_setup_request3 = Some (fruit_client_setup_request3 F), d_setup_response1 = Some (fruit_client_setup_response1 F),
      d_setup_response2 = Some (fruit_client_setup_response2 F), d_setup_response3 = Some (fruit_client_setup_response3 F),
      d_verify_new = Some fruit_client_verify_new, d_verify_result = None,
      d_verify_request1 = Some fruit_client_verify_request1, d_verify_request2 = Some (fruit_client_verify_request2 F),
      d_verify_response1 = Some fruit_client_verify_response1, d_verify_response2 = Some fruit_client_verify_response2,
      d_add = None, d_remove = None, d_list = None, d_cipher_new = None, d_encrypt = None, d_decrypt = None,
      d_state_get = None, d_public_key_get = None\<rparr>"

end
