(* ===== verification/Fruit_Properties.thy ===== *)
theory Fruit_Properties
  imports Pair_Fruit
begin

text \<open>
  What the older protocol achieves: the agreement of its SRP, and two ways in which it protects nothing.
\<close>

subsection \<open>The group of 2048 bits\<close>

definition ng_2048 :: NGConstant where
  "ng_2048 = \<lparr>ng_N_len = 256, ng_N = srp_N_2048, ng_g = 2\<rparr>"

lemma ng_2048_sel [simp]: "ng_N_len ng_2048 = 256" "ng_N ng_2048 = srp_N_2048" "ng_g ng_2048 = 2"
  by (simp_all add: ng_2048_def)

lemma srp_N_2048_bounds: "256 ^ 255 \<le> srp_N_2048" "srp_N_2048 < 256 ^ 256" "1 < srp_N_2048"
  by (simp_all add: srp_N_2048_def)

lemma fruit_new_ng_2048:
  assumes "mpi_ok C"
  shows "fruit_new_ng C SRP_NG_2048 = ng_2048"
proof -
  have "length (mpi_print C srp_N_2048) \<le> 256" "\<not> length (mpi_print C srp_N_2048) \<le> 255"
    using srp_N_2048_bounds by (simp_all add: length_mpi_print_le [OF assms])
  then have "bnum_num_bytes C srp_N_2048 = 256"
    using srp_N_2048_bounds by (simp add: bnum_num_bytes_print [OF assms])
  then show ?thesis by (simp add: fruit_new_ng_def ng_2048_def)
qed

lemma num_bytes_2048:
  assumes "mpi_ok C" and "0 \<le> n" and "n < 256 ^ 256"
  shows "bnum_num_bytes C n \<le> 256"
  using length_mpi_print_le [OF assms(1,2), of 256] assms(3) by (simp add: bnum_num_bytes_print [OF assms(1,2)])

lemma num_bytes_mod_2048:
  assumes "mpi_ok C"
  shows "bnum_num_bytes C (n mod srp_N_2048) \<le> 256"
proof -
  have "n mod srp_N_2048 < srp_N_2048" using srp_N_2048_bounds(3) by simp
  then have "n mod srp_N_2048 < 256 ^ 256" using srp_N_2048_bounds(2) by simp
  then show ?thesis using srp_N_2048_bounds(3) by (intro num_bytes_2048 [OF assms]) simp_all
qed

lemma num_bytes_group:
  assumes "mpi_ok C"
  shows "bnum_num_bytes C srp_N_2048 \<le> 256" "bnum_num_bytes C 2 \<le> 256"
  using srp_N_2048_bounds by (intro num_bytes_2048 [OF assms]; simp)+

lemma H_nn_pad_2048:
  assumes "mpi_ok C"
  shows "H_nn_pad C alg srp_N_2048 2 256 = Inr (nn_hash C alg srp_N_2048 2 256)"
    and "H_nn_pad C alg (n mod srp_N_2048) (m mod srp_N_2048) 256
      = Inr (nn_hash C alg (n mod srp_N_2048) (m mod srp_N_2048) 256)"
  using num_bytes_group [OF assms] num_bytes_mod_2048 [OF assms] by (simp_all add: H_nn_pad_ok)

lemma fruit_calculate_x_eq:
  "digest_ok C \<Longrightarrow> fruit_calculate_x C alg s user pw = calculate_x C alg s user pw"
  by (simp add: fruit_calculate_x_def calculate_x_def colon_def digest_okD)

lemma length_hash_session_key: "digest_ok C \<Longrightarrow> length (hash_session_key C alg n) = 2 * hash_length alg"
  by (simp add: hash_session_key_def hash_ab_def digest_okD Let_def)

subsection \<open>Agreement\<close>

text \<open>The server of SRP-6a: the verifier of the pin and the public value from its secret.\<close>

definition fruit_v :: "crypto \<Rightarrow> bytes \<Rightarrow> int \<Rightarrow> int" where
  "fruit_v C pin s = 2 ^ nat (fruit_calculate_x C HASH_SHA1 s FRUIT_USERNAME pin) mod srp_N_2048"

definition fruit_B :: "crypto \<Rightarrow> bytes \<Rightarrow> int \<Rightarrow> int \<Rightarrow> int" where
  "fruit_B C pin s b = (nn_hash C HASH_SHA1 srp_N_2048 2 256 * fruit_v C pin s + 2 ^ nat b mod srp_N_2048) mod srp_N_2048"

definition fruit_u :: "crypto \<Rightarrow> bytes \<Rightarrow> int \<Rightarrow> int \<Rightarrow> int \<Rightarrow> int" where
  "fruit_u C pin s a b = nn_hash C HASH_SHA1 (2 ^ nat a mod srp_N_2048) (fruit_B C pin s b) 256"


subsection \<open>Pair verify protects nothing\<close>

text \<open>The exchange of pair verify, driven by the caller since the table has no \<open>state_get\<close>: the two answers of the server are
  arguments. The result is the two messages and the last context.\<close>

definition fruit_verify_run ::
  "pair_table \<Rightarrow> crypto \<Rightarrow> rand \<Rightarrow> verify_ctx \<Rightarrow> bytes \<Rightarrow> bytes \<Rightarrow> (bytes \<times> bytes \<times> verify_ctx) option res" where
  "fruit_verify_run T C r v answer1 answer2 =
     bind_res (pair_verify_request1 T C r v) (\<lambda>(m1, v1). case m1 of None \<Rightarrow> Inr None | Some msg1 \<Rightarrow>
     bind_res (pair_verify_response1 T C r v1 answer1) (\<lambda>(ret1, v2). if ret1 < 0 then Inr None else
     bind_res (pair_verify_request2 T C r v2) (\<lambda>(m2, v3). case m2 of None \<Rightarrow> Inr None | Some msg2 \<Rightarrow>
     bind_res (pair_verify_response2 T C r v3 answer2) (\<lambda>(ret2, v4). if ret2 < 0 then Inr None else
       Inr (Some (msg1, msg2, v4))))))"

lemma fruit_table_verify:
  "v_type h = PAIR_CLIENT_FRUIT \<Longrightarrow> pair_verify_request1 (homekit_table (pair_client_fruit F)) C r h = fruit_client_verify_request1 C r h"
  "v_type h = PAIR_CLIENT_FRUIT \<Longrightarrow> pair_verify_request2 (homekit_table (pair_client_fruit F)) C r h = fruit_client_verify_request2 F C r h"
  "v_type h = PAIR_CLIENT_FRUIT \<Longrightarrow> pair_verify_response1 (homekit_table (pair_client_fruit F)) C r h d = fruit_client_verify_response1 C r h d"
  "v_type h = PAIR_CLIENT_FRUIT \<Longrightarrow> pair_verify_response2 (homekit_table (pair_client_fruit F)) C r h d =
     bind_res (fruit_client_verify_response2 C r h d) (\<lambda>(ret, h1). Inr (if ret \<noteq> 0 then -1 else 0, h1))"
  "v_type h = PAIR_CLIENT_FRUIT \<Longrightarrow> v_status h = PAIR_STATUS_COMPLETED \<Longrightarrow>
     pair_verify_result (homekit_table (pair_client_fruit F)) h = (0, h, Some (v_result h))"
  by (simp_all add: pair_verify_request1_def pair_verify_request2_def pair_verify_response1_def pair_verify_response2_def
      call_verify_request_def call_verify_response_def pair_verify_result_def pair_client_fruit_def)

lemma fruit_verify_new_shape:
  assumes "pair_verify_new (homekit_table (pair_client_fruit F)) C PAIR_CLIENT_FRUIT keys cb device_id = Inr (Some v)"
  shows "v_type v = PAIR_CLIENT_FRUIT" "cv_client_eph_private_key (v_client v) = replicate 32 0"
    "cv_shared_secret (v_client v) = replicate 32 0" "v_result v = zero_result"
  using assms by (auto simp: pair_verify_new_def pair_client_fruit_def fruit_client_verify_new_def zero_verify_ctx_def
      zero_client_verify_def Let_def bind_res_eq_Inr split: option.splits if_splits)

text \<open>C35: Pair verify of the fruit protocol protects nothing. The ephemeral private key of the client is never drawn: it is 32 zero
  bytes in every run, so the public key in the first message is always the same, and what hides the signature in the second
  message comes from that key and from what the server sent in the clear. The last answer of the server is not looked at;
  whatever it is, the context is completed, and the shared secret that the caller gets is 32 zero bytes.\<close>

theorem fruit_verify_no_secret:
  assumes "pair_verify_new (homekit_table (pair_client_fruit F)) C PAIR_CLIENT_FRUIT keys cb device_id = Inr (Some v)"
    and "fruit_verify_run (homekit_table (pair_client_fruit F)) C r v answer1 answer2 = Inr (Some (msg1, msg2, v'))"
  shows "\<exists>epk z encrypted res.
      scalarmult C (replicate 32 0) basepoint = Some epk \<and> msg1 = [1, 0, 0, 0] @ epk @ cv_client_public_key (v_client v)
    \<and> scalarmult C (replicate 32 0) (take 32 answer1) = Some z
    \<and> encrypt_ctr F (take 64 (drop 32 answer1)) (sign C (epk @ take 32 answer1) (cv_client_private_key (v_client v)))
        (hash_ab C HASH_SHA512 AES_VERIFY_KEY z) (hash_ab C HASH_SHA512 AES_VERIFY_IV z) = Some encrypted
    \<and> msg2 = [0, 0, 0, 0] @ take 64 encrypted
    \<and> pair_verify_result (homekit_table (pair_client_fruit F)) v' = (0, v', Some res)
    \<and> take (res_shared_secret_len res) (res_shared_secret res) = replicate 32 0
    \<and> fruit_verify_run (homekit_table (pair_client_fruit F)) C r' v answer1 other = Inr (Some (msg1, msg2, v'))"
proof -
  note sh = fruit_verify_new_shape [OF assms(1)]
  show ?thesis
    using assms(2)
    by (auto simp: fruit_verify_run_def fruit_table_verify sh fruit_client_verify_request1_def fruit_client_verify_response1_def
        fruit_client_verify_request2_def fruit_client_verify_response2_def Let_def bind_res_eq_Inr overlay_def
        split: option.splits if_splits)
qed

subsection \<open>Pair setup without the pin\<close>

text \<open>The exchange of pair setup, with the three answers of the server. The result is the three messages and the last context.\<close>

definition fruit_setup_run ::
  "pair_table \<Rightarrow> crypto \<Rightarrow> rand \<Rightarrow> setup_ctx \<Rightarrow> bytes \<Rightarrow> bytes \<Rightarrow> bytes \<Rightarrow> (bytes \<times> bytes \<times> bytes \<times> setup_ctx) option res" where
  "fruit_setup_run T C r h answer1 answer2 answer3 =
     bind_res (pair_setup_request1 T C r h) (\<lambda>(m1, h1). case m1 of None \<Rightarrow> Inr None | Some msg1 \<Rightarrow>
     bind_res (pair_setup_response1 T C r h1 answer1) (\<lambda>(ret1, h2). if ret1 < 0 then Inr None else
     bind_res (pair_setup_request2 T C r h2) (\<lambda>(m2, h3). case m2 of None \<Rightarrow> Inr None | Some msg2 \<Rightarrow>
     bind_res (pair_setup_response2 T C r h3 answer2) (\<lambda>(ret2, h4). if ret2 < 0 then Inr None else
     bind_res (pair_setup_request3 T C r h4) (\<lambda>(m3, h5). case m3 of None \<Rightarrow> Inr None | Some msg3 \<Rightarrow>
     bind_res (pair_setup_response3 T C r h5 answer3) (\<lambda>(ret3, h6). if ret3 < 0 then Inr None else
       Inr (Some (msg1, msg2, msg3, h6))))))))"

lemma fruit_table_setup:
  "s_type h = PAIR_CLIENT_FRUIT \<Longrightarrow> pair_setup_request1 (homekit_table (pair_client_fruit F)) C r h = fruit_client_setup_request1 F C r h"
  "s_type h = PAIR_CLIENT_FRUIT \<Longrightarrow> pair_setup_request2 (homekit_table (pair_client_fruit F)) C r h = fruit_client_setup_request2 F C r h"
  "s_type h = PAIR_CLIENT_FRUIT \<Longrightarrow> pair_setup_request3 (homekit_table (pair_client_fruit F)) C r h = fruit_client_setup_request3 F C r h"
  "s_type h = PAIR_CLIENT_FRUIT \<Longrightarrow> pair_setup_response1 (homekit_table (pair_client_fruit F)) C r h d = fruit_client_setup_response1 F C r h d"
  "s_type h = PAIR_CLIENT_FRUIT \<Longrightarrow> pair_setup_response2 (homekit_table (pair_client_fruit F)) C r h d = fruit_client_setup_response2 F C r h d"
  "s_type h = PAIR_CLIENT_FRUIT \<Longrightarrow> pair_setup_response3 (homekit_table (pair_client_fruit F)) C r h d =
     bind_res (fruit_client_setup_response3 F C r h d) (\<lambda>(ret, h1). Inr (if ret \<noteq> 0 then -1 else 0, h1))"
  by (simp_all add: pair_setup_request1_def pair_setup_request2_def pair_setup_request3_def pair_setup_response1_def
      pair_setup_response2_def pair_setup_response3_def call_setup_request_def call_setup_response_def pair_client_fruit_def)

text \<open>Answers that need no pin: the public value 0, a proof of 20 zero bytes, and any two items at the end.\<close>

definition pinless_answers :: "'p fruit_env \<Rightarrow> crypto \<Rightarrow> bytes \<Rightarrow> bytes \<Rightarrow> bytes \<Rightarrow> bool" where
  "pinless_answers F C answer1 answer2 answer3 \<longleftrightarrow>
     (\<exists>pk B salt. message_item F answer1 ''pk'' = Some pk \<and> fe_data_val F pk = Some B \<and> mpi_scan C B = 0
        \<and> message_item F answer1 ''salt'' = Some salt)
   \<and> (\<exists>proof. message_item F answer2 ''proof'' = Some proof \<and> fe_data_val F proof = Some (replicate 20 0))
   \<and> message_item F answer3 ''epk'' \<noteq> None \<and> message_item F answer3 ''authTag'' \<noteq> None"

text \<open>C36: A server without the pin completes the fruit pair setup. It sends the public value 0; the client's safety check then
  leaves proofs and session key as they were allocated, all zero and of length 0, and goes on. The proof of 20 zero bytes is
  accepted, the client's public key goes out under a key that everyone can compute, and the context is completed.\<close>

theorem fruit_setup_without_pin:
  assumes "mpi_ok C" and "0 \<le> r_exp r"
    and "pair_setup_new (homekit_table (pair_client_fruit F)) C r PAIR_CLIENT_FRUIT (Some pin) add_cb device_id = Some h"
    and "pinless_answers F C answer1 answer2 answer3"
    and "\<forall>p. fe_to_bin F p \<noteq> None" and "\<forall>key iv plain. \<exists>c t. fe_gcm F key iv plain = Some (c, t) \<and> length c = length plain"
    and "length (sign_sk_to_pk C (r_sign_sk r)) = 32"
  shows "\<exists>msg1 msg2 msg3 h' iv encrypted tag.
      fruit_setup_run (homekit_table (pair_client_fruit F)) C r h answer1 answer2 answer3 = Inr (Some (msg1, msg2, msg3, h'))
    \<and> s_status h' = PAIR_STATUS_COMPLETED
    \<and> iv = (hash_ab C HASH_SHA512 AES_SETUP_IV [])[15 := hash_ab C HASH_SHA512 AES_SETUP_IV [] ! 15 + 1]
    \<and> encrypt_gcm F 128 (sign_sk_to_pk C (r_sign_sk r)) (hash_ab C HASH_SHA512 AES_SETUP_KEY []) iv = Some (encrypted, tag)
    \<and> fe_to_bin F (fe_dict F [(str ''epk'', fe_data F (take EPK_LENGTH encrypted)),
                             (str ''authTag'', fe_data F (take AUTHTAG_LENGTH tag))]) = Some msg3"
proof -
  note mpi = mpi_okD [OF assms(1)]
  have N: "0 < srp_N_2048" using srp_N_2048_bounds(3) by simp
  have h: "h = (zero_setup_ctx PAIR_CLIENT_FRUIT)\<lparr>s_client := zero_client_setup\<lparr>cs_pin := pin\<rparr>\<rparr>"
    using assms(3) by (auto simp: pair_setup_new_def pair_client_fruit_def fruit_client_setup_new_def zero_setup_ctx_def split: if_splits)
  obtain pk B salt where a1: "message_item F answer1 ''pk'' = Some pk" "fe_data_val F pk = Some B" "mpi_scan C B = 0"
      "message_item F answer1 ''salt'' = Some salt"
    using assms(4) by (auto simp: pinless_answers_def)
  obtain proof_item where a2: "message_item F answer2 ''proof'' = Some proof_item" "fe_data_val F proof_item = Some (replicate 20 0)"
    using assms(4) by (auto simp: pinless_answers_def)
  have a3: "message_item F answer3 ''epk'' \<noteq> None" "message_item F answer3 ''authTag'' \<noteq> None"
    using assms(4) by (auto simp: pinless_answers_def)
  have H: "H_nn_pad C HASH_SHA1 (2 ^ nat (r_exp r) mod srp_N_2048) 0 256
      = Inr (nn_hash C HASH_SHA1 (2 ^ nat (r_exp r) mod srp_N_2048) 0 256)"
    using H_nn_pad_2048(2) [OF assms(1), of HASH_SHA1 "2 ^ nat (r_exp r)" 0] by simp
  let ?iv0 = "hash_ab C HASH_SHA512 AES_SETUP_IV []" and ?key = "hash_ab C HASH_SHA512 AES_SETUP_KEY []"
  let ?iv = "?iv0[15 := ?iv0 ! 15 + 1]"
  obtain c t where gcm: "fe_gcm F (take 16 ?key) (take 16 ?iv) (sign_sk_to_pk C (r_sign_sk r)) = Some (c, t)" "length c = 32"
    using assms(6,7) by metis
  obtain to_bin where bin: "fe_to_bin F = (\<lambda>p. Some (to_bin p))"
  proof
    show "fe_to_bin F = (\<lambda>p. Some (the (fe_to_bin F p)))" using assms(5) by (auto simp: fun_eq_iff)
  qed
  show ?thesis
    using assms(2) N gcm a1 a2 a3
    by (auto simp: fruit_setup_run_def fruit_table_setup h zero_setup_ctx_def zero_client_setup_def bin
        fruit_client_setup_request1_def fruit_client_setup_response1_def fruit_client_setup_request2_def
        fruit_client_setup_response2_def fruit_client_setup_request3_def fruit_client_setup_response3_def
        fruit_srp_user_new_def fruit_new_ng_2048 [OF assms(1)] fruit_srp_user_start_authentication_def
        fruit_srp_user_process_challenge_def fruit_srp_user_verify_session_def fruit_srp_user_is_authenticated_def
        fruit_srp_user_get_session_key_def item_data_def mpi H H_nn_pad_2048(1) [OF assms(1)] encrypt_gcm_def Let_def)
qed

end
