(* ===== verification/Channel_Samples.thy ===== *)
theory Channel_Samples
  imports Samples Airplay_Discovery Airplay_Event_Channel Fruit_Properties
begin

text \<open>
  The properties of discovery, of the events connection and of the fruit protocol at concrete inputs.
\<close>

subsection \<open>Discovery\<close>

definition sample_txt :: keyval where
  "sample_txt = [(str ''deviceid'', str ''AA:BB:CC:DD:EE:FF''), (str ''features'', features_text 0x0000080000008200),
     (str ''model'', str ''AppleTV5,3'')]"

lemma sample_txt_get:
  "keyval_get sample_txt (str ''deviceid'') = Some (str ''AA:BB:CC:DD:EE:FF'')"
  "keyval_get sample_txt (str ''features'') = Some (features_text 0x0000080000008200)"
  "keyval_get sample_txt (str ''model'') = Some (str ''AppleTV5,3'')"
proof -
  have "strcasecmp_eq (str ''deviceid'') (str ''deviceid'')" "\<not> strcasecmp_eq (str ''deviceid'') (str ''features'')"
    "\<not> strcasecmp_eq (str ''deviceid'') (str ''model'')" "strcasecmp_eq (str ''features'') (str ''features'')"
    "\<not> strcasecmp_eq (str ''features'') (str ''model'')" "strcasecmp_eq (str ''model'') (str ''model'')"
    by code_simp+
  then show "keyval_get sample_txt (str ''deviceid'') = Some (str ''AA:BB:CC:DD:EE:FF'')"
    "keyval_get sample_txt (str ''features'') = Some (features_text 0x0000080000008200)"
    "keyval_get sample_txt (str ''model'') = Some (str ''AppleTV5,3'')"
    by (simp_all add: sample_txt_def)
qed


theorem device_id_roundtrip_witness:
  "\<exists>s. device_id_colon_make (replicate 24 7) 0x1122 = Inr s \<and> device_id_colon_parse (c_string s) = Some 0x1122"
  using device_id_roundtrip [of "replicate 24 7" "0x1122"] by auto

subsection \<open>Events\<close>

definition sample_event_plist :: "nat plist_lib" where
  "sample_event_plist = \<lparr>pl_uint = (\<lambda>n. 0), pl_string = (\<lambda>s. 0), pl_bool = (\<lambda>b. 0), pl_data = (\<lambda>s. 0), pl_dict = (\<lambda>d. 0),
     pl_array = (\<lambda>a. 0), pl_to_bin = (\<lambda>p. Some [7]), pl_from_bin = (\<lambda>bs. Some 0),
     pl_dict_get_item = (\<lambda>p k. if k = str ''type'' then Some 1 else Some 2),
     pl_array_get_item = (\<lambda>p n. None), pl_get_uint_val = (\<lambda>p. 0)\<rparr>"

definition sample_string_val :: "nat \<Rightarrow> bytes option" where
  "sample_string_val p = (if p = 1 then Some (str ''sendMediaRemoteCommand'') else if p = 2 then Some (str ''nitm'') else None)"

definition sample_events_cipher :: "pair_type \<Rightarrow> u8 \<Rightarrow> u8 \<Rightarrow> cipher_ctx" where
  "sample_events_cipher ty enc dec = \<lparr>c_type = ty, c_encryption_key = replicate 32 enc, c_decryption_key = replicate 32 dec,
     c_encryption_counter = 3, c_decryption_counter = 3, c_encryption_counter_prev = 0, c_decryption_counter_prev = 0,
     c_errmsg = None\<rparr>"

definition sample_events_client :: airplay_events_client where
  "sample_events_client = \<lparr>ec_addr = 1, ec_name = str ''tv'', ec_fd = 5,
     ec_cipher_ctx = sample_events_cipher PAIR_CLIENT_HOMEKIT_NORMAL 1 2, ec_incoming = [], ec_pending = []\<rparr>"

definition sample_events_state :: events_state where
  "sample_events_state = \<lparr>es_thread = Thread_in_loop, es_clients = [sample_events_client], es_calls = [], es_sent = []\<rparr>"



subsection \<open>Fruit\<close>

lemma sum_some_caseE:
  assumes "case e of Inr (Some v) \<Rightarrow> P v | _ \<Rightarrow> False"
  obtains v where "e = Inr (Some v)" "P v"
  using assms by (cases e; cases "projr e") auto

definition sample_fruit :: "bytes fruit_env" where
  "sample_fruit = \<lparr>fe_string = (\<lambda>s. s), fe_data = (\<lambda>s. s), fe_dict = (\<lambda>d. concat (map snd d)), fe_to_bin = Some,
     fe_from_bin = Some, fe_item = (\<lambda>p n. Some p), fe_data_val = Some, fe_gcm = (\<lambda>key iv p. Some (p, replicate 16 0)),
     fe_ctr = (\<lambda>key iv p. Some p)\<rparr>"

theorem fruit_verify_no_secret_witness:
  "\<exists>v msg1 msg2 v' res. pair_verify_new (homekit_table (pair_client_fruit sample_fruit)) sample_crypto PAIR_CLIENT_FRUIT
       (Some (replicate 128 49)) None None = Inr (Some v)
     \<and> fruit_verify_run (homekit_table (pair_client_fruit sample_fruit)) sample_crypto (sample_rand 1) v (replicate 96 5) []
       = Inr (Some (msg1, msg2, v'))
     \<and> pair_verify_result (homekit_table (pair_client_fruit sample_fruit)) v' = (0, v', Some res)
     \<and> take (res_shared_secret_len res) (res_shared_secret res) = replicate 32 0"
proof -
  let ?T = "homekit_table (pair_client_fruit sample_fruit)"
  let ?new = "pair_verify_new ?T sample_crypto PAIR_CLIENT_FRUIT (Some (replicate 128 49)) None None"
  have "case ?new of Inr (Some v) \<Rightarrow>
      (case fruit_verify_run ?T sample_crypto (sample_rand 1) v (replicate 96 5) [] of Inr (Some x) \<Rightarrow> True | _ \<Rightarrow> False) | _ \<Rightarrow> False"
    by code_simp
  then obtain v where v: "?new = Inr (Some v)"
      and ran: "case fruit_verify_run ?T sample_crypto (sample_rand 1) v (replicate 96 5) [] of Inr (Some x) \<Rightarrow> True | _ \<Rightarrow> False"
    by (erule sum_some_caseE)
  obtain x where x: "fruit_verify_run ?T sample_crypto (sample_rand 1) v (replicate 96 5) [] = Inr (Some x)"
    using ran by (rule sum_some_caseE)
  obtain msg1 msg2 v' where run: "fruit_verify_run ?T sample_crypto (sample_rand 1) v (replicate 96 5) [] = Inr (Some (msg1, msg2, v'))"
    using x by (cases x) auto
  obtain res where "pair_verify_result ?T v' = (0, v', Some res)"
      "take (res_shared_secret_len res) (res_shared_secret res) = replicate 32 0"
    using fruit_verify_no_secret [OF v run, where r' = "sample_rand 1" and other = "[]"] by (elim exE conjE)
  then show ?thesis using v run by blast
qed

theorem fruit_setup_without_pin_witness:
  "\<exists>h msg1 msg2 msg3 h'. pair_setup_new (homekit_table (pair_client_fruit sample_fruit)) sample_crypto (sample_rand 1) PAIR_CLIENT_FRUIT
       (Some [49]) False None = Some h
     \<and> fruit_setup_run (homekit_table (pair_client_fruit sample_fruit)) sample_crypto (sample_rand 1) h [] (replicate 20 0) []
       = Inr (Some (msg1, msg2, msg3, h')) \<and> s_status h' = PAIR_STATUS_COMPLETED"
proof -
  let ?T = "homekit_table (pair_client_fruit sample_fruit)"
  obtain h where h: "pair_setup_new ?T sample_crypto (sample_rand 1) PAIR_CLIENT_FRUIT (Some [49]) False None = Some h"
    by (simp add: pair_setup_new_def pair_client_fruit_def fruit_client_setup_new_def sample_crypto_def)
  have ok: "mpi_ok sample_crypto" by (rule sample_mpi_ok)
  have "pinless_answers sample_fruit sample_crypto [] (replicate 20 0) []"
    by (simp add: pinless_answers_def message_item_def sample_fruit_def sample_crypto_def bytes_nat_def)
  from fruit_setup_without_pin [OF ok _ h this] show ?thesis
    using h by (auto simp: sample_fruit_def sample_rand_def sample_crypto_def pad_def) 
qed

text \<open>The digest of the sample scans to 1, so multiplier, verifier exponent and scrambler are 1.\<close>

lemma sample_fruit_nn_hash:
  assumes "0 \<le> a" "a < 256 ^ 256" "0 \<le> b" "b < 256 ^ 256"
  shows "nn_hash sample_crypto HASH_SHA1 a b 256 = 1"
proof -
  have "bnum_num_bytes sample_crypto a \<le> 256" "bnum_num_bytes sample_crypto b \<le> 256"
    using assms num_bytes_2048 [OF sample_ok(1)] by simp_all
  then show ?thesis
    by (simp add: nn_hash_def H_nn_pad_def sample_scan_digest Let_def)
qed

lemma sample_fruit_srp:
  "fruit_B sample_crypto pin s 2 = 6" "fruit_u sample_crypto pin s 1 2 = 1"
proof -
  have k: "nn_hash sample_crypto HASH_SHA1 srp_N_2048 2 256 = 1"
    using srp_N_2048_bounds by (intro sample_fruit_nn_hash) simp_all
  have x: "fruit_calculate_x sample_crypto HASH_SHA1 s FRUIT_USERNAME pin = 1"
    by (simp add: fruit_calculate_x_eq [OF sample_ok(2)] calculate_x_def H_ns_def sample_scan_digest)
  have N: "6 < srp_N_2048" by (simp add: srp_N_2048_def)
  show B: "fruit_B sample_crypto pin s 2 = 6"
    using N by (simp add: fruit_B_def fruit_v_def k x)
  show "fruit_u sample_crypto pin s 1 2 = 1"
    unfolding fruit_u_def B using N by (intro sample_fruit_nn_hash) simp_all
qed


end
