(* ===== verification/Player_Commands.thy ===== *)
theory Player_Commands
  imports Prelude
begin

text \<open>
  The command pipe of \<open>src/cliairplay2.c\<close>: the thread that reads lines \<open>KEY=VALUE\<close> into a global buffer of 512 bytes, cuts
  them with \<open>strtok_r\<close> and carries them out. Pointers into the buffer are offsets, since what they point to changes
  with the buffer. Files and downloads are parameters; what is read or downloaded is logged, for
  the code frees it at once.
\<close>

subsection \<open>Tokens\<close>

text \<open>
  \<open>strtok_r\<close>, on a buffer from an offset: skip delimiters, find the end of the token, write a terminator there. The result
  is the token, the buffer, and the offset to go on from. Running past the end of the buffer is a fault.
\<close>

definition strtok_skip :: "(u8 \<Rightarrow> bool) \<Rightarrow> bytes \<Rightarrow> nat \<Rightarrow> nat res" where
  "strtok_skip P buf p =
     (let q = p + length (takeWhile P (drop p buf)) in if q < length buf then Inr q else Inl Out_of_bounds)"

definition strtok_r :: "bytes \<Rightarrow> bytes \<Rightarrow> nat \<Rightarrow> (nat option \<times> bytes \<times> nat) res" where
  "strtok_r delim buf p =
     bind_res (strtok_skip (\<lambda>c. c \<in> set delim) buf p) (\<lambda>s.
       if buf ! s = 0 then Inr (None, buf, s)
       else bind_res (strtok_skip (\<lambda>c. c \<notin> set delim \<and> c \<noteq> 0) buf s) (\<lambda>e.
         if buf ! e = 0 then Inr (Some s, buf, e) else Inr (Some s, buf[e := 0], e + 1)))"

definition string_at :: "bytes \<Rightarrow> nat \<Rightarrow> bytes" where
  "string_at buf p = c_string (drop p buf)"

subsection \<open>Commands\<close>

datatype player_status = STOPPED | PAUSED | PLAYING

datatype artwork = Artwork_fetched bytes | Artwork_read bytes

text \<open>
  The buffer \<open>cmdPipeBuf\<close>, the structure \<open>metadata\<close> of the thread (a string is \<open>None\<close> while it is the empty literal), the
  global \<open>status\<close>, and the artwork that was looked at.
\<close>

record command_state =
  cm_buf :: bytes
  cm_title :: "nat option"
  cm_artist :: "nat option"
  cm_album :: "nat option"
  cm_duration :: int
  cm_progress :: int
  cm_status :: player_status
  cm_artwork :: "artwork list"

text \<open>Whether a file exists for \<open>access\<close>, and whether \<open>fopen\<close> opens it.\<close>

record command_env =
  ce_access :: "bytes \<Rightarrow> bool"
  ce_open :: "bytes \<Rightarrow> bool"

definition startsWith :: "bytes \<Rightarrow> bytes \<Rightarrow> bool" where
  "startsWith pre s = (if length s < length pre then False else take (length pre) s = pre)"

text \<open>
  What a key and its value ask for. The value comes twice, as a pointer and as the string there; the first component of the
  result says whether the loop over the lines is left.
\<close>

definition command_apply ::
  "command_env \<Rightarrow> bytes \<Rightarrow> nat option \<Rightarrow> bytes \<Rightarrow> command_state \<Rightarrow> (bool \<times> command_state) res" where
  "command_apply E key val v st =
     (if key = str ''TITLE'' then Inr (False, st\<lparr>cm_title := val\<rparr>)
      else if key = str ''ARTIST'' then Inr (False, st\<lparr>cm_artist := val\<rparr>)
      else if key = str ''ALBUM'' then Inr (False, st\<lparr>cm_album := val\<rparr>)
      else if key = str ''DURATION'' then Inr (False, st\<lparr>cm_duration := atoi v\<rparr>)
      else if key = str ''PROGRESS'' then Inr (False, st\<lparr>cm_progress := atoi v\<rparr>)
      else if key = str ''ARTWORK'' then
        if startsWith (str ''http://'') v then Inr (False, st\<lparr>cm_artwork := cm_artwork st @ [Artwork_fetched v]\<rparr>)
        else if ce_access E v then
          if ce_open E v then Inr (False, st\<lparr>cm_artwork := cm_artwork st @ [Artwork_read v]\<rparr>) else Inl Null_deref
        else Inr (False, st)
      else if key = str ''ACTION'' \<and> v = str ''PAUSE'' then
        Inr (False, if cm_status st = PLAYING then st\<lparr>cm_status := PAUSED\<rparr> else st)
      else if key = str ''ACTION'' \<and> v = str ''PLAY'' then Inr (False, st\<lparr>cm_status := PLAYING\<rparr>)
      else if key = str ''ACTION'' \<and> v = str ''STOP'' then Inr (True, st\<lparr>cm_status := STOPPED\<rparr>)
      else Inr (False, st))"

definition command_line :: "command_env \<Rightarrow> nat \<Rightarrow> command_state \<Rightarrow> (bool \<times> command_state) res" where
  "command_line E line st =
     bind_res (strtok_r [61] (cm_buf st) line) (\<lambda>(key, buf1, save).
       case key of None \<Rightarrow> Inl Null_deref
       | Some k \<Rightarrow>
           if string_at buf1 k = [] then Inl Diverges
           else bind_res (strtok_r [] buf1 save) (\<lambda>(val, buf2, _).
             command_apply E (string_at buf2 k) val (case val of None \<Rightarrow> [] | Some p \<Rightarrow> string_at buf2 p) (st\<lparr>cm_buf := buf2\<rparr>)))"

lemma strtok_skip_bounds: "strtok_skip P buf p = Inr q \<Longrightarrow> p \<le> q \<and> q < length buf"
  by (auto simp: strtok_skip_def Let_def split: if_splits)

lemma strtok_r_bounds:
  assumes "strtok_r delim buf p = Inr (tok, buf', q)"
  shows "length buf' = length buf \<and> q \<le> length buf \<and> (tok \<noteq> None \<longrightarrow> p < q)"
proof -
  obtain s where s: "strtok_skip (\<lambda>c. c \<in> set delim) buf p = Inr s"
    using assms by (auto simp: strtok_r_def bind_res_eq_Inr)
  have ps: "p \<le> s" "s < length buf" using strtok_skip_bounds [OF s] by simp_all
  have d: "buf ! s \<notin> set delim"
    using s nth_length_takeWhile [of "\<lambda>c. c \<in> set delim" "drop p buf"]
    by (auto simp: strtok_skip_def Let_def split: if_splits)
  show ?thesis
  proof (cases "buf ! s = 0")
    case True
    then show ?thesis using assms ps by (auto simp: strtok_r_def s)
  next
    case False
    then obtain e where e: "strtok_skip (\<lambda>c. c \<notin> set delim \<and> c \<noteq> 0) buf s = Inr e"
      using assms by (auto simp: strtok_r_def s bind_res_eq_Inr)
    have "drop s buf = buf ! s # drop (Suc s) buf" using ps by (simp add: Cons_nth_drop_Suc)
    then have "s < e" using e False d by (auto simp: strtok_skip_def Let_def split: if_splits)
    moreover have "e < length buf" using strtok_skip_bounds [OF e] by simp
    ultimately show ?thesis using assms ps False by (auto simp: strtok_r_def s e split: if_splits)
  qed
qed

lemma command_apply_buf: "command_apply E key val v st = Inr (stop, st') \<Longrightarrow> cm_buf st' = cm_buf st"
  by (auto simp: command_apply_def split: if_splits)

lemma command_line_length:
  assumes "command_line E line st = Inr (stop, st')"
  shows "length (cm_buf st') = length (cm_buf st)"
proof -
  obtain key buf1 save where key: "strtok_r [61] (cm_buf st) line = Inr (key, buf1, save)"
    using assms by (auto simp: command_line_def bind_res_eq_Inr)
  then obtain val buf2 save2 where val: "strtok_r [] buf1 save = Inr (val, buf2, save2)"
    using assms by (auto simp: command_line_def bind_res_eq_Inr split: option.splits if_splits)
  have "cm_buf st' = buf2"
    using assms by (auto simp: command_line_def key val dest: command_apply_buf split: option.splits if_splits)
  then show ?thesis using strtok_r_bounds [OF key] strtok_r_bounds [OF val] by simp
qed

text \<open>All lines of one read. Whether the program still runs is asked before each line.\<close>

function command_lines :: "command_env \<Rightarrow> (nat \<Rightarrow> bool) \<Rightarrow> nat \<Rightarrow> nat \<Rightarrow> command_state \<Rightarrow> command_state res" where
  "command_lines E running i p st =
     bind_res (strtok_r [10] (cm_buf st) p) (\<lambda>(line, buf1, save).
       let st1 = st\<lparr>cm_buf := buf1\<rparr> in
       case line of None \<Rightarrow> Inr st1
       | Some l \<Rightarrow>
           if \<not> running i then Inr st1
           else bind_res (command_line E l st1) (\<lambda>(stop, st2).
             if stop then Inr st2 else command_lines E running (i + 1) save st2))"
  by pat_completeness auto
termination
  by (relation "measure (\<lambda>(E, running, i, p, st). length (cm_buf st) - p)")
    (auto dest!: strtok_r_bounds command_line_length)

declare command_lines.simps [simp del]

text \<open>A read that brings bytes fills the start of the buffer; afterwards the whole buffer is cleared.\<close>

definition command_read :: "command_env \<Rightarrow> (nat \<Rightarrow> bool) \<Rightarrow> bytes \<Rightarrow> command_state \<Rightarrow> command_state res" where
  "command_read E running data st =
     (if data = [] then Inr st
      else bind_res (command_lines E running 0 0 (st\<lparr>cm_buf := overlay (cm_buf st) (take 512 data)\<rparr>)) (\<lambda>st1.
        Inr (st1\<lparr>cm_buf := replicate 512 0\<rparr>)))"

definition command_start :: command_state where
  "command_start = \<lparr>cm_buf = replicate 512 0, cm_title = None, cm_artist = None, cm_album = None, cm_duration = 0, cm_progress = 0,
     cm_status = STOPPED, cm_artwork = []\<rparr>"

subsection \<open>What the commands mean\<close>

text \<open>The meaning of a list of keys and values, without the buffer and the pointers into it.\<close>

record playback =
  pb_duration :: int
  pb_progress :: int
  pb_status :: player_status
  pb_artwork :: "artwork list"

definition interpret_one :: "command_env \<Rightarrow> bytes \<Rightarrow> bytes \<Rightarrow> playback \<Rightarrow> (bool \<times> playback) res" where
  "interpret_one E key v a =
     (if key = str ''DURATION'' then Inr (False, a\<lparr>pb_duration := atoi v\<rparr>)
      else if key = str ''PROGRESS'' then Inr (False, a\<lparr>pb_progress := atoi v\<rparr>)
      else if key = str ''ARTWORK'' then
        if take 7 v = str ''http://'' then Inr (False, a\<lparr>pb_artwork := pb_artwork a @ [Artwork_fetched v]\<rparr>)
        else if \<not> ce_access E v then Inr (False, a)
        else if ce_open E v then Inr (False, a\<lparr>pb_artwork := pb_artwork a @ [Artwork_read v]\<rparr>)
        else Inl Null_deref
      else if key = str ''ACTION'' then
        if v = str ''PLAY'' then Inr (False, a\<lparr>pb_status := PLAYING\<rparr>)
        else if v = str ''STOP'' then Inr (True, a\<lparr>pb_status := STOPPED\<rparr>)
        else if v = str ''PAUSE'' \<and> pb_status a = PLAYING then Inr (False, a\<lparr>pb_status := PAUSED\<rparr>)
        else Inr (False, a)
      else Inr (False, a))"

fun interpret_all :: "command_env \<Rightarrow> (bytes \<times> bytes) list \<Rightarrow> playback \<Rightarrow> playback res" where
  "interpret_all E [] a = Inr a"
| "interpret_all E ((key, v) # rest) a =
     bind_res (interpret_one E key v a) (\<lambda>(stop, a1). if stop then Inr a1 else interpret_all E rest a1)"

definition text_of :: "command_state \<Rightarrow> nat option \<Rightarrow> bytes" where
  "text_of st p = (case p of None \<Rightarrow> [] | Some q \<Rightarrow> string_at (cm_buf st) q)"

definition playback_of :: "command_state \<Rightarrow> playback" where
  "playback_of st = \<lparr>pb_duration = cm_duration st, pb_progress = cm_progress st, pb_status = cm_status st, pb_artwork = cm_artwork st\<rparr>"

subsection \<open>Tokens of a text\<close>

lemma takeWhile_stop: "(\<forall>x \<in> set xs. P x) \<Longrightarrow> \<not> P y \<Longrightarrow> takeWhile P (xs @ y # ys) = xs"
  by (induction xs) auto

lemma strtok_skip_stop:
  "(\<forall>x \<in> set xs. P x) \<Longrightarrow> \<not> P y \<Longrightarrow> strtok_skip P (pre @ xs @ y # ys) (length pre) = Inr (length pre + length xs)"
  by (simp add: strtok_skip_def takeWhile_stop)

lemma strtok_skip_here: "\<not> P y \<Longrightarrow> strtok_skip P (pre @ y # ys) (length pre) = Inr (length pre)"
  using strtok_skip_stop [of "[]" P y pre ys] by simp

lemma strtok_none: "0 \<notin> set delim \<Longrightarrow> strtok_r delim (pre @ 0 # ys) (length pre) = Inr (None, pre @ 0 # ys, length pre)"
  by (simp add: strtok_r_def strtok_skip_here)

lemma strtok_token:
  assumes "tok \<noteq> []" and "0 \<notin> set tok" and "set tok \<inter> set delim = {}" and "y = 0 \<or> y \<in> set delim"
  shows "strtok_r delim (pre @ tok @ y # ys) (length pre) = Inr (Some (length pre), pre @ tok @ 0 # ys,
      length pre + length tok + (if y = 0 then 0 else 1))"
proof -
  obtain c cs where tok: "tok = c # cs" using assms(1) by (cases tok) auto
  have first: "strtok_skip (\<lambda>c. c \<in> set delim) (pre @ tok @ y # ys) (length pre) = Inr (length pre)"
    using assms(3) strtok_skip_here [of "\<lambda>c. c \<in> set delim" c pre "cs @ y # ys"] by (simp add: tok)
  have "\<forall>x \<in> set tok. x \<notin> set delim \<and> x \<noteq> 0" using assms(2,3) by auto
  then have last: "strtok_skip (\<lambda>c. c \<notin> set delim \<and> c \<noteq> 0) (pre @ tok @ y # ys) (length pre) = Inr (length pre + length tok)"
    using assms(4) by (intro strtok_skip_stop) auto
  have nth: "(pre @ tok @ y # ys) ! length pre = c" "(pre @ tok @ y # ys) ! (length pre + length tok) = y"
    by (simp_all add: tok nth_append)
  have c: "c \<noteq> 0" using assms(2) tok by auto
  have "(pre @ tok @ y # ys)[length pre + length tok := 0] = pre @ tok @ 0 # ys"
    by (simp add: list_update_append)
  then show ?thesis unfolding strtok_r_def first bind_res.simps nth last by (simp add: c)
qed

lemma string_at_token: "0 \<notin> set tok \<Longrightarrow> string_at (pre @ tok @ 0 # ys) (length pre) = tok"
  by (auto simp: string_at_def c_string_def intro!: takeWhile_stop)

text \<open>Commands as they are written, and one of them in terms of its meaning.\<close>

definition well_formed :: "bytes \<times> bytes \<Rightarrow> bool" where
  "well_formed c = (fst c \<noteq> [] \<and> {0, 10, 61} \<inter> set (fst c) = {} \<and> {0, 10} \<inter> set (snd c) = {})"

definition command_text :: "bytes \<times> bytes \<Rightarrow> bytes" where
  "command_text c = fst c @ 61 # snd c @ [10]"

lemma command_line_token:
  assumes "well_formed (key, v)" and "cm_buf st = pre @ (key @ 61 # v) @ 0 # ys"
  shows "command_line E (length pre) st =
    command_apply E key (if v = [] then None else Some (length pre + length key + 1)) v (st\<lparr>cm_buf := pre @ key @ 0 # v @ 0 # ys\<rparr>)"
proof -
  have wf: "key \<noteq> []" "0 \<notin> set key" "set key \<inter> set [61] = {}" "0 \<notin> set v" using assms(1) by (auto simp: well_formed_def)
  have key: "strtok_r [61] (cm_buf st) (length pre) = Inr (Some (length pre), pre @ key @ 0 # v @ 0 # ys, length pre + length key + 1)"
    using strtok_token [OF wf(1-3), of 61 pre "v @ 0 # ys"] by (simp add: assms(2))
  have at: "string_at (pre @ key @ 0 # v @ 0 # ys) (length pre) = key" by (rule string_at_token [OF wf(2)])
  let ?pre = "pre @ key @ [0]"
  have buf: "pre @ key @ 0 # v @ 0 # ys = ?pre @ v @ 0 # ys" "length pre + length key + 1 = length ?pre" by simp_all
  have val: "strtok_r [] (pre @ key @ 0 # v @ 0 # ys) (length pre + length key + 1)
      = Inr (if v = [] then None else Some (length pre + length key + 1), pre @ key @ 0 # v @ 0 # ys, length ?pre + length v)"
    using strtok_token [of v "[]" 0 ?pre ys] strtok_none [of "[]" ?pre ys] wf(4) unfolding buf by simp
  have v: "string_at (pre @ key @ 0 # v @ 0 # ys) (length pre + length key + 1) = v"
    unfolding buf by (rule string_at_token [OF wf(4)])
  show ?thesis unfolding command_line_def key bind_res.simps prod.case option.case at val using wf(1) v by simp
qed

lemma command_apply_interpret:
  "(case command_apply E key val v st of Inl f \<Rightarrow> Inl f | Inr (stop, st1) \<Rightarrow> Inr (stop, playback_of st1))
    = interpret_one E key v (playback_of st)"
proof -
  have "startsWith (str ''http://'') v \<longleftrightarrow> take 7 v = str ''http://''"
  proof -
    have "length (str ''http://'') = 7" by (simp add: str_def)
    moreover from this have "length v \<ge> 7" if "take 7 v = str ''http://''"
      using arg_cong [OF that, of length] by simp
    ultimately show ?thesis by (auto simp: startsWith_def)
  qed
  note defs = this command_apply_def interpret_one_def playback_of_def
  consider "key \<in> {str ''TITLE'', str ''ARTIST'', str ''ALBUM''}" | "key = str ''DURATION''" | "key = str ''PROGRESS''" | "key = str ''ARTWORK''"
    | "key = str ''ACTION''" | "key \<notin> {str ''TITLE'', str ''ARTIST'', str ''ALBUM'', str ''DURATION'', str ''PROGRESS'', str ''ARTWORK'', str ''ACTION''}"
    by blast
  then show ?thesis
  proof cases
    case 1
    have "str ''TITLE'' \<noteq> str x" "str ''ARTIST'' \<noteq> str x" "str ''ALBUM'' \<noteq> str x"
      if "x \<in> {''DURATION'', ''PROGRESS'', ''ARTWORK'', ''ACTION''}" for x
      using that by (auto simp: str_def)
    then show ?thesis using 1
      by (elim insertE emptyE) (simp_all add: command_apply_def interpret_one_def playback_of_def)
  next
    case 4
    then show ?thesis by (simp add: defs) (simp add: str_def)
  next
    case 5
    have "str ''ACTION'' \<noteq> str x" if "x \<in> {''TITLE'', ''ARTIST'', ''ALBUM'', ''DURATION'', ''PROGRESS'', ''ARTWORK''}" for x
      using that by (auto simp: str_def)
    moreover have "str ''PLAY'' \<noteq> str ''STOP''" "str ''PLAY'' \<noteq> str ''PAUSE''" "str ''STOP'' \<noteq> str ''PAUSE''" by (simp_all add: str_def)
    ultimately show ?thesis using 5 by (simp add: command_apply_def interpret_one_def playback_of_def)
  qed (simp_all add: command_apply_def interpret_one_def playback_of_def, simp_all add: str_def)
qed

lemma strtok_line:
  assumes "well_formed c" and "cm_buf st = pre @ command_text c @ ys"
  shows "strtok_r [10] (cm_buf st) (length pre) = Inr (Some (length pre), pre @ (fst c @ 61 # snd c) @ 0 # ys,
      length pre + length (command_text c))"
proof -
  have wf: "fst c @ 61 # snd c \<noteq> []" "0 \<notin> set (fst c @ 61 # snd c)" "set (fst c @ 61 # snd c) \<inter> set [10] = {}"
    using assms(1) by (auto simp: well_formed_def)
  show ?thesis using strtok_token [OF wf, of 10 pre ys] by (simp add: assms(2) command_text_def)
qed

lemma commands_interpreted_from:
  assumes "\<forall>c \<in> set cs. well_formed c" and "cm_buf st = pre @ concat (map command_text cs) @ 0 # ys" and "\<forall>i. running i"
  shows "(case command_lines E running i (length pre) st of Inl f \<Rightarrow> Inl f | Inr st1 \<Rightarrow> Inr (playback_of st1))
    = interpret_all E cs (playback_of st)"
  using assms(1,2)
proof (induction cs arbitrary: pre st i)
  case Nil
  then show ?case by (simp add: command_lines.simps [of E running i "length pre" st] strtok_none playback_of_def)
next
  case (Cons c cs)
  obtain key v where c: "c = (key, v)" by (cases c)
  define ys' where "ys' = concat (map command_text cs) @ 0 # ys"
  define val where "val = (if v = [] then None else Some (length pre + length key + 1))"
  define st0 where "st0 = st\<lparr>cm_buf := pre @ key @ 0 # v @ 0 # ys'\<rparr>"
  have wf: "well_formed c" "well_formed (key, v)" "\<forall>c \<in> set cs. well_formed c"
    using Cons.prems(1) by (auto simp: c)
  have buf: "cm_buf st = pre @ command_text c @ ys'" using Cons.prems(2) by (simp add: ys'_def)
  have same: "playback_of st0 = playback_of st" by (simp add: st0_def playback_of_def)
  have line: "command_line E (length pre) (st\<lparr>cm_buf := pre @ (fst c @ 61 # snd c) @ 0 # ys'\<rparr>) = command_apply E key val v st0"
    using command_line_token [OF wf(2), of "st\<lparr>cm_buf := pre @ (fst c @ 61 # snd c) @ 0 # ys'\<rparr>" pre ys' E]
    by (simp add: c val_def st0_def)
  note lines = command_lines.simps [of E running i "length pre" st, unfolded strtok_line [OF wf(1) buf] bind_res.simps prod.case Let_def
      option.case line]
  note app = command_apply_interpret [of E key val v st0, unfolded same]
  have run: "running i" using assms(3) by (rule spec)
  show ?case
  proof (cases "command_apply E key val v st0")
    case (Inl f)
    then show ?thesis using app [symmetric] by (simp add: lines run c)
  next
    case (Inr x)
    obtain stop st1 where x: "x = (stop, st1)" by (cases x)
    have one: "interpret_one E key v (playback_of st) = Inr (stop, playback_of st1)" using app by (simp add: Inr x)
    have "cm_buf st1 = (pre @ key @ 0 # v @ [0]) @ concat (map command_text cs) @ 0 # ys"
      using command_apply_buf [OF Inr [unfolded x]] by (simp add: st0_def ys'_def)
    from Cons.IH [OF wf(3) this, of "i + 1"] show ?thesis
      by (simp add: lines run Inr x one c command_text_def)
  qed
qed

lemma string_at_zeros: "string_at (replicate n 0) p = []"
  by (cases "n - p") (simp_all add: string_at_def c_string_def)

text \<open>C27: The command pipe does what its lines say, and forgets the titles. What one read brings is a list of keys and values, a line
  each, of less than 512 bytes in all. The thread carries them out in order as their meaning has it, up to the first
  stop: the times, the state of the player and the artwork that was looked at are those of the meaning. Title, artist and album
  are empty afterwards, since they point into the buffer that is cleared.\<close>

theorem commands_interpreted:
  assumes "\<forall>c \<in> set cs. well_formed c" and "cs \<noteq> []" and "length (concat (map command_text cs)) < 512"
    and "length (cm_buf st) = 512" and "set (cm_buf st) \<subseteq> {0}" and "\<forall>i. running i"
  shows "(case command_read E running (concat (map command_text cs)) st of Inl f \<Rightarrow> Inl f
      | Inr st1 \<Rightarrow> Inr (playback_of st1, map (text_of st1) [cm_title st1, cm_artist st1, cm_album st1]))
    = (case interpret_all E cs (playback_of st) of Inl f \<Rightarrow> Inl f | Inr a \<Rightarrow> Inr (a, [[], [], []]))"
proof -
  let ?text = "concat (map command_text cs)"
  obtain n where n: "512 - length ?text = Suc n" using assms(3) by (metis Suc_diff_Suc)
  have zeros: "cm_buf st = replicate 512 0"
    using assms(4,5) by (metis replicate_length_same singletonD subset_iff)
  have buf: "cm_buf (st\<lparr>cm_buf := overlay (cm_buf st) (take 512 ?text)\<rparr>) = [] @ ?text @ 0 # replicate n 0"
    using assms(3) n by (simp add: overlay_def zeros)
  have ne: "?text \<noteq> []" using assms(2) by (cases cs) (auto simp: command_text_def)
  have same: "playback_of (st\<lparr>cm_buf := b\<rparr>) = playback_of st" for st b by (simp add: playback_of_def)
  note from_start = commands_interpreted_from [OF assms(1) buf assms(6), of E 0, unfolded same list.size]
  show ?thesis
  proof (cases "command_lines E running 0 0 (st\<lparr>cm_buf := overlay (cm_buf st) (take 512 ?text)\<rparr>)")
    case (Inl f)
    then have "interpret_all E cs (playback_of st) = Inl f" using from_start by simp
    then show ?thesis using ne by (simp only: command_read_def if_False Inl bind_res.simps sum.case)
  next
    case (Inr st1)
    then have "interpret_all E cs (playback_of st) = Inr (playback_of st1)" using from_start by simp
    then show ?thesis
      using ne by (simp only: command_read_def if_False Inr bind_res.simps sum.case same)
        (simp add: text_of_def string_at_zeros split: option.split)
  qed
qed

text \<open>Two reads that end the thread, or worse. A line of nothing but equals signs has no key, and the length of a null pointer
  is asked for. A read that fills the buffer and has no zero and no end of a line leaves no terminator, and the search for
  the end of the line leaves the buffer.\<close>

lemma command_reader_faults:
  assumes "length (cm_buf st) = 512" and "running 0"
  shows "n < 511 \<Longrightarrow> command_read E running (replicate (Suc n) 61 @ 10 # rest) st = Inl Null_deref"
    and "512 \<le> length data \<Longrightarrow> {0, 10} \<inter> set (take 512 data) = {} \<Longrightarrow> command_read E running data st = Inl Out_of_bounds"
proof -
  assume n: "n < 511"
  let ?tok = "replicate (Suc n) 61" and ?data = "replicate (Suc n) 61 @ 10 # rest :: bytes"
  have data: "take 512 ?data = ?tok @ 10 # take (510 - n) rest" using n by (simp add: take_Cons')
  have "overlay (cm_buf st) (take 512 ?data) = ?tok @ 10 # (take (510 - n) rest @
      drop (length (?tok @ 10 # take (510 - n) rest)) (cm_buf st))"
    unfolding overlay_def data by (simp del: replicate_Suc)
  then obtain ys where buf: "overlay (cm_buf st) (take 512 ?data) = ?tok @ 10 # ys" by blast
  have line: "strtok_r [10] (?tok @ 10 # ys) 0 = Inr (Some 0, ?tok @ 0 # ys, Suc n + 1)"
    using strtok_token [of ?tok "[10]" 10 "[]" ys] by simp
  have key: "strtok_r [61] (?tok @ 0 # ys) 0 = Inr (None, ?tok @ 0 # ys, Suc n)"
    using strtok_skip_stop [of ?tok "\<lambda>c. c \<in> set [61]" 0 "[]" ys] by (simp add: strtok_r_def nth_append)
  show "command_read E running ?data st = Inl Null_deref"
    unfolding command_read_def buf using assms(2) line key
    by (simp add: command_lines.simps [of E running 0 0] command_line_def del: replicate_Suc)
next
  assume data: "512 \<le> length data" "{0, 10} \<inter> set (take 512 data) = {}"
  let ?buf = "take 512 data"
  have buf: "overlay (cm_buf st) ?buf = ?buf" using assms(1) data(1) by (simp add: overlay_def)
  obtain c cs where c: "?buf = c # cs" using data(1) by (cases ?buf) auto
  have first: "strtok_skip (\<lambda>c. c \<in> set [10]) ?buf 0 = Inr 0" using data(2) by (simp add: strtok_skip_def c)
  have all: "takeWhile (\<lambda>c. c \<notin> set [10] \<and> c \<noteq> 0) ?buf = ?buf" using data(2) by (auto simp: takeWhile_eq_all_conv)
  have "strtok_skip (\<lambda>c. c \<notin> set [10] \<and> c \<noteq> 0) ?buf 0 = Inl Out_of_bounds" unfolding strtok_skip_def drop_0 all by (simp add: Let_def)
  moreover have "?buf ! 0 \<noteq> 0" using data(2) by (auto simp: c)
  ultimately have "strtok_r [10] ?buf 0 = Inl Out_of_bounds" unfolding strtok_r_def first by simp
  moreover have "data \<noteq> []" using data(1) by auto
  ultimately show "command_read E running data st = Inl Out_of_bounds"
    unfolding command_read_def buf by (simp add: command_lines.simps [of E running 0 0])
qed

end
