(* ===== verification/Player_Options.thy ===== *)
theory Player_Options
  imports Player_Commands Airplay_Discovery
begin

text \<open>
  What \<open>main\<close> of \<open>src/cliairplay2.c\<close> makes of its arguments: the options, the password, which it decodes with the base 64
  of \<open>crosstools/src/cross_util.c\<close> and the UDN, and the device that it starts.
\<close>

subsection \<open>Base 64\<close>

definition base64_chars :: bytes where
  "base64_chars = str ''ABCDEFGHIJKLMNOPQRSTUVWXYZabcdefghijklmnopqrstuvwxyz0123456789+/''"

text \<open>\<open>pos\<close>.\<close>

definition base64_pos :: "u8 \<Rightarrow> int" where
  "base64_pos c = (let n = length (takeWhile (\<lambda>x. x \<noteq> c) base64_chars) in if n < length base64_chars then int n else -1)"

definition base64_four :: "u32 \<Rightarrow> bytes" where
  "base64_four c = [base64_chars ! unat (drop_bit 18 (c AND 0xFC0000)), base64_chars ! unat (drop_bit 12 (c AND 0x3F000)),
     base64_chars ! unat (drop_bit 6 (c AND 0xFC0)), base64_chars ! unat (c AND 0x3F)]"

fun base64_encode :: "bytes \<Rightarrow> bytes" where
  "base64_encode [] = []"
| "base64_encode [x] = (base64_four (ucast x * 256 * 256))[3 := 61, 2 := 61]"
| "base64_encode [x, y] = (base64_four ((ucast x * 256 + ucast y) * 256))[3 := 61]"
| "base64_encode (x # y # z # rest) = base64_four ((ucast x * 256 + ucast y) * 256 + ucast z) @ base64_encode rest"

definition DECODE_ERROR :: u32 where "DECODE_ERROR = 0xFFFFFFFF"

fun token_loop :: "u32 \<Rightarrow> nat \<Rightarrow> bytes \<Rightarrow> (u32 \<times> nat) option" where
  "token_loop val marker [] = Some (val, marker)"
| "token_loop val marker (t # ts) =
     (if t = 61 then token_loop (val * 64) (marker + 1) ts
      else if marker > 0 then None
      else token_loop (val * 64 + word_of_int (base64_pos t)) marker ts)"

definition token_decode :: "bytes \<Rightarrow> u32" where
  "token_decode token =
     (if length token < 4 then DECODE_ERROR
      else case token_loop 0 0 (take 4 token) of
        None \<Rightarrow> DECODE_ERROR
      | Some (val, marker) \<Rightarrow> if marker > 2 then DECODE_ERROR else push_bit 24 (of_nat marker) OR val)"

text \<open>\<open>base64_decode\<close>: \<open>None\<close> is the result -1.\<close>

function base64_decode :: "bytes \<Rightarrow> bytes option" where
  "base64_decode p =
     (if p = [] \<or> \<not> (hd p = 61 \<or> hd p \<in> set base64_chars) then Some []
      else
        let val = token_decode p; marker = drop_bit 24 val AND 0xFF in
        if val = DECODE_ERROR then None
        else map_option (\<lambda>rest. ucast (drop_bit 16 val AND 0xFF)
              # (if marker < 2 then [ucast (drop_bit 8 val AND 0xFF)] else [])
              @ (if marker < 1 then [ucast (val AND 0xFF)] else []) @ rest) (base64_decode (drop 4 p)))"
  by pat_completeness auto
termination by (relation "measure length") (auto simp: token_decode_def split: if_splits)

declare base64_decode.simps [simp del]

subsection \<open>Options\<close>

record options =
  op_port :: int
  op_volume :: int
  op_latency :: u32
  op_wait :: int
  op_start :: u64
  op_encryption :: bool
  op_dacp :: "bytes option"
  op_active_remote :: "bytes option"
  op_alac :: bool
  op_et :: "bytes option"
  op_md :: "bytes option"
  op_am :: "bytes option"
  op_pk :: "bytes option"
  op_pw :: "bytes option"
  op_interface :: bytes
  op_secret :: "bytes option"
  op_udn :: "bytes option"
  op_level :: int
  op_passwd :: "bytes option"
  op_hostname :: "bytes option"
  op_fname :: "bytes option"

text \<open>\<open>MS2TS\<close> at 44100 Hz, kept in an \<open>int\<close>.\<close>

definition MS2TS :: "int \<Rightarrow> u32" where
  "MS2TS ms = ucast (((word_of_int ms :: u64) * 44100) div 1000)"

definition options_default :: options where
  "options_default = \<lparr>op_port = 5000, op_volume = 0, op_latency = MS2TS 1000, op_wait = 0, op_start = 0, op_encryption = False,
     op_dacp = Some (str ''1A2B3D4EA1B2C3D4''), op_active_remote = Some (str ''ap5918800d''), op_alac = False,
     op_et = Some (str ''0,4''), op_md = Some (str ''0,1,2''), op_am = Some [], op_pk = Some [], op_pw = Some [],
     op_interface = str ''?'', op_secret = Some [], op_udn = None, op_level = 3, op_passwd = Some [], op_hostname = None,
     op_fname = None\<rparr>"

text \<open>A number from an argument that may be missing: \<open>argv\<close> ends with a null pointer.\<close>

definition arg_number :: "bytes option \<Rightarrow> (int \<Rightarrow> options) \<Rightarrow> options res" where
  "arg_number a f = (case a of None \<Rightarrow> Inl Null_deref | Some v \<Rightarrow> Inr (f (atoi v)))"

text \<open>The levels of \<open>debug\<close> are 0 to 9; the comparison with its size is one of unsigned numbers.\<close>

definition debug_level :: "int \<Rightarrow> int" where
  "debug_level level = (if (word_of_int level :: u64) \<ge> 10 then 9 else level)"

text \<open>The options with a value; \<open>None\<close> when the argument is not one of them.\<close>

definition set_option :: "bytes \<Rightarrow> bytes option \<Rightarrow> options \<Rightarrow> options res option" where
  "set_option arg a op =
     (if arg = str ''-port'' then Some (arg_number a (\<lambda>n. op\<lparr>op_port := n\<rparr>))
      else if arg = str ''-volume'' then Some (arg_number a (\<lambda>n. op\<lparr>op_volume := n\<rparr>))
      else if arg = str ''-latency'' then Some (arg_number a (\<lambda>n. op\<lparr>op_latency := MS2TS n\<rparr>))
      else if arg = str ''-wait'' then Some (arg_number a (\<lambda>n. op\<lparr>op_wait := n\<rparr>))
      else if arg = str ''-ntpstart'' then
        Some (case a of None \<Rightarrow> Inl Null_deref
              | Some v \<Rightarrow> Inr (case scan_number 10 v of None \<Rightarrow> op
                  | Some (neg, m) \<Rightarrow> op\<lparr>op_start := if m > 2 ^ 64 - 1 then 0xFFFFFFFFFFFFFFFF else word_of_int (if neg then - m else m)\<rparr>))
      else if arg = str ''-dacp'' then Some (Inr (op\<lparr>op_dacp := a\<rparr>))
      else if arg = str ''-activeremote'' then Some (Inr (op\<lparr>op_active_remote := a\<rparr>))
      else if arg = str ''-et'' then Some (Inr (op\<lparr>op_et := a\<rparr>))
      else if arg = str ''-md'' then Some (Inr (op\<lparr>op_md := a\<rparr>))
      else if arg = str ''-am'' then Some (Inr (op\<lparr>op_am := a\<rparr>))
      else if arg = str ''-pk'' then Some (Inr (op\<lparr>op_pk := a\<rparr>))
      else if arg = str ''-pw'' then Some (Inr (op\<lparr>op_pw := a\<rparr>))
      else if arg = str ''-if'' then
        Some (case a of None \<Rightarrow> Inl Null_deref
              | Some v \<Rightarrow> if length v \<ge> 16 then Inl Out_of_bounds else Inr (op\<lparr>op_interface := v\<rparr>))
      else if arg = str ''-secret'' then Some (Inr (op\<lparr>op_secret := a\<rparr>))
      else if arg = str ''-udn'' then Some (Inr (op\<lparr>op_udn := a\<rparr>))
      else if arg = str ''-debug'' then Some (arg_number a (\<lambda>n. op\<lparr>op_level := debug_level n\<rparr>))
      else if arg = str ''-password'' then Some (Inr (op\<lparr>op_passwd := a\<rparr>))
      else None)"

text \<open>What the arguments come to: the program ends at once, the usage is printed, or it goes on with the options.\<close>

datatype parsed = Exit_now | Usage | Options options

fun parse_options :: "options \<Rightarrow> bytes list \<Rightarrow> parsed res" where
  "parse_options op [] = Inr (Options op)"
| "parse_options op (arg # args) =
     (if arg = str ''-ntp'' \<or> arg = str ''-check'' then Inr Exit_now
      else case set_option arg (case args of [] \<Rightarrow> None | v # _ \<Rightarrow> Some v) op of
        Some r \<Rightarrow> bind_res r (\<lambda>op1. case args of [] \<Rightarrow> Inr (Options op1) | _ # rest \<Rightarrow> parse_options op1 rest)
      | None \<Rightarrow>
          if arg = str ''-encrypt'' then parse_options (op\<lparr>op_encryption := True\<rparr>) args
          else if arg = str ''-alac'' then parse_options (op\<lparr>op_alac := True\<rparr>) args
          else if arg = str ''--help'' \<or> arg = str ''-h'' then Inr Usage
          else if op_hostname op = None then parse_options (op\<lparr>op_hostname := Some arg\<rparr>) args
          else if op_fname op = None then parse_options (op\<lparr>op_fname := Some arg\<rparr>) args
          else parse_options op args)"

subsection \<open>Password and device\<close>

definition player_password :: "bytes option \<Rightarrow> bytes option \<Rightarrow> bytes option \<Rightarrow> bytes option res" where
  "player_password passwd pw udn =
     (case passwd of None \<Rightarrow> Inl Null_deref
      | Some p \<Rightarrow>
          if p = [] \<or> (case pw of None \<Rightarrow> True | Some w \<Rightarrow> \<not> strcasecmp_eq w (str ''true'')) then Inr None
          else
            let cut = length p + length p mod 4 in
            if cut > length p + 2 then Inl Out_of_bounds
            else case base64_decode (take cut (p @ str ''=='')) of
              None \<Rightarrow> Inl (if udn = None then Null_deref else Out_of_bounds)
            | Some [] \<Rightarrow> Inr (Some [])
            | Some data \<Rightarrow> (case udn of None \<Rightarrow> Inl Null_deref
                | Some u \<Rightarrow> if length data > length u + 1 then Inl Out_of_bounds
                            else Inr (Some (c_string (map2 (\<lambda>a b. a XOR b) data (u @ [0]))))))"

text \<open>The device at its address, with what the options and the name server say; a family that is neither is \<open>None\<close>.\<close>

definition player_device :: "nat \<Rightarrow> options \<Rightarrow> bytes \<Rightarrow> bytes option \<Rightarrow> address_family \<Rightarrow> bytes \<Rightarrow> output_device option" where
  "player_device a op hostname password family address =
     (let dev = (device_zero a)\<lparr>dv_id := 0, dv_name := hostname, dv_password := password, dv_volume := op_volume op,
                  dv_quality := \<lparr>sample_rate = 44100, bits_per_sample = 16, channels = 2, bit_rate = 0\<rparr>,
                  dv_extra := extra_zero\<lparr>ex_mdns_name := hostname, ex_devtype := device_type (op_am op)\<rparr>\<rparr>
      in case family of
           AF_INET \<Rightarrow> Some (dev\<lparr>dv_v4_address := Some address, dv_v4_port := word_of_int (op_port op)\<rparr>)
         | AF_INET6 \<Rightarrow> Some (dev\<lparr>dv_v6_address := Some address, dv_v6_port := word_of_int (op_port op)\<rparr>)
         | AF_OTHER \<Rightarrow> None)"

subsection \<open>Decoding what was encoded\<close>

lemma base64_chars_eq: "base64_chars = map of_nat ([65..<91] @ [97..<123] @ [48..<58] @ [43, 47])"
  by code_simp

lemma base64_chars_length [simp]: "length base64_chars = 64"
  by (simp add: base64_chars_eq)

lemma base64_chars_distinct: "distinct base64_chars"
proof -
  have "inj_on (of_nat :: nat \<Rightarrow> u8) {0..<256}" by (rule inj_on_inverseI [where g = unat]) (simp add: unsigned_of_nat take_bit_eq_mod)
  then have "inj_on (of_nat :: nat \<Rightarrow> u8) (set ([65..<91] @ [97..<123] @ [48..<58] @ [43, 47]))" by (rule inj_on_subset) (auto simp del: upt_rec_numeral)
  then show ?thesis unfolding base64_chars_eq distinct_map by (auto simp del: upt_rec_numeral)
qed

lemma takeWhile_before: "distinct xs \<Longrightarrow> n < length xs \<Longrightarrow> takeWhile (\<lambda>x. x \<noteq> xs ! n) xs = take n xs"
proof (induction xs arbitrary: n)
  case (Cons x xs)
  then show ?case by (cases n) auto
qed simp

lemma base64_digit:
  assumes "n < 64"
  shows "base64_pos (base64_chars ! n) = int n \<and> base64_chars ! n \<noteq> 61 \<and> base64_chars ! n \<in> set base64_chars"
proof -
  have "(61 :: u8) \<notin> set base64_chars" by (auto simp: base64_chars_def str_def)
  moreover have "base64_chars ! n \<in> set base64_chars" using assms by simp
  moreover from calculation have "base64_chars ! n \<noteq> 61" by metis
  ultimately show ?thesis using assms by (auto simp: base64_pos_def takeWhile_before [OF base64_chars_distinct])
qed

text \<open>The numbers behind the masks and shifts.\<close>

lemma and_63: "(c :: u32) AND 0x3F = take_bit 6 c"
  by (simp add: take_bit_eq_mask mask_eq_decr_exp)

lemma and_255: "(c :: u32) AND 0xFF = take_bit 8 c"
  by (simp add: take_bit_eq_mask mask_eq_decr_exp)

lemma unat_bits: "unat (take_bit k (drop_bit n (c :: u32))) = unat c div 2 ^ n mod 2 ^ k"
  unfolding unsigned_take_bit_eq unat_drop_bit_eq by (simp add: drop_bit_eq_div take_bit_eq_mod)

lemma six_bits:
  "unat (drop_bit 18 (c AND 0xFC0000)) = unat c div 2 ^ 18 mod 64" "unat (drop_bit 12 (c AND 0x3F000)) = unat c div 2 ^ 12 mod 64"
  "unat (drop_bit 6 (c AND 0xFC0)) = unat c div 2 ^ 6 mod 64" "unat (c AND 0x3F) = unat c mod 64" for c :: u32
proof -
  have s: "drop_bit 18 (0xFC0000 :: u32) = 0x3F" "drop_bit 12 (0x3F000 :: u32) = 0x3F" "drop_bit 6 (0xFC0 :: u32) = 0x3F" by code_simp+
  show "unat (drop_bit 18 (c AND 0xFC0000)) = unat c div 2 ^ 18 mod 64" "unat (drop_bit 12 (c AND 0x3F000)) = unat c div 2 ^ 12 mod 64"
    "unat (drop_bit 6 (c AND 0xFC0)) = unat c div 2 ^ 6 mod 64"
    unfolding drop_bit_and s and_63 unat_bits by simp_all
  show "unat (c AND 0x3F) = unat c mod 64" using unat_bits [of 6 0 c] by (simp add: and_63)
qed

lemma nat_digits: "262144 * (x div 262144) + 4096 * (x div 4096 mod 64) + 64 * (x div 64 mod 64) + x mod 64 = (x :: nat)"
proof -
  have "x div 262144 = x div 4096 div 64" "x div 4096 = x div 64 div 64" by (simp_all add: div_mult2_eq [symmetric])
  then show ?thesis
    using mult_div_mod_eq [of 64 "x div 4096"] mult_div_mod_eq [of 64 "x div 64"] mult_div_mod_eq [of 64 x] by linarith
qed

lemma four_digits:
  assumes "unat (c :: u32) < 2 ^ 24"
  shows "of_nat (unat c div 2 ^ 18 mod 64) * 64 * 64 * 64 + of_nat (unat c div 2 ^ 12 mod 64) * 64 * 64
      + of_nat (unat c div 2 ^ 6 mod 64) * 64 + of_nat (unat c mod 64) = c"
proof -
  let ?x = "unat c"
  have "?x div 262144 mod 64 * 64 * 64 * 64 + ?x div 4096 mod 64 * 64 * 64 + ?x div 64 mod 64 * 64 + ?x mod 64 = ?x"
    using assms nat_digits [of ?x] by simp
  from arg_cong [OF this, of "of_nat :: nat \<Rightarrow> u32"] show ?thesis by simp
qed

lemma token_loop_digits:
  assumes "a < 64" and "b < 64" and "c < 64" and "d < 64"
  shows "token_loop 0 0 (map ((!) base64_chars) [a, b, c, d]) = Some (((of_nat a * 64 + of_nat b) * 64 + of_nat c) * 64 + of_nat d, 0)"
    and "token_loop 0 0 (map ((!) base64_chars) [a, b, c] @ [61]) = Some (((of_nat a * 64 + of_nat b) * 64 + of_nat c) * 64, 1)"
    and "token_loop 0 0 (map ((!) base64_chars) [a, b] @ [61, 61]) = Some ((of_nat a * 64 + of_nat b) * 64 * 64, 2)"
  using assms by (simp_all add: base64_digit)

text \<open>One token of the text, whole or padded.\<close>

lemma token_decode_four:
  assumes "unat (c :: u32) < 2 ^ 24"
  shows "token_decode (base64_four c @ rest) = c"
    and "unat c mod 64 = 0 \<Longrightarrow> token_decode ((base64_four c)[3 := 61] @ rest) = push_bit 24 1 OR c"
    and "unat c mod 4096 = 0 \<Longrightarrow> token_decode ((base64_four c)[3 := 61, 2 := 61] @ rest) = push_bit 24 2 OR c"
proof -
  obtain i j k l where ijkl: "i < 64" "j < 64" "k < 64" "l < 64" "of_nat i * 64 * 64 * 64 + of_nat j * 64 * 64 + of_nat k * 64 + of_nat l = c"
      "base64_four c = map ((!) base64_chars) [i, j, k, l]" "l = unat c mod 64" "k = unat c div 2 ^ 6 mod 64"
  proof
    show "base64_four c = map ((!) base64_chars) [unat c div 2 ^ 18 mod 64, unat c div 2 ^ 12 mod 64, unat c div 2 ^ 6 mod 64, unat c mod 64]"
      unfolding base64_four_def six_bits by (simp only: list.map)
    show "of_nat (unat c div 2 ^ 18 mod 64) * 64 * 64 * 64 + of_nat (unat c div 2 ^ 12 mod 64) * 64 * 64
        + of_nat (unat c div 2 ^ 6 mod 64) * 64 + of_nat (unat c mod 64) = c"
      by (rule four_digits [OF assms])
  qed simp_all
  have sum: "((of_nat i * 64 + of_nat j) * 64 + of_nat k) * 64 + of_nat l = c" by (simp add: ijkl(5) [symmetric] algebra_simps)
  note digits = token_loop_digits [OF ijkl(1-4)]
  show "token_decode (base64_four c @ rest) = c"
    using digits(1) unfolding sum by (simp add: token_decode_def ijkl(6))
  show "token_decode ((base64_four c)[3 := 61] @ rest) = push_bit 24 1 OR c" if "unat c mod 64 = 0"
  proof -
    have "l = 0" using that ijkl(7) by simp
    then have "((of_nat i * 64 + of_nat j) * 64 + of_nat k) * 64 = c" using sum by simp
    then show ?thesis using digits(2) by (simp add: token_decode_def ijkl(6))
  qed
  show "token_decode ((base64_four c)[3 := 61, 2 := 61] @ rest) = push_bit 24 2 OR c" if "unat c mod 4096 = 0"
  proof -
    have "l = 0 \<and> k = 0" using that ijkl(7,8) mod_mult2_eq [of "unat c" 64 64] by simp
    then have "(of_nat i * 64 + of_nat j) * 64 * 64 = c" using sum by simp
    then show ?thesis using digits(3) by (simp add: token_decode_def ijkl(6))
  qed
qed

lemma byte_less: "unat (b :: u8) < 256"
proof -
  have "unat b < 2 ^ LENGTH(8)" by (rule unsigned_less)
  then show ?thesis by simp
qed

text \<open>The bytes of a group of three, and the marker above them.\<close>

lemma group_value:
  fixes x y z :: u8
  shows "unat ((ucast x * 256 + ucast y) * 256 + ucast z :: u32) = unat x * 65536 + unat y * 256 + unat z"
proof -
  have b: "unat x < 256" "unat y < 256" "unat z < 256" by (simp_all add: byte_less)
  then have less: "unat x * 65536 + unat y * 256 + unat z < 2 ^ 32" by simp
  have of_nat: "unat (of_nat n :: u32) = n" if "n < 2 ^ 32" for n
    using that by (simp add: unsigned_of_nat take_bit_eq_mod)
  have "(ucast x * 256 + ucast y) * 256 + ucast z = (of_nat (unat x * 65536 + unat y * 256 + unat z) :: u32)"
    by (simp add: algebra_simps)
  then show ?thesis by (simp only: of_nat [OF less])
qed

lemma byte_eq:
  assumes "unat (w :: u32) mod 256 = unat (b :: u8)"
  shows "ucast w = b"
  using assms by (simp add: word_unat_eq_iff unsigned_ucast_eq take_bit_eq_mod)

lemma group_bytes:
  assumes "unat (c :: u32) = unat x * 65536 + unat y * 256 + unat (z :: u8)"
  shows "unat c < 2 ^ 24" "ucast (drop_bit 16 c AND 0xFF) = (x :: u8)" "ucast (drop_bit 8 c AND 0xFF) = (y :: u8)" "ucast (c AND 0xFF) = z"
    "drop_bit 24 c = 0"
proof -
  have b: "unat x < 256" "unat y < 256" "unat z < 256" by (simp_all add: byte_less)
  show c: "unat c < 2 ^ 24" using assms b by simp
  have "unat c = (unat x * 256 + unat y) * 256 + unat z" using assms by simp
  then have "unat c div 256 = unat x * 256 + unat y" "unat c mod 256 = unat z" using b(3) by (simp_all only: div_mult_self3 mod_mult_self3) simp_all
  moreover from this have "unat c div 65536 = unat x" using b(2) div_mult2_eq [of "unat c" 256 256] by simp
  ultimately have "unat c div 65536 = unat x" "unat c div 256 = unat x * 256 + unat y" "unat c mod 256 = unat z"
    by simp_all
  then show "ucast (drop_bit 16 c AND 0xFF) = x" "ucast (drop_bit 8 c AND 0xFF) = y" "ucast (c AND 0xFF) = z"
    using b unat_bits [of 8 16 c] unat_bits [of 8 8 c] unat_bits [of 8 0 c] by (auto intro!: byte_eq simp: and_255)
  show "drop_bit 24 c = 0" unfolding word_unat_eq_iff unat_drop_bit_eq using c by (simp add: drop_bit_eq_div)
qed

lemma base64_four_hd: "base64_four c @ rest \<noteq> [] \<and> hd (base64_four c @ rest) \<in> set base64_chars"
proof -
  have "unat (drop_bit 18 (c AND 0xFC0000)) < 64" by (simp add: six_bits)
  then show ?thesis using base64_digit by (simp add: base64_four_def)
qed

lemma length_base64_four [simp]: "length (base64_four c) = 4"
  by (simp add: base64_four_def)

text \<open>The decoder at a token with a marker.\<close>

lemma decode_token:
  assumes "token_decode (four @ rest) = push_bit 24 m OR c" and "drop_bit 24 (push_bit 24 m) = m" and "m \<in> {0, 1, 2}" and "drop_bit 24 c = 0"
    and "length four = 4" and "hd four \<in> set base64_chars"
    and "ucast (drop_bit 16 c AND 0xFF) = (x :: u8)" "ucast (drop_bit 8 c AND 0xFF) = (y :: u8)" "ucast (c AND 0xFF) = (z :: u8)"
  shows "base64_decode (four @ rest)
    = map_option (\<lambda>r. x # (if m < 2 then [y] else []) @ (if m < 1 then [z] else []) @ r) (base64_decode rest)"
proof -
  have low: "take_bit 8 (drop_bit k (push_bit 24 m OR c)) = take_bit 8 (drop_bit k c)" if "k \<le> 16" for k
    using that by (intro bit_word_eqI) (auto simp: bit_simps)
  have high: "drop_bit 24 (push_bit 24 m OR c) AND 0xFF = m"
  proof -
    have "drop_bit 24 (push_bit 24 m OR c) = m" using assms(2,4) by (simp add: drop_bit_or)
    moreover have "m AND 0xFF = m" using assms(3) by auto
    ultimately show ?thesis by simp
  qed
  have "push_bit 24 m OR c \<noteq> DECODE_ERROR"
  proof
    assume "push_bit 24 m OR c = DECODE_ERROR"
    then have "m = drop_bit 24 DECODE_ERROR AND 0xFF" using high by simp
    moreover have "drop_bit 24 DECODE_ERROR AND 0xFF = 0xFF" by code_simp
    ultimately show False using assms(3) by auto
  qed
  moreover have "four \<noteq> []" "four @ rest \<noteq> []" "hd (four @ rest) \<in> set base64_chars" using assms(5,6) by (cases four; simp)+
  ultimately show ?thesis
    using assms(5,7-9) low [of 16] low [of 8] low [of 0] high
    by (simp add: base64_decode.simps [of "four @ rest"] assms(1) Let_def and_255)
qed

lemma decode_four:
  "base64_decode (base64_four ((ucast x * 256 + ucast y) * 256 + ucast z) @ rest) = map_option (\<lambda>r. x # y # z # r) (base64_decode rest)"
proof -
  note g = group_bytes [OF group_value [of x y z]]
  have "hd (base64_four ((ucast x * 256 + ucast y) * 256 + ucast z)) \<in> set base64_chars"
    using base64_four_hd [of _ "[]"] by simp
  then show ?thesis
    using decode_token [of "base64_four ((ucast x * 256 + ucast y) * 256 + ucast z)" rest 0, OF _ _ _ g(5) _ _ g(2-4)] token_decode_four(1) [OF g(1)]
    by simp
qed

lemma decode_last: "base64_decode ((base64_four ((ucast x * 256 + ucast y) * 256))[3 := 61]) = Some [x, y]"
  "base64_decode ((base64_four (ucast x * 256 * 256))[3 := 61, 2 := 61]) = Some [x]"
proof -
  have e: "base64_decode [] = Some []" by (simp add: base64_decode.simps)
  have hd: "hd ((base64_four c)[3 := 61]) \<in> set base64_chars" "hd ((base64_four c)[3 := 61, 2 := 61]) \<in> set base64_chars" for c
    using base64_four_hd [of c "[]"] by (auto simp: base64_four_def)
  have p: "drop_bit 24 (push_bit 24 (1 :: u32)) = 1" "drop_bit 24 (push_bit 24 (2 :: u32)) = 2" by code_simp+
  define c1 where "c1 = (ucast x * 256 * 256 :: u32)"
  define c2 where "c2 = ((ucast x * 256 + ucast y) * 256 :: u32)"
  have v: "unat c1 = unat x * 65536 + unat (0 :: u8) * 256 + unat (0 :: u8)" "unat c2 = unat x * 65536 + unat y * 256 + unat (0 :: u8)"
    using group_value [of x 0 0] group_value [of x y 0] by (simp_all add: c1_def c2_def)
  note g1 = group_bytes [OF v(1)] and g2 = group_bytes [OF v(2)]
  have "unat c1 = unat x * 16 * 4096" "unat c2 = (unat x * 1024 + unat y * 4) * 64" using v by simp_all
  then have m: "unat c1 mod 4096 = 0" "unat c2 mod 64 = 0" by (simp_all only: mod_mult_self2_is_0)
  show "base64_decode ((base64_four ((ucast x * 256 + ucast y) * 256))[3 := 61]) = Some [x, y]"
    using decode_token [OF token_decode_four(2) [OF g2(1) m(2), of "[]"] p(1) _ g2(5) _ hd(1) g2(2-4)]
    unfolding c2_def [symmetric] by (simp add: e)
  show "base64_decode ((base64_four (ucast x * 256 * 256))[3 := 61, 2 := 61]) = Some [x]"
    using decode_token [OF token_decode_four(3) [OF g1(1) m(1), of "[]"] p(2) _ g1(5) _ hd(2) g1(2-4)]
    unfolding c1_def [symmetric] by (simp add: e)
qed

text \<open>C30: Decoding inverts encoding.\<close>

theorem base64_roundtrip: "base64_decode (base64_encode data) = Some data"
proof (induction data rule: base64_encode.induct)
  case 1
  then show ?case by (simp add: base64_decode.simps)
qed (simp_all only: base64_encode.simps decode_four decode_last option.map)

subsection \<open>The password\<close>

lemma base64_four_digits: "c \<in> set (base64_four w) \<Longrightarrow> c \<noteq> 61"
  by (auto simp: base64_four_def six_bits base64_digit)

lemma filter_four:
  "filter (\<lambda>c. c \<noteq> 61) (base64_four w) = base64_four w"
  "filter (\<lambda>c. c \<noteq> 61) ((base64_four w)[3 := 61]) = take 3 (base64_four w)"
  "filter (\<lambda>c. c \<noteq> 61) ((base64_four w)[3 := 61, 2 := 61]) = take 2 (base64_four w)"
  using base64_four_digits [of _ w] by (auto simp: base64_four_def)

lemma base64_stripped:
  "filter (\<lambda>c. c \<noteq> 61) (base64_encode data) @ (if length data mod 3 = 0 then [] else if length data mod 3 = 1 then [61, 61] else [61]) = base64_encode data
   \<and> length (filter (\<lambda>c. c \<noteq> 61) (base64_encode data)) mod 4 = (if length data mod 3 = 0 then 0 else length data mod 3 + 1)"
proof (induction data rule: base64_encode.induct)
  case (2 x)
  then show ?case by (simp only: base64_encode.simps filter_four) (simp add: base64_four_def)
next
  case (3 x y)
  then show ?case by (simp only: base64_encode.simps filter_four) (simp add: base64_four_def)
next
  case (4 x y z rest)
  have "length (x # y # z # rest) = length rest + 3" by simp
  then have "length (x # y # z # rest) mod 3 = length rest mod 3" by (simp only: mod_add_self2)
  moreover have "(4 + n) mod 4 = n mod 4" for n :: nat by simp
  ultimately show ?case using 4
    by (simp only: base64_encode.simps filter_append filter_four append_assoc length_append length_base64_four)
qed simp

text \<open>The password of a device. When the name server says that a password is needed, the password is the base 64 text of
  some bytes without its padding, and the program decodes it and combines it with the UDN. That works unless the number of bytes
  is 2 modulo 3: then the text needs one padding character, the program counts three and writes behind the
  string it has allocated. Without a UDN, or with one that is shorter than the bytes, it reads outside as well.\<close>

lemma player_password_outcome:
  assumes "strcasecmp_eq w (str ''true'')" and "data \<noteq> []"
  shows "player_password (Some (filter (\<lambda>c. c \<noteq> 61) (base64_encode data))) (Some w) udn =
    (if length data mod 3 = 2 then Inl Out_of_bounds
     else case udn of None \<Rightarrow> Inl Null_deref
       | Some u \<Rightarrow> if length data > length u + 1 then Inl Out_of_bounds
                   else Inr (Some (c_string (map2 (\<lambda>a b. a XOR b) data (u @ [0])))))"
proof -
  define p where "p = filter (\<lambda>c. c \<noteq> 61) (base64_encode data)"
  note st = base64_stripped [of data, folded p_def]
  have ne: "p \<noteq> []"
  proof
    assume "p = []"
    with st have "base64_encode data \<in> {[], [61, 61], [61]}" by (auto split: if_splits)
    then have "base64_decode (base64_encode data) \<noteq> Some data"
      using assms(2) by (auto simp: base64_decode.simps token_decode_def)
    then show False by (simp add: base64_roundtrip)
  qed
  consider "length data mod 3 = 2" | "length data mod 3 = 1" | "length data mod 3 = 0" by linarith
  then show ?thesis
  proof cases
    case 1
    then have "length p mod 4 = 3" using st by simp
    then show ?thesis using 1 ne assms(1) by (simp add: player_password_def p_def [symmetric] Let_def)
  next
    case 2
    then have "length p mod 4 = 2" and "base64_encode data = p @ [61, 61]" using st by simp_all
    then have "length p mod 4 = 2" "take (length p + 2) (p @ str ''=='') = base64_encode data" by (simp_all add: str_def)
    then show ?thesis using 2 ne assms
      by (simp add: player_password_def p_def [symmetric] Let_def base64_roundtrip split: list.split option.split)
  next
    case 3
    have "length p mod 4 = 0" using conjunct2 [OF st] 3 by simp
    moreover have "base64_encode data = p" using conjunct1 [OF st] 3 by simp
    ultimately have "length p mod 4 = 0" "take (length p) (p @ str ''=='') = base64_encode data" by simp_all
    then show ?thesis using 3 ne assms
      by (simp add: player_password_def p_def [symmetric] Let_def base64_roundtrip split: list.split option.split)
  qed
qed

end
