(* ===== verification/Player.thy ===== *)
theory Player
  imports Player_Options Airplay_Sequences "HOL-Library.Multiset"
begin

text \<open>
  The life of the program: \<open>airplay_init\<close>, \<open>airplay_deinit\<close>, \<open>airplay_create\<close> and \<open>airplay_destroy\<close> of \<open>src/airplay.c\<close> with the two
  services, the module of \<open>airplay_events.c\<close>, and \<open>main\<close> of \<open>src/cliairplay2.c\<close> from its arguments to its end. A resource
  that is released twice, or released without having been made, is a fault.
\<close>

subsection \<open>Resources\<close>

datatype life = Unset | Live | Gone

definition release :: "life \<Rightarrow> life wres" where
  "release l = (case l of Unset \<Rightarrow> Inl (Inner Null_deref) | Live \<Rightarrow> Inr Gone | Gone \<Rightarrow> Inl Freed)"

record service =
  svc_fd :: int
  svc_ev :: bool
  svc_port :: u16

definition service_zero :: service where
  "service_zero = \<lparr>svc_fd = 0, svc_ev = False, svc_port = 0\<rparr>"

text \<open>Stopping a service closes its socket; the second result is what is closed.\<close>

definition service_stop :: "service \<Rightarrow> service \<times> int list" where
  "service_stop s = (\<lparr>svc_fd = -1, svc_ev = False, svc_port = 0\<rparr>, if svc_fd s \<ge> 0 then [svc_fd s] else [])"

text \<open>Starting one: what \<open>net_bind\<close> gives, the descriptor and the port, and whether there is an event.\<close>

definition service_start :: "int \<times> u16 \<Rightarrow> bool \<Rightarrow> int \<times> service \<times> int list" where
  "service_start bind ev =
     (if fst bind < 0 then (-1, service_stop (service_zero\<lparr>svc_fd := fst bind\<rparr>))
      else if \<not> ev then (-1, service_stop (service_zero\<lparr>svc_fd := fst bind\<rparr>))
      else (0, \<lparr>svc_fd = fst bind, svc_ev = True, svc_port = snd bind\<rparr>, []))"

text \<open>
  The state of the program: \<open>evbase_main\<close>, the timer of \<open>airplay.c\<close>, its services, base and thread of \<open>airplay_events.c\<close>, the
  descriptors that were closed, and the sessions.
\<close>

record 'e modules =
  mo_evbase_main :: life
  mo_keep_alive :: life
  mo_timing :: service
  mo_control :: service
  mo_events_base :: life
  mo_events_thread :: life
  mo_closed :: "int list"
  mo_world :: "'e world"

definition modules_start :: "'e world \<Rightarrow> 'e modules" where
  "modules_start w = \<lparr>mo_evbase_main = Unset, mo_keep_alive = Unset, mo_timing = service_zero, mo_control = service_zero,
     mo_events_base = Unset, mo_events_thread = Unset, mo_closed = [], mo_world = w\<rparr>"

definition stop_timing :: "'e modules \<Rightarrow> 'e modules" where
  "stop_timing m = (case service_stop (mo_timing m) of (s, fds) \<Rightarrow> m\<lparr>mo_timing := s, mo_closed := mo_closed m @ fds\<rparr>)"

definition stop_control :: "'e modules \<Rightarrow> 'e modules" where
  "stop_control m = (case service_stop (mo_control m) of (s, fds) \<Rightarrow> m\<lparr>mo_control := s, mo_closed := mo_closed m @ fds\<rparr>)"

subsection \<open>The modules\<close>

text \<open>
  \<open>airplay_events_init\<close> tests for a negative result of \<open>pthread_create\<close>, which there is none; so it returns 0 even when there is no thread.
  \<open>airplay_events_deinit\<close> joins the thread and frees the base.
\<close>

definition events_init :: "bool \<Rightarrow> 'e modules \<Rightarrow> int \<times> 'e modules" where
  "events_init created m =
     (0, m\<lparr>mo_events_base := Live, mo_events_thread := if created then Live else mo_events_thread m\<rparr>)"

definition airplay_events_deinit :: "'e modules \<Rightarrow> 'e modules wres" where
  "airplay_events_deinit m =
     bind_res (release (mo_events_thread m)) (\<lambda>t.
     bind_res (release (mo_events_base m)) (\<lambda>b. Inr (m\<lparr>mo_events_thread := t, mo_events_base := b\<rparr>)))"

text \<open>What the system answers while \<open>airplay_init\<close> runs.\<close>

record init_answers =
  ia_timing :: "int \<times> u16"
  ia_timing_ev :: bool
  ia_control :: "int \<times> u16"
  ia_control_ev :: bool
  ia_thread :: bool
  ia_browse :: int

definition out_free_timer :: "'e modules \<Rightarrow> (int \<times> 'e modules) wres" where
  "out_free_timer m = bind_res (release (mo_keep_alive m)) (\<lambda>l. Inr (-1, m\<lparr>mo_keep_alive := l\<rparr>))"

text \<open>The check that the tables of sequences are in order is one of constants, and they are.\<close>

definition airplay_init :: "init_answers \<Rightarrow> 'e modules \<Rightarrow> (int \<times> 'e modules) wres" where
  "airplay_init I m0 =
     (let m1 = m0\<lparr>mo_keep_alive := Live\<rparr> in
      case service_start (ia_timing I) (ia_timing_ev I) of (ret, timing, fds) \<Rightarrow>
      let m2 = m1\<lparr>mo_timing := timing, mo_closed := mo_closed m1 @ fds\<rparr> in
      if ret < 0 then out_free_timer m2
      else case service_start (ia_control I) (ia_control_ev I) of (ret, control, fds) \<Rightarrow>
      let m3 = m2\<lparr>mo_control := control, mo_closed := mo_closed m2 @ fds\<rparr> in
      if ret < 0 then out_free_timer (stop_timing m3)
      else case events_init (ia_thread I) m3 of (ret, m4) \<Rightarrow>
      if ret < 0 then out_free_timer (stop_timing (stop_control m4))
      else if ia_browse I < 0
      then bind_res (airplay_events_deinit m4) (\<lambda>m5. out_free_timer (stop_timing (stop_control m5)))
      else Inr (0, m4))"

lemma session_free_sessions: "session_free rs w = Inr w1 \<Longrightarrow> w_sessions w1 = w_sessions w"
  by (auto simp: session_free_def Let_def split: option.splits if_splits)

function deinit_sessions :: "'e world \<Rightarrow> 'e world wres" where
  "deinit_sessions w =
     (case w_sessions w of
        [] \<Rightarrow> Inr w
      | (p, rs) # rest \<Rightarrow> bind_res (session_free rs (w\<lparr>w_sessions := rest\<rparr>)) deinit_sessions)"
  by pat_completeness auto
termination
  by (relation "measure (\<lambda>w. length (w_sessions w))") (auto dest!: session_free_sessions)

declare deinit_sessions.simps [simp del]

definition airplay_deinit :: "'e modules \<Rightarrow> 'e modules wres" where
  "airplay_deinit m =
     bind_res (airplay_events_deinit m) (\<lambda>m1.
     let m2 = stop_timing (stop_control m1) in
     bind_res (release (mo_keep_alive m2)) (\<lambda>l.
     bind_res (deinit_sessions (mo_world m2)) (\<lambda>w. Inr (m2\<lparr>mo_keep_alive := l, mo_world := w\<rparr>))))"

definition airplay_create ::
  "'p airplay_env \<Rightarrow> answers \<Rightarrow> init_answers \<Rightarrow> output_device \<Rightarrow> 'e modules \<Rightarrow> (int \<times> 'e modules) wres" where
  "airplay_create E A I dev m =
     bind_res (airplay_init I m) (\<lambda>(ret, m1).
       if ret < 0 then bind_res (airplay_deinit m1) (\<lambda>m2. Inr (ret, m2))
       else bind_res (airplay_device_start E A dev 0 (mo_world m1)) (\<lambda>(_, w). Inr (0, m1\<lparr>mo_world := w\<rparr>)))"

definition airplay_destroy :: "'e modules \<Rightarrow> 'e modules wres" where
  "airplay_destroy m = airplay_deinit m"

text \<open>\<open>platform_init\<close> runs into its error label; \<open>mdns\<close> is what \<open>mdns_init\<close> returns.\<close>

definition platform_init :: "int \<Rightarrow> 'e modules \<Rightarrow> (int \<times> 'e modules) wres" where
  "platform_init mdns m =
     (let m1 = m\<lparr>mo_evbase_main := Live\<rparr>; ret = (if mdns \<noteq> 0 then 1 else mdns) in
      bind_res (release (mo_evbase_main m1)) (\<lambda>l. Inr (ret, m1\<lparr>mo_evbase_main := l\<rparr>)))"

definition platform_deinit :: "'e modules \<Rightarrow> 'e modules wres" where
  "platform_deinit m = bind_res (release (mo_evbase_main m)) (\<lambda>l. Inr (m\<lparr>mo_evbase_main := l\<rparr>))"

subsection \<open>The program\<close>

text \<open>
  The loop that reads audio: in each round the status when it is looked at first and again, and what \<open>read\<close> returns then. The result
  is the number of frames once the loop has ended, \<open>None\<close> while it goes on.
\<close>

fun stream_loop :: "(player_status \<times> player_status \<times> int) list \<Rightarrow> int \<Rightarrow> int \<Rightarrow> int option" where
  "stream_loop rounds n frames =
     (if n = 0 then Some frames
      else case rounds of
        [] \<Rightarrow> None
      | (status, status', r) # rest \<Rightarrow>
          if status = STOPPED then Some frames
          else if status' = PLAYING then stream_loop rest r (if r = 0 then frames else frames + sgn r * (\<bar>r\<bar> div 4))
          else stream_loop rest n frames)"

declare stream_loop.simps [simp del]

record surroundings =
  su_mdns :: int
  su_open :: "bytes \<Rightarrow> bool"
  su_host :: "bytes \<Rightarrow> (address_family \<times> bytes) option"
  su_init :: init_answers
  su_rounds :: "(player_status \<times> player_status \<times> int) list"

definition contains_caseless :: "bytes \<Rightarrow> bytes \<Rightarrow> bool" where
  "contains_caseless s n \<longleftrightarrow> list_ex (\<lambda>i. strcasecmp_eq (take (length n) (drop i s)) n) [0..<length s + 1]"

datatype program_end = Ended int | Streaming

definition program_exit :: "'e modules \<Rightarrow> (program_end \<times> 'e modules) wres" where
  "program_exit m = bind_res (airplay_destroy m) (\<lambda>m1. bind_res (platform_deinit m1) (\<lambda>m2. Inr (Ended 0, m2)))"

text \<open>\<open>main\<close> with the options it has read.\<close>

definition main_options ::
  "'p airplay_env \<Rightarrow> answers \<Rightarrow> surroundings \<Rightarrow> nat \<Rightarrow> options \<Rightarrow> 'e modules \<Rightarrow> (program_end \<times> 'e modules) wres" where
  "main_options E A S a op m =
     bind_res (platform_init (su_mdns S) m) (\<lambda>(ret, m1).
     if ret < 0 then Inr (Ended ret, m1)
     else case (op_hostname op, op_fname op) of
       (Some hostname, Some fname) \<Rightarrow>
         if fname \<noteq> str ''-'' \<and> \<not> su_open S fname then Inr (Ended 1, m1)
         else (case su_host S hostname of
           None \<Rightarrow> Inr (Ended 1, m1)
         | Some (family, address) \<Rightarrow>
             if (case op_am op of None \<Rightarrow> False | Some am \<Rightarrow> contains_caseless am (str ''appletv''))
                \<and> (case op_pk op of None \<Rightarrow> False | Some pk \<Rightarrow> pk \<noteq> []) \<and> op_secret op = None then Inr (Ended 1, m1)
             else bind_res (lift_res (player_password (op_passwd op) (op_pw op) (op_udn op))) (\<lambda>password.
               case player_device a op hostname password family address of
                 None \<Rightarrow> program_exit m1
               | Some dev \<Rightarrow>
                   bind_res (airplay_create E A (su_init S) dev m1) (\<lambda>(_, m2).
                   case stream_loop (su_rounds S) (-1) 0 of
                     None \<Rightarrow> Inr (Streaming, m2)
                   | Some frames \<Rightarrow>
                       bind_res (airplay_destroy m2) (\<lambda>m3. bind_res (platform_deinit m3) program_exit))))
     | _ \<Rightarrow> Inr (Ended (-1), m1))"

definition main_program ::
  "'p airplay_env \<Rightarrow> answers \<Rightarrow> surroundings \<Rightarrow> nat \<Rightarrow> bytes list \<Rightarrow> 'e world \<Rightarrow> (program_end \<times> 'e modules) wres" where
  "main_program E A S a args w =
     bind_res (lift_res (parse_options options_default args)) (\<lambda>p.
       case p of
         Exit_now \<Rightarrow> Inr (Ended 0, modules_start w)
       | Usage \<Rightarrow> Inr (Ended (-1), modules_start w)
       | Options op \<Rightarrow> main_options E A S a op (modules_start w))"

text \<open>
  The loop ends with the first round in which the status is \<open>STOPPED\<close> or the end of the file is read; a read that fails is not an end,
  so a source that keeps failing is read for ever.
\<close>

definition ends_loop :: "player_status \<times> player_status \<times> int \<Rightarrow> bool" where
  "ends_loop = (\<lambda>(status, status', r). status = STOPPED \<or> status' = PLAYING \<and> r = 0)"

definition frames_read :: "player_status \<times> player_status \<times> int \<Rightarrow> int" where
  "frames_read = (\<lambda>(status, status', r). if status' = PLAYING then sgn r * (\<bar>r\<bar> div 4) else 0)"

lemma stream_loop_ends:
  "n \<noteq> 0 \<Longrightarrow> stream_loop rounds n frames =
    (if \<exists>r \<in> set rounds. ends_loop r then Some (frames + sum_list (map frames_read (takeWhile (\<lambda>r. \<not> ends_loop r) rounds))) else None)"
proof (induction rounds arbitrary: n frames)
  case Nil
  then show ?case by (simp add: stream_loop.simps [of "[]"])
next
  case (Cons r rounds)
  obtain s s' k where r: "r = (s, s', k)" by (cases r)
  show ?case
  proof (cases "s' = PLAYING \<and> k = 0")
    case True
    then show ?thesis using Cons.prems
      by (auto simp: r stream_loop.simps [of "(s, PLAYING, 0) # rounds"] stream_loop.simps [of rounds 0] ends_loop_def)
  next
    case False
    then show ?thesis using Cons
      by (auto simp: r stream_loop.simps [of "(s, s', k) # rounds"] ends_loop_def frames_read_def)
  qed
qed

subsection \<open>What is made and released\<close>

lemma release_simps [simp]: "release Live = Inr Gone" "release Unset = Inl (Inner Null_deref)" "release Gone = Inl Freed"
  by (simp_all add: release_def)

text \<open>The sockets that the two services get.\<close>

definition opened :: "init_answers \<Rightarrow> int list" where
  "opened I =
     (if fst (ia_timing I) < 0 then []
      else fst (ia_timing I) # (if \<not> ia_timing_ev I \<or> fst (ia_control I) < 0 then [] else [fst (ia_control I)]))"

definition all_gone :: "'e modules \<Rightarrow> bool" where
  "all_gone m \<longleftrightarrow> mo_keep_alive m = Gone \<and> mo_events_base m = Gone \<and> mo_events_thread m = Gone
     \<and> svc_fd (mo_timing m) = -1 \<and> svc_fd (mo_control m) = -1"

lemma init_shape:
  assumes "ia_thread I" and "mo_events_thread m = Unset"
  obtains ret m1 where "airplay_init I m = Inr (ret, m1)"
    and "ret < 0 \<Longrightarrow> ret = -1 \<and> mo_keep_alive m1 = Gone \<and> mo_events_thread m1 \<noteq> Live \<and> mset (mo_closed m1) = mset (mo_closed m) + mset (opened I)"
    and "\<not> ret < 0 \<Longrightarrow> ret = 0 \<and> mo_keep_alive m1 = Live \<and> mo_events_base m1 = Live \<and> mo_events_thread m1 = Live
      \<and> mo_closed m1 = mo_closed m \<and> mo_world m1 = mo_world m \<and> opened I = [svc_fd (mo_timing m1), svc_fd (mo_control m1)]
      \<and> 0 \<le> svc_fd (mo_timing m1) \<and> 0 \<le> svc_fd (mo_control m1)"
proof -
  note defs = airplay_init_def service_start_def service_stop_def service_zero_def out_free_timer_def stop_timing_def stop_control_def
    events_init_def airplay_events_deinit_def opened_def Let_def
  consider (timing) "fst (ia_timing I) < 0 \<or> \<not> ia_timing_ev I" | (control) "\<not> fst (ia_timing I) < 0" "ia_timing_ev I" "fst (ia_control I) < 0 \<or> \<not> ia_control_ev I"
    | (browse) "\<not> fst (ia_timing I) < 0" "ia_timing_ev I" "\<not> fst (ia_control I) < 0" "ia_control_ev I" "ia_browse I < 0"
    | (ok) "\<not> fst (ia_timing I) < 0" "ia_timing_ev I" "\<not> fst (ia_control I) < 0" "ia_control_ev I" "\<not> ia_browse I < 0"
    by blast
  then show thesis
  proof cases
    case timing
    then show thesis using assms by (cases "fst (ia_timing I) < 0"; intro that) (auto simp: defs)
  next
    case control
    then show thesis using assms by (cases "fst (ia_control I) < 0"; intro that) (auto simp: defs)
  next
    case browse
    then show thesis using assms by (intro that) (auto simp: defs)
  next
    case ok
    then show thesis using assms by (intro that) (auto simp: defs)
  qed
qed


subsection \<open>The end of the program\<close>

lemma deinit_evbase: "airplay_deinit m = Inr m1 \<Longrightarrow> mo_evbase_main m1 = mo_evbase_main m"
  by (auto simp: airplay_deinit_def airplay_events_deinit_def stop_timing_def stop_control_def service_stop_def bind_res_eq_Inr Let_def)

lemma init_evbase: "airplay_init I m = Inr (ret, m1) \<Longrightarrow> mo_evbase_main m1 = mo_evbase_main m"
  by (auto simp: airplay_init_def airplay_events_deinit_def out_free_timer_def stop_timing_def stop_control_def service_stop_def events_init_def
      bind_res_eq_Inr Let_def split: prod.splits if_splits)

lemma create_evbase: "airplay_create E A I dev m = Inr (ret, m1) \<Longrightarrow> mo_evbase_main m1 = mo_evbase_main m"
  by (auto simp: airplay_create_def bind_res_eq_Inr dest!: init_evbase deinit_evbase split: if_splits)

lemma platform_deinit_gone: "mo_evbase_main m = Gone \<Longrightarrow> platform_deinit m = Inl Freed"
  by (simp add: platform_deinit_def)

lemma exit_gone: "mo_evbase_main m = Gone \<Longrightarrow> program_exit m \<noteq> Inr x"
  by (auto simp: program_exit_def airplay_destroy_def bind_res_eq_Inr platform_deinit_gone dest!: deinit_evbase)


end
