(* ===== verification/Player_Samples.thy ===== *)
theory Player_Samples
  imports Player
begin

text \<open>The properties of the command line player at concrete inputs.\<close>

subsection \<open>The command pipe\<close>

definition sample_commands :: "(bytes \<times> bytes) list" where
  "sample_commands = [(str ''TITLE'', str ''Song''), (str ''DURATION'', str ''180''), (str ''ACTION'', str ''PLAY''),
     (str ''ARTWORK'', str ''http://host/a=b''), (str ''ALBUM'', []), (str ''ACTION'', str ''PAUSE'')]"

definition sample_env :: command_env where
  "sample_env = \<lparr>ce_access = (\<lambda>f. False), ce_open = (\<lambda>f. False)\<rparr>"

theorem commands_interpreted_witness:
  "(case command_read sample_env (\<lambda>i. True) (concat (map command_text sample_commands)) command_start of
      Inl f \<Rightarrow> Inl f | Inr st1 \<Rightarrow> Inr (playback_of st1, map (text_of st1) [cm_title st1, cm_artist st1, cm_album st1]))
    = Inr (\<lparr>pb_duration = 180, pb_progress = 0, pb_status = PAUSED, pb_artwork = [Artwork_fetched (str ''http://host/a=b'')]\<rparr>,
        [[], [], []])"
proof -
  have wf: "\<forall>c \<in> set sample_commands. well_formed c" "sample_commands \<noteq> []"
    by (simp_all add: sample_commands_def well_formed_def str_def)
  have len: "length (concat (map command_text sample_commands)) < 512"
    by (simp add: sample_commands_def command_text_def str_def)
  have st: "length (cm_buf command_start) = 512" "set (cm_buf command_start) \<subseteq> {0}"
    by (auto simp: command_start_def)
  have "playback_of command_start = \<lparr>pb_duration = 0, pb_progress = 0, pb_status = STOPPED, pb_artwork = []\<rparr>"
    by (simp add: playback_of_def command_start_def)
  moreover have "interpret_all sample_env sample_commands \<lparr>pb_duration = 0, pb_progress = 0, pb_status = STOPPED, pb_artwork = []\<rparr>
      = Inr \<lparr>pb_duration = 180, pb_progress = 0, pb_status = PAUSED, pb_artwork = [Artwork_fetched (str ''http://host/a=b'')]\<rparr>"
    by code_simp
  ultimately show ?thesis
    using commands_interpreted [OF wf len st, of "\<lambda>i. True" sample_env] by simp
qed

theorem command_reader_faults_witness:
  "command_read sample_env (\<lambda>i. True) (str ''='' @ [10]) command_start = Inl Null_deref
   \<and> command_read sample_env (\<lambda>i. True) (replicate 512 65) command_start = Inl Out_of_bounds"
proof -
  have len: "length (cm_buf command_start) = 512" by (simp add: command_start_def)
  show ?thesis
    using command_reader_faults(1) [OF len, of "\<lambda>i. True" 0 sample_env "[]"]
      command_reader_faults(2) [OF len, of "\<lambda>i. True" "replicate 512 65" sample_env]
    by (simp add: str_def)
qed

subsection \<open>Password\<close>

theorem player_password_outcome_witness:
  "player_password (Some (str ''c2VjcmV0MQ'')) (Some (str ''TRUE'')) (Some (str ''0123456'')) = Inr (Some [67, 84, 81, 65, 81, 65, 7])
   \<and> player_password (Some (str ''c2U'')) (Some (str ''TRUE'')) (Some (str ''0123456'')) = Inl Out_of_bounds"
proof -
  have w: "strcasecmp_eq (str ''TRUE'') (str ''true'')" by code_simp
  have data: "filter (\<lambda>c. c \<noteq> 61) (base64_encode (str ''secret1'')) = str ''c2VjcmV0MQ''"
      "filter (\<lambda>c. c \<noteq> 61) (base64_encode (str ''se'')) = str ''c2U''" by code_simp+
  have ne: "str ''secret1'' \<noteq> []" "str ''se'' \<noteq> []" by (simp_all add: str_def)
  have "c_string (map2 (\<lambda>a b. a XOR b) (str ''secret1'') (str ''0123456'' @ [0])) = [67, 84, 81, 65, 81, 65, 7]" by code_simp
  then show ?thesis
    using player_password_outcome [OF w ne(1), of "Some (str ''0123456'')"] player_password_outcome [OF w ne(2), of "Some (str ''0123456'')"]
    unfolding data by (simp add: str_def)
qed

subsection \<open>The program\<close>

definition sample_init :: "int \<Rightarrow> init_answers" where
  "sample_init browse = \<lparr>ia_timing = (5, 6001), ia_timing_ev = True, ia_control = (6, 6002), ia_control_ev = True, ia_thread = True,
     ia_browse = browse\<rparr>"

definition empty_world :: "unit world" where
  "empty_world = \<lparr>w_sessions = [], w_masters = [], w_devices = [], w_ctxs = [], w_dangling = [], w_status = [], w_metadata = None, w_next = 1\<rparr>"



end
