(* ===== verification/Spec2Isabelle.thy ===== *)
theory Spec2Isabelle
  imports Samples Airplay_Samples Rtsp_Samples Airplay_World_Samples Outputs_Samples Channel_Samples Player_Samples
begin

text \<open>
  The AirPlay 2 sender of this repository: pairing with a device (HomeKit pairing,
  \<open>src/pair_ap/\<close>), the RTSP client that carries the control requests (\<open>src/evrtsp/rtsp.c\<close>), and the
  media path that encodes, encrypts and sends audio packets (\<open>src/airplay.c\<close>, \<open>src/rtp_common.c\<close>).

  How the parts interact. A device is first paired. Client and server exchange TLV messages
  (\<open>pair-tlv.c\<close>); pair setup runs SRP on the pin and exchanges long-term keys, pair verify signs
  ephemeral keys with them. Both leave a shared secret, from which \<open>cipher_new\<close> derives the keys of a
  channel. The RTSP connection hands its bytes to that cipher through a callback (\<open>rtsp_cipher\<close>), so
  do the events connection (\<open>buffer_encrypt\<close>, \<open>buffer_decrypt\<close>). A master session encodes the player's
  samples once for all sessions of a quality, keeps the packets in a ring buffer, and encrypts each
  packet for each session; a device asks for lost packets over the control service. What a session does
  on its control connection is a sequence of requests from a table; the callback of a request reads the
  response, sends the next request, gives way to another sequence, or ends the session. The player does
  not call \<open>airplay.c\<close> itself: \<open>outputs.c\<close> keeps the list of devices, gives each call a callback in a
  register, and calls the player back later, from an event, when the output has answered.

  Theories and sources.
  \<^item> \<^theory_text>\<open>Prelude\<close>: faults and results, byte order, C strings, decimal numbers, lists.
  \<^item> \<^theory_text>\<open>Tlv\<close>: \<open>pair-tlv.c\<close>, every operation with its loops. A message that never ends parsing is a fault.
  \<^item> \<^theory_text>\<open>Rtp\<close>: \<open>rtp_common.c\<close>, the packet ring buffer, RTCP sync packets and the parser of RTCP.
  \<^item> \<^theory_text>\<open>Crypto\<close>: the libraries (libgcrypt's bignums, OpenSSL's digests and HKDF, libsodium) as one record
    of functions, with the documented laws as named hypotheses; the helpers of \<open>pair.c\<close> and
    \<open>pair_homekit.c\<close> over them. The build defines both CONFIG_GCRYPT and CONFIG_OPENSSL, hence the
    mixture. \<^theory_text>\<open>Sample_Crypto\<close> gives an instance that obeys the laws.
  \<^item> \<^theory_text>\<open>Srp\<close>: the SRP part of \<open>pair_homekit.c\<close>, both sides.
  \<^item> \<^theory_text>\<open>Homekit_Base\<close>, \<^theory_text>\<open>Homekit_Client\<close>, \<^theory_text>\<open>Homekit_Server\<close>: the contexts of \<open>pair-internal.h\<close>, and every
    request and response handler of \<open>pair_homekit.c\<close>.
  \<^item> \<^theory_text>\<open>Cipher\<close>: \<open>cipher_new\<close>, \<open>encrypt\<close>, \<open>decrypt\<close> and the rollbacks. \<^theory_text>\<open>Pair\<close>: the interface of \<open>pair.c\<close>
    over operation tables. \<^theory_text>\<open>Pair_Fruit\<close>: the older protocol of \<open>pair_fruit.c\<close> and its table.
    \<^theory_text>\<open>Pairings\<close>: adding, removing and listing pairings.
  \<^item> \<^theory_text>\<open>Cipher_Stream\<close>: \<open>rtsp_cipher\<close>, \<open>buffer_encrypt\<close> and \<open>buffer_decrypt\<close>.
  \<^item> \<^theory_text>\<open>Airplay_Session\<close>, \<^theory_text>\<open>Airplay_Audio\<close>: the sessions of \<open>airplay.c\<close>, \<open>airplay_write\<close> with all it calls, the
    control and the timing service.
  \<^item> \<^theory_text>\<open>Rtsp\<close>, \<^theory_text>\<open>Rtsp_Connection\<close>: headers, requests and the parser of \<open>evrtsp/rtsp.c\<close>; the connection with
    its queue of requests and a function for every event.
  \<^item> \<^theory_text>\<open>Device\<close>: the devices of \<open>outputs.h\<close>. \<^theory_text>\<open>Airplay_Requests\<close>: headers, digest authentication and the
    payload of every request of \<open>airplay.c\<close>. \<^theory_text>\<open>Airplay_World\<close>: the state of \<open>airplay.c\<close> with all sessions,
    their making and freeing. \<^theory_text>\<open>Airplay_Sequences\<close>: the tables, \<open>sequence_start\<close>, \<open>sequence_continue\<close> and the
    operations on devices. \<^theory_text>\<open>Airplay_Handlers\<close>: every response handler. \<^theory_text>\<open>Airplay_Events\<close>: the callback of a
    request, the events of connections, timers and the player's calls, and runs of them.
  \<^item> \<^theory_text>\<open>Airplay_Discovery\<close>: the callback for a device found or lost, with its features.
    \<^theory_text>\<open>Airplay_Event_Channel\<close>: \<open>airplay_events.c\<close>, the connections on which devices send commands, and its thread.
  \<^item> \<^theory_text>\<open>Outputs_Register\<close>, \<^theory_text>\<open>Outputs_Volume\<close>, \<^theory_text>\<open>Outputs_Devices\<close>, \<^theory_text>\<open>Outputs_Quality\<close>, \<^theory_text>\<open>Outputs\<close>: \<open>outputs.c\<close>,
    its register of callbacks, volumes (with the rounding of \<open>float\<close>), the sort of devices, subscriptions
    and the output buffer; the operations on devices over the model of \<open>airplay.c\<close>, the deferred callbacks.
  \<^item> \<^theory_text>\<open>Player_Commands\<close>, \<^theory_text>\<open>Player_Options\<close>, \<^theory_text>\<open>Player\<close>: \<open>cliairplay2.c\<close>, the command pipe, the options with password and
    device, and the life of the program with \<open>airplay_init\<close>, \<open>airplay_deinit\<close> and the services of \<open>airplay.c\<close>.
  \<^item> \<^theory_text>\<open>Misc\<close>: \<open>misc.c\<close>, number conversions, strings, keyval lists, the byte ring buffer, times.

  What the lemmas show.
  \<^item> \<^theory_text>\<open>Handshake\<close>, \<^theory_text>\<open>Setup_Run\<close>, \<^theory_text>\<open>Verify_Run\<close>: honest runs of pair setup and pair verify end with the same
    secret; this theory composes them with the cipher. \<^theory_text>\<open>Pairing_Safety\<close>: what a party has checked when
    its context is completed, and the ways around these checks.
  \<^item> \<^theory_text>\<open>Cipher\<close> and \<^theory_text>\<open>Cipher_Stream\<close>: round trips, integrity, rollbacks, the read past the buffer, and streams
    cut anywhere. \<^theory_text>\<open>Tlv\<close>: the parser accepts exactly what the formatter makes.
  \<^item> \<^theory_text>\<open>Rtp\<close>: the ring buffer is a bounded queue; \<^theory_text>\<open>Airplay_Stream\<close>: a streaming session gets each full
    block once, encrypted, with running numbers; joining, sending again, the missing encoder.
  \<^item> \<^theory_text>\<open>Rtsp_Parsing\<close>, \<^theory_text>\<open>Rtsp_Reading\<close>, \<^theory_text>\<open>Rtsp_Responses\<close>, \<^theory_text>\<open>Rtsp_Cipher\<close>: requests and responses survive their
    transport however it cuts them, encrypted or not, and where they are misread. \<^theory_text>\<open>Rtsp_Runs\<close>: an
    inductive relation for the runs of a connection; its invariant and the account of callbacks.
  \<^item> \<^theory_text>\<open>Rtsp_Callbacks\<close>: what an event of a connection may do for its user. \<^theory_text>\<open>Airplay_Shapes\<close>: what payload
    functions and handlers leave alone; \<^theory_text>\<open>Airplay_Lifetime\<close>, \<^theory_text>\<open>Airplay_Safety\<close>: the invariant of sessions,
    connections, requests and contexts, and that no freed memory is used while connection attempts
    succeed; \<^theory_text>\<open>Airplay_Failures\<close>: what happens when one fails.
  \<^item> \<^theory_text>\<open>Outputs_Safety\<close>, \<^theory_text>\<open>Outputs_Runs\<close>: the invariant of \<open>outputs.c\<close> over all runs; \<^theory_text>\<open>Outputs_Deferred\<close>: every answer
    reaches its callback once. The theories of its parts show that the register is well formed but callbacks
    may cross, what the volumes come to, that the sort is stable, and that subscriptions are a multiset.
  \<^item> \<^theory_text>\<open>Fruit_Properties\<close>: SRP of the older protocol agrees, and what that protocol does not protect. A discovered
    device is what it announces, a command of a device reaches the player once, if the thread still runs.
  \<^item> \<^theory_text>\<open>Player_Commands\<close>: commands mean what they say but titles are lost. \<^theory_text>\<open>Player\<close>: what the modules make is released
    once, and that the program frees more than that. \<^theory_text>\<open>Player_Options\<close>: base 64.
  \<^item> \<^theory_text>\<open>Misc_Properties\<close>: the helpers of \<open>misc.c\<close>.
  \<^item> \<^theory_text>\<open>Samples\<close>, \<^theory_text>\<open>Airplay_Samples\<close>, \<^theory_text>\<open>Rtsp_Samples\<close>, \<^theory_text>\<open>Airplay_World_Samples\<close>,
    \<^theory_text>\<open>Outputs_Samples\<close>, \<^theory_text>\<open>Channel_Samples\<close>, \<^theory_text>\<open>Player_Samples\<close>: the properties at concrete inputs.

  Conventions. A fault (a null pointer used, an access out of bounds, a failed assertion, a loop that
  never ends) is \<open>Inl\<close>, a return value \<open>Inr\<close>, a null result \<open>None\<close>. Random bytes, uninitialised memory,
  the encoder, the clock's fraction, what the network takes, \<open>evbuffer_readln\<close> and the outcome of
  connecting are arguments. Evbuffers are byte lists. Callbacks of the user are entries in a log that
  the code does not have. Fuel: the header parser's loop gets the length of its buffer plus one, and each
  round takes at least one byte. Loops of the TLV parser that do not end are recognised exactly. The loop
  over the requests of a failed connection gets its number of rounds from the event (\<open>an_rounds\<close>); it is
  used up only by the error theorems, which need two. Property lists, MD5, settings and the volume as
  text are arguments, and so are AES, the transcoder and what the player does in its callbacks. A pointer to
  a session is a number that is never used twice, so that the use of a session, master session, request or
  context after it was freed is the fault \<open>Freed\<close>. The assertions of \<open>rtsp.c\<close> are faults, although the
  Makefile switches them off by NDEBUG.

  Bounds. Words have the width of the C type where they wrap (sequence numbers, RTP times, packet
  lengths of RTCP, counters of nonces); sizes are unbounded. The number of blocks of the cipher is an
  \<open>int\<close> in the code and does not overflow here.

  Not modelled. Memory that runs out, clean-up functions that only free, log output. Service discovery itself,
  transcoding, HTTP, configuration, threads and the platform layer are bindings to libraries. Of \<open>airplay.c\<close>,
  the making of sockets is open; of \<open>rtsp.c\<close>, sockets and name resolution; of \<open>misc.c\<close>,
  sockets, files and threads.
\<close>

subsection \<open>From the pin to the cipher\<close>

text \<open>What a server has stored of its pairings when it keeps what its callback got: a key by identifier.\<close>

definition stored_keys :: "setup_ctx \<Rightarrow> bytes \<Rightarrow> bytes option" where
  "stored_keys s = map_of (map (\<lambda>(pk, ident). (ident, pk)) (s_cb_calls s))"

lemma pair_verify_new_exists:
  assumes "initialized C" and "length csk = 64" and "length spk = 32" and "length cid < 64" and "length sid < 64"
  shows "\<exists>cv. pair_verify_new (homekit_table fruit) C PAIR_CLIENT_HOMEKIT_NORMAL (Some (client_keys_text csk spk)) None (Some cid) =
      Inr (Some cv)"
    and "\<exists>sv. pair_verify_new (homekit_table fruit) C PAIR_SERVER_HOMEKIT None get_cb (Some sid) = Inr (Some sv)"
  using assms hexread_client_keys [OF assms(2), of spk]
  by (auto simp: pair_verify_new_def verify_table_defs client_verify_new_def server_verify_new_def
      PAIR_AP_DEVICE_ID_LEN_MAX_def Let_def split: prod.split)

lemma cipher_pair:
  assumes "kdf_ok C" and "aead_ok C"
  shows "\<exists>a b. pair_cipher_new (homekit_table fruit) C PAIR_CLIENT_HOMEKIT_NORMAL 0 secret = Inr (Some a)
     \<and> pair_cipher_new (homekit_table fruit) C PAIR_SERVER_HOMEKIT 2 secret = Inr (Some b)
     \<and> (\<forall>plain. plain \<noteq> [] \<longrightarrow> (\<exists>c a' b'.
           pair_encrypt (homekit_table fruit) C plain a = (int (length plain), Some (c, length c), a')
         \<and> pair_decrypt (homekit_table fruit) C c b = Inr (int (length c), Some plain, b')))"
proof -
  obtain w where w: "hkdf_extract_expand C 32 secret PAIR_CONTROL_WRITE = Inr (Some w)"
    using hkdf_some [OF assms(1), of PAIR_CONTROL_WRITE secret] by auto
  obtain r where r: "hkdf_extract_expand C 32 secret PAIR_CONTROL_READ = Inr (Some r)"
    using hkdf_some [OF assms(1), of PAIR_CONTROL_READ secret] by auto
  let ?ctx = "\<lambda>ty enc dec. \<lparr>c_type = ty, c_encryption_key = enc, c_decryption_key = dec,
                 c_encryption_counter = 0, c_decryption_counter = 0,
                 c_encryption_counter_prev = 0, c_decryption_counter_prev = 0, c_errmsg = None\<rparr>"
  let ?a = "?ctx PAIR_CLIENT_HOMEKIT_NORMAL w r" and ?b = "?ctx PAIR_SERVER_HOMEKIT r w"
  have "pair_cipher_new (homekit_table fruit) C PAIR_CLIENT_HOMEKIT_NORMAL 0 secret = Inr (Some ?a)"
    "pair_cipher_new (homekit_table fruit) C PAIR_SERVER_HOMEKIT 2 secret = Inr (Some ?b)"
    using w r by (simp_all add: pair_cipher_new_def verify_table_defs cipher_new_def channel_keys_def)
  moreover have "pair_encrypt (homekit_table fruit) C plain ?a = encrypt C plain ?a"
    "pair_decrypt (homekit_table fruit) C c ?b = decrypt C c ?b" for plain c
    by (simp_all add: homekit_cipher_eq homekit_table_cipher)
  moreover have "\<exists>c a' b'. encrypt C plain ?a = (int (length plain), Some (c, length c), a')
      \<and> decrypt C c ?b = Inr (int (length c), Some plain, b')" if "plain \<noteq> []" for plain
    using encrypt_decrypt [OF assms(2) that, of ?b ?a] by auto
  ultimately show ?thesis
    by (intro exI [of _ ?a] exI [of _ ?b]) simp
qed



end
